(* ===== verification/Prelude.thy ===== *)
theory Prelude
  imports Main "HOL-Library.Word" "HOL-Library.Sublist"
begin

text \<open>
  Vocabulary shared by every theory of the development: the machine integer types, the
  result type of fallible code, hash tables as finite maps, and the generic list and map
  lemmas the components use.

  A Rust \<open>Result<T, E>\<close> is a sum: \<open>Err e\<close> is \<open>Inl e\<close> and \<open>Ok x\<close> is \<open>Inr x\<close>.
  A \<open>HashMap\<close> whose iteration order the code never observes is a partial map; where the
  order is observable (the code iterates and the result is a sequence), the component
  takes the entries as a list in iteration order.
\<close>

section \<open>Types\<close>

type_synonym u8 = "8 word"
type_synonym u16 = "16 word"
type_synonym u32 = "32 word"
type_synonym u64 = "64 word"
type_synonym ('e, 'a) result = "'e + 'a"
type_synonym ('k, 'v) hash_map = "'k \<rightharpoonup> 'v"

abbreviation Ok :: "'a \<Rightarrow> ('e, 'a) result" where "Ok \<equiv> Inr"
abbreviation Err :: "'e \<Rightarrow> ('e, 'a) result" where "Err \<equiv> Inl"

section \<open>Collections of rules\<close>

named_theorems map_rules "what a table holds after an operation"
named_theorems str_rules "how the string primitives compute on shaped arguments"
named_theorems inv_rules "operations preserve the invariant of their component"

section \<open>The question mark operator\<close>

definition and_then :: "('e, 'a) result \<Rightarrow> ('a \<Rightarrow> ('e, 'b) result) \<Rightarrow> ('e, 'b) result" where
  "and_then r f = (case r of Inl e \<Rightarrow> Inl e | Inr x \<Rightarrow> f x)"

lemma and_then_simps [simp]:
  "and_then (Inl e) f = Inl e"
  "and_then (Inr x) f = f x"
  by (simp_all add: and_then_def)

lemma and_then_eq_Inr: "and_then r f = Inr y \<longleftrightarrow> (\<exists>x. r = Inr x \<and> f x = Inr y)"
  by (cases r) auto

section \<open>Hash tables\<close>

definition insert_all :: "('k \<times> 'v) list \<Rightarrow> ('k, 'v) hash_map \<Rightarrow> ('k, 'v) hash_map" where
  "insert_all kvs m = fold (\<lambda>(k, v) acc. acc(k \<mapsto> v)) kvs m"

lemma insert_all_simps [simp]:
  "insert_all [] m = m"
  "insert_all ((k, v) # kvs) m = insert_all kvs (m(k \<mapsto> v))"
  by (simp_all add: insert_all_def)

lemma insert_all_append: "insert_all (xs @ ys) m = insert_all ys (insert_all xs m)"
  by (simp add: insert_all_def)

lemma insert_all_eq [map_rules]: "insert_all kvs m = m ++ map_of (rev kvs)"
proof (induction kvs arbitrary: m)
  case Nil
  then show ?case by simp
next
  case (Cons kv kvs)
  then show ?case by (cases kv) (auto simp: fun_eq_iff map_add_def split: option.splits)
qed

lemma insert_all_dom: "dom (insert_all kvs m) = fst ` set kvs \<union> dom m"
  by (simp add: insert_all_eq dom_map_of_conv_image_fst)

text \<open>With distinct keys the order of insertion is not observable.\<close>

lemma insert_all_distinct:
  assumes "distinct (map fst kvs)"
  shows "insert_all kvs m = m ++ map_of kvs"
proof -
  have "map_of (rev kvs) = map_of kvs"
    using assms by (simp add: map_of_inject_set rev_map [symmetric])
  then show ?thesis by (simp add: insert_all_eq)
qed

section \<open>Lists\<close>

lemma list_all_filter: "list_all P xs \<Longrightarrow> list_all P (filter Q xs)"
  by (induction xs) auto

lemma distinct_snoc_notin: "distinct xs \<Longrightarrow> x \<notin> set xs \<Longrightarrow> distinct (xs @ [x])"
  by simp

lemma take_append_le: "length xs \<le> n \<Longrightarrow> take n (xs @ ys) = xs @ take (n - length xs) ys"
  by simp

end
