(* ===== verification/RustStr.thy ===== *)
theory RustStr
  imports Prelude
begin

text \<open>
  Rust strings. A \<open>String\<close> or \<open>&str\<close> is the list of its UTF-8 bytes, so \<open>length\<close> is
  Rust's \<open>len()\<close> and every offset is a byte offset. The primitives of \<open>str\<close> the program uses
  are defined here once. White space is the Unicode property \<open>White_Space\<close> that \<open>trim\<close> tests,
  as UTF-8 sequences; on valid UTF-8 a sequence can only match at a character boundary, so
  trimming bytes is trimming characters. \<open>to_ascii_*\<close> are exact. \<open>to_lowercase\<close> is exact on
  ASCII text; \<open>to_uppercase\<close> also maps the characters whose upper case is ASCII text, which
  is what a comparison with an ASCII literal can observe.
\<close>

type_synonym str = string

definition bytes :: "nat list \<Rightarrow> str" where
  "bytes ns = map char_of ns"

section \<open>Prefixes and suffixes\<close>

fun strip_prefix :: "str \<Rightarrow> str \<Rightarrow> str option" where
  "strip_prefix [] s = Some s"
| "strip_prefix (p # ps) [] = None"
| "strip_prefix (p # ps) (c # cs) = (if p = c then strip_prefix ps cs else None)"

definition strip_suffix :: "str \<Rightarrow> str \<Rightarrow> str option" where
  "strip_suffix p s = map_option rev (strip_prefix (rev p) (rev s))"

definition starts_with :: "str \<Rightarrow> str \<Rightarrow> bool" where
  "starts_with p s \<longleftrightarrow> strip_prefix p s \<noteq> None"

definition ends_with :: "str \<Rightarrow> str \<Rightarrow> bool" where
  "ends_with p s \<longleftrightarrow> strip_suffix p s \<noteq> None"

lemma strip_prefix_Some: "strip_prefix p s = Some r \<longleftrightarrow> s = p @ r"
  by (induction p s rule: strip_prefix.induct) auto

lemma strip_prefix_append [simp]: "strip_prefix p (p @ r) = Some r"
  by (simp add: strip_prefix_Some)

lemma strip_prefix_None: "strip_prefix p s = None \<longleftrightarrow> \<not> prefix p s"
  by (induction p s rule: strip_prefix.induct) auto

lemma strip_suffix_Some: "strip_suffix p s = Some r \<longleftrightarrow> s = r @ p"
proof -
  have "strip_suffix p s = Some r \<longleftrightarrow> strip_prefix (rev p) (rev s) = Some (rev r)"
    by (auto simp: strip_suffix_def)
  also have "\<dots> \<longleftrightarrow> rev s = rev p @ rev r"
    by (rule strip_prefix_Some)
  also have "\<dots> \<longleftrightarrow> s = r @ p"
    by (metis rev_append rev_rev_ident)
  finally show ?thesis .
qed

lemma strip_suffix_append [simp]: "strip_suffix p (r @ p) = Some r"
  by (simp add: strip_suffix_Some)

lemma starts_with_iff: "starts_with p s \<longleftrightarrow> (\<exists>r. s = p @ r)"
  using strip_prefix_Some[of p s] by (auto simp: starts_with_def)

lemma ends_with_iff: "ends_with p s \<longleftrightarrow> (\<exists>r. s = r @ p)"
  using strip_suffix_Some[of p s] by (auto simp: ends_with_def)

lemma strip_prefix_length: "strip_prefix p s = Some r \<Longrightarrow> length s = length p + length r"
  by (simp add: strip_prefix_Some)

section \<open>Searching\<close>

text \<open>\<open>split_once\<close> cuts a string at the first occurrence of the pattern.\<close>

fun split_once :: "str \<Rightarrow> str \<Rightarrow> (str \<times> str) option" where
  "split_once p s =
     (case strip_prefix p s of
        Some r \<Rightarrow> Some ([], r)
      | None \<Rightarrow> (case s of
                  [] \<Rightarrow> None
                | c # cs \<Rightarrow> map_option (\<lambda>(a, b). (c # a, b)) (split_once p cs)))"

declare split_once.simps [simp del]

definition contains :: "str \<Rightarrow> str \<Rightarrow> bool" where
  "contains p s \<longleftrightarrow> split_once p s \<noteq> None"

text \<open>\<open>find_sub\<close> is \<open>str::find\<close>: the byte offset of the first occurrence.\<close>

definition find_sub :: "str \<Rightarrow> str \<Rightarrow> nat option" where
  "find_sub p s = map_option (\<lambda>(a, b). length a) (split_once p s)"

lemma split_once_Nil: "split_once p [] = (if p = [] then Some ([], []) else None)"
  by (cases p) (simp_all add: split_once.simps)

lemma split_once_Cons:
  "split_once p (c # cs) =
     (case strip_prefix p (c # cs) of
        Some r \<Rightarrow> Some ([], r)
      | None \<Rightarrow> map_option (\<lambda>(a, b). (c # a, b)) (split_once p cs))"
  by (subst split_once.simps) (auto split: option.splits)

lemma split_once_Some_eq: "split_once p s = Some (a, b) \<Longrightarrow> s = a @ p @ b"
proof (induction s arbitrary: a b)
  case Nil
  then show ?case by (auto simp: split_once_Nil split: if_splits)
next
  case (Cons c cs)
  then show ?case
    by (auto simp: split_once_Cons strip_prefix_Some split: option.splits)
qed

lemma split_once_length:
  "split_once p s = Some (a, b) \<Longrightarrow> length s = length a + length p + length b"
  using split_once_Some_eq[of p s a b] by simp

lemma split_once_None: "split_once p s = None \<longleftrightarrow> \<not> (\<exists>a b. s = a @ p @ b)"
proof (induction s)
  case Nil
  then show ?case by (auto simp: split_once_Nil)
next
  case (Cons c cs)
  show ?case
  proof (cases "strip_prefix p (c # cs)")
    case None
    then have np: "\<not> (\<exists>r. c # cs = p @ r)"
      by (metis option.distinct(1) strip_prefix_Some)
    have "(\<exists>a b. c # cs = a @ p @ b) \<longleftrightarrow> (\<exists>a b. cs = a @ p @ b)"
      using np by (metis append_Cons append_Nil list.inject neq_Nil_conv)
    with None Cons show ?thesis by (auto simp: split_once_Cons)
  next
    case (Some r)
    then have "c # cs = [] @ p @ r" by (simp add: strip_prefix_Some)
    then have "\<exists>a b. c # cs = a @ p @ b" by blast
    with Some show ?thesis by (simp add: split_once_Cons)
  qed
qed

lemma contains_iff: "contains p s \<longleftrightarrow> (\<exists>a b. s = a @ p @ b)"
  by (simp add: contains_def split_once_None)

text \<open>The part before the cut has no occurrence, not even one that overlaps the cut.\<close>

lemma split_once_first:
  assumes "split_once p s = Some (a, b)" and "i < length a"
  shows "strip_prefix p (drop i s) = None"
  using assms
proof (induction s arbitrary: a i)
  case Nil
  then show ?case by (auto simp: split_once_Nil split: if_splits)
next
  case (Cons c cs)
  then show ?case
    by (cases i) (auto simp: split_once_Cons split: option.splits)
qed

text \<open>A pattern of one byte.\<close>

lemma split_once_char:
  "split_once [d] s = (if d \<in> set s then Some (takeWhile (\<lambda>c. c \<noteq> d) s, tl (dropWhile (\<lambda>c. c \<noteq> d) s)) else None)"
  by (induction s) (auto simp: split_once_Nil split_once_Cons)

lemma split_once_char_append [str_rules]:
  "d \<notin> set a \<Longrightarrow> split_once [d] (a @ d # b) = Some (a, b)"
  by (induction a) (auto simp: split_once_Nil split_once_Cons)

lemma split_once_char_None [str_rules]: "split_once [d] s = None \<longleftrightarrow> d \<notin> set s"
  by (simp add: split_once_char)

section \<open>Splitting and joining\<close>

text \<open>\<open>s.split(d)\<close> for a one-byte separator: the pieces between the separators.\<close>

fun split_on :: "char \<Rightarrow> str \<Rightarrow> str list" where
  "split_on d [] = [[]]"
| "split_on d (c # cs) =
     (if c = d then [] # split_on d cs
      else (case split_on d cs of [] \<Rightarrow> [[c]] | w # ws \<Rightarrow> (c # w) # ws))"

fun join :: "str \<Rightarrow> str list \<Rightarrow> str" where
  "join sep [] = []"
| "join sep [x] = x"
| "join sep (x # y # ys) = x @ sep @ join sep (y # ys)"

lemma split_on_nonempty [simp]: "split_on d s \<noteq> []"
  by (induction d s rule: split_on.induct) (auto split: list.splits)

lemma join_split_on: "join [d] (split_on d s) = s"
proof (induction d s rule: split_on.induct)
  case (1 d)
  then show ?case by simp
next
  case (2 d c cs)
  then show ?case
    by (cases "split_on d cs") (auto split: list.splits, (metis append_Cons join.simps(2,3) neq_Nil_conv)+)
qed

lemma split_on_pieces: "x \<in> set (split_on d s) \<Longrightarrow> d \<notin> set x"
proof (induction d s arbitrary: x rule: split_on.induct)
  case (1 d)
  then show ?case by simp
next
  case (2 d c cs)
  then show ?case by (cases "split_on d cs") (auto split: if_splits)
qed

lemma split_on_plain: "d \<notin> set s \<Longrightarrow> split_on d s = [s]"
  by (induction s) auto

lemma split_on_append: "d \<notin> set a \<Longrightarrow> split_on d (a @ d # b) = a # split_on d b"
  by (induction a) auto

lemma split_on_join:
  "ws \<noteq> [] \<Longrightarrow> (\<And>w. w \<in> set ws \<Longrightarrow> d \<notin> set w) \<Longrightarrow> split_on d (join [d] ws) = ws"
proof (induction ws)
  case Nil
  then show ?case by simp
next
  case (Cons w ws)
  then show ?case by (cases ws) (simp_all add: split_on_append split_on_plain)
qed

section \<open>White space\<close>

definition ws_seqs :: "str list" where
  "ws_seqs =
     [[CHR 0x20], [CHR 0x09], [CHR 0x0A], [CHR 0x0B], [CHR 0x0C], [CHR 0x0D],
      [CHR 0xC2, CHR 0x85], [CHR 0xC2, CHR 0xA0], [CHR 0xE1, CHR 0x9A, CHR 0x80],
      [CHR 0xE2, CHR 0x80, CHR 0x80], [CHR 0xE2, CHR 0x80, CHR 0x81], [CHR 0xE2, CHR 0x80, CHR 0x82], [CHR 0xE2, CHR 0x80, CHR 0x83],
      [CHR 0xE2, CHR 0x80, CHR 0x84], [CHR 0xE2, CHR 0x80, CHR 0x85], [CHR 0xE2, CHR 0x80, CHR 0x86], [CHR 0xE2, CHR 0x80, CHR 0x87],
      [CHR 0xE2, CHR 0x80, CHR 0x88], [CHR 0xE2, CHR 0x80, CHR 0x89], [CHR 0xE2, CHR 0x80, CHR 0x8A], [CHR 0xE2, CHR 0x80, CHR 0xA8],
      [CHR 0xE2, CHR 0x80, CHR 0xA9], [CHR 0xE2, CHR 0x80, CHR 0xAF], [CHR 0xE2, CHR 0x81, CHR 0x9F], [CHR 0xE3, CHR 0x80, CHR 0x80]]"

fun strip_first :: "str list \<Rightarrow> str \<Rightarrow> str option" where
  "strip_first [] s = None"
| "strip_first (p # ps) s = (case strip_prefix p s of Some r \<Rightarrow> Some r | None \<Rightarrow> strip_first ps s)"

lemma strip_first_Some: "strip_first ps s = Some r \<Longrightarrow> \<exists>p \<in> set ps. s = p @ r"
  by (induction ps) (auto simp: strip_prefix_Some split: option.splits)

text \<open>
  \<open>strip_all ps s\<close> removes sequences of \<open>ps\<close> from the front while one matches. The empty
  sequence is not stripped, so the loop ends.
\<close>

function strip_all :: "str list \<Rightarrow> str \<Rightarrow> str" where
  "strip_all ps s =
     (case strip_first ps s of
        Some r \<Rightarrow> if length r < length s then strip_all ps r else s
      | None \<Rightarrow> s)"
  by pat_completeness auto
termination
  by (relation "measure (\<lambda>(ps, s). length s)") auto

declare strip_all.simps [simp del]

definition trim_start :: "str \<Rightarrow> str" where
  "trim_start s = strip_all ws_seqs s"

definition trim_end :: "str \<Rightarrow> str" where
  "trim_end s = rev (strip_all (map rev ws_seqs) (rev s))"

definition trim :: "str \<Rightarrow> str" where
  "trim s = trim_end (trim_start s)"

lemma strip_all_suffix: "\<exists>u. s = u @ strip_all ps s"
proof (induction ps s rule: strip_all.induct)
  case (1 ps s)
  show ?case
  proof (cases "strip_first ps s")
    case None
    then show ?thesis by (simp add: strip_all.simps)
  next
    case (Some r)
    show ?thesis
    proof (cases "length r < length s")
      case True
      have eq: "strip_all ps s = strip_all ps r"
        using Some True by (simp add: strip_all.simps[of ps s])
      from strip_first_Some[OF Some] obtain p where "s = p @ r" by blast
      moreover obtain u where "r = u @ strip_all ps r" using 1 Some True by blast
      ultimately have "s = (p @ u) @ strip_all ps s" using eq by simp
      then show ?thesis by blast
    next
      case False
      with Some show ?thesis by (simp add: strip_all.simps)
    qed
  qed
qed

lemma strip_all_idem: "strip_all ps (strip_all ps s) = strip_all ps s"
proof (induction ps s rule: strip_all.induct)
  case (1 ps s)
  then show ?case
    by (cases "strip_first ps s") (auto simp: strip_all.simps[of ps s])
qed

lemma strip_all_Nil [simp]: "strip_all ps [] = []"
  using strip_all_suffix[of "[]" ps] by auto

lemma trim_start_Nil [simp]: "trim_start [] = []" and trim_end_Nil [simp]: "trim_end [] = []"
  and trim_Nil [simp]: "trim [] = []"
  by (simp_all add: trim_start_def trim_end_def trim_def)

lemma trim_start_suffix: "\<exists>u. s = u @ trim_start s"
  by (simp add: trim_start_def strip_all_suffix)

lemma trim_end_prefix: "\<exists>u. s = trim_end s @ u"
proof -
  obtain u where "rev s = u @ strip_all (map rev ws_seqs) (rev s)"
    using strip_all_suffix by blast
  then have "s = rev (strip_all (map rev ws_seqs) (rev s)) @ rev u"
    by (metis rev_append rev_rev_ident)
  then show ?thesis by (auto simp: trim_end_def)
qed

text \<open>Trimming yields a piece of the string: no byte appears that was not there.\<close>

lemma trim_sublist: "\<exists>u v. s = u @ trim s @ v"
  by (metis append.assoc trim_def trim_end_prefix trim_start_suffix)

lemma set_trim: "set (trim s) \<subseteq> set s"
  using trim_sublist[of s] by (metis Un_iff set_append subsetI)

lemma length_trim: "length (trim s) \<le> length s"
  using trim_sublist[of s] by (metis add.commute le_add1 length_append trans_le_add1)

section \<open>Characters\<close>

text \<open>A character is its UTF-8 bytes: a byte that starts one and the continuation bytes behind it.\<close>

type_synonym uchar = str

definition is_continuation :: "char \<Rightarrow> bool" where
  "is_continuation c \<longleftrightarrow> 128 \<le> (of_char c :: nat) \<and> (of_char c :: nat) < 192"

function uchars :: "str \<Rightarrow> uchar list" where
  "uchars [] = []"
| "uchars (c # cs) = (c # takeWhile is_continuation cs) # uchars (dropWhile is_continuation cs)"
  by pat_completeness auto
termination
  by (relation "measure length") (auto simp: le_imp_less_Suc length_dropWhile_le)

section \<open>Case\<close>

definition ascii_lower :: "char \<Rightarrow> char" where
  "ascii_lower c = (let n = of_char c :: nat in if 65 \<le> n \<and> n \<le> 90 then char_of (n + 32) else c)"

definition ascii_upper :: "char \<Rightarrow> char" where
  "ascii_upper c = (let n = of_char c :: nat in if 97 \<le> n \<and> n \<le> 122 then char_of (n - 32) else c)"

definition to_ascii_lowercase :: "str \<Rightarrow> str" where
  "to_ascii_lowercase s = map ascii_lower s"

definition to_ascii_uppercase :: "str \<Rightarrow> str" where
  "to_ascii_uppercase s = map ascii_upper s"

definition eq_ignore_ascii_case :: "str \<Rightarrow> str \<Rightarrow> bool" where
  "eq_ignore_ascii_case a b \<longleftrightarrow> to_ascii_lowercase a = to_ascii_lowercase b"

definition to_lowercase :: "str \<Rightarrow> str" where
  "to_lowercase s = to_ascii_lowercase s"

definition upper_specials :: "(str \<times> str) list" where
  "upper_specials =
     [([CHR 0xC3, CHR 0x9F], ''SS''), ([CHR 0xC4, CHR 0xB1], ''I''), ([CHR 0xC5, CHR 0xBF], ''S''),
      ([CHR 0xEF, CHR 0xAC, CHR 0x80], ''FF''), ([CHR 0xEF, CHR 0xAC, CHR 0x81], ''FI''),
      ([CHR 0xEF, CHR 0xAC, CHR 0x82], ''FL''), ([CHR 0xEF, CHR 0xAC, CHR 0x83], ''FFI''),
      ([CHR 0xEF, CHR 0xAC, CHR 0x84], ''FFL''), ([CHR 0xEF, CHR 0xAC, CHR 0x85], ''ST''),
      ([CHR 0xEF, CHR 0xAC, CHR 0x86], ''ST'')]"

fun lookup_prefix :: "(str \<times> str) list \<Rightarrow> str \<Rightarrow> (str \<times> str) option" where
  "lookup_prefix [] s = None"
| "lookup_prefix ((p, u) # t) s =
     (case strip_prefix p s of Some r \<Rightarrow> Some (u, r) | None \<Rightarrow> lookup_prefix t s)"

fun to_uppercase_fuel :: "nat \<Rightarrow> str \<Rightarrow> str" where
  "to_uppercase_fuel 0 s = s"
| "to_uppercase_fuel (Suc n) s =
     (case lookup_prefix upper_specials s of
        Some (u, r) \<Rightarrow> u @ to_uppercase_fuel n r
      | None \<Rightarrow> (case s of [] \<Rightarrow> [] | c # cs \<Rightarrow> ascii_upper c # to_uppercase_fuel n cs))"

definition to_uppercase :: "str \<Rightarrow> str" where
  "to_uppercase s = to_uppercase_fuel (length s) s"

lemma ascii_lower_idem [simp]: "ascii_lower (ascii_lower c) = ascii_lower c"
  by (simp add: ascii_lower_def Let_def)

lemma to_ascii_lowercase_idem [simp]:
  "to_ascii_lowercase (to_ascii_lowercase s) = to_ascii_lowercase s"
  by (simp add: to_ascii_lowercase_def)

lemma length_to_ascii [simp]:
  "length (to_ascii_lowercase s) = length s" "length (to_ascii_uppercase s) = length s"
  by (simp_all add: to_ascii_lowercase_def to_ascii_uppercase_def)

lemma eq_ignore_ascii_case_refl [simp]: "eq_ignore_ascii_case s s"
  by (simp add: eq_ignore_ascii_case_def)

lemma eq_ignore_ascii_case_sym: "eq_ignore_ascii_case a b = eq_ignore_ascii_case b a"
  by (auto simp: eq_ignore_ascii_case_def)

lemma eq_ignore_ascii_case_trans:
  "eq_ignore_ascii_case a b \<Longrightarrow> eq_ignore_ascii_case b c \<Longrightarrow> eq_ignore_ascii_case a c"
  by (simp add: eq_ignore_ascii_case_def)

section \<open>Replacement\<close>

text \<open>
  \<open>s.replace(p, v)\<close> for a non-empty pattern: every non-overlapping occurrence, from the
  left. Each occurrence shortens what is left to scan.
\<close>

function replace_all :: "str \<Rightarrow> str \<Rightarrow> str \<Rightarrow> str" where
  "replace_all p v s =
     (if p = [] then s
      else (case split_once p s of
              None \<Rightarrow> s
            | Some (a, b) \<Rightarrow> a @ v @ replace_all p v b))"
  by pat_completeness auto
termination
  by (relation "measure (\<lambda>(p, v, s). length s)") (auto dest: split_once_length)

declare replace_all.simps [simp del]

lemma replace_all_absent: "\<not> contains p s \<Longrightarrow> replace_all p v s = s"
  by (cases "split_once p s") (simp_all add: contains_def replace_all.simps[of p v s])

lemma replace_all_step:
  assumes "\<not> prefix p (c # s)"
  shows "replace_all p v (c # s) = c # replace_all p v s"
proof -
  have "strip_prefix p (c # s) = None" using assms strip_prefix_None by blast
  then show ?thesis
    by (cases "p = []")
       (auto simp: replace_all.simps[of p v "c # s"] replace_all.simps[of p v s] split_once_Cons
         split: option.splits)
qed

lemma replace_all_skip:
  assumes "d \<notin> set a"
  shows "replace_all (d # p) v (a @ s) = a @ replace_all (d # p) v s"
  using assms by (induction a) (auto simp: replace_all_step)

lemma replace_all_here: "p \<noteq> [] \<Longrightarrow> replace_all p v (p @ s) = v @ replace_all p v s"
proof -
  assume "p \<noteq> []"
  moreover from this have "split_once p (p @ s) = Some ([], s)"
    by (cases p) (simp_all add: split_once.simps[of _ "_ # _"])
  ultimately show ?thesis by (simp add: replace_all.simps[of p v "p @ s"])
qed

lemma replace_all_Nil [simp]: "replace_all p v [] = []"
  by (simp add: replace_all.simps[of p v "[]"] split_once_Nil)

section \<open>Numbers\<close>

definition digit_char :: "nat \<Rightarrow> char" where
  "digit_char d = char_of (48 + d)"

fun show_nat :: "nat \<Rightarrow> str" where
  "show_nat n = (if n < 10 then [digit_char n] else show_nat (n div 10) @ [digit_char (n mod 10)])"

declare show_nat.simps [simp del]

definition show_int :: "int \<Rightarrow> str" where
  "show_int i = (if i < 0 then CHR ''-'' # show_nat (nat (- i)) else show_nat (nat i))"

definition digit_val :: "char \<Rightarrow> nat option" where
  "digit_val c = (let n = of_char c :: nat in if 48 \<le> n \<and> n \<le> 57 then Some (n - 48) else None)"

fun parse_digits :: "nat \<Rightarrow> str \<Rightarrow> nat option" where
  "parse_digits acc [] = Some acc"
| "parse_digits acc (c # cs) =
     (case digit_val c of None \<Rightarrow> None | Some d \<Rightarrow> parse_digits (10 * acc + d) cs)"

definition parse_nat :: "str \<Rightarrow> nat option" where
  "parse_nat s = (if s = [] then None else parse_digits 0 s)"

text \<open>\<open>str::parse::<i64>\<close>: an optional sign, decimal digits, and the range of the type.\<close>

definition parse_i64 :: "str \<Rightarrow> int option" where
  "parse_i64 s =
     (let r = (case s of
                 [] \<Rightarrow> None
               | c # cs \<Rightarrow> if c = CHR ''-'' then map_option (\<lambda>n. - int n) (parse_nat cs)
                         else if c = CHR ''+'' then map_option int (parse_nat cs)
                         else map_option int (parse_nat s))
      in (case r of
            Some i \<Rightarrow> if - (2 ^ 63) \<le> i \<and> i < 2 ^ 63 then Some i else None
          | None \<Rightarrow> None))"

lemma digit_val_digit_char [simp]: "d < 10 \<Longrightarrow> digit_val (digit_char d) = Some d"
  by (simp add: digit_val_def digit_char_def Let_def)

lemma parse_digits_snoc:
  "parse_digits acc (s @ [c]) =
     (case parse_digits acc s of None \<Rightarrow> None
      | Some n \<Rightarrow> (case digit_val c of None \<Rightarrow> None | Some d \<Rightarrow> Some (10 * n + d)))"
  by (induction s arbitrary: acc) (auto split: option.splits)

lemma parse_show_nat: "parse_digits 0 (show_nat n) = Some n"
proof (induction n rule: show_nat.induct)
  case (1 n)
  then show ?case
    by (cases "n < 10") (simp_all add: show_nat.simps[of n] parse_digits_snoc)
qed

lemma show_nat_nonempty [simp]: "show_nat n \<noteq> []"
  by (simp add: show_nat.simps[of n])

lemma parse_nat_show_nat [simp]: "parse_nat (show_nat n) = Some n"
  by (simp add: parse_nat_def parse_show_nat)

lemma show_nat_inject: "show_nat m = show_nat n \<longleftrightarrow> m = n"
  by (metis option.inject parse_nat_show_nat)

lemma show_nat_digits: "c \<in> set (show_nat n) \<Longrightarrow> digit_val c \<noteq> None"
proof (induction n rule: show_nat.induct)
  case (1 n)
  then show ?case
    unfolding show_nat.simps[of n] by (cases "n < 10") auto
qed

end
