(* ===== verification/Model.thy ===== *)
theory Model
  imports RustStr
begin

text \<open>
  The domain model, \<open>crates/fox-core/src/model.rs\<close>, and the error type of
  \<open>crates/fox-core/src/error.rs\<close>. Structs are records whose fields carry the struct's initials,
  enums are datatypes. A \<open>Uuid\<close> is its 128 bits, a \<open>DateTime<Utc>\<close> its distance from the epoch
  in nanoseconds, an \<open>f64\<close> its IEEE bit pattern. A user-facing message, which the source
  writes in Chinese, is \<open>Msg t args\<close>: an English gloss of the text and the interpolated values.
\<close>

section \<open>Scalars\<close>

type_synonym uuid = "128 word"
type_synonym datetime = int

text \<open>A table whose iteration order shows: its entries in that order, keys distinct.\<close>

type_synonym 'v str_table = "(str \<times> 'v) list"

text \<open>
  IEEE doubles by their bits. \<open>total_key\<close> is the order of \<open>f64::total_cmp\<close>: the patterns as sign
  and magnitude, a negative zero below the positive one. The usual comparison identifies the
  zeros and is false on NaN.
\<close>

datatype f64 = F64 (f64_bits: u64)

definition f64_negative :: "f64 \<Rightarrow> bool" where
  "f64_negative x \<longleftrightarrow> 2 ^ 63 \<le> unat (f64_bits x)"

definition f64_mag :: "f64 \<Rightarrow> int" where
  "f64_mag x = int (unat (f64_bits x) mod 2 ^ 63)"

definition f64_is_nan :: "f64 \<Rightarrow> bool" where
  "f64_is_nan x \<longleftrightarrow> 0x7FF0000000000000 < f64_mag x"

definition total_key :: "f64 \<Rightarrow> int" where
  "total_key x = (if f64_negative x then - f64_mag x - 1 else f64_mag x)"

definition f64_value_key :: "f64 \<Rightarrow> int" where
  "f64_value_key x = (if f64_negative x then - f64_mag x else f64_mag x)"

definition f64_gt :: "f64 \<Rightarrow> f64 \<Rightarrow> bool" where
  "f64_gt a b \<longleftrightarrow> \<not> f64_is_nan a \<and> \<not> f64_is_nan b \<and> f64_value_key b < f64_value_key a"

definition f64_ge :: "f64 \<Rightarrow> f64 \<Rightarrow> bool" where
  "f64_ge a b \<longleftrightarrow> \<not> f64_is_nan a \<and> \<not> f64_is_nan b \<and> f64_value_key b \<le> f64_value_key a"

lemma total_key_inject: "total_key a = total_key b \<longleftrightarrow> a = b"
proof
  assume eq: "total_key a = total_key b"
  have nn: "0 \<le> f64_mag x" for x by (simp add: f64_mag_def)
  have neg: "f64_negative a = f64_negative b"
    using eq nn[of a] nn[of b] by (auto simp: total_key_def split: if_splits)
  have "unat (f64_bits a) mod 2 ^ 63 = unat (f64_bits b) mod 2 ^ 63"
    using eq neg by (auto simp: total_key_def f64_mag_def split: if_splits)
  moreover have "unat (f64_bits x) div 2 ^ 63 = (if f64_negative x then 1 else 0)" for x
  proof -
    have "unat (f64_bits x) < 2 ^ 64" using unsigned_less[of "f64_bits x"] by simp
    then show ?thesis by (auto simp: f64_negative_def div_eq_dividend_iff le_div_geq)
  qed
  ultimately have "unat (f64_bits a) = unat (f64_bits b)"
    using neg by (metis div_mult_mod_eq)
  then show "a = b" by (metis f64.expand word_unat_eq_iff)
qed simp

instantiation f64 :: linorder
begin

definition less_eq_f64 :: "f64 \<Rightarrow> f64 \<Rightarrow> bool" where
  "less_eq_f64 a b \<longleftrightarrow> total_key a \<le> total_key b"

definition less_f64 :: "f64 \<Rightarrow> f64 \<Rightarrow> bool" where
  "less_f64 a b \<longleftrightarrow> total_key a < total_key b"

instance
  by standard (auto simp: less_eq_f64_def less_f64_def total_key_inject)

end

instantiation f64 :: zero
begin

definition zero_f64 :: f64 where "zero_f64 = F64 0"

instance ..

end

section \<open>JSON values\<close>

text \<open>\<open>serde_json::Value\<close>; an object is its entries, keys distinct.\<close>

datatype jnumber = PosInt u64 | NegInt int | Float f64

datatype json =
    JNull
  | JBool bool
  | JNumber jnumber
  | JString str
  | JArray "json list"
  | JObject "(str \<times> json) list"

definition json_get :: "str \<Rightarrow> json \<Rightarrow> json option" where
  "json_get k v = (case v of JObject kvs \<Rightarrow> map_of kvs k | _ \<Rightarrow> None)"

definition as_array :: "json \<Rightarrow> json list option" where
  "as_array v = (case v of JArray xs \<Rightarrow> Some xs | _ \<Rightarrow> None)"

definition as_str_json :: "json \<Rightarrow> str option" where
  "as_str_json v = (case v of JString s \<Rightarrow> Some s | _ \<Rightarrow> None)"

definition as_u64 :: "json \<Rightarrow> u64 option" where
  "as_u64 v = (case v of JNumber (PosInt n) \<Rightarrow> Some n | _ \<Rightarrow> None)"

section \<open>Errors\<close>

datatype msg = Msg (msg_text: str) (msg_args: "str list")

datatype app_error =
    Database msg | Io msg | Http msg | NetworkTimeout msg | Ssl msg | Dns msg
  | Connection msg | Validation msg | NotFound msg | OpenApi msg | Mock msg | Test msg
  | ScriptError msg | WebSocket msg | Json_Error msg | Decryption msg | OAuth2_Error msg
  | Cancelled msg | Grpc_Error msg

fun user_message :: "app_error \<Rightarrow> msg" where
  "user_message (Database m) = Msg ''database operation failed'' []"
| "user_message (Io m) = Msg ''file operation failed: io error'' (msg_text m # msg_args m)"
| "user_message (Http m) = Msg ''network request failed'' []"
| "user_message (NetworkTimeout m) = Msg ''connection timed out'' []"
| "user_message (Ssl m) = Msg ''TLS certificate error'' []"
| "user_message (Dns m) = Msg ''DNS resolution failed'' []"
| "user_message (Connection m) = Msg ''connection failed'' []"
| "user_message (Validation m) = m"
| "user_message (NotFound m) = Msg ''not found'' (msg_text m # msg_args m)"
| "user_message (OpenApi m) = m"
| "user_message (Mock m) = m"
| "user_message (Test m) = m"
| "user_message (ScriptError m) = m"
| "user_message (WebSocket m) = m"
| "user_message (Json_Error m) = Msg ''JSON parsing failed'' []"
| "user_message (Decryption m) = m"
| "user_message (OAuth2_Error m) = m"
| "user_message (Cancelled m) = Msg ''request cancelled'' []"
| "user_message (Grpc_Error m) = m"

text \<open>
  What \<open>classify\<close> reads of a \<open>reqwest::Error\<close>: its predicates, its own text and the texts of its
  cause chain.
\<close>

record reqwest_error =
  re_is_timeout :: bool
  re_is_connect :: bool
  re_is_builder :: bool
  re_text :: str
  re_causes :: "str list"

definition source_chain :: "reqwest_error \<Rightarrow> str" where
  "source_chain e = join '' | '' (map to_lowercase (re_text e # re_causes e))"

definition classify :: "reqwest_error \<Rightarrow> app_error option" where
  "classify e =
     (let chain = source_chain e; m = Msg (re_text e) [] in
      if re_is_timeout e then Some (NetworkTimeout m)
      else if contains ''lookup'' chain \<or> contains ''name or service not known'' chain
              \<or> contains ''dns'' chain
              \<or> (contains ''resolve'' chain \<and> \<not> contains ''certificate'' chain)
           then Some (Dns m)
      else if contains ''certificate'' chain \<or> contains ''tls'' chain then Some (Ssl m)
      else if re_is_connect e then Some (Connection m)
      else if re_is_builder e then Some (Validation (Msg ''invalid HTTP request parameters'' []))
      else None)"

definition from_reqwest :: "reqwest_error \<Rightarrow> app_error" where
  "from_reqwest e = (case classify e of Some a \<Rightarrow> a | None \<Rightarrow> Http (Msg (re_text e) []))"

section \<open>HTTP methods\<close>

datatype http_method = GET | POST | PUT | DELETE | PATCH | HEAD | OPTIONS | Grpc

definition all_methods :: "http_method list" where
  "all_methods = [GET, POST, PUT, DELETE, PATCH, HEAD, OPTIONS]"

definition all_with_grpc :: "http_method list" where
  "all_with_grpc = [GET, POST, PUT, DELETE, PATCH, HEAD, OPTIONS, Grpc]"

definition is_grpc :: "http_method \<Rightarrow> bool" where
  "is_grpc m \<longleftrightarrow> m = Grpc"

fun method_as_str :: "http_method \<Rightarrow> str" where
  "method_as_str GET = ''GET''"
| "method_as_str POST = ''POST''"
| "method_as_str PUT = ''PUT''"
| "method_as_str DELETE = ''DELETE''"
| "method_as_str PATCH = ''PATCH''"
| "method_as_str HEAD = ''HEAD''"
| "method_as_str OPTIONS = ''OPTIONS''"
| "method_as_str Grpc = ''GRPC''"

definition method_from_str :: "str \<Rightarrow> (app_error, http_method) result" where
  "method_from_str s =
     (let u = to_uppercase s in
      if u = ''GET'' then Ok GET
      else if u = ''POST'' then Ok POST
      else if u = ''PUT'' then Ok PUT
      else if u = ''DELETE'' then Ok DELETE
      else if u = ''PATCH'' then Ok PATCH
      else if u = ''HEAD'' then Ok HEAD
      else if u = ''OPTIONS'' then Ok OPTIONS
      else if u = ''GRPC'' then Ok Grpc
      else Err (Validation (Msg ''unsupported HTTP method'' [u])))"

section \<open>Requests\<close>

datatype endpoint_status = Designing | Developing | Testing | Released | Deprecated

fun status_as_str :: "endpoint_status \<Rightarrow> str" where
  "status_as_str Designing = ''designing''"
| "status_as_str Developing = ''developing''"
| "status_as_str Testing = ''testing''"
| "status_as_str Released = ''released''"
| "status_as_str Deprecated = ''deprecated''"

datatype field_type = FT_String | FT_Number | FT_Boolean | FT_Object

record key_value =
  kv_key :: str
  kv_value :: str
  kv_enabled :: bool
  kv_description :: str
  kv_field_type :: field_type
  kv_required :: bool
  kv_example :: str

definition new_kv :: "str \<Rightarrow> str \<Rightarrow> key_value" where
  "new_kv k v = \<lparr>kv_key = k, kv_value = v, kv_enabled = True, kv_description = [],
     kv_field_type = FT_String, kv_required = True, kv_example = []\<rparr>"

datatype api_key_location = Loc_Header | Loc_Query

datatype signature_algorithm = MD5 | SHA256 | HmacSHA256

datatype signature_encoding = HexLower | HexUpper | Base64

record dynamic_signature_config =
  ds_app_key :: str
  ds_app_secret :: str
  ds_key_header :: str
  ds_timestamp_header :: str
  ds_sig_header :: str
  ds_algorithm :: signature_algorithm
  ds_encoding :: signature_encoding
  ds_payload_template :: str

definition default_signature_config :: dynamic_signature_config where
  "default_signature_config =
     \<lparr>ds_app_key = [], ds_app_secret = [], ds_key_header = ''App-Key'',
      ds_timestamp_header = ''App-Timestamp'', ds_sig_header = ''App-Sig'',
      ds_algorithm = MD5, ds_encoding = HexLower,
      ds_payload_template = ''{{$key}}{{$secret}}{{$timestamp}}''\<rparr>"

record oauth2_token =
  ot_access_token :: str
  ot_token_type :: str
  ot_refresh_token :: "str option"
  ot_expires_at :: datetime

datatype auth_spec =
    Auth_None
  | Bearer (bearer_token: str)
  | Basic str str
  | ApiKey str str api_key_location
  | DynamicSignature dynamic_signature_config
  | OAuth2 (oa_client_id: str) (oa_client_secret: str) (oa_auth_url: str) (oa_token_url: str)
      (oa_scope: str) (oa_redirect_uri: str) (oa_token: "oauth2_token option")
  | Digest str str
  | Hawk str str
  | AwsV4 str str str str "str option"
  | Hmac str str

text \<open>Token life: the current instant \<open>now\<close> stands for \<open>chrono::Utc::now()\<close>.\<close>

definition is_expired :: "datetime \<Rightarrow> oauth2_token \<Rightarrow> bool" where
  "is_expired now t \<longleftrightarrow> ot_expires_at t \<le> now"

definition expires_within :: "datetime \<Rightarrow> oauth2_token \<Rightarrow> int \<Rightarrow> bool" where
  "expires_within now t threshold \<longleftrightarrow> ot_expires_at t - now \<le> threshold"

datatype oauth2_status = Unauthorized | Valid | ExpiringSoon | Expired

definition seconds :: "int \<Rightarrow> int" where "seconds n = n * 1000000000"

fun auth_oauth2_status :: "datetime \<Rightarrow> auth_spec \<Rightarrow> oauth2_status option" where
  "auth_oauth2_status now (OAuth2 _ _ _ _ _ _ None) = Some Unauthorized"
| "auth_oauth2_status now (OAuth2 _ _ _ _ _ _ (Some t)) =
     (if is_expired now t then Some Expired
      else if expires_within now t (seconds 60) then Some ExpiringSoon
      else Some Valid)"
| "auth_oauth2_status now _ = None"

datatype multipart_value_type = MV_Text | MV_FilePath

record multipart_field =
  mf_key :: str
  mf_value_type :: multipart_value_type
  mf_value :: str
  mf_enabled :: bool

record graphql_spec =
  gq_query :: str
  gq_variables :: str
  gq_operation_name :: str

record grpc_spec =
  gr_service :: str
  gr_method :: str
  gr_message :: str
  gr_use_tls :: bool
  gr_proto_ids :: "str list"

record proto_file =
  pf_id :: uuid
  pf_project_id :: uuid
  pf_name :: str
  pf_content :: str
  pf_created_at :: datetime
  pf_updated_at :: datetime

record graphql_error_location =
  gl_line :: u64
  gl_column :: u64

record graphql_error =
  ge_message :: str
  ge_locations :: "graphql_error_location list option"
  ge_path :: "json list option"

record graphql_response =
  gp_data :: "json option"
  gp_errors :: "graphql_error list"

definition has_errors :: "graphql_response \<Rightarrow> bool" where
  "has_errors r \<longleftrightarrow> gp_errors r \<noteq> []"

datatype body_spec =
    Body_None
  | Body_Json str
  | Body_Text str
  | UrlEncoded "key_value list"
  | Multipart "multipart_field list"
  | GraphQL graphql_spec
  | Binary str
  | Body_Grpc grpc_spec

fun mode_name :: "body_spec \<Rightarrow> str" where
  "mode_name Body_None = ''none''"
| "mode_name (Body_Json _) = ''json''"
| "mode_name (Body_Text _) = ''text''"
| "mode_name (UrlEncoded _) = ''urlencoded''"
| "mode_name (Multipart _) = ''multipart''"
| "mode_name (GraphQL _) = ''graphql''"
| "mode_name (Binary _) = ''binary''"
| "mode_name (Body_Grpc _) = ''grpc''"

definition body_is_none :: "body_spec \<Rightarrow> bool" where
  "body_is_none b \<longleftrightarrow> b = Body_None"

record field_doc =
  fd_description :: str
  fd_required :: bool

record request_spec =
  rs_params :: "key_value list"
  rs_headers :: "key_value list"
  rs_path_variables :: "key_value list"
  rs_auth :: auth_spec
  rs_body :: body_spec
  rs_active_tab :: "str option"
  rs_timeout_ms :: "u64 option"
  rs_follow_redirects :: bool
  rs_tests :: "json option"
  rs_disable_cookies :: bool
  rs_body_docs :: "field_doc str_table"

definition default_request :: request_spec where
  "default_request =
     \<lparr>rs_params = [], rs_headers = [], rs_path_variables = [], rs_auth = Auth_None,
      rs_body = Body_None, rs_active_tab = None, rs_timeout_ms = None,
      rs_follow_redirects = True, rs_tests = None, rs_disable_cookies = False,
      rs_body_docs = []\<rparr>"

section \<open>Project data\<close>

record project =
  pr_id :: uuid
  pr_name :: str
  pr_description :: str
  pr_variables :: "(str, str) hash_map"
  pr_created_at :: datetime
  pr_updated_at :: datetime

record folder =
  fo_id :: uuid
  fo_project_id :: uuid
  fo_parent_id :: "uuid option"
  fo_name :: str
  fo_sort_order :: int
  fo_created_at :: datetime
  fo_updated_at :: datetime

record endpoint =
  ep_id :: uuid
  ep_project_id :: uuid
  ep_folder_id :: "uuid option"
  ep_name :: str
  ep_method :: http_method
  ep_path :: str
  ep_description :: str
  ep_status :: endpoint_status
  ep_sort_order :: int
  ep_request :: request_spec
  ep_created_at :: datetime
  ep_updated_at :: datetime

record environment_variable =
  ev_key :: str
  ev_remote_value :: str
  ev_local_value :: str
  ev_enabled :: bool
  ev_description :: "str option"

datatype global_param_location = GP_Query | GP_Header

record global_param =
  gm_key :: str
  gm_value :: str
  gm_enabled :: bool
  gm_location :: global_param_location

record environment =
  en_id :: uuid
  en_project_id :: uuid
  en_name :: str
  en_base_url :: str
  en_variables :: "environment_variable list"
  en_created_at :: datetime
  en_updated_at :: datetime

definition effective_value :: "environment_variable \<Rightarrow> str" where
  "effective_value v =
     (let l = trim (ev_local_value v) in if l \<noteq> [] then l else trim (ev_remote_value v))"

definition is_effective :: "environment_variable \<Rightarrow> bool" where
  "is_effective v \<longleftrightarrow> ev_enabled v \<and> effective_value v \<noteq> []"

definition effective_variables :: "environment \<Rightarrow> (str, str) hash_map" where
  "effective_variables e =
     insert_all
       (map (\<lambda>v. (trim (ev_key v), effective_value v)) (filter is_effective (en_variables e)))
       Map.empty"

record response_example =
  rx_id :: uuid
  rx_endpoint_id :: uuid
  rx_name :: str
  rx_status :: u16
  rx_headers :: "str str_table"
  rx_body :: str
  rx_content_type :: str
  rx_docs :: "field_doc str_table"
  rx_created_at :: datetime
  rx_updated_at :: datetime

record request_example =
  qx_id :: uuid
  qx_endpoint_id :: uuid
  qx_name :: str
  qx_request :: request_spec
  qx_created_at :: datetime
  qx_updated_at :: datetime

datatype test_case_status = TC_Success | TC_Failed | TC_Untested

fun test_case_status_as_str :: "test_case_status \<Rightarrow> str" where
  "test_case_status_as_str TC_Success = ''Success''"
| "test_case_status_as_str TC_Failed = ''Failed''"
| "test_case_status_as_str TC_Untested = ''Untested''"

definition test_case_status_parse :: "str \<Rightarrow> test_case_status option" where
  "test_case_status_parse s =
     (if s = ''Success'' then Some TC_Success
      else if s = ''Failed'' then Some TC_Failed
      else if s = ''Untested'' then Some TC_Untested
      else None)"

record test_case =
  tc_id :: uuid
  tc_request_id :: uuid
  tc_name :: str
  tc_category :: str
  tc_method :: http_method
  tc_url_path :: str
  tc_params :: "key_value list"
  tc_headers :: "key_value list"
  tc_body_type :: str
  tc_body_content :: str
  tc_last_run_status :: test_case_status
  tc_created_at :: datetime

record mock_match_item =
  mm_key :: str
  mm_value :: str

record mock_rule =
  mr_id :: uuid
  mr_project_id :: uuid
  mr_endpoint_id :: "uuid option"
  mr_name :: str
  mr_method :: http_method
  mr_path :: str
  mr_match_query :: "mock_match_item list"
  mr_match_headers :: "mock_match_item list"
  mr_response_status :: u16
  mr_response_headers :: "str str_table"
  mr_response_body_template :: str
  mr_delay_ms :: u64
  mr_fault_rate_pct :: u8
  mr_fault_status :: u16
  mr_enabled :: bool
  mr_priority :: int
  mr_created_at :: datetime
  mr_updated_at :: datetime

datatype ws_message_type = WT_Text | WT_Binary | WT_Ping

fun ws_message_type_as_str :: "ws_message_type \<Rightarrow> str" where
  "ws_message_type_as_str WT_Text = ''text''"
| "ws_message_type_as_str WT_Binary = ''binary''"
| "ws_message_type_as_str WT_Ping = ''ping''"

section \<open>Lemmas\<close>

lemma new_kv_simps [simp]:
  "kv_key (new_kv k v) = k" "kv_value (new_kv k v) = v" "kv_enabled (new_kv k v)"
  by (simp_all add: new_kv_def)

lemma to_uppercase_names [str_rules]:
  "to_uppercase ''GET'' = ''GET''"
  "to_uppercase ''POST'' = ''POST''"
  "to_uppercase ''PUT'' = ''PUT''"
  "to_uppercase ''DELETE'' = ''DELETE''"
  "to_uppercase ''PATCH'' = ''PATCH''"
  "to_uppercase ''HEAD'' = ''HEAD''"
  "to_uppercase ''OPTIONS'' = ''OPTIONS''"
  "to_uppercase ''GRPC'' = ''GRPC''"
  by code_simp+

lemma method_roundtrip: "method_from_str (method_as_str m) = Ok m"
  by (cases m) (simp_all add: method_from_str_def str_rules)

lemma test_case_status_roundtrip: "test_case_status_parse (test_case_status_as_str s) = Some s"
  by (cases s) (simp_all add: test_case_status_parse_def)

lemma is_effective_value: "is_effective v \<Longrightarrow> effective_value v \<noteq> []"
  by (simp add: is_effective_def)

lemma effective_variables_nonempty:
  "effective_variables e k = Some x \<Longrightarrow> x \<noteq> []"
proof -
  assume "effective_variables e k = Some x"
  then have "(k, x) \<in> set (map (\<lambda>v. (trim (ev_key v), effective_value v)) (filter is_effective (en_variables e)))"
    by (auto simp: effective_variables_def insert_all_eq dest!: map_of_SomeD)
  then show ?thesis by (auto dest: is_effective_value)
qed

end
