(* ===== verification/Store.thy ===== *)
theory Store
  imports Prelude "HOL-Library.AList"
begin

text \<open>
  The interface of a keyed store, as the components with a table inside a larger state use it
  (the sequence counters, the per-project locks, the cookie jar): a lookup, an insert and a
  removal on an abstract state, with the laws that relate them. The lemmas of the locale are the
  batch operations the clients run over the store. \<open>AList.update\<close> and \<open>AList.delete\<close> give the
  store the tables of the development use when their order is observable.
\<close>

locale keyed_store =
  fixes get :: "'s \<Rightarrow> 'k \<Rightarrow> 'v option"
    and put :: "'k \<Rightarrow> 'v \<Rightarrow> 's \<Rightarrow> 's"
    and del :: "'k \<Rightarrow> 's \<Rightarrow> 's"
  assumes get_put: "get (put k v s) = (get s)(k \<mapsto> v)"
    and get_del: "get (del k s) = (get s)(k := None)"
begin

definition put_all :: "('k \<times> 'v) list \<Rightarrow> 's \<Rightarrow> 's" where
  "put_all kvs s = fold (\<lambda>(k, v) t. put k v t) kvs s"

lemma get_put_all: "get (put_all kvs s) = insert_all kvs (get s)"
  by (induction kvs arbitrary: s) (auto simp: put_all_def insert_all_def get_put)

lemma get_put_all_notin: "k \<notin> fst ` set kvs \<Longrightarrow> get (put_all kvs s) k = get s k"
  by (simp add: get_put_all insert_all_eq map_add_def split: option.splits)
     (metis (no_types, lifting) fst_conv image_iff map_of_SomeD not_Some_eq set_rev)

lemma put_all_distinct:
  assumes "distinct (map fst kvs)" "(k, v) \<in> set kvs"
  shows "get (put_all kvs s) k = Some v"
  using assms by (simp add: get_put_all insert_all_distinct)

lemma put_other: "k \<noteq> k' \<Longrightarrow> get (put k v s) k' = get s k'"
  by (simp add: get_put)

lemma del_other: "k \<noteq> k' \<Longrightarrow> get (del k s) k' = get s k'"
  by (simp add: get_del)

lemma put_del: "get (put k v (del k s)) = get (put k v s)"
  by (simp add: get_put get_del)

end

end
