(* ===== verification/Variable.thy ===== *)
theory Variable
  imports Model Store "HOL-Library.Char_ord" "HOL-Library.List_Lexorder"
begin

text \<open>
  The variable engine, \<open>crates/fox-core/src/variable.rs\<close>: the text substitution of
  \<open>{{name}}\<close> tokens, the built-in names, the sequence counters and the precedence of the three
  variable tables. The process-wide counter table and its dirty flag are the state, threaded
  through every operation. Random identifiers, the clock and random numbers come from a \<open>world\<close>,
  read at successive ticks; \<open>chrono\<close>'s RFC 3339 printer is its parameter.
\<close>

section \<open>State\<close>

type_synonym variable_map = "(str, str) hash_map"

definition MAX_VARIABLE_DEPTH :: nat where "MAX_VARIABLE_DEPTH = 10"

record world =
  w_uuid :: "nat \<Rightarrow> str"
  w_now :: "nat \<Rightarrow> datetime"
  w_random :: "nat \<Rightarrow> nat"
  w_rfc3339 :: "datetime \<Rightarrow> str"

record seq_state =
  sq_counters :: "u64 str_table"
  sq_dirty :: bool
  sq_tick :: nat

record resolve_options =
  allow_builtin :: bool

definition default_options :: resolve_options where
  "default_options = \<lparr>allow_builtin = True\<rparr>"

definition get_counter :: "seq_state \<Rightarrow> str \<Rightarrow> u64 option" where
  "get_counter st = map_of (sq_counters st)"

section \<open>Sequence counters\<close>

definition seq_value :: "str \<Rightarrow> seq_state \<Rightarrow> str \<times> seq_state" where
  "seq_value key st =
     (let cur = (case map_of (sq_counters st) key of Some v \<Rightarrow> v | None \<Rightarrow> 0);
          out = (if cur = 0 then 1 else cur)
      in (show_nat (unat out),
          st\<lparr>sq_counters := AList.update key (out + 1) (sq_counters st), sq_dirty := True\<rparr>))"

definition take_seq_dirty :: "seq_state \<Rightarrow> bool \<times> seq_state" where
  "take_seq_dirty st = (sq_dirty st, st\<lparr>sq_dirty := False\<rparr>)"

definition list_seq_counters :: "seq_state \<Rightarrow> (str \<times> u64) list" where
  "list_seq_counters st = sort_key fst (sq_counters st)"

definition set_seq_counter :: "str \<Rightarrow> u64 \<Rightarrow> seq_state \<Rightarrow> seq_state" where
  "set_seq_counter key v st =
     st\<lparr>sq_counters := AList.update key v (sq_counters st), sq_dirty := True\<rparr>"

definition delete_seq_counter :: "str \<Rightarrow> seq_state \<Rightarrow> seq_state" where
  "delete_seq_counter key st =
     st\<lparr>sq_counters := AList.delete key (sq_counters st), sq_dirty := True\<rparr>"

definition dump_seq_counters :: "seq_state \<Rightarrow> u64 str_table" where
  "dump_seq_counters st = sq_counters st"

definition load_seq_counters :: "u64 str_table \<Rightarrow> seq_state \<Rightarrow> seq_state" where
  "load_seq_counters m st =
     st\<lparr>sq_counters := fold (\<lambda>(k, v) t. AList.update k v t) m (sq_counters st)\<rparr>"

section \<open>Built-in names\<close>

definition builtin_value :: "world \<Rightarrow> str \<Rightarrow> seq_state \<Rightarrow> str option \<times> seq_state" where
  "builtin_value w name st =
     (let next = st\<lparr>sq_tick := Suc (sq_tick st)\<rparr> in
      if name = ''$uuid'' then (Some (w_uuid w (sq_tick st)), next)
      else if name = ''$timestamp'' then (Some (show_int (w_now w (sq_tick st) div 10 ^ 9)), next)
      else if name = ''$isoTimestamp'' then (Some (w_rfc3339 w (w_now w (sq_tick st))), next)
      else if name = ''$randomInt'' then (Some (show_nat (w_random w (sq_tick st) mod 1001)), next)
      else
        (case strip_prefix ''$seq'' name of
           Some rest \<Rightarrow>
             let key = (case strip_prefix '':'' rest of Some k \<Rightarrow> k | None \<Rightarrow> '''');
                 (v, st') = seq_value key st
             in (Some v, st')
         | None \<Rightarrow> (None, st)))"

section \<open>Resolution\<close>

definition merge_variables :: "str str_table \<Rightarrow> str str_table \<Rightarrow> str str_table \<Rightarrow> variable_map" where
  "merge_variables runtime environment project =
     fold (\<lambda>base merged. insert_all base merged) [project, environment, runtime] Map.empty"

definition lookup ::
  "world \<Rightarrow> str \<Rightarrow> variable_map \<Rightarrow> resolve_options \<Rightarrow> seq_state \<Rightarrow> str option \<times> seq_state" where
  "lookup w name vars options st =
     (case vars name of
        Some v \<Rightarrow> (Some v, st)
      | None \<Rightarrow> if allow_builtin options then builtin_value w name st else (None, st))"

text \<open>
  One scan of the text. At an opening \<open>{{\<close> the closing \<open>}}\<close> is searched in the rest; without
  one the rest is literal. A value found for the name is itself resolved one level deeper.
\<close>

function resolve_into ::
  "world \<Rightarrow> variable_map \<Rightarrow> resolve_options \<Rightarrow> nat \<Rightarrow> str \<Rightarrow> seq_state \<Rightarrow> str \<times> seq_state" where
  "resolve_into w vars options 0 s st = (s, st)"
| "resolve_into w vars options (Suc d) [] st = ([], st)"
| "resolve_into w vars options (Suc d) (c # cs) st =
     (case strip_prefix ''{{'' (c # cs) of
        None \<Rightarrow> (let (t, st') = resolve_into w vars options (Suc d) cs st in (c # t, st'))
      | Some rest \<Rightarrow>
          (case split_once ''}}'' rest of
             None \<Rightarrow> (c # cs, st)
           | Some (inner, after) \<Rightarrow>
               let name = trim inner;
                   raw = ''{{'' @ inner @ ''}}'';
                   (piece, st') =
                     (if name = [] then (raw, st)
                      else (case lookup w name vars options st of
                              (Some v, st1) \<Rightarrow> resolve_into w vars options d v st1
                            | (None, st1) \<Rightarrow> (raw, st1)));
                   (t, st'') = resolve_into w vars options (Suc d) after st'
               in (piece @ t, st'')))"
  by pat_completeness auto
termination
  by (relation "measures [\<lambda>(w, vars, options, d, s, st). d, \<lambda>(w, vars, options, d, s, st). length s]")
     (auto simp del: strip_prefix.simps dest!: strip_prefix_length split_once_length)

definition resolve_variables_with ::
  "world \<Rightarrow> str \<Rightarrow> variable_map \<Rightarrow> nat \<Rightarrow> resolve_options \<Rightarrow> seq_state \<Rightarrow> str \<times> seq_state" where
  "resolve_variables_with w input vars max_depth options st =
     resolve_into w vars options max_depth input st"

definition resolve_variables :: "world \<Rightarrow> str \<Rightarrow> variable_map \<Rightarrow> seq_state \<Rightarrow> str \<times> seq_state" where
  "resolve_variables w input vars st =
     resolve_variables_with w input vars MAX_VARIABLE_DEPTH default_options st"

section \<open>The counters as a keyed store\<close>

lemma get_counter_set: "get_counter (set_seq_counter k v st) = (get_counter st)(k \<mapsto> v)"
  by (auto simp: get_counter_def set_seq_counter_def update_conv')

lemma get_counter_delete: "get_counter (delete_seq_counter k st) = (get_counter st)(k := None)"
  by (auto simp: get_counter_def delete_seq_counter_def delete_conv')

interpretation counters: keyed_store get_counter set_seq_counter delete_seq_counter
  by unfold_locales (simp_all add: get_counter_set get_counter_delete)

definition counters_wf :: "seq_state \<Rightarrow> bool" where
  "counters_wf st \<longleftrightarrow> distinct (map fst (sq_counters st))"

lemma seq_value_alt:
  "seq_value key st =
     (let out = (case get_counter st key of None \<Rightarrow> 1 | Some v \<Rightarrow> if v = 0 then 1 else v)
      in (show_nat (unat out), set_seq_counter key (out + 1) st))"
  by (auto simp: seq_value_def get_counter_def set_seq_counter_def Let_def split: option.splits)

lemma load_counters_eq: "get_counter (load_seq_counters m st) = get_counter (counters.put_all m st)"
proof -
  have "map_of (fold (\<lambda>(k, v) t. AList.update k v t) m t) = insert_all m (map_of t)" for t
    by (induction m arbitrary: t) (auto simp: update_conv' insert_all_def)
  then have "get_counter (load_seq_counters m st) = insert_all m (get_counter st)"
    by (simp add: get_counter_def load_seq_counters_def)
  then show ?thesis by (simp only: counters.get_put_all)
qed

lemma counters_wf_ops [inv_rules]:
  assumes "counters_wf st"
  shows "counters_wf (snd (seq_value k st))" "counters_wf (set_seq_counter k v st)"
    "counters_wf (delete_seq_counter k st)" "counters_wf (load_seq_counters m st)"
    "counters_wf (snd (take_seq_dirty st))"
proof -
  have load: "distinct (map fst t) \<Longrightarrow> distinct (map fst (fold (\<lambda>(k, v) t. AList.update k v t) m t))" for t
    by (induction m arbitrary: t) (auto simp: distinct_update)
  show "counters_wf (snd (seq_value k st))" "counters_wf (set_seq_counter k v st)"
    "counters_wf (delete_seq_counter k st)" "counters_wf (load_seq_counters m st)"
    "counters_wf (snd (take_seq_dirty st))"
    using assms
    by (simp_all add: counters_wf_def seq_value_alt set_seq_counter_def delete_seq_counter_def
        load_seq_counters_def take_seq_dirty_def distinct_update distinct_delete load Let_def)
qed

section \<open>Tokens\<close>

text \<open>
  The reference reading of a text: literal bytes and tokens, the inner text of a token
  untrimmed. \<open>run\<close> evaluates the tokens in order, threading the state.
\<close>

datatype token = Lit char | Tok str

function scan :: "str \<Rightarrow> token list" where
  "scan [] = []"
| "scan (c # cs) =
     (case strip_prefix ''{{'' (c # cs) of
        None \<Rightarrow> Lit c # scan cs
      | Some rest \<Rightarrow>
          (case split_once ''}}'' rest of
             None \<Rightarrow> map Lit (c # cs)
           | Some (inner, after) \<Rightarrow> Tok inner # scan after))"
  by pat_completeness auto
termination
  by (relation "measure length")
     (auto simp del: strip_prefix.simps dest!: strip_prefix_length split_once_length)

fun raw :: "token \<Rightarrow> str" where
  "raw (Lit c) = [c]"
| "raw (Tok inner) = ''{{'' @ inner @ ''}}''"

definition token_value ::
  "world \<Rightarrow> variable_map \<Rightarrow> resolve_options \<Rightarrow> (str \<Rightarrow> seq_state \<Rightarrow> str \<times> seq_state)
     \<Rightarrow> str \<Rightarrow> seq_state \<Rightarrow> str \<times> seq_state" where
  "token_value w vars options deeper inner st =
     (if trim inner = [] then (raw (Tok inner), st)
      else (case lookup w (trim inner) vars options st of
              (Some v, st1) \<Rightarrow> deeper v st1
            | (None, st1) \<Rightarrow> (raw (Tok inner), st1)))"

fun run ::
  "world \<Rightarrow> variable_map \<Rightarrow> resolve_options \<Rightarrow> (str \<Rightarrow> seq_state \<Rightarrow> str \<times> seq_state)
     \<Rightarrow> token list \<Rightarrow> seq_state \<Rightarrow> str \<times> seq_state" where
  "run w vars options deeper [] st = ([], st)"
| "run w vars options deeper (Lit c # ts) st =
     (let (t, st') = run w vars options deeper ts st in (c # t, st'))"
| "run w vars options deeper (Tok inner # ts) st =
     (let (piece, st1) = token_value w vars options deeper inner st;
          (t, st2) = run w vars options deeper ts st1
      in (piece @ t, st2))"

lemma run_literals: "run w vars options f (map Lit s) st = (s, st)"
  by (induction s) auto

lemma scan_raw: "concat (map raw (scan s)) = s"
proof (induction s rule: scan.induct)
  case (2 c cs)
  have lit: "concat (map (raw \<circ> Lit) xs) = xs" for xs by (induction xs) auto
  show ?case
  proof (cases "strip_prefix ''{{'' (c # cs)")
    case None
    with 2 show ?thesis by (simp del: strip_prefix.simps)
  next
    case (Some rest)
    show ?thesis
    proof (cases "split_once ''}}'' rest")
      case None
      with Some show ?thesis by (simp add: lit del: strip_prefix.simps)
    next
      case (Some p)
      then obtain inner after where p: "split_once ''}}'' rest = Some (inner, after)"
        by (cases p) auto
      have "c # cs = ''{{'' @ inner @ ''}}'' @ after"
        using \<open>strip_prefix ''{{'' (c # cs) = Some rest\<close> split_once_Some_eq[OF p]
        by (simp add: strip_prefix_Some del: strip_prefix.simps)
      moreover have "concat (map raw (scan after)) = after"
        using 2 \<open>strip_prefix ''{{'' (c # cs) = Some rest\<close> p by blast
      ultimately show ?thesis
        using \<open>strip_prefix ''{{'' (c # cs) = Some rest\<close> p
        by (simp del: strip_prefix.simps)
    qed
  qed
qed simp

lemma scan_plain: "\<not> contains ''{{'' s \<Longrightarrow> scan s = map Lit s"
proof (induction s)
  case (Cons c cs)
  have "strip_prefix ''{{'' (c # cs) = None" "\<not> contains ''{{'' cs"
    using Cons.prems unfolding contains_def split_once_Cons by (auto split: option.splits)
  with Cons.IH show ?case by (simp del: strip_prefix.simps)
qed simp

lemma resolve_into_run:
  "resolve_into w vars options (Suc d) s st
     = run w vars options (resolve_into w vars options d) (scan s) st"
proof (induction s arbitrary: st rule: scan.induct)
  case (2 c cs)
  show ?case
  proof (cases "strip_prefix ''{{'' (c # cs)")
    case None
    with 2 show ?thesis by (simp del: strip_prefix.simps)
  next
    case (Some rest)
    with 2 show ?thesis
      by (cases "split_once ''}}'' rest")
         (auto simp: token_value_def Let_def run_literals simp del: strip_prefix.simps
           split: prod.splits option.splits)
  qed
qed simp

lemma resolve_plain: "\<not> contains ''{{'' s \<Longrightarrow> resolve_into w vars options d s st = (s, st)"
  by (cases d) (simp_all add: resolve_into_run scan_plain run_literals)

section \<open>Depth\<close>

text \<open>
  \<open>ranked vars r\<close>: the value of a variable only mentions variables of a lower rank, so the
  variables are not cyclic. The built-in values are plain when they hold no opening braces.
\<close>

definition refs :: "str \<Rightarrow> str set" where
  "refs s = {trim inner |inner. Tok inner \<in> set (scan s)}"

definition ranked :: "variable_map \<Rightarrow> (str \<Rightarrow> nat) \<Rightarrow> bool" where
  "ranked vars r \<longleftrightarrow> (\<forall>x v. vars x = Some v \<longrightarrow> (\<forall>y \<in> refs v \<inter> dom vars. r y < r x))"

definition plain_world :: "world \<Rightarrow> bool" where
  "plain_world w \<longleftrightarrow> (\<forall>n. \<not> contains ''{{'' (w_uuid w n)) \<and> (\<forall>t. \<not> contains ''{{'' (w_rfc3339 w t))"

lemma plain_show_int: "\<not> contains ''{{'' (show_int i)"
proof -
  have "CHR ''{'' \<notin> set (show_int i)"
    using show_nat_digits[of "CHR ''{''"] by (auto simp: show_int_def digit_val_def Let_def)
  then show ?thesis by (auto simp: contains_iff)
qed

lemma plain_show_nat: "\<not> contains ''{{'' (show_nat n)"
  using plain_show_int[of "int n"] by (simp add: show_int_def)

lemma builtin_plain:
  assumes "plain_world w" "builtin_value w name st = (Some v, st')"
  shows "\<not> contains ''{{'' v"
  using assms
  by (auto simp: builtin_value_def seq_value_def plain_world_def plain_show_int plain_show_nat Let_def
      simp del: strip_prefix.simps split: if_splits option.splits)

lemma lookup_cases:
  assumes "lookup w name vars options st = (Some v, st')"
  shows "vars name = Some v \<and> st' = st \<or> vars name = None \<and> builtin_value w name st = (Some v, st')"
  using assms by (auto simp: lookup_def split: option.splits if_splits)

lemma run_cong:
  assumes "\<And>inner v st st'. Tok inner \<in> set ts \<Longrightarrow> trim inner \<noteq> [] \<Longrightarrow>
      lookup w (trim inner) vars options st = (Some v, st') \<Longrightarrow> f v st' = g v st'"
  shows "run w vars options f ts st = run w vars options g ts st"
  using assms
proof (induction ts arbitrary: st)
  case (Cons t ts)
  have IH: "run w vars options f ts s = run w vars options g ts s" for s
    using Cons.prems by (intro Cons.IH) auto
  show ?case
  proof (cases t)
    case (Tok inner)
    have "token_value w vars options f inner st = token_value w vars options g inner st"
      using Cons.prems[of inner] by (auto simp: token_value_def Tok split: option.splits prod.splits)
    with IH Tok show ?thesis by simp
  qed (simp add: IH)
qed simp

lemma depth_suffices:
  assumes "ranked vars r" "plain_world w"
    and "\<forall>y \<in> refs s \<inter> dom vars. r y < d" "d \<le> e"
  shows "resolve_into w vars options (Suc e) s st = resolve_into w vars options (Suc d) s st"
  using assms(3,4)
proof (induction d arbitrary: s st e)
  case 0
  have none: "vars (trim inner) = None" if "Tok inner \<in> set (scan s)" for inner
    using 0(1) that by (auto simp: refs_def)
  show ?case
    unfolding resolve_into_run
  proof (rule run_cong)
    fix inner v st st'
    assume t: "Tok inner \<in> set (scan s)" and l: "lookup w (trim inner) vars options st = (Some v, st')"
    from lookup_cases[OF l] none[OF t] have "builtin_value w (trim inner) st = (Some v, st')" by simp
    from resolve_plain[OF builtin_plain[OF assms(2) this]]
    show "resolve_into w vars options e v st' = resolve_into w vars options 0 v st'" by metis
  qed
next
  case (Suc d)
  then obtain e' where e: "e = Suc e'" "d \<le> e'" by (metis Suc_le_D Suc_le_mono)
  show ?case
    unfolding resolve_into_run[of _ _ _ e] resolve_into_run[of _ _ _ "Suc d"]
  proof (rule run_cong)
    fix inner v st st'
    assume t: "Tok inner \<in> set (scan s)" and l: "lookup w (trim inner) vars options st = (Some v, st')"
    from lookup_cases[OF l] show "resolve_into w vars options e v st' = resolve_into w vars options (Suc d) v st'"
    proof
      assume "vars (trim inner) = Some v \<and> st' = st"
      moreover from this t Suc.prems have "r (trim inner) < Suc d" by (auto simp: refs_def)
      ultimately have "\<forall>y \<in> refs v \<inter> dom vars. r y < d"
        using assms(1) unfolding ranked_def by (meson less_Suc_eq_le order_less_le_trans)
      with Suc.IH[OF _ e(2)] e show ?thesis by simp
    next
      assume "vars (trim inner) = None \<and> builtin_value w (trim inner) st = (Some v, st')"
      then have "builtin_value w (trim inner) st = (Some v, st')" by simp
      from resolve_plain[OF builtin_plain[OF assms(2) this]] show ?thesis by metis
    qed
  qed
qed

section \<open>Drawing from a sequence\<close>

definition next_seq :: "seq_state \<Rightarrow> str \<Rightarrow> nat" where
  "next_seq st key = (case get_counter st key of None \<Rightarrow> 1 | Some v \<Rightarrow> if v = 0 then 1 else unat v)"

definition seq_token :: "str \<Rightarrow> str" where
  "seq_token key = ''{{$seq:'' @ key @ ''}}''"

lemma seq_value_next:
  "fst (seq_value key st) = show_nat (next_seq st key)"
  "Suc (next_seq st key) < 2 ^ 64 \<Longrightarrow> next_seq (snd (seq_value key st)) key = Suc (next_seq st key)"
  "key' \<noteq> key \<Longrightarrow> get_counter (snd (seq_value key st)) key' = get_counter st key'"
proof -
  show "fst (seq_value key st) = show_nat (next_seq st key)"
    by (auto simp: seq_value_alt next_seq_def Let_def split: option.splits)
  have suc: "v + 1 \<noteq> 0 \<and> unat (v + 1) = Suc (unat v)" if "Suc (unat v) < 2 ^ 64" for v :: u64
  proof -
    have "unat (v + 1) = Suc (unat v)" using that by (simp add: unat_word_ariths)
    then show ?thesis by (metis Zero_not_Suc unat_0)
  qed
  show "next_seq (snd (seq_value key st)) key = Suc (next_seq st key)" if "Suc (next_seq st key) < 2 ^ 64"
    using that suc by (auto simp: seq_value_alt next_seq_def Let_def get_counter_set split: option.splits if_splits)
  show "get_counter (snd (seq_value key st)) key' = get_counter st key'" if "key' \<noteq> key"
    using that by (simp add: seq_value_alt Let_def counters.put_other)
qed

lemma scan_seq_token:
  assumes "CHR ''}'' \<notin> set key"
  shows "scan (seq_token key @ rest) = Tok (''$seq:'' @ key) # scan rest"
proof -
  have "split_once ''}}'' (a @ ''}}'' @ rest) = Some (a, rest)" if "CHR ''}'' \<notin> set a" for a
    using that by (induction a) (auto simp: split_once_Nil split_once_Cons)
  from this[of "''$seq:'' @ key"] assms show ?thesis by (simp add: seq_token_def)
qed

lemma token_value_seq:
  assumes "vars (''$seq:'' @ key) = None" "trim (''$seq:'' @ key) = ''$seq:'' @ key" "allow_builtin options"
  shows "token_value w vars options (resolve_into w vars options d) (''$seq:'' @ key) st = seq_value key st"
proof -
  have "resolve_into w vars options d (fst (seq_value key st)) st1 = (fst (seq_value key st), st1)" for st1
    by (simp add: resolve_plain plain_show_nat seq_value_next(1))
  with assms show ?thesis
    by (simp add: token_value_def lookup_def builtin_value_def case_prod_beta)
qed

section \<open>Properties\<close>

lemma MAX_VARIABLE_DEPTH_suc: "MAX_VARIABLE_DEPTH = Suc 9"
  by (simp add: MAX_VARIABLE_DEPTH_def)

lemma resolve_seq_tokens:
  assumes "CHR ''}'' \<notin> set key" "vars (''$seq:'' @ key) = None"
    "trim (''$seq:'' @ key) = ''$seq:'' @ key" "allow_builtin options"
    and "next_seq st key + n < 2 ^ 64"
  shows "let (out, st') = resolve_into w vars options (Suc d) (concat (replicate n (seq_token key))) st in
      out = concat (map (\<lambda>i. show_nat (next_seq st key + i)) [0..<n]) \<and>
      next_seq st' key = next_seq st key + n \<and>
      (\<forall>key' \<in> UNIV - {key}. get_counter st' key' = get_counter st key')"
  using assms(5)
proof (induction n arbitrary: st)
  case 0
  then show ?case by simp
next
  case (Suc n)
  let ?st1 = "snd (seq_value key st)"
  have next1: "next_seq ?st1 key = Suc (next_seq st key)"
    using Suc.prems by (intro seq_value_next(2)) simp
  have step: "resolve_into w vars options (Suc d) (concat (replicate (Suc n) (seq_token key))) st =
      (let (t, st') = resolve_into w vars options (Suc d) (concat (replicate n (seq_token key))) ?st1
       in (show_nat (next_seq st key) @ t, st'))"
    unfolding resolve_into_run
    using token_value_seq[of vars key options w d st] assms(2-4)
    by (simp add: scan_seq_token[OF assms(1)] case_prod_beta seq_value_next(1))
  have list: "concat (map (\<lambda>i. show_nat (m + i)) [0..<Suc n]) =
      show_nat m @ concat (map (\<lambda>i. show_nat (Suc m + i)) [0..<n])" for m
    by (simp add: upt_conv_Cons map_Suc_upt [symmetric] comp_def del: upt_Suc)
  from Suc.IH[of ?st1] Suc.prems show ?case
    unfolding step list using seq_value_next(3)[of _ key st]
    by (auto simp: next1 case_prod_beta Let_def)
qed

text \<open>
  C1: Resolving a text is evaluating its tokens in order. \<open>scan\<close> cuts the text into literal
  bytes and \<open>{{...}}\<close> tokens that concatenate back to the text, so nothing is lost or
  reordered: unknown names, blank tokens and unclosed braces come out as they stand.
\<close>

theorem resolve_refines_tokens:
  "resolve_variables_with w input vars (Suc d) options st =
     run w vars options (resolve_into w vars options d) (scan input) st
   \<and> concat (map raw (scan input)) = input"
  by (simp add: resolve_variables_with_def resolve_into_run scan_raw)

text \<open>
  When the variables are not cyclic and no chain of references is longer than the limit,
  the depth limit is not observable: any larger limit gives the same text and the same state.
\<close>

theorem depth_limit_unobservable:
  assumes "ranked vars r" "plain_world w"
    and "\<forall>y \<in> refs input \<inter> dom vars. Suc (r y) < MAX_VARIABLE_DEPTH"
    and "MAX_VARIABLE_DEPTH \<le> e"
  shows "resolve_variables_with w input vars e default_options st = resolve_variables w input vars st"
proof -
  obtain e' where e': "e = Suc e'" "9 \<le> e'"
    using assms(4) by (cases e) (simp_all add: MAX_VARIABLE_DEPTH_def)
  have "\<forall>y \<in> refs input \<inter> dom vars. r y < 9"
    using assms(3) by (auto simp: MAX_VARIABLE_DEPTH_def)
  from depth_suffices[OF assms(1,2) this e'(2)] show ?thesis
    by (simp add: resolve_variables_def resolve_variables_with_def MAX_VARIABLE_DEPTH_def e'(1)
        eval_nat_numeral)
qed

definition demo_world :: world where
  "demo_world = \<lparr>w_uuid = \<lambda>n. show_nat n, w_now = \<lambda>n. 0, w_random = \<lambda>n. n, w_rfc3339 = show_int\<rparr>"

definition demo_vars :: variable_map where
  "demo_vars = [''host'' \<mapsto> ''http://{{name}}'', ''name'' \<mapsto> ''a'']"

lemma demo_plain: "plain_world demo_world"
  by (simp add: plain_world_def demo_world_def plain_show_nat plain_show_int)

lemma demo_refs: "refs ''http://{{name}}'' = {''name''}" "refs ''a'' = {}" "refs ''{{host}}/x'' = {''host''}"
proof -
  have "scan ''http://{{name}}'' = map Lit ''http://'' @ [Tok ''name'']" "scan ''a'' = [Lit CHR ''a'']"
    "scan ''{{host}}/x'' = [Tok ''host'', Lit CHR ''/'', Lit CHR ''x'']"
    "trim ''name'' = ''name''" "trim ''host'' = ''host''"
    by code_simp+
  then show "refs ''http://{{name}}'' = {''name''}" "refs ''a'' = {}" "refs ''{{host}}/x'' = {''host''}"
    by (simp_all add: refs_def)
qed

theorem depth_limit_unobservable_witness:
  "resolve_variables_with demo_world ''{{host}}/x'' demo_vars 50 default_options
     \<lparr>sq_counters = [], sq_dirty = False, sq_tick = 0\<rparr>
   = resolve_variables demo_world ''{{host}}/x'' demo_vars \<lparr>sq_counters = [], sq_dirty = False, sq_tick = 0\<rparr>"
proof (rule depth_limit_unobservable[where r = "\<lambda>x. if x = ''host'' then 1 else 0"])
  show "ranked demo_vars (\<lambda>x. if x = ''host'' then 1 else 0)"
    by (auto simp: ranked_def demo_vars_def demo_refs split: if_splits)
qed (simp_all add: demo_plain demo_refs MAX_VARIABLE_DEPTH_def)

text \<open>
  The merged table answers with the runtime value of a name, else with the environment's,
  else with the project's, whatever the order in which the three tables are iterated.
\<close>

theorem merge_precedence:
  assumes "distinct (map fst runtime)" "distinct (map fst environment)" "distinct (map fst project)"
  shows "merge_variables runtime environment project name =
    (case map_of runtime name of
       Some v \<Rightarrow> Some v
     | None \<Rightarrow> (case map_of environment name of
                 Some v \<Rightarrow> Some v
               | None \<Rightarrow> map_of project name))"
  using assms
  by (simp add: merge_variables_def insert_all_distinct map_add_def split: option.splits)

theorem merge_precedence_witness:
  "merge_variables [(''a'', ''1'')] [(''a'', ''2''), (''b'', ''3'')] [(''c'', ''4'')] ''a'' = Some ''1''"
  by (subst merge_precedence) simp_all

text \<open>
  A sequence token resolved n times in a text prints n consecutive numbers from the next
  value of its counter on, moves that counter by n and leaves every other counter alone.
\<close>

theorem sequence_consecutive:
  assumes "CHR ''}'' \<notin> set key" "vars (''$seq:'' @ key) = None"
    "trim (''$seq:'' @ key) = ''$seq:'' @ key"
    and "next_seq st key + n < 2 ^ 64"
  shows "let (out, st') = resolve_variables w (concat (replicate n (seq_token key))) vars st in
      out = concat (map (\<lambda>i. show_nat (next_seq st key + i)) [0..<n]) \<and>
      next_seq st' key = next_seq st key + n \<and>
      (\<forall>key' \<in> UNIV - {key}. get_counter st' key' = get_counter st key')"
  unfolding resolve_variables_def resolve_variables_with_def MAX_VARIABLE_DEPTH_suc
  by (rule resolve_seq_tokens) (use assms in \<open>simp_all add: default_options_def\<close>)

theorem sequence_consecutive_witness:
  "fst (resolve_variables demo_world (concat (replicate 3 (seq_token ''k''))) Map.empty
     \<lparr>sq_counters = [(''k'', 98)], sq_dirty = False, sq_tick = 0\<rparr>)
   = concat (map (\<lambda>i. show_nat (98 + i)) [0..<3])"
proof -
  define st where "st = \<lparr>sq_counters = [(''k'', 98 :: u64)], sq_dirty = False, sq_tick = 0\<rparr>"
  have next98: "next_seq st ''k'' = 98"
    by (simp add: next_seq_def get_counter_def st_def)
  have "trim (''$seq:'' @ ''k'') = ''$seq:'' @ ''k''" by code_simp
  then show ?thesis
    using sequence_consecutive[of "''k''" Map.empty st 3 demo_world]
    unfolding next98 by (simp add: st_def case_prod_beta)
qed

lemma list_seq_counters_listing:
  assumes "counters_wf st"
  shows "sorted (map fst (list_seq_counters st))" "distinct (map fst (list_seq_counters st))"
    "map_of (list_seq_counters st) = get_counter st"
proof -
  show "sorted (map fst (list_seq_counters st))" by (simp add: list_seq_counters_def)
  have perm: "set (list_seq_counters st) = set (sq_counters st)"
    "length (list_seq_counters st) = length (sq_counters st)"
    by (simp_all add: list_seq_counters_def)
  show dist: "distinct (map fst (list_seq_counters st))"
    using assms perm unfolding counters_wf_def by (metis card_distinct distinct_card length_map set_map)
  show "map_of (list_seq_counters st) = get_counter st"
    using dist assms perm(1) by (simp add: map_of_inject_set counters_wf_def get_counter_def)
qed

text \<open>
  The management operations agree with one another: the listing is sorted by key and holds
  each counter once, a counter set to a positive value is what the next token prints, a deleted
  counter starts again at 1, and a dump loaded into any state restores every counter.
\<close>

theorem counters_management:
  assumes "counters_wf st" "v \<noteq> 0"
  shows "sorted (map fst (list_seq_counters st)) \<and> distinct (map fst (list_seq_counters st))
    \<and> map_of (list_seq_counters st) = get_counter st
    \<and> fst (seq_value key (set_seq_counter key v st)) = show_nat (unat v)
    \<and> fst (seq_value key (delete_seq_counter key st)) = show_nat 1
    \<and> get_counter (load_seq_counters (dump_seq_counters st) st0) = get_counter st0 ++ get_counter st"
proof -
  have "get_counter (load_seq_counters (dump_seq_counters st) st0) = get_counter st0 ++ get_counter st"
    using assms(1)
    by (simp add: load_counters_eq counters.get_put_all dump_seq_counters_def counters_wf_def
        insert_all_distinct) (simp add: get_counter_def)
  with assms list_seq_counters_listing[OF assms(1)] show ?thesis
    by (simp add: seq_value_alt get_counter_set get_counter_delete Let_def)
qed

theorem counters_management_witness:
  "get_counter (load_seq_counters
      (dump_seq_counters \<lparr>sq_counters = [(''b'', 2), (''a'', 7)], sq_dirty = False, sq_tick = 0\<rparr>)
      \<lparr>sq_counters = [(''a'', 1)], sq_dirty = False, sq_tick = 0\<rparr>) ''a'' = Some 7"
  using counters_management[of "\<lparr>sq_counters = [(''b'', 2), (''a'', 7)], sq_dirty = False, sq_tick = 0\<rparr>" 1]
  by (simp add: counters_wf_def get_counter_def)

end
