(* ===== verification/UrlUtil.thy ===== *)
theory UrlUtil
  imports Model
begin

text \<open>
  URL construction, \<open>crates/fox-core/src/util.rs\<close>: the substitution of path placeholders, the
  joining of base URL and path, and the JSON content-type test. The path variables are a hash
  table the code iterates, so they are the entries in iteration order; the sort by length is
  stable.
\<close>

definition is_absolute_url :: "str \<Rightarrow> bool" where
  "is_absolute_url s = (let t = trim s in starts_with ''http://'' t \<or> starts_with ''https://'' t)"

definition replace_path_variables :: "str \<Rightarrow> str str_table \<Rightarrow> str" where
  "replace_path_variables path path_vars =
     (let keys = sort_key (\<lambda>k. - int (length k)) (map fst path_vars) in
      fold (\<lambda>key result.
              let value = (case map_of path_vars key of Some v \<Rightarrow> v | None \<Rightarrow> []);
                  result = replace_all (''{{'' @ key @ ''}}'') value result
              in replace_all (''{'' @ key @ ''}'') value result)
        keys path)"

definition trim_start_slashes :: "str \<Rightarrow> str" where
  "trim_start_slashes s = dropWhile (\<lambda>c. c = CHR ''/'') s"

definition trim_end_slashes :: "str \<Rightarrow> str" where
  "trim_end_slashes s = rev (dropWhile (\<lambda>c. c = CHR ''/'') (rev s))"

definition build_url :: "str option \<Rightarrow> str \<Rightarrow> str str_table \<Rightarrow> str" where
  "build_url base_url path path_vars =
     (let rendered_path = replace_path_variables path path_vars in
      if is_absolute_url rendered_path then rendered_path
      else
        (let p = trim_start_slashes (trim rendered_path) in
         case base_url of
           Some base \<Rightarrow>
             let base = trim_end_slashes (trim base)
             in if base = [] then ''/'' @ p else base @ ''/'' @ p
         | None \<Rightarrow> ''/'' @ p))"

definition is_json_content_type :: "str \<Rightarrow> bool" where
  "is_json_content_type content_type =
     (let ct = trim (hd (split_on CHR '';'' content_type))
      in ct = ''application/json'' \<or> ct = ''text/json'' \<or> ends_with ''+json'' ct)"

section \<open>Replacement in a text with placeholders\<close>

datatype segment = Text str | Single str | Double str

fun seg_str :: "segment \<Rightarrow> str" where
  "seg_str (Text t) = t"
| "seg_str (Single k) = ''{'' @ k @ ''}''"
| "seg_str (Double k) = ''{{'' @ k @ ''}}''"

fun seg_name :: "segment \<Rightarrow> str" where
  "seg_name (Text t) = t" | "seg_name (Single k) = k" | "seg_name (Double k) = k"

definition brace_free :: "str \<Rightarrow> bool" where
  "brace_free s \<longleftrightarrow> CHR ''{'' \<notin> set s \<and> CHR ''}'' \<notin> set s"

fun fill :: "(str \<rightharpoonup> str) \<Rightarrow> segment \<Rightarrow> segment" where
  "fill m (Text t) = Text t"
| "fill m (Single k) = (case m k of Some v \<Rightarrow> Text v | None \<Rightarrow> Single k)"
| "fill m (Double k) = (case m k of Some v \<Rightarrow> Text v | None \<Rightarrow> Double k)"

definition path_str :: "segment list \<Rightarrow> str" where
  "path_str segs = concat (map seg_str segs)"

lemma path_str_simps [simp]: "path_str [] = []" "path_str (s # ss) = seg_str s @ path_str ss"
  by (simp_all add: path_str_def)

lemma close_inj:
  "prefix (k @ CHR ''}'' # q) (x @ CHR ''}'' # s) \<Longrightarrow> brace_free k \<Longrightarrow> brace_free x \<Longrightarrow> k = x"
proof (induction k arbitrary: x)
  case Nil
  then show ?case by (cases x) (auto simp: brace_free_def)
next
  case (Cons c k)
  then show ?case by (cases x) (auto simp: brace_free_def)
qed

lemma close_not_open:
  assumes "brace_free k"
  shows "\<not> prefix (k @ CHR ''}'' # q) (CHR ''{'' # s)" "\<not> prefix (CHR ''{'' # q) (k @ CHR ''}'' # s)"
  using assms by (cases k, auto simp: brace_free_def)+

lemma replace_single:
  assumes "brace_free k" "brace_free (seg_name g)" "g \<noteq> Double k"
  shows "replace_all (''{'' @ k @ ''}'') v (seg_str g @ s) =
      seg_str (if g = Single k then Text v else g) @ replace_all (''{'' @ k @ ''}'') v s"
proof (cases g)
  case (Text t)
  then show ?thesis using assms by (simp add: replace_all_skip brace_free_def)
next
  case (Single x)
  show ?thesis
  proof (cases "x = k")
    case True
    then show ?thesis using replace_all_here[of "''{'' @ k @ ''}''" v s] Single by simp
  next
    case False
    then have "\<not> prefix (''{'' @ k @ ''}'') (CHR ''{'' # x @ CHR ''}'' # s)"
      using close_inj[of k "[]" x s] assms Single by auto
    moreover have "replace_all (''{'' @ k @ ''}'') v ((x @ ''}'') @ s)
      = (x @ ''}'') @ replace_all (''{'' @ k @ ''}'') v s"
      using assms Single unfolding append_Cons append_Nil
      by (intro replace_all_skip) (simp add: brace_free_def)
    ultimately show ?thesis using Single False by (simp add: replace_all_step)
  qed
next
  case (Double x)
  then have "\<not> prefix (''{'' @ k @ ''}'') (CHR ''{'' # x @ CHR ''}'' # CHR ''}'' # s)"
    "\<not> prefix (''{'' @ k @ ''}'') (CHR ''{'' # CHR ''{'' # x @ CHR ''}'' # CHR ''}'' # s)"
    using close_inj[of k "[]" x "CHR ''}'' # s"] close_not_open(1)[of k "[]"] assms by auto
  moreover have "replace_all (''{'' @ k @ ''}'') v ((x @ ''}}'') @ s)
      = (x @ ''}}'') @ replace_all (''{'' @ k @ ''}'') v s"
    using assms Double unfolding append_Cons append_Nil
    by (intro replace_all_skip) (simp add: brace_free_def)
  ultimately show ?thesis using Double assms(3) by (simp add: replace_all_step)
qed

lemma replace_double:
  assumes "brace_free k" "brace_free (seg_name g)"
  shows "replace_all (''{{'' @ k @ ''}}'') v (seg_str g @ s) =
      seg_str (if g = Double k then Text v else g) @ replace_all (''{{'' @ k @ ''}}'') v s"
proof (cases g)
  case (Text t)
  then show ?thesis using assms by (simp add: replace_all_skip brace_free_def)
next
  case (Single x)
  then have "\<not> prefix (''{{'' @ k @ ''}}'') (CHR ''{'' # x @ CHR ''}'' # s)"
    using close_not_open(2)[of x] assms by auto
  moreover have "replace_all (''{{'' @ k @ ''}}'') v ((x @ ''}'') @ s)
      = (x @ ''}'') @ replace_all (''{{'' @ k @ ''}}'') v s"
    using assms Single unfolding append_Cons append_Nil
    by (intro replace_all_skip) (simp add: brace_free_def)
  ultimately show ?thesis using Single by (simp add: replace_all_step)
next
  case (Double x)
  show ?thesis
  proof (cases "x = k")
    case True
    then show ?thesis using replace_all_here[of "''{{'' @ k @ ''}}''" v s] Double by simp
  next
    case False
    then have "\<not> prefix (''{{'' @ k @ ''}}'') (CHR ''{'' # CHR ''{'' # x @ CHR ''}'' # CHR ''}'' # s)"
      "\<not> prefix (''{{'' @ k @ ''}}'') (CHR ''{'' # x @ CHR ''}'' # CHR ''}'' # s)"
      using close_inj[of k "''}''" x "CHR ''}'' # s"] close_not_open(2)[of x] assms Double by auto
    moreover have "replace_all (''{{'' @ k @ ''}}'') v ((x @ ''}}'') @ s)
        = (x @ ''}}'') @ replace_all (''{{'' @ k @ ''}}'') v s"
      using assms Double unfolding append_Cons append_Nil
      by (intro replace_all_skip) (simp add: brace_free_def)
    ultimately show ?thesis using Double False by (simp add: replace_all_step)
  qed
qed

lemma replace_double_path:
  assumes "brace_free k" "\<forall>g \<in> set segs. brace_free (seg_name g)"
  shows "replace_all (''{{'' @ k @ ''}}'') v (path_str segs)
       = path_str (map (\<lambda>g. if g = Double k then Text v else g) segs)"
  using assms(2)
proof (induction segs)
  case (Cons g segs)
  from replace_double[OF assms(1), of g v "path_str segs"] Cons show ?case by simp
qed simp

lemma replace_single_path:
  assumes "brace_free k" "\<forall>g \<in> set segs. brace_free (seg_name g) \<and> g \<noteq> Double k"
  shows "replace_all (''{'' @ k @ ''}'') v (path_str segs)
       = path_str (map (\<lambda>g. if g = Single k then Text v else g) segs)"
  using assms(2)
proof (induction segs)
  case (Cons g segs)
  from replace_single[OF assms(1), of g v "path_str segs"] Cons show ?case by simp
qed simp

lemma replace_key_path:
  assumes "brace_free k" "brace_free v" "\<forall>g \<in> set segs. brace_free (seg_name g)"
  shows "replace_all (''{'' @ k @ ''}'') v (replace_all (''{{'' @ k @ ''}}'') v (path_str segs))
       = path_str (map (fill [k \<mapsto> v]) segs)"
proof -
  have f: "(if h = Single k then Text v else h) = fill [k \<mapsto> v] g"
    if "h = (if g = Double k then Text v else g)" for g h
    using that by (cases g) auto
  have "replace_all (''{'' @ k @ ''}'') v (replace_all (''{{'' @ k @ ''}}'') v (path_str segs))
     = path_str (map (\<lambda>g. if g = Single k then Text v else g)
          (map (\<lambda>g. if g = Double k then Text v else g) segs))"
    unfolding replace_double_path[OF assms(1,3)]
    by (rule replace_single_path[OF assms(1)]) (use assms in auto)
  also have "\<dots> = path_str (map (fill [k \<mapsto> v]) segs)"
    using f by (simp add: comp_def)
  finally show ?thesis .
qed

lemma fill_compose: "fill m' (fill m g) = fill (m' ++ m) g"
  by (cases g) (auto split: option.splits simp: map_add_def)

lemma fill_names:
  assumes "\<forall>k v. m k = Some v \<longrightarrow> brace_free v" "brace_free (seg_name g)"
  shows "brace_free (seg_name (fill m g))"
  using assms by (cases g) (auto split: option.splits)

lemma replace_keys_path:
  assumes "\<forall>k \<in> set keys. brace_free k" "\<forall>k \<in> set keys. brace_free (val k)"
    and "\<forall>g \<in> set segs. brace_free (seg_name g)"
  shows "fold (\<lambda>key result. replace_all (''{'' @ key @ ''}'') (val key)
             (replace_all (''{{'' @ key @ ''}}'') (val key) result)) keys (path_str segs)
       = path_str (map (fill (\<lambda>k. if k \<in> set keys then Some (val k) else None)) segs)"
  using assms
proof (induction keys arbitrary: segs)
  case Nil
  have "map (fill (\<lambda>k. None)) segs = segs" 
    by (intro map_idI) (metis (no_types, lifting) fill.simps option.simps(4) segment.exhaust)
  then show ?case by simp
next
  case (Cons k keys)
  have wf: "\<forall>g \<in> set (map (fill [k \<mapsto> val k]) segs). brace_free (seg_name g)"
    using Cons.prems fill_names[of "[k \<mapsto> val k]"] by auto
  have "(\<lambda>x. if x \<in> set keys then Some (val x) else None) ++ [k \<mapsto> val k]
     = (\<lambda>x. if x \<in> set (k # keys) then Some (val x) else None)"
    by (auto simp: fun_eq_iff)
  with Cons.IH[OF _ _ wf] Cons.prems show ?case
    using replace_key_path[of k "val k" segs] by (simp add: comp_def fill_compose)
qed

section \<open>Properties\<close>

text \<open>
  For a path of brace-free text and placeholders, with brace-free names and values, the two
  textual replacements per variable amount to one simultaneous substitution of \<open>{name}\<close> and
  \<open>{{name}}\<close>; unknown placeholders stay, and the order in which the hash table is iterated
  does not matter.
\<close>

theorem path_substitution:
  assumes "\<forall>g \<in> set segs. brace_free (seg_name g)"
    and "\<forall>(k, v) \<in> set path_vars. brace_free k \<and> brace_free v"
  shows "replace_path_variables (path_str segs) path_vars = path_str (map (fill (map_of path_vars)) segs)"
proof -
  let ?val = "\<lambda>k. case map_of path_vars k of Some v \<Rightarrow> v | None \<Rightarrow> []"
  let ?keys = "sort_key (\<lambda>k. - int (length k)) (map fst path_vars)"
  have set: "set ?keys = dom (map_of path_vars)" by (simp add: dom_map_of_conv_image_fst)
  have val: "(\<lambda>k. if k \<in> set ?keys then Some (?val k) else None) = map_of path_vars"
    unfolding set by (auto simp: fun_eq_iff split: option.splits)
  have "\<forall>k \<in> set ?keys. brace_free k \<and> brace_free (?val k)"
    using assms(2) unfolding set by (auto split: option.splits dest: map_of_SomeD)
  then have "fold (\<lambda>key result. replace_all (''{'' @ key @ ''}'') (?val key)
             (replace_all (''{{'' @ key @ ''}}'') (?val key) result)) ?keys (path_str segs)
       = path_str (map (fill (map_of path_vars)) segs)"
    using replace_keys_path[of ?keys ?val segs] assms(1) unfolding val by blast
  then show ?thesis by (simp add: replace_path_variables_def Let_def)
qed

theorem path_substitution_witness:
  "replace_path_variables ''/u/{id}/{{ident}}/{x}'' [(''id'', ''7''), (''ident'', ''8'')] = ''/u/7/8/{x}''"
  using path_substitution[of "[Text ''/u/'', Single ''id'', Text ''/'', Double ''ident'', Text ''/'', Single ''x'']"
      "[(''id'', ''7''), (''ident'', ''8'')]"]
  by (simp add: path_str_def brace_free_def)

text \<open>
  A rendered path that is not an absolute URL is joined to a base URL by exactly one slash:
  the base comes first without trailing slashes, the path last without leading ones, and a
  missing or blank base leaves a path that starts with a single slash.
\<close>

theorem build_url_single_slash:
  assumes "\<not> is_absolute_url (replace_path_variables path path_vars)"
  shows "\<exists>b p. build_url base path path_vars = b @ ''/'' @ p
    \<and> b = trim_end_slashes (trim (case base of Some u \<Rightarrow> u | None \<Rightarrow> []))
    \<and> p = trim_start_slashes (trim (replace_path_variables path path_vars))
    \<and> \<not> ends_with ''/'' b \<and> \<not> starts_with ''/'' p"
proof -
  have no_start: "\<not> starts_with ''/'' (trim_start_slashes s)" for s
    by (auto simp: starts_with_iff trim_start_slashes_def dropWhile_eq_Cons_conv)
  have no_end: "\<not> ends_with ''/'' (trim_end_slashes s)" for s
  proof
    assume "ends_with ''/'' (trim_end_slashes s)"
    then obtain r where "trim_end_slashes s = r @ ''/''" by (auto simp: ends_with_iff)
    then have "dropWhile (\<lambda>c. c = CHR ''/'') (rev s) = CHR ''/'' # rev r"
      by (metis rev_append rev_rev_ident rev_singleton_conv trim_end_slashes_def append_Cons append_Nil)
    then show False by (auto simp: dropWhile_eq_Cons_conv)
  qed
  have "trim_end_slashes [] = []" by (simp add: trim_end_slashes_def)
  then show ?thesis
    using assms no_start no_end by (auto simp: build_url_def Let_def split: option.splits)
qed

theorem build_url_single_slash_witness:
  "\<exists>p. build_url (Some ''http://a.io//'') ''/x'' [] = ''http://a.io'' @ ''/'' @ p"
proof -
  have "\<not> is_absolute_url (replace_path_variables ''/x'' [])" by code_simp
  moreover have "trim_end_slashes (trim ''http://a.io//'') = ''http://a.io''" by code_simp
  ultimately show ?thesis
    using build_url_single_slash[of "''/x''" "[]" "Some ''http://a.io//''"] by auto
qed

end
