(* ===== verification/Curl.thy ===== *)
theory Curl
  imports Model
begin

text \<open>
  The cURL importer, \<open>crates/fox-core/src/curl_parser.rs\<close>. The splitting of the command line
  into words (\<open>shell_words::split\<close>) and the JSON validity test (\<open>serde_json\<close>) are parameters.
  The parse loop is a recursion on the words that are left; its state is \<open>parse_state\<close>. The
  second half describes a command by its options and relates the loop to that reading.
\<close>

record curl_parsed =
  cp_url :: str
  cp_method :: http_method
  cp_headers :: "key_value list"
  cp_body :: "body_spec option"
  cp_auth :: auth_spec
  cp_ignored :: "str list"

definition default_parsed :: curl_parsed where
  "default_parsed = \<lparr>cp_url = [], cp_method = GET, cp_headers = [], cp_body = None,
     cp_auth = Auth_None, cp_ignored = []\<rparr>"

record parse_state =
  ps_out :: curl_parsed
  ps_explicit :: "http_method option"
  ps_has_data :: bool
  ps_data_parts :: "str list"
  ps_digest :: bool

definition push_ignored :: "str \<Rightarrow> curl_parsed \<Rightarrow> curl_parsed" where
  "push_ignored token out =
     (if list_ex (\<lambda>s. s = token) (cp_ignored out) then out
      else out\<lparr>cp_ignored := cp_ignored out @ [token]\<rparr>)"

definition is_value_option :: "str \<Rightarrow> bool" where
  "is_value_option name \<longleftrightarrow> name \<in> set
     [''--url'', ''--request'', ''--header'', ''--user'', ''--data'', ''--data-raw'',
      ''--data-binary'', ''--data-urlencode'']"

definition VALUE_LONG_OPTIONS :: "str list" where
  "VALUE_LONG_OPTIONS =
     [''--user-agent'', ''--cookie'', ''--referer'', ''--output'', ''--write-out'', ''--proxy'',
      ''--cookie-jar'', ''--cert'', ''--form'', ''--config'', ''--max-time'', ''--max-redirs'',
      ''--connect-timeout'', ''--limit-rate'', ''--range'', ''--upload-file'', ''--resolve'',
      ''--retry'', ''--retry-delay'', ''--interface'', ''--cacert'', ''--capath'', ''--key'',
      ''--proto'', ''--proto-redir'']"

definition VALUE_SHORT_OPTS :: "char list" where
  "VALUE_SHORT_OPTS = ''AbcdeEFHKmoPrTUuwxXtz''"

definition parse_method :: "str \<Rightarrow> http_method option" where
  "parse_method v = (case method_from_str v of Inr m \<Rightarrow> Some m | Inl e \<Rightarrow> None)"

definition parse_user :: "str \<Rightarrow> str \<times> str" where
  "parse_user v = (case split_once '':'' v of Some (u, p) \<Rightarrow> (trim u, p) | None \<Rightarrow> (trim v, []))"

definition push_header :: "str \<Rightarrow> key_value list \<Rightarrow> key_value list" where
  "push_header v headers =
     (case split_once '':'' v of
        None \<Rightarrow> headers
      | Some (key, val) \<Rightarrow> if trim key = [] then headers else headers @ [new_kv (trim key) (trim val)])"

definition infer_body :: "(str \<Rightarrow> bool) \<Rightarrow> str \<Rightarrow> body_spec" where
  "infer_body json_ok data =
     (let trimmed = trim data;
          plausible = (trimmed \<noteq> [] \<and> hd trimmed \<in> {CHR ''{'', CHR ''[''}
                         \<and> last trimmed \<in> {CHR ''}'', CHR '']''})
      in if plausible \<and> length trimmed \<le> 64 * 1024 \<and> json_ok trimmed
         then Body_Json data else Body_Text data)"

definition set_url :: "str \<Rightarrow> parse_state \<Rightarrow> parse_state" where
  "set_url v ps = (if cp_url (ps_out ps) = [] then ps\<lparr>ps_out := (ps_out ps)\<lparr>cp_url := v\<rparr>\<rparr> else ps)"

definition set_basic :: "str \<Rightarrow> parse_state \<Rightarrow> parse_state" where
  "set_basic v ps = ps\<lparr>ps_out := (ps_out ps)\<lparr>cp_auth := Basic (fst (parse_user v)) (snd (parse_user v))\<rparr>\<rparr>"

definition add_header :: "str \<Rightarrow> parse_state \<Rightarrow> parse_state" where
  "add_header v ps = ps\<lparr>ps_out := (ps_out ps)\<lparr>cp_headers := push_header v (cp_headers (ps_out ps))\<rparr>\<rparr>"

definition add_data :: "str \<Rightarrow> parse_state \<Rightarrow> parse_state" where
  "add_data v ps = ps\<lparr>ps_data_parts := ps_data_parts ps @ [v], ps_has_data := True\<rparr>"

definition ignore :: "str \<Rightarrow> parse_state \<Rightarrow> parse_state" where
  "ignore token ps = ps\<lparr>ps_out := push_ignored token (ps_out ps)\<rparr>"

definition apply_value_option :: "str \<Rightarrow> str \<Rightarrow> parse_state \<Rightarrow> parse_state" where
  "apply_value_option name v ps =
     (if name = ''--url'' then set_url v ps
      else if name = ''--request'' then ps\<lparr>ps_explicit := parse_method v\<rparr>
      else if name = ''--header'' then add_header v ps
      else if name = ''--user'' then set_basic v ps
      else if name \<in> set [''--data'', ''--data-raw'', ''--data-binary'', ''--data-urlencode'']
      then add_data v ps
      else ps)"

text \<open>
  The \<open>match\<close> of the loop: the word, the word after it if there is one, and whether that one is
  consumed too.
\<close>

definition option_step :: "str \<Rightarrow> str option \<Rightarrow> parse_state \<Rightarrow> parse_state \<times> bool" where
  "option_step w next ps =
     (if w = ''-X'' \<or> w = ''--request'' then
        (case next of Some v \<Rightarrow> (ps\<lparr>ps_explicit := parse_method v\<rparr>, True) | None \<Rightarrow> (ps, False))
      else if w = ''-H'' \<or> w = ''--header'' then
        (case next of Some v \<Rightarrow> (add_header v ps, True) | None \<Rightarrow> (ps, False))
      else if w = ''-u'' \<or> w = ''--user'' then
        (case next of Some v \<Rightarrow> (set_basic v ps, True) | None \<Rightarrow> (ps, False))
      else if w = ''--digest'' then (ps\<lparr>ps_digest := True\<rparr>, False)
      else if w \<in> set [''-d'', ''--data'', ''--data-raw'', ''--data-binary'', ''--data-urlencode''] then
        (case next of Some v \<Rightarrow> (add_data v ps, True) | None \<Rightarrow> (ps, False))
      else if w = ''--url'' then
        (case next of Some v \<Rightarrow> (set_url v ps, True) | None \<Rightarrow> (ps, False))
      else if starts_with ''--'' w \<and> 2 < length w then
        (ignore w ps, next \<noteq> None \<and> w \<in> set VALUE_LONG_OPTIONS)
      else if starts_with ''-'' w \<and> 1 < length w then
        (ignore w ps, next \<noteq> None \<and> list_ex (\<lambda>c. c \<in> set VALUE_SHORT_OPTS) (tl w))
      else (set_url w ps, False))"

definition is_command_word :: "str \<Rightarrow> bool" where
  "is_command_word w \<longleftrightarrow> w = ''curl'' \<or> w = ''curl.exe'' \<or> ends_with ''/curl'' w"

definition next_word :: "str list \<Rightarrow> str option" where
  "next_word ws = (case ws of [] \<Rightarrow> None | v # _ \<Rightarrow> Some v)"

function curl_loop :: "bool \<Rightarrow> str list \<Rightarrow> parse_state \<Rightarrow> parse_state" where
  "curl_loop first [] ps = ps"
| "curl_loop first (w # ws) ps =
     (if first \<and> is_command_word w then curl_loop False ws ps
      else if w = ''--'' then (case next_word ws of Some v \<Rightarrow> set_url v ps | None \<Rightarrow> ps)
      else
        (let step = (case option_step w (next_word ws) ps of
                       (ps', eat) \<Rightarrow> curl_loop False (if eat then tl ws else ws) ps')
         in case split_once ''='' w of
              Some (name, v) \<Rightarrow>
                if starts_with ''--'' name then
                  curl_loop False ws
                    (if is_value_option name then apply_value_option name v ps else ignore name ps)
                else step
            | None \<Rightarrow> step))"
  by pat_completeness auto
termination
  by (relation "measure (\<lambda>(first, ws, ps). length ws)") auto

definition finish :: "(str \<Rightarrow> bool) \<Rightarrow> parse_state \<Rightarrow> (app_error, curl_parsed) result" where
  "finish json_ok ps =
     (let out = ps_out ps in
      if cp_url out = [] then Err (Validation (Msg ''no URL found in the cURL command'' []))
      else
        Ok (out\<lparr>cp_method := (case ps_explicit ps of Some m \<Rightarrow> m
                                | None \<Rightarrow> if ps_has_data ps then POST else GET),
                cp_auth := (if ps_digest ps
                            then (case cp_auth out of Basic u p \<Rightarrow> Digest u p | a \<Rightarrow> a)
                            else cp_auth out),
                cp_body := (if ps_has_data ps then Some (infer_body json_ok (join ''&'' (ps_data_parts ps)))
                            else cp_body out)\<rparr>))"

definition init_state :: parse_state where
  "init_state = \<lparr>ps_out = default_parsed, ps_explicit = None, ps_has_data = False,
     ps_data_parts = [], ps_digest = False\<rparr>"

definition parse_curl ::
  "(str \<Rightarrow> (str, str list) result) \<Rightarrow> (str \<Rightarrow> bool) \<Rightarrow> str \<Rightarrow> (app_error, curl_parsed) result" where
  "parse_curl split json_ok input =
     (case split input of
        Inl e \<Rightarrow> Err (Validation (Msg ''the cURL command cannot be parsed'' [e]))
      | Inr words \<Rightarrow>
          if words = [] then Err (Validation (Msg ''the cURL command is empty'' []))
          else finish json_ok (curl_loop True words init_state))"

section \<open>A command by its options\<close>

text \<open>
  An option as a user writes it: a name and its value as two words, a long name and its value in
  one word, a name alone, a word that is no option. \<open>opt_ok\<close> says the name is used with the
  arity the parser knows it by.
\<close>

datatype curl_opt = Valued str str | Glued str str | Switch str | Plain str

fun words_of :: "curl_opt \<Rightarrow> str list" where
  "words_of (Valued n v) = [n, v]"
| "words_of (Glued n v) = [n @ ''='' @ v]"
| "words_of (Switch n) = [n]"
| "words_of (Plain u) = [u]"

definition canonical :: "str \<Rightarrow> str" where
  "canonical n =
     (if n = ''-X'' then ''--request'' else if n = ''-H'' then ''--header''
      else if n = ''-u'' then ''--user'' else if n = ''-d'' then ''--data'' else n)"

definition short_name :: "str \<Rightarrow> bool" where
  "short_name n \<longleftrightarrow> starts_with ''-'' n \<and> 1 < length n \<and> \<not> starts_with ''--'' n"

definition long_name :: "str \<Rightarrow> bool" where
  "long_name n \<longleftrightarrow> starts_with ''--'' n \<and> 2 < length n"

definition takes_value :: "str \<Rightarrow> bool" where
  "takes_value n \<longleftrightarrow> list_ex (\<lambda>c. c \<in> set VALUE_SHORT_OPTS) (tl n)"

fun opt_ok :: "curl_opt \<Rightarrow> bool" where
  "opt_ok (Valued n v) \<longleftrightarrow> CHR ''='' \<notin> set n \<and>
     (is_value_option (canonical n) \<or> n \<in> set VALUE_LONG_OPTIONS \<or> short_name n \<and> takes_value n)"
| "opt_ok (Glued n v) \<longleftrightarrow> CHR ''='' \<notin> set n \<and> starts_with ''--'' n"
| "opt_ok (Switch n) \<longleftrightarrow> CHR ''='' \<notin> set n \<and>
     (n = ''--digest'' \<or> long_name n \<and> \<not> is_value_option n \<and> n \<notin> set VALUE_LONG_OPTIONS
       \<or> short_name n \<and> \<not> takes_value n)"
| "opt_ok (Plain u) \<longleftrightarrow> \<not> starts_with ''-'' u \<or> u = ''-''"

fun opt_effect :: "curl_opt \<Rightarrow> parse_state \<Rightarrow> parse_state" where
  "opt_effect (Valued n v) ps =
     (if is_value_option (canonical n) then apply_value_option (canonical n) v ps else ignore n ps)"
| "opt_effect (Glued n v) ps =
     (if is_value_option n then apply_value_option n v ps else ignore n ps)"
| "opt_effect (Switch n) ps = (if n = ''--digest'' then ps\<lparr>ps_digest := True\<rparr> else ignore n ps)"
| "opt_effect (Plain u) ps = set_url u ps"

lemma canonical_value_option:
  "is_value_option (canonical n) \<longleftrightarrow> n \<in> set [''-X'', ''-H'', ''-u'', ''-d'', ''--url'', ''--request'',
     ''--header'', ''--user'', ''--data'', ''--data-raw'', ''--data-binary'', ''--data-urlencode'']"
  by (auto simp: canonical_def is_value_option_def)

lemma step_valued:
  assumes "is_value_option (canonical n)"
  shows "option_step n (Some v) ps = (apply_value_option (canonical n) v ps, True)"
  using assms unfolding canonical_value_option
  by (auto simp: option_step_def apply_value_option_def canonical_def)

lemma long_options_unknown:
  assumes "n \<in> set VALUE_LONG_OPTIONS"
  shows "long_name n \<and> \<not> is_value_option (canonical n) \<and> n \<noteq> ''--digest'' \<and> \<not> short_name n"
  using assms
  by (auto simp: VALUE_LONG_OPTIONS_def long_name_def short_name_def starts_with_iff
      canonical_value_option)

lemma step_ignored:
  assumes "long_name n \<or> short_name n" "\<not> is_value_option (canonical n)" "n \<noteq> ''--digest''"
  shows "option_step n next ps =
    (ignore n ps, next \<noteq> None \<and> (if long_name n then n \<in> set VALUE_LONG_OPTIONS else takes_value n))"
proof -
  have unknown: "option_step n next ps =
      (if starts_with ''--'' n \<and> 2 < length n then (ignore n ps, next \<noteq> None \<and> n \<in> set VALUE_LONG_OPTIONS)
       else if starts_with ''-'' n \<and> 1 < length n
       then (ignore n ps, next \<noteq> None \<and> list_ex (\<lambda>c. c \<in> set VALUE_SHORT_OPTS) (tl n))
       else (set_url n ps, False))"
    using assms(2,3) unfolding canonical_value_option by (simp add: option_step_def)
  show ?thesis
  proof (cases "long_name n")
    case True
    then show ?thesis unfolding unknown by (simp add: long_name_def)
  next
    case False
    then have "short_name n" using assms(1) by simp
    with False show ?thesis unfolding unknown by (simp add: long_name_def short_name_def takes_value_def)
  qed
qed

lemma step_plain:
  assumes "\<not> starts_with ''-'' u \<or> u = ''-''"
  shows "option_step u next ps = (set_url u ps, False)"
proof -
  have short: "length u \<le> 1" if "starts_with ''-'' u" using that assms by auto
  have "starts_with ''-'' u" if "starts_with ''--'' u" using that by (auto simp: starts_with_iff)
  with short have "(starts_with ''--'' u \<and> 2 < length u) = False" "(starts_with ''-'' u \<and> 1 < length u) = False"
    by (linarith | force)+
  moreover have "u \<notin> set [''-X'', ''-H'', ''-u'', ''-d'', ''--url'', ''--request'', ''--header'', ''--user'',
      ''--digest'', ''--data'', ''--data-raw'', ''--data-binary'', ''--data-urlencode'']"
    using assms by (auto simp: starts_with_iff)
  ultimately show ?thesis unfolding option_step_def by (simp only: if_False) simp
qed

lemma loop_word:
  assumes "CHR ''='' \<notin> set w" "w \<noteq> ''--''"
  shows "curl_loop False (w # ws) ps = (case option_step w (next_word ws) ps of
      (ps', eat) \<Rightarrow> curl_loop False (if eat then tl ws else ws) ps')"
proof -
  have "split_once ''='' w = None" using assms(1) split_once_char_None by blast
  with assms(2) show ?thesis by (simp add: Let_def)
qed

lemma switch_unknown:
  assumes "long_name n \<and> \<not> is_value_option n \<or> short_name n \<and> \<not> takes_value n"
  shows "\<not> is_value_option (canonical n)"
proof
  assume v: "is_value_option (canonical n)"
  have "takes_value n" if "n \<in> {''-X'', ''-H'', ''-u'', ''-d''}"
    using that by (auto simp: takes_value_def VALUE_SHORT_OPTS_def)
  moreover have "\<not> long_name n" if "n \<in> {''-X'', ''-H'', ''-u'', ''-d''}"
    using that by (auto simp: long_name_def)
  moreover have "\<not> short_name n" if "is_value_option n"
    using that by (auto simp: short_name_def is_value_option_def starts_with_iff)
  ultimately show False
    using assms v by (auto simp: canonical_def split: if_splits)
qed

lemma option_not_separator:
  "long_name n \<or> short_name n \<or> is_value_option (canonical n) \<Longrightarrow> n \<noteq> ''--''"
  by (auto simp: long_name_def short_name_def starts_with_iff canonical_value_option)

lemma loop_option:
  assumes "opt_ok p"
  shows "curl_loop False (words_of p @ ws) ps = curl_loop False ws (opt_effect p ps)"
proof (cases p)
  case (Valued n v)
  show ?thesis
  proof (cases "is_value_option (canonical n)")
    case True
    then show ?thesis
      using assms Valued option_not_separator[of n]
      by (simp add: loop_word step_valued next_word_def del: curl_loop.simps)
  next
    case False
    then have "n \<in> set VALUE_LONG_OPTIONS \<or> short_name n \<and> takes_value n"
      using assms Valued by simp
    moreover have "n \<noteq> ''--digest''" if "short_name n"
      using that by (auto simp: short_name_def starts_with_iff)
    moreover have "\<not> long_name n" if "short_name n"
      using that by (auto simp: short_name_def long_name_def)
    ultimately have "option_step n (Some v) ps = (ignore n ps, True)" "n \<noteq> ''--''"
      using False long_options_unknown[of n] option_not_separator[of n]
      by (auto simp: step_ignored)
    with False show ?thesis
      using assms Valued by (simp add: loop_word next_word_def del: curl_loop.simps)
  qed
next
  case (Glued n v)
  then have "n @ ''='' @ v \<noteq> ''--''" by (auto simp: append_eq_Cons_conv Cons_eq_append_conv)
  moreover have "split_once ''='' (n @ ''='' @ v) = Some (n, v)"
    using assms Glued by (simp add: split_once_char_append)
  ultimately show ?thesis using assms Glued by simp
next
  case (Switch n)
  show ?thesis
  proof (cases "n = ''--digest''")
    case True
    then show ?thesis
      using Switch by (simp add: loop_word option_step_def next_word_def del: curl_loop.simps)
  next
    case False
    then have n: "long_name n \<and> \<not> is_value_option n \<and> n \<notin> set VALUE_LONG_OPTIONS
        \<or> short_name n \<and> \<not> takes_value n"
      using assms Switch by simp
    moreover have "\<not> long_name n" if "short_name n"
      using that by (auto simp: short_name_def long_name_def)
    moreover have "\<not> is_value_option (canonical n)" using n by (intro switch_unknown) auto
    ultimately have "option_step n (next_word ws) ps = (ignore n ps, False)" "n \<noteq> ''--''"
      using False option_not_separator[of n] step_ignored[of n "next_word ws" ps] by auto
    with False show ?thesis
      using assms Switch by (simp add: loop_word del: curl_loop.simps)
  qed
next
  case (Plain u)
  have "u \<noteq> ''--''" using assms Plain by (auto simp: starts_with_iff)
  moreover have "\<not> starts_with ''--'' a" if "split_once ''='' u = Some (a, b)" for a b
    using split_once_Some_eq[OF that] assms Plain by (auto simp: starts_with_iff)
  moreover have "option_step u (next_word ws) ps = (set_url u ps, False)"
    using assms Plain by (intro step_plain) simp
  ultimately show ?thesis
    using Plain by (cases "split_once ''='' u") (auto simp: Let_def)
qed

lemma loop_options:
  assumes "\<forall>p \<in> set opts. opt_ok p"
  shows "curl_loop False (concat (map words_of opts)) ps = fold opt_effect opts ps"
  using assms
proof (induction opts arbitrary: ps)
  case (Cons p opts)
  then show ?case by (simp add: loop_option del: curl_loop.simps)
qed simp

section \<open>Closed form\<close>

datatype value_kind = K_Url | K_Request | K_Header | K_User | K_Data

definition kind_of :: "str \<Rightarrow> value_kind" where
  "kind_of n = (if n = ''--url'' then K_Url else if n = ''--request'' then K_Request
     else if n = ''--header'' then K_Header else if n = ''--user'' then K_User else K_Data)"

text \<open>The values the options give for a kind, and the names the parser does not know.\<close>

fun given :: "value_kind \<Rightarrow> curl_opt \<Rightarrow> str list" where
  "given k (Valued n v) = (if is_value_option (canonical n) \<and> kind_of (canonical n) = k then [v] else [])"
| "given k (Glued n v) = (if is_value_option n \<and> kind_of n = k then [v] else [])"
| "given k (Switch n) = []"
| "given k (Plain u) = (if k = K_Url then [u] else [])"

fun ignored_of :: "curl_opt \<Rightarrow> str list" where
  "ignored_of (Valued n v) = (if is_value_option (canonical n) then [] else [n])"
| "ignored_of (Glued n v) = (if is_value_option n then [] else [n])"
| "ignored_of (Switch n) = (if n = ''--digest'' then [] else [n])"
| "ignored_of (Plain u) = []"

abbreviation of_opts :: "(curl_opt \<Rightarrow> str list) \<Rightarrow> curl_opt list \<Rightarrow> str list" where
  "of_opts f opts \<equiv> concat (map f opts)"

definition first_nonempty :: "str list \<Rightarrow> str" where
  "first_nonempty us = (case filter (\<lambda>u. u \<noteq> []) us of [] \<Rightarrow> [] | u # _ \<Rightarrow> u)"

definition last_or :: "'a \<Rightarrow> 'a list \<Rightarrow> 'a" where
  "last_or d xs = (if xs = [] then d else last xs)"

lemma last_or_simps [simp]: "last_or d [] = d" "last_or d (x # xs) = last_or x xs"
  by (simp_all add: last_or_def)

lemma first_nonempty_Cons: "first_nonempty (u # us) = (if u = [] then first_nonempty us else u)"
  by (simp add: first_nonempty_def)

text \<open>What the options leave in each field of the state.\<close>

lemma ignore_fields [simp]:
  "cp_url (ps_out (ignore n ps)) = cp_url (ps_out ps)"
  "ps_explicit (ignore n ps) = ps_explicit ps"
  "cp_headers (ps_out (ignore n ps)) = cp_headers (ps_out ps)"
  "cp_auth (ps_out (ignore n ps)) = cp_auth (ps_out ps)"
  "ps_data_parts (ignore n ps) = ps_data_parts ps"
  "ps_has_data (ignore n ps) = ps_has_data ps"
  "ps_digest (ignore n ps) = ps_digest ps"
  "cp_body (ps_out (ignore n ps)) = cp_body (ps_out ps)"
  "cp_ignored (ps_out (ignore n ps)) =
     (if n \<in> set (cp_ignored (ps_out ps)) then cp_ignored (ps_out ps) else cp_ignored (ps_out ps) @ [n])"
  by (auto simp: ignore_def push_ignored_def list_ex_iff)

lemma set_url_fields [simp]:
  "cp_url (ps_out (set_url u ps)) = first_nonempty [cp_url (ps_out ps), u]"
  "ps_explicit (set_url u ps) = ps_explicit ps"
  "cp_headers (ps_out (set_url u ps)) = cp_headers (ps_out ps)"
  "cp_auth (ps_out (set_url u ps)) = cp_auth (ps_out ps)"
  "ps_data_parts (set_url u ps) = ps_data_parts ps"
  "ps_has_data (set_url u ps) = ps_has_data ps"
  "ps_digest (set_url u ps) = ps_digest ps"
  "cp_body (ps_out (set_url u ps)) = cp_body (ps_out ps)"
  "cp_ignored (ps_out (set_url u ps)) = cp_ignored (ps_out ps)"
  by (auto simp: set_url_def first_nonempty_def)

lemma add_fields [simp]:
  "cp_url (ps_out (add_header v ps)) = cp_url (ps_out ps)"
  "ps_explicit (add_header v ps) = ps_explicit ps"
  "cp_headers (ps_out (add_header v ps)) = push_header v (cp_headers (ps_out ps))"
  "cp_auth (ps_out (add_header v ps)) = cp_auth (ps_out ps)"
  "ps_data_parts (add_header v ps) = ps_data_parts ps"
  "ps_has_data (add_header v ps) = ps_has_data ps"
  "ps_digest (add_header v ps) = ps_digest ps"
  "cp_body (ps_out (add_header v ps)) = cp_body (ps_out ps)"
  "cp_ignored (ps_out (add_header v ps)) = cp_ignored (ps_out ps)"
  "ps_out (add_data v ps) = ps_out ps"
  "ps_explicit (add_data v ps) = ps_explicit ps"
  "ps_data_parts (add_data v ps) = ps_data_parts ps @ [v]"
  "ps_has_data (add_data v ps) = True"
  "ps_digest (add_data v ps) = ps_digest ps"
  by (simp_all add: add_header_def add_data_def)

lemma set_basic_fields [simp]:
  "cp_url (ps_out (set_basic v ps)) = cp_url (ps_out ps)"
  "ps_explicit (set_basic v ps) = ps_explicit ps"
  "cp_headers (ps_out (set_basic v ps)) = cp_headers (ps_out ps)"
  "cp_auth (ps_out (set_basic v ps)) = Basic (fst (parse_user v)) (snd (parse_user v))"
  "ps_data_parts (set_basic v ps) = ps_data_parts ps"
  "ps_has_data (set_basic v ps) = ps_has_data ps"
  "ps_digest (set_basic v ps) = ps_digest ps"
  "cp_body (ps_out (set_basic v ps)) = cp_body (ps_out ps)"
  "cp_ignored (ps_out (set_basic v ps)) = cp_ignored (ps_out ps)"
  by (simp_all add: set_basic_def)

fun apply_kind :: "value_kind \<Rightarrow> str \<Rightarrow> parse_state \<Rightarrow> parse_state" where
  "apply_kind K_Url v ps = set_url v ps"
| "apply_kind K_Request v ps = ps\<lparr>ps_explicit := parse_method v\<rparr>"
| "apply_kind K_Header v ps = add_header v ps"
| "apply_kind K_User v ps = set_basic v ps"
| "apply_kind K_Data v ps = add_data v ps"

lemma apply_value_kind: "is_value_option n \<Longrightarrow> apply_value_option n v ps = apply_kind (kind_of n) v ps"
  by (auto simp: is_value_option_def apply_value_option_def kind_of_def)

lemma opt_effect_kinds:
  "opt_effect (Valued n v) ps =
     (if is_value_option (canonical n) then apply_kind (kind_of (canonical n)) v ps else ignore n ps)"
  "opt_effect (Glued n v) ps = (if is_value_option n then apply_kind (kind_of n) v ps else ignore n ps)"
  by (simp_all add: apply_value_kind)

lemma first_nonempty_single [simp]: "first_nonempty [u] = u"
  by (simp add: first_nonempty_def)

lemma apply_kind_fields:
  "cp_url (ps_out (apply_kind k v ps)) =
     (if k = K_Url then first_nonempty [cp_url (ps_out ps), v] else cp_url (ps_out ps))"
  "ps_explicit (apply_kind k v ps) = (if k = K_Request then parse_method v else ps_explicit ps)"
  "cp_headers (ps_out (apply_kind k v ps)) =
     (if k = K_Header then push_header v (cp_headers (ps_out ps)) else cp_headers (ps_out ps))"
  "cp_auth (ps_out (apply_kind k v ps)) =
     (if k = K_User then Basic (fst (parse_user v)) (snd (parse_user v)) else cp_auth (ps_out ps))"
  "ps_data_parts (apply_kind k v ps) = (if k = K_Data then ps_data_parts ps @ [v] else ps_data_parts ps)"
  "ps_has_data (apply_kind k v ps) = (ps_has_data ps \<or> k = K_Data)"
  "ps_digest (apply_kind k v ps) = ps_digest ps"
  "cp_body (ps_out (apply_kind k v ps)) = cp_body (ps_out ps)"
  "cp_ignored (ps_out (apply_kind k v ps)) = cp_ignored (ps_out ps)"
  by (cases k; simp)+

definition basic_of :: "str \<Rightarrow> auth_spec" where
  "basic_of v = Basic (fst (parse_user v)) (snd (parse_user v))"

definition add_new :: "'a \<Rightarrow> 'a list \<Rightarrow> 'a list" where
  "add_new x l = (if x \<in> set l then l else l @ [x])"

lemma fold_add_new: "fold add_new xs [] = rev (remdups (rev xs))"
  by (induction xs rule: rev_induct) (simp_all add: add_new_def)

lemma effect_fields:
  "cp_url (ps_out (opt_effect p ps)) = first_nonempty (cp_url (ps_out ps) # given K_Url p)"
  "ps_explicit (opt_effect p ps) = last_or (ps_explicit ps) (map parse_method (given K_Request p))"
  "cp_headers (ps_out (opt_effect p ps)) = fold push_header (given K_Header p) (cp_headers (ps_out ps))"
  "cp_auth (ps_out (opt_effect p ps)) = last_or (cp_auth (ps_out ps)) (map basic_of (given K_User p))"
  "ps_data_parts (opt_effect p ps) = ps_data_parts ps @ given K_Data p"
  "ps_has_data (opt_effect p ps) = (ps_has_data ps \<or> given K_Data p \<noteq> [])"
  "ps_digest (opt_effect p ps) = (ps_digest ps \<or> p = Switch ''--digest'')"
  "cp_body (ps_out (opt_effect p ps)) = cp_body (ps_out ps)"
  "cp_ignored (ps_out (opt_effect p ps)) = fold add_new (ignored_of p) (cp_ignored (ps_out ps))"
  by (cases p; simp add: apply_value_kind apply_kind_fields basic_of_def add_new_def)+

lemma first_nonempty_append: "first_nonempty (first_nonempty us # vs) = first_nonempty (us @ vs)"
proof (induction us)
  case Nil
  have "first_nonempty [] = []" by (simp add: first_nonempty_def)
  then show ?case by (simp add: first_nonempty_Cons)
next
  case (Cons u us)
  then show ?case by (auto simp: first_nonempty_Cons)
qed

lemma last_or_append: "last_or (last_or d xs) ys = last_or d (xs @ ys)"
  by (simp add: last_or_def)

lemma fold_fields:
  "cp_url (ps_out (fold opt_effect opts ps)) = first_nonempty (cp_url (ps_out ps) # of_opts (given K_Url) opts)"
  "ps_explicit (fold opt_effect opts ps) = last_or (ps_explicit ps) (map parse_method (of_opts (given K_Request) opts))"
  "cp_headers (ps_out (fold opt_effect opts ps)) = fold push_header (of_opts (given K_Header) opts) (cp_headers (ps_out ps))"
  "cp_auth (ps_out (fold opt_effect opts ps)) = last_or (cp_auth (ps_out ps)) (map basic_of (of_opts (given K_User) opts))"
  "ps_data_parts (fold opt_effect opts ps) = ps_data_parts ps @ of_opts (given K_Data) opts"
  "ps_has_data (fold opt_effect opts ps) = (ps_has_data ps \<or> of_opts (given K_Data) opts \<noteq> [])"
  "ps_digest (fold opt_effect opts ps) = (ps_digest ps \<or> Switch ''--digest'' \<in> set opts)"
  "cp_body (ps_out (fold opt_effect opts ps)) = cp_body (ps_out ps)"
  "cp_ignored (ps_out (fold opt_effect opts ps)) = fold add_new (of_opts ignored_of opts) (cp_ignored (ps_out ps))"
  by (induction opts arbitrary: ps;
      auto simp: effect_fields first_nonempty_append last_or_append simp del: opt_effect.simps)+

section \<open>Well-formed results\<close>

definition ps_inv :: "parse_state \<Rightarrow> bool" where
  "ps_inv ps \<longleftrightarrow> distinct (cp_ignored (ps_out ps))
     \<and> list_all (\<lambda>h. kv_key h \<noteq> [] \<and> kv_enabled h) (cp_headers (ps_out ps))
     \<and> (cp_auth (ps_out ps) = Auth_None \<or> (\<exists>u p. cp_auth (ps_out ps) = Basic u p))
     \<and> (ps_has_data ps \<longleftrightarrow> ps_data_parts ps \<noteq> []) \<and> cp_body (ps_out ps) = None"

lemma push_header_ok:
  "list_all (\<lambda>h. kv_key h \<noteq> [] \<and> kv_enabled h) hs \<Longrightarrow>
   list_all (\<lambda>h. kv_key h \<noteq> [] \<and> kv_enabled h) (push_header v hs)"
  by (auto simp: push_header_def split: option.splits)

lemma ps_inv_setters [inv_rules]:
  assumes "ps_inv ps"
  shows "ps_inv (set_url v ps)" "ps_inv (set_basic v ps)" "ps_inv (add_header v ps)"
    "ps_inv (add_data v ps)" "ps_inv (ignore v ps)" "ps_inv (ps\<lparr>ps_explicit := m\<rparr>)"
    "ps_inv (ps\<lparr>ps_digest := b\<rparr>)"
  using assms by (auto simp: ps_inv_def push_header_ok)

lemma ps_inv_apply [inv_rules]: "ps_inv ps \<Longrightarrow> ps_inv (apply_value_option n v ps)"
  by (simp add: apply_value_option_def inv_rules)

lemma ps_inv_step [inv_rules]: "ps_inv ps \<Longrightarrow> ps_inv (fst (option_step w next ps))"
  by (simp add: option_step_def inv_rules split: option.split)

lemma ps_inv_loop: "ps_inv ps \<Longrightarrow> ps_inv (curl_loop first ws ps)"
proof (induction first ws ps rule: curl_loop.induct)
  case (2 first w ws ps)
  have step: "ps_inv (case option_step w (next_word ws) ps of
      (ps', eat) \<Rightarrow> curl_loop False (if eat then tl ws else ws) ps')"
    if "\<not> (first \<and> is_command_word w)" "w \<noteq> ''--''"
    using that 2(2)[OF that _ ] 2(4) ps_inv_step[OF 2(4), of w "next_word ws"]
    by (cases "option_step w (next_word ws) ps") auto
  show ?case
    using 2(1,3,4) step
    by (auto simp: Let_def inv_rules split: option.splits)
qed simp

section \<open>Properties\<close>

lemma parse_curl_closed_form:
  assumes "split input = Inr (''curl'' # concat (map words_of opts))" "\<forall>p \<in> set opts. opt_ok p"
  shows "parse_curl split json_ok input =
    (let url = first_nonempty (of_opts (given K_Url) opts);
         data = of_opts (given K_Data) opts;
         auth = last_or Auth_None (map basic_of (of_opts (given K_User) opts))
     in if url = [] then Err (Validation (Msg ''no URL found in the cURL command'' []))
        else Ok \<lparr>cp_url = url,
          cp_method = (case last_or None (map parse_method (of_opts (given K_Request) opts)) of
                         Some m \<Rightarrow> m | None \<Rightarrow> if data \<noteq> [] then POST else GET),
          cp_headers = fold push_header (of_opts (given K_Header) opts) [],
          cp_body = (if data \<noteq> [] then Some (infer_body json_ok (join ''&'' data)) else None),
          cp_auth = (if Switch ''--digest'' \<in> set opts
                     then (case auth of Basic u p \<Rightarrow> Digest u p | a \<Rightarrow> a) else auth),
          cp_ignored = rev (remdups (rev (of_opts ignored_of opts)))\<rparr>)"
proof -
  let ?ps = "fold opt_effect opts init_state"
  have init: "cp_url (ps_out init_state) = []" "ps_explicit init_state = None"
    "cp_headers (ps_out init_state) = []" "cp_auth (ps_out init_state) = Auth_None"
    "ps_data_parts init_state = []" "\<not> ps_has_data init_state" "\<not> ps_digest init_state"
    "cp_body (ps_out init_state) = None" "cp_ignored (ps_out init_state) = []"
    by (simp_all add: init_state_def default_parsed_def)
  have parse: "parse_curl split json_ok input = finish json_ok ?ps"
    using assms by (simp add: parse_curl_def is_command_word_def loop_options)
  show ?thesis
    unfolding parse finish_def Let_def fold_fields init
    by (intro if_cong refl arg_cong[where f = Inr] curl_parsed.equality)
       (simp_all add: fold_fields init fold_add_new first_nonempty_Cons del: concat_eq_Nil_conv)
qed

text \<open>
  C2: A command written with the options the parser knows parses to exactly what the options
  say: the first non-empty URL, the last method (else POST with data, else GET), the headers in
  order, the data joined by ampersands, the last user as Basic or, with \<open>--digest\<close>, as Digest
  credentials, the unknown options once each in order of appearance; without a URL it is an
  error.
\<close>

theorem parse_curl_options:
  assumes "split input = Inr (''curl'' # concat (map words_of opts))" "\<forall>p \<in> set opts. opt_ok p"
  shows "parse_curl split json_ok input =
    (let url = first_nonempty (of_opts (given K_Url) opts);
         data = of_opts (given K_Data) opts;
         auth = last_or Auth_None (map basic_of (of_opts (given K_User) opts))
     in if url = [] then Err (Validation (Msg ''no URL found in the cURL command'' []))
        else Ok \<lparr>cp_url = url,
          cp_method = (case last_or None (map parse_method (of_opts (given K_Request) opts)) of
                         Some m \<Rightarrow> m | None \<Rightarrow> if data \<noteq> [] then POST else GET),
          cp_headers = fold push_header (of_opts (given K_Header) opts) [],
          cp_body = (if data \<noteq> [] then Some (infer_body json_ok (join ''&'' data)) else None),
          cp_auth = (if Switch ''--digest'' \<in> set opts
                     then (case auth of Basic u p \<Rightarrow> Digest u p | a \<Rightarrow> a) else auth),
          cp_ignored = rev (remdups (rev (of_opts ignored_of opts)))\<rparr>)"
  using assms by (rule parse_curl_closed_form)

theorem parse_curl_options_witness:
  "parse_curl (\<lambda>s. Inr [''curl'', ''-H'', ''A: b'', ''--data=x'', ''-k'', ''u.io'']) (\<lambda>s. False) [] =
     Ok \<lparr>cp_url = ''u.io'', cp_method = POST, cp_headers = [new_kv ''A'' ''b''],
       cp_body = Some (Body_Text ''x''), cp_auth = Auth_None, cp_ignored = [''-k'']\<rparr>"
proof -
  define opts where "opts = [Valued ''-H'' ''A: b'', Glued ''--data'' ''x'', Switch ''-k'', Plain ''u.io'']"
  have ok: "\<forall>p \<in> set opts. opt_ok p"
    by (simp add: opts_def canonical_value_option starts_with_iff short_name_def takes_value_def
        VALUE_SHORT_OPTS_def)
  have ws: "(\<lambda>s. Inr [''curl'', ''-H'', ''A: b'', ''--data=x'', ''-k'', ''u.io'']) [] =
      (Inr (''curl'' # concat (map words_of opts)) :: (str, str list) result)"
    by (simp add: opts_def)
  have parts: "of_opts (given K_Url) opts = [''u.io'']" "of_opts (given K_Data) opts = [''x'']"
    "of_opts (given K_User) opts = []" "of_opts (given K_Request) opts = []"
    "of_opts (given K_Header) opts = [''A: b'']" "of_opts ignored_of opts = [''-k'']"
    "Switch ''--digest'' \<notin> set opts"
    by (simp_all add: opts_def canonical_def is_value_option_def kind_of_def)
  have "push_header ''A: b'' [] = [new_kv ''A'' ''b'']" "infer_body (\<lambda>s. False) ''x'' = Body_Text ''x''"
    by code_simp+
  with parse_curl_options[of "\<lambda>s. Inr [''curl'', ''-H'', ''A: b'', ''--data=x'', ''-k'', ''u.io'']" "[]" opts
      "\<lambda>s. False", OF ws ok] show ?thesis
    unfolding parts by (simp add: parts)
qed

text \<open>
  Whatever the words are, a successful parse has a URL, lists every ignored option once, has
  only enabled headers with a non-empty name, and only Basic or Digest credentials; it has a
  body exactly when the command gave data.
\<close>

theorem parse_curl_wellformed:
  assumes "parse_curl split json_ok input = Ok r"
  shows "cp_url r \<noteq> [] \<and> distinct (cp_ignored r)
    \<and> list_all (\<lambda>h. kv_key h \<noteq> [] \<and> kv_enabled h) (cp_headers r)
    \<and> (cp_auth r = Auth_None \<or> (\<exists>u p. cp_auth r = Basic u p \<or> cp_auth r = Digest u p))
    \<and> (\<exists>words. split input = Inr words \<and> words \<noteq> [] \<and>
         (cp_body r \<noteq> None) = ps_has_data (curl_loop True words init_state))"
proof -
  obtain words where w: "split input = Inr words" "words \<noteq> []"
    "finish json_ok (curl_loop True words init_state) = Ok r"
    using assms by (auto simp: parse_curl_def split: sum.splits if_splits)
  have "ps_inv (curl_loop True words init_state)"
    by (rule ps_inv_loop) (simp add: ps_inv_def init_state_def default_parsed_def)
  with w show ?thesis
    by (auto simp: finish_def Let_def ps_inv_def split: if_splits)
qed

theorem parse_curl_wellformed_witness:
  "\<exists>r. parse_curl (\<lambda>s. Inr [''curl'', ''u.io'']) (\<lambda>s. False) [] = Ok r \<and> cp_url r \<noteq> []"
proof -
  have "parse_curl (\<lambda>s. Inr [''curl'', ''u.io'']) (\<lambda>s. False) [] = Ok (default_parsed\<lparr>cp_url := ''u.io''\<rparr>)"
    by code_simp
  from this parse_curl_wellformed[OF this] show ?thesis by blast
qed

text \<open>
  A short option with its value attached, such as \<open>-XPOST\<close>, is not understood: it is
  recorded as ignored, its letters are read as flags, one of them takes a value, and the URL
  that follows is swallowed, so a command with one URL is rejected for having none.
\<close>

theorem glued_method_swallows_url:
  "parse_curl (\<lambda>s. Inr [''curl'', ''-XPOST'', url]) json_ok input =
     Err (Validation (Msg ''no URL found in the cURL command'' []))"
proof -
  have "short_name ''-XPOST''" "takes_value ''-XPOST''" "\<not> long_name ''-XPOST''"
    "\<not> is_value_option (canonical ''-XPOST'')"
    by (simp_all add: short_name_def starts_with_iff takes_value_def VALUE_SHORT_OPTS_def long_name_def
        canonical_value_option)
  then have "option_step ''-XPOST'' (Some url) init_state = (ignore ''-XPOST'' init_state, True)"
    by (subst step_ignored) auto
  then have "curl_loop True [''curl'', ''-XPOST'', url] init_state = ignore ''-XPOST'' init_state"
    using loop_word[of "''-XPOST''" "[url]" init_state] by (simp add: is_command_word_def next_word_def)
  then show ?thesis
    by (simp add: parse_curl_def finish_def init_state_def default_parsed_def del: curl_loop.simps)
qed

end
