(* ===== verification/HttpTypes.thy ===== *)
theory HttpTypes
  imports Model
begin

text \<open>
  The HTTP vocabulary the server and the client share. A header map is its entries in insertion
  order, names in lower case as the \<open>http\<close> crate keeps them; a lookup is insensitive to case and
  answers the first entry of a name. What the crate accepts as a name or a value is a parameter,
  \<open>http_rules\<close>.
\<close>

type_synonym header_map = "(str \<times> str) list"

record http_rules =
  hr_name :: "str \<Rightarrow> str option"
  hr_value :: "str \<Rightarrow> bool"
  hr_visible :: "str \<Rightarrow> bool"

definition header_get :: "header_map \<Rightarrow> str \<Rightarrow> str option" where
  "header_get hs k = map_of hs (to_ascii_lowercase k)"

definition header_get_all :: "header_map \<Rightarrow> str \<Rightarrow> str list" where
  "header_get_all hs k = map snd (filter (\<lambda>(n, v). n = to_ascii_lowercase k) hs)"

definition header_get_str :: "http_rules \<Rightarrow> header_map \<Rightarrow> str \<Rightarrow> str option" where
  "header_get_str R hs k =
     (case header_get hs k of Some v \<Rightarrow> if hr_visible R v then Some v else None | None \<Rightarrow> None)"

definition status_ok :: "u16 \<Rightarrow> bool" where
  "status_ok s \<longleftrightarrow> 100 \<le> s \<and> s \<le> 999"

definition demo_rules :: http_rules where
  "demo_rules = \<lparr>hr_name = \<lambda>k. if k = [] then None else Some (to_ascii_lowercase k),
     hr_value = \<lambda>v. list_all (\<lambda>c. c \<noteq> CHR 0x0A) v, hr_visible = \<lambda>v. True\<rparr>"

lemma header_get_case: "eq_ignore_ascii_case k k' \<Longrightarrow> header_get hs k = header_get hs k'"
  by (simp add: header_get_def eq_ignore_ascii_case_def)

end
