(* ===== verification/Select.thy ===== *)
theory Select
  imports Prelude
begin

text \<open>
  The choice of a best candidate in one pass: a loop keeps the best element so far and replaces
  it only when the next one is strictly preferred. The interface is the preference, a strict weak
  order; the lemmas say which element the loop ends with.
\<close>

locale selector =
  fixes better :: "'a \<Rightarrow> 'a \<Rightarrow> bool"
  assumes better_irrefl: "\<not> better x x"
    and better_trans: "better x y \<Longrightarrow> better y z \<Longrightarrow> better x z"
    and better_split: "better x z \<Longrightarrow> better x y \<or> better y z"
begin

definition keep :: "'a \<Rightarrow> 'a option \<Rightarrow> 'a option" where
  "keep x best = (case best of None \<Rightarrow> Some x | Some b \<Rightarrow> if better x b then Some x else Some b)"

definition select :: "'a list \<Rightarrow> 'a option" where
  "select xs = fold keep xs None"

lemma select_Nil [simp]: "select [] = None"
  by (simp add: select_def)

lemma select_snoc: "select (xs @ [x]) = keep x (select xs)"
  by (simp add: select_def)

lemma select_None: "select xs = None \<longleftrightarrow> xs = []"
  by (induction xs rule: rev_induct) (auto simp: select_snoc keep_def split: option.splits)

text \<open>The winner is preferred to everything before it and nothing after it is preferred.\<close>

lemma select_Some:
  "select xs = Some b \<Longrightarrow>
   \<exists>ys zs. xs = ys @ b # zs \<and> (\<forall>y \<in> set ys. better b y) \<and> (\<forall>z \<in> set zs. \<not> better z b)"
proof (induction xs arbitrary: b rule: rev_induct)
  case (snoc x xs)
  show ?case
  proof (cases "select xs")
    case None
    then have "xs @ [x] = [] @ b # []" using snoc.prems by (simp add: select_None) (simp add: select_def keep_def)
    then show ?thesis by fastforce
  next
    case (Some c)
    from snoc.IH[OF Some] obtain ys zs where
      s: "xs = ys @ c # zs" "\<forall>y \<in> set ys. better c y" "\<forall>z \<in> set zs. \<not> better z c" by blast
    show ?thesis
    proof (cases "better x c")
      case True
      then have "b = x" using snoc.prems Some by (simp add: select_snoc keep_def)
      moreover have "\<forall>y \<in> set xs. better x y"
      proof
        fix y assume "y \<in> set xs"
        then consider "y \<in> set ys" | "y = c" | "y \<in> set zs" using s(1) by auto
        then show "better x y"
          by cases (use s True better_trans better_split in blast)+
      qed
      ultimately have "xs @ [x] = xs @ b # [] \<and> (\<forall>y \<in> set xs. better b y) \<and> (\<forall>z \<in> set []. \<not> better z b)"
        by simp
      then show ?thesis by blast
    next
      case False
      then have "b = c" using snoc.prems Some by (simp add: select_snoc keep_def)
      then have "xs @ [x] = ys @ b # (zs @ [x]) \<and> (\<forall>y \<in> set ys. better b y)
          \<and> (\<forall>z \<in> set (zs @ [x]). \<not> better z b)"
        using s False by simp
      then show ?thesis by blast
    qed
  qed
qed simp

lemma select_maximal:
  assumes "select xs = Some b" "x \<in> set xs"
  shows "\<not> better x b"
proof
  assume "better x b"
  obtain ys zs where s: "xs = ys @ b # zs" "\<forall>y \<in> set ys. better b y" "\<forall>z \<in> set zs. \<not> better z b"
    using select_Some[OF assms(1)] by blast
  then consider "better b x" | "x = b" | "\<not> better x b" using assms(2) by auto
  then show False
    by cases (use \<open>better x b\<close> better_irrefl better_trans in blast)+
qed

lemma select_mem: "select xs = Some b \<Longrightarrow> b \<in> set xs"
  using select_Some by fastforce

text \<open>The choice is stable under deciding the candidates on the way.\<close>

lemma fold_keep_filter:
  "fold (\<lambda>x best. case f x of None \<Rightarrow> best | Some y \<Rightarrow> keep y best) xs None = select (List.map_filter f xs)"
proof -
  have "fold (\<lambda>x best. case f x of None \<Rightarrow> best | Some y \<Rightarrow> keep y best) xs b
      = fold keep (List.map_filter f xs) b" for b
    by (induction xs arbitrary: b) (auto simp: List.map_filter_simps split: option.splits)
  then show ?thesis by (simp add: select_def)
qed

end

text \<open>Choosing among labelled candidates and dropping the labels is choosing among the images.\<close>

lemma fold_keep_map:
  assumes "\<And>x y. better' x y = better (f x) (f y)"
  shows "map_option f (fold (\<lambda>x best. case best of None \<Rightarrow> Some x | Some b \<Rightarrow> if better' x b then Some x else Some b) xs b)
       = fold (\<lambda>x best. case best of None \<Rightarrow> Some x | Some b \<Rightarrow> if better x b then Some x else Some b) (map f xs) (map_option f b)"
  using assms by (induction xs arbitrary: b) (auto split: option.splits)

end
