(* ===== verification/Mock.thy ===== *)
theory Mock
  imports Variable HttpTypes Select
begin

text \<open>
  The mock server, \<open>crates/fox-mock/src/server.rs\<close>: the definitions built from rules and
  endpoint examples, the compiled and indexed store, matching, template rendering, the request
  handler and the port probing. The handler's clock, identifiers and random numbers come from the
  \<open>world\<close> of the variable engine; what the \<open>http\<close> crate accepts as a header is \<open>http_rules\<close>.
\<close>

definition DEFAULT_MOCK_PORT :: u16 where "DEFAULT_MOCK_PORT = 4010"
definition MAX_PORT_TRIES :: u16 where "MAX_PORT_TRIES = 20"

section \<open>Definitions\<close>

datatype mock_source = Src_Default | Src_Example | Src_Rule

fun source_rank :: "mock_source \<Rightarrow> nat" where
  "source_rank Src_Default = 0" | "source_rank Src_Example = 1" | "source_rank Src_Rule = 2"

instantiation mock_source :: linorder
begin

definition less_eq_mock_source :: "mock_source \<Rightarrow> mock_source \<Rightarrow> bool" where
  "less_eq_mock_source a b \<longleftrightarrow> source_rank a \<le> source_rank b"

definition less_mock_source :: "mock_source \<Rightarrow> mock_source \<Rightarrow> bool" where
  "less_mock_source a b \<longleftrightarrow> source_rank a < source_rank b"

instance
proof
  fix a b :: mock_source
  show "a \<le> b \<Longrightarrow> b \<le> a \<Longrightarrow> a = b"
    by (cases a; cases b) (auto simp: less_eq_mock_source_def)
qed (auto simp: less_eq_mock_source_def less_mock_source_def)

end

record mock_definition =
  md_method :: str
  md_path :: str
  md_match_query :: "mock_match_item list"
  md_match_headers :: "mock_match_item list"
  md_status :: u16
  md_headers :: "str str_table"
  md_body_template :: str
  md_delay_ms :: u64
  md_fault_rate_pct :: u8
  md_fault_status :: u16
  md_priority :: int
  md_source :: mock_source

definition from_rule :: "mock_rule \<Rightarrow> mock_definition" where
  "from_rule rule =
     \<lparr>md_method = method_as_str (mr_method rule), md_path = mr_path rule,
      md_match_query = mr_match_query rule, md_match_headers = mr_match_headers rule,
      md_status = mr_response_status rule, md_headers = mr_response_headers rule,
      md_body_template = mr_response_body_template rule, md_delay_ms = mr_delay_ms rule,
      md_fault_rate_pct = mr_fault_rate_pct rule, md_fault_status = mr_fault_status rule,
      md_priority = mr_priority rule, md_source = Src_Rule\<rparr>"



section \<open>Matching\<close>

datatype path_seg = Literal str | Param str

definition path_segments :: "str \<Rightarrow> str list" where
  "path_segments p = filter (\<lambda>s. s \<noteq> []) (split_on CHR ''/'' p)"

definition param_name :: "str \<Rightarrow> str option" where
  "param_name s = Option.bind (strip_prefix ''{'' s) (strip_suffix ''}'')"

definition compile_seg :: "str \<Rightarrow> path_seg" where
  "compile_seg s = (case param_name s of Some n \<Rightarrow> Param n | None \<Rightarrow> Literal s)"

definition compile_path :: "str \<Rightarrow> path_seg list" where
  "compile_path template = map compile_seg (path_segments template)"

definition parse_query :: "str \<Rightarrow> (str, str) hash_map" where
  "parse_query query =
     fold (\<lambda>kv m.
             let (k, v) = (case split_once ''='' kv of Some (k, v) \<Rightarrow> (k, v) | None \<Rightarrow> (kv, []))
             in if m k = None then m(k \<mapsto> v) else m)
       (filter (\<lambda>s. s \<noteq> []) (split_on CHR ''&'' query)) Map.empty"

fun match_segs :: "path_seg list \<Rightarrow> str list \<Rightarrow> (str, str) hash_map \<Rightarrow> (str, str) hash_map option" where
  "match_segs (Param n # ts) (p # ps) vars = match_segs ts ps (vars(n \<mapsto> p))"
| "match_segs (Literal l # ts) (p # ps) vars = (if l \<noteq> p then None else match_segs ts ps vars)"
| "match_segs _ _ vars = Some vars"

definition match_compiled :: "path_seg list \<Rightarrow> str list \<Rightarrow> (str, str) hash_map option" where
  "match_compiled template path =
     (if length template \<noteq> length path then None else match_segs template path Map.empty)"

definition query_match_map :: "mock_match_item list \<Rightarrow> (str, str) hash_map \<Rightarrow> bool" where
  "query_match_map items pairs \<longleftrightarrow>
     list_all (\<lambda>item. case pairs (mm_key item) of
                 Some v \<Rightarrow> mm_value item = [] \<or> v = mm_value item
               | None \<Rightarrow> False) items"

fun match_strs :: "str list \<Rightarrow> str list \<Rightarrow> (str, str) hash_map \<Rightarrow> (str, str) hash_map option" where
  "match_strs (t # ts) (p # ps) vars =
     (case param_name t of
        Some n \<Rightarrow> match_strs ts ps (vars(n \<mapsto> p))
      | None \<Rightarrow> if t \<noteq> p then None else match_strs ts ps vars)"
| "match_strs _ _ vars = Some vars"

definition match_path :: "str \<Rightarrow> str \<Rightarrow> (str, str) hash_map option" where
  "match_path template path =
     (let t = path_segments template; p = path_segments path
      in if length t \<noteq> length p then None else match_strs t p Map.empty)"

definition query_match :: "mock_match_item list \<Rightarrow> str \<Rightarrow> bool" where
  "query_match items query = query_match_map items (parse_query query)"

definition headers_match :: "http_rules \<Rightarrow> mock_match_item list \<Rightarrow> header_map \<Rightarrow> bool" where
  "headers_match R items headers \<longleftrightarrow>
     list_all (\<lambda>item. case header_get_str R headers (mm_key item) of
                 Some v \<Rightarrow> mm_value item = [] \<or> v = mm_value item
               | None \<Rightarrow> False) items"

definition picks :: "mock_definition \<Rightarrow> mock_definition \<Rightarrow> bool" where
  "picks a b = (if md_source a \<noteq> md_source b then md_source b < md_source a
                else md_priority b < md_priority a)"

definition resolve ::
  "http_rules \<Rightarrow> mock_definition list \<Rightarrow> str \<Rightarrow> str \<Rightarrow> str \<Rightarrow> header_map
     \<Rightarrow> (mock_definition \<times> (str, str) hash_map) option" where
  "resolve R defs method path query headers =
     fold (\<lambda>def best.
             if \<not> eq_ignore_ascii_case (md_method def) method then best
             else (case match_path (md_path def) path of
                     None \<Rightarrow> best
                   | Some vars \<Rightarrow>
                       if \<not> query_match (md_match_query def) query then best
                       else if \<not> headers_match R (md_match_headers def) headers then best
                       else (case best of
                               None \<Rightarrow> Some (def, vars)
                             | Some (b, _) \<Rightarrow> if picks def b then Some (def, vars) else best)))
       defs None"

section \<open>The indexed store\<close>

record compiled_route =
  ro_def :: mock_definition
  ro_method_upper :: str
  ro_segments :: "path_seg list"

record mock_store =
  ms_routes :: "compiled_route list"
  ms_index :: "(str \<times> nat, nat list) hash_map"

definition empty_store :: mock_store where
  "empty_store = \<lparr>ms_routes = [], ms_index = Map.empty\<rparr>"

definition compile_route :: "mock_definition \<Rightarrow> compiled_route" where
  "compile_route def = \<lparr>ro_def = def, ro_method_upper = to_ascii_uppercase (md_method def),
     ro_segments = compile_path (md_path def)\<rparr>"

definition add_route :: "mock_definition \<Rightarrow> mock_store \<Rightarrow> mock_store" where
  "add_route def inner =
     (let route = compile_route def;
          key = (ro_method_upper route, length (ro_segments route));
          group = (case ms_index inner key of Some g \<Rightarrow> g | None \<Rightarrow> [])
      in \<lparr>ms_routes = ms_routes inner @ [route],
          ms_index = (ms_index inner)(key \<mapsto> group @ [length (ms_routes inner)])\<rparr>)"

definition set_definitions :: "mock_definition list \<Rightarrow> mock_store \<Rightarrow> mock_store" where
  "set_definitions defs old = fold add_route defs empty_store"

definition match_request ::
  "http_rules \<Rightarrow> mock_store \<Rightarrow> str \<Rightarrow> str \<Rightarrow> str \<Rightarrow> header_map
     \<Rightarrow> (mock_definition \<times> (str, str) hash_map \<times> (str, str) hash_map) option" where
  "match_request R store method path query headers =
     (let req_segs = path_segments path;
          query_map = parse_query query
      in case ms_index store (to_ascii_uppercase method, length req_segs) of
           None \<Rightarrow> None
         | Some candidates \<Rightarrow>
             map_option (\<lambda>(idx, vars). (ro_def (ms_routes store ! idx), vars, query_map))
               (fold (\<lambda>idx best.
                        let route = ms_routes store ! idx in
                        case match_compiled (ro_segments route) req_segs of
                          None \<Rightarrow> best
                        | Some vars \<Rightarrow>
                            if \<not> query_match_map (md_match_query (ro_def route)) query_map then best
                            else if \<not> headers_match R (md_match_headers (ro_def route)) headers then best
                            else (case best of
                                    None \<Rightarrow> Some (idx, vars)
                                  | Some (b, _) \<Rightarrow>
                                      if picks (ro_def route) (ro_def (ms_routes store ! b))
                                      then Some (idx, vars) else best))
                  candidates None))"

section \<open>Rendering\<close>

definition simple_word :: "world \<Rightarrow> nat \<Rightarrow> str \<times> nat" where
  "simple_word w t =
     (let words = [''alpha'', ''beta'', ''gamma'', ''delta'', ''nova'', ''fox'', ''mock'', ''demo'']
      in (words ! (w_random w t mod length words), Suc t))"

definition mock_value :: "world \<Rightarrow> str \<Rightarrow> nat \<Rightarrow> str \<times> nat" where
  "mock_value w kind t =
     (if kind = ''uuid'' then (w_uuid w t, Suc t)
      else if kind = ''email'' then
        (let (s, t') = simple_word w t in (to_lowercase s @ ''@example.com'', t'))
      else if kind = ''name'' then simple_word w t
      else if kind = ''word'' then simple_word w t
      else if kind = ''timestamp'' then (show_int (w_now w t div 10 ^ 9), Suc t)
      else if kind = ''int'' then (show_nat (w_random w t mod 1000), Suc t)
      else ([], t))"

definition lookup ::
  "http_rules \<Rightarrow> world \<Rightarrow> str \<Rightarrow> (str, str) hash_map \<Rightarrow> (str, str) hash_map \<Rightarrow> header_map \<Rightarrow> nat \<Rightarrow> str \<times> nat" where
  "lookup R w key params query headers t =
     (case strip_prefix ''params.'' key of
        Some name \<Rightarrow> (case params name of Some v \<Rightarrow> v | None \<Rightarrow> [], t)
      | None \<Rightarrow>
     (case strip_prefix ''query.'' key of
        Some name \<Rightarrow> (case query name of Some v \<Rightarrow> v | None \<Rightarrow> [], t)
      | None \<Rightarrow>
     (case strip_prefix ''headers.'' key of
        Some name \<Rightarrow> (case header_get_str R headers name of Some v \<Rightarrow> v | None \<Rightarrow> [], t)
      | None \<Rightarrow>
     (case strip_prefix ''mock.'' key of
        Some kind \<Rightarrow> mock_value w kind t
      | None \<Rightarrow> ([], t)))))"

function render_template_with_query ::
  "http_rules \<Rightarrow> world \<Rightarrow> str \<Rightarrow> (str, str) hash_map \<Rightarrow> (str, str) hash_map \<Rightarrow> header_map \<Rightarrow> nat \<Rightarrow> str \<times> nat" where
  "render_template_with_query R w rest params query headers t =
     (case split_once ''{{'' rest of
        None \<Rightarrow> (rest, t)
      | Some (lit, after) \<Rightarrow>
          (case split_once ''}}'' after of
             None \<Rightarrow> (rest, t)
           | Some (key, rest') \<Rightarrow>
               let (v, t1) = lookup R w key params query headers t;
                   (r, t2) = render_template_with_query R w rest' params query headers t1
               in (lit @ v @ r, t2)))"
  by pat_completeness auto
termination
  by (relation "measure (\<lambda>(R, w, rest, _). length rest)") (auto dest!: split_once_length)

declare render_template_with_query.simps [simp del]

definition render_template ::
  "http_rules \<Rightarrow> world \<Rightarrow> str \<Rightarrow> (str, str) hash_map \<Rightarrow> str \<Rightarrow> header_map \<Rightarrow> nat \<Rightarrow> str \<times> nat" where
  "render_template R w template params query headers t =
     render_template_with_query R w template params (parse_query query) headers t"

section \<open>The handler\<close>

record mock_request =
  rq_method :: str
  rq_path :: str
  rq_query :: "str option"
  rq_headers :: header_map

record mock_response =
  rp_status :: u16
  rp_headers :: header_map
  rp_body :: str

definition not_matched :: mock_response where
  "not_matched = \<lparr>rp_status = 404, rp_headers = [(''content-type'', ''application/json'')],
     rp_body = ''{\"message\":\"no mock rule matched\"}''\<rparr>"

definition fault_response :: "mock_definition \<Rightarrow> mock_response" where
  "fault_response def =
     \<lparr>rp_status = (if status_ok (md_fault_status def) then md_fault_status def else 500),
      rp_headers = [(''content-type'', ''application/json'')],
      rp_body = ''{\"message\":\"mock fault injection ('' @ show_nat (unat (md_fault_rate_pct def)) @ ''%)\"}''\<rparr>"

definition built_headers :: "http_rules \<Rightarrow> str str_table \<Rightarrow> header_map" where
  "built_headers R hs =
     List.map_filter (\<lambda>(k, v). case hr_name R k of None \<Rightarrow> None
                               | Some n \<Rightarrow> if hr_value R v then Some (n, v) else None) hs
     @ (if list_ex (\<lambda>(k, v). contains ''html'' (to_lowercase v)) hs then []
        else [(''content-type'', ''application/json; charset=utf-8'')])"

text \<open>
  The handler answers a response after a delay in milliseconds. \<open>t\<close> is the tick of the random
  sources; the fault draw comes before the template is rendered.
\<close>

definition mock_handler ::
  "http_rules \<Rightarrow> world \<Rightarrow> mock_store \<Rightarrow> mock_request \<Rightarrow> nat \<Rightarrow> mock_response \<times> u64 \<times> nat" where
  "mock_handler R w store req t =
     (case match_request R store (rq_method req) (rq_path req)
             (case rq_query req of Some q \<Rightarrow> q | None \<Rightarrow> []) (rq_headers req) of
        None \<Rightarrow> (not_matched, 0, t)
      | Some (def, params, query_map) \<Rightarrow>
          let draws = (0 < md_fault_rate_pct def);
              t1 = (if draws then Suc t else t)
          in if draws \<and> w_random w t mod 100 < unat (md_fault_rate_pct def)
             then (fault_response def, md_delay_ms def, t1)
             else
               let (body, t2) = render_template_with_query R w (md_body_template def) params query_map
                                  (rq_headers req) t1
               in (if status_ok (md_status def)
                   then \<lparr>rp_status = md_status def, rp_headers = built_headers R (md_headers def), rp_body = body\<rparr>
                   else \<lparr>rp_status = 500, rp_headers = [], rp_body = []\<rparr>,
                   md_delay_ms def, t2))"

section \<open>Starting\<close>

record mock_server =
  sv_port :: u16
  sv_store :: mock_store

definition start :: "(u16 \<Rightarrow> bool) \<Rightarrow> mock_store \<Rightarrow> (app_error, mock_server) result" where
  "start binds store =
     (case find binds (map (\<lambda>i. DEFAULT_MOCK_PORT + of_nat i) [0..<unat MAX_PORT_TRIES]) of
        Some port \<Rightarrow> Ok \<lparr>sv_port = port, sv_store = store\<rparr>
      | None \<Rightarrow> Err (Mock (Msg ''no free port for the mock server''
          [show_nat (unat DEFAULT_MOCK_PORT), show_nat (unat (DEFAULT_MOCK_PORT + MAX_PORT_TRIES - 1))])))"

definition address :: "mock_server \<Rightarrow> str" where
  "address sv = ''http://127.0.0.1:'' @ show_nat (unat (sv_port sv))"

section \<open>The choice of a definition\<close>

interpretation picking: selector "\<lambda>x y. picks (fst x) (fst y)"
  by unfold_locales (auto simp: picks_def split: if_splits)

definition hit_of ::
  "http_rules \<Rightarrow> str \<Rightarrow> str \<Rightarrow> str \<Rightarrow> header_map \<Rightarrow> mock_definition
     \<Rightarrow> (mock_definition \<times> (str, str) hash_map) option" where
  "hit_of R method path query headers def =
     (if eq_ignore_ascii_case (md_method def) method \<and> query_match (md_match_query def) query
         \<and> headers_match R (md_match_headers def) headers
      then map_option (\<lambda>vars. (def, vars)) (match_path (md_path def) path) else None)"

lemma resolve_select:
  "resolve R defs method path query headers =
     picking.select (List.map_filter (hit_of R method path query headers) defs)"
  unfolding resolve_def picking.fold_keep_filter [symmetric]
  by (rule arg_cong[where f = "\<lambda>g. fold g defs None"])
     (auto simp: fun_eq_iff hit_of_def picking.keep_def split: option.splits)

lemma match_segs_compile: "match_segs (map compile_seg ts) ps vars = match_strs ts ps vars"
  by (induction ts ps vars rule: match_strs.induct)
     (simp_all add: compile_seg_def del: fun_upd_apply split: option.split)

lemma match_compiled_path: "match_compiled (compile_path template) (path_segments path) = match_path template path"
  by (simp add: match_compiled_def match_path_def compile_path_def match_segs_compile Let_def)

lemma upper_lower: "ascii_upper a = ascii_upper b \<longleftrightarrow> ascii_lower a = ascii_lower b"
proof -
  have "ascii_lower (ascii_upper c) = ascii_lower c" "ascii_upper (ascii_lower c) = ascii_upper c" for c
    by (auto simp: ascii_lower_def ascii_upper_def Let_def)
  then show ?thesis by metis
qed

lemma eq_ignore_case_upper: "eq_ignore_ascii_case a b \<longleftrightarrow> to_ascii_uppercase a = to_ascii_uppercase b"
proof (induction a arbitrary: b)
  case Nil
  then show ?case by (simp add: eq_ignore_ascii_case_def to_ascii_lowercase_def to_ascii_uppercase_def)
next
  case (Cons c a)
  then show ?case
    by (cases b) (simp_all add: eq_ignore_ascii_case_def to_ascii_lowercase_def to_ascii_uppercase_def upper_lower)
qed

section \<open>The index\<close>

definition route_key :: "mock_definition \<Rightarrow> str \<times> nat" where
  "route_key def = (to_ascii_uppercase (md_method def), length (compile_path (md_path def)))"

text \<open>A group of the index holds the positions of its routes, in order.\<close>

lemma set_definitions_store:
  "ms_routes (set_definitions defs old) = map compile_route defs \<and>
   (\<forall>k. (case ms_index (set_definitions defs old) k of Some g \<Rightarrow> g | None \<Rightarrow> []) =
        filter (\<lambda>i. route_key (defs ! i) = k) [0..<length defs])"
proof (induction defs rule: rev_induct)
  case Nil
  then show ?case by (simp add: set_definitions_def empty_store_def)
next
  case (snoc d defs)
  have "filter (\<lambda>i. route_key ((defs @ [d]) ! i) = k) [0..<length defs]
      = filter (\<lambda>i. route_key (defs ! i) = k) [0..<length defs]" for k
    by (intro filter_cong) (auto simp: nth_append)
  with snoc show ?case
    by (auto simp: set_definitions_def add_route_def Let_def route_key_def compile_route_def nth_append)
qed

section \<open>Indexed matching\<close>

interpretation idx: selector "\<lambda>x y. picks (ro_def (routes ! fst x)) (ro_def (routes ! fst y))"
  for routes :: "compiled_route list"
  by unfold_locales (auto simp: picks_def split: if_splits)

lemma map_filter_filter:
  "(\<And>x. x \<in> set xs \<Longrightarrow> \<not> P x \<Longrightarrow> f x = None) \<Longrightarrow> List.map_filter f (filter P xs) = List.map_filter f xs"
  by (induction xs) (auto simp: List.map_filter_simps split: option.split)

lemma map_map_filter: "map g (List.map_filter f xs) = List.map_filter (\<lambda>x. map_option g (f x)) xs"
  by (induction xs) (auto simp: List.map_filter_simps split: option.splits)

lemma map_filter_map: "List.map_filter f (map g xs) = List.map_filter (\<lambda>x. f (g x)) xs"
  by (induction xs) (auto simp: List.map_filter_simps split: option.splits)

lemma map_filter_cong: "(\<And>x. x \<in> set xs \<Longrightarrow> f x = g x) \<Longrightarrow> List.map_filter f xs = List.map_filter g xs"
  by (induction xs) (auto simp: List.map_filter_simps split: option.splits)

lemma match_path_length: "match_path t p = Some vars \<Longrightarrow> length (path_segments t) = length (path_segments p)"
  by (auto simp: match_path_def Let_def split: if_splits)

lemma hit_key:
  assumes "hit_of R method path query headers def = Some h"
  shows "route_key def = (to_ascii_uppercase method, length (path_segments path))"
  using assms match_path_length[of "md_path def" path]
  by (auto simp: hit_of_def route_key_def compile_path_def eq_ignore_case_upper split: if_splits)

lemma candidates_hits:
  assumes "g = filter (\<lambda>i. route_key (defs ! i) = (to_ascii_uppercase method, length (path_segments path))) [0..<length defs]"
  shows "List.map_filter (\<lambda>i. hit_of R method path query headers (defs ! i)) g
       = List.map_filter (hit_of R method path query headers) defs"
proof -
  have "List.map_filter (\<lambda>i. hit_of R method path query headers (defs ! i)) g
      = List.map_filter (\<lambda>i. hit_of R method path query headers (defs ! i)) [0..<length defs]"
    unfolding assms by (intro map_filter_filter) (metis hit_key option.exhaust)
  also have "\<dots> = List.map_filter (hit_of R method path query headers) (map ((!) defs) [0..<length defs])"
    by (simp add: map_filter_map)
  finally show ?thesis by (simp add: map_nth)
qed

definition idx_hit ::
  "http_rules \<Rightarrow> compiled_route list \<Rightarrow> str list \<Rightarrow> (str, str) hash_map \<Rightarrow> header_map \<Rightarrow> nat
     \<Rightarrow> (nat \<times> (str, str) hash_map) option" where
  "idx_hit R routes segs query_map headers i =
     (if query_match_map (md_match_query (ro_def (routes ! i))) query_map
         \<and> headers_match R (md_match_headers (ro_def (routes ! i))) headers
      then map_option (\<lambda>vars. (i, vars)) (match_compiled (ro_segments (routes ! i)) segs) else None)"

lemma match_request_select:
  "match_request R store method path query headers =
     (case ms_index store (to_ascii_uppercase method, length (path_segments path)) of
        None \<Rightarrow> None
      | Some g \<Rightarrow> map_option (\<lambda>(idx, vars). (ro_def (ms_routes store ! idx), vars, parse_query query))
          (idx.select (ms_routes store)
             (List.map_filter (idx_hit R (ms_routes store) (path_segments path) (parse_query query) headers) g)))"
  unfolding match_request_def idx.fold_keep_filter [symmetric] Let_def
  by (rule option.case_cong[OF refl refl], rule arg_cong[where f = "map_option _"],
      rule arg_cong[where f = "\<lambda>h. fold h _ None"])
     (auto simp: fun_eq_iff idx_hit_def idx.keep_def split: option.splits)

lemma idx_hit_eq:
  assumes "i < length defs" "route_key (defs ! i) = (to_ascii_uppercase method, length (path_segments path))"
  shows "map_option (\<lambda>(i, vars). (defs ! i, vars))
           (idx_hit R (map compile_route defs) (path_segments path) (parse_query query) headers i)
       = hit_of R method path query headers (defs ! i)"
  using assms
  by (auto simp: idx_hit_def hit_of_def compile_route_def match_compiled_path query_match_def route_key_def
      eq_ignore_case_upper option.map_comp comp_def)

lemma map_option_Some_cong: "(\<And>x. r = Some x \<Longrightarrow> f x = g x) \<Longrightarrow> map_option f r = map_option g r"
  by (cases r) auto

lemma select_idx_map:
  assumes "routes = map compile_route defs" "set xs \<subseteq> {..<length defs} \<times> UNIV"
  shows "map_option (\<lambda>(i, vars). (defs ! i, vars)) (idx.select routes xs)
       = picking.select (map (\<lambda>(i, vars). (defs ! i, vars)) xs)"
proof -
  have "ro_def (routes ! i) = defs ! i" if "(i, vars) \<in> set xs" for i vars
    using that assms by (auto simp: compile_route_def)
  then have eq: "(\<lambda>(i, vars). (ro_def (routes ! i), vars)) x = (\<lambda>(i, vars). (defs ! i, vars)) x" if "x \<in> set xs" for x
    using that by (cases x) simp
  have same: "map (\<lambda>(i, vars). (ro_def (routes ! i), vars)) xs = map (\<lambda>(i, vars). (defs ! i, vars)) xs"
    by (rule map_cong[OF refl eq])
  have same': "map_option (\<lambda>(i, vars). (ro_def (routes ! i), vars)) (idx.select routes xs)
      = map_option (\<lambda>(i, vars). (defs ! i, vars)) (idx.select routes xs)"
    by (rule map_option_Some_cong[OF eq[OF idx.select_mem]])
  have "map_option (\<lambda>(i, vars). (ro_def (routes ! i), vars)) (idx.select routes xs)
      = picking.select (map (\<lambda>(i, vars). (ro_def (routes ! i), vars)) xs)"
    unfolding idx.select_def picking.select_def idx.keep_def picking.keep_def
    by (subst fold_keep_map[where better = "\<lambda>x y. picks (fst x) (fst y)"]) (auto simp: case_prod_beta)
  then show ?thesis by (simp only: same same')
qed

lemma indexed_matching:
  "match_request R (set_definitions defs old) method path query headers
     = map_option (\<lambda>(def, vars). (def, vars, parse_query query)) (resolve R defs method path query headers)"
proof -
  let ?k = "(to_ascii_uppercase method, length (path_segments path))"
  let ?routes = "map compile_route defs"
  define g where "g = filter (\<lambda>i. route_key (defs ! i) = ?k) [0..<length defs]"
  have store: "ms_routes (set_definitions defs old) = ?routes"
    "(case ms_index (set_definitions defs old) ?k of Some g \<Rightarrow> g | None \<Rightarrow> []) = g"
    using set_definitions_store[of defs old] by (simp_all add: g_def)
  define hits where "hits = List.map_filter (idx_hit R ?routes (path_segments path) (parse_query query) headers) g"
  have "set hits \<subseteq> {..<length defs} \<times> UNIV"
    by (auto simp: hits_def g_def List.map_filter_def idx_hit_def split: if_splits)
  then have sel: "map_option (\<lambda>(i, vars). (defs ! i, vars)) (idx.select ?routes hits)
      = picking.select (map (\<lambda>(i, vars). (defs ! i, vars)) hits)"
    by (rule select_idx_map[OF refl])
  have "map (\<lambda>(i, vars). (defs ! i, vars)) hits
      = List.map_filter (\<lambda>i. hit_of R method path query headers (defs ! i)) g"
    unfolding hits_def map_map_filter by (intro map_filter_cong idx_hit_eq) (auto simp: g_def)
  with sel have eq: "map_option (\<lambda>(i, vars). (defs ! i, vars)) (idx.select ?routes hits)
      = resolve R defs method path query headers"
    by (simp add: resolve_select candidates_hits[OF g_def])
  have "match_request R (set_definitions defs old) method path query headers
      = map_option (\<lambda>(idx, vars). (ro_def (?routes ! idx), vars, parse_query query)) (idx.select ?routes hits)"
    using store
    by (auto simp: match_request_select hits_def List.map_filter_simps split: option.splits)
  also have "\<dots> = map_option (\<lambda>(def, vars). (def, vars, parse_query query))
      (map_option (\<lambda>(i, vars). (defs ! i, vars)) (idx.select ?routes hits))"
    unfolding option.map_comp
    using idx.select_mem[of ?routes hits] \<open>set hits \<subseteq> _\<close>
    by (intro map_option_Some_cong) (auto simp: compile_route_def)
  finally show ?thesis by (simp only: eq)
qed

section \<open>Captured path parameters\<close>

fun seg_value :: "(str, str) hash_map \<Rightarrow> path_seg \<Rightarrow> str" where
  "seg_value vars (Literal l) = l"
| "seg_value vars (Param n) = (case vars n of Some v \<Rightarrow> v | None \<Rightarrow> [])"

fun seg_params :: "path_seg list \<Rightarrow> str list" where
  "seg_params [] = []"
| "seg_params (Literal l # ts) = seg_params ts"
| "seg_params (Param n # ts) = n # seg_params ts"

lemma match_segs_values:
  assumes "length ts = length ps" "distinct (seg_params ts)" "set (seg_params ts) \<inter> dom m = {}"
  shows "match_segs ts ps m = Some vars \<longleftrightarrow>
     dom vars = dom m \<union> set (seg_params ts) \<and> (\<forall>k \<in> dom m. vars k = m k) \<and> map (seg_value vars) ts = ps"
  using assms
proof (induction ts ps arbitrary: m rule: list_induct2)
  case Nil
  have "vars = m" if "dom vars = dom m" "\<forall>k \<in> dom m. vars k = m k"
  proof
    fix k show "vars k = m k" using that by (cases "k \<in> dom m") (auto simp: domIff)
  qed
  then show ?case by auto
next
  case (Cons t ts p ps)
  show ?case
  proof (cases t)
    case (Literal l)
    with Cons show ?thesis by auto
  next
    case (Param n)
    then have IH: "match_segs ts ps (m(n \<mapsto> p)) = Some vars \<longleftrightarrow>
        dom vars = dom (m(n \<mapsto> p)) \<union> set (seg_params ts)
        \<and> (\<forall>k \<in> dom (m(n \<mapsto> p)). vars k = (m(n \<mapsto> p)) k) \<and> map (seg_value vars) ts = ps"
      using Cons.prems by (intro Cons.IH) (simp_all add: Int_insert_left Int_insert_right del: fun_upd_apply split: if_splits)
    have n: "n \<notin> dom m" "n \<notin> set (seg_params ts)" using Cons.prems Param by auto
    have "(\<forall>k \<in> dom (m(n \<mapsto> p)). vars k = (m(n \<mapsto> p)) k) \<longleftrightarrow> vars n = Some p \<and> (\<forall>k \<in> dom m. vars k = m k)"
      using n by auto
    moreover have "vars n = Some p \<longleftrightarrow> n \<in> dom vars \<and> seg_value vars (Param n) = p"
      by (auto split: option.splits)
    ultimately show ?thesis
      unfolding Param match_segs.simps IH using n by auto
  qed
qed

lemma match_path_values:
  assumes "distinct (seg_params (compile_path template))"
  shows "match_path template path = Some vars \<longleftrightarrow>
    dom vars = set (seg_params (compile_path template))
    \<and> map (seg_value vars) (compile_path template) = path_segments path"
proof (cases "length (compile_path template) = length (path_segments path)")
  case True
  then show ?thesis
    using match_segs_values[OF True assms, of Map.empty vars]
    by (simp add: match_compiled_path [symmetric] match_compiled_def)
next
  case False
  then show ?thesis
    by (auto simp: match_compiled_path [symmetric] match_compiled_def dest: arg_cong[where f = length])
qed

section \<open>Rendering by tokens\<close>

fun render_tokens ::
  "(str \<Rightarrow> nat \<Rightarrow> str \<times> nat) \<Rightarrow> token list \<Rightarrow> nat \<Rightarrow> str \<times> nat" where
  "render_tokens f [] t = ([], t)"
| "render_tokens f (Lit c # ts) t = (let (r, t') = render_tokens f ts t in (c # r, t'))"
| "render_tokens f (Tok key # ts) t =
     (let (v, t1) = f key t; (r, t2) = render_tokens f ts t1 in (v @ r, t2))"

lemma render_tokens_literals: "render_tokens f (map Lit s @ ts) t = (let (r, t') = render_tokens f ts t in (s @ r, t'))"
  by (induction s) (auto simp: case_prod_beta Let_def)

lemma scan_open:
  assumes "split_once ''{{'' s = Some (lit, after)"
  shows "scan s = map Lit lit @ (case split_once ''}}'' after of
      None \<Rightarrow> map Lit (''{{'' @ after) | Some (key, rest) \<Rightarrow> Tok key # scan rest)"
  using assms
proof (induction s arbitrary: lit)
  case Nil
  then show ?case by (simp add: split_once_Nil)
next
  case (Cons c cs)
  show ?case
  proof (cases "strip_prefix ''{{'' (c # cs)")
    case None
    then obtain lit' where "lit = c # lit'" "split_once ''{{'' cs = Some (lit', after)"
      using Cons.prems unfolding split_once_Cons by auto
    with Cons.IH None show ?thesis by (simp del: strip_prefix.simps)
  next
    case (Some r)
    then have "lit = []" "r = after" using Cons.prems unfolding split_once_Cons by auto
    moreover have "c # cs = ''{{'' @ after" using Some calculation strip_prefix_Some by blast
    ultimately show ?thesis using Some by (auto simp del: strip_prefix.simps split: option.splits)
  qed
qed

lemma render_scan:
  "render_template_with_query R w s params query headers t
     = render_tokens (\<lambda>key. lookup R w key params query headers) (scan s) t"
proof (induction "length s" arbitrary: s t rule: less_induct)
  case less
  have lits: "render_tokens f (map Lit u) t = (u, t)" for f u
    using render_tokens_literals[of f u "[]"] by simp
  show ?case
  proof (cases "split_once ''{{'' s")
    case None
    then have "scan s = map Lit s" by (intro scan_plain) (simp add: contains_def)
    with None lits show ?thesis by (simp add: render_template_with_query.simps[of R w s])
  next
    case (Some p)
    then obtain lit after where p: "split_once ''{{'' s = Some (lit, after)" by (cases p) auto
    show ?thesis
    proof (cases "split_once ''}}'' after")
      case None
      have "scan s = map Lit (lit @ ''{{'' @ after)" using scan_open[OF p] None by simp
      also have "lit @ ''{{'' @ after = s" using split_once_Some_eq[OF p] by simp
      finally have "scan s = map Lit s" .
      with p None lits show ?thesis by (simp add: render_template_with_query.simps[of R w s])
    next
      case (Some q)
      then obtain key rest where q: "split_once ''}}'' after = Some (key, rest)" by (cases q) auto
      have "length rest < length s"
        using split_once_length[OF p] split_once_length[OF q] by simp
      from less[OF this] p q show ?thesis
        by (simp add: render_template_with_query.simps[of R w s] scan_open[OF p] render_tokens_literals
            case_prod_beta Let_def)
    qed
  qed
qed

definition mock_ports :: "u16 list" where
  "mock_ports = map (\<lambda>i. DEFAULT_MOCK_PORT + of_nat i) [0..<unat MAX_PORT_TRIES]"

lemma mock_ports_eq: "mock_ports = map of_nat [4010..<4030]"
  by (simp add: mock_ports_def DEFAULT_MOCK_PORT_def MAX_PORT_TRIES_def upt_rec)

lemma mock_ports_nth:
  assumes "i < 20"
  shows "unat (mock_ports ! i) = 4010 + i"
proof -
  have "mock_ports ! i = of_nat (4010 + i)"
    using assms unfolding mock_ports_eq by (simp add: nth_upt del: upt_rec_numeral)
  then have "unat (mock_ports ! i) = (4010 + i) mod 2 ^ 16" by (simp only: unat_of_nat) simp
  then show ?thesis using assms by simp
qed

lemma mock_ports_member:
  assumes "4010 \<le> p" "p < 4030"
  shows "\<exists>i < 20. p = mock_ports ! i \<and> unat p = 4010 + i"
proof -
  have "4010 \<le> unat p" "unat p < 4030" using assms by (simp_all add: word_le_nat_alt word_less_nat_alt)
  then have "unat p - 4010 < 20" "unat p = 4010 + (unat p - 4010)" by simp_all
  with mock_ports_nth show ?thesis by (metis word_unat_eq_iff)
qed

section \<open>Samples\<close>



section \<open>Properties\<close>

text \<open>
  C3: Matching over the compiled and indexed store gives what the plain scan over the
  definitions gives, for every request: the index by method and segment count, the compiled
  path and the query parsed once change nothing.
\<close>

theorem indexed_match_refines_resolve:
  "match_request R (set_definitions defs old) method path query headers
     = map_option (\<lambda>(def, vars). (def, vars, parse_query query)) (resolve R defs method path query headers)"
  by (rule indexed_matching)



text \<open>
  When the parameter names of a path template are distinct, a path matches exactly when
  filling the template with the captured values gives the path's segments back, and the
  captured names are the template's.
\<close>

theorem path_capture_roundtrip:
  assumes "distinct (seg_params (compile_path template))"
  shows "match_path template path = Some vars \<longleftrightarrow>
    dom vars = set (seg_params (compile_path template))
    \<and> map (seg_value vars) (compile_path template) = path_segments path"
  by (rule match_path_values[OF assms])

theorem path_capture_roundtrip_witness:
  "match_path ''/users/{id}'' ''/users/7'' = Some [''id'' \<mapsto> ''7'']"
proof -
  have "compile_path ''/users/{id}'' = [Literal ''users'', Param ''id'']"
    "path_segments ''/users/7'' = [''users'', ''7'']"
    by code_simp+
  then show ?thesis
    using path_capture_roundtrip[of "''/users/{id}''" "''/users/7''" "[''id'' \<mapsto> ''7'']"] by simp
qed

text \<open>
  The handler, request by request: no match gives a 404 without delay; a match is delayed
  as configured; a fault rate of 100 always and a rate of 0 never injects the fault status;
  otherwise the body is the template with its tokens replaced in order by their values.
\<close>

theorem handler_outcome:
  "case resolve R defs (rq_method req) (rq_path req) (case rq_query req of Some q \<Rightarrow> q | None \<Rightarrow> []) (rq_headers req) of
     None \<Rightarrow> mock_handler R w (set_definitions defs old) req t = (not_matched, 0, t)
   | Some (def, params) \<Rightarrow>
       (let (resp, delay, t') = mock_handler R w (set_definitions defs old) req t;
            body = render_tokens (\<lambda>key. lookup R w key params
                     (parse_query (case rq_query req of Some q \<Rightarrow> q | None \<Rightarrow> [])) (rq_headers req))
                     (scan (md_body_template def));
            normal = (\<lambda>b. if status_ok (md_status def)
               then \<lparr>rp_status = md_status def, rp_headers = built_headers R (md_headers def), rp_body = b\<rparr>
               else \<lparr>rp_status = 500, rp_headers = [], rp_body = []\<rparr>)
        in delay = md_delay_ms def
         \<and> (if md_fault_rate_pct def = 0 then resp = normal (fst (body t))
            else if 100 \<le> md_fault_rate_pct def then resp = fault_response def
            else resp = fault_response def \<or> resp = normal (fst (body (Suc t)))))"
proof -
  have pct: "w_random w t mod 100 < unat p" if "100 \<le> p" for p :: u8
  proof -
    have "unat (100 :: u8) \<le> unat p" using that by (simp only: word_le_nat_alt)
    moreover have "w_random w t mod 100 < 100" by simp
    ultimately show ?thesis by simp
  qed
  show ?thesis
    using pct
    by (auto simp: mock_handler_def indexed_matching render_scan Let_def case_prod_beta word_gt_0
        split: option.split)
qed

text \<open>
  Starting takes the first port of 4010 to 4029 that can be bound and fails exactly when all
  twenty are taken.
\<close>

theorem start_port:
  "case start binds store of
     Inr sv \<Rightarrow> binds (sv_port sv) \<and> 4010 \<le> sv_port sv \<and> sv_port sv < 4030 \<and> sv_store sv = store
        \<and> (\<forall>p \<in> {4010 ..< sv_port sv}. \<not> binds p)
   | Inl e \<Rightarrow> (\<forall>p \<in> {4010 ..< 4030}. \<not> binds p)"
proof -
  note nth = mock_ports_nth and member = mock_ports_member
  have len: "length mock_ports = 20" by (simp add: mock_ports_eq)
  show ?thesis
  proof (cases "find binds mock_ports")
    case None
    then have "\<not> binds (mock_ports ! i)" if "i < 20" for i
      using that len by (auto simp: find_None_iff set_conv_nth)
    with member None show ?thesis
      by (fastforce simp: start_def mock_ports_def [symmetric])
  next
    case (Some p)
    then obtain i where i: "i < 20" "binds (mock_ports ! i)" "p = mock_ports ! i" "\<forall>j < i. \<not> binds (mock_ports ! j)"
      using len by (auto simp: find_Some_iff)
    have "\<not> binds q" if "4010 \<le> q" "q < p" for q
    proof -
      have "unat q < unat p" using that by (simp add: word_less_nat_alt)
      then have "unat q < 4030" using nth[OF i(1)] i(1,3) by simp
      then have "q < 4030" by (simp add: word_less_nat_alt)
      from member[OF that(1) this] obtain j where "q = mock_ports ! j" "unat q = 4010 + j" by blast
      then show ?thesis using i(4) \<open>unat q < unat p\<close> nth[OF i(1)] i(3) by simp
    qed
    then show ?thesis
      using Some i nth[OF i(1)]
      by (auto simp: start_def mock_ports_def [symmetric] word_le_nat_alt word_less_nat_alt)
  qed
qed

theorem start_port_witness:
  "\<not> (\<lambda>p. p \<noteq> 4010) (4010 :: u16) \<and> (case start (\<lambda>p. p \<noteq> 4010) empty_store of
     Inr sv \<Rightarrow> sv_port sv \<noteq> 4010 \<and> sv_port sv < 4030 | Inl e \<Rightarrow> False)"
proof -
  have "(4015 :: u16) \<in> {4010 ..< 4030}" "(4015 :: u16) \<noteq> 4010" by simp_all
  then show ?thesis
    using start_port[of "\<lambda>p. p \<noteq> 4010" empty_store]
    by (cases "start (\<lambda>p. p \<noteq> 4010) empty_store") (auto simp del: atLeastLessThan_iff)
qed

end
