(* ===== verification/Cookie.thy ===== *)
theory Cookie
  imports HttpTypes "HOL-Library.AList" "HOL-Library.Char_ord" "HOL-Library.List_Lexorder"
    "HOL-Library.Product_Lexorder"
begin

text \<open>
  The cookie jar, \<open>crates/fox-http/src/cookie.rs\<close>. The jar is the table from domains to their
  cookies, its entries in the order a pass over the hash table meets them; the lock that guards
  it is never poisoned, so its error paths are not reached. The clock is an argument, and a URL
  is its host. The two date parsers of \<open>chrono\<close> are parameters (\<open>date_rules\<close>), as is what the
  \<open>http\<close> crate accepts as a header value.
\<close>

record stored_cookie =
  ck_name :: str
  ck_value :: str
  ck_domain :: str
  ck_path :: str
  ck_expires_at :: "datetime option"
  ck_secure :: bool
  ck_http_only :: bool

type_synonym jar = "stored_cookie list str_table"

record date_rules =
  dr_rfc2822 :: "str \<Rightarrow> datetime option"
  dr_http_date :: "str \<Rightarrow> datetime option"

section \<open>Parsing a Set-Cookie header\<close>

text \<open>\<open>SystemTime::checked_add\<close>: the seconds of a system time are a signed 64-bit number.\<close>

definition checked_add_secs :: "datetime \<Rightarrow> int \<Rightarrow> datetime option" where
  "checked_add_secs now secs =
     (if now div 1000000000 + secs < 2 ^ 63 then Some (now + seconds secs) else None)"

definition attr_pair :: "str \<Rightarrow> str \<times> str" where
  "attr_pair attr = (case split_once ''='' attr of
       Some (k, v) \<Rightarrow> (to_lowercase (trim k), trim v)
     | None \<Rightarrow> (to_lowercase attr, []))"

definition strip_dot :: "str \<Rightarrow> str" where
  "strip_dot v = (case strip_prefix ''.'' v of Some r \<Rightarrow> r | None \<Rightarrow> v)"

definition apply_attr :: "date_rules \<Rightarrow> datetime \<Rightarrow> str \<Rightarrow> stored_cookie \<Rightarrow> stored_cookie option" where
  "apply_attr D now attr cookie =
     (let (k, v) = attr_pair (trim attr) in
      if k = ''domain'' then
        Some (if v \<noteq> [] then cookie\<lparr>ck_domain := to_lowercase (strip_dot v)\<rparr> else cookie)
      else if k = ''path'' then Some (if v \<noteq> [] then cookie\<lparr>ck_path := v\<rparr> else cookie)
      else if k = ''max-age'' then
        (case parse_i64 v of
           Some secs \<Rightarrow> if secs \<le> 0 then None
                        else Some (cookie\<lparr>ck_expires_at := checked_add_secs now secs\<rparr>)
         | None \<Rightarrow> Some cookie)
      else if k = ''expires'' then
        (case dr_rfc2822 D v of
           Some t \<Rightarrow> Some (cookie\<lparr>ck_expires_at := Some t\<rparr>)
         | None \<Rightarrow> (case dr_http_date D v of
                     Some t \<Rightarrow> Some (cookie\<lparr>ck_expires_at := Some t\<rparr>)
                   | None \<Rightarrow> Some cookie))
      else if k = ''secure'' then Some (cookie\<lparr>ck_secure := True\<rparr>)
      else if k = ''httponly'' then Some (cookie\<lparr>ck_http_only := True\<rparr>)
      else Some cookie)"

fun apply_attrs :: "date_rules \<Rightarrow> datetime \<Rightarrow> str list \<Rightarrow> stored_cookie \<Rightarrow> stored_cookie option" where
  "apply_attrs D now [] cookie = Some cookie"
| "apply_attrs D now (a # as) cookie =
     (case apply_attr D now a cookie of None \<Rightarrow> None | Some c \<Rightarrow> apply_attrs D now as c)"

definition parse_set_cookie :: "date_rules \<Rightarrow> datetime \<Rightarrow> str \<Rightarrow> str option \<Rightarrow> stored_cookie option" where
  "parse_set_cookie D now raw host =
     (let parts = split_on CHR '';'' raw in
      case split_once ''='' (trim (hd parts)) of
        None \<Rightarrow> None
      | Some (name, v) \<Rightarrow>
          if trim name = [] then None
          else apply_attrs D now (tl parts)
            \<lparr>ck_name = trim name, ck_value = trim v,
             ck_domain = to_lowercase (case host of Some h \<Rightarrow> h | None \<Rightarrow> []), ck_path = ''/'',
             ck_expires_at = None, ck_secure = False, ck_http_only = False\<rparr>)"

section \<open>The jar\<close>

fun put_cookie :: "stored_cookie \<Rightarrow> stored_cookie list \<Rightarrow> stored_cookie list" where
  "put_cookie cookie [] = [cookie]"
| "put_cookie cookie (c # cs) =
     (if ck_name c = ck_name cookie \<and> ck_path c = ck_path cookie then cookie # cs
      else c # put_cookie cookie cs)"

definition store :: "date_rules \<Rightarrow> datetime \<Rightarrow> str \<Rightarrow> str option \<Rightarrow> jar \<Rightarrow> jar" where
  "store D now set_cookie host j =
     (case parse_set_cookie D now set_cookie host of
        None \<Rightarrow> j
      | Some cookie \<Rightarrow>
          let slot = (case map_of j (ck_domain cookie) of Some s \<Rightarrow> s | None \<Rightarrow> [])
          in AList.update (ck_domain cookie) (put_cookie cookie slot) j)"

definition domain_matches :: "str \<Rightarrow> str \<Rightarrow> bool" where
  "domain_matches host cookie_domain =
     (let cd = strip_dot cookie_domain in host = cd \<or> ends_with (''.'' @ cd) host)"

definition live :: "datetime \<Rightarrow> stored_cookie \<Rightarrow> bool" where
  "live now c \<longleftrightarrow> (case ck_expires_at c of None \<Rightarrow> True | Some t \<Rightarrow> now < t)"

definition purge :: "datetime \<Rightarrow> (str \<Rightarrow> bool) \<Rightarrow> jar \<Rightarrow> jar" where
  "purge now sel j = map (\<lambda>(d, cs). (d, if sel d then filter (live now) cs else cs)) j"

definition cookie_pair :: "stored_cookie \<Rightarrow> str" where
  "cookie_pair c = ck_name c @ ''='' @ ck_value c"

definition header_for :: "http_rules \<Rightarrow> datetime \<Rightarrow> str option \<Rightarrow> jar \<Rightarrow> str option \<times> jar" where
  "header_for R now url_host j =
     (case url_host of
        None \<Rightarrow> (None, j)
      | Some h \<Rightarrow>
          let host = to_lowercase h;
              j' = purge now (domain_matches host) j;
              pairs = concat (map (\<lambda>(d, cs). if domain_matches host d
                        then map cookie_pair (filter (\<lambda>c. ck_value c \<noteq> []) cs) else []) j')
          in (if pairs = [] then None
              else (let v = join ''; '' pairs in if hr_value R v then Some v else None), j'))"

definition list_cookies :: "datetime \<Rightarrow> str option \<Rightarrow> jar \<Rightarrow> stored_cookie list \<times> jar" where
  "list_cookies now domain_filter j =
     (let sel = (\<lambda>d. case domain_filter of None \<Rightarrow> True | Some f \<Rightarrow> contains f d);
          j' = purge now sel j;
          out = concat (map (\<lambda>(d, cs). if sel d then cs else []) j')
      in (sort_key (\<lambda>c. (ck_domain c, ck_name c)) out, j'))"

definition jar_len :: "jar \<Rightarrow> nat" where
  "jar_len j = sum_list (map (\<lambda>(d, cs). length cs) j)"

definition jar_is_empty :: "jar \<Rightarrow> bool" where
  "jar_is_empty j \<longleftrightarrow> jar_len j = 0"

definition clear :: "str option \<Rightarrow> jar \<Rightarrow> nat \<times> jar" where
  "clear domain j =
     (case domain of
        None \<Rightarrow> (jar_len j, [])
      | Some d0 \<Rightarrow>
          let d = to_lowercase d0;
              hit = (\<lambda>(dom, cs). dom = d \<or> ends_with (''.'' @ d) dom)
          in (jar_len (filter hit j), filter (\<lambda>e. \<not> hit e) j))"

definition set_cookies :: "http_rules \<Rightarrow> date_rules \<Rightarrow> datetime \<Rightarrow> str list \<Rightarrow> str option \<Rightarrow> jar \<Rightarrow> jar" where
  "set_cookies R D now cookie_headers host j =
     fold (\<lambda>v j. if hr_visible R v then store D now v host j else j) cookie_headers j"

section \<open>The invariant\<close>

text \<open>
  A domain has one slot; a slot holds the cookies of its domain, one per name and path.
\<close>

definition slot_wf :: "str \<Rightarrow> stored_cookie list \<Rightarrow> bool" where
  "slot_wf d cs \<longleftrightarrow> list_all (\<lambda>c. ck_domain c = d \<and> ck_name c \<noteq> []) cs
     \<and> distinct (map (\<lambda>c. (ck_name c, ck_path c)) cs)"

definition jar_wf :: "jar \<Rightarrow> bool" where
  "jar_wf j \<longleftrightarrow> distinct (map fst j) \<and> list_all (\<lambda>(d, cs). slot_wf d cs) j"

lemma put_cookie_keys:
  "set (map (\<lambda>c. (ck_name c, ck_path c)) (put_cookie k cs))
     = insert (ck_name k, ck_path k) (set (map (\<lambda>c. (ck_name c, ck_path c)) cs))"
  by (induction cs) auto

lemma put_cookie_wf:
  "slot_wf d cs \<Longrightarrow> ck_domain k = d \<Longrightarrow> ck_name k \<noteq> [] \<Longrightarrow> slot_wf d (put_cookie k cs)"
proof (induction cs)
  case (Cons c cs)
  then have IH: "slot_wf d (put_cookie k cs)" by (simp add: slot_wf_def)
  have "(ck_name c, ck_path c) \<notin> set (map (\<lambda>c. (ck_name c, ck_path c)) (put_cookie k cs))"
    if "\<not> (ck_name c = ck_name k \<and> ck_path c = ck_path k)"
    using that Cons.prems(1) unfolding put_cookie_keys by (auto simp: slot_wf_def)
  with IH Cons.prems show ?case by (auto simp: slot_wf_def)
qed (simp add: slot_wf_def)

lemma put_cookie_set: "k \<in> set (put_cookie k cs)" "set (put_cookie k cs) \<subseteq> insert k (set cs)"
  by (induction cs) auto

lemma apply_attrs_name: "apply_attrs D now as c = Some c' \<Longrightarrow> ck_name c' = ck_name c \<and> ck_value c' = ck_value c"
proof (induction as arbitrary: c)
  case (Cons a as)
  obtain c1 where c1: "apply_attr D now a c = Some c1" "apply_attrs D now as c1 = Some c'"
    using Cons.prems by (auto split: option.splits)
  have "ck_name c1 = ck_name c \<and> ck_value c1 = ck_value c"
    using c1(1) by (auto simp: apply_attr_def Let_def split: prod.splits if_splits option.splits)
  with Cons.IH[OF c1(2)] show ?case by simp
qed simp

lemma parse_set_cookie_name: "parse_set_cookie D now raw host = Some c \<Longrightarrow> ck_name c \<noteq> []"
  using apply_attrs_name
  by (fastforce simp: parse_set_cookie_def Let_def split: option.splits if_splits)

lemma map_of_slot: "jar_wf j \<Longrightarrow> map_of j d = Some cs \<Longrightarrow> slot_wf d cs"
  by (auto simp: jar_wf_def list_all_iff dest!: map_of_SomeD)

lemma update_slots:
  assumes "jar_wf j" "slot_wf d cs"
  shows "jar_wf (AList.update d cs j)"
proof -
  have "set (AList.update d cs j) \<subseteq> insert (d, cs) (set j)"
    by (induction j) auto
  with assms show ?thesis by (auto simp: jar_wf_def list_all_iff distinct_update)
qed

lemma store_wf [inv_rules]: "jar_wf j \<Longrightarrow> jar_wf (store D now sc host j)"
proof -
  assume j: "jar_wf j"
  have "slot_wf (ck_domain c) (put_cookie c (case map_of j (ck_domain c) of Some s \<Rightarrow> s | None \<Rightarrow> []))"
    if "parse_set_cookie D now sc host = Some c" for c
    using parse_set_cookie_name[OF that] map_of_slot[OF j]
    by (intro put_cookie_wf) (auto simp: slot_wf_def split: option.splits)
  with j show ?thesis by (auto simp: store_def Let_def update_slots split: option.split)
qed

lemma purge_wf [inv_rules]: "jar_wf j \<Longrightarrow> jar_wf (purge now sel j)"
proof -
  have "map fst (purge now sel j) = map fst j" by (auto simp: purge_def)
  moreover have "slot_wf d (filter P cs)" if "slot_wf d cs" for d cs P
    using that by (auto simp: slot_wf_def list_all_iff distinct_map_filter)
  moreover have "list_all (\<lambda>(d, cs). slot_wf d cs) (purge now sel j)"
    if "list_all (\<lambda>(d, cs). slot_wf d cs) j"
    using that calculation(2) by (auto simp: list_all_iff purge_def)
  ultimately show "jar_wf j \<Longrightarrow> ?thesis" by (simp only: jar_wf_def)
qed

lemma clear_wf [inv_rules]: "jar_wf j \<Longrightarrow> jar_wf (snd (clear d j))"
  by (auto simp: jar_wf_def clear_def Let_def list_all_iff distinct_map_filter split: option.splits)

lemma set_cookies_wf [inv_rules]: "jar_wf j \<Longrightarrow> jar_wf (set_cookies R D now hs host j)"
  by (induction hs arbitrary: j) (auto simp: set_cookies_def store_wf)

text \<open>
  The slot of a domain, and what storing a cookie does to the cookies of a slot: the cookie is in
  it, the one it replaces is not, every other one is, and nothing else.
\<close>

definition jar_slot :: "jar \<Rightarrow> str \<Rightarrow> stored_cookie list" where
  "jar_slot j d = (case map_of j d of Some s \<Rightarrow> s | None \<Rightarrow> [])"

definition same_cookie :: "stored_cookie \<Rightarrow> stored_cookie \<Rightarrow> bool" where
  "same_cookie c c' \<longleftrightarrow> ck_name c = ck_name c' \<and> ck_path c = ck_path c'"

lemma slot_wf_slot: "jar_wf j \<Longrightarrow> slot_wf d (jar_slot j d)"
  using map_of_slot[of j d] by (auto simp: jar_slot_def slot_wf_def split: option.split)

lemma put_cookie_members:
  "slot_wf d cs \<Longrightarrow> set (put_cookie k cs) = insert k {c \<in> set cs. \<not> same_cookie c k}"
proof (induction cs)
  case (Cons c cs)
  have rest: "slot_wf d cs" using Cons.prems by (simp add: slot_wf_def)
  show ?case
  proof (cases "same_cookie c k")
    case True
    have "\<not> same_cookie c' k" if "c' \<in> set cs" for c'
      using Cons.prems True that by (fastforce simp: slot_wf_def same_cookie_def image_iff)
    with True show ?thesis by (auto simp: same_cookie_def)
  next
    case False
    with Cons.IH[OF rest] show ?thesis by (auto simp: same_cookie_def)
  qed
qed simp

lemma store_slot:
  assumes "jar_wf j" "parse_set_cookie D now sc host = Some c"
  shows "set (jar_slot (store D now sc host j) (ck_domain c)) = insert c {c' \<in> set (jar_slot j (ck_domain c)). \<not> same_cookie c' c}"
    and "d \<noteq> ck_domain c \<Longrightarrow> jar_slot (store D now sc host j) d = jar_slot j d"
  using put_cookie_members[OF slot_wf_slot[OF assms(1)], of c "ck_domain c"] assms(2)
  by (simp_all add: store_def Let_def jar_slot_def update_conv')

section \<open>Properties\<close>

text \<open>
  C5: Every operation keeps the jar well formed: one slot per domain, each cookie in the slot of
  its own domain with a non-empty name, and never two cookies of one domain with the same name
  and path. A Set-Cookie that parses replaces the earlier cookie of its domain, name and path and
  touches nothing else: afterwards the slot of its domain holds the new cookie and the cookies of
  another name or path it held before, and every other slot is as it was. One that does not parse
  changes nothing; that includes a Max-Age of zero or less, so the cookie it was meant to delete stays.
\<close>

theorem jar_invariant:
  assumes "jar_wf j"
  shows "jar_wf (store D now set_cookie host j) \<and> jar_wf (set_cookies R D now cookie_headers host j)
    \<and> jar_wf (snd (header_for R now host j)) \<and> jar_wf (snd (list_cookies now domain j))
    \<and> jar_wf (snd (clear domain j))
    \<and> (case parse_set_cookie D now set_cookie host of
         None \<Rightarrow> store D now set_cookie host j = j
       | Some c \<Rightarrow>
           set (jar_slot (store D now set_cookie host j) (ck_domain c))
             = insert c {c' \<in> set (jar_slot j (ck_domain c)). \<not> same_cookie c' c}
           \<and> (\<forall>d. d \<noteq> ck_domain c \<longrightarrow> jar_slot (store D now set_cookie host j) d = jar_slot j d))"
proof -
  have "case parse_set_cookie D now set_cookie host of
         None \<Rightarrow> store D now set_cookie host j = j
       | Some c \<Rightarrow>
           set (jar_slot (store D now set_cookie host j) (ck_domain c))
             = insert c {c' \<in> set (jar_slot j (ck_domain c)). \<not> same_cookie c' c}
           \<and> (\<forall>d. d \<noteq> ck_domain c \<longrightarrow> jar_slot (store D now set_cookie host j) d = jar_slot j d)"
    using store_slot[OF assms] by (simp add: store_def split: option.split)
  then show ?thesis
    using assms by (auto simp: header_for_def list_cookies_def Let_def inv_rules split: option.split)
qed

definition demo_cookie :: stored_cookie where
  "demo_cookie = \<lparr>ck_name = ''sid'', ck_value = ''1'', ck_domain = ''a.io'', ck_path = ''/'',
     ck_expires_at = Some 100, ck_secure = False, ck_http_only = False\<rparr>"

definition demo_dates :: date_rules where
  "demo_dates = \<lparr>dr_rfc2822 = Map.empty, dr_http_date = Map.empty\<rparr>"

lemma demo_jar_wf: "jar_wf [(''a.io'', [demo_cookie])]"
  by (simp add: jar_wf_def slot_wf_def demo_cookie_def)

theorem jar_invariant_witness:
  "jar_wf (store demo_dates 0 ''sid=2'' (Some ''a.io'') [(''a.io'', [demo_cookie])])
   \<and> map ck_value (jar_slot [(''a.io'', [demo_cookie])] ''a.io'') = [''1'']
   \<and> ck_value ` set (jar_slot (store demo_dates 0 ''sid=2'' (Some ''a.io'') [(''a.io'', [demo_cookie])]) ''a.io'') = {''2''}"
proof -
  let ?c = "demo_cookie\<lparr>ck_value := ''2'', ck_expires_at := None\<rparr>"
  have p: "parse_set_cookie demo_dates 0 ''sid=2'' (Some ''a.io'') = Some ?c"
    unfolding demo_cookie_def by code_simp
  have s: "jar_slot [(''a.io'', [demo_cookie])] ''a.io'' = [demo_cookie]"
    "ck_domain demo_cookie = ''a.io''" "ck_value demo_cookie = ''1''" "same_cookie demo_cookie ?c"
    by (simp_all add: jar_slot_def demo_cookie_def same_cookie_def)
  have "set (jar_slot (store demo_dates 0 ''sid=2'' (Some ''a.io'') [(''a.io'', [demo_cookie])]) (ck_domain ?c))
      = insert ?c {c' \<in> set (jar_slot [(''a.io'', [demo_cookie])] (ck_domain ?c)). \<not> same_cookie c' ?c}"
    using jar_invariant[OF demo_jar_wf, of demo_dates 0 "''sid=2''" "Some ''a.io''"] unfolding p option.case by blast
  moreover have "jar_wf (store demo_dates 0 ''sid=2'' (Some ''a.io'') [(''a.io'', [demo_cookie])])"
    using jar_invariant[OF demo_jar_wf] by blast
  ultimately show ?thesis using s by auto
qed



text \<open>
  Clearing a domain removes the cookies of the domain and its subdomains and no others, and the
  reported count is what the jar lost; clearing everything leaves nothing.
\<close>

theorem clear_exact:
  "let (n, j') = clear domain j in
     n + jar_len j' = jar_len j \<and>
     j' = filter (\<lambda>(dom, cs). case domain of None \<Rightarrow> False
            | Some d \<Rightarrow> \<not> (dom = to_lowercase d \<or> ends_with (''.'' @ to_lowercase d) dom)) j"
proof -
  have part: "jar_len (filter P j) + jar_len (filter (\<lambda>e. \<not> P e) j) = jar_len j" for P
    by (induction j) (auto simp: jar_len_def)
  show ?thesis
  proof (cases domain)
    case None
    then show ?thesis by (simp add: clear_def jar_len_def case_prod_unfold)
  next
    case (Some d)
    then show ?thesis
      using part[of "\<lambda>(dom, cs). dom = to_lowercase d \<or> ends_with (''.'' @ to_lowercase d) dom"]
      by (simp add: clear_def Let_def case_prod_unfold)
  qed
qed

text \<open>
  A response that expires a cookie at once with \<open>Max-Age=0\<close> or a negative age changes nothing:
  a cookie of that name stored before stays in the jar and keeps being replayed.
\<close>

theorem max_age_zero_keeps_cookie:
  assumes "parse_i64 v = Some secs" "secs \<le> 0"
    and "split_once ''='' (trim (hd (split_on CHR '';'' raw))) = Some (name, val)"
    and "attr \<in> set (tl (split_on CHR '';'' raw))" "attr_pair (trim attr) = (''max-age'', v)"
  shows "store D now raw host j = j"
proof -
  have "apply_attrs D now as c = None" if "attr \<in> set as" for as c
    using that
  proof (induction as arbitrary: c)
    case (Cons a as)
    then show ?case
      using assms(1,2,5) by (auto simp: apply_attr_def split: option.splits)
  qed simp
  with assms(3,4) show ?thesis by (simp add: store_def parse_set_cookie_def Let_def)
qed

theorem max_age_zero_keeps_cookie_witness:
  "store demo_dates 0 ''sid=; Max-Age=0'' (Some ''a.io'') [(''a.io'', [demo_cookie])] = [(''a.io'', [demo_cookie])]"
proof (rule max_age_zero_keeps_cookie[where v = "''0''" and secs = 0 and name = "''sid''" and val = "[]"
      and attr = "'' Max-Age=0''"])
  show "parse_i64 ''0'' = Some 0" "attr_pair (trim '' Max-Age=0'') = (''max-age'', ''0'')"
    "split_once ''='' (trim (hd (split_on CHR '';'' ''sid=; Max-Age=0''))) = Some (''sid'', [])"
    "'' Max-Age=0'' \<in> set (tl (split_on CHR '';'' ''sid=; Max-Age=0''))"
    by code_simp+
qed simp

end
