(* ===== verification/Crypto.thy ===== *)
theory Crypto
  imports Model
begin

text \<open>
  What the signing code uses of other crates: digests, HMAC, base64 and hex encoders as the
  parameter record \<open>crypto\<close>, and the two-digit hexadecimal formatting of bytes of the standard
  library, which is defined here.
\<close>

record crypto =
  c_md5 :: "str \<Rightarrow> str"
  c_sha256 :: "str \<Rightarrow> str"
  c_hmac_sha256 :: "str \<Rightarrow> str \<Rightarrow> str"
  c_base64 :: "str \<Rightarrow> str"
  c_hex :: "str \<Rightarrow> str"
  c_utf8_lossy :: "str \<Rightarrow> str"

definition hex_digit :: "nat \<Rightarrow> char" where
  "hex_digit d = (if d < 10 then char_of (48 + d) else char_of (87 + d))"

definition hex_digit_upper :: "nat \<Rightarrow> char" where
  "hex_digit_upper d = (if d < 10 then char_of (48 + d) else char_of (55 + d))"

definition hex_byte :: "char \<Rightarrow> str" where
  "hex_byte c = [hex_digit (of_char c div 16), hex_digit (of_char c mod 16)]"

definition hex_byte_upper :: "char \<Rightarrow> str" where
  "hex_byte_upper c = [hex_digit_upper (of_char c div 16), hex_digit_upper (of_char c mod 16)]"

definition unhex_digit :: "char \<Rightarrow> nat option" where
  "unhex_digit c = (let n = of_char c :: nat in
     if 48 \<le> n \<and> n \<le> 57 then Some (n - 48)
     else if 97 \<le> n \<and> n \<le> 102 then Some (n - 87)
     else if 65 \<le> n \<and> n \<le> 70 then Some (n - 55) else None)"

lemma unhex_hex [simp]:
  assumes "d < 16"
  shows "unhex_digit (hex_digit d) = Some d" "unhex_digit (hex_digit_upper d) = Some d"
  using assms by (simp_all add: unhex_digit_def hex_digit_def hex_digit_upper_def Let_def)

lemma of_char_less: "(of_char c :: nat) < 256"
  using range_nat_of_char by auto

lemma of_char_digits: "(of_char c :: nat) div 16 < 16" "(of_char c :: nat) mod 16 < 16"
  using of_char_less[of c] by (simp_all add: less_mult_imp_div_less)

lemma char_digits: "char_of (16 * (of_char c div 16 :: nat) + of_char c mod 16) = c"
  by simp

text \<open>\<open>{n:08x}\<close>: at least eight digits, zeros in front.\<close>

fun hex_nat :: "nat \<Rightarrow> str" where
  "hex_nat n = (if n < 16 then [hex_digit n] else hex_nat (n div 16) @ [hex_digit (n mod 16)])"

declare hex_nat.simps [simp del]

definition hex08 :: "u32 \<Rightarrow> str" where
  "hex08 n = (let h = hex_nat (unat n) in replicate (8 - length h) (CHR ''0'') @ h)"

lemma hex_digit_comma: "d < 16 \<Longrightarrow> hex_digit d \<noteq> CHR '',''"
proof -
  assume d: "d < 16"
  have "unhex_digit (CHR '','') = None" by (simp add: unhex_digit_def)
  with unhex_hex(1)[OF d] show ?thesis by auto
qed

lemma hex_nat_comma: "CHR '','' \<notin> set (hex_nat n)"
proof (induction n rule: hex_nat.induct)
  case (1 n)
  then show ?case
    unfolding hex_nat.simps[of n] using hex_digit_comma[of n] hex_digit_comma[of "n mod 16"] by auto
qed

lemma hex08_comma: "CHR '','' \<notin> set (hex08 n)"
  using hex_nat_comma by (auto simp: hex08_def Let_def)

definition demo_crypto :: crypto where
  "demo_crypto = \<lparr>c_md5 = \<lambda>s. take 16 s, c_sha256 = \<lambda>s. take 32 s, c_hmac_sha256 = \<lambda>k m. take 32 (k @ m),
     c_base64 = \<lambda>s. s, c_hex = \<lambda>s. concat (map hex_byte s), c_utf8_lossy = \<lambda>s. s\<rparr>"

end
