(* ===== verification/Signature.thy ===== *)
theory Signature
  imports Crypto
begin

text \<open>
  Dynamic signatures, \<open>crates/fox-http/src/signature.rs\<close>: the rendering of the payload template,
  the digest, its encoding, and the three headers. The digests are parameters; the clock is the
  argument \<open>now\<close>.
\<close>

definition PLACEHOLDER_KEY :: str where "PLACEHOLDER_KEY = ''{{$key}}''"
definition PLACEHOLDER_SECRET :: str where "PLACEHOLDER_SECRET = ''{{$secret}}''"
definition PLACEHOLDER_TIMESTAMP :: str where "PLACEHOLDER_TIMESTAMP = ''{{$timestamp}}''"

definition placeholders :: "str list" where
  "placeholders = [PLACEHOLDER_KEY, PLACEHOLDER_SECRET, PLACEHOLDER_TIMESTAMP]"

text \<open>The placeholder that occurs first, with its offset.\<close>

definition next_placeholder :: "str \<Rightarrow> (nat \<times> str) option" where
  "next_placeholder rest =
     fold (\<lambda>ph next. case find_sub ph rest of
             None \<Rightarrow> next
           | Some idx \<Rightarrow> (case next of
                           None \<Rightarrow> Some (idx, ph)
                         | Some (i, _) \<Rightarrow> if idx < i then Some (idx, ph) else next))
       placeholders None"

definition placeholder_value :: "str \<Rightarrow> str \<Rightarrow> int \<Rightarrow> str \<Rightarrow> str" where
  "placeholder_value key secret timestamp ph =
     (if ph = PLACEHOLDER_KEY then key
      else if ph = PLACEHOLDER_SECRET then secret
      else show_int timestamp)"

lemma find_sub_length: "find_sub p s = Some i \<Longrightarrow> i + length p \<le> length s"
  by (auto simp: find_sub_def dest: split_once_length)

lemma next_placeholder_Some:
  assumes "next_placeholder rest = Some (i, ph)"
  shows "ph \<in> set placeholders \<and> find_sub ph rest = Some i
    \<and> (\<forall>q \<in> set placeholders. \<forall>j. find_sub q rest = Some j \<longrightarrow> i \<le> j)"
  using assms
  by (auto simp: next_placeholder_def placeholders_def split: option.splits if_splits)

function render_loop :: "str \<Rightarrow> str \<Rightarrow> int \<Rightarrow> str \<Rightarrow> str" where
  "render_loop key secret timestamp rest =
     (case next_placeholder rest of
        None \<Rightarrow> rest
      | Some (idx, ph) \<Rightarrow>
          take idx rest @ placeholder_value key secret timestamp ph
            @ render_loop key secret timestamp (drop (idx + length ph) rest))"
  by pat_completeness auto
termination
proof (relation "measure (\<lambda>(key, secret, timestamp, rest). length rest)", goal_cases)
  case (2 key secret timestamp rest x idx ph)
  then have "ph \<in> set placeholders" "find_sub ph rest = Some idx"
    using next_placeholder_Some[of rest idx ph] by auto
  then have "ph \<noteq> []" "idx + length ph \<le> length rest"
    using find_sub_length
    by (auto simp: placeholders_def PLACEHOLDER_KEY_def PLACEHOLDER_SECRET_def PLACEHOLDER_TIMESTAMP_def)
  then have "0 < length ph" "idx + length ph \<le> length rest" by simp_all
  then have "length rest - (idx + length ph) < length rest" by linarith
  then show ?case by simp
qed simp

declare render_loop.simps [simp del]

definition render_payload :: "str \<Rightarrow> str \<Rightarrow> str \<Rightarrow> int \<Rightarrow> str" where
  "render_payload template key secret timestamp =
     (if \<not> contains PLACEHOLDER_KEY template \<and> \<not> contains PLACEHOLDER_SECRET template
         \<and> \<not> contains PLACEHOLDER_TIMESTAMP template
      then template else render_loop key secret timestamp template)"

definition digest :: "crypto \<Rightarrow> signature_algorithm \<Rightarrow> str \<Rightarrow> str \<Rightarrow> str" where
  "digest C algorithm secret payload =
     (case algorithm of
        MD5 \<Rightarrow> c_md5 C payload
      | SHA256 \<Rightarrow> c_sha256 C payload
      | HmacSHA256 \<Rightarrow> c_hmac_sha256 C secret payload)"

definition encode :: "crypto \<Rightarrow> signature_encoding \<Rightarrow> str \<Rightarrow> str" where
  "encode C encoding bs =
     (case encoding of
        HexLower \<Rightarrow> concat (map hex_byte bs)
      | HexUpper \<Rightarrow> concat (map hex_byte_upper bs)
      | Base64 \<Rightarrow> c_base64 C bs)"

definition apply_signature ::
  "crypto \<Rightarrow> datetime \<Rightarrow> (str \<times> str) list \<Rightarrow> dynamic_signature_config \<Rightarrow> (app_error, (str \<times> str) list) result" where
  "apply_signature C now headers config =
     (let key = trim (ds_app_key config);
          secret = trim (ds_app_secret config);
          timestamp = now div 1000000
      in if key = [] then Err (Validation (Msg ''dynamic signature: App-Key must not be empty'' []))
         else if secret = [] then Err (Validation (Msg ''dynamic signature: App-Secret must not be empty'' []))
         else if trim (ds_payload_template config) = []
         then Err (Validation (Msg ''dynamic signature: the payload template must not be empty'' []))
         else
           (let payload = render_payload (ds_payload_template config) key secret timestamp;
                sig = encode C (ds_encoding config) (digest C (ds_algorithm config) secret payload)
            in Ok (headers @ [(ds_key_header config, key), (ds_timestamp_header config, show_int timestamp),
                     (ds_sig_header config, sig)])))"

section \<open>One substitution from the left\<close>

text \<open>The reference: at each position a placeholder is replaced, any other byte is copied.\<close>

definition placeholder_at :: "str \<Rightarrow> (str \<times> str) option" where
  "placeholder_at s = (case filter (\<lambda>p. starts_with p s) placeholders of
       [] \<Rightarrow> None | p # _ \<Rightarrow> Some (p, drop (length p) s))"

lemma placeholder_nonempty: "p \<in> set placeholders \<Longrightarrow> 0 < length p"
  by (auto simp: placeholders_def PLACEHOLDER_KEY_def PLACEHOLDER_SECRET_def PLACEHOLDER_TIMESTAMP_def)

lemma placeholder_at_Some:
  assumes "placeholder_at s = Some (p, r)"
  shows "p \<in> set placeholders \<and> s = p @ r"
proof -
  from assms obtain ps where f: "filter (\<lambda>p. starts_with p s) placeholders = p # ps" "r = drop (length p) s"
    by (auto simp: placeholder_at_def split: list.splits)
  then have "p \<in> set (filter (\<lambda>p. starts_with p s) placeholders)" by simp
  then have "p \<in> set placeholders" "starts_with p s" by simp_all
  with f(2) show ?thesis by (auto simp: starts_with_iff)
qed

lemma placeholder_at_shorter: "placeholder_at s = Some (p, r) \<Longrightarrow> length r < length s"
  using placeholder_at_Some[of s p r] placeholder_nonempty[of p] by auto

function substitute :: "str \<Rightarrow> str \<Rightarrow> int \<Rightarrow> str \<Rightarrow> str" where
  "substitute key secret timestamp s =
     (case placeholder_at s of
        Some (p, r) \<Rightarrow> placeholder_value key secret timestamp p @ substitute key secret timestamp r
      | None \<Rightarrow> (case s of [] \<Rightarrow> [] | c # cs \<Rightarrow> c # substitute key secret timestamp cs))"
  by pat_completeness auto
termination
  by (relation "measure (\<lambda>(key, secret, timestamp, s). length s)")
     (auto dest: placeholder_at_shorter)

declare substitute.simps [simp del]

text \<open>No placeholder is a prefix of another one, so at most one starts at a position.\<close>

lemma placeholder_at_here:
  assumes "p \<in> set placeholders"
  shows "placeholder_at (p @ r) = Some (p, r)"
  using assms
  by (auto simp: placeholder_at_def placeholders_def PLACEHOLDER_KEY_def PLACEHOLDER_SECRET_def
      PLACEHOLDER_TIMESTAMP_def starts_with_def)

lemma substitute_copy:
  assumes "\<forall>i < length a. placeholder_at (drop i (a @ s)) = None"
  shows "substitute k se t (a @ s) = a @ substitute k se t s"
  using assms
proof (induction a)
  case (Cons c a)
  have "placeholder_at (c # a @ s) = None" using Cons.prems by auto
  moreover have "\<forall>i < length a. placeholder_at (drop i (a @ s)) = None"
    using Cons.prems by (metis Suc_less_eq append_Cons drop_Suc_Cons length_Cons)
  ultimately show ?case using Cons.IH by (simp add: substitute.simps[of k se t "c # a @ s"])
qed simp

lemma placeholder_at_None:
  assumes "\<And>p. p \<in> set placeholders \<Longrightarrow> strip_prefix p s = None"
  shows "placeholder_at s = None"
proof -
  have "filter (\<lambda>p. starts_with p s) placeholders = []"
    using assms by (simp add: filter_empty_conv starts_with_def)
  then show ?thesis by (simp add: placeholder_at_def)
qed

lemma no_placeholder_before:
  assumes "\<forall>p \<in> set placeholders. \<forall>j. find_sub p s = Some j \<longrightarrow> i \<le> j" "n < i" "i \<le> length s"
  shows "placeholder_at (drop n s) = None"
proof (rule placeholder_at_None)
  fix p assume p: "p \<in> set placeholders"
  show "strip_prefix p (drop n s) = None"
  proof (cases "split_once p s")
    case None
    show ?thesis
    proof (rule ccontr)
      assume "strip_prefix p (drop n s) \<noteq> None"
      then obtain r where "drop n s = p @ r" by (auto simp: strip_prefix_Some)
      then have "s = take n s @ p @ r" by (metis append_take_drop_id)
      with None show False by (auto simp: split_once_None)
    qed
  next
    case (Some ab)
    obtain a b where ab: "split_once p s = Some (a, b)" using Some by (cases ab) auto
    then have "i \<le> length a" using assms(1) p by (auto simp: find_sub_def)
    with split_once_first[OF ab] assms(2) show ?thesis by simp
  qed
qed

lemma next_placeholder_None:
  "next_placeholder s = None \<Longrightarrow> p \<in> set placeholders \<Longrightarrow> find_sub p s = None"
  by (auto simp: next_placeholder_def placeholders_def split: option.splits if_splits)

lemma render_loop_substitute: "render_loop key secret timestamp s = substitute key secret timestamp s"
proof (induction "length s" arbitrary: s rule: less_induct)
  case less
  show ?case
  proof (cases "next_placeholder s")
    case None
    have "\<forall>p \<in> set placeholders. \<forall>j. find_sub p s = Some j \<longrightarrow> length s \<le> j"
      using next_placeholder_None[OF None] by simp
    then have "\<forall>n < length s. placeholder_at (drop n (s @ [])) = None"
      using no_placeholder_before[of s "length s"] by simp
    from substitute_copy[OF this, of key secret timestamp] have "substitute key secret timestamp s = s"
      by (simp add: substitute.simps[of _ _ _ "[]"] placeholder_at_def placeholders_def starts_with_def
          PLACEHOLDER_KEY_def PLACEHOLDER_SECRET_def PLACEHOLDER_TIMESTAMP_def)
    with None show ?thesis by (simp add: render_loop.simps[of _ _ _ s])
  next
    case (Some ip)
    obtain i p where ip: "next_placeholder s = Some (i, p)" using Some by (cases ip) auto
    from next_placeholder_Some[OF ip] have p: "p \<in> set placeholders" "find_sub p s = Some i"
      and first: "\<forall>q \<in> set placeholders. \<forall>j. find_sub q s = Some j \<longrightarrow> i \<le> j" by auto
    from p(2) obtain a b where ab: "split_once p s = Some (a, b)" "i = length a"
      by (auto simp: find_sub_def)
    then have s: "s = a @ p @ b" by (simp add: split_once_Some_eq)
    have "\<forall>n < length a. placeholder_at (drop n (a @ p @ b)) = None"
      using no_placeholder_before[OF first] s ab(2) by auto
    then have "substitute key secret timestamp s = a @ substitute key secret timestamp (p @ b)"
      unfolding s by (rule substitute_copy)
    also have "substitute key secret timestamp (p @ b)
        = placeholder_value key secret timestamp p @ substitute key secret timestamp b"
      by (simp add: substitute.simps[of _ _ _ "p @ b"] placeholder_at_here[OF p(1)])
    also have "substitute key secret timestamp b = render_loop key secret timestamp b"
      using less[of b] s placeholder_nonempty[OF p(1)] by simp
    finally have "substitute key secret timestamp s
        = a @ placeholder_value key secret timestamp p @ render_loop key secret timestamp b" .
    moreover have "take i s = a" "drop (i + length p) s = b" using s ab(2) by simp_all
    ultimately show ?thesis
      using ip by (simp add: render_loop.simps[of _ _ _ s])
  qed
qed

section \<open>Properties\<close>

text \<open>
  C10: The payload is the template with the placeholders of key, secret and timestamp replaced
  in one pass from the left: values are not rescanned, everything else is copied, and the fast
  path for templates without placeholders agrees with the scan.
\<close>

theorem payload_single_pass:
  "render_payload template key secret timestamp = substitute key secret timestamp template"
proof (cases "\<exists>p \<in> set placeholders. contains p template")
  case True
  then show ?thesis
    by (auto simp: render_payload_def placeholders_def render_loop_substitute)
next
  case False
  then have "find_sub p template = None" if "p \<in> set placeholders" for p
    using that unfolding find_sub_def contains_def by (metis option.simps(8))
  then have "next_placeholder template = None"
    by (simp add: next_placeholder_def placeholders_def)
  then have "render_loop key secret timestamp template = template"
    by (simp add: render_loop.simps[of _ _ _ template])
  with False show ?thesis
    by (auto simp: render_payload_def placeholders_def render_loop_substitute [symmetric])
qed

end
