(* ===== verification/Sign.thy ===== *)
theory Sign
  imports Crypto "HOL-Library.Char_ord" "HOL-Library.List_Lexorder" "HOL-Library.Product_Lexorder"
    "HOL-Library.Multiset"
begin

text \<open>
  The signing schemes, \<open>crates/fox-sign/src/lib.rs\<close>: AK-SK, Hawk, AWS Signature V4 and Digest.
  Time stamps and nonces are arguments, as in the source; the digests are the parameter \<open>crypto\<close>,
  the URL parser (\<open>url\<close>) is the parameter \<open>parse\<close> and gives the parts the code asks for.
\<close>

datatype sign_error =
    InvalidUrl str
  | BadChallenge
  | UnsupportedAlgorithm str
  | UnsupportedQop
  | MissingField str

record url_parts =
  ur_host :: "str option"
  ur_port :: "nat option"
  ur_known_port :: "nat option"
  ur_path :: str
  ur_query :: "str option"
  ur_query_pairs :: "(str \<times> str) list"

definition sha256_hex :: "crypto \<Rightarrow> str \<Rightarrow> str" where
  "sha256_hex C d = c_hex C (c_sha256 C d)"

definition md5_hex :: "crypto \<Rightarrow> str \<Rightarrow> str" where
  "md5_hex C d = c_hex C (c_md5 C d)"

definition newline :: char where "newline = CHR 0x0A"

section \<open>AK-SK\<close>

record aksk_params =
  ak_access_key :: str
  ak_secret_key :: str
  ak_method :: str
  ak_path_query :: str
  ak_timestamp :: str
  ak_nonce :: str

definition aksk_headers :: "crypto \<Rightarrow> aksk_params \<Rightarrow> (sign_error, (str \<times> str) list \<times> str) result" where
  "aksk_headers C p =
     (if ak_access_key p = [] then Err (MissingField ''access_key'')
      else if ak_secret_key p = [] then Err (MissingField ''secret_key'')
      else
        (let canonical = join [newline] [ak_access_key p, ak_timestamp p, ak_nonce p,
               to_ascii_uppercase (ak_method p), ak_path_query p];
             signature = c_hex C (c_hmac_sha256 C (ak_secret_key p) canonical)
         in Ok ([(''X-Access-Key'', ak_access_key p), (''X-Timestamp'', ak_timestamp p),
                 (''X-Nonce'', ak_nonce p), (''X-Signature'', signature)], signature)))"

section \<open>Hawk\<close>

record hawk_params =
  hk_id :: str
  hk_key :: str
  hk_method :: str
  hk_url :: str
  hk_body :: "(str \<times> str) option"
  hk_ts :: u64
  hk_nonce :: str

definition quoted :: "str \<Rightarrow> str" where
  "quoted v = CHR 0x22 # v @ [CHR 0x22]"

definition hawk_hash :: "crypto \<Rightarrow> (str \<times> str) option \<Rightarrow> str" where
  "hawk_hash C body =
     (case body of
        Some (content_type, b) \<Rightarrow>
          if b \<noteq> [] then
            c_base64 C (c_sha256 C (''hawk.1.payload'' @ [newline] @ trim (to_ascii_lowercase content_type)
              @ [newline] @ c_utf8_lossy C b @ [newline]))
          else []
      | None \<Rightarrow> [])"

definition hawk_authorization ::
  "crypto \<Rightarrow> (str \<Rightarrow> (str, url_parts) result) \<Rightarrow> hawk_params \<Rightarrow> (sign_error, str) result" where
  "hawk_authorization C parse p =
     (if hk_id p = [] then Err (MissingField ''id'')
      else if hk_key p = [] then Err (MissingField ''key'')
      else
        (case parse (hk_url p) of
           Inl e \<Rightarrow> Err (InvalidUrl e)
         | Inr url \<Rightarrow>
             (case ur_host url of
                None \<Rightarrow> Err (MissingField ''host'')
              | Some h \<Rightarrow>
                  let host = to_ascii_lowercase h;
                      port = (case ur_known_port url of Some n \<Rightarrow> n | None \<Rightarrow> 80);
                      path = (if ur_path url = [] then ''/'' else ur_path url);
                      resource = (case ur_query url of Some q \<Rightarrow> path @ ''?'' @ q | None \<Rightarrow> path);
                      hash = hawk_hash C (hk_body p);
                      normalized = join [newline] [''hawk.1.header'', show_nat (unat (hk_ts p)), hk_nonce p,
                        to_ascii_uppercase (hk_method p), resource, host, show_nat port, hash] @ [newline, newline];
                      mac = c_base64 C (c_hmac_sha256 C (hk_key p) normalized)
                  in Ok (''Hawk id='' @ quoted (hk_id p) @ '', ts='' @ quoted (show_nat (unat (hk_ts p)))
                       @ '', nonce='' @ quoted (hk_nonce p)
                       @ (if hash \<noteq> [] then '', hash='' @ quoted hash else [])
                       @ '', mac='' @ quoted mac))))"

section \<open>AWS Signature V4\<close>

record aws_params =
  aw_access_key :: str
  aw_secret_key :: str
  aw_session_token :: "str option"
  aw_region :: str
  aw_service :: str
  aw_method :: str
  aw_url :: str
  aw_payload_hash :: str
  aw_amz_date :: str

definition is_alnum :: "char \<Rightarrow> bool" where
  "is_alnum c = (let n = of_char c :: nat in
     48 \<le> n \<and> n \<le> 57 \<or> 65 \<le> n \<and> n \<le> 90 \<or> 97 \<le> n \<and> n \<le> 122)"

definition unreserved :: "char \<Rightarrow> bool" where
  "unreserved c \<longleftrightarrow> is_alnum c \<or> c \<in> set ''-_.~''"

definition aws_encode :: "str \<Rightarrow> str" where
  "aws_encode s = concat (map (\<lambda>c. if unreserved c then [c] else CHR ''%'' # hex_byte_upper c) s)"

definition char_boundary :: "str \<Rightarrow> nat \<Rightarrow> bool" where
  "char_boundary s n \<longleftrightarrow> n = length s \<or>
     n < length s \<and> ((of_char (s ! n) :: nat) < 128 \<or> 192 \<le> (of_char (s ! n) :: nat))"

definition date_stamp :: "str \<Rightarrow> str" where
  "date_stamp amz_date = (if char_boundary amz_date 8 then take 8 amz_date else [])"

definition canonical_query :: "(str \<times> str) list \<Rightarrow> str" where
  "canonical_query pairs = join ''&'' (map (\<lambda>(k, v). aws_encode k @ ''='' @ aws_encode v) (sort pairs))"

definition canonical_request :: "aws_params \<Rightarrow> url_parts \<Rightarrow> str \<Rightarrow> str \<Rightarrow> str" where
  "canonical_request p url host_header token =
     (let path = (if ur_path url = [] then ''/'' else ur_path url);
          headers = ''host:'' @ host_header @ [newline] @ ''x-amz-date:'' @ aw_amz_date p @ [newline]
            @ (if token \<noteq> [] then ''x-amz-security-token:'' @ token @ [newline] else []);
          signed = ''host;x-amz-date'' @ (if token \<noteq> [] then '';x-amz-security-token'' else [])
      in join [newline] [to_ascii_uppercase (aw_method p), path, canonical_query (ur_query_pairs url),
           headers, signed, aw_payload_hash p])"

definition sign_aws_v4 ::
  "crypto \<Rightarrow> (str \<Rightarrow> (str, url_parts) result) \<Rightarrow> aws_params \<Rightarrow> (sign_error, str \<times> str) result" where
  "sign_aws_v4 C parse p =
     (if aw_access_key p = [] then Err (MissingField ''access_key'')
      else if aw_secret_key p = [] then Err (MissingField ''secret_key'')
      else if aw_region p = [] then Err (MissingField ''region'')
      else if aw_service p = [] then Err (MissingField ''service'')
      else
        (case parse (aw_url p) of
           Inl e \<Rightarrow> Err (InvalidUrl e)
         | Inr url \<Rightarrow>
             (case ur_host url of
                None \<Rightarrow> Err (MissingField ''host'')
              | Some h \<Rightarrow>
                  let host = to_ascii_lowercase h;
                      host_header = (case ur_port url of Some n \<Rightarrow> host @ '':'' @ show_nat n | None \<Rightarrow> host);
                      stamp = date_stamp (aw_amz_date p);
                      token = trim (case aw_session_token p of Some t \<Rightarrow> t | None \<Rightarrow> []);
                      scope = join ''/'' [stamp, aw_region p, aw_service p, ''aws4_request''];
                      to_sign = join [newline] [''AWS4-HMAC-SHA256'', aw_amz_date p, scope,
                        sha256_hex C (canonical_request p url host_header token)];
                      k_date = c_hmac_sha256 C (''AWS4'' @ aw_secret_key p) stamp;
                      k_region = c_hmac_sha256 C k_date (aw_region p);
                      k_service = c_hmac_sha256 C k_region (aw_service p);
                      k_signing = c_hmac_sha256 C k_service ''aws4_request'';
                      signature = c_hex C (c_hmac_sha256 C k_signing to_sign)
                  in Ok (''AWS4-HMAC-SHA256 Credential='' @ aw_access_key p @ ''/'' @ scope
                       @ '', SignedHeaders=host;x-amz-date'' @ (if token \<noteq> [] then '';x-amz-security-token'' else [])
                       @ '', Signature='' @ signature, aw_amz_date p))))"

section \<open>Digest\<close>

record digest_challenge =
  dc_realm :: str
  dc_nonce :: str
  dc_opaque :: "str option"
  dc_qop :: "str list"
  dc_algorithm :: str
  dc_userhash :: bool

definition quote :: char where "quote = CHR 0x22"
definition backslash :: char where "backslash = CHR 0x5C"

text \<open>The state of the splitter: the current piece, inside quotes, after a backslash.\<close>

fun split_params :: "str \<Rightarrow> bool \<Rightarrow> bool \<Rightarrow> str \<Rightarrow> str list" where
  "split_params cur in_quotes escaped [] = (if trim cur \<noteq> [] then [trim cur] else [])"
| "split_params cur in_quotes escaped (c # cs) =
     (if escaped then split_params (cur @ [c]) in_quotes False cs
      else if c = backslash \<and> in_quotes then split_params (cur @ [c]) in_quotes True cs
      else if c = quote then split_params (cur @ [c]) (\<not> in_quotes) False cs
      else if c = CHR '','' \<and> \<not> in_quotes then trim cur # split_params [] in_quotes False cs
      else split_params (cur @ [c]) in_quotes False cs)"

definition split_challenge_params :: "str \<Rightarrow> str list" where
  "split_challenge_params s = split_params [] False False s"

definition unquote :: "str \<Rightarrow> str" where
  "unquote s =
     (let t = trim s in
      if 2 \<le> length t \<and> hd t = quote \<and> last t = quote
      then replace_all [backslash, quote] [quote] (butlast (tl t)) else t)"

definition is_blank :: "char \<Rightarrow> bool" where
  "is_blank c \<longleftrightarrow> c = CHR '' '' \<or> c = CHR 0x09"

definition is_token_char :: "char \<Rightarrow> bool" where
  "is_token_char c \<longleftrightarrow> is_alnum c \<or> c \<in> set ''!#$%&*+-.^_|~'' \<or> c = CHR 0x27 \<or> c = CHR 0x60"

definition new_scheme :: "str \<Rightarrow> bool" where
  "new_scheme ahead =
     (let t = trim_start ahead; token = takeWhile (\<lambda>c. \<not> is_blank c) t
      in length token < length t \<and> token \<noteq> [] \<and> list_all is_token_char token \<and> CHR ''='' \<notin> set token)"

text \<open>The parameters up to a top-level comma that a new scheme follows.\<close>

fun challenge_segment :: "bool \<Rightarrow> bool \<Rightarrow> str \<Rightarrow> str" where
  "challenge_segment in_quotes after_backslash [] = []"
| "challenge_segment in_quotes after_backslash (c # cs) =
     (let q = (if c = quote \<and> \<not> after_backslash then \<not> in_quotes else in_quotes)
      in if c = CHR '','' \<and> \<not> q \<and> new_scheme cs then []
         else c # challenge_segment q (c = backslash) cs)"

record challenge_acc =
  ca_realm :: "str option"
  ca_nonce :: "str option"
  ca_opaque :: "str option"
  ca_qop :: "str list"
  ca_algorithm :: str
  ca_userhash :: bool

definition apply_param :: "str \<Rightarrow> challenge_acc \<Rightarrow> challenge_acc option" where
  "apply_param part acc =
     (case split_once ''='' part of
        None \<Rightarrow> None
      | Some (k0, v) \<Rightarrow>
          let k = to_ascii_lowercase (trim k0) in
          if k = ''realm'' then Some (acc\<lparr>ca_realm := Some (unquote v)\<rparr>)
          else if k = ''nonce'' then Some (acc\<lparr>ca_nonce := Some (unquote v)\<rparr>)
          else if k = ''opaque'' then Some (acc\<lparr>ca_opaque := Some (unquote v)\<rparr>)
          else if k = ''qop'' then
            Some (acc\<lparr>ca_qop := filter (\<lambda>s. s \<noteq> [])
              (map (\<lambda>s. to_ascii_lowercase (trim s)) (split_on CHR '','' (unquote v)))\<rparr>)
          else if k = ''algorithm'' then Some (acc\<lparr>ca_algorithm := unquote v\<rparr>)
          else if k = ''userhash'' then
            Some (acc\<lparr>ca_userhash := eq_ignore_ascii_case (unquote v) ''true''\<rparr>)
          else Some acc)"

fun apply_params :: "str list \<Rightarrow> challenge_acc \<Rightarrow> challenge_acc option" where
  "apply_params [] acc = Some acc"
| "apply_params (p # ps) acc = (case apply_param p acc of None \<Rightarrow> None | Some a \<Rightarrow> apply_params ps a)"

definition empty_acc :: challenge_acc where
  "empty_acc = \<lparr>ca_realm = None, ca_nonce = None, ca_opaque = None, ca_qop = [],
     ca_algorithm = ''MD5'', ca_userhash = False\<rparr>"

definition parse_www_authenticate :: "str \<Rightarrow> digest_challenge option" where
  "parse_www_authenticate header =
     (case find_sub ''digest'' (to_ascii_lowercase header) of
        None \<Rightarrow> None
      | Some idx \<Rightarrow>
          (case drop (idx + 6) header of
             [] \<Rightarrow> None
           | after # rest \<Rightarrow>
               if \<not> is_blank after then None
               else
                 (case apply_params (split_challenge_params (challenge_segment False False rest)) empty_acc of
                    None \<Rightarrow> None
                  | Some acc \<Rightarrow>
                      (case (ca_realm acc, ca_nonce acc) of
                         (Some realm, Some nonce) \<Rightarrow>
                           Some \<lparr>dc_realm = realm, dc_nonce = nonce, dc_opaque = ca_opaque acc,
                             dc_qop = ca_qop acc, dc_algorithm = ca_algorithm acc,
                             dc_userhash = ca_userhash acc\<rparr>
                       | _ \<Rightarrow> None))))"

record digest_params =
  dp_username :: str
  dp_password :: str
  dp_method :: str
  dp_uri :: str
  dp_challenge :: digest_challenge
  dp_nc :: u32
  dp_cnonce :: str

definition colons :: "str list \<Rightarrow> str" where
  "colons ws = join '':'' ws"

definition is_sha256 :: "str \<Rightarrow> bool" where
  "is_sha256 algo \<longleftrightarrow> starts_with ''SHA-256'' algo \<or> starts_with ''SHA256'' algo"

definition digest_hash :: "crypto \<Rightarrow> digest_challenge \<Rightarrow> str \<Rightarrow> str" where
  "digest_hash C ch = (if is_sha256 (to_ascii_uppercase (dc_algorithm ch)) then sha256_hex C else md5_hex C)"

definition digest_ha1 :: "crypto \<Rightarrow> digest_params \<Rightarrow> str" where
  "digest_ha1 C p =
     (let ch = dp_challenge p; h = digest_hash C ch;
          a1_base = colons [dp_username p, dc_realm ch, dp_password p];
          a1 = (if to_ascii_uppercase (dc_algorithm ch) = ''MD5-SESS''
                then colons [h a1_base, dc_nonce ch, dp_cnonce p] else a1_base)
      in h a1)"

definition uses_qop :: "digest_challenge \<Rightarrow> bool" where
  "uses_qop ch = list_ex (\<lambda>q. q = ''auth'') (dc_qop ch)"

definition digest_response :: "crypto \<Rightarrow> digest_params \<Rightarrow> str" where
  "digest_response C p =
     (let ch = dp_challenge p; h = digest_hash C ch; ha1 = digest_ha1 C p;
          ha2 = h (colons [to_ascii_uppercase (dp_method p), dp_uri p])
      in if uses_qop ch
         then h (colons [ha1, dc_nonce ch, hex08 (dp_nc p), dp_cnonce p, ''auth'', ha2])
         else h (colons [ha1, dc_nonce ch, ha2]))"

definition digest_authorization :: "crypto \<Rightarrow> digest_params \<Rightarrow> (sign_error, str) result" where
  "digest_authorization C p =
     (let ch = dp_challenge p; algo = to_ascii_uppercase (dc_algorithm ch)
      in if algo \<noteq> ''MD5'' \<and> algo \<noteq> ''MD5-SESS'' \<and> \<not> is_sha256 algo
         then Err (UnsupportedAlgorithm (dc_algorithm ch))
         else if \<not> uses_qop ch \<and> dc_qop ch \<noteq> [] then Err UnsupportedQop
         else
           (let user_field = (if dc_userhash ch then digest_hash C ch (colons [dp_username p, dc_realm ch])
                              else dp_username p);
                out = ''Digest username='' @ quoted user_field @ '', realm='' @ quoted (dc_realm ch)
                  @ '', nonce='' @ quoted (dc_nonce ch) @ '', uri='' @ quoted (dp_uri p)
                  @ '', response='' @ quoted (digest_response C p)
                  @ (if algo \<noteq> ''MD5'' then '', algorithm='' @ dc_algorithm ch else []);
                out = (if uses_qop ch
                  then out @ '', cnonce='' @ quoted (dp_cnonce p) @ '', opaque=''
                    @ (case dc_opaque ch of Some v \<Rightarrow> quoted v | None \<Rightarrow> [])
                    @ '', qop=auth, nc='' @ hex08 (dp_nc p)
                  else (case dc_opaque ch of Some v \<Rightarrow> out @ '', opaque='' @ quoted v | None \<Rightarrow> out))
            in Ok (if uses_qop ch \<and> dc_opaque ch = None then replace_all '', opaque=,'' '','' out else out)))"

section \<open>Texts without outer white space\<close>

definition solid :: "char \<Rightarrow> bool" where
  "solid c \<longleftrightarrow> 33 \<le> (of_char c :: nat) \<and> (of_char c :: nat) < 127"

lemma strip_all_solid:
  assumes "solid c"
  shows "strip_all ws_seqs (c # s) = c # s" "strip_all (map rev ws_seqs) (c # s) = c # s"
proof -
  have ends: "\<forall>p \<in> set ws_seqs. p \<noteq> [] \<and> \<not> solid (hd p) \<and> \<not> solid (last p)"
    by (simp add: ws_seqs_def solid_def)
  have none: "strip_first ps (c # s) = None" if "\<forall>p \<in> set ps. p \<noteq> [] \<and> \<not> solid (hd p)" for ps
    using that
  proof (induction ps)
    case (Cons p ps)
    with assms show ?case by (cases p) auto
  qed simp
  have "strip_first ws_seqs (c # s) = None" "strip_first (map rev ws_seqs) (c # s) = None"
    using ends by (auto intro!: none simp: hd_rev)
  then show "strip_all ws_seqs (c # s) = c # s" "strip_all (map rev ws_seqs) (c # s) = c # s"
    by (subst strip_all.simps, simp)+
qed

lemma trim_solid:
  assumes "s \<noteq> []" "solid (hd s)" "solid (last s)"
  shows "trim s = s" "trim (CHR '' '' # s) = s"
proof -
  obtain c t where s: "s = c # t" using assms(1) by (cases s) auto
  have start: "trim_start s = s" using strip_all_solid(1)[of c t] assms(2) s by (simp add: trim_start_def)
  have "rev s = last s # rev (butlast s)" using assms(1) by (metis append_butlast_last_id rev_eq_Cons_iff rev_rev_ident)
  then have ending: "trim_end s = s"
    using strip_all_solid(2)[OF assms(3), of "rev (butlast s)"]
    by (metis rev_rev_ident trim_end_def)
  show "trim s = s" by (simp add: trim_def start ending)
  have "strip_first ws_seqs (CHR '' '' # s) = Some s" by (simp add: ws_seqs_def)
  then have "trim_start (CHR '' '' # s) = s"
    using start by (simp add: trim_start_def strip_all.simps[of ws_seqs "CHR '' '' # s"])
  then show "trim (CHR '' '' # s) = s" by (simp add: trim_def ending)
qed

lemma trim_start_solid: "solid c \<Longrightarrow> trim_start (CHR '' '' # c # s) = c # s"
proof -
  assume c: "solid c"
  have "strip_first ws_seqs (CHR '' '' # c # s) = Some (c # s)" by (simp add: ws_seqs_def)
  then have "strip_all ws_seqs (CHR '' '' # c # s) = strip_all ws_seqs (c # s)"
    by (subst strip_all.simps) simp
  with strip_all_solid(1)[OF c] show ?thesis by (simp add: trim_start_def)
qed

section \<open>Challenges written as parameter lists\<close>

text \<open>
  A parameter is a name and a value, the value quoted or bare. \<open>plain\<close> text can stand between
  quotes, a bare value is made of token characters.
\<close>

datatype param = Quoted str str | Bare str str

fun param_str :: "param \<Rightarrow> str" where
  "param_str (Quoted n v) = n @ ''='' @ quoted v"
| "param_str (Bare n v) = n @ ''='' @ v"

definition plain :: "str \<Rightarrow> bool" where
  "plain v \<longleftrightarrow> quote \<notin> set v \<and> backslash \<notin> set v"

definition wordy :: "str \<Rightarrow> bool" where
  "wordy v \<longleftrightarrow> v \<noteq> [] \<and> list_all (\<lambda>c. is_alnum c \<or> c = CHR ''-'') v"

fun param_ok :: "param \<Rightarrow> bool" where
  "param_ok (Quoted n v) \<longleftrightarrow> wordy n \<and> plain v"
| "param_ok (Bare n v) \<longleftrightarrow> wordy n \<and> wordy v"

lemma wordy_char:
  assumes "wordy v" "c \<in> set v"
  shows "solid c" "c \<noteq> quote" "c \<noteq> backslash" "c \<noteq> CHR '',''" "c \<noteq> CHR ''=''" "\<not> is_blank c"
proof -
  have "is_alnum c \<or> c = CHR ''-''" using assms by (auto simp: wordy_def list_all_iff)
  then show "solid c" "c \<noteq> quote" "c \<noteq> backslash" "c \<noteq> CHR '',''" "c \<noteq> CHR ''=''" "\<not> is_blank c"
    by (auto simp: is_alnum_def solid_def quote_def backslash_def is_blank_def Let_def)
qed

lemma solid_quote [simp]: "solid quote" by (simp add: solid_def quote_def)

lemma hd_last_param:
  assumes "param_ok p"
  shows "param_str p \<noteq> []" "solid (hd (param_str p))" "solid (last (param_str p))"
proof -
  have hd: "solid (hd (n @ s))" if "wordy n" for n s
    using that wordy_char(1)[OF that, of "hd n"] by (auto simp: wordy_def)
  have lst: "solid (last (s @ n))" if "wordy n" for n s
    using that wordy_char(1)[OF that, of "last n"] by (auto simp: wordy_def)
  show "param_str p \<noteq> []" by (cases p) auto
  show "solid (hd (param_str p))" using assms hd by (cases p) auto
  show "solid (last (param_str p))"
  proof (cases p)
    case (Quoted n v)
    then have "last (param_str p) = quote" by (simp add: quoted_def quote_def)
    then show ?thesis by simp
  next
    case (Bare n v)
    then show ?thesis using assms lst[of v "n @ ''=''"] by simp
  qed
qed

lemma split_params_plain:
  "\<lbrakk>\<forall>c \<in> set a. c \<noteq> quote \<and> c \<noteq> CHR '',''\<rbrakk> \<Longrightarrow>
    split_params cur False False (a @ s) = split_params (cur @ a) False False s"
  by (induction a arbitrary: cur) auto

lemma split_params_quoted:
  "plain a \<Longrightarrow> split_params cur True False (a @ s) = split_params (cur @ a) True False s"
  by (induction a arbitrary: cur) (auto simp: plain_def)

lemma split_params_value:
  assumes "plain v"
  shows "split_params cur False False (quoted v @ s) = split_params (cur @ quoted v) False False s"
  using split_params_quoted[OF assms, of "cur @ [quote]" "quote # s"]
  by (simp add: quoted_def quote_def [symmetric] backslash_def [symmetric])
     (simp add: quote_def backslash_def)

lemma split_params_param:
  assumes "param_ok p"
  shows "split_params cur False False (param_str p @ s) = split_params (cur @ param_str p) False False s"
proof -
  have w0: "\<forall>c \<in> set n. c \<noteq> quote \<and> c \<noteq> CHR '',''" if "wordy n" for n
    using wordy_char[OF that] by blast
  then have w: "\<forall>c \<in> set (n @ ''=''). c \<noteq> quote \<and> c \<noteq> CHR '',''" if "wordy n" for n
    using that by (simp add: quote_def)
  show ?thesis
  proof (cases p)
    case (Quoted n v)
    then show ?thesis
      using assms split_params_plain[OF w[of n], of cur "quoted v @ s"] split_params_value[of v "cur @ n @ ''=''" s]
      by simp
  next
    case (Bare n v)
    have "\<forall>c \<in> set (n @ ''='' @ v). c \<noteq> quote \<and> c \<noteq> CHR '',''"
      using assms Bare w0[of v] w0[of n] by (auto simp: quote_def)
    from split_params_plain[OF this, of cur s] Bare show ?thesis by simp
  qed
qed

lemma split_params_list:
  "\<lbrakk>ps \<noteq> []; \<forall>p \<in> set ps. param_ok p; cur = [] \<or> cur = '' ''\<rbrakk> \<Longrightarrow>
    split_params cur False False (join '', '' (map param_str ps)) = map param_str ps"
proof (induction ps arbitrary: cur)
  case (Cons p ps)
  have trimmed: "trim (cur @ param_str p) = param_str p"
    using hd_last_param[of p] trim_solid[of "param_str p"] Cons.prems by auto
  show ?case
  proof (cases ps)
    case Nil
    then show ?thesis
      using split_params_param[of p cur "[]"] Cons.prems trimmed hd_last_param(1)[of p] by simp
  next
    case (Cons q qs)
    have comma: "CHR '','' \<noteq> quote" "CHR '','' \<noteq> backslash" by (simp_all add: quote_def backslash_def)
    have "join '', '' (map param_str (p # ps)) = param_str p @ CHR '','' # CHR '' '' # join '', '' (map param_str ps)"
      using Cons by simp
    moreover have "split_params '' '' False False (join '', '' (map param_str ps)) = map param_str ps"
      using Cons.IH[of "'' ''"] Cons.prems Cons by simp
    ultimately show ?thesis
      using split_params_param[of p cur "CHR '','' # CHR '' '' # join '', '' (map param_str ps)"]
        Cons.prems trimmed comma
      by (simp add: quote_def)
  qed
qed simp

lemma segment_plain:
  "\<lbrakk>\<forall>c \<in> set a. c \<noteq> quote \<and> c \<noteq> CHR '','' \<and> c \<noteq> backslash\<rbrakk> \<Longrightarrow>
    challenge_segment False False (a @ s) = a @ challenge_segment False False s"
  by (induction a) auto

lemma segment_quoted:
  "plain a \<Longrightarrow> challenge_segment True False (a @ s) = a @ challenge_segment True False s"
  by (induction a) (auto simp: plain_def)

lemma segment_value:
  assumes "plain v"
  shows "challenge_segment False False (quoted v @ s) = quoted v @ challenge_segment False False s"
  using segment_quoted[OF assms, of "quote # s"]
  by (simp add: quoted_def quote_def [symmetric]) (simp add: quote_def backslash_def)

lemma segment_param:
  assumes "param_ok p"
  shows "challenge_segment False False (param_str p @ s) = param_str p @ challenge_segment False False s"
proof -
  have w: "\<forall>c \<in> set n. c \<noteq> quote \<and> c \<noteq> CHR '','' \<and> c \<noteq> backslash" if "wordy n" for n
    using wordy_char[OF that] by blast
  have eq: "\<forall>c \<in> set ''=''. c \<noteq> quote \<and> c \<noteq> CHR '','' \<and> c \<noteq> backslash"
    by (simp add: quote_def backslash_def)
  show ?thesis
  proof (cases p)
    case (Quoted n v)
    with assms show ?thesis
      using segment_plain[OF w[of n], of "''='' @ quoted v @ s"] segment_plain[OF eq, of "quoted v @ s"]
      by (simp add: segment_value)
  next
    case (Bare n v)
    with assms show ?thesis
      using segment_plain[OF w[of n], of "''='' @ v @ s"] segment_plain[OF eq, of "v @ s"]
        segment_plain[OF w[of v], of s] by simp
  qed
qed

lemma not_new_scheme:
  assumes "param_ok p"
  shows "\<not> new_scheme (CHR '' '' # param_str p @ s)"
proof -
  obtain n r where p: "param_str p @ s = n @ CHR ''='' # r" "wordy n"
    using assms by (cases p) auto
  have "trim_start (CHR '' '' # n @ CHR ''='' # r) = n @ CHR ''='' # r"
    using p(2) trim_start_solid[of "hd n" "tl n @ CHR ''='' # r"] wordy_char(1)[OF p(2), of "hd n"]
    by (cases n) (auto simp: wordy_def)
  moreover have "CHR ''='' \<in> set (takeWhile (\<lambda>c. \<not> is_blank c) (n @ CHR ''='' # r))"
    using wordy_char(6)[OF p(2)] by (simp add: takeWhile_append2 is_blank_def)
  ultimately show ?thesis by (simp add: new_scheme_def p(1) Let_def)
qed

lemma segment_list:
  assumes "\<forall>p \<in> set ps. param_ok p"
  shows "challenge_segment False False (join '', '' (map param_str ps)) = join '', '' (map param_str ps)"
  using assms
proof (induction ps)
  case (Cons p ps)
  show ?case
  proof (cases ps)
    case Nil
    then show ?thesis using segment_param[of p "[]"] Cons.prems by simp
  next
    case (Cons q qs)
    obtain r where r: "join '', '' (map param_str ps) = param_str q @ r"
      using Cons by (cases qs) auto
    have "\<not> new_scheme (CHR '' '' # join '', '' (map param_str ps))"
      using not_new_scheme[of q r] Cons.prems Cons r by simp
    then have "challenge_segment False False (CHR '','' # CHR '' '' # join '', '' (map param_str ps))
        = CHR '','' # CHR '' '' # join '', '' (map param_str ps)"
      using Cons.IH Cons.prems by (simp add: quote_def backslash_def)
    with Cons segment_param[of p "CHR '','' # CHR '' '' # join '', '' (map param_str ps)"] Cons.prems
    show ?thesis by simp
  qed
qed simp

lemma unquote_quoted: "plain v \<Longrightarrow> unquote (quoted v) = v"
proof -
  assume v: "plain v"
  have "trim (quoted v) = quoted v"
    by (rule trim_solid) (simp_all add: quoted_def quote_def [symmetric])
  moreover have "\<not> contains [backslash, quote] v"
    using v by (auto simp: contains_iff plain_def)
  ultimately show ?thesis
    by (simp add: unquote_def Let_def quoted_def quote_def [symmetric] replace_all_absent)
qed

lemma trim_wordy: "wordy v \<Longrightarrow> trim v = v"
  using wordy_char(1)[of v] by (intro trim_solid) (auto simp: wordy_def)

lemma unquote_wordy: "wordy v \<Longrightarrow> unquote v = v"
  using wordy_char(2)[of v "hd v"]
  by (auto simp: unquote_def trim_wordy Let_def wordy_def)

lemma split_once_param:
  "wordy n \<Longrightarrow> split_once ''='' (n @ CHR ''='' # s) = Some (n, s)"
  using wordy_char(5)[of n] by (intro split_once_char_append) blast

section \<open>A challenge, written and read\<close>

definition challenge_params :: "digest_challenge \<Rightarrow> param list" where
  "challenge_params ch =
     [Quoted ''realm'' (dc_realm ch), Quoted ''nonce'' (dc_nonce ch)]
     @ (case dc_opaque ch of Some v \<Rightarrow> [Quoted ''opaque'' v] | None \<Rightarrow> [])
     @ (if dc_qop ch \<noteq> [] then [Quoted ''qop'' (join '','' (dc_qop ch))] else [])
     @ [Bare ''algorithm'' (dc_algorithm ch)]
     @ (if dc_userhash ch then [Bare ''userhash'' ''true''] else [])"

definition render_challenge :: "digest_challenge \<Rightarrow> str" where
  "render_challenge ch = ''Digest '' @ join '', '' (map param_str (challenge_params ch))"

definition challenge_ok :: "digest_challenge \<Rightarrow> bool" where
  "challenge_ok ch \<longleftrightarrow> plain (dc_realm ch) \<and> plain (dc_nonce ch)
     \<and> (case dc_opaque ch of Some v \<Rightarrow> plain v | None \<Rightarrow> True)
     \<and> list_all (\<lambda>q. wordy q \<and> to_ascii_lowercase q = q) (dc_qop ch) \<and> wordy (dc_algorithm ch)"

lemma wordy_names:
  "wordy ''realm''" "wordy ''nonce''" "wordy ''opaque''" "wordy ''qop''" "wordy ''algorithm''"
  "wordy ''userhash''" "wordy ''true''"
  by (simp_all add: wordy_def is_alnum_def)

lemma lowercase_names:
  "to_ascii_lowercase ''realm'' = ''realm''" "to_ascii_lowercase ''nonce'' = ''nonce''"
  "to_ascii_lowercase ''opaque'' = ''opaque''" "to_ascii_lowercase ''qop'' = ''qop''"
  "to_ascii_lowercase ''algorithm'' = ''algorithm''" "to_ascii_lowercase ''userhash'' = ''userhash''"
  by code_simp+

lemma plain_join:
  "\<forall>w \<in> set ws. wordy w \<Longrightarrow> plain (join '','' ws)"
proof (induction ws rule: induct_list012)
  case (3 x y zs)
  have "plain x" using 3 wordy_char[of x] by (auto simp: plain_def)
  with 3 show ?case by (simp add: plain_def quote_def backslash_def)
next
  case (2 x)
  then show ?case using wordy_char[of x] by (auto simp: plain_def)
qed (simp add: plain_def)

lemma apply_param_values:
  "plain v \<Longrightarrow> apply_param (param_str (Quoted ''realm'' v)) acc = Some (acc\<lparr>ca_realm := Some v\<rparr>)"
  "plain v \<Longrightarrow> apply_param (param_str (Quoted ''nonce'' v)) acc = Some (acc\<lparr>ca_nonce := Some v\<rparr>)"
  "plain v \<Longrightarrow> apply_param (param_str (Quoted ''opaque'' v)) acc = Some (acc\<lparr>ca_opaque := Some v\<rparr>)"
  "wordy v \<Longrightarrow> apply_param (param_str (Bare ''algorithm'' v)) acc = Some (acc\<lparr>ca_algorithm := v\<rparr>)"
  "apply_param (param_str (Bare ''userhash'' ''true'')) acc = Some (acc\<lparr>ca_userhash := True\<rparr>)"
  using split_once_param[OF wordy_names(1)] split_once_param[OF wordy_names(2)]
    split_once_param[OF wordy_names(3)] split_once_param[OF wordy_names(5)] split_once_param[OF wordy_names(6)]
  by (simp_all add: apply_param_def trim_wordy wordy_names lowercase_names unquote_quoted unquote_wordy)

lemma apply_param_qop:
  assumes "list_all (\<lambda>q. wordy q \<and> to_ascii_lowercase q = q) qs" "qs \<noteq> []"
  shows "apply_param (param_str (Quoted ''qop'' (join '','' qs))) acc = Some (acc\<lparr>ca_qop := qs\<rparr>)"
proof -
  have w: "\<forall>q \<in> set qs. wordy q \<and> to_ascii_lowercase q = q" using assms(1) by (simp add: list_all_iff)
  have "split_on CHR '','' (join '','' qs) = qs"
    using w wordy_char(4) assms(2) by (intro split_on_join) blast+
  moreover have "map (\<lambda>s. to_ascii_lowercase (trim s)) qs = qs"
    using w by (intro map_idI) (simp add: trim_wordy)
  moreover have "filter (\<lambda>s. s \<noteq> []) qs = qs"
    using w by (intro filter_True) (auto simp: wordy_def)
  moreover have "plain (join '','' qs)" using w by (intro plain_join) blast
  ultimately show ?thesis
    using split_once_param[OF wordy_names(4)]
    by (simp add: apply_param_def trim_wordy wordy_names lowercase_names unquote_quoted)
qed

lemma digest_scheme_first: "find_sub ''digest'' (to_ascii_lowercase (''Digest '' @ s)) = Some 0"
proof -
  have "to_ascii_lowercase ''Digest '' = ''digest ''" by code_simp
  then have "to_ascii_lowercase (''Digest '' @ s) = ''digest '' @ to_ascii_lowercase s"
    by (simp add: to_ascii_lowercase_def)
  then show ?thesis by (simp add: find_sub_def split_once.simps)
qed

lemma parse_rendered:
  assumes "challenge_ok ch"
  shows "parse_www_authenticate (render_challenge ch) = Some ch"
proof -
  let ?ps = "challenge_params ch"
  have ok: "\<forall>p \<in> set ?ps. param_ok p"
    using assms plain_join[of "dc_qop ch"]
    by (auto simp: challenge_params_def challenge_ok_def wordy_names list_all_iff split: option.splits)
  have "?ps \<noteq> []" by (simp add: challenge_params_def)
  then have split: "split_challenge_params (challenge_segment False False (join '', '' (map param_str ?ps)))
      = map param_str ?ps"
    using split_params_list[OF _ ok, of "[]"] by (simp add: segment_list[OF ok] split_challenge_params_def)
  have "apply_params (map param_str ?ps) empty_acc = Some
     \<lparr>ca_realm = Some (dc_realm ch), ca_nonce = Some (dc_nonce ch), ca_opaque = dc_opaque ch,
      ca_qop = dc_qop ch, ca_algorithm = dc_algorithm ch, ca_userhash = dc_userhash ch\<rparr>"
    using assms
    by (auto simp: challenge_params_def challenge_ok_def apply_param_values apply_param_qop empty_acc_def
        simp del: param_str.simps split: option.splits)
  then show ?thesis
    using split unfolding parse_www_authenticate_def render_challenge_def digest_scheme_first
    by (simp add: is_blank_def)
qed

section \<open>Percent encoding\<close>

fun aws_decode :: "str \<Rightarrow> str option" where
  "aws_decode [] = Some []"
| "aws_decode (c # cs) =
     (if c = CHR ''%'' then
        (case cs of
           a # b # r \<Rightarrow>
             (case (unhex_digit a, unhex_digit b, aws_decode r) of
                (Some x, Some y, Some s) \<Rightarrow> Some (char_of (16 * x + y) # s)
              | _ \<Rightarrow> None)
         | _ \<Rightarrow> None)
      else map_option (\<lambda>s. c # s) (aws_decode cs))"

lemma decode_byte: "aws_decode (CHR ''%'' # hex_byte_upper c @ s) = map_option (\<lambda>s. c # s) (aws_decode s)"
proof -
  have "unhex_digit (hex_digit_upper (of_char c div 16)) = Some (of_char c div 16)"
    "unhex_digit (hex_digit_upper (of_char c mod 16)) = Some (of_char c mod 16)"
    using of_char_digits[of c] by simp_all
  then show ?thesis
    by (simp add: hex_byte_upper_def char_digits split: option.split)
qed

lemma aws_decode_encode: "aws_decode (aws_encode s) = Some s"
proof (induction s)
  case (Cons c s)
  show ?case
  proof (cases "unreserved c")
    case True
    then have "c \<noteq> CHR ''%''" by (auto simp: unreserved_def is_alnum_def)
    with True Cons show ?thesis by (simp add: aws_encode_def)
  next
    case False
    with Cons decode_byte[of c "aws_encode s"] show ?thesis by (simp add: aws_encode_def)
  qed
qed (simp add: aws_encode_def)

lemma hex_upper_chars: "d < 16 \<Longrightarrow> is_alnum (hex_digit_upper d)"
  by (auto simp: hex_digit_upper_def is_alnum_def Let_def)

lemma aws_encode_chars: "c \<in> set (aws_encode s) \<Longrightarrow> unreserved c \<or> c = CHR ''%''"
proof -
  assume "c \<in> set (aws_encode s)"
  then have "\<exists>b. c \<in> set (if unreserved b then [b] else CHR ''%'' # hex_byte_upper b)"
    unfolding aws_encode_def set_concat set_map by blast
  then obtain b where b: "c \<in> set (if unreserved b then [b] else CHR ''%'' # hex_byte_upper b)" by blast
  have "is_alnum (hex_digit_upper (of_char b div 16))" "is_alnum (hex_digit_upper (of_char b mod 16))"
    using of_char_digits[of b] by (simp_all add: hex_upper_chars)
  with b show ?thesis by (auto simp: hex_byte_upper_def unreserved_def split: if_splits)
qed

lemma canonical_query_mset: "mset ps = mset qs \<Longrightarrow> canonical_query ps = canonical_query qs"
proof -
  assume "mset ps = mset qs"
  then have "sort qs = sort ps" by (intro properties_for_sort) (simp_all add: sorted_sort)
  then show ?thesis by (simp add: canonical_query_def)
qed

section \<open>The Digest header\<close>

definition digest_supported :: "digest_challenge \<Rightarrow> bool" where
  "digest_supported ch \<longleftrightarrow> to_ascii_uppercase (dc_algorithm ch) \<in> {''MD5'', ''MD5-SESS''}
     \<or> is_sha256 (to_ascii_uppercase (dc_algorithm ch))"

text \<open>The fields a Digest answer is made of.\<close>

definition digest_fields :: "crypto \<Rightarrow> digest_params \<Rightarrow> str list" where
  "digest_fields C p =
     (let ch = dp_challenge p in
      [''username='' @ quoted (if dc_userhash ch then digest_hash C ch (colons [dp_username p, dc_realm ch])
                               else dp_username p),
       ''realm='' @ quoted (dc_realm ch), ''nonce='' @ quoted (dc_nonce ch), ''uri='' @ quoted (dp_uri p),
       ''response='' @ quoted (digest_response C p)]
      @ (if to_ascii_uppercase (dc_algorithm ch) \<noteq> ''MD5'' then [''algorithm='' @ dc_algorithm ch] else [])
      @ (if uses_qop ch then [''cnonce='' @ quoted (dp_cnonce p)] else [])
      @ (case dc_opaque ch of Some v \<Rightarrow> [''opaque='' @ quoted v] | None \<Rightarrow> [])
      @ (if uses_qop ch then [''qop=auth'', ''nc='' @ hex08 (dp_nc p)] else []))"

lemma replace_none: "CHR '','' \<notin> set f \<Longrightarrow> replace_all '', opaque=,'' v f = f"
  using replace_all_skip[of "CHR '',''" f "'' opaque=,''" v "[]"] by simp

lemma join_fields: "x \<noteq> [] \<Longrightarrow> join '', '' (x @ y # ys) = join '', '' x @ '', '' @ join '', '' (y # ys)"
  by (induction x rule: induct_list012) auto

definition comma_free :: "str \<Rightarrow> bool" where
  "comma_free s \<longleftrightarrow> CHR '','' \<notin> set s"

lemma comma_free_quoted: "comma_free v \<Longrightarrow> CHR '','' \<notin> set (quoted v)"
  by (simp add: comma_free_def quoted_def)

text \<open>Deleting the empty \<open>opaque\<close> segment touches no other field.\<close>

lemma replace_fields:
  assumes "\<forall>f \<in> set fs. comma_free f \<and> f \<noteq> [] \<and> hd f \<noteq> CHR ''o''" "fs \<noteq> []"
  shows "replace_all '', opaque=,'' v (join '', '' fs @ s) = join '', '' fs @ replace_all '', opaque=,'' v s"
  using assms
proof (induction fs rule: induct_list012)
  case (2 x)
  then show ?case by (simp add: comma_free_def replace_all_skip)
next
  case (3 x y zs)
  have "\<not> prefix '', opaque=,'' (CHR '','' # CHR '' '' # join '', '' (y # zs) @ s)"
    using 3(3) by (cases y; cases zs) auto
  then have "replace_all '', opaque=,'' v (CHR '','' # CHR '' '' # join '', '' (y # zs) @ s)
      = CHR '','' # replace_all '', opaque=,'' v (CHR '' '' # join '', '' (y # zs) @ s)"
    by (rule replace_all_step)
  also have "replace_all '', opaque=,'' v (CHR '' '' # join '', '' (y # zs) @ s)
      = CHR '' '' # replace_all '', opaque=,'' v (join '', '' (y # zs) @ s)"
    by (rule replace_all_step) simp
  finally have "replace_all '', opaque=,'' v ('', '' @ join '', '' (y # zs) @ s)
      = '', '' @ join '', '' (y # zs) @ replace_all '', opaque=,'' v s"
    using 3(2,3) by simp
  then show ?case
    using 3(3) replace_all_skip[of "CHR '',''" x "'' opaque=,''" v "'', '' @ join '', '' (y # zs) @ s"]
    by (simp add: comma_free_def)
qed simp

lemma digest_header_fields:
  assumes "digest_supported (dp_challenge p)" "uses_qop (dp_challenge p) \<or> dc_qop (dp_challenge p) = []"
    and free: "\<forall>f \<in> set (digest_fields C p). comma_free f"
  shows "digest_authorization C p = Ok (''Digest '' @ join '', '' (digest_fields C p))"
proof -
  let ?ch = "dp_challenge p"
  have sup: "\<not> (to_ascii_uppercase (dc_algorithm ?ch) \<noteq> ''MD5'' \<and> to_ascii_uppercase (dc_algorithm ?ch) \<noteq> ''MD5-SESS''
      \<and> \<not> is_sha256 (to_ascii_uppercase (dc_algorithm ?ch)))"
    using assms(1) by (auto simp: digest_supported_def)
  have qop: "\<not> (\<not> uses_qop ?ch \<and> dc_qop ?ch \<noteq> [])" using assms(2) by auto
  show ?thesis
  proof (cases "uses_qop ?ch \<and> dc_opaque ?ch = None")
    case False
    then show ?thesis
      unfolding digest_authorization_def Let_def if_not_P[OF sup] if_not_P[OF qop] digest_fields_def
      by (auto split: option.splits)
  next
    case True
    define fs where "fs = take (length (digest_fields C p) - 2) (digest_fields C p)"
    have fields: "digest_fields C p = fs @ [''qop=auth'', ''nc='' @ hex08 (dp_nc p)]"
      using True by (simp add: fs_def digest_fields_def Let_def)
    have fs: "\<forall>f \<in> set fs. comma_free f \<and> f \<noteq> [] \<and> hd f \<noteq> CHR ''o''" "fs \<noteq> []"
      using free True unfolding fields by (auto simp: fs_def digest_fields_def Let_def)
    have tail: "replace_all '', opaque=,'' '','' ('', opaque=,'' @ '' qop=auth, nc='' @ hex08 (dp_nc p))
        = '','' @ '' qop=auth, nc='' @ hex08 (dp_nc p)"
    proof -
      have 1: "replace_all '', opaque=,'' '','' ('', opaque=,'' @ ('' qop=auth'' @ '', nc='' @ hex08 (dp_nc p)))
          = '','' @ replace_all '', opaque=,'' '','' ('' qop=auth'' @ '', nc='' @ hex08 (dp_nc p))"
        by (rule replace_all_here) simp
      have 2: "replace_all '', opaque=,'' '','' ('' qop=auth'' @ '', nc='' @ hex08 (dp_nc p))
          = '' qop=auth'' @ replace_all '', opaque=,'' '','' ('', nc='' @ hex08 (dp_nc p))"
        by (rule replace_all_skip) simp
      have 3: "replace_all '', opaque=,'' '','' (CHR '','' # '' nc='' @ hex08 (dp_nc p))
          = CHR '','' # replace_all '', opaque=,'' '','' ('' nc='' @ hex08 (dp_nc p))"
        by (rule replace_all_step) simp
      have 4: "replace_all '', opaque=,'' '','' ('' nc='' @ hex08 (dp_nc p)) = '' nc='' @ hex08 (dp_nc p)"
        using hex08_comma by (intro replace_none) simp
      from 1 2 3 4 show ?thesis by simp
    qed
    have "replace_all '', opaque=,'' '','' (''Digest '' @ join '', '' fs @ '', opaque=,'' @ '' qop=auth, nc='' @ hex08 (dp_nc p))
        = ''Digest '' @ join '', '' fs @ '','' @ '' qop=auth, nc='' @ hex08 (dp_nc p)"
      using replace_fields[OF fs, of "'',''" "'', opaque=,'' @ '' qop=auth, nc='' @ hex08 (dp_nc p)"] tail
        replace_all_skip[of "CHR '',''" "''Digest ''" "'' opaque=,''" "'',''"
          "join '', '' fs @ '', opaque=,'' @ '' qop=auth, nc='' @ hex08 (dp_nc p)"] by simp
    then show ?thesis
      using True
      unfolding digest_authorization_def Let_def if_not_P[OF sup] if_not_P[OF qop] fields join_fields[OF fs(2)]
      by (cases "to_ascii_uppercase (dc_algorithm ?ch) = ''MD5''") (simp_all add: fs_def digest_fields_def Let_def)
  qed
qed

section \<open>Properties\<close>

text \<open>
  C9: A Digest challenge with plain fields, written as a header (quoted realm, nonce, opaque and qop
  list, bare algorithm and userhash flag), is read back exactly, commas inside the quotes included.
  Plain means: realm, nonce and opaque hold no quote and no backslash, the qop tokens are lower
  case tokens, and the algorithm is a token. Outside this condition the fields may come back
  changed: the reader lowers the case of the qop tokens, and of the escapes of a quoted string it
  undoes only the one of the quote (\<open>escaped_backslash_kept\<close>).
\<close>

theorem challenge_roundtrip:
  assumes "challenge_ok ch"
  shows "parse_www_authenticate (render_challenge ch) = Some ch"
  by (rule parse_rendered[OF assms])

theorem challenge_roundtrip_witness:
  "parse_www_authenticate (render_challenge
     \<lparr>dc_realm = ''a, b'', dc_nonce = ''n1'', dc_opaque = None, dc_qop = [''auth'', ''auth-int''],
      dc_algorithm = ''SHA-256'', dc_userhash = False\<rparr>)
   = Some \<lparr>dc_realm = ''a, b'', dc_nonce = ''n1'', dc_opaque = None, dc_qop = [''auth'', ''auth-int''],
      dc_algorithm = ''SHA-256'', dc_userhash = False\<rparr>"
proof (rule challenge_roundtrip)
  have "to_ascii_lowercase ''auth'' = ''auth''" "to_ascii_lowercase ''auth-int'' = ''auth-int''"
    by code_simp+
  then show "challenge_ok \<lparr>dc_realm = ''a, b'', dc_nonce = ''n1'', dc_opaque = None,
      dc_qop = [''auth'', ''auth-int''], dc_algorithm = ''SHA-256'', dc_userhash = False\<rparr>"
    by (simp add: challenge_ok_def plain_def quote_def backslash_def wordy_def is_alnum_def)
qed

text \<open>
  The quoted string of two escaped characters, a backslash and a quote: the quote is unescaped, the
  backslash stays doubled.
\<close>

lemma escaped_backslash_kept:
  "map_option dc_realm (parse_www_authenticate
     (''Digest realm='' @ [quote, CHR ''a'', backslash, backslash, backslash, quote, CHR ''b'', quote] @ '', nonce=n''))
   = Some [CHR ''a'', backslash, backslash, quote, CHR ''b'']"
  by code_simp

text \<open>
  A Digest answer fails exactly for an algorithm outside MD5, MD5-sess and the SHA-256 names
  and for a qop list without auth; otherwise, with comma-free fields, it is the list of the
  answer's fields: the deletion of an absent opaque by text replacement damages no other field.
\<close>

theorem digest_outcome:
  assumes "\<forall>f \<in> set (digest_fields C p). comma_free f"
  shows "digest_authorization C p =
    (if \<not> digest_supported (dp_challenge p) then Err (UnsupportedAlgorithm (dc_algorithm (dp_challenge p)))
     else if dc_qop (dp_challenge p) \<noteq> [] \<and> ''auth'' \<notin> set (dc_qop (dp_challenge p)) then Err UnsupportedQop
     else Ok (''Digest '' @ join '', '' (digest_fields C p)))"
proof -
  have qop: "uses_qop (dp_challenge p) \<longleftrightarrow> ''auth'' \<in> set (dc_qop (dp_challenge p))"
    by (auto simp: uses_qop_def list_ex_iff)
  show ?thesis
    using digest_header_fields[OF _ _ assms] qop
    by (auto simp: digest_authorization_def digest_supported_def Let_def)
qed

definition demo_digest :: digest_params where
  "demo_digest = \<lparr>dp_username = ''bob'', dp_password = ''pw'', dp_method = ''get'', dp_uri = ''/x'',
     dp_challenge = \<lparr>dc_realm = ''r'', dc_nonce = ''n1'', dc_opaque = None, dc_qop = [''auth''],
       dc_algorithm = ''MD5'', dc_userhash = False\<rparr>, dp_nc = 1, dp_cnonce = ''c''\<rparr>"

theorem digest_outcome_witness:
  "digest_authorization demo_crypto demo_digest = Ok (''Digest '' @ join '', '' (digest_fields demo_crypto demo_digest))"
proof -
  have "list_all comma_free (digest_fields demo_crypto demo_digest)" by code_simp
  then have free: "\<forall>f \<in> set (digest_fields demo_crypto demo_digest). comma_free f"
    by (simp add: list_all_iff)
  have sup: "digest_supported (dp_challenge demo_digest)" by code_simp
  show ?thesis
    using digest_outcome[OF free] sup by (simp add: demo_digest_def)
qed

text \<open>
  A challenge with algorithm SHA-256-sess is accepted, but answered with the session-less
  hash of user, realm and password: the response is the one of plain SHA-256, while the header
  names SHA-256-sess, so a server that follows the algorithm rejects it.
\<close>

theorem sha256_sess_without_session:
  assumes "dc_algorithm (dp_challenge p) = ''SHA-256-sess''"
  shows "digest_supported (dp_challenge p)
    \<and> digest_response C p =
        digest_response C (p\<lparr>dp_challenge := (dp_challenge p)\<lparr>dc_algorithm := ''SHA-256''\<rparr>\<rparr>)
    \<and> ''algorithm=SHA-256-sess'' \<in> set (digest_fields C p)"
proof -
  have "to_ascii_uppercase ''SHA-256-sess'' = ''SHA-256-SESS''" "to_ascii_uppercase ''SHA-256'' = ''SHA-256''"
    by code_simp+
  moreover have "is_sha256 ''SHA-256-SESS''" "is_sha256 ''SHA-256''"
    by (simp_all add: is_sha256_def starts_with_def)
  ultimately show ?thesis
    using assms
    by (simp add: digest_supported_def digest_response_def digest_ha1_def digest_hash_def uses_qop_def
        digest_fields_def Let_def)
qed

theorem sha256_sess_without_session_witness:
  "digest_supported ((dp_challenge demo_digest)\<lparr>dc_algorithm := ''SHA-256-sess''\<rparr>)"
  using sha256_sess_without_session[of "demo_digest\<lparr>dp_challenge := (dp_challenge demo_digest)\<lparr>dc_algorithm := ''SHA-256-sess''\<rparr>\<rparr>"]
  by simp

text \<open>
  The percent encoding of AWS signatures loses nothing and writes only unreserved characters
  and percent signs, and the order in which a URL lists its query pairs does not change the
  signature.
\<close>

theorem aws_canonical_query:
  assumes "parse u = Inr parts" "parse u' = Inr (parts\<lparr>ur_query_pairs := pairs\<rparr>)"
    and "mset pairs = mset (ur_query_pairs parts)"
  shows "sign_aws_v4 C parse (p\<lparr>aw_url := u'\<rparr>) = sign_aws_v4 C parse (p\<lparr>aw_url := u\<rparr>)
    \<and> aws_decode (aws_encode s) = Some s
    \<and> list_all (\<lambda>c. unreserved c \<or> c = CHR ''%'') (aws_encode s)"
proof -
  have "canonical_request (p\<lparr>aw_url := u'\<rparr>) (parts\<lparr>ur_query_pairs := pairs\<rparr>) hh token
      = canonical_request (p\<lparr>aw_url := u\<rparr>) parts hh token" for hh token
    using canonical_query_mset[OF assms(3)] by (simp add: canonical_request_def)
  then have "sign_aws_v4 C parse (p\<lparr>aw_url := u'\<rparr>) = sign_aws_v4 C parse (p\<lparr>aw_url := u\<rparr>)"
    using assms by (simp add: sign_aws_v4_def split: option.split)
  then show ?thesis
    using aws_encode_chars[of _ s] by (simp add: aws_decode_encode list_all_iff)
qed

definition demo_parts :: url_parts where
  "demo_parts = \<lparr>ur_host = Some ''h'', ur_port = None, ur_known_port = Some 80, ur_path = ''/'',
     ur_query = None, ur_query_pairs = [(''b'', ''2''), (''a'', ''1'')]\<rparr>"

definition demo_aws :: aws_params where
  "demo_aws = \<lparr>aw_access_key = ''AK'', aw_secret_key = ''SK'', aw_session_token = None, aw_region = ''r'',
     aw_service = ''s'', aw_method = ''GET'', aw_url = ''1'', aw_payload_hash = [], aw_amz_date = ''20150830T123600Z''\<rparr>"

theorem aws_canonical_query_witness:
  "sign_aws_v4 demo_crypto (\<lambda>u. if u = ''1'' then Inr demo_parts
       else Inr (demo_parts\<lparr>ur_query_pairs := [(''a'', ''1''), (''b'', ''2'')]\<rparr>)) (demo_aws\<lparr>aw_url := ''2''\<rparr>)
   = sign_aws_v4 demo_crypto (\<lambda>u. if u = ''1'' then Inr demo_parts
       else Inr (demo_parts\<lparr>ur_query_pairs := [(''a'', ''1''), (''b'', ''2'')]\<rparr>)) (demo_aws\<lparr>aw_url := ''1''\<rparr>)"
  using aws_canonical_query[of "\<lambda>u. if u = ''1'' then Inr demo_parts
       else Inr (demo_parts\<lparr>ur_query_pairs := [(''a'', ''1''), (''b'', ''2'')]\<rparr>)" "''1''" demo_parts "''2''"
      "[(''a'', ''1''), (''b'', ''2'')]"]
  by (simp add: demo_parts_def)

end
