(* ===== verification/HttpClient.thy ===== *)
theory HttpClient
  imports HttpTypes Signature Sign Variable
begin

text \<open>
  The HTTP client, \<open>crates/fox-http/src/client.rs\<close>: the payload and header construction, the
  authentication schemes, the send loop with its single Digest retry, and the capped reading of
  the body. What lies outside the source is a field of \<open>http_env\<close>: URL parsing and printing, the
  file system, the form and JSON encoders, the clock and nonces, the OAuth token source. The
  network is \<open>exchange\<close>, the answer to each request the client puts on the wire.
\<close>

definition DEFAULT_TIMEOUT_MS :: u64 where "DEFAULT_TIMEOUT_MS = 300000"
definition MAX_BODY_BYTES :: nat where "MAX_BODY_BYTES = 20 * 1024 * 1024"

datatype form_part = TextPart str str | FilePart str str str

record 'u http_env =
  he_crypto :: crypto
  he_rules :: http_rules
  he_sign_parse :: "str \<Rightarrow> (str, url_parts) result"
  he_parse :: "str \<Rightarrow> (str, 'u) result"
  he_append_pair :: "str \<Rightarrow> str \<Rightarrow> 'u \<Rightarrow> 'u"
  he_url_str :: "'u \<Rightarrow> str"
  he_url_path :: "'u \<Rightarrow> str"
  he_url_query :: "'u \<Rightarrow> str option"
  he_open :: "str \<Rightarrow> (str, str) result"
  he_file_len :: "str \<Rightarrow> u64 option"
  he_file_name :: "str \<Rightarrow> str option"
  he_form :: "form_part list \<Rightarrow> str \<times> str"
  he_urlencoded :: "(str \<times> str) list \<Rightarrow> str option"
  he_json_parse :: "str \<Rightarrow> (str, json) result"
  he_json_print :: "json \<Rightarrow> str"
  he_world :: world
  he_oauth :: "auth_spec \<Rightarrow> (str, str) result"
  he_now :: datetime
  he_nonce :: "nat \<Rightarrow> str"
  he_amz_date :: str

record cookie_data =
  cd_name :: str
  cd_value :: str

record http_response_data =
  hd_status :: u16
  hd_headers :: "(str \<times> str) list"
  hd_body :: str
  hd_size_bytes :: nat
  hd_cookies :: "cookie_data list"
  hd_truncated :: bool

definition content_type_of :: "http_response_data \<Rightarrow> str" where
  "content_type_of r =
     (case find (\<lambda>(k, v). eq_ignore_ascii_case k ''content-type'') (hd_headers r) of
        Some (k, v) \<Rightarrow> v | None \<Rightarrow> [])"

section \<open>Query and payload\<close>

definition append_query :: "'u http_env \<Rightarrow> key_value list \<Rightarrow> 'u \<Rightarrow> 'u" where
  "append_query E params url =
     fold (\<lambda>kv u. if \<not> kv_enabled kv then u
                  else if trim (kv_key kv) = [] then u
                  else he_append_pair E (trim (kv_key kv)) (kv_value kv) u) params url"

datatype payload =
    P_None
  | P_Bytes str "str option"
  | P_Stream str "str option" "u64 option"

definition upload_file_name :: "'u http_env \<Rightarrow> str \<Rightarrow> str" where
  "upload_file_name E path =
     (case he_file_name E path of Some n \<Rightarrow> if n \<noteq> [] then n else ''upload'' | None \<Rightarrow> ''upload'')"

fun multipart_parts :: "'u http_env \<Rightarrow> multipart_field list \<Rightarrow> (app_error, form_part list) result" where
  "multipart_parts E [] = Ok []"
| "multipart_parts E (f # fs) =
     (if \<not> mf_enabled f then multipart_parts E fs
      else if trim (mf_key f) = [] then multipart_parts E fs
      else
        (case mf_value_type f of
           MV_Text \<Rightarrow> and_then (multipart_parts E fs) (\<lambda>ps. Ok (TextPart (trim (mf_key f)) (mf_value f) # ps))
         | MV_FilePath \<Rightarrow>
             (case he_open E (mf_value f) of
                Inl e \<Rightarrow> Err (Validation (Msg ''reading the file failed'' [mf_value f, e]))
              | Inr content \<Rightarrow>
                  and_then (multipart_parts E fs)
                    (\<lambda>ps. Ok (FilePart (trim (mf_key f)) (upload_file_name E (mf_value f)) content # ps)))))"

definition build_multipart :: "'u http_env \<Rightarrow> multipart_field list \<Rightarrow> (app_error, payload) result" where
  "build_multipart E fs =
     and_then (multipart_parts E fs)
       (\<lambda>ps. let (boundary, body) = he_form E ps
             in Ok (P_Stream body (Some (''multipart/form-data; boundary='' @ boundary)) None))"

definition graphql_request_json ::
  "'u http_env \<Rightarrow> graphql_spec \<Rightarrow> variable_map \<Rightarrow> seq_state \<Rightarrow> (app_error, str) result \<times> seq_state" where
  "graphql_request_json E spec vars st0 =
     (let (query, st1) = resolve_variables (he_world E) (gq_query spec) vars st0;
          (variables, st2) = resolve_variables (he_world E) (gq_variables spec) vars st1;
          (operation, st) = resolve_variables (he_world E) (gq_operation_name spec) vars st2;
          trimmed = trim variables;
          with_vars =
            (if trimmed \<noteq> [] \<and> trimmed \<noteq> ''{}'' then
               (case he_json_parse E trimmed of
                  Inr (JObject kvs) \<Rightarrow> Ok [(''variables'', JObject kvs)]
                | Inr _ \<Rightarrow> Err (Validation (Msg ''GraphQL variables must be a JSON object'' []))
                | Inl e \<Rightarrow> Err (Validation (Msg ''GraphQL variables are not valid JSON'' [e])))
             else Ok [])
      in (and_then with_vars
            (\<lambda>vs. Ok (he_json_print E (JObject ((''query'', JString query) # vs
                    @ (if trim operation \<noteq> [] then [(''operationName'', JString operation)] else []))))), st))"

definition build_payload ::
  "'u http_env \<Rightarrow> request_spec \<Rightarrow> seq_state \<Rightarrow> (app_error, payload) result \<times> seq_state" where
  "build_payload E spec st =
     (case rs_body spec of
        Body_Grpc g \<Rightarrow> (Ok P_None, st)
      | Body_None \<Rightarrow> (Ok P_None, st)
      | Body_Json content \<Rightarrow> (Ok (P_Bytes content (Some ''application/json'')), st)
      | Body_Text content \<Rightarrow> (Ok (P_Bytes content (Some ''text/plain'')), st)
      | UrlEncoded kvs \<Rightarrow>
          let pairs = map (\<lambda>kv. (kv_key kv, kv_value kv)) (filter kv_enabled kvs);
              body = (case he_urlencoded E pairs of Some b \<Rightarrow> b | None \<Rightarrow> [])
          in (Ok (P_Bytes body (Some ''application/x-www-form-urlencoded'')), st)
      | Multipart fs \<Rightarrow> (build_multipart E fs, st)
      | GraphQL g \<Rightarrow>
          let (r, st') = graphql_request_json E g Map.empty st
          in (and_then r (\<lambda>b. Ok (P_Bytes b (Some ''application/json''))), st')
      | Binary path \<Rightarrow>
          ((case he_open E path of
              Inl e \<Rightarrow> Err (Validation (Msg ''reading the file failed'' [path, e]))
            | Inr content \<Rightarrow>
                let len = (case he_file_len E path of Some n \<Rightarrow> n | None \<Rightarrow> 0)
                in Ok (P_Stream content (Some ''application/octet-stream'') (if 0 < len then Some len else None))),
           st))"

section \<open>GraphQL responses\<close>

definition graphql_location :: "json \<Rightarrow> graphql_error_location option" where
  "graphql_location loc =
     (case (Option.bind (json_get ''line'' loc) as_u64, Option.bind (json_get ''column'' loc) as_u64) of
        (Some l, Some c) \<Rightarrow> Some \<lparr>gl_line = l, gl_column = c\<rparr>
      | _ \<Rightarrow> None)"

definition graphql_error_of :: "json \<Rightarrow> graphql_error option" where
  "graphql_error_of entry =
     (case Option.bind (json_get ''message'' entry) as_str_json of
        None \<Rightarrow> None
      | Some m \<Rightarrow> Some \<lparr>ge_message = m,
          ge_locations = map_option (List.map_filter graphql_location)
                           (Option.bind (json_get ''locations'' entry) as_array),
          ge_path = Option.bind (json_get ''path'' entry) as_array\<rparr>)"

definition parse_graphql_response :: "'u http_env \<Rightarrow> str \<Rightarrow> (app_error, graphql_response) result" where
  "parse_graphql_response E body =
     (case he_json_parse E body of
        Inl e \<Rightarrow> Err (Validation (Msg ''the GraphQL response is not valid JSON'' [e]))
      | Inr v \<Rightarrow> Ok \<lparr>gp_data = json_get ''data'' v,
          gp_errors = (case Option.bind (json_get ''errors'' v) as_array of
                         Some arr \<Rightarrow> List.map_filter graphql_error_of arr | None \<Rightarrow> [])\<rparr>)"

section \<open>Headers and authentication\<close>

definition has_header :: "(str \<times> str) list \<Rightarrow> str \<Rightarrow> bool" where
  "has_header headers name = list_ex (\<lambda>(k, v). eq_ignore_ascii_case (trim k) name) headers"

record 'u auth_sign_ctx =
  sx_method :: http_method
  sx_url :: 'u
  sx_payload_hash :: str
  sx_body :: "(str \<times> str) option"

definition path_and_query :: "'u http_env \<Rightarrow> 'u \<Rightarrow> str" where
  "path_and_query E u =
     he_url_path E u @ (case he_url_query E u of Some q \<Rightarrow> ''?'' @ q | None \<Rightarrow> [])"

definition show_sign_error :: "sign_error \<Rightarrow> str list" where
  "show_sign_error e =
     (case e of InvalidUrl u \<Rightarrow> [''invalid URL'', u] | BadChallenge \<Rightarrow> [''bad challenge'']
      | UnsupportedAlgorithm a \<Rightarrow> [''unsupported algorithm'', a] | UnsupportedQop \<Rightarrow> [''unsupported qop'']
      | MissingField f \<Rightarrow> [''missing field'', f])"

definition unix_secs :: "datetime \<Rightarrow> u64" where
  "unix_secs now = (if now < 0 then 0 else of_int (now div 1000000000))"

text \<open>The result is the header list and the extra query parameters.\<close>

definition apply_auth ::
  "'u http_env \<Rightarrow> auth_spec \<Rightarrow> 'u auth_sign_ctx \<Rightarrow> (str \<times> str) list \<Rightarrow> key_value list
     \<Rightarrow> (app_error, (str \<times> str) list \<times> key_value list) result" where
  "apply_auth E auth ctx headers query =
     (case auth of
        Auth_None \<Rightarrow> Ok (headers, query)
      | Bearer token \<Rightarrow>
          Ok (if token \<noteq> [] then headers @ [(''Authorization'', ''Bearer '' @ token)] else headers, query)
      | Basic username password \<Rightarrow>
          Ok (headers @ [(''Authorization'', ''Basic '' @ c_base64 (he_crypto E) (username @ '':'' @ password))], query)
      | ApiKey key v location \<Rightarrow>
          if key = [] then Ok (headers, query)
          else (case location of
                  Loc_Header \<Rightarrow> Ok (headers @ [(key, v)], query)
                | Loc_Query \<Rightarrow> Ok (headers, query @ [new_kv key v]))
      | OAuth2 _ _ _ _ _ _ _ \<Rightarrow>
          (case he_oauth E auth of
             Inl e \<Rightarrow> Err (OAuth2_Error (Msg e []))
           | Inr access \<Rightarrow> Ok (headers @ [(''Authorization'', ''Bearer '' @ access)], query))
      | Digest _ _ \<Rightarrow> Ok (headers, query)
      | Hawk key_id key \<Rightarrow>
          (case hawk_authorization (he_crypto E) (he_sign_parse E)
                  \<lparr>hk_id = key_id, hk_key = key, hk_method = method_as_str (sx_method ctx),
                   hk_url = he_url_str E (sx_url ctx), hk_body = sx_body ctx,
                   hk_ts = unix_secs (he_now E), hk_nonce = he_nonce E 0\<rparr> of
             Inl e \<Rightarrow> Err (Validation (Msg ''Hawk signing failed'' (show_sign_error e)))
           | Inr h \<Rightarrow> Ok (headers @ [(''Authorization'', h)], query))
      | AwsV4 access_key secret_key region service session_token \<Rightarrow>
          (case sign_aws_v4 (he_crypto E) (he_sign_parse E)
                  \<lparr>aw_access_key = access_key, aw_secret_key = secret_key, aw_session_token = session_token,
                   aw_region = region, aw_service = service, aw_method = method_as_str (sx_method ctx),
                   aw_url = he_url_str E (sx_url ctx), aw_payload_hash = sx_payload_hash ctx,
                   aw_amz_date = he_amz_date E\<rparr> of
             Inl e \<Rightarrow> Err (Validation (Msg ''AWS SigV4 signing failed'' (show_sign_error e)))
           | Inr (authorization, date) \<Rightarrow>
               Ok (headers @ [(''x-amz-date'', date)]
                   @ (case session_token of Some t \<Rightarrow> if trim t \<noteq> [] then [(''x-amz-security-token'', t)] else []
                                          | None \<Rightarrow> [])
                   @ [(''Authorization'', authorization)], query))
      | Hmac access_key secret_key \<Rightarrow>
          (case aksk_headers (he_crypto E)
                  \<lparr>ak_access_key = access_key, ak_secret_key = secret_key,
                   ak_method = method_as_str (sx_method ctx), ak_path_query = path_and_query E (sx_url ctx),
                   ak_timestamp = show_int (he_now E div 1000000000), ak_nonce = he_nonce E 0\<rparr> of
             Inl e \<Rightarrow> Err (Validation (Msg ''HMAC signing failed'' (show_sign_error e)))
           | Inr (signature_headers, _) \<Rightarrow> Ok (headers @ signature_headers, query))
      | DynamicSignature config \<Rightarrow>
          (case apply_signature (he_crypto E) (he_now E) headers config of
             Inl e \<Rightarrow> Err e
           | Inr hs \<Rightarrow> Ok (hs, query)))"

section \<open>The wire\<close>

record 'u wire_request =
  wq_method :: http_method
  wq_url :: 'u
  wq_timeout_ms :: u64
  wq_headers :: "(str \<times> str) list"
  wq_body :: "str option"

record wire_response =
  ws_status :: u16
  ws_headers :: header_map
  ws_chunks :: "(reqwest_error, str) result list"

definition visible_or_empty :: "http_rules \<Rightarrow> str \<Rightarrow> str" where
  "visible_or_empty R v = (if hr_visible R v then v else [])"

definition digest_retry_header ::
  "'u http_env \<Rightarrow> wire_response \<Rightarrow> auth_spec \<Rightarrow> http_method \<Rightarrow> 'u \<Rightarrow> str option" where
  "digest_retry_header E resp auth meth url =
     (if ws_status resp \<noteq> 401 then None
      else
        (case auth of
           Digest username password \<Rightarrow>
             (case List.map_filter parse_www_authenticate
                     (filter (hr_visible (he_rules E)) (header_get_all (ws_headers resp) ''www-authenticate'')) of
                [] \<Rightarrow> None
              | challenge # _ \<Rightarrow>
                  (case digest_authorization (he_crypto E)
                          \<lparr>dp_username = username, dp_password = password, dp_method = method_as_str meth,
                           dp_uri = path_and_query E url, dp_challenge = challenge, dp_nc = 1,
                           dp_cnonce = he_nonce E 1\<rparr> of
                     Inr h \<Rightarrow> Some h | Inl _ \<Rightarrow> None))
         | _ \<Rightarrow> None))"

definition wire_headers :: "(str \<times> str) list \<Rightarrow> str option \<Rightarrow> payload \<Rightarrow> (str \<times> str) list" where
  "wire_headers headers authz payload =
     filter (\<lambda>(k, v). k \<noteq> []) headers
     @ (case authz of Some a \<Rightarrow> [(''Authorization'', a)] | None \<Rightarrow> [])
     @ (let ct = (\<lambda>content_type. case content_type of
                    Some ct \<Rightarrow> if has_header headers ''content-type'' then [] else [(''content-type'', ct)]
                  | None \<Rightarrow> [])
        in case payload of
             P_None \<Rightarrow> []
           | P_Bytes body content_type \<Rightarrow> ct content_type
           | P_Stream body content_type content_length \<Rightarrow> ct content_type
               @ (case content_length of
                    Some len \<Rightarrow> if has_header headers ''content-length'' then []
                                else [(''content-length'', show_nat (unat len))]
                  | None \<Rightarrow> []))"

fun payload_body :: "payload \<Rightarrow> str option" where
  "payload_body P_None = None"
| "payload_body (P_Bytes b _) = Some b"
| "payload_body (P_Stream b _ _) = Some b"

section \<open>The send loop\<close>

text \<open>
  A run of the client against a network. \<open>exchange n q\<close> answers the n-th request on the wire,
  \<open>cancel_wins n\<close> tells whether the user's cancellation beats that answer, \<open>cancelled_at k\<close>
  whether the token is set when the k-th chunk arrives. The outcome carries the requests sent.
\<close>

record 'u network =
  nw_exchange :: "nat \<Rightarrow> 'u wire_request \<Rightarrow> (reqwest_error, wire_response) result"
  nw_cancel_wins :: "nat \<Rightarrow> bool"
  nw_cancelled_at :: "nat \<Rightarrow> bool"

definition aborted :: app_error where
  "aborted = Cancelled (Msg ''request aborted by user'' [])"

definition read_step :: "nat \<Rightarrow> str \<Rightarrow> str \<Rightarrow> str \<times> bool" where
  "read_step cap body chunk =
     (if cap < length body + length chunk then (body @ take (cap - length body) chunk, True)
      else (body @ chunk, False))"

fun read_body ::
  "(nat \<Rightarrow> bool) \<Rightarrow> nat \<Rightarrow> nat \<Rightarrow> str \<Rightarrow> (reqwest_error, str) result list \<Rightarrow> (app_error, str \<times> bool) result" where
  "read_body cancelled_at cap k body [] = Ok (body, False)"
| "read_body cancelled_at cap k body (c # cs) =
     (if cancelled_at k then Err aborted
      else
        (case c of
           Inl e \<Rightarrow> Err (from_reqwest e)
         | Inr chunk \<Rightarrow>
             (case read_step cap body chunk of
                (b, True) \<Rightarrow> Ok (b, True)
              | (b, False) \<Rightarrow> read_body cancelled_at cap (Suc k) b cs)))"

definition response_cookie :: "http_rules \<Rightarrow> str \<Rightarrow> cookie_data option" where
  "response_cookie R v =
     map_option (\<lambda>(n, x). \<lparr>cd_name = n, cd_value = x\<rparr>)
       (split_once ''='' (trim (hd (split_on CHR '';'' (visible_or_empty R v)))))"

function send_loop ::
  "'u http_env \<Rightarrow> 'u network \<Rightarrow> request_spec \<Rightarrow> http_method \<Rightarrow> u64 \<Rightarrow> 'u \<Rightarrow> (str \<times> str) list
     \<Rightarrow> str option \<Rightarrow> payload option \<Rightarrow> seq_state \<Rightarrow> (app_error, wire_response) result \<times> 'u wire_request list \<times> seq_state" where
  "send_loop E N spec meth timeout url headers digest_authz pending st =
     (let round = (if digest_authz = None then 0 else 1);
          (payload_r, st1) = (case pending of Some p \<Rightarrow> (Ok p, st) | None \<Rightarrow> build_payload E spec st)
      in case payload_r of
           Inl e \<Rightarrow> (Err e, [], st1)
         | Inr payload \<Rightarrow>
             let req = \<lparr>wq_method = meth, wq_url = url, wq_timeout_ms = timeout,
                        wq_headers = wire_headers headers digest_authz payload,
                        wq_body = payload_body payload\<rparr>
             in if nw_cancel_wins N round then (Err aborted, [req], st1)
                else
                  (case nw_exchange N round req of
                     Inl e \<Rightarrow> (Err (from_reqwest e), [req], st1)
                   | Inr one \<Rightarrow>
                       (case digest_authz of
                          Some _ \<Rightarrow> (Ok one, [req], st1)
                        | None \<Rightarrow>
                            (case digest_retry_header E one (rs_auth spec) meth url of
                               None \<Rightarrow> (Ok one, [req], st1)
                             | Some authz \<Rightarrow>
                                 let (r, reqs, st2) = send_loop E N spec meth timeout url headers (Some authz) None st1
                                 in (r, req # reqs, st2)))))"
  by pat_completeness auto
termination
  by (relation "measure (\<lambda>(E, N, spec, meth, timeout, url, headers, digest_authz, pending, st).
        if digest_authz = None then 1 else 0)") auto

declare send_loop.simps [simp del]

definition payload_digest :: "'u http_env \<Rightarrow> payload \<Rightarrow> str \<times> (str \<times> str) option" where
  "payload_digest E payload =
     (case payload of
        P_None \<Rightarrow> (sha256_hex (he_crypto E) [], None)
      | P_Bytes body content_type \<Rightarrow>
          (sha256_hex (he_crypto E) body,
           Some (case content_type of Some ct \<Rightarrow> ct | None \<Rightarrow> ''application/octet-stream'', body))
      | P_Stream _ _ _ \<Rightarrow> (''UNSIGNED-PAYLOAD'', None))"

definition finish_response ::
  "'u http_env \<Rightarrow> 'u network \<Rightarrow> nat \<Rightarrow> wire_response \<Rightarrow> (app_error, http_response_data) result" where
  "finish_response E N cap resp =
     and_then (read_body (nw_cancelled_at N) cap 0 [] (ws_chunks resp))
       (\<lambda>(body, truncated).
          Ok \<lparr>hd_status = ws_status resp,
              hd_headers = map (\<lambda>(k, v). (k, visible_or_empty (he_rules E) v)) (ws_headers resp),
              hd_body = body, hd_size_bytes = length body,
              hd_cookies = List.map_filter (response_cookie (he_rules E)) (header_get_all (ws_headers resp) ''set-cookie''),
              hd_truncated = truncated\<rparr>)"

definition send_request_inner ::
  "'u http_env \<Rightarrow> 'u network \<Rightarrow> http_method \<Rightarrow> str \<Rightarrow> request_spec \<Rightarrow> u64 option \<Rightarrow> nat \<Rightarrow> seq_state
     \<Rightarrow> (app_error, http_response_data) result \<times> 'u wire_request list \<times> seq_state" where
  "send_request_inner E N meth url spec timeout_ms body_cap st =
     (if is_grpc meth then (Err (Validation (Msg ''gRPC endpoints are not sent over HTTP'' [])), [], st)
      else
        (let timeout = (case timeout_ms of Some t \<Rightarrow> t | None \<Rightarrow> DEFAULT_TIMEOUT_MS) in
         case he_parse E url of
           Inl e \<Rightarrow> (Err (Validation (Msg ''invalid URL'' [e])), [], st)
         | Inr u0 \<Rightarrow>
             let u1 = append_query E (rs_params spec) u0;
                 (payload_r, st1) = build_payload E spec st
             in case payload_r of
                  Inl e \<Rightarrow> (Err e, [], st1)
                | Inr payload \<Rightarrow>
                    let (payload_hash, hawk_body) = payload_digest E payload;
                        headers = map (\<lambda>kv. (trim (kv_key kv), kv_value kv)) (filter kv_enabled (rs_headers spec));
                        ctx = \<lparr>sx_method = meth, sx_url = u1, sx_payload_hash = payload_hash, sx_body = hawk_body\<rparr>
                    in case apply_auth E (rs_auth spec) ctx headers [] of
                         Inl e \<Rightarrow> (Err e, [], st1)
                       | Inr (headers', query_extra) \<Rightarrow>
                           let u2 = append_query E query_extra u1;
                               (r, reqs, st2) = send_loop E N spec meth timeout u2 headers' None (Some payload) st1
                           in (and_then r (finish_response E N body_cap), reqs, st2)))"

definition send_request ::
  "'u http_env \<Rightarrow> 'u network \<Rightarrow> http_method \<Rightarrow> str \<Rightarrow> request_spec \<Rightarrow> u64 option \<Rightarrow> seq_state
     \<Rightarrow> (app_error, http_response_data) result \<times> 'u wire_request list \<times> seq_state" where
  "send_request E N meth url spec timeout_ms st =
     send_request_inner E (N\<lparr>nw_cancel_wins := \<lambda>n. False, nw_cancelled_at := \<lambda>n. False\<rparr>)
       meth url spec timeout_ms MAX_BODY_BYTES st"

definition send_request_capped ::
  "'u http_env \<Rightarrow> 'u network \<Rightarrow> http_method \<Rightarrow> str \<Rightarrow> request_spec \<Rightarrow> u64 option \<Rightarrow> nat \<Rightarrow> seq_state
     \<Rightarrow> (app_error, http_response_data) result \<times> 'u wire_request list \<times> seq_state" where
  "send_request_capped E N meth url spec timeout_ms cap st =
     send_request_inner E N meth url spec timeout_ms (max cap 1024) st"

definition send_request_cancel ::
  "'u http_env \<Rightarrow> 'u network \<Rightarrow> http_method \<Rightarrow> str \<Rightarrow> request_spec \<Rightarrow> u64 option \<Rightarrow> seq_state
     \<Rightarrow> (app_error, http_response_data) result \<times> 'u wire_request list \<times> seq_state" where
  "send_request_cancel E N meth url spec timeout_ms st =
     send_request_inner E N meth url spec timeout_ms MAX_BODY_BYTES st"

definition describe_http_error :: "reqwest_error \<Rightarrow> msg" where
  "describe_http_error e =
     (case classify e of Some err \<Rightarrow> user_message err
      | None \<Rightarrow> Msg ''request failed: the server returned no valid response'' [])"

section \<open>Reading the body\<close>

lemma read_body_ok:
  assumes "length body \<le> cap"
  shows "read_body (\<lambda>k. False) cap k body (map Inr chunks)
    = Ok (take cap (body @ concat chunks), cap < length (body @ concat chunks))"
  using assms
proof (induction chunks arbitrary: k body)
  case (Cons c cs)
  show ?case
  proof (cases "cap < length body + length c")
    case True
    then show ?thesis using Cons.prems by (simp add: read_step_def)
  next
    case False
    with Cons.IH[of "body @ c" "Suc k"] Cons.prems show ?thesis by (simp add: read_step_def)
  qed
qed simp

lemma read_body_le: "read_body ca cap k body cs = Ok (b, t) \<Longrightarrow> length body \<le> cap \<Longrightarrow> length b \<le> cap"
proof (induction ca cap k body cs rule: read_body.induct)
  case (2 ca cap k body c cs)
  then show ?case
    by (auto simp: read_step_def split: if_splits sum.splits)
qed simp

section \<open>The requests on the wire\<close>

lemma retry_digest: "digest_retry_header E resp auth meth url = Some a \<Longrightarrow>
    ws_status resp = 401 \<and> (\<exists>u p. auth = Digest u p)"
  by (auto simp: digest_retry_header_def split: if_splits auth_spec.splits)

definition loop_request ::
  "http_method \<Rightarrow> u64 \<Rightarrow> 'u \<Rightarrow> (str \<times> str) list \<Rightarrow> str option \<Rightarrow> payload \<Rightarrow> 'u wire_request" where
  "loop_request meth timeout url headers authz payload =
     \<lparr>wq_method = meth, wq_url = url, wq_timeout_ms = timeout,
      wq_headers = wire_headers headers authz payload, wq_body = payload_body payload\<rparr>"

lemma send_loop_second:
  assumes "send_loop E N spec meth timeout url headers (Some a) None st = (r, reqs, st')"
  shows "reqs = [] \<or> (\<exists>p st2. build_payload E spec st = (Ok p, st2)
    \<and> reqs = [loop_request meth timeout url headers (Some a) p])"
  using assms
  by (auto simp: send_loop.simps[of E N spec meth timeout url headers "Some a"] Let_def loop_request_def
      split: prod.splits sum.splits if_splits)

lemma send_loop_requests:
  assumes "send_loop E N spec meth timeout url headers None (Some payload) st = (r, reqs, st')"
  shows "reqs = [loop_request meth timeout url headers None payload] \<or>
      (\<exists>one a p2 st2. reqs = [loop_request meth timeout url headers None payload, loop_request meth timeout url headers (Some a) p2]
         \<and> nw_exchange N 0 (loop_request meth timeout url headers None payload) = Inr one
         \<and> digest_retry_header E one (rs_auth spec) meth url = Some a
         \<and> build_payload E spec st = (Ok p2, st2))"
proof -
  let ?q1 = "loop_request meth timeout url headers None payload"
  note unfold = send_loop.simps[of E N spec meth timeout url headers None "Some payload" st]
  show ?thesis
  proof (cases "nw_cancel_wins N 0")
    case True
    then show ?thesis using assms by (simp add: unfold Let_def loop_request_def)
  next
    case False
    show ?thesis
    proof (cases "nw_exchange N 0 ?q1")
      case (Inl e)
      then show ?thesis using assms False by (simp add: unfold Let_def flip: loop_request_def)
    next
      case (Inr one)
      show ?thesis
      proof (cases "digest_retry_header E one (rs_auth spec) meth url")
        case None
        then show ?thesis using assms False Inr by (simp add: unfold Let_def flip: loop_request_def)
      next
        case (Some a)
        obtain r2 reqs2 st2 where
          second: "send_loop E N spec meth timeout url headers (Some a) None st = (r2, reqs2, st2)"
          by (cases "send_loop E N spec meth timeout url headers (Some a) None st")
        then have "reqs = ?q1 # reqs2" using assms False Inr Some by (simp add: unfold Let_def flip: loop_request_def)
        with send_loop_second[OF second] Inr Some show ?thesis by blast
      qed
    qed
  qed
qed

text \<open>
  The headers a request is configured with, and the names and values under \<open>Authorization\<close> among
  the headers of a request on the wire.
\<close>

definition configured_headers :: "request_spec \<Rightarrow> (str \<times> str) list" where
  "configured_headers spec = map (\<lambda>kv. (trim (kv_key kv), kv_value kv)) (filter kv_enabled (rs_headers spec))"

definition authorizations :: "(str \<times> str) list \<Rightarrow> (str \<times> str) list" where
  "authorizations = filter (\<lambda>(k, v). k = ''Authorization'')"

lemma authorizations_wire:
  "authorizations (wire_headers headers authz payload)
    = authorizations headers @ (case authz of Some a \<Rightarrow> [(''Authorization'', a)] | None \<Rightarrow> [])"
  by (auto simp: authorizations_def wire_headers_def Let_def filter_filter
      split: option.splits payload.splits intro!: filter_cong)

section \<open>A sample run\<close>

definition demo_env :: "str http_env" where
  "demo_env = \<lparr>he_crypto = demo_crypto, he_rules = demo_rules, he_sign_parse = \<lambda>u. Inl u, he_parse = \<lambda>u. Inr u,
     he_append_pair = \<lambda>k v u. u @ ''&'' @ k @ ''='' @ v, he_url_str = \<lambda>u. u, he_url_path = \<lambda>u. u,
     he_url_query = \<lambda>u. None, he_open = \<lambda>p. Inl p, he_file_len = \<lambda>p. None, he_file_name = \<lambda>p. Some p,
     he_form = \<lambda>ps. ([], []), he_urlencoded = \<lambda>ps. None, he_json_parse = \<lambda>s. Inl s, he_json_print = \<lambda>j. [],
     he_world = demo_world, he_oauth = \<lambda>a. Inl [], he_now = 0, he_nonce = \<lambda>n. ''abcd'', he_amz_date = []\<rparr>"

definition demo_challenge :: wire_response where
  "demo_challenge = \<lparr>ws_status = 401, ws_headers = [(''www-authenticate'', ''Digest realm=\"r\", nonce=\"n\"'')],
     ws_chunks = []\<rparr>"

definition demo_answer :: wire_response where
  "demo_answer = \<lparr>ws_status = 200, ws_headers = [], ws_chunks = [Inr ''abc'', Inr ''defg'']\<rparr>"

definition demo_network :: "str network" where
  "demo_network = \<lparr>nw_exchange = \<lambda>n q. Inr (if n = 0 then demo_challenge else demo_answer),
     nw_cancel_wins = \<lambda>n. False, nw_cancelled_at = \<lambda>n. False\<rparr>"

definition demo_spec :: request_spec where
  "demo_spec = default_request\<lparr>rs_auth := Digest ''u'' ''p''\<rparr>"

definition demo_seq :: seq_state where
  "demo_seq = \<lparr>sq_counters = [], sq_dirty = False, sq_tick = 0\<rparr>"

section \<open>Properties\<close>

text \<open>
  C7: A send puts at most two requests on the wire. With Digest credentials the first one carries
  the configured headers as they are, with the content headers of its body and no Authorization of
  the client's own. The second one exists only for Digest credentials after a 401 whose challenge
  can be answered: it goes to the same URL with the same method, timeout and headers, carries the
  body built from the same specification again, and adds the Authorization computed from the
  challenge and nothing else.
\<close>

theorem at_most_one_retry:
  assumes "send_request_inner E N meth url spec timeout_ms cap st = (r, reqs, st')"
  shows "length reqs \<le> 2
    \<and> ((\<exists>usr pwd. rs_auth spec = Digest usr pwd) \<and> reqs \<noteq> [] \<longrightarrow>
        (\<exists>p1 st1. build_payload E spec st = (Ok p1, st1)
          \<and> wq_method (reqs ! 0) = meth
          \<and> wq_headers (reqs ! 0) = wire_headers (configured_headers spec) None p1
          \<and> authorizations (wq_headers (reqs ! 0)) = authorizations (configured_headers spec)
          \<and> wq_body (reqs ! 0) = payload_body p1))
    \<and> (length reqs = 2 \<longrightarrow>
        (\<exists>p1 st1 p2 st2 one a usr pwd.
          build_payload E spec st = (Ok p1, st1) \<and> build_payload E spec st1 = (Ok p2, st2)
          \<and> rs_auth spec = Digest usr pwd
          \<and> nw_exchange N 0 (reqs ! 0) = Inr one \<and> ws_status one = 401
          \<and> digest_retry_header E one (rs_auth spec) meth (wq_url (reqs ! 0)) = Some a
          \<and> reqs ! 1 = (reqs ! 0)\<lparr>wq_headers := wire_headers (configured_headers spec) (Some a) p2,
                                  wq_body := payload_body p2\<rparr>
          \<and> authorizations (wq_headers (reqs ! 1))
              = authorizations (configured_headers spec) @ [(''Authorization'', a)]))"
proof -
  let ?t = "case timeout_ms of Some t \<Rightarrow> t | None \<Rightarrow> DEFAULT_TIMEOUT_MS"
  consider "reqs = []"
    | u payload st1 r1 headers q ctx where
        "build_payload E spec st = (Ok payload, st1)"
        "apply_auth E (rs_auth spec) ctx (configured_headers spec) [] = Ok (headers, q)"
        "send_loop E N spec meth ?t u headers None (Some payload) st1 = (r1, reqs, st')"
    using assms
    by (auto simp: send_request_inner_def Let_def configured_headers_def split: if_splits sum.splits prod.splits)
  then show ?thesis
  proof cases
    case 1
    then show ?thesis by simp
  next
    case (2 u payload st1 r1 headers q ctx)
    have plain: "headers = configured_headers spec" if "rs_auth spec = Digest usr pwd" for usr pwd
      using 2(2) that by (simp add: apply_auth_def)
    let ?q1 = "loop_request meth ?t u headers None payload"
    have first: "\<exists>p1 st1. build_payload E spec st = (Ok p1, st1) \<and> wq_method ?q1 = meth
          \<and> wq_headers ?q1 = wire_headers (configured_headers spec) None p1
          \<and> authorizations (wq_headers ?q1) = authorizations (configured_headers spec)
          \<and> wq_body ?q1 = payload_body p1" if "\<exists>usr pwd. rs_auth spec = Digest usr pwd"
      using that plain 2(1) by (auto simp: loop_request_def authorizations_wire)
    from send_loop_requests[OF 2(3)] show ?thesis
    proof
      assume "reqs = [?q1]"
      with first show ?thesis by simp
    next
      assume "\<exists>one a p2 st2. reqs = [?q1, loop_request meth ?t u headers (Some a) p2]
         \<and> nw_exchange N 0 ?q1 = Inr one \<and> digest_retry_header E one (rs_auth spec) meth u = Some a
         \<and> build_payload E spec st1 = (Ok p2, st2)"
      then obtain one a p2 st2 where two: "reqs = [?q1, loop_request meth ?t u headers (Some a) p2]"
        "nw_exchange N 0 ?q1 = Inr one" "digest_retry_header E one (rs_auth spec) meth u = Some a"
        "build_payload E spec st1 = (Ok p2, st2)"
        by blast
      from retry_digest[OF two(3)] obtain usr pwd where d: "ws_status one = 401" "rs_auth spec = Digest usr pwd"
        by blast
      have u: "wq_url ?q1 = u" by (simp add: loop_request_def)
      have again: "loop_request meth ?t u headers (Some a) p2
          = ?q1\<lparr>wq_headers := wire_headers (configured_headers spec) (Some a) p2, wq_body := payload_body p2\<rparr>"
        using plain[OF d(2)] by (simp add: loop_request_def)
      have "authorizations (wq_headers (loop_request meth ?t u headers (Some a) p2))
          = authorizations (configured_headers spec) @ [(''Authorization'', a)]"
        using plain[OF d(2)] by (simp add: loop_request_def authorizations_wire)
      with first two d 2(1) u again show ?thesis by (simp del: split_paired_Ex) (metis d(2))
    qed
  qed
qed

theorem at_most_one_retry_witness:
  "\<exists>r reqs st'. send_request_inner demo_env demo_network GET ''/x'' demo_spec None 5 demo_seq = (r, reqs, st')
     \<and> length reqs = 2 \<and> authorizations (wq_headers (reqs ! 0)) = []
     \<and> (\<exists>a. authorizations (wq_headers (reqs ! 1)) = [(''Authorization'', a)])"
proof -
  obtain r reqs st' where run: "send_request_inner demo_env demo_network GET ''/x'' demo_spec None 5 demo_seq = (r, reqs, st')"
    by (cases "send_request_inner demo_env demo_network GET ''/x'' demo_spec None 5 demo_seq")
  have "length (fst (snd (send_request_inner demo_env demo_network GET ''/x'' demo_spec None 5 demo_seq))) = 2"
    by code_simp
  then have two: "length reqs = 2" "reqs \<noteq> []" using run by auto
  have spec: "rs_auth demo_spec = Digest ''u'' ''p''" "authorizations (configured_headers demo_spec) = []"
    by (simp_all add: demo_spec_def configured_headers_def authorizations_def default_request_def)
  from at_most_one_retry[OF run] two spec(1) have
    "authorizations (wq_headers (reqs ! 0)) = authorizations (configured_headers demo_spec)"
    "\<exists>a. authorizations (wq_headers (reqs ! 1)) = authorizations (configured_headers demo_spec) @ [(''Authorization'', a)]"
    by blast+
  with run two spec(2) show ?thesis by auto
qed

text \<open>
  C8: Without errors and cancellation the body is the concatenation of the chunks cut at the
  limit, flagged as truncated exactly when something was cut; in every case the recorded size is
  the size of the body and does not exceed the limit.
\<close>

theorem body_capped:
  assumes "finish_response E N cap resp = Ok d"
  shows "hd_size_bytes d = length (hd_body d) \<and> length (hd_body d) \<le> cap
    \<and> (\<forall>chunks. ws_chunks resp = map Inr chunks \<and> nw_cancelled_at N = (\<lambda>k. False) \<longrightarrow>
         hd_body d = take cap (concat chunks) \<and> hd_truncated d = (cap < length (concat chunks)))"
proof -
  obtain b t where rb: "read_body (nw_cancelled_at N) cap 0 [] (ws_chunks resp) = Ok (b, t)"
    using assms by (auto simp: finish_response_def and_then_eq_Inr)
  have d: "hd_body d = b" "hd_truncated d = t" "hd_size_bytes d = length b"
    using assms rb by (auto simp: finish_response_def)
  show ?thesis
    using rb d read_body_le[OF rb] read_body_ok[of "[]" cap 0] by auto
qed

theorem body_capped_witness:
  "\<exists>d. finish_response demo_env demo_network 5 demo_answer = Ok d \<and> hd_body d = ''abcde'' \<and> hd_truncated d"
proof -
  obtain d where d: "finish_response demo_env demo_network 5 demo_answer = Ok d"
    using read_body_ok[of "[]" 5 0 "[''abc'', ''defg'']"]
    by (simp add: finish_response_def demo_answer_def demo_network_def demo_env_def)
  have "ws_chunks demo_answer = map Inr [''abc'', ''defg''] \<and> nw_cancelled_at demo_network = (\<lambda>k. False)"
    by (simp add: demo_answer_def demo_network_def)
  with body_capped[OF d] have "hd_body d = take 5 (concat [''abc'', ''defg''])
      \<and> hd_truncated d = (5 < length (concat [''abc'', ''defg'']))" by blast
  with d show ?thesis by simp
qed

text \<open>
  Authentication only adds: the user's headers stay in front, unchanged and in order, and
  Digest and None put no credentials on the first request; a query API key adds one parameter
  and no header.
\<close>

theorem auth_only_adds:
  assumes "apply_auth E auth ctx headers query = Ok (headers', query')"
  shows "(\<exists>extra. headers' = headers @ extra) \<and> (\<exists>extra. query' = query @ extra)
    \<and> ((\<exists>u p. auth = Digest u p) \<or> auth = Auth_None \<longrightarrow> headers' = headers \<and> query' = query)
    \<and> (\<forall>k v. auth = ApiKey k v Loc_Query \<and> k \<noteq> [] \<longrightarrow> headers' = headers \<and> query' = query @ [new_kv k v])"
proof (cases auth)
  case (DynamicSignature config)
  then show ?thesis using assms
    by (auto simp: apply_auth_def apply_signature_def Let_def split: sum.splits if_splits)
qed (use assms in \<open>auto simp: apply_auth_def split: if_splits sum.splits api_key_location.splits option.splits\<close>)

theorem auth_only_adds_witness:
  "apply_auth demo_env (ApiKey ''k'' ''v'' Loc_Query) \<lparr>sx_method = GET, sx_url = [], sx_payload_hash = [], sx_body = None\<rparr>
     [(''A'', ''b'')] [] = Ok ([(''A'', ''b'')], [new_kv ''k'' ''v''])"
proof -
  obtain hs q where r: "apply_auth demo_env (ApiKey ''k'' ''v'' Loc_Query)
      \<lparr>sx_method = GET, sx_url = [], sx_payload_hash = [], sx_body = None\<rparr> [(''A'', ''b'')] [] = Ok (hs, q)"
    by (simp add: apply_auth_def)
  from auth_only_adds[OF r] r show ?thesis by simp
qed

end
