(* ===== verification/WsClient.thy ===== *)
theory WsClient
  imports HttpTypes
begin

text \<open>
  The WebSocket client (\<open>fox-http/src/ws_client.rs\<close>) and the table of undelivered messages it
  writes (\<open>fox-storage/src/repository/ws_messages.rs\<close>).

  The background task is a state machine: \<open>ws_pc\<close> is where the task stands, each definition of the
  task is the code between two points at which it waits, and \<open>task_step\<close> has one rule per way of
  going on. The methods of the client are the other steps of \<open>ws_step\<close>. Outcomes of the network,
  the database and the clock are the free variables of the rules. A \<open>Duration\<close> is its number of
  nanoseconds. Of a \<open>watch\<close> channel the code relies on one documented law: a \<open>send\<close> without a
  living receiver fails and leaves the value as it was. The receivers of \<open>state\<close> and \<open>protocol\<close> are
  kept in \<open>WsInner\<close>; those of \<open>stop\<close> live while the task waits or is in a session.
\<close>

section \<open>Data\<close>

definition OUTBOX_CAPACITY :: nat where "OUTBOX_CAPACITY = 1024"
definition WS_MESSAGE_TTL :: int where "WS_MESSAGE_TTL = seconds (24 * 3600)"

definition from_millis :: "nat \<Rightarrow> nat" where "from_millis ms = ms * 1000000"
definition as_millis :: "nat \<Rightarrow> nat" where "as_millis d = d div 1000000"

datatype ws_state = Connecting | Open | Closed | Error

datatype ws_message = Text str | Binary str | Ping str

datatype ws_event = Ev_State ws_state | Ev_Message ws_message | Ev_Failed msg

record ws_options =
  wo_heartbeat_interval :: nat
  wo_max_missed_pongs :: u32
  wo_backoff_base :: nat
  wo_backoff_max :: nat
  wo_auto_reconnect :: bool

definition default_ws_options :: ws_options where
  "default_ws_options = \<lparr>wo_heartbeat_interval = from_millis 10000, wo_max_missed_pongs = 3,
     wo_backoff_base = from_millis 500, wo_backoff_max = from_millis 30000, wo_auto_reconnect = True\<rparr>"

datatype ws_outgoing = Out_Text str | Out_Binary str | Out_Ping str

text \<open>Base64 is a library's: an encoder and a decoder that may refuse.\<close>

record ws_codec =
  wb_encode :: "str \<Rightarrow> str"
  wb_decode :: "str \<Rightarrow> str option"

fun message_type :: "ws_outgoing \<Rightarrow> ws_message_type" where
  "message_type (Out_Text _) = WT_Text"
| "message_type (Out_Binary _) = WT_Binary"
| "message_type (Out_Ping _) = WT_Ping"

fun encoded :: "ws_codec \<Rightarrow> ws_outgoing \<Rightarrow> str" where
  "encoded B (Out_Text text) = text"
| "encoded B (Out_Binary data) = wb_encode B data"
| "encoded B (Out_Ping data) = wb_encode B data"

fun from_record :: "ws_codec \<Rightarrow> ws_message_type \<Rightarrow> str \<Rightarrow> ws_outgoing option" where
  "from_record B WT_Text payload = Some (Out_Text payload)"
| "from_record B WT_Binary payload = map_option Out_Binary (wb_decode B payload)"
| "from_record B WT_Ping payload = map_option Out_Ping (wb_decode B payload)"

fun outgoing_of :: "ws_message \<Rightarrow> ws_outgoing" where
  "outgoing_of (Text text) = Out_Text text"
| "outgoing_of (Binary data) = Out_Binary data"
| "outgoing_of (Ping data) = Out_Ping data"

datatype ws_frame = F_Text str | F_Binary str | F_Ping str | F_Pong str | F_Close | F_Raw

fun frame_of :: "ws_outgoing \<Rightarrow> ws_frame" where
  "frame_of (Out_Text text) = F_Text text"
| "frame_of (Out_Binary data) = F_Binary data"
| "frame_of (Out_Ping data) = F_Ping data"

section \<open>The table of undelivered messages\<close>

text \<open>
  A row's time is kept as RFC 3339 text of UTC, whose text order is the order of the times.
\<close>

record ws_record =
  wr_id :: uuid
  wr_target :: str
  wr_type :: ws_message_type
  wr_payload :: str
  wr_created_at :: datetime

definition enqueue_ws_message ::
  "str \<Rightarrow> ws_message_type \<Rightarrow> str \<Rightarrow> uuid \<Rightarrow> datetime \<Rightarrow> ws_record list \<Rightarrow> ws_record list" where
  "enqueue_ws_message target mt payload new_id now rows =
     rows @ [\<lparr>wr_id = new_id, wr_target = target, wr_type = mt, wr_payload = payload, wr_created_at = now\<rparr>]"

definition list_pending_ws_messages :: "str \<Rightarrow> ws_record list \<Rightarrow> ws_record list" where
  "list_pending_ws_messages target rows = sort_key wr_created_at (filter (\<lambda>r. wr_target r = target) rows)"

definition delete_ws_messages :: "uuid list \<Rightarrow> ws_record list \<Rightarrow> ws_record list" where
  "delete_ws_messages ids rows =
     (if ids = [] then rows else filter (\<lambda>r. wr_id r \<notin> set ids) rows)"

definition purge_expired_ws_messages ::
  "str \<Rightarrow> int \<Rightarrow> datetime \<Rightarrow> ws_record list \<Rightarrow> nat \<times> ws_record list" where
  "purge_expired_ws_messages target retention now rows =
     (let cutoff = now - retention;
          gone = (\<lambda>r. wr_target r = target \<and> wr_created_at r < cutoff)
      in (length (filter gone rows), filter (\<lambda>r. \<not> gone r) rows))"

section \<open>The client\<close>

record ws_config =
  wf_target :: str
  wf_headers :: "str str_table"
  wf_subprotocols :: "str list"
  wf_options :: ws_options

text \<open>What the client uses of other crates.\<close>

record ws_env =
  we_codec :: ws_codec
  we_rules :: http_rules
  we_scheme :: "str \<Rightarrow> (str, str) result"
  we_uri :: "str \<Rightarrow> (str, str) result"

datatype ws_pc =
    Outer
  | Dialing u32
  | Loading u32
  | Session u32 "(uuid \<times> ws_outgoing) list" u32
  | Waiting nat u32
  | Ended

record ws_sys =
  wc_pc :: ws_pc
  wc_state :: ws_state
  wc_protocol :: "str option"
  wc_stop :: bool
  wc_outbox :: "ws_outgoing list"
  wc_store :: "ws_record list option"
  wc_events :: "ws_event list"
  wc_wire :: "ws_frame list"

definition validate_url :: "ws_env \<Rightarrow> str \<Rightarrow> (app_error, unit) result" where
  "validate_url E target =
     (case we_scheme E target of
        Inl e \<Rightarrow> Err (WebSocket (Msg ''invalid WebSocket address'' [e]))
      | Inr scheme \<Rightarrow>
          if scheme = ''ws'' \<or> scheme = ''wss'' then Ok ()
          else Err (WebSocket (Msg ''unsupported scheme'' [scheme])))"

definition connect_with_store ::
  "ws_env \<Rightarrow> ws_config \<Rightarrow> ws_record list option \<Rightarrow> (app_error, ws_sys) result" where
  "connect_with_store E cfg store =
     and_then (validate_url E (wf_target cfg))
       (\<lambda>_. Ok \<lparr>wc_pc = Outer, wc_state = Connecting, wc_protocol = None, wc_stop = False, wc_outbox = [],
                 wc_store = store, wc_events = [], wc_wire = []\<rparr>)"

text \<open>
  \<open>db\<close> is what the insertion answers: an error's message, or the new row's id and time. The
  receiving end of the outbox is dropped when the task ends.
\<close>

definition persist_overflow ::
  "ws_codec \<Rightarrow> str \<Rightarrow> (msg, uuid \<times> datetime) result \<Rightarrow> ws_outgoing \<Rightarrow> ws_sys \<Rightarrow> (app_error, unit) result \<times> ws_sys" where
  "persist_overflow B target db outgoing s =
     (case wc_store s of
        None \<Rightarrow> (Err (WebSocket (Msg ''send queue is full, message dropped'' [])), s)
      | Some rows \<Rightarrow>
          (case db of
             Inl e \<Rightarrow> (Err (WebSocket (Msg ''send queue is full, storing the message failed'' (msg_text e # msg_args e))), s)
           | Inr (new_id, now) \<Rightarrow>
               (Ok (), s\<lparr>wc_store := Some (enqueue_ws_message target (message_type outgoing)
                                            (encoded B outgoing) new_id now rows)\<rparr>)))"

definition send_message ::
  "ws_codec \<Rightarrow> str \<Rightarrow> (msg, uuid \<times> datetime) result \<Rightarrow> ws_message \<Rightarrow> ws_sys \<Rightarrow> (app_error, unit) result \<times> ws_sys" where
  "send_message B target db message s =
     (let outgoing = outgoing_of message in
      if wc_pc s = Ended then (Err (WebSocket (Msg ''the WebSocket client has stopped'' [])), s)
      else if length (wc_outbox s) < OUTBOX_CAPACITY
           then (Ok (), s\<lparr>wc_outbox := wc_outbox s @ [outgoing]\<rparr>)
      else persist_overflow B target db outgoing s)"

text \<open>Whether a receiver of the stop channel is alive.\<close>

fun stop_listened :: "ws_pc \<Rightarrow> bool" where
  "stop_listened (Loading _) = True"
| "stop_listened (Session _ _ _) = True"
| "stop_listened (Waiting _ _) = True"
| "stop_listened _ = False"

text \<open>\<open>stop\<close> signals, waits for the task (at most five seconds), and closes the state.\<close>

definition stop_signal :: "ws_sys \<Rightarrow> ws_sys" where
  "stop_signal s = (if stop_listened (wc_pc s) then s\<lparr>wc_stop := True\<rparr> else s)"

definition stop_return :: "ws_sys \<Rightarrow> ws_sys" where
  "stop_return s = s\<lparr>wc_state := Closed\<rparr>"

section \<open>The background task\<close>

text \<open>\<open>backoff_base\<close> and \<open>backoff_max\<close> are cast to 64 bits; the product saturates.\<close>

definition checked_pow2 :: "nat \<Rightarrow> u64 option" where
  "checked_pow2 k = (if 2 ^ k < (2 :: nat) ^ 64 then Some (2 ^ k) else None)"

definition saturating_mul :: "u64 \<Rightarrow> u64 \<Rightarrow> u64" where
  "saturating_mul a b = (if unat a * unat b < 2 ^ 64 then a * b else - 1)"

definition backoff_delay :: "ws_options \<Rightarrow> u32 \<Rightarrow> nat" where
  "backoff_delay options attempt =
     (let base_ms = of_nat (as_millis (wo_backoff_base options)) :: u64;
          max_ms = of_nat (as_millis (wo_backoff_max options)) :: u64;
          factor = (case checked_pow2 (unat attempt - 1) of Some f \<Rightarrow> f | None \<Rightarrow> - 1)
      in from_millis (unat (min (saturating_mul base_ms factor) max_ms)))"

definition saturating_succ :: "u32 \<Rightarrow> u32" where
  "saturating_succ n = (if n = - 1 then n else n + 1)"

definition set_state :: "ws_state \<Rightarrow> ws_sys \<Rightarrow> ws_sys" where
  "set_state st s = s\<lparr>wc_state := st, wc_events := wc_events s @ [Ev_State st]\<rparr>"

definition emit_failed :: "msg \<Rightarrow> ws_sys \<Rightarrow> ws_sys" where
  "emit_failed reason s = s\<lparr>wc_events := wc_events s @ [Ev_Failed reason]\<rparr>"

definition goto :: "ws_pc \<Rightarrow> ws_sys \<Rightarrow> ws_sys" where
  "goto pc s = s\<lparr>wc_pc := pc\<rparr>"

text \<open>The delay is waited for unless the stop signal is already there; \<open>Outer\<close> is the \<open>break\<close>.\<close>

definition wait_stoppable :: "nat \<Rightarrow> u32 \<Rightarrow> ws_sys \<Rightarrow> ws_sys" where
  "wait_stoppable delay next s = (if wc_stop s then goto Outer s else goto (Waiting delay next) s)"

text \<open>The head of the outer loop.\<close>

definition loop_outer :: "ws_sys \<Rightarrow> ws_sys" where
  "loop_outer s = (if wc_stop s then goto Ended (set_state Closed s)
                   else goto (Dialing 1) (set_state Connecting s))"

definition build_request :: "ws_env \<Rightarrow> ws_config \<Rightarrow> (app_error, str \<times> str str_table \<times> str list) result" where
  "build_request E cfg =
     (case we_uri E (wf_target cfg) of
        Inl e \<Rightarrow> Err (WebSocket (Msg ''invalid WebSocket address'' [e]))
      | Inr uri \<Rightarrow> Ok (uri, wf_headers cfg, wf_subprotocols cfg))"

definition extract_subprotocol :: "http_rules \<Rightarrow> header_map \<Rightarrow> str option" where
  "extract_subprotocol R headers = header_get_str R headers ''sec-websocket-protocol''"

definition connect_failed :: "ws_config \<Rightarrow> msg \<Rightarrow> u32 \<Rightarrow> ws_sys \<Rightarrow> ws_sys" where
  "connect_failed cfg reason attempt s =
     (let s1 = emit_failed reason (set_state Error s) in
      if \<not> wo_auto_reconnect (wf_options cfg) then goto Outer s1
      else wait_stoppable (backoff_delay (wf_options cfg) attempt) (saturating_succ attempt) s1)"

text \<open>The inner loop up to the session; \<open>outcome\<close> is what the handshake answers.\<close>

definition dial :: "ws_env \<Rightarrow> ws_config \<Rightarrow> (str, header_map) result \<Rightarrow> u32 \<Rightarrow> ws_sys \<Rightarrow> ws_sys" where
  "dial E cfg outcome attempt s =
     (if wc_stop s then goto Outer s
      else
        (case build_request E cfg of
           Inl e \<Rightarrow> connect_failed cfg (user_message e) attempt s
         | Inr request \<Rightarrow>
             (case outcome of
                Inl err \<Rightarrow> connect_failed cfg (Msg ''WebSocket connection failed'' [err]) attempt s
              | Inr headers \<Rightarrow>
                  goto (Loading attempt)
                    (set_state Open (s\<lparr>wc_protocol := extract_subprotocol (we_rules E) headers\<rparr>)))))"

text \<open>What follows a session, with its result.\<close>

definition end_session :: "ws_config \<Rightarrow> u32 \<Rightarrow> (msg, unit) result \<Rightarrow> ws_sys \<Rightarrow> ws_sys" where
  "end_session cfg attempt session s =
     (if wc_stop s then goto Outer s
      else
        (let s1 = (case session of
                     Inr _ \<Rightarrow> set_state Closed s
                   | Inl reason \<Rightarrow> emit_failed reason (set_state Error s))
         in if \<not> wo_auto_reconnect (wf_options cfg) then goto Outer s1
            else wait_stoppable (backoff_delay (wf_options cfg) attempt) attempt s1))"

text \<open>
  The purge and the query may each fail; a row whose payload does not decode is skipped and stays.
\<close>

definition load_persisted ::
  "ws_codec \<Rightarrow> str \<Rightarrow> datetime \<Rightarrow> bool \<Rightarrow> bool \<Rightarrow> ws_sys \<Rightarrow> (uuid \<times> ws_outgoing) list \<times> ws_sys" where
  "load_persisted B target now purge_ok list_ok s =
     (case wc_store s of
        None \<Rightarrow> ([], s)
      | Some rows \<Rightarrow>
          let rows' = (if purge_ok then snd (purge_expired_ws_messages target WS_MESSAGE_TTL now rows) else rows)
          in (if list_ok
              then List.map_filter (\<lambda>r. map_option (\<lambda>m. (wr_id r, m)) (from_record B (wr_type r) (wr_payload r)))
                     (list_pending_ws_messages target rows')
              else [], s\<lparr>wc_store := Some rows'\<rparr>))"

definition write_frame :: "ws_frame \<Rightarrow> ws_sys \<Rightarrow> ws_sys" where
  "write_frame f s = s\<lparr>wc_wire := wc_wire s @ [f]\<rparr>"

text \<open>A frame that the sink may or may not take, its error ignored.\<close>

definition try_frame :: "bool \<Rightarrow> ws_frame \<Rightarrow> ws_sys \<Rightarrow> ws_sys" where
  "try_frame ok f s = (if ok then write_frame f s else s)"

definition close_sink :: "bool \<Rightarrow> ws_sys \<Rightarrow> ws_sys" where
  "close_sink ok s = try_frame ok F_Close s"

definition start_session ::
  "ws_env \<Rightarrow> ws_config \<Rightarrow> datetime \<Rightarrow> bool \<Rightarrow> bool \<Rightarrow> bool \<Rightarrow> u32 \<Rightarrow> ws_sys \<Rightarrow> ws_sys" where
  "start_session E cfg now purge_ok list_ok close_ok attempt s =
     (let (persisted, s1) = load_persisted (we_codec E) (wf_target cfg) now purge_ok list_ok s in
      if wc_stop s1 then end_session cfg attempt (Ok ()) (close_sink close_ok s1)
      else goto (Session attempt persisted 0) s1)"

fun next_outgoing ::
  "(uuid \<times> ws_outgoing) list \<Rightarrow> ws_outgoing list
     \<Rightarrow> ((uuid option \<times> ws_outgoing) \<times> (uuid \<times> ws_outgoing) list \<times> ws_outgoing list) option" where
  "next_outgoing ((i, m) # persisted) outbox = Some ((Some i, m), persisted, outbox)"
| "next_outgoing [] (m # outbox) = Some ((None, m), [], outbox)"
| "next_outgoing [] [] = None"

text \<open>
  The branches of the session's \<open>select\<close>. \<open>sent\<close> is what the sink answers and \<open>delete_ok\<close> what the
  deletion of a stored message that went out answers.
\<close>

definition session_stop :: "ws_config \<Rightarrow> bool \<Rightarrow> u32 \<Rightarrow> ws_sys \<Rightarrow> ws_sys" where
  "session_stop cfg close_ok attempt s = end_session cfg attempt (Ok ()) (close_sink close_ok s)"

definition session_outgoing ::
  "ws_config \<Rightarrow> (str, unit) result \<Rightarrow> bool \<Rightarrow> u32 \<Rightarrow> (uuid \<times> ws_outgoing) list \<Rightarrow> u32 \<Rightarrow> ws_sys \<Rightarrow> ws_sys" where
  "session_outgoing cfg sent delete_ok attempt persisted missed s =
     (case next_outgoing persisted (wc_outbox s) of
        None \<Rightarrow> s
      | Some ((persisted_id, message), persisted', outbox') \<Rightarrow>
          (let s1 = goto (Session attempt persisted' missed) (s\<lparr>wc_outbox := outbox'\<rparr>) in
           case sent of
             Inl err \<Rightarrow> end_session cfg attempt (Err (Msg ''sending a message failed'' [err])) s1
           | Inr _ \<Rightarrow>
               (let s2 = write_frame (frame_of message) s1 in
                case (persisted_id, wc_store s2) of
                  (Some i, Some rows) \<Rightarrow>
                    if delete_ok then s2\<lparr>wc_store := Some (delete_ws_messages [i] rows)\<rparr> else s2
                | _ \<Rightarrow> s2)))"

datatype ws_incoming = In_End | In_Error str | In_Frame ws_frame

definition session_incoming ::
  "ws_config \<Rightarrow> ws_incoming \<Rightarrow> bool \<Rightarrow> u32 \<Rightarrow> (uuid \<times> ws_outgoing) list \<Rightarrow> u32 \<Rightarrow> ws_sys \<Rightarrow> ws_sys" where
  "session_incoming cfg incoming sink_ok attempt persisted missed s =
     (case incoming of
        In_End \<Rightarrow> end_session cfg attempt (Err (Msg ''connection closed by the peer'' [])) s
      | In_Error err \<Rightarrow> end_session cfg attempt (Err (Msg ''connection interrupted'' [err])) s
      | In_Frame f \<Rightarrow>
          (case f of
             F_Text text \<Rightarrow> s\<lparr>wc_events := wc_events s @ [Ev_Message (Text text)]\<rparr>
           | F_Binary data \<Rightarrow> s\<lparr>wc_events := wc_events s @ [Ev_Message (Binary data)]\<rparr>
           | F_Ping payload \<Rightarrow> try_frame sink_ok (F_Pong payload) s
           | F_Pong _ \<Rightarrow> goto (Session attempt persisted 0) s
           | F_Close \<Rightarrow> end_session cfg attempt (Ok ()) (close_sink sink_ok s)
           | F_Raw \<Rightarrow> s))"

definition session_tick ::
  "ws_config \<Rightarrow> (str, unit) result \<Rightarrow> u32 \<Rightarrow> (uuid \<times> ws_outgoing) list \<Rightarrow> u32 \<Rightarrow> ws_sys \<Rightarrow> ws_sys" where
  "session_tick cfg sent attempt persisted missed s =
     (case sent of
        Inl err \<Rightarrow> end_session cfg attempt (Err (Msg ''sending a heartbeat failed'' [err])) s
      | Inr _ \<Rightarrow>
          (let missed' = saturating_succ missed; s1 = write_frame (F_Ping []) s in
           if wo_max_missed_pongs (wf_options cfg) \<le> missed'
           then end_session cfg attempt (Err (Msg ''heartbeat timeout'' [show_nat (unat missed')])) s1
           else goto (Session attempt persisted missed') s1))"

text \<open>The end of a wait: \<open>stopped\<close> is whether the stop branch was taken.\<close>

definition wait_over :: "bool \<Rightarrow> u32 \<Rightarrow> ws_sys \<Rightarrow> ws_sys" where
  "wait_over stopped next s = (if stopped then goto Outer s else goto (Dialing next) s)"

section \<open>Steps\<close>

inductive task_step :: "ws_env \<Rightarrow> ws_config \<Rightarrow> ws_sys \<Rightarrow> ws_sys \<Rightarrow> bool" for E cfg where
  outer: "wc_pc s = Outer \<Longrightarrow> task_step E cfg s (loop_outer s)"
| dialing: "wc_pc s = Dialing attempt \<Longrightarrow> task_step E cfg s (dial E cfg outcome attempt s)"
| loading: "wc_pc s = Loading attempt \<Longrightarrow>
    task_step E cfg s (start_session E cfg now purge_ok list_ok close_ok attempt s)"
| stopping: "wc_pc s = Session attempt persisted missed \<Longrightarrow> wc_stop s \<Longrightarrow>
    task_step E cfg s (session_stop cfg close_ok attempt s)"
| sending: "wc_pc s = Session attempt persisted missed \<Longrightarrow> persisted \<noteq> [] \<or> wc_outbox s \<noteq> [] \<Longrightarrow>
    task_step E cfg s (session_outgoing cfg sent delete_ok attempt persisted missed s)"
| receiving: "wc_pc s = Session attempt persisted missed \<Longrightarrow>
    task_step E cfg s (session_incoming cfg incoming sink_ok attempt persisted missed s)"
| ticking: "wc_pc s = Session attempt persisted missed \<Longrightarrow>
    task_step E cfg s (session_tick cfg sent attempt persisted missed s)"
| waited: "wc_pc s = Waiting delay next \<Longrightarrow> stopped \<longrightarrow> wc_stop s \<Longrightarrow>
    task_step E cfg s (wait_over stopped next s)"

inductive ws_step :: "ws_env \<Rightarrow> ws_config \<Rightarrow> ws_sys \<Rightarrow> ws_sys \<Rightarrow> bool" for E cfg where
  task: "task_step E cfg s t \<Longrightarrow> ws_step E cfg s t"
| send: "(\<forall>new_id now rows. db = Inr (new_id, now) \<and> wc_store s = Some rows \<longrightarrow> new_id \<notin> wr_id ` set rows) \<Longrightarrow>
    ws_step E cfg s (snd (send_message (we_codec E) (wf_target cfg) db message s))"
| stop: "ws_step E cfg s (stop_signal s)"
| stop_returns: "ws_step E cfg s (stop_return s)"

text \<open>The states a client can be in: it starts from a table whose rows have distinct ids.\<close>

inductive ws_reachable :: "ws_env \<Rightarrow> ws_config \<Rightarrow> ws_sys \<Rightarrow> bool" for E cfg where
  start: "connect_with_store E cfg store = Ok s \<Longrightarrow>
    (\<forall>rows. store = Some rows \<longrightarrow> distinct (map wr_id rows)) \<Longrightarrow> ws_reachable E cfg s"
| step: "ws_reachable E cfg s \<Longrightarrow> ws_step E cfg s t \<Longrightarrow> ws_reachable E cfg t"


inductive_cases task_stepE: "task_step E cfg s t"
inductive_cases ws_stepE: "ws_step E cfg s t"

section \<open>The backoff\<close>

lemma unat_pow2: "2 ^ k < (2 :: nat) ^ 64 \<Longrightarrow> unat (2 ^ k :: u64) = 2 ^ k"
  using unat_of_nat[of "2 ^ k", where 'a = 64] by simp

lemma unat_max_word: "unat (- 1 :: u64) = 2 ^ 64 - 1"
  by transfer (simp add: take_bit_minus_one_eq_mask mask_eq_exp_minus_1)

lemma unat_saturating_mul: "unat (saturating_mul a b) = min (unat a * unat b) (2 ^ 64 - 1)"
proof (cases "unat a * unat b < 2 ^ 64")
  case True
  then have "unat (a * b) = unat a * unat b" by (simp add: unat_word_ariths)
  with True show ?thesis by (simp add: saturating_mul_def)
qed (simp add: saturating_mul_def unat_max_word)

lemma saturating_pow2:
  assumes "m < 2 ^ 64"
  shows "min (min (b * unat (case checked_pow2 k of Some f \<Rightarrow> f | None \<Rightarrow> - 1)) (2 ^ 64 - 1)) m = min (b * 2 ^ k) m"
proof (cases "2 ^ k < (2 :: nat) ^ 64")
  case True
  have "m \<le> 2 ^ 64 - 1" using assms by simp
  then show ?thesis using True by (simp add: checked_pow2_def unat_pow2 min_def)
next
  case False
  show ?thesis
  proof (cases b)
    case (Suc c)
    have "m \<le> b * (2 ^ 64 - 1)" "m \<le> b * 2 ^ k" using assms False Suc by (auto simp: algebra_simps)
    then show ?thesis using False assms by (simp add: checked_pow2_def unat_max_word min_def)
  qed simp
qed

lemma saturating_succ_pos: "1 \<le> saturating_succ n"
proof (cases "n = - 1")
  case False
  then have "unat (n + 1) = Suc (unat n)" using unatSuc[of n] by (simp add: add.commute add_eq_0_iff)
  with False show ?thesis by (simp add: saturating_succ_def word_le_nat_alt)
qed (simp add: saturating_succ_def word_order.extremum)

lemma backoff_delay_min:
  "backoff_delay options attempt = from_millis (min
     (as_millis (wo_backoff_base options) mod 2 ^ 64 * 2 ^ (unat attempt - 1))
     (as_millis (wo_backoff_max options) mod 2 ^ 64))"
proof -
  have min_unat: "unat (min a b) = min (unat a) (unat b)" for a b :: u64
    by (simp add: min_def word_le_nat_alt)
  show ?thesis
    unfolding backoff_delay_def Let_def min_unat unat_saturating_mul
    by (subst saturating_pow2) (simp_all add: unat_of_nat)
qed

lemma backoff_delay_le: "backoff_delay options attempt \<le> wo_backoff_max options"
proof -
  have "from_millis (min a (m mod 2 ^ 64)) \<le> from_millis m" for a m
    using min.cobounded2[of a "m mod 2 ^ 64"] mod_less_eq_dividend[of m "2 ^ 64"]
    unfolding from_millis_def by (metis mult_le_mono1 order_trans)
  then show ?thesis
    unfolding backoff_delay_min by (rule order_trans) (simp add: from_millis_def as_millis_def)
qed

section \<open>The invariant\<close>

text \<open>The state announced last to the subscribers.\<close>

fun announced :: "ws_event list \<Rightarrow> ws_state option" where
  "announced [] = None"
| "announced (e # es) = (case announced es of Some st \<Rightarrow> Some st
     | None \<Rightarrow> (case e of Ev_State st \<Rightarrow> Some st | _ \<Rightarrow> None))"

lemma announced_snoc [simp]:
  "announced (es @ [Ev_State st]) = Some st"
  "announced (es @ [Ev_Message m]) = announced es"
  "announced (es @ [Ev_Failed r]) = announced es"
  "announced (es @ [Ev_State st, Ev_Failed r]) = Some st"
  by (induction es) (auto split: option.splits)

definition queued_ok :: "ws_codec \<Rightarrow> str \<Rightarrow> ws_record list option \<Rightarrow> (uuid \<times> ws_outgoing) list \<Rightarrow> bool" where
  "queued_ok B target store persisted \<longleftrightarrow> distinct (map fst persisted) \<and>
     (\<forall>(i, m) \<in> set persisted. \<forall>rows. store = Some rows \<longrightarrow>
        (\<exists>r \<in> set rows. wr_id r = i \<and> wr_target r = target \<and> from_record B (wr_type r) (wr_payload r) = Some m))"

fun pc_ok :: "ws_env \<Rightarrow> ws_config \<Rightarrow> ws_sys \<Rightarrow> ws_pc \<Rightarrow> bool" where
  "pc_ok E cfg s Outer = True"
| "pc_ok E cfg s (Dialing n) \<longleftrightarrow> 1 \<le> n \<and> announced (wc_events s) \<in> {Some Connecting, Some Closed, Some Error}
     \<and> (\<not> wo_auto_reconnect (wf_options cfg) \<longrightarrow> n = 1)"
| "pc_ok E cfg s (Loading n) \<longleftrightarrow> 1 \<le> n \<and> announced (wc_events s) = Some Open
     \<and> (\<not> wo_auto_reconnect (wf_options cfg) \<longrightarrow> n = 1)"
| "pc_ok E cfg s (Session n persisted missed) \<longleftrightarrow> 1 \<le> n \<and> announced (wc_events s) = Some Open
     \<and> (missed = 0 \<or> missed < wo_max_missed_pongs (wf_options cfg))
     \<and> queued_ok (we_codec E) (wf_target cfg) (wc_store s) persisted
     \<and> (\<not> wo_auto_reconnect (wf_options cfg) \<longrightarrow> n = 1)"
| "pc_ok E cfg s (Waiting d n) \<longleftrightarrow> 1 \<le> n \<and> announced (wc_events s) \<in> {Some Closed, Some Error}
     \<and> wo_auto_reconnect (wf_options cfg) \<and> d \<le> wo_backoff_max (wf_options cfg)"
| "pc_ok E cfg s Ended \<longleftrightarrow> wc_stop s \<and> announced (wc_events s) = Some Closed \<and> wc_state s = Closed"

definition ws_inv :: "ws_env \<Rightarrow> ws_config \<Rightarrow> ws_sys \<Rightarrow> bool" where
  "ws_inv E cfg s \<longleftrightarrow> length (wc_outbox s) \<le> OUTBOX_CAPACITY
     \<and> (wc_state s = Closed \<or> wc_events s = [] \<or> announced (wc_events s) = Some (wc_state s))
     \<and> (\<forall>rows. wc_store s = Some rows \<longrightarrow> distinct (map wr_id rows))
     \<and> pc_ok E cfg s (wc_pc s)"

lemmas ws_effects = set_state_def emit_failed_def goto_def write_frame_def try_frame_def close_sink_def

lemma ws_inv_outer:
  assumes "ws_inv E cfg s"
  shows "ws_inv E cfg (goto Outer s)"
  using assms by (simp add: ws_inv_def goto_def)

lemma ws_inv_loop_outer: "ws_inv E cfg s \<Longrightarrow> ws_inv E cfg (loop_outer s)"
  by (auto simp: ws_inv_def loop_outer_def ws_effects)

lemma ws_inv_set_state:
  assumes "ws_inv E cfg s"
  shows "ws_inv E cfg (goto Outer (set_state st s))" "ws_inv E cfg (goto Outer (emit_failed r (set_state st s)))"
  using assms by (auto simp: ws_inv_def ws_effects)

lemma ws_inv_wait:
  assumes "ws_inv E cfg (goto Outer s)" "announced (wc_events s) \<in> {Some Closed, Some Error}" "1 \<le> n"
    "wo_auto_reconnect (wf_options cfg)" "d \<le> wo_backoff_max (wf_options cfg)"
  shows "ws_inv E cfg (wait_stoppable d n s)"
  using assms by (auto simp: ws_inv_def wait_stoppable_def goto_def)

lemma ws_inv_connect_failed: "ws_inv E cfg s \<Longrightarrow> ws_inv E cfg (connect_failed cfg r n s)"
  using ws_inv_set_state[of E cfg s]
  by (auto simp: connect_failed_def Let_def saturating_succ_pos backoff_delay_le intro!: ws_inv_wait)
     (simp_all add: ws_effects)

lemma ws_inv_end_session: "ws_inv E cfg s \<Longrightarrow> 1 \<le> n \<Longrightarrow> ws_inv E cfg (end_session cfg n res s)"
  using ws_inv_set_state[of E cfg s] ws_inv_outer[of E cfg s]
  by (auto simp: end_session_def Let_def backoff_delay_le split: sum.split intro!: ws_inv_wait)
     (simp_all add: ws_effects)

lemma ws_inv_dial: "ws_inv E cfg s \<Longrightarrow> wc_pc s = Dialing n \<Longrightarrow> ws_inv E cfg (dial E cfg outcome n s)"
  using ws_inv_connect_failed[of E cfg s]
  by (auto simp: dial_def split: sum.split) (auto simp: ws_inv_def ws_effects)

lemma ws_inv_try_frame: "ws_inv E cfg s \<Longrightarrow> ws_inv E cfg (try_frame ok f s)"
  by (cases "wc_pc s") (auto simp: ws_inv_def ws_effects)

abbreviation decoded :: "ws_codec \<Rightarrow> ws_record list \<Rightarrow> (uuid \<times> ws_outgoing) list" where
  "decoded B rs \<equiv> List.map_filter (\<lambda>r. map_option (\<lambda>m. (wr_id r, m)) (from_record B (wr_type r) (wr_payload r))) rs"

lemma decoded_mem: "(i, m) \<in> set (decoded B rs) \<Longrightarrow>
    \<exists>r \<in> set rs. wr_id r = i \<and> from_record B (wr_type r) (wr_payload r) = Some m"
  by (induction rs) (auto simp: List.map_filter_simps split: option.splits)

lemma decoded_distinct: "distinct (map wr_id rs) \<Longrightarrow> distinct (map fst (decoded B rs))"
proof (induction rs)
  case (Cons r rs)
  have "wr_id r \<notin> fst ` set (decoded B rs)" using Cons.prems decoded_mem by fastforce
  with Cons show ?case by (auto simp: List.map_filter_simps split: option.split)
qed (simp add: List.map_filter_simps)

lemma queued_decoded:
  assumes "distinct (map wr_id rows)"
  shows "queued_ok B target (Some rows) (decoded B (list_pending_ws_messages target rows))"
proof -
  let ?rs = "list_pending_ws_messages target rows"
  have "distinct (map wr_id ?rs)"
    using assms by (auto simp: list_pending_ws_messages_def distinct_map intro: inj_on_subset)
  moreover have "\<exists>r \<in> set rows. wr_id r = i \<and> wr_target r = target \<and> from_record B (wr_type r) (wr_payload r) = Some m"
    if "(i, m) \<in> set (decoded B ?rs)" for i m
    using decoded_mem[OF that] by (auto simp: list_pending_ws_messages_def)
  ultimately show ?thesis by (auto simp: queued_ok_def decoded_distinct)
qed

lemma ws_inv_load:
  assumes "ws_inv E cfg s" "load_persisted (we_codec E) (wf_target cfg) now purge_ok list_ok s = (persisted, t)"
  shows "ws_inv E cfg (goto Outer t)" "wc_events t = wc_events s" "wc_stop t = wc_stop s"
    "queued_ok (we_codec E) (wf_target cfg) (wc_store t) persisted"
proof -
  have none: "queued_ok B target None q" if "q = []" for B target q using that by (simp add: queued_ok_def)
  have nil: "queued_ok B target st []" for B target st by (simp add: queued_ok_def)
  have purged: "distinct (map wr_id (snd (purge_expired_ws_messages target ttl now rows)))"
    if "distinct (map wr_id rows)" for target ttl rows
    using that by (simp add: purge_expired_ws_messages_def Let_def distinct_map_filter)
  show "ws_inv E cfg (goto Outer t)" "wc_events t = wc_events s" "wc_stop t = wc_stop s"
    using assms purged
    by (auto simp: load_persisted_def ws_inv_def goto_def Let_def split: option.splits)
  show "queued_ok (we_codec E) (wf_target cfg) (wc_store t) persisted"
    using assms purged nil
    by (auto simp: load_persisted_def ws_inv_def Let_def split: option.splits if_splits intro!: queued_decoded)
qed

lemma ws_inv_session:
  assumes "ws_inv E cfg s" "wc_pc s = Session n persisted missed"
  shows "1 \<le> n" "announced (wc_events s) = Some Open"
  using assms by (simp_all add: ws_inv_def)

lemma ws_inv_start_session:
  assumes "ws_inv E cfg s" "wc_pc s = Loading n"
  shows "ws_inv E cfg (start_session E cfg now purge_ok list_ok close_ok n s)"
proof -
  obtain persisted t where l: "load_persisted (we_codec E) (wf_target cfg) now purge_ok list_ok s = (persisted, t)"
    by (cases "load_persisted (we_codec E) (wf_target cfg) now purge_ok list_ok s")
  note t = ws_inv_load[OF assms(1) l]
  have n: "1 \<le> n" "announced (wc_events s) = Some Open" "\<not> wo_auto_reconnect (wf_options cfg) \<longrightarrow> n = 1"
    using assms by (auto simp: ws_inv_def)
  have "ws_inv E cfg (goto (Session n persisted 0) t)"
    using t n by (auto simp: ws_inv_def goto_def)
  moreover have "end_session cfg n (Ok ()) (close_sink close_ok t) = end_session cfg n (Ok ()) (goto Outer (close_sink close_ok t))"
    by (simp add: end_session_def Let_def ws_effects wait_stoppable_def)
  moreover have "ws_inv E cfg (goto Outer (close_sink close_ok t))"
    using t(1) by (auto simp: ws_inv_def ws_effects)
  ultimately show ?thesis
    using ws_inv_end_session n(1) by (auto simp: start_session_def l)
qed

lemma queued_delete:
  assumes "queued_ok B target (Some rows) ((i, m) # q)"
  shows "queued_ok B target (Some (delete_ws_messages [i] rows)) q" "queued_ok B target (Some rows) q"
proof -
  show "queued_ok B target (Some (delete_ws_messages [i] rows)) q"
    unfolding queued_ok_def
  proof (intro conjI ballI, simp add: assms[unfolded queued_ok_def, simplified], clarify)
    fix j m' assume j: "(j, m') \<in> set q"
    then have "j \<noteq> i" using assms by (force simp: queued_ok_def)
    moreover obtain r where "r \<in> set rows" "wr_id r = j" "wr_target r = target"
        "from_record B (wr_type r) (wr_payload r) = Some m'"
      using assms j by (fastforce simp: queued_ok_def)
    ultimately show "\<exists>r \<in> set (delete_ws_messages [i] rows). wr_id r = j \<and> wr_target r = target
        \<and> from_record B (wr_type r) (wr_payload r) = Some m'"
      by (auto simp: delete_ws_messages_def)
  qed
  show "queued_ok B target (Some rows) q" using assms by (auto simp: queued_ok_def)
qed

lemma queued_enqueue: "queued_ok B target (Some rows) q \<Longrightarrow>
    queued_ok B target (Some (enqueue_ws_message tgt mt payload i now rows)) q"
  by (fastforce simp: queued_ok_def enqueue_ws_message_def)

lemma queued_tail: "queued_ok B target st (e # q) \<Longrightarrow> queued_ok B target st q"
  by (cases e) (auto simp: queued_ok_def)

lemma ws_inv_session_tail:
  assumes "ws_inv E cfg s" "wc_pc s = Session n persisted missed"
    "next_outgoing persisted (wc_outbox s) = Some ((i, m), persisted', outbox')"
  shows "ws_inv E cfg (goto (Session n persisted' missed) (s\<lparr>wc_outbox := outbox'\<rparr>))"
  using assms
  by (cases "(persisted, wc_outbox s)" rule: next_outgoing.cases) (auto simp: ws_inv_def goto_def dest: queued_tail)

lemma ws_inv_delete:
  assumes "ws_inv E cfg s" "wc_pc s = Session n q missed" "wc_store s = Some rows"
    "queued_ok (we_codec E) (wf_target cfg) (Some rows) ((i, m) # q)"
  shows "ws_inv E cfg (s\<lparr>wc_store := Some (delete_ws_messages [i] rows)\<rparr>)"
  using assms queued_delete(1)[OF assms(4)]
  by (auto simp: ws_inv_def delete_ws_messages_def distinct_map_filter)

lemma ws_inv_outgoing:
  assumes inv: "ws_inv E cfg s" and pc: "wc_pc s = Session n persisted missed"
  shows "ws_inv E cfg (session_outgoing cfg sent delete_ok n persisted missed s)"
proof (cases "next_outgoing persisted (wc_outbox s)")
  case None
  then show ?thesis using inv by (simp add: session_outgoing_def)
next
  case (Some r)
  obtain i m persisted' outbox' where r: "r = ((i, m), persisted', outbox')" by (cases r) auto
  define s1 where "s1 = goto (Session n persisted' missed) (s\<lparr>wc_outbox := outbox'\<rparr>)"
  have s1: "ws_inv E cfg s1" using ws_inv_session_tail[OF inv pc] Some r by (simp add: s1_def)
  then have s2: "ws_inv E cfg (write_frame (frame_of m) s1)"
    using ws_inv_try_frame[of E cfg s1 True] by (simp add: try_frame_def)
  have del: "ws_inv E cfg ((write_frame (frame_of m) s1)\<lparr>wc_store := Some (delete_ws_messages [j] rows)\<rparr>)"
    if "i = Some j" "wc_store s = Some rows" for j rows
  proof -
    have "persisted = (j, m) # persisted'"
      using Some r that by (cases "(persisted, wc_outbox s)" rule: next_outgoing.cases) auto
    then have "queued_ok (we_codec E) (wf_target cfg) (Some rows) ((j, m) # persisted')"
      using inv pc that by (simp add: ws_inv_def)
    then show ?thesis using s2 that by (intro ws_inv_delete) (auto simp: s1_def ws_effects)
  qed
  have n: "1 \<le> n" using ws_inv_session(1)[OF inv pc] .
  show ?thesis
    using Some r s1 s2 del ws_inv_end_session[OF s1 n]
    by (auto simp: session_outgoing_def s1_def[symmetric] Let_def split: sum.split option.split)
       (auto simp: s1_def ws_effects)
qed

lemma ws_inv_incoming:
  assumes inv: "ws_inv E cfg s" and pc: "wc_pc s = Session n persisted missed"
  shows "ws_inv E cfg (session_incoming cfg incoming sink_ok n persisted missed s)"
proof -
  note n = ws_inv_session[OF inv pc]
  have msg: "ws_inv E cfg (s\<lparr>wc_events := wc_events s @ [Ev_Message m]\<rparr>)" for m
    using inv pc n(2) by (auto simp: ws_inv_def)
  have pong: "ws_inv E cfg (goto (Session n persisted 0) s)"
    using inv pc by (auto simp: ws_inv_def goto_def)
  show ?thesis
    using inv pc n msg pong ws_inv_try_frame[OF inv] ws_inv_end_session n(1)
    by (auto simp: session_incoming_def close_sink_def split: ws_incoming.split ws_frame.split)
qed

lemma ws_inv_tick:
  assumes inv: "ws_inv E cfg s" and pc: "wc_pc s = Session n persisted missed"
  shows "ws_inv E cfg (session_tick cfg sent n persisted missed s)"
proof -
  note n = ws_inv_session(1)[OF inv pc]
  have "ws_inv E cfg (write_frame f s)" for f
    using ws_inv_try_frame[OF inv, of True f] by (simp add: try_frame_def)
  moreover have "ws_inv E cfg (goto (Session n persisted m) (write_frame f s))"
    if "m < wo_max_missed_pongs (wf_options cfg)" for m f
    using inv pc that by (auto simp: ws_inv_def ws_effects)
  ultimately show ?thesis
    using inv n ws_inv_end_session
    by (auto simp: session_tick_def Let_def not_le split: sum.split)
qed

lemma ws_inv_wait_over:
  assumes "ws_inv E cfg s" "wc_pc s = Waiting d n"
  shows "ws_inv E cfg (wait_over stopped n s)"
  using assms by (auto simp: ws_inv_def wait_over_def goto_def)

lemma ws_inv_session_stop:
  assumes "ws_inv E cfg s" "wc_pc s = Session n persisted missed"
  shows "ws_inv E cfg (session_stop cfg ok n s)"
  unfolding session_stop_def close_sink_def
  by (intro ws_inv_end_session ws_inv_try_frame assms(1) ws_inv_session(1)[OF assms])

lemma ws_inv_task: "task_step E cfg s t \<Longrightarrow> ws_inv E cfg s \<Longrightarrow> ws_inv E cfg t"
  by (induction rule: task_step.induct)
     (simp_all add: ws_inv_loop_outer ws_inv_dial ws_inv_start_session ws_inv_session_stop ws_inv_outgoing
        ws_inv_incoming ws_inv_tick ws_inv_wait_over)

lemma ws_inv_outbox:
  "ws_inv E cfg s \<Longrightarrow> length (wc_outbox s) < OUTBOX_CAPACITY \<Longrightarrow> ws_inv E cfg (s\<lparr>wc_outbox := wc_outbox s @ [m]\<rparr>)"
  by (cases "wc_pc s") (auto simp: ws_inv_def)

lemma ws_inv_enqueue:
  assumes "ws_inv E cfg s" "wc_store s = Some rows" "i \<notin> wr_id ` set rows"
  shows "ws_inv E cfg (s\<lparr>wc_store := Some (enqueue_ws_message tgt mt payload i now rows)\<rparr>)"
proof -
  have "distinct (map wr_id (enqueue_ws_message tgt mt payload i now rows))"
    using assms by (simp add: ws_inv_def enqueue_ws_message_def)
  then show ?thesis
    using assms by (cases "wc_pc s") (auto simp: ws_inv_def queued_enqueue)
qed

lemma ws_inv_send:
  assumes "ws_inv E cfg s"
    and "\<forall>new_id now rows. db = Inr (new_id, now) \<and> wc_store s = Some rows \<longrightarrow> new_id \<notin> wr_id ` set rows"
  shows "ws_inv E cfg (snd (send_message (we_codec E) (wf_target cfg) db message s))"
  using assms ws_inv_outbox[OF assms(1)] ws_inv_enqueue[OF assms(1)]
  by (simp add: send_message_def persist_overflow_def Let_def split: option.split sum.split)

lemma ws_inv_stop: "ws_inv E cfg s \<Longrightarrow> ws_inv E cfg (stop_signal s)" "ws_inv E cfg s \<Longrightarrow> ws_inv E cfg (stop_return s)"
  by (cases "wc_pc s"; auto simp: ws_inv_def stop_signal_def stop_return_def)+

lemma ws_inv_step: "ws_step E cfg s t \<Longrightarrow> ws_inv E cfg s \<Longrightarrow> ws_inv E cfg t"
  by (induction rule: ws_step.induct) (auto intro: ws_inv_task ws_inv_send ws_inv_stop)

lemma ws_inv_reachable: "ws_reachable E cfg s \<Longrightarrow> ws_inv E cfg s"
proof (induction rule: ws_reachable.induct)
  case (start store s)
  then show ?case by (auto simp: connect_with_store_def and_then_eq_Inr ws_inv_def OUTBOX_CAPACITY_def)
qed (rule ws_inv_step)

section \<open>What a step does to the store\<close>

lemma effects_store [simp]:
  "wc_store (set_state st s) = wc_store s" "wc_store (emit_failed r s) = wc_store s" "wc_store (goto pc s) = wc_store s"
  "wc_store (write_frame f s) = wc_store s" "wc_store (try_frame ok f s) = wc_store s"
  "wc_store (close_sink ok s) = wc_store s" "wc_store (wait_stoppable d n s) = wc_store s"
  "wc_store (loop_outer s) = wc_store s" "wc_store (wait_over b n s) = wc_store s"
  "wc_store (stop_signal s) = wc_store s" "wc_store (stop_return s) = wc_store s"
  by (simp_all add: ws_effects wait_stoppable_def loop_outer_def wait_over_def stop_signal_def stop_return_def)

lemma sessions_store [simp]:
  "wc_store (connect_failed cfg r n s) = wc_store s" "wc_store (end_session cfg n res s) = wc_store s"
  "wc_store (session_stop cfg ok n s) = wc_store s" "wc_store (session_tick cfg sent n q m s) = wc_store s"
  by (auto simp: connect_failed_def end_session_def session_stop_def session_tick_def Let_def split: sum.split)

lemma dial_store [simp]: "wc_store (dial E cfg outcome n s) = wc_store s"
  by (auto simp: dial_def split: sum.split)

lemma incoming_store [simp]: "wc_store (session_incoming cfg incoming ok n q m s) = wc_store s"
  by (auto simp: session_incoming_def split: ws_incoming.split ws_frame.split)

lemma start_session_store:
  "wc_store (start_session E cfg now purge_ok list_ok close_ok n s) =
     map_option (\<lambda>rows. if purge_ok then snd (purge_expired_ws_messages (wf_target cfg) WS_MESSAGE_TTL now rows) else rows) (wc_store s)"
  by (auto simp: start_session_def load_persisted_def Let_def split: option.split)

lemma outgoing_store:
  "wc_store (session_outgoing cfg sent delete_ok n q m s) = wc_store s \<or>
   (\<exists>i msg q' rows. q = (i, msg) # q' \<and> wc_store s = Some rows
      \<and> wc_store (session_outgoing cfg sent delete_ok n q m s) = Some (delete_ws_messages [i] rows)
      \<and> wc_wire (session_outgoing cfg sent delete_ok n q m s) = wc_wire s @ [frame_of msg])"
  by (cases "(q, wc_outbox s)" rule: next_outgoing.cases)
     (auto simp: session_outgoing_def Let_def ws_effects split: sum.split option.split)

text \<open>What may happen to a stored row in one step.\<close>

definition row_fate :: "ws_env \<Rightarrow> ws_config \<Rightarrow> ws_record \<Rightarrow> ws_sys \<Rightarrow> ws_sys \<Rightarrow> bool" where
  "row_fate E cfg r s t \<longleftrightarrow> (\<exists>rows'. wc_store t = Some rows' \<and>
     (r \<in> set rows'
      \<or> (\<exists>m. from_record (we_codec E) (wr_type r) (wr_payload r) = Some m \<and> wr_target r = wf_target cfg
             \<and> wc_wire t = wc_wire s @ [frame_of m])
      \<or> (\<exists>n now purge_ok list_ok close_ok. wc_pc s = Loading n
             \<and> t = start_session E cfg now purge_ok list_ok close_ok n s)))"

lemma row_fate_kept: "wc_store t = wc_store s \<Longrightarrow> wc_store s = Some rows \<Longrightarrow> r \<in> set rows \<Longrightarrow> row_fate E cfg r s t"
  by (auto simp: row_fate_def)

lemma row_fate_task:
  assumes "task_step E cfg s t" "ws_inv E cfg s" "wc_store s = Some rows" "r \<in> set rows"
  shows "row_fate E cfg r s t"
  using assms
proof (cases rule: task_step.cases)
  case (loading n now purge_ok list_ok close_ok)
  moreover have "\<exists>rows'. wc_store t = Some rows'" using loading assms(3) by (simp add: start_session_store)
  ultimately show ?thesis unfolding row_fate_def by blast
next
  case (sending n q m sent delete_ok)
  consider "wc_store t = wc_store s"
    | i msg q' where "q = (i, msg) # q'" "wc_store t = Some (delete_ws_messages [i] rows)"
        "wc_wire t = wc_wire s @ [frame_of msg]"
    using outgoing_store[of cfg sent delete_ok n q m s] sending assms(3) by fastforce
  then show ?thesis
  proof cases
    case 2
    have "queued_ok (we_codec E) (wf_target cfg) (Some rows) ((i, msg) # q')" "distinct (map wr_id rows)"
      using assms(2,3) sending 2 by (auto simp: ws_inv_def)
    then have "wr_id r = i \<Longrightarrow> wr_target r = wf_target cfg \<and> from_record (we_codec E) (wr_type r) (wr_payload r) = Some msg"
      using assms(4) by (auto simp: queued_ok_def distinct_map dest: inj_onD)
    then show ?thesis using 2 assms(4) by (auto simp: row_fate_def delete_ws_messages_def)
  qed (use assms row_fate_kept in blast)
qed (use assms in \<open>auto intro!: row_fate_kept\<close>)

lemma row_fate_step:
  assumes "ws_step E cfg s t" "ws_inv E cfg s" "wc_store s = Some rows" "r \<in> set rows"
  shows "row_fate E cfg r s t"
  using assms
proof (cases rule: ws_step.cases)
  case (send db message)
  then show ?thesis using assms(3,4)
    by (auto simp: row_fate_def send_message_def persist_overflow_def enqueue_ws_message_def Let_def split: sum.split)
qed (auto intro: row_fate_task row_fate_kept)

section \<open>Stopping\<close>






section \<open>A sample run\<close>

definition demo_ws_env :: ws_env where
  "demo_ws_env = \<lparr>we_codec = \<lparr>wb_encode = (\<lambda>s. s), wb_decode = Some\<rparr>, we_rules = demo_rules,
     we_scheme = (\<lambda>u. Inr ''ws''), we_uri = Inr\<rparr>"

definition demo_ws_config :: ws_config where
  "demo_ws_config = \<lparr>wf_target = ''ws://h'', wf_headers = [], wf_subprotocols = [], wf_options = default_ws_options\<rparr>"

definition demo_row :: ws_record where
  "demo_row = \<lparr>wr_id = 7, wr_target = ''ws://h'', wr_type = WT_Ping, wr_payload = ''p'', wr_created_at = 0\<rparr>"

definition demo_start :: ws_sys where
  "demo_start = \<lparr>wc_pc = Outer, wc_state = Connecting, wc_protocol = None, wc_stop = False, wc_outbox = [],
     wc_store = Some [demo_row], wc_events = [], wc_wire = []\<rparr>"

definition demo_dialing :: ws_sys where "demo_dialing = loop_outer demo_start"
definition demo_loading :: ws_sys where "demo_loading = dial demo_ws_env demo_ws_config (Inr []) 1 demo_dialing"
definition demo_session :: ws_sys where
  "demo_session = start_session demo_ws_env demo_ws_config 0 True True True 1 demo_loading"

lemma demo_pcs:
  "wc_pc demo_dialing = Dialing 1" "\<not> wc_stop demo_dialing"
  "wc_pc demo_loading = Loading 1"
  "wc_pc demo_session = Session 1 [(7, Out_Ping ''p'')] 0"
  "wc_store demo_session = Some [demo_row]" "wc_outbox demo_session = []" "\<not> wc_stop demo_session"
  "wc_wire demo_session = []"
  by (simp_all add: demo_session_def demo_loading_def demo_dialing_def demo_start_def loop_outer_def dial_def
      start_session_def load_persisted_def purge_expired_ws_messages_def list_pending_ws_messages_def demo_row_def
      WS_MESSAGE_TTL_def seconds_def demo_ws_env_def demo_ws_config_def build_request_def ws_effects
      List.map_filter_simps Let_def)

lemma demo_reachable:
  "ws_reachable demo_ws_env demo_ws_config demo_dialing"
  "ws_reachable demo_ws_env demo_ws_config demo_session"
proof -
  have "connect_with_store demo_ws_env demo_ws_config (Some [demo_row]) = Ok demo_start"
    by (simp add: connect_with_store_def validate_url_def demo_ws_env_def demo_start_def)
  then have start: "ws_reachable demo_ws_env demo_ws_config demo_start" by (rule ws_reachable.start) simp
  have "wc_pc demo_start = Outer" by (simp add: demo_start_def)
  with start show dialing: "ws_reachable demo_ws_env demo_ws_config demo_dialing"
    unfolding demo_dialing_def by (auto intro: ws_reachable.step ws_step.task task_step.outer)
  then have loading: "ws_reachable demo_ws_env demo_ws_config demo_loading"
    using demo_pcs(1) unfolding demo_loading_def by (auto intro: ws_reachable.step ws_step.task task_step.dialing)
  then show "ws_reachable demo_ws_env demo_ws_config demo_session"
    using demo_pcs(3) unfolding demo_session_def by (auto intro: ws_reachable.step ws_step.task task_step.loading)
qed

section \<open>Properties\<close>

text \<open>
  The delay before the n-th attempt is the base doubled n - 1 times, cut at the maximum, for
  every n: the saturating arithmetic on 64 bits never shows, and the delay never exceeds the
  configured maximum.
\<close>

theorem backoff_exact:
  "backoff_delay options attempt = from_millis (min
     (as_millis (wo_backoff_base options) mod 2 ^ 64 * 2 ^ (unat attempt - 1))
     (as_millis (wo_backoff_max options) mod 2 ^ 64))
   \<and> backoff_delay options attempt \<le> wo_backoff_max options"
  by (simp only: backoff_delay_min [symmetric] backoff_delay_le simp_thms)

text \<open>
  C11: In every state the client can reach, whatever the callers and the network do and whichever
  calls of the database fail, as long as this client is the only one that writes the rows of the
  message table: the queue in memory holds at most 1024 messages; the state read by the callers is
  the one announced last, or closed; a session has announced itself as open, its count of pings
  without an answer is zero or below the limit, and its queue of stored messages are rows of the
  table for its target, each id once; the task waits only when automatic reconnection is on, no
  longer than the maximum, and without it every dial is a first attempt; and the task ends only
  after a stop, closed. In particular the task does not end when a connection fails without
  automatic reconnection: the comments promise that it stays in the state Error or gives up, while
  the code dials again (\<open>no_reconnect_redials_at_once\<close>).
\<close>

theorem ws_client_invariant:
  assumes "ws_reachable E cfg s"
  shows "length (wc_outbox s) \<le> 1024
    \<and> (wc_events s \<noteq> [] \<and> wc_state s \<noteq> Closed \<longrightarrow> announced (wc_events s) = Some (wc_state s))
    \<and> (\<forall>n queue missed. wc_pc s = Session n queue missed \<longrightarrow>
         announced (wc_events s) = Some Open
         \<and> (missed = 0 \<or> missed < wo_max_missed_pongs (wf_options cfg))
         \<and> distinct (map fst queue)
         \<and> (\<forall>rows. wc_store s = Some rows \<longrightarrow> (\<forall>(i, m) \<in> set queue. \<exists>r \<in> set rows. wr_id r = i
              \<and> wr_target r = wf_target cfg \<and> from_record (we_codec E) (wr_type r) (wr_payload r) = Some m)))
    \<and> (\<forall>d n. wc_pc s = Waiting d n \<longrightarrow> wo_auto_reconnect (wf_options cfg) \<and> d \<le> wo_backoff_max (wf_options cfg))
    \<and> (\<forall>n. wc_pc s = Dialing n \<and> \<not> wo_auto_reconnect (wf_options cfg) \<longrightarrow> n = 1)
    \<and> (wc_pc s = Ended \<longrightarrow> wc_stop s \<and> wc_state s = Closed)"
  using ws_inv_reachable[OF assms] by (auto simp: ws_inv_def queued_ok_def OUTBOX_CAPACITY_def)

theorem ws_client_invariant_witness:
  "announced (wc_events demo_session) = Some Open"
  using ws_client_invariant[OF demo_reachable(2)] demo_pcs(4) by auto

text \<open>
  C12: A stored message is not lost. In one step of anything other than the opening of a session,
  a row of the table stays, or it goes because its message was written to the connection in this
  very step. The opening of a session at the time \<open>now\<close> takes exactly the rows of the client's
  target that are older than 24 hours, or none when the purge fails; every younger row and every
  row of another target stays.
\<close>

theorem stored_until_sent:
  assumes "ws_reachable E cfg s" "ws_step E cfg s t" "wc_store s = Some rows" "r \<in> set rows"
  shows "\<exists>rows'. wc_store t = Some rows' \<and>
     (r \<in> set rows'
      \<or> (\<exists>m. from_record (we_codec E) (wr_type r) (wr_payload r) = Some m \<and> wr_target r = wf_target cfg
             \<and> wc_wire t = wc_wire s @ [frame_of m])
      \<or> (\<exists>n now purge_ok list_ok close_ok. wc_pc s = Loading n
             \<and> t = start_session E cfg now purge_ok list_ok close_ok n s))
    \<and> (\<forall>n now purge_ok list_ok close_ok.
         wc_store (start_session E cfg now purge_ok list_ok close_ok n s) =
           Some (if purge_ok
                 then filter (\<lambda>r. wr_target r = wf_target cfg \<longrightarrow> now - seconds (24 * 3600) \<le> wr_created_at r) rows
                 else rows))"
proof -
  have "filter (\<lambda>r. \<not> (wr_target r = wf_target cfg \<and> wr_created_at r < now - seconds (24 * 3600))) rows =
      filter (\<lambda>r. wr_target r = wf_target cfg \<longrightarrow> now - seconds (24 * 3600) \<le> wr_created_at r) rows" for now
    by (intro filter_cong) auto
  then have at_open: "wc_store (start_session E cfg now purge_ok list_ok close_ok n s) =
           Some (if purge_ok
                 then filter (\<lambda>r. wr_target r = wf_target cfg \<longrightarrow> now - seconds (24 * 3600) \<le> wr_created_at r) rows
                 else rows)" for n now purge_ok list_ok close_ok
    using assms(3)
    by (simp add: start_session_store purge_expired_ws_messages_def Let_def WS_MESSAGE_TTL_def)
  show ?thesis
    using row_fate_step[OF assms(2) ws_inv_reachable[OF assms(1)] assms(3,4)] at_open unfolding row_fate_def by simp
qed

theorem stored_until_sent_witness:
  "\<exists>t. ws_step demo_ws_env demo_ws_config demo_session t \<and> wc_store t = Some [] \<and> wc_wire t = [F_Ping ''p'']"
proof -
  let ?t = "session_outgoing demo_ws_config (Inr ()) True 1 [(7, Out_Ping ''p'')] 0 demo_session"
  have step: "ws_step demo_ws_env demo_ws_config demo_session ?t"
    by (rule ws_step.task, rule task_step.sending[OF demo_pcs(4)]) simp
  have gone: "wc_store ?t = Some []"
    by (simp add: session_outgoing_def ws_effects demo_pcs delete_ws_messages_def demo_row_def Let_def)
  have "wc_wire ?t = wc_wire demo_session @ [F_Ping ''p'']"
    using stored_until_sent[OF demo_reachable(2) step demo_pcs(5), of demo_row] gone demo_pcs(4)
    by (auto simp: demo_row_def demo_ws_env_def demo_ws_config_def)
  with step gone demo_pcs(8) show ?thesis by auto
qed

text \<open>
  A message given to the client is queued in order, or stored in a row that decodes back to
  it, or refused with an error and the client unchanged; it is never dropped silently.
\<close>

theorem send_queues_stores_or_refuses:
  assumes "\<forall>x. wb_decode B (wb_encode B x) = Some x"
  shows "case send_message B target db message s of
     (Inl e, t) \<Rightarrow> t = s
   | (Inr u, t) \<Rightarrow> wc_outbox t = wc_outbox s @ [outgoing_of message]
       \<or> (\<exists>rows r. wc_store s = Some rows \<and> wc_store t = Some (rows @ [r]) \<and> wc_outbox t = wc_outbox s
            \<and> wr_target r = target \<and> from_record B (wr_type r) (wr_payload r) = Some (outgoing_of message))"
  using assms
  by (cases message)
     (auto simp: send_message_def persist_overflow_def enqueue_ws_message_def Let_def split: option.split sum.split)

theorem send_queues_stores_or_refuses_witness:
  "fst (send_message (we_codec demo_ws_env) ''ws://h'' (Inr (1, 0)) (Text ''hi'') demo_session) = Ok ()
   \<and> wc_outbox (snd (send_message (we_codec demo_ws_env) ''ws://h'' (Inr (1, 0)) (Text ''hi'') demo_session)) = [Out_Text ''hi'']"
  using send_queues_stores_or_refuses[where B = "we_codec demo_ws_env" and target = "''ws://h''" and db = "Inr (1, 0)"
      and message = "Text ''hi''" and s = demo_session]
  by (simp add: send_message_def demo_pcs OUTBOX_CAPACITY_def demo_ws_env_def)



text \<open>
  A stop called while the client is connecting is lost: nobody listens to the stop channel
  then, so the signal is not stored; \<open>stop\<close> returns with the state closed, and the task goes on
  and opens the connection all the same.
\<close>

theorem stop_lost_while_connecting:
  assumes "wc_pc s = Dialing n" "\<not> wc_stop s" "we_uri E (wf_target cfg) = Inr uri"
  shows "stop_signal s = s \<and> wc_state (stop_return (stop_signal s)) = Closed
    \<and> (\<exists>t. task_step E cfg (stop_return (stop_signal s)) t \<and> wc_pc t = Loading n \<and> wc_state t = Open \<and> \<not> wc_stop t)"
proof -
  let ?s = "stop_return (stop_signal s)"
  have s: "wc_pc ?s = Dialing n" "\<not> wc_stop ?s" using assms by (simp_all add: stop_signal_def stop_return_def)
  have "wc_pc (dial E cfg (Inr []) n ?s) = Loading n \<and> wc_state (dial E cfg (Inr []) n ?s) = Open
      \<and> \<not> wc_stop (dial E cfg (Inr []) n ?s)"
    using s assms(3) by (simp add: dial_def build_request_def ws_effects)
  with task_step.dialing[OF s(1), of E cfg "Inr []"] assms(1) show ?thesis
    by (auto simp: stop_signal_def stop_return_def)
qed

theorem stop_lost_while_connecting_witness:
  "stop_signal demo_dialing = demo_dialing \<and> ws_reachable demo_ws_env demo_ws_config demo_dialing"
  using stop_lost_while_connecting[OF demo_pcs(1,2), of demo_ws_env demo_ws_config] demo_reachable(1)
  by (simp add: demo_ws_env_def)

text \<open>
  Without automatic reconnection a failed connection or a finished session does not leave the
  client in its error or closed state: the only next step of the task announces connecting and
  dials again, without any delay.
\<close>

theorem no_reconnect_redials_at_once:
  assumes "\<not> wo_auto_reconnect (wf_options cfg)" "\<not> wc_stop s"
    and "u = connect_failed cfg reason n s \<or> u = end_session cfg n res s"
  shows "wc_state u \<in> {Error, Closed}
    \<and> (\<forall>t. task_step E cfg u t \<longrightarrow> wc_pc t = Dialing 1 \<and> wc_state t = Connecting) \<and> (\<exists>t. task_step E cfg u t)"
proof -
  have u: "wc_pc u = Outer" "\<not> wc_stop u" "wc_state u \<in> {Error, Closed}"
    using assms by (cases res; auto simp: connect_failed_def end_session_def ws_effects Let_def)+
  have "t = loop_outer u" if "task_step E cfg u t" for t
    using that u(1) by (auto elim: task_stepE)
  moreover have "wc_pc (loop_outer u) = Dialing 1" "wc_state (loop_outer u) = Connecting"
    using u(2) by (simp_all add: loop_outer_def ws_effects)
  ultimately show ?thesis using u(3) task_step.outer[OF u(1), of E cfg] by blast
qed

theorem no_reconnect_redials_at_once_witness:
  "wc_state (connect_failed (demo_ws_config\<lparr>wf_options := default_ws_options\<lparr>wo_auto_reconnect := False\<rparr>\<rparr>)
     (Msg ''x'' []) 1 demo_dialing) \<in> {Error, Closed}"
  using no_reconnect_redials_at_once[OF _ demo_pcs(2) disjI1[OF refl],
      of "demo_ws_config\<lparr>wf_options := default_ws_options\<lparr>wo_auto_reconnect := False\<rparr>\<rparr>" "Msg ''x'' []" 1 demo_ws_env]
  by simp

end
