(* ===== verification/TestAssert.thy ===== *)
theory TestAssert
  imports HttpClient
begin

text \<open>
  Assertions and extractions of the test runner (\<open>fox-test/src/config.rs\<close>, \<open>extract.rs\<close>,
  \<open>assert.rs\<close>). JSON paths, regular expressions, number formatting and parsing and the derived
  deserialiser are other crates': the parameter record \<open>test_env\<close>. Reasons of failures are an
  English template with its arguments.
\<close>

record set_variable =
  sv_name :: str
  sv_value :: str

record extract_spec =
  ex_name :: str
  ex_from :: str
  ex_path :: str

definition default_extract_from :: str where "default_extract_from = ''body''"

record assertion_spec =
  as_name :: "str option"
  as_type :: str
  as_path :: "str option"
  as_op :: "str option"
  as_expected :: "json option"

record test_spec =
  ts_pre_request :: "set_variable list"
  ts_extract :: "extract_spec list"
  ts_assertions :: "assertion_spec list"

record test_env =
  te_query :: "json \<Rightarrow> str \<Rightarrow> json list option"
  te_json_text :: "json \<Rightarrow> str"
  te_json_parse :: "str \<Rightarrow> json option"
  te_as_f64 :: "jnumber \<Rightarrow> f64 option"
  te_parse_f64 :: "str \<Rightarrow> f64 option"
  te_show_f64 :: "f64 \<Rightarrow> str"
  te_finite :: "f64 \<Rightarrow> bool"
  te_regex :: "str \<Rightarrow> (str, str \<Rightarrow> bool) result"
  te_utf8_lossy :: "str \<Rightarrow> str"
  te_spec :: "json \<Rightarrow> (str, test_spec) result"

record timed_response = http_response_data +
  hd_duration_ms :: f64

definition from_request_value :: "test_env \<Rightarrow> json option \<Rightarrow> (msg, test_spec) result" where
  "from_request_value T v =
     (case v of
        None \<Rightarrow> Ok \<lparr>ts_pre_request = [], ts_extract = [], ts_assertions = []\<rparr>
      | Some j \<Rightarrow>
          if j = JNull then Ok \<lparr>ts_pre_request = [], ts_extract = [], ts_assertions = []\<rparr>
          else (case te_spec T j of
                  Inl e \<Rightarrow> Err (Msg ''test configuration does not parse'' [e])
                | Inr spec \<Rightarrow> Ok spec))"

definition spec_is_empty :: "test_spec \<Rightarrow> bool" where
  "spec_is_empty spec \<longleftrightarrow> ts_pre_request spec = [] \<and> ts_extract spec = [] \<and> ts_assertions spec = []"

section \<open>Extraction\<close>

definition first_match :: "test_env \<Rightarrow> json \<Rightarrow> str \<Rightarrow> json option" where
  "first_match T j path = Option.bind (te_query T j path) (\<lambda>xs. case xs of [] \<Rightarrow> None | x # _ \<Rightarrow> Some x)"

definition extract_body_json :: "test_env \<Rightarrow> json option \<Rightarrow> str \<Rightarrow> str option" where
  "extract_body_json T body_value path =
     Option.bind body_value (\<lambda>j. Option.bind (first_match T j path) (\<lambda>m.
       case m of JString s \<Rightarrow> Some s | JNull \<Rightarrow> None | other \<Rightarrow> Some (te_json_text T other)))"

definition header_value :: "str \<Rightarrow> (str \<times> str) list \<Rightarrow> str option" where
  "header_value name headers = map_option snd (find (\<lambda>(k, v). eq_ignore_ascii_case k name) headers)"

definition extract_one :: "test_env \<Rightarrow> timed_response \<Rightarrow> json option \<Rightarrow> extract_spec \<Rightarrow> str option" where
  "extract_one T resp body_value spec =
     (if ex_from spec = ''header'' then header_value (ex_path spec) (hd_headers resp)
      else extract_body_json T body_value (ex_path spec))"

definition extract_variables ::
  "test_env \<Rightarrow> extract_spec list \<Rightarrow> timed_response \<Rightarrow> json option \<Rightarrow> (str, str) hash_map" where
  "extract_variables T specs resp body_value =
     fold (\<lambda>spec out. case extract_one T resp body_value spec of
                        Some v \<Rightarrow> out(ex_name spec \<mapsto> v) | None \<Rightarrow> out) specs Map.empty"

section \<open>Assertions\<close>

record outcome =
  oc_description :: str
  oc_passed :: bool
  oc_reason :: "msg option"

definition pass :: "str \<Rightarrow> outcome" where
  "pass d = \<lparr>oc_description = d, oc_passed = True, oc_reason = None\<rparr>"

definition fail :: "str \<Rightarrow> msg \<Rightarrow> outcome" where
  "fail d r = \<lparr>oc_description = d, oc_passed = False, oc_reason = Some r\<rparr>"

definition v_to_text :: "test_env \<Rightarrow> json \<Rightarrow> str" where
  "v_to_text T v = (case v of JString s \<Rightarrow> s | JNull \<Rightarrow> [] | other \<Rightarrow> te_json_text T other)"

definition unwrap_or :: "'a \<Rightarrow> 'a option \<Rightarrow> 'a" where
  "unwrap_or d v = (case v of Some x \<Rightarrow> x | None \<Rightarrow> d)"

lemma unwrap_or_simps [simp]: "unwrap_or d (Some x) = x" "unwrap_or d None = d"
  by (simp_all add: unwrap_or_def)

definition describe :: "test_env \<Rightarrow> assertion_spec \<Rightarrow> str" where
  "describe T a =
     (case as_name a of
        Some (c # cs) \<Rightarrow> c # cs
      | _ \<Rightarrow>
          let op = unwrap_or ''eq'' (as_op a);
              expected = (case map_option (v_to_text T) (as_expected a) of
                            Some (c # cs) \<Rightarrow> c # cs
                          | _ \<Rightarrow> unwrap_or [] (as_path a))
          in as_type a @ '' '' @ op @ '' '' @ expected)"

definition to_f64 :: "test_env \<Rightarrow> json \<Rightarrow> f64 option" where
  "to_f64 T v = (case v of JNumber n \<Rightarrow> te_as_f64 T n | JString s \<Rightarrow> te_parse_f64 T s | _ \<Rightarrow> None)"

definition show_bool :: "bool \<Rightarrow> str" where
  "show_bool b = (if b then ''true'' else ''false'')"

definition value_eq :: "test_env \<Rightarrow> json \<Rightarrow> str \<Rightarrow> bool" where
  "value_eq T v text =
     (case v of
        JString s \<Rightarrow> s = text
      | JNumber n \<Rightarrow> te_json_text T (JNumber n) = text
      | JBool b \<Rightarrow> show_bool b = text
      | _ \<Rightarrow> False)"

text \<open>The characters of a string are its bytes that do not continue a sequence.\<close>

definition char_count :: "str \<Rightarrow> nat" where
  "char_count s = length (filter (\<lambda>c. \<not> (128 \<le> (of_char c :: nat) \<and> (of_char c :: nat) < 192)) s)"

definition is_empty_value :: "json \<Rightarrow> bool" where
  "is_empty_value v =
     (case v of JNull \<Rightarrow> True | JString s \<Rightarrow> s = [] | JArray a \<Rightarrow> a = [] | JObject kvs \<Rightarrow> kvs = [] | _ \<Rightarrow> False)"

definition json_len :: "test_env \<Rightarrow> json \<Rightarrow> nat" where
  "json_len T v =
     (case v of
        JString s \<Rightarrow> char_count s
      | JArray a \<Rightarrow> length a
      | JObject kvs \<Rightarrow> length kvs
      | JNull \<Rightarrow> 0
      | other \<Rightarrow> length (te_json_text T other))"

definition nat_value :: "nat \<Rightarrow> json" where
  "nat_value n = JNumber (PosInt (of_nat n))"

definition actual :: "test_env \<Rightarrow> assertion_spec \<Rightarrow> timed_response \<Rightarrow> json option \<Rightarrow> json option" where
  "actual T a resp body_value =
     (let ty = as_type a in
      if ty = ''status'' then Some (nat_value (unat (hd_status resp)))
      else if ty = ''header'' then map_option JString (header_value (unwrap_or [] (as_path a)) (hd_headers resp))
      else if ty = ''response_time_ms'' then
        Some (if te_finite T (hd_duration_ms resp) then JNumber (Float (hd_duration_ms resp)) else JNull)
      else if ty = ''body'' then Some (JString (te_utf8_lossy T (hd_body resp)))
      else if ty = ''jsonpath'' then
        Option.bind (as_path a) (\<lambda>path. map_option JString (extract_body_json T body_value path))
      else if ty = ''graphql_errors'' then
        Some (JArray (unwrap_or [] (Option.bind (Option.bind body_value (json_get ''errors'')) as_array)))
      else if ty = ''length'' then
        map_option nat_value
          (case as_path a of
             Some path \<Rightarrow> Option.bind body_value (\<lambda>j. map_option (json_len T) (first_match T j path))
           | None \<Rightarrow>
               Some (case body_value of
                       Some (JString s) \<Rightarrow> char_count s
                     | Some other \<Rightarrow> length (te_json_text T other)
                     | None \<Rightarrow> 0))
      else body_value)"

definition cmp_ops :: "str \<Rightarrow> f64 \<Rightarrow> f64 \<Rightarrow> bool" where
  "cmp_ops op got want =
     (if op = ''gt'' then f64_gt got want
      else if op = ''gte'' then f64_ge got want
      else if op = ''lt'' then f64_gt want got
      else f64_ge want got)"

text \<open>The result of an operator on the actual value: the reason when it fails.\<close>

definition check_op :: "test_env \<Rightarrow> str \<Rightarrow> json \<Rightarrow> str \<Rightarrow> (msg, unit) result" where
  "check_op T op v expected =
     (let content = v_to_text T v;
          ensure = (\<lambda>b r. if b then Ok () else Err (Msg r [content, expected])) in
      if op = ''eq'' then ensure (value_eq T v expected) ''not equal to the expected value''
      else if op = ''neq'' then ensure (\<not> value_eq T v expected) ''should not be equal''
      else if op = ''contains'' then ensure (contains expected content) ''does not contain''
      else if op = ''not_contains'' then ensure (\<not> contains expected content) ''should not contain''
      else if op = ''gt'' \<or> op = ''gte'' \<or> op = ''lt'' \<or> op = ''lte'' then
        (case (to_f64 T v, te_parse_f64 T expected) of
           (Some g, Some w) \<Rightarrow>
             if cmp_ops op g w then Ok ()
             else Err (Msg ''comparison does not hold'' [te_show_f64 T g, op, te_show_f64 T w])
         | (None, _) \<Rightarrow> Err (Msg ''the actual value is not a number'' [content])
         | (_, None) \<Rightarrow> Err (Msg ''the expected value is not a number'' [expected]))
      else if op = ''exists'' then Ok ()
      else if op = ''not_exists'' then Err (Msg ''the value exists'' [content])
      else if op = ''matches'' then
        (case te_regex T expected of
           Inr re \<Rightarrow> ensure (re content) ''does not match''
         | Inl e \<Rightarrow> Err (Msg ''invalid regular expression'' [expected, e]))
      else if op = ''not_matches'' then
        (case te_regex T expected of
           Inr re \<Rightarrow> ensure (\<not> re content) ''should not match''
         | Inl e \<Rightarrow> Err (Msg ''invalid regular expression'' [expected, e]))
      else if op = ''empty'' then ensure (is_empty_value v) ''should be empty''
      else if op = ''not_empty'' then ensure (\<not> is_empty_value v) ''should not be empty''
      else Err (Msg ''unsupported operator'' [op]))"

definition evaluate :: "test_env \<Rightarrow> assertion_spec \<Rightarrow> timed_response \<Rightarrow> json option \<Rightarrow> outcome" where
  "evaluate T a resp body_value =
     (let description = describe T a;
          op = unwrap_or ''eq'' (as_op a);
          expected = unwrap_or [] (map_option (v_to_text T) (as_expected a))
      in case actual T a resp body_value of
           None \<Rightarrow>
             if op = ''not_exists'' then pass description
             else if op = ''exists'' then fail description (Msg ''the value does not exist'' [])
             else fail description (Msg ''no actual value: no match of the path or no such header'' [])
         | Some v \<Rightarrow>
             (case check_op T op v expected of
                Inr _ \<Rightarrow> pass description
              | Inl reason \<Rightarrow> fail description reason))"

section \<open>What the operators mean\<close>

definition test_operators :: "str list" where
  "test_operators = [''eq'', ''neq'', ''contains'', ''not_contains'', ''gt'', ''gte'', ''lt'', ''lte'',
     ''exists'', ''not_exists'', ''matches'', ''not_matches'', ''empty'', ''not_empty'']"

definition passes :: "test_env \<Rightarrow> assertion_spec \<Rightarrow> timed_response \<Rightarrow> json option \<Rightarrow> str \<Rightarrow> bool" where
  "passes T a resp body_value op \<longleftrightarrow> oc_passed (evaluate T (a\<lparr>as_op := Some op\<rparr>) resp body_value)"

lemma actual_op [simp]: "actual T (a\<lparr>as_op := op\<rparr>) resp b = actual T a resp b"
  by (simp add: actual_def Let_def)

lemma describe_default_op: "describe T (a\<lparr>as_op := None\<rparr>) = describe T (a\<lparr>as_op := Some ''eq''\<rparr>)"
  by (cases "as_name a") (simp_all add: describe_def Let_def split: list.split option.split)

lemma passes_cases:
  "passes T a resp b op = (case actual T a resp b of
     None \<Rightarrow> op = ''not_exists''
   | Some v \<Rightarrow> check_op T op v (unwrap_or [] (map_option (v_to_text T) (as_expected a))) = Ok ())"
  by (simp add: passes_def evaluate_def pass_def fail_def Let_def split: option.split sum.split)

lemma check_unknown: "op \<notin> set test_operators \<Longrightarrow> check_op T op v expected \<noteq> Ok ()"
  by (simp add: check_op_def test_operators_def Let_def)

lemma check_complements:
  "(check_op T ''neq'' v x = Ok ()) = (check_op T ''eq'' v x \<noteq> Ok ())"
  "(check_op T ''not_contains'' v x = Ok ()) = (check_op T ''contains'' v x \<noteq> Ok ())"
  "(check_op T ''not_empty'' v x = Ok ()) = (check_op T ''empty'' v x \<noteq> Ok ())"
  "check_op T ''exists'' v x = Ok ()" "check_op T ''not_exists'' v x \<noteq> Ok ()"
  "(check_op T ''not_matches'' v x = Ok ()) = (check_op T ''matches'' v x \<noteq> Ok () \<and> (\<exists>re. te_regex T x = Inr re))"
  by (simp_all add: check_op_def Let_def split: sum.split)

lemma check_orders:
  "(\<exists>op \<in> {''gt'', ''gte'', ''lt'', ''lte''}. check_op T op v x = Ok ()) \<Longrightarrow>
     \<exists>g w. to_f64 T v = Some g \<and> te_parse_f64 T x = Some w \<and> \<not> f64_is_nan g \<and> \<not> f64_is_nan w"
  "to_f64 T v = Some g \<Longrightarrow> te_parse_f64 T x = Some w \<Longrightarrow> \<not> f64_is_nan g \<Longrightarrow> \<not> f64_is_nan w \<Longrightarrow>
     (check_op T ''lte'' v x = Ok ()) = (check_op T ''gt'' v x \<noteq> Ok ()) \<and>
     (check_op T ''lt'' v x = Ok ()) = (check_op T ''gte'' v x \<noteq> Ok ())"
  by (auto simp: check_op_def Let_def cmp_ops_def f64_gt_def f64_ge_def split: option.splits if_splits)

definition demo_test_env :: test_env where
  "demo_test_env = \<lparr>te_query = (\<lambda>j p. None), te_json_text = (\<lambda>j. ''true''), te_json_parse = (\<lambda>s. None),
    te_as_f64 = (\<lambda>n. None), te_parse_f64 = (\<lambda>s. None), te_show_f64 = (\<lambda>x. []), te_finite = (\<lambda>x. True),
    te_regex = (\<lambda>s. Inl []), te_utf8_lossy = (\<lambda>s. s), te_spec = (\<lambda>j. Inl [])\<rparr>"

section \<open>Properties\<close>

text \<open>
  What an assertion decides. Without an actual value only \<open>not_exists\<close> passes. With one,
  \<open>neq\<close>, \<open>not_contains\<close>, \<open>not_empty\<close> are the negations of \<open>eq\<close>, \<open>contains\<close>, \<open>empty\<close>; a pattern
  and its negation are exclusive and both fail when the pattern is invalid; the four comparisons
  pass only between numbers, where \<open>lte\<close> and \<open>lt\<close> negate \<open>gt\<close> and \<open>gte\<close>; an unknown operator
  never passes; and a missing operator is \<open>eq\<close>.
\<close>

theorem assertion_semantics:
  "(actual T a resp b = None \<longrightarrow> (\<forall>op. passes T a resp b op \<longleftrightarrow> op = ''not_exists''))
   \<and> (\<forall>v. actual T a resp b = Some v \<longrightarrow>
        (let expected = unwrap_or [] (map_option (v_to_text T) (as_expected a)); P = passes T a resp b in
          (P ''neq'' \<longleftrightarrow> \<not> P ''eq'') \<and> (P ''not_contains'' \<longleftrightarrow> \<not> P ''contains'') \<and> (P ''not_empty'' \<longleftrightarrow> \<not> P ''empty'')
          \<and> P ''exists'' \<and> \<not> P ''not_exists''
          \<and> (P ''not_matches'' \<longleftrightarrow> \<not> P ''matches'' \<and> (\<exists>re. te_regex T expected = Inr re))
          \<and> (P ''gt'' \<or> P ''gte'' \<or> P ''lt'' \<or> P ''lte'' \<longrightarrow> (\<exists>g w. to_f64 T v = Some g \<and> te_parse_f64 T expected = Some w))
          \<and> (\<forall>g w. to_f64 T v = Some g \<and> te_parse_f64 T expected = Some w \<and> \<not> f64_is_nan g \<and> \<not> f64_is_nan w \<longrightarrow>
               (P ''lte'' \<longleftrightarrow> \<not> P ''gt'') \<and> (P ''lt'' \<longleftrightarrow> \<not> P ''gte''))
          \<and> (\<forall>op. op \<notin> set test_operators \<longrightarrow> \<not> P op)))
   \<and> evaluate T (a\<lparr>as_op := None\<rparr>) resp b = evaluate T (a\<lparr>as_op := Some ''eq''\<rparr>) resp b"
proof (intro conjI allI impI)
  fix v assume v: "actual T a resp b = Some v"
  define x where "x = unwrap_or [] (map_option (v_to_text T) (as_expected a))"
  have P: "passes T a resp b op \<longleftrightarrow> check_op T op v x = Ok ()" for op
    using v by (simp add: passes_cases x_def)
  have "\<exists>g w. to_f64 T v = Some g \<and> te_parse_f64 T x = Some w"
    if "passes T a resp b ''gt'' \<or> passes T a resp b ''gte'' \<or> passes T a resp b ''lt'' \<or> passes T a resp b ''lte''"
    using that check_orders(1)[of T v x] unfolding P by blast
  then show "let expected = unwrap_or [] (map_option (v_to_text T) (as_expected a)); P = passes T a resp b in
      (P ''neq'' \<longleftrightarrow> \<not> P ''eq'') \<and> (P ''not_contains'' \<longleftrightarrow> \<not> P ''contains'') \<and> (P ''not_empty'' \<longleftrightarrow> \<not> P ''empty'')
      \<and> P ''exists'' \<and> \<not> P ''not_exists''
      \<and> (P ''not_matches'' \<longleftrightarrow> \<not> P ''matches'' \<and> (\<exists>re. te_regex T expected = Inr re))
      \<and> (P ''gt'' \<or> P ''gte'' \<or> P ''lt'' \<or> P ''lte'' \<longrightarrow> (\<exists>g w. to_f64 T v = Some g \<and> te_parse_f64 T expected = Some w))
      \<and> (\<forall>g w. to_f64 T v = Some g \<and> te_parse_f64 T expected = Some w \<and> \<not> f64_is_nan g \<and> \<not> f64_is_nan w \<longrightarrow>
           (P ''lte'' \<longleftrightarrow> \<not> P ''gt'') \<and> (P ''lt'' \<longleftrightarrow> \<not> P ''gte''))
      \<and> (\<forall>op. op \<notin> set test_operators \<longrightarrow> \<not> P op)"
    unfolding Let_def x_def[symmetric]
    using check_orders(2)[of T v _ x] check_unknown by (simp add: P check_complements)
qed (simp_all add: passes_cases evaluate_def describe_default_op Let_def)

theorem assertion_semantics_witness:
  "\<forall>resp :: timed_response. passes demo_test_env
     \<lparr>as_name = None, as_type = ''other'', as_path = None, as_op = None, as_expected = Some (JBool True)\<rparr>
     resp (Some (JBool False)) ''neq''"
proof
  fix resp :: timed_response
  let ?a = "\<lparr>as_name = None, as_type = ''other'', as_path = None, as_op = None, as_expected = Some (JBool True)\<rparr>"
  have a: "actual demo_test_env ?a resp (Some (JBool False)) = Some (JBool False)" by (simp add: actual_def)
  have "\<not> passes demo_test_env ?a resp (Some (JBool False)) ''eq''"
    by (simp add: passes_cases a) (simp add: check_op_def v_to_text_def value_eq_def show_bool_def demo_test_env_def)
  with a assertion_semantics[of demo_test_env ?a resp "Some (JBool False)"]
  show "passes demo_test_env ?a resp (Some (JBool False)) ''neq''" by (simp add: Let_def)
qed

end
