(* ===== verification/WorkerPool.thy ===== *)
theory WorkerPool
  imports Prelude "HOL-Library.Multiset"
begin

text \<open>
  The interface the load test and the collection runner share: workers that draw indices from one
  atomic counter until it passes a total, and deliver a result per index. A pool is a step relation
  with three observations: the counter, the indices being worked on and the indices delivered. The
  law says what a step may do to them; the lemmas are what every run of such a pool guarantees.
\<close>

locale worker_pool =
  fixes step :: "'w \<Rightarrow> 'w \<Rightarrow> bool"
    and total :: nat
    and counter :: "'w \<Rightarrow> nat"
    and busy :: "'w \<Rightarrow> nat multiset"
    and delivered :: "'w \<Rightarrow> nat list"
  assumes step_law: "step s t \<Longrightarrow>
      (counter t = counter s \<and> busy t = busy s \<and> delivered t = delivered s)
    \<or> (counter t = Suc (counter s) \<and> delivered t = delivered s
        \<and> busy t = (if counter s < total then add_mset (counter s) (busy s) else busy s))
    \<or> (counter t = counter s \<and> (\<exists>i. i \<in># busy s \<and> busy t = busy s - {#i#} \<and> delivered t = delivered s @ [i]))"
begin

definition accounted :: "'w \<Rightarrow> bool" where
  "accounted s \<longleftrightarrow> busy s + mset (delivered s) = mset_set {..<min (counter s) total}"

lemma accounted_step:
  assumes "step s t" "accounted s"
  shows "accounted t"
proof -
  consider "counter t = counter s" "busy t = busy s" "delivered t = delivered s"
    | "counter t = Suc (counter s)" "delivered t = delivered s" "counter s < total"
      "busy t = add_mset (counter s) (busy s)"
    | "counter t = Suc (counter s)" "delivered t = delivered s" "\<not> counter s < total" "busy t = busy s"
    | i where "counter t = counter s" "i \<in># busy s" "busy t = busy s - {#i#}" "delivered t = delivered s @ [i]"
    using step_law[OF assms(1)] by (auto split: if_splits)
  then show ?thesis
  proof cases
    case 2
    then have "{..<min (counter t) total} = insert (counter s) {..<min (counter s) total}" by auto
    moreover have "counter s \<notin> {..<min (counter s) total}" by simp
    ultimately show ?thesis using assms(2) 2 by (simp add: accounted_def)
  next
    case 3
    then have "min (counter t) total = min (counter s) total" by simp
    with 3 assms(2) show ?thesis by (simp add: accounted_def)
  next
    case 4
    then have "busy t + mset (delivered t) = busy s + mset (delivered s)"
      by simp
    with 4 assms(2) show ?thesis by (simp add: accounted_def)
  qed (use assms in \<open>simp add: accounted_def\<close>)
qed

lemma accounted_run: "rtranclp step s t \<Longrightarrow> accounted s \<Longrightarrow> accounted t"
  by (induction rule: rtranclp_induct) (auto intro: accounted_step)

lemma delivered_once:
  assumes "accounted s"
  shows "distinct (delivered s)" "set (delivered s) \<subseteq> {..<min (counter s) total}"
    "size (busy s) + length (delivered s) = min (counter s) total"
proof -
  have le: "mset (delivered s) \<subseteq># mset_set {..<min (counter s) total}"
    using assms unfolding accounted_def by (metis mset_subset_eq_add_right)
  show "set (delivered s) \<subseteq> {..<min (counter s) total}"
    using set_mset_mono[OF le] by simp
  have "count (mset (delivered s)) i \<le> 1" for i
    using mset_subset_eq_count[OF le, of i] order_trans[of "count (mset (delivered s)) i" 0 1]
    unfolding count_mset_set' by (simp only: split: if_splits)
  then show "distinct (delivered s)"
    unfolding distinct_count_atmost_1 by (metis One_nat_def count_mset_0_iff le_Suc_eq le_zero_eq)
  have "size (busy s + mset (delivered s)) = size (mset_set {..<min (counter s) total})"
    using assms by (simp only: accounted_def)
  then show "size (busy s) + length (delivered s) = min (counter s) total" by simp
qed

lemma all_delivered:
  assumes "accounted s" "busy s = {#}" "total \<le> counter s"
  shows "distinct (delivered s)" "length (delivered s) = total" "set (delivered s) = {..<total}"
proof -
  have m: "mset (delivered s) = mset_set {..<total}"
    using assms unfolding accounted_def by (simp add: min_absorb2)
  show "distinct (delivered s)" by (rule delivered_once(1)[OF assms(1)])
  show "length (delivered s) = total" using arg_cong[OF m, of size] by simp
  show "set (delivered s) = {..<total}" using arg_cong[OF m, of set_mset] by simp
qed

end

text \<open>A relation whose every step lowers a measure stops, and a stuck state is reached from everywhere.\<close>

lemma measure_reaches_stuck:
  fixes m :: "'a \<Rightarrow> nat"
  assumes "\<And>s t. step s t \<Longrightarrow> m t < m s"
  shows "\<exists>t. rtranclp step s t \<and> (\<forall>u. \<not> step t u)"
proof (induction "m s" arbitrary: s rule: less_induct)
  case less
  show ?case
  proof (cases "\<exists>t. step s t")
    case True
    then obtain t where t: "step s t" by blast
    from less[OF assms[OF t]] obtain u where "rtranclp step t u" "\<forall>v. \<not> step u v" by blast
    with t show ?thesis by (meson converse_rtranclp_into_rtranclp)
  qed blast
qed

lemma measure_bounds_run:
  fixes m :: "'a \<Rightarrow> nat"
  assumes "\<And>s t. step s t \<Longrightarrow> m t < m s" and "\<forall>i < n. step (run i) (run (Suc i))"
  shows "n + m (run n) \<le> m (run 0)"
  using assms(2)
proof (induction n)
  case (Suc n)
  then have "n + m (run n) \<le> m (run 0)" "m (run (Suc n)) < m (run n)" using assms(1) by auto
  then show ?case by linarith
qed simp

text \<open>Replacing one element of a list changes a sum over the list by the difference.\<close>

lemma sum_list_update_nat:
  fixes f :: "'a \<Rightarrow> nat"
  assumes "i < length xs"
  shows "sum_list (map f (xs[i := x])) + f (xs ! i) = sum_list (map f xs) + f x"
  using assms
proof (induction xs arbitrary: i)
  case (Cons y ys)
  then show ?case by (cases i) auto
qed simp

lemma sum_mset_update:
  fixes f :: "'a \<Rightarrow> 'b multiset"
  assumes "i < length xs"
  shows "sum_list (map f (xs[i := x])) + f (xs ! i) = sum_list (map f xs) + f x"
  using assms
proof (induction xs arbitrary: i)
  case (Cons y ys)
  show ?case
  proof (cases i)
    case (Suc j)
    then have "sum_list (map f (ys[j := x])) + f (ys ! j) = sum_list (map f ys) + f x"
      using Cons by simp
    then show ?thesis using Suc by (simp add: ac_simps)
  qed (simp add: ac_simps)
qed simp

end
