(* ===== verification/LoadTest.thy ===== *)
theory LoadTest
  imports WorkerPool HttpClient "HOL-Library.List_Lexorder"
begin

text \<open>
  The load test (\<open>fox-test/src/load.rs\<close>): a fixed pool of workers draws request numbers from an
  atomic counter, sends, and passes a sample through a bounded channel to the aggregator. The pool
  is a step relation; between two atomic operations of a worker any other may run. A sample in the
  channel carries the number of its request, which the aggregator does not read. Outcomes of the
  requests and the measured times are free. The counter cannot wrap: it is increased at most once
  per request and once more per worker. Sums and quotients of doubles are the parameter \<open>float_ops\<close>.
\<close>

record load_config =
  lc_concurrency :: nat
  lc_total :: nat

record load_result =
  lr_total :: nat
  lr_ok :: nat
  lr_failed :: nat
  lr_total_ms :: u64
  lr_avg_ms :: f64
  lr_p50_ms :: f64
  lr_p90_ms :: f64
  lr_p99_ms :: f64
  lr_rps :: f64
  lr_errors :: "msg list"
  lr_cancelled :: bool

record load_options =
  lo_timeout_ms :: "u64 option"
  lo_body_cap_bytes :: "nat option"

record float_ops =
  fl_sum :: "f64 list \<Rightarrow> f64"
  fl_div :: "f64 \<Rightarrow> f64 \<Rightarrow> f64"
  fl_mul :: "f64 \<Rightarrow> f64 \<Rightarrow> f64"
  fl_of_nat :: "nat \<Rightarrow> f64"

definition default_load_options :: load_options where
  "default_load_options = \<lparr>lo_timeout_ms = None, lo_body_cap_bytes = None\<rparr>"

definition body_cap :: "load_options \<Rightarrow> nat" where
  "body_cap options = (case lo_body_cap_bytes options of Some n \<Rightarrow> n | None \<Rightarrow> 64 * 1024)"

definition percentile :: "f64 list \<Rightarrow> nat \<Rightarrow> f64" where
  "percentile xs q = (if xs = [] then 0 else xs ! min (length xs * q div 100) (length xs - 1))"

record load_progress =
  pg_done :: nat
  pg_total :: nat
  pg_ok :: nat
  pg_failed :: nat

record sample =
  sm_ok :: bool
  sm_duration_ms :: f64
  sm_err :: "msg option"

definition sample_of :: "(app_error, http_response_data) result \<Rightarrow> f64 \<Rightarrow> sample" where
  "sample_of r d =
     (case r of
        Inr _ \<Rightarrow> \<lparr>sm_ok = True, sm_duration_ms = d, sm_err = None\<rparr>
      | Inl e \<Rightarrow> \<lparr>sm_ok = False, sm_duration_ms = d, sm_err = Some (user_message e)\<rparr>)"

definition clamp :: "nat \<Rightarrow> nat \<Rightarrow> nat \<Rightarrow> nat" where
  "clamp lo hi n = (if n < lo then lo else if hi < n then hi else n)"

definition load_concurrency :: "load_config \<Rightarrow> nat" where
  "load_concurrency cfg = max (clamp 1 500 (lc_concurrency cfg)) 1"

definition load_total :: "load_config \<Rightarrow> nat" where
  "load_total cfg = max (clamp 1 100000 (lc_total cfg)) 1"

section \<open>The aggregator\<close>

record load_agg =
  la_samples :: "f64 list"
  la_ok :: nat
  la_failed :: nat
  la_errors :: "msg list"
  la_done :: nat
  la_progress :: "load_progress list"

definition empty_agg :: load_agg where
  "empty_agg = \<lparr>la_samples = [], la_ok = 0, la_failed = 0, la_errors = [], la_done = 0, la_progress = []\<rparr>"

definition aggregate :: "nat \<Rightarrow> sample \<Rightarrow> load_agg \<Rightarrow> load_agg" where
  "aggregate all_n s a =
     (let d = la_done a + 1;
          ok = (if sm_ok s then la_ok a + 1 else la_ok a);
          failed = (if sm_ok s then la_failed a else la_failed a + 1);
          errors = (case sm_err s of Some e \<Rightarrow> if length (la_errors a) < 5 then la_errors a @ [e] else la_errors a
                                   | None \<Rightarrow> la_errors a)
      in \<lparr>la_samples = la_samples a @ [sm_duration_ms s], la_ok = ok, la_failed = failed, la_errors = errors,
          la_done = d,
          la_progress = la_progress a @ [\<lparr>pg_done = d, pg_total = all_n, pg_ok = ok, pg_failed = failed\<rparr>]\<rparr>)"

definition load_report :: "float_ops \<Rightarrow> bool \<Rightarrow> u64 \<Rightarrow> load_agg \<Rightarrow> load_result" where
  "load_report F cancelled total_ms a =
     (let ordered = sort (la_samples a); elapsed = max total_ms 1 in
      \<lparr>lr_total = la_ok a + la_failed a, lr_ok = la_ok a, lr_failed = la_failed a, lr_total_ms = total_ms,
       lr_avg_ms = (if la_samples a = [] then 0
                    else fl_div F (fl_sum F (la_samples a)) (fl_of_nat F (length (la_samples a)))),
       lr_p50_ms = percentile ordered 50, lr_p90_ms = percentile ordered 90, lr_p99_ms = percentile ordered 99,
       lr_rps = fl_div F (fl_mul F (fl_of_nat F (la_ok a + la_failed a)) (fl_of_nat F 1000)) (fl_of_nat F (unat elapsed)),
       lr_errors = la_errors a, lr_cancelled = cancelled\<rparr>)"

section \<open>The pool\<close>

text \<open>
  A worker is at the top of its loop, has found the run not cancelled, sends request \<open>i\<close>, has a
  sample to pass on, or has left.
\<close>

datatype load_worker = At_Top | May_Draw | Sending nat | Passing nat sample | Gone

record load_pool =
  lp_next :: nat
  lp_workers :: "load_worker list"
  lp_channel :: "(nat \<times> sample) list"
  lp_cancelled :: bool
  lp_agg :: load_agg
  lp_received :: "nat list"

definition start_pool :: "load_config \<Rightarrow> load_pool" where
  "start_pool cfg = \<lparr>lp_next = 0, lp_workers = replicate (load_concurrency cfg) At_Top, lp_channel = [],
     lp_cancelled = False, lp_agg = empty_agg, lp_received = []\<rparr>"

definition set_worker :: "nat \<Rightarrow> load_worker \<Rightarrow> load_pool \<Rightarrow> load_pool" where
  "set_worker w x p = p\<lparr>lp_workers := (lp_workers p)[w := x]\<rparr>"

definition check_cancel :: "nat \<Rightarrow> load_pool \<Rightarrow> load_pool" where
  "check_cancel w p = set_worker w (if lp_cancelled p then Gone else May_Draw) p"

definition draw :: "nat \<Rightarrow> nat \<Rightarrow> load_pool \<Rightarrow> load_pool" where
  "draw all_n w p =
     (let idx = lp_next p in
      set_worker w (if all_n \<le> idx then Gone else Sending idx) (p\<lparr>lp_next := idx + 1\<rparr>))"

definition pass_on :: "nat \<Rightarrow> nat \<Rightarrow> sample \<Rightarrow> load_pool \<Rightarrow> load_pool" where
  "pass_on w i s p = set_worker w At_Top (p\<lparr>lp_channel := lp_channel p @ [(i, s)]\<rparr>)"

definition receive :: "nat \<Rightarrow> load_pool \<Rightarrow> load_pool" where
  "receive all_n p =
     (case lp_channel p of
        [] \<Rightarrow> p
      | (i, s) # rest \<Rightarrow>
          p\<lparr>lp_channel := rest, lp_agg := aggregate all_n s (lp_agg p), lp_received := lp_received p @ [i]\<rparr>)"

inductive load_step :: "load_config \<Rightarrow> load_pool \<Rightarrow> load_pool \<Rightarrow> bool" for cfg where
  cancel: "\<not> lp_cancelled p \<Longrightarrow> load_step cfg p (p\<lparr>lp_cancelled := True\<rparr>)"
| check: "w < length (lp_workers p) \<Longrightarrow> lp_workers p ! w = At_Top \<Longrightarrow> load_step cfg p (check_cancel w p)"
| draw: "w < length (lp_workers p) \<Longrightarrow> lp_workers p ! w = May_Draw \<Longrightarrow> load_step cfg p (draw (load_total cfg) w p)"
| answer: "w < length (lp_workers p) \<Longrightarrow> lp_workers p ! w = Sending i \<Longrightarrow>
    load_step cfg p (set_worker w (Passing i (sample_of r d)) p)"
| pass: "w < length (lp_workers p) \<Longrightarrow> lp_workers p ! w = Passing i s \<Longrightarrow>
    length (lp_channel p) < 2 * load_concurrency cfg \<Longrightarrow> load_step cfg p (pass_on w i s p)"
| recv: "lp_channel p \<noteq> [] \<Longrightarrow> load_step cfg p (receive (load_total cfg) p)"

text \<open>The aggregator's loop ends when every worker has left and the channel is empty.\<close>

definition load_finished :: "load_pool \<Rightarrow> bool" where
  "load_finished p \<longleftrightarrow> set (lp_workers p) \<subseteq> {Gone} \<and> lp_channel p = []"

inductive_cases load_stepE: "load_step cfg p q"

section \<open>Accounting\<close>

fun worker_busy :: "load_worker \<Rightarrow> nat multiset" where
  "worker_busy (Sending i) = {#i#}"
| "worker_busy (Passing i s) = {#i#}"
| "worker_busy _ = {#}"

definition pool_busy :: "load_pool \<Rightarrow> nat multiset" where
  "pool_busy p = sum_list (map worker_busy (lp_workers p))"

definition pool_delivered :: "load_pool \<Rightarrow> nat list" where
  "pool_delivered p = lp_received p @ map fst (lp_channel p)"

lemma set_worker_simps [simp]:
  "lp_next (set_worker w x p) = lp_next p" "lp_channel (set_worker w x p) = lp_channel p"
  "lp_cancelled (set_worker w x p) = lp_cancelled p" "lp_agg (set_worker w x p) = lp_agg p"
  "lp_received (set_worker w x p) = lp_received p" "lp_workers (set_worker w x p) = (lp_workers p)[w := x]"
  "pool_delivered (set_worker w x p) = pool_delivered p"
  by (simp_all add: set_worker_def pool_delivered_def)

lemma pool_busy_set:
  assumes "w < length (lp_workers p)"
  shows "pool_busy (set_worker w x p) + worker_busy (lp_workers p ! w) = pool_busy p + worker_busy x"
  using sum_mset_update[OF assms, of worker_busy x] by (simp add: pool_busy_def)

lemma busy_none: "\<forall>x \<in> set xs. worker_busy x = {#} \<Longrightarrow> sum_list (map worker_busy xs) = {#}"
  by (induction xs) simp_all

lemma pool_busy_worker:
  assumes "w < length (lp_workers p)"
  shows "worker_busy (lp_workers p ! w) \<subseteq># pool_busy p"
  using pool_busy_set[OF assms, of Gone] by (metis empty_neutral(2) mset_subset_eq_add_right worker_busy.simps(5))

interpretation load_run: worker_pool "load_step cfg" "load_total cfg" lp_next pool_busy pool_delivered for cfg
proof (unfold_locales, erule load_stepE, goal_cases)
  case (1 p q)
  then show ?case by (simp add: pool_busy_def pool_delivered_def)
next
  case (2 p q w)
  then show ?case using pool_busy_set[of w p "if lp_cancelled p then Gone else May_Draw"]
    by (simp add: check_cancel_def)
next
  case (3 p q w)
  let ?p = "p\<lparr>lp_next := lp_next p + 1\<rparr>"
  have "pool_busy ?p = pool_busy p" "pool_delivered ?p = pool_delivered p"
    by (simp_all add: pool_busy_def pool_delivered_def)
  then show ?case
    using 3 pool_busy_set[of w ?p "if load_total cfg \<le> lp_next p then Gone else Sending (lp_next p)"]
    by (auto simp: draw_def Let_def)
next
  case (4 p q w i r d)
  then show ?case using pool_busy_set[of w p "Passing i (sample_of r d)"] by simp
next
  case (5 p q w i s)
  let ?p = "p\<lparr>lp_channel := lp_channel p @ [(i, s)]\<rparr>"
  have p: "pool_busy ?p = pool_busy p" "pool_delivered ?p = pool_delivered p @ [i]"
    by (simp_all add: pool_busy_def pool_delivered_def)
  have "i \<in># pool_busy p" using mset_subset_eqD[OF pool_busy_worker[of w p], of i] 5 by simp
  then show ?case using 5 p pool_busy_set[of w ?p At_Top] by (simp add: pass_on_def) (metis add_mset_remove_trivial)
next
  case (6 p q)
  then show ?case by (auto simp: receive_def pool_busy_def pool_delivered_def split: list.split)
qed

definition agg_ok :: "load_config \<Rightarrow> load_pool \<Rightarrow> bool" where
  "agg_ok cfg p \<longleftrightarrow>
     (let a = lp_agg p; n = length (lp_received p) in
      length (la_samples a) = n \<and> la_done a = n \<and> la_ok a + la_failed a = n \<and> length (la_errors a) \<le> min 5 (la_failed a)
      \<and> map pg_done (la_progress a) = [1..<Suc n]
      \<and> list_all (\<lambda>g. pg_total g = load_total cfg \<and> pg_ok g + pg_failed g = pg_done g) (la_progress a)
      \<and> length (lp_channel p) \<le> 2 * load_concurrency cfg
      \<and> list_all (\<lambda>(i, s). sm_ok s = (sm_err s = None)) (lp_channel p)
      \<and> list_all (\<lambda>w. case w of Passing i s \<Rightarrow> sm_ok s = (sm_err s = None) | _ \<Rightarrow> True) (lp_workers p)
      \<and> (\<not> lp_cancelled p \<and> Gone \<in> set (lp_workers p) \<longrightarrow> load_total cfg \<le> lp_next p)
      \<and> length (lp_workers p) = load_concurrency cfg)"

lemma in_set_update: "x \<in> set (xs[w := y]) \<Longrightarrow> x = y \<or> x \<in> set xs"
  using set_update_subset_insert by fastforce

lemma list_all_update: "list_all P xs \<Longrightarrow> P y \<Longrightarrow> list_all P (xs[w := y])"
  by (auto simp: list_all_iff dest!: in_set_update)

lemma sample_of_err: "sm_ok (sample_of r d) = (sm_err (sample_of r d) = None)"
  by (simp add: sample_of_def split: sum.split)

lemma agg_ok_set_worker:
  assumes "agg_ok cfg p" "case x of Passing i s \<Rightarrow> sm_ok s = (sm_err s = None) | _ \<Rightarrow> True"
    "x = Gone \<Longrightarrow> lp_cancelled p \<or> load_total cfg \<le> lp_next p"
  shows "agg_ok cfg (set_worker w x p)"
  using assms by (auto simp: agg_ok_def Let_def intro!: list_all_update dest!: in_set_update)

lemma agg_ok_step: "load_step cfg p q \<Longrightarrow> agg_ok cfg p \<Longrightarrow> agg_ok cfg q"
proof (induction rule: load_step.induct)
  case (check w p)
  then show ?case unfolding check_cancel_def by (intro agg_ok_set_worker) (auto split: if_splits)
next
  case (draw w p)
  have "agg_ok cfg (p\<lparr>lp_next := lp_next p + 1\<rparr>)" using draw.prems by (auto simp: agg_ok_def Let_def)
  then show ?case unfolding draw_def Let_def by (intro agg_ok_set_worker) auto
next
  case (answer w p i r d)
  then show ?case by (intro agg_ok_set_worker) (auto simp: sample_of_err)
next
  case (pass w p i s)
  then have "sm_ok s = (sm_err s = None)"
    by (auto simp: agg_ok_def Let_def list_all_length split: load_worker.splits)
  with pass have "agg_ok cfg (p\<lparr>lp_channel := lp_channel p @ [(i, s)]\<rparr>)" by (auto simp: agg_ok_def Let_def)
  then show ?case unfolding pass_on_def by (intro agg_ok_set_worker) auto
next
  case (recv p)
  then obtain i s rest where c: "lp_channel p = (i, s) # rest" by (cases "lp_channel p") auto
  with recv.prems show ?case
    by (auto simp: agg_ok_def receive_def aggregate_def Let_def split: option.split)
qed (auto simp: agg_ok_def Let_def)

lemma start_ok: "agg_ok cfg (start_pool cfg)" "load_run.accounted cfg (start_pool cfg)"
proof -
  show "agg_ok cfg (start_pool cfg)"
    by (auto simp: agg_ok_def start_pool_def empty_agg_def Let_def list_all_iff)
  have "pool_busy (start_pool cfg) = {#}"
    unfolding pool_busy_def start_pool_def by (rule busy_none) simp
  then show "load_run.accounted cfg (start_pool cfg)"
    by (simp add: load_run.accounted_def) (simp add: pool_delivered_def start_pool_def)
qed

lemma run_ok:
  assumes "rtranclp (load_step cfg) (start_pool cfg) p"
  shows "agg_ok cfg p" "load_run.accounted cfg p"
proof -
  show "agg_ok cfg p" using assms by (induction rule: rtranclp_induct) (auto intro: agg_ok_step start_ok)
  show "load_run.accounted cfg p" using load_run.accounted_run[OF assms start_ok(2)] .
qed

lemma load_bounds: "1 \<le> load_total cfg" "load_total cfg \<le> 100000" "1 \<le> load_concurrency cfg" "load_concurrency cfg \<le> 500"
  by (auto simp: load_total_def load_concurrency_def clamp_def)

lemma finished_busy: "load_finished p \<Longrightarrow> pool_busy p = {#} \<and> pool_delivered p = lp_received p"
  by (auto simp: load_finished_def pool_busy_def pool_delivered_def intro!: busy_none)

section \<open>Termination\<close>

fun worker_weight :: "load_worker \<Rightarrow> nat" where
  "worker_weight At_Top = 2"
| "worker_weight May_Draw = 1"
| "worker_weight (Sending i) = 5"
| "worker_weight (Passing i s) = 4"
| "worker_weight Gone = 0"

definition work_left :: "load_config \<Rightarrow> load_pool \<Rightarrow> nat" where
  "work_left cfg p = 5 * (load_total cfg - lp_next p) + sum_list (map worker_weight (lp_workers p))
     + length (lp_channel p) + (if lp_cancelled p then 0 else 1)"

lemma weight_set:
  assumes "w < length (lp_workers p)"
  shows "sum_list (map worker_weight ((lp_workers p)[w := x])) + worker_weight (lp_workers p ! w)
    = sum_list (map worker_weight (lp_workers p)) + worker_weight x"
  by (rule sum_list_update_nat[OF assms])

lemma work_left_step: "load_step cfg p q \<Longrightarrow> work_left cfg q < work_left cfg p"
proof (induction rule: load_step.induct)
  case (check w p)
  then show ?case using weight_set[of w p "if lp_cancelled p then Gone else May_Draw"]
    by (auto simp: work_left_def check_cancel_def split: if_splits)
next
  case (draw w p)
  then show ?case using weight_set[of w p "if load_total cfg \<le> lp_next p then Gone else Sending (lp_next p)"]
    by (auto simp: work_left_def draw_def Let_def split: if_splits)
next
  case (answer w p i r d)
  then show ?case using weight_set[of w p "Passing i (sample_of r d)"] by (auto simp: work_left_def)
next
  case (pass w p i s)
  then show ?case using weight_set[of w p At_Top] by (auto simp: work_left_def pass_on_def)
next
  case (recv p)
  then show ?case by (auto simp: work_left_def receive_def split: list.split)
qed (simp add: work_left_def)

lemma start_work: "work_left cfg (start_pool cfg) = 5 * load_total cfg + 2 * load_concurrency cfg + 1"
  by (simp add: work_left_def start_pool_def sum_list_replicate)

text \<open>The steps of the pool itself, the user's cancellation left out.\<close>

lemma unfinished_step:
  assumes "\<not> load_finished p"
  shows "\<exists>q. load_step cfg p q \<and> lp_cancelled q = lp_cancelled p"
proof (cases "lp_channel p = []")
  case True
  then obtain x where "x \<in> set (lp_workers p)" "x \<noteq> Gone" using assms by (auto simp: load_finished_def)
  then obtain w where w: "w < length (lp_workers p)" "lp_workers p ! w \<noteq> Gone" by (metis in_set_conv_nth)
  show ?thesis
  proof (cases "lp_workers p ! w")
    case At_Top
    with load_step.check[OF w(1)] show ?thesis by (intro exI[of _ "check_cancel w p"]) (simp add: check_cancel_def)
  next
    case May_Draw
    with load_step.draw[OF w(1)] show ?thesis by (intro exI[of _ "draw (load_total cfg) w p"]) (simp add: draw_def Let_def)
  next
    case (Sending i)
    with load_step.answer[OF w(1) Sending, of cfg "Inl aborted" 0] show ?thesis by auto
  next
    case (Passing i s)
    have "length (lp_channel p) < 2 * load_concurrency cfg" using True load_bounds(3)[of cfg] by simp
    with load_step.pass[OF w(1) Passing, of cfg] show ?thesis by (intro exI[of _ "pass_on w i s p"]) (simp add: pass_on_def)
  qed (use w in simp)
next
  case False
  with load_step.recv[OF False, of cfg] show ?thesis
    by (intro exI[of _ "receive (load_total cfg) p"]) (auto simp: receive_def split: list.split)
qed

section \<open>Percentiles\<close>

lemma percentile_nth:
  assumes "xs \<noteq> []"
  shows "percentile (sort xs) q = sort xs ! min (length xs * q div 100) (length xs - 1)"
  using assms by (simp add: percentile_def) (metis length_0_conv length_sort)

lemma sorted_rank:
  fixes xs :: "'a::linorder list"
  assumes "sorted xs" "i < length xs"
  shows "Suc i \<le> length (filter (\<lambda>x. x \<le> xs ! i) xs)" "length (filter (\<lambda>x. x < xs ! i) xs) \<le> i"
proof -
  have split: "xs = take (Suc i) xs @ drop (Suc i) xs" by simp
  have "\<forall>x \<in> set (take (Suc i) xs). x \<le> xs ! i"
    using assms by (auto simp: in_set_conv_nth intro!: sorted_nth_mono)
  then have "filter (\<lambda>x. x \<le> xs ! i) (take (Suc i) xs) = take (Suc i) xs" by (simp add: filter_id_conv)
  then have "length (filter (\<lambda>x. x \<le> xs ! i) xs) \<ge> length (take (Suc i) xs)"
    by (subst (2) split) (simp only: filter_append length_append le_add1)
  then show "Suc i \<le> length (filter (\<lambda>x. x \<le> xs ! i) xs)" using assms(2) by simp
  have "xs ! i \<le> x" if "x \<in> set (drop i xs)" for x
    using that assms by (auto simp: in_set_conv_nth intro!: sorted_nth_mono)
  then have "filter (\<lambda>x. x < xs ! i) (drop i xs) = []" by (auto simp: filter_empty_conv not_less)
  then have "filter (\<lambda>x. x < xs ! i) xs = filter (\<lambda>x. x < xs ! i) (take i xs)"
    by (metis append_Nil2 append_take_drop_id filter_append)
  then show "length (filter (\<lambda>x. x < xs ! i) xs) \<le> i"
    by (metis length_filter_le length_take min.cobounded2 order_trans)
qed

lemma filter_sort_length: "length (filter P (sort xs)) = length (filter P xs)"
  by (metis mset_filter mset_sort size_mset)

lemma percentile_mono: "p \<le> q \<Longrightarrow> percentile (sort xs) p \<le> percentile (sort xs) q"
proof (cases "xs = []")
  case False
  assume "p \<le> q"
  then have "length xs * p div 100 \<le> length xs * q div 100" by (intro div_le_mono mult_le_mono2)
  moreover have "length xs - 1 < length (sort xs)" using False by (cases xs) simp_all
  ultimately have "sort xs ! min (length xs * p div 100) (length xs - 1) \<le> sort xs ! min (length xs * q div 100) (length xs - 1)"
    by (intro sorted_nth_mono) auto
  then show ?thesis by (simp only: percentile_nth[OF False])
qed (simp add: percentile_def)

lemma percentile_rank:
  assumes "xs \<noteq> []"
  shows "percentile (sort xs) q \<in> set xs"
    "min (length xs * q div 100) (length xs - 1) < length (filter (\<lambda>x. x \<le> percentile (sort xs) q) xs)"
    "length (filter (\<lambda>x. x < percentile (sort xs) q) xs) \<le> length xs * q div 100"
proof -
  let ?i = "min (length xs * q div 100) (length xs - 1)"
  have i: "?i < length (sort xs)" using assms by (cases xs) (simp_all add: min_def)
  show "percentile (sort xs) q \<in> set xs"
    using nth_mem[OF i] by (simp add: percentile_nth[OF assms])
  show "?i < length (filter (\<lambda>x. x \<le> percentile (sort xs) q) xs)"
    using sorted_rank(1)[OF sorted_sort i] by (simp add: percentile_nth[OF assms] filter_sort_length Suc_le_eq)
  show "length (filter (\<lambda>x. x < percentile (sort xs) q) xs) \<le> length xs * q div 100"
    using sorted_rank(2)[OF sorted_sort i] by (simp add: percentile_nth[OF assms] filter_sort_length)
qed

definition demo_floats :: float_ops where
  "demo_floats = \<lparr>fl_sum = (\<lambda>xs. 0), fl_div = (\<lambda>x y. 0), fl_mul = (\<lambda>x y. 0), fl_of_nat = (\<lambda>n. 0)\<rparr>"

section \<open>Properties\<close>

text \<open>
  C14: However the workers, the requests and a cancellation interleave, no request number is used
  twice, the report counts exactly the samples received (at most the configured total, its errors
  at most five and at most the failures), the channel stays within its bound, progress is reported
  once per sample in order; and a run that ends uncancelled has made every request of the total.
\<close>

theorem load_exactly_once:
  assumes "rtranclp (load_step cfg) (start_pool cfg) p"
  shows "let r = load_report F (lp_cancelled p) ms (lp_agg p); n = length (lp_received p) in
      lr_total r = n \<and> lr_ok r + lr_failed r = n \<and> n \<le> load_total cfg
      \<and> distinct (lp_received p) \<and> set (lp_received p) \<subseteq> {..<load_total cfg}
      \<and> length (lr_errors r) \<le> min 5 (lr_failed r)
      \<and> map pg_done (la_progress (lp_agg p)) = [1..<Suc n]
      \<and> length (lp_channel p) \<le> 2 * load_concurrency cfg
      \<and> (load_finished p \<and> \<not> lp_cancelled p \<longrightarrow> n = load_total cfg \<and> set (lp_received p) = {..<load_total cfg})"
proof -
  note agg = run_ok(1)[OF assms] and acc = run_ok(2)[OF assms]
  have once: "distinct (pool_delivered p)" "set (pool_delivered p) \<subseteq> {..<load_total cfg}"
    using load_run.delivered_once(1,2)[OF acc] by auto
  have n: "length (lp_received p) \<le> load_total cfg"
    using load_run.delivered_once(3)[OF acc] by (simp add: pool_delivered_def)
  have finish: "length (lp_received p) = load_total cfg \<and> set (lp_received p) = {..<load_total cfg}"
    if f: "load_finished p" "\<not> lp_cancelled p"
  proof -
    have "lp_workers p \<noteq> []" using agg load_bounds(3)[of cfg] by (auto simp: agg_ok_def Let_def)
    then have "Gone \<in> set (lp_workers p)" using f(1) by (cases "lp_workers p") (auto simp: load_finished_def)
    then have "load_total cfg \<le> lp_next p" using agg f(2) by (simp add: agg_ok_def Let_def)
    then show ?thesis
      using load_run.all_delivered(2,3)[OF acc] finished_busy[OF f(1)] by simp
  qed
  show ?thesis
    using agg once n finish by (simp add: load_report_def agg_ok_def pool_delivered_def Let_def)
qed

theorem load_exactly_once_witness:
  "length (lp_received (start_pool \<lparr>lc_concurrency = 4, lc_total = 20\<rparr>)) \<le> load_total \<lparr>lc_concurrency = 4, lc_total = 20\<rparr>
   \<and> load_total \<lparr>lc_concurrency = 4, lc_total = 20\<rparr> = 20"
  using load_exactly_once[of "\<lparr>lc_concurrency = 4, lc_total = 20\<rparr>" "start_pool \<lparr>lc_concurrency = 4, lc_total = 20\<rparr>"]
  by (simp add: Let_def load_total_def clamp_def)

text \<open>
  C15: A load test ends under every scheduling: a run has at most 5 steps per request, two per worker
  and one for a cancellation, and as long as it has not ended some worker or the aggregator can go on.
\<close>

theorem load_terminates:
  "(trace 0 = start_pool cfg \<and> (\<forall>i < n. load_step cfg (trace i) (trace (Suc i)))
      \<longrightarrow> n \<le> 5 * load_total cfg + 2 * load_concurrency cfg + 1)
   \<and> (\<not> load_finished p \<longrightarrow> (\<exists>q. load_step cfg p q \<and> lp_cancelled q = lp_cancelled p))
   \<and> (\<exists>t. rtranclp (load_step cfg) (start_pool cfg) t \<and> load_finished t)"
proof (intro conjI impI)
  assume r: "trace 0 = start_pool cfg \<and> (\<forall>i < n. load_step cfg (trace i) (trace (Suc i)))"
  have "n + work_left cfg (trace n) \<le> work_left cfg (trace 0)"
    by (rule measure_bounds_run[of "load_step cfg"]) (use r work_left_step in auto)
  then show "n \<le> 5 * load_total cfg + 2 * load_concurrency cfg + 1" using r by (simp add: start_work)
next
  obtain t where t: "rtranclp (load_step cfg) (start_pool cfg) t" "\<forall>u. \<not> load_step cfg t u"
    using measure_reaches_stuck[of "load_step cfg" "work_left cfg" "start_pool cfg"] work_left_step by blast
  with unfinished_step[of t cfg] show "\<exists>t. rtranclp (load_step cfg) (start_pool cfg) t \<and> load_finished t" by blast
qed (rule unfinished_step)

theorem load_terminates_witness:
  "\<exists>q. load_step \<lparr>lc_concurrency = 1, lc_total = 1\<rparr> (start_pool \<lparr>lc_concurrency = 1, lc_total = 1\<rparr>) q"
proof -
  let ?cfg = "\<lparr>lc_concurrency = 1, lc_total = 1\<rparr>"
  have "\<not> load_finished (start_pool ?cfg)"
    by (simp add: load_finished_def start_pool_def load_concurrency_def clamp_def)
  then show ?thesis using load_terminates[of "\<lambda>i. start_pool ?cfg" ?cfg 0 "start_pool ?cfg"] by blast
qed

text \<open>
  The percentiles of a report are ordered (50 below 90 below 99 in the total order of doubles),
  and of a nonempty run each is one of the samples, with at least the rank's number of samples not
  above it and no more than that number below it.
\<close>

theorem percentiles_are_ranks:
  "let r = load_report F c ms a; xs = la_samples a in
     lr_p50_ms r \<le> lr_p90_ms r \<and> lr_p90_ms r \<le> lr_p99_ms r
     \<and> (xs \<noteq> [] \<longrightarrow> (\<forall>(q, v) \<in> set [(50, lr_p50_ms r), (90, lr_p90_ms r), (99, lr_p99_ms r)].
          v \<in> set xs
          \<and> min (length xs * q div 100) (length xs - 1) < length (filter (\<lambda>x. x \<le> v) xs)
          \<and> length (filter (\<lambda>x. x < v) xs) \<le> length xs * q div 100))"
proof -
  let ?P = "percentile (sort (la_samples a))"
  have r: "lr_p50_ms (load_report F c ms a) = ?P 50" "lr_p90_ms (load_report F c ms a) = ?P 90"
    "lr_p99_ms (load_report F c ms a) = ?P 99"
    by (simp_all add: load_report_def Let_def)
  have "?P 50 \<le> ?P 90" "?P 90 \<le> ?P 99" by (rule percentile_mono, simp)+
  then show ?thesis
    unfolding Let_def r using percentile_rank[of "la_samples a"]
    by (simp only: list.set ball_simps split) blast
qed

theorem percentiles_are_ranks_witness:
  "lr_p50_ms (load_report demo_floats False 1 (empty_agg\<lparr>la_samples := [F64 2, F64 1]\<rparr>)) \<in> {F64 1, F64 2}"
  using percentiles_are_ranks[of demo_floats False 1 "empty_agg\<lparr>la_samples := [F64 2, F64 1]\<rparr>"]
  by (auto simp: Let_def)

end
