(* ===== verification/TestRunner.thy ===== *)
theory TestRunner
  imports TestAssert WorkerPool "HOL-Library.Product_Lexorder"
begin

text \<open>
  The test runner (\<open>fox-test/src/runner.rs\<close>). One interface is tested in five moves that each take
  the lock of the shared variables at most once, so that another worker may run between any two:
  \<open>one_step\<close> is one move, \<open>run_one\<close> the five in a row. The collection is a pool of workers over
  these moves. The variables of the runtime and the sequence counters are one shared state. The
  network answers the i-th item by \<open>ru_net i\<close>, the clock measures \<open>ru_duration i\<close>.
\<close>

type_synonym shared = "(str, str) hash_map \<times> seq_state"

record endpoint_result =
  er_endpoint_id :: uuid
  er_endpoint_name :: str
  er_method :: str
  er_path :: str
  er_ok :: bool
  er_status :: "u16 option"
  er_duration_ms :: "f64 option"
  er_request_error :: "msg option"
  er_outcomes :: "outcome list"

definition failed_fast :: "endpoint \<Rightarrow> msg \<Rightarrow> endpoint_result" where
  "failed_fast ep reason =
     \<lparr>er_endpoint_id = ep_id ep, er_endpoint_name = ep_name ep, er_method = method_as_str (ep_method ep),
      er_path = ep_path ep, er_ok = False, er_status = None, er_duration_ms = None,
      er_request_error = Some reason, er_outcomes = []\<rparr>"

definition skipped :: "endpoint \<Rightarrow> endpoint_result" where
  "skipped ep = (failed_fast ep (Msg ''no test configuration (skipped)'' []))\<lparr>er_ok := True\<rparr>"

record collection_item =
  ci_endpoint :: endpoint
  ci_url :: str
  ci_spec :: request_spec

record 'u run_env =
  ru_test :: test_env
  ru_http :: "'u http_env"
  ru_net :: "nat \<Rightarrow> 'u network"
  ru_duration :: "nat \<Rightarrow> f64"

section \<open>Resolving the expected values\<close>

definition resolve_text :: "world \<Rightarrow> str \<Rightarrow> (str, str) hash_map \<Rightarrow> seq_state \<Rightarrow> str \<times> seq_state" where
  "resolve_text w input vars st = resolve_variables w input vars st"

definition needs_resolve :: "assertion_spec \<Rightarrow> bool" where
  "needs_resolve a \<longleftrightarrow> (case as_expected a of Some (JString s) \<Rightarrow> contains ''{{'' s | _ \<Rightarrow> False)"

definition resolve_assertion ::
  "world \<Rightarrow> assertion_spec \<Rightarrow> (str, str) hash_map \<Rightarrow> seq_state \<Rightarrow> assertion_spec \<times> seq_state" where
  "resolve_assertion w a vars st =
     (case as_expected a of
        Some (JString s) \<Rightarrow>
          if contains ''{{'' s
          then (let (t, st') = resolve_text w s vars st in (a\<lparr>as_expected := Some (JString t)\<rparr>, st'))
          else (a, st)
      | _ \<Rightarrow> (a, st))"

fun evaluate_all ::
  "test_env \<Rightarrow> world \<Rightarrow> (str, str) hash_map \<Rightarrow> timed_response \<Rightarrow> json option \<Rightarrow> assertion_spec list \<Rightarrow> seq_state
     \<Rightarrow> outcome list \<times> seq_state" where
  "evaluate_all T w snapshot resp b [] st = ([], st)"
| "evaluate_all T w snapshot resp b (a # as) st =
     (let (a', st1) = (if needs_resolve a then resolve_assertion w a snapshot st else (a, st));
          (os, st2) = evaluate_all T w snapshot resp b as st1
      in (evaluate T a' resp b # os, st2))"

fun inject ::
  "world \<Rightarrow> (str, str) hash_map \<Rightarrow> set_variable list \<Rightarrow> seq_state \<Rightarrow> (str, str) hash_map \<Rightarrow> (str, str) hash_map \<times> seq_state" where
  "inject w snapshot [] st injected = (injected, st)"
| "inject w snapshot (p # ps) st injected =
     (let (v, st1) = resolve_text w (sv_value p) snapshot st
      in inject w snapshot ps st1 (injected(sv_name p \<mapsto> v)))"

section \<open>One interface\<close>

datatype one_phase =
    Ph_Start
  | Ph_Inject test_spec "(str, str) hash_map"
  | Ph_Send test_spec
  | Ph_Assert test_spec timed_response
  | Ph_Extract test_spec timed_response "outcome list"
  | Ph_Done endpoint_result "timed_response option"

definition timed :: "f64 \<Rightarrow> http_response_data \<Rightarrow> timed_response" where
  "timed d r = \<lparr>hd_status = hd_status r, hd_headers = hd_headers r, hd_body = hd_body r,
     hd_size_bytes = hd_size_bytes r, hd_cookies = hd_cookies r, hd_truncated = hd_truncated r, hd_duration_ms = d\<rparr>"

definition begin_one :: "'u run_env \<Rightarrow> endpoint \<Rightarrow> shared \<Rightarrow> one_phase \<times> shared" where
  "begin_one R ep rt =
     (case from_request_value (ru_test R) (rs_tests (ep_request ep)) of
        Inl reason \<Rightarrow> (Ph_Done (failed_fast ep (Msg ''test configuration error'' (msg_text reason # msg_args reason))) None, rt)
      | Inr config \<Rightarrow>
          if spec_is_empty config then (Ph_Done (skipped ep) None, rt)
          else (let (snapshot, st) = rt;
                    (injected, st') = inject (he_world (ru_http R)) snapshot (ts_pre_request config) st Map.empty
                in (Ph_Inject config injected, (snapshot, st'))))"

definition send_one ::
  "'u run_env \<Rightarrow> nat \<Rightarrow> endpoint \<Rightarrow> str \<Rightarrow> request_spec \<Rightarrow> u64 option \<Rightarrow> test_spec \<Rightarrow> shared \<Rightarrow> one_phase \<times> shared" where
  "send_one R i ep url spec timeout_ms config rt =
     (let (vars, st) = rt;
          (r, _, st') = send_request (ru_http R) (ru_net R i) (ep_method ep) url spec timeout_ms st
      in case r of
           Inl e \<Rightarrow> (Ph_Done (failed_fast ep (Msg ''request failed'' (msg_text (user_message e) # msg_args (user_message e)))) None,
                      (vars, st'))
         | Inr resp \<Rightarrow> (Ph_Assert config (timed (ru_duration R i) resp), (vars, st')))"

definition assert_one :: "'u run_env \<Rightarrow> test_spec \<Rightarrow> timed_response \<Rightarrow> shared \<Rightarrow> one_phase \<times> shared" where
  "assert_one R config resp rt =
     (let (snapshot, st) = rt;
          (outcomes, st') = evaluate_all (ru_test R) (he_world (ru_http R)) snapshot resp
             (te_json_parse (ru_test R) (hd_body resp)) (ts_assertions config) st
      in (Ph_Extract config resp outcomes, (snapshot, st')))"

definition extract_step :: "'u run_env \<Rightarrow> endpoint \<Rightarrow> test_spec \<Rightarrow> timed_response \<Rightarrow> outcome list \<Rightarrow> shared \<Rightarrow> one_phase \<times> shared" where
  "extract_step R ep config resp outcomes rt =
     (let extracted = extract_variables (ru_test R) (ts_extract config) resp (te_json_parse (ru_test R) (hd_body resp))
      in (Ph_Done \<lparr>er_endpoint_id = ep_id ep, er_endpoint_name = ep_name ep, er_method = method_as_str (ep_method ep),
                    er_path = ep_path ep, er_ok = list_all oc_passed outcomes, er_status = Some (hd_status resp),
                    er_duration_ms = Some (hd_duration_ms resp), er_request_error = None, er_outcomes = outcomes\<rparr>
            (Some resp), (fst rt ++ extracted, snd rt)))"

fun one_step ::
  "'u run_env \<Rightarrow> nat \<Rightarrow> endpoint \<Rightarrow> str \<Rightarrow> request_spec \<Rightarrow> u64 option \<Rightarrow> one_phase \<times> shared \<Rightarrow> one_phase \<times> shared" where
  "one_step R i ep url spec timeout_ms (Ph_Start, rt) = begin_one R ep rt"
| "one_step R i ep url spec timeout_ms (Ph_Inject config injected, rt) = (Ph_Send config, (fst rt ++ injected, snd rt))"
| "one_step R i ep url spec timeout_ms (Ph_Send config, rt) = send_one R i ep url spec timeout_ms config rt"
| "one_step R i ep url spec timeout_ms (Ph_Assert config resp, rt) = assert_one R config resp rt"
| "one_step R i ep url spec timeout_ms (Ph_Extract config resp outcomes, rt) = extract_step R ep config resp outcomes rt"
| "one_step R i ep url spec timeout_ms (Ph_Done r resp, rt) = (Ph_Done r resp, rt)"

definition run_one ::
  "'u run_env \<Rightarrow> nat \<Rightarrow> endpoint \<Rightarrow> str \<Rightarrow> request_spec \<Rightarrow> shared \<Rightarrow> u64 option \<Rightarrow> (endpoint_result \<times> timed_response option) \<times> shared" where
  "run_one R i ep url spec rt timeout_ms =
     (case (one_step R i ep url spec timeout_ms ^^ 5) (Ph_Start, rt) of
        (Ph_Done r resp, rt') \<Rightarrow> ((r, resp), rt')
      | (_, rt') \<Rightarrow> ((failed_fast ep (Msg [] []), None), rt'))"

definition run_endpoint ::
  "'u run_env \<Rightarrow> endpoint \<Rightarrow> str \<Rightarrow> request_spec \<Rightarrow> shared \<Rightarrow> u64 option \<Rightarrow> (endpoint_result \<times> timed_response option) \<times> shared" where
  "run_endpoint R ep url spec rt timeout_ms = run_one R 0 ep url spec rt timeout_ms"

section \<open>The collection\<close>

record collection_options =
  co_concurrency :: "nat option"
  co_timeout_ms :: "u64 option"

record collection_result =
  cr_results :: "endpoint_result list"
  cr_cancelled :: bool

definition default_collection_options :: collection_options where
  "default_collection_options = \<lparr>co_concurrency = None, co_timeout_ms = None\<rparr>"

datatype col_worker = C_Top | C_May_Draw | C_Running nat one_phase | C_Gone

record col_pool =
  cp_next :: nat
  cp_workers :: "col_worker list"
  cp_channel :: "(nat \<times> endpoint_result) list"
  cp_cancelled :: bool
  cp_shared :: shared
  cp_ordered :: "endpoint_result option list"
  cp_received :: "nat list"
  cp_progress :: "(nat \<times> nat) list"

definition pool_size :: "collection_item list \<Rightarrow> collection_options \<Rightarrow> nat" where
  "pool_size items options =
     (let n = (case co_concurrency options of Some n \<Rightarrow> n | None \<Rightarrow> 5)
      in min (if n < 1 then 1 else if 64 < n then 64 else n) (length items))"

definition start_collection :: "collection_item list \<Rightarrow> collection_options \<Rightarrow> shared \<Rightarrow> col_pool" where
  "start_collection items options rt =
     \<lparr>cp_next = 0, cp_workers = replicate (pool_size items options) C_Top, cp_channel = [], cp_cancelled = False,
      cp_shared = rt, cp_ordered = replicate (length items) None, cp_received = [], cp_progress = []\<rparr>"

definition set_col :: "nat \<Rightarrow> col_worker \<Rightarrow> col_pool \<Rightarrow> col_pool" where
  "set_col w x p = p\<lparr>cp_workers := (cp_workers p)[w := x]\<rparr>"

definition col_check :: "nat \<Rightarrow> col_pool \<Rightarrow> col_pool" where
  "col_check w p = set_col w (if cp_cancelled p then C_Gone else C_May_Draw) p"

definition col_draw :: "collection_item list \<Rightarrow> nat \<Rightarrow> col_pool \<Rightarrow> col_pool" where
  "col_draw items w p =
     (let idx = cp_next p in
      set_col w (if length items \<le> idx then C_Gone else C_Running idx Ph_Start) (p\<lparr>cp_next := idx + 1\<rparr>))"

definition col_move ::
  "'u run_env \<Rightarrow> collection_item list \<Rightarrow> collection_options \<Rightarrow> nat \<Rightarrow> nat \<Rightarrow> one_phase \<Rightarrow> col_pool \<Rightarrow> col_pool" where
  "col_move R items options w i ph p =
     (let item = items ! i;
          (ph', rt') = one_step R i (ci_endpoint item) (ci_url item) (ci_spec item) (co_timeout_ms options) (ph, cp_shared p)
      in set_col w (C_Running i ph') (p\<lparr>cp_shared := rt'\<rparr>))"

definition col_pass :: "nat \<Rightarrow> nat \<Rightarrow> endpoint_result \<Rightarrow> col_pool \<Rightarrow> col_pool" where
  "col_pass w i r p = set_col w C_Top (p\<lparr>cp_channel := cp_channel p @ [(i, r)]\<rparr>)"

definition col_receive :: "col_pool \<Rightarrow> col_pool" where
  "col_receive p =
     (case cp_channel p of
        [] \<Rightarrow> p
      | (i, r) # rest \<Rightarrow>
          p\<lparr>cp_channel := rest, cp_ordered := (cp_ordered p)[i := Some r], cp_received := cp_received p @ [i],
            cp_progress := cp_progress p @ [(length (cp_received p) + 1, length (cp_ordered p))]\<rparr>)"

inductive col_step ::
  "'u run_env \<Rightarrow> collection_item list \<Rightarrow> collection_options \<Rightarrow> col_pool \<Rightarrow> col_pool \<Rightarrow> bool" for R items options where
  cancel: "\<not> cp_cancelled p \<Longrightarrow> col_step R items options p (p\<lparr>cp_cancelled := True\<rparr>)"
| check: "w < length (cp_workers p) \<Longrightarrow> cp_workers p ! w = C_Top \<Longrightarrow> col_step R items options p (col_check w p)"
| draw: "w < length (cp_workers p) \<Longrightarrow> cp_workers p ! w = C_May_Draw \<Longrightarrow> col_step R items options p (col_draw items w p)"
| move: "w < length (cp_workers p) \<Longrightarrow> cp_workers p ! w = C_Running i ph \<Longrightarrow> (\<forall>r resp. ph \<noteq> Ph_Done r resp) \<Longrightarrow>
    col_step R items options p (col_move R items options w i ph p)"
| pass: "w < length (cp_workers p) \<Longrightarrow> cp_workers p ! w = C_Running i (Ph_Done r resp) \<Longrightarrow>
    length (cp_channel p) < 2 * pool_size items options \<Longrightarrow> col_step R items options p (col_pass w i r p)"
| recv: "cp_channel p \<noteq> [] \<Longrightarrow> col_step R items options p (col_receive p)"

definition col_finished :: "col_pool \<Rightarrow> bool" where
  "col_finished p \<longleftrightarrow> set (cp_workers p) \<subseteq> {C_Gone} \<and> cp_channel p = []"

definition collection_report :: "col_pool \<Rightarrow> collection_result" where
  "collection_report p = \<lparr>cr_results = List.map_filter (\<lambda>r. r) (cp_ordered p), cr_cancelled = cp_cancelled p\<rparr>"

inductive_cases col_stepE: "col_step R items options p q"

section \<open>The order of the interfaces\<close>

definition i64_max :: int where "i64_max = 2 ^ 63 - 1"

definition order_key :: "(uuid, int) hash_map \<Rightarrow> endpoint \<Rightarrow> int \<times> int \<times> str" where
  "order_key folder_order ep =
     ((case Option.bind (ep_folder_id ep) folder_order of Some f \<Rightarrow> f | None \<Rightarrow> i64_max), ep_sort_order ep, ep_name ep)"

definition order_endpoints :: "endpoint list \<Rightarrow> (uuid, int) hash_map \<Rightarrow> endpoint list" where
  "order_endpoints endpoints folder_order = sort_key (order_key folder_order) endpoints"

section \<open>One interface, move by move\<close>

abbreviation item_step :: "'u run_env \<Rightarrow> collection_options \<Rightarrow> nat \<Rightarrow> collection_item \<Rightarrow> one_phase \<times> shared \<Rightarrow> one_phase \<times> shared" where
  "item_step R options i item \<equiv> one_step R i (ci_endpoint item) (ci_url item) (ci_spec item) (co_timeout_ms options)"

fun phase_done :: "one_phase \<Rightarrow> bool" where
  "phase_done (Ph_Done r resp) = True"
| "phase_done _ = False"

fun phase_rank :: "one_phase \<Rightarrow> nat" where
  "phase_rank Ph_Start = 5" | "phase_rank (Ph_Inject c m) = 4" | "phase_rank (Ph_Send c) = 3"
| "phase_rank (Ph_Assert c r) = 2" | "phase_rank (Ph_Extract c r os) = 1" | "phase_rank (Ph_Done r resp) = 0"

lemma phase_rank_done: "phase_rank ph = 0 \<longleftrightarrow> phase_done ph"
  by (cases ph) auto

lemma phase_done_iff: "phase_done ph \<longleftrightarrow> (\<exists>r resp. ph = Ph_Done r resp)"
  by (cases ph) auto

lemma one_step_rank: "phase_rank (fst (one_step R i ep url spec t (ph, rt))) \<le> phase_rank ph - 1"
  by (cases ph)
     (auto simp: begin_one_def send_one_def assert_one_def extract_step_def Let_def split: sum.split prod.split)

lemma one_step_done_fixed: "phase_done ph \<Longrightarrow> (one_step R i ep url spec t ^^ j) (ph, rt) = (ph, rt)"
  by (induction j) (auto simp: phase_done_iff)

lemma steps_rank: "phase_rank (fst ((one_step R i ep url spec t ^^ j) (ph, rt))) \<le> phase_rank ph - j"
proof (induction j)
  case (Suc j)
  obtain ph' rt' where x: "(one_step R i ep url spec t ^^ j) (ph, rt) = (ph', rt')" by (cases "(one_step R i ep url spec t ^^ j) (ph, rt)")
  have "phase_rank (fst (one_step R i ep url spec t (ph', rt'))) \<le> phase_rank ph' - 1" by (rule one_step_rank)
  with Suc show ?case by (simp add: x)
qed simp

lemma five_steps_done: "phase_done (fst ((one_step R i ep url spec t ^^ 5) (Ph_Start, rt)))"
proof -
  have "phase_rank (fst ((one_step R i ep url spec t ^^ 5) (Ph_Start, rt))) \<le> phase_rank Ph_Start - 5" by (rule steps_rank)
  then show ?thesis by (simp add: phase_rank_done)
qed

lemma funpow_split: "j \<le> n \<Longrightarrow> (f ^^ n) x = (f ^^ (n - j)) ((f ^^ j) x)"
  using funpow_add[of "n - j" j f] by simp

text \<open>Once the moves have reached a result, it is the result of the five.\<close>

lemma steps_agree:
  assumes "(one_step R i ep url spec t ^^ j) (Ph_Start, rt) = (Ph_Done r resp, rt')"
  shows "run_one R i ep url spec rt t = ((r, resp), rt')"
proof -
  let ?f = "one_step R i ep url spec t"
  have "(?f ^^ 5) (Ph_Start, rt) = (Ph_Done r resp, rt')"
  proof (cases "j \<le> 5")
    case True
    then have "(?f ^^ 5) (Ph_Start, rt) = (?f ^^ (5 - j)) ((?f ^^ j) (Ph_Start, rt))" by (rule funpow_split)
    then show ?thesis using assms by (simp only: one_step_done_fixed phase_done.simps)
  next
    case False
    obtain ph rt'' where x: "(?f ^^ 5) (Ph_Start, rt) = (ph, rt'')" by (cases "(?f ^^ 5) (Ph_Start, rt)")
    then have "phase_done ph" using five_steps_done[where R = R and rt = rt] by (metis fst_conv)
    moreover have "(?f ^^ j) (Ph_Start, rt) = (?f ^^ (j - 5)) ((?f ^^ 5) (Ph_Start, rt))"
      using False by (intro funpow_split) simp
    ultimately show ?thesis using assms x by (simp only: one_step_done_fixed)
  qed
  then show ?thesis by (simp add: run_one_def)
qed

lemma one_step_identity:
  assumes "one_step R i ep url spec t (ph, rt) = (Ph_Done r resp, rt')"
  shows "ph = Ph_Done r resp \<or> er_endpoint_id r = ep_id ep"
  using assms
  by (cases ph)
     (auto simp: begin_one_def send_one_def assert_one_def extract_step_def failed_fast_def skipped_def Let_def
       split: sum.splits prod.splits if_splits)

section \<open>The collection as a pool\<close>

fun col_busy :: "col_worker \<Rightarrow> nat multiset" where
  "col_busy (C_Running i ph) = {#i#}"
| "col_busy _ = {#}"

definition cp_busy :: "col_pool \<Rightarrow> nat multiset" where
  "cp_busy p = sum_list (map col_busy (cp_workers p))"

definition cp_delivered :: "col_pool \<Rightarrow> nat list" where
  "cp_delivered p = cp_received p @ map fst (cp_channel p)"

lemma set_col_simps [simp]:
  "cp_next (set_col w x p) = cp_next p" "cp_channel (set_col w x p) = cp_channel p"
  "cp_cancelled (set_col w x p) = cp_cancelled p" "cp_shared (set_col w x p) = cp_shared p"
  "cp_ordered (set_col w x p) = cp_ordered p" "cp_received (set_col w x p) = cp_received p"
  "cp_progress (set_col w x p) = cp_progress p" "cp_workers (set_col w x p) = (cp_workers p)[w := x]"
  "cp_delivered (set_col w x p) = cp_delivered p"
  by (simp_all add: set_col_def cp_delivered_def)

lemma cp_busy_set:
  assumes "w < length (cp_workers p)"
  shows "cp_busy (set_col w x p) + col_busy (cp_workers p ! w) = cp_busy p + col_busy x"
  using sum_mset_update[OF assms, of col_busy x] by (simp add: cp_busy_def)

lemma cp_busy_mem:
  assumes "w < length (cp_workers p)" "cp_workers p ! w = C_Running i ph"
  shows "i \<in># cp_busy p"
  using cp_busy_set[OF assms(1), of C_Gone] assms(2)
  by simp (metis union_single_eq_member add.commute)

lemma cp_fields:
  "cp_busy (p\<lparr>cp_next := a\<rparr>) = cp_busy p" "cp_busy (p\<lparr>cp_shared := b\<rparr>) = cp_busy p" "cp_busy (p\<lparr>cp_channel := c\<rparr>) = cp_busy p"
  "cp_delivered (p\<lparr>cp_next := a\<rparr>) = cp_delivered p" "cp_delivered (p\<lparr>cp_shared := b\<rparr>) = cp_delivered p"
  "cp_delivered (p\<lparr>cp_channel := cp_channel p @ [(i, r)]\<rparr>) = cp_delivered p @ [i]"
  by (simp_all add: cp_busy_def cp_delivered_def)

interpretation collection: worker_pool "col_step R items options" "length items" cp_next cp_busy cp_delivered for R items options
proof (unfold_locales, erule col_stepE, goal_cases)
  case (1 p q)
  then show ?case by (simp add: cp_busy_def cp_delivered_def)
next
  case (2 p q w)
  then show ?case using cp_busy_set[of w p "if cp_cancelled p then C_Gone else C_May_Draw"]
    by (simp add: col_check_def)
next
  case (3 p q w)
  then show ?case
    using cp_busy_set[of w "p\<lparr>cp_next := cp_next p + 1\<rparr>" "if length items \<le> cp_next p then C_Gone else C_Running (cp_next p) Ph_Start"]
    by (auto simp: col_draw_def Let_def cp_fields)
next
  case (4 p q w i ph)
  then show ?case
    using cp_busy_set[of w "p\<lparr>cp_shared := rt\<rparr>" "C_Running i ph'" for rt ph']
    by (auto simp: col_move_def Let_def cp_fields split: prod.split)
next
  case (5 p q w i r resp)
  let ?p = "p\<lparr>cp_channel := cp_channel p @ [(i, r)]\<rparr>"
  have "i \<in># cp_busy p" using cp_busy_mem[of w p i] 5 by simp
  then show ?case using 5 cp_busy_set[of w ?p C_Top]
    by (simp add: col_pass_def cp_fields) (metis add_mset_remove_trivial)
next
  case (6 p q)
  then show ?case by (auto simp: col_receive_def cp_busy_def cp_delivered_def split: list.split)
qed

text \<open>Every result carries the identity of the item of its index.\<close>

definition result_of :: "collection_item list \<Rightarrow> nat \<Rightarrow> endpoint_result \<Rightarrow> bool" where
  "result_of items i r \<longleftrightarrow> i < length items \<and> er_endpoint_id r = ep_id (ci_endpoint (items ! i))"

fun worker_ok :: "collection_item list \<Rightarrow> col_worker \<Rightarrow> bool" where
  "worker_ok items (C_Running i (Ph_Done r resp)) = result_of items i r"
| "worker_ok items (C_Running i ph) = (i < length items)"
| "worker_ok items _ = True"

definition slots_ok :: "collection_item list \<Rightarrow> nat list \<Rightarrow> endpoint_result option list \<Rightarrow> bool" where
  "slots_ok items received ordered \<longleftrightarrow> length ordered = length items
     \<and> (\<forall>i < length items. (i \<in> set received \<longleftrightarrow> ordered ! i \<noteq> None) \<and> (\<forall>r. ordered ! i = Some r \<longrightarrow> result_of items i r))"

definition col_ok :: "collection_item list \<Rightarrow> collection_options \<Rightarrow> col_pool \<Rightarrow> bool" where
  "col_ok items options p \<longleftrightarrow>
     (let n = length items; m = length (cp_received p) in
      list_all (worker_ok items) (cp_workers p) \<and> list_all (\<lambda>(i, r). result_of items i r) (cp_channel p)
      \<and> slots_ok items (cp_received p) (cp_ordered p) \<and> length (cp_workers p) = pool_size items options
      \<and> cp_progress p = map (\<lambda>k. (k, n)) [1..<Suc m]
      \<and> (\<not> cp_cancelled p \<and> C_Gone \<in> set (cp_workers p) \<longrightarrow> n \<le> cp_next p))"

lemma worker_ok_running: "worker_ok items (C_Running i ph) \<Longrightarrow> i < length items"
  by (cases ph) (auto simp: result_of_def)

lemma list_all_set: "list_all P xs \<Longrightarrow> P y \<Longrightarrow> list_all P (xs[w := y])"
  using set_update_subset_insert[of xs w y] by (auto simp: list_all_iff)

lemma col_ok_set:
  assumes "col_ok items options p" "worker_ok items x"
    "x = C_Gone \<Longrightarrow> cp_cancelled p \<or> length items \<le> cp_next p"
  shows "col_ok items options (set_col w x p)"
  using assms set_update_subset_insert[of "cp_workers p" w x] by (auto simp: col_ok_def Let_def intro!: list_all_set)

lemma col_ok_move:
  assumes "col_ok items options p" "w < length (cp_workers p)" "cp_workers p ! w = C_Running i ph"
  shows "col_ok items options (col_move R items options w i ph p)"
proof -
  have "worker_ok items (C_Running i ph)"
    using assms by (auto simp: col_ok_def Let_def list_all_length)
  then have i: "i < length items" by (rule worker_ok_running)
  obtain ph' rt' where m: "item_step R options i (items ! i) (ph, cp_shared p) = (ph', rt')"
    by (cases "item_step R options i (items ! i) (ph, cp_shared p)")
  have "worker_ok items (C_Running i ph')"
  proof (cases "phase_done ph'")
    case True
    then obtain r resp where d: "ph' = Ph_Done r resp" by (auto simp: phase_done_iff)
    with one_step_identity m \<open>worker_ok items (C_Running i ph)\<close> i show ?thesis
      by (fastforce simp: result_of_def)
  next
    case False
    with i show ?thesis by (cases ph') auto
  qed
  moreover have "col_ok items options (p\<lparr>cp_shared := rt'\<rparr>)" using assms(1) by (simp add: col_ok_def)
  ultimately have "col_ok items options (set_col w (C_Running i ph') (p\<lparr>cp_shared := rt'\<rparr>))"
    by (rule_tac col_ok_set) simp_all
  then show ?thesis by (simp add: col_move_def m Let_def)
qed

lemma slots_receive:
  assumes "slots_ok items received ordered" "result_of items i r"
  shows "slots_ok items (received @ [i]) (ordered[i := Some r])"
proof -
  have "i < length ordered" using assms by (simp add: slots_ok_def result_of_def)
  with assms show ?thesis unfolding slots_ok_def by (auto simp: nth_list_update split: if_splits)
qed

lemma col_ok_receive:
  assumes "col_ok items options p" "cp_channel p = (i, r) # rest" "i \<notin> set (cp_received p)"
  shows "col_ok items options (col_receive p)"
  using assms
  by (auto simp: col_ok_def col_receive_def Let_def slots_receive) (simp_all add: slots_ok_def)

lemma col_ok_step:
  "col_step R items options p q \<Longrightarrow> distinct (cp_delivered p) \<Longrightarrow> col_ok items options p \<Longrightarrow> col_ok items options q"
proof (induction rule: col_step.induct)
  case (check w p)
  then show ?case unfolding col_check_def by (intro col_ok_set) (auto split: if_splits)
next
  case (draw w p)
  have "col_ok items options (p\<lparr>cp_next := cp_next p + 1\<rparr>)" using draw.prems by (auto simp: col_ok_def Let_def)
  then show ?case unfolding col_draw_def Let_def by (intro col_ok_set) auto
next
  case (move w p i ph)
  then show ?case by (intro col_ok_move)
next
  case (pass w p i r resp)
  then have "result_of items i r" by (fastforce simp: col_ok_def Let_def list_all_length)
  with pass have "col_ok items options (p\<lparr>cp_channel := cp_channel p @ [(i, r)]\<rparr>)" by (auto simp: col_ok_def Let_def)
  then show ?case unfolding col_pass_def by (intro col_ok_set) auto
next
  case (recv p)
  then obtain i r rest where c: "cp_channel p = (i, r) # rest" by (cases "cp_channel p") auto
  with recv.prems show ?case by (intro col_ok_receive[OF _ c]) (auto simp: cp_delivered_def)
qed (auto simp: col_ok_def Let_def)

lemma pool_size_pos: "items \<noteq> [] \<Longrightarrow> 0 < pool_size items options"
  by (simp add: pool_size_def Let_def)

lemma replicate_busy: "sum_list (replicate n ({#} :: nat multiset)) = {#}"
  by (induction n) simp_all

lemma collection_run_ok:
  assumes "rtranclp (col_step R items options) (start_collection items options rt) p"
  shows "col_ok items options p" "collection.accounted items p"
proof -
  have "cp_busy (start_collection items options rt) = {#}"
    unfolding cp_busy_def start_collection_def by (simp add: replicate_busy)
  then have start: "collection.accounted items (start_collection items options rt)"
    by (simp add: collection.accounted_def) (simp add: cp_delivered_def start_collection_def)
  show "collection.accounted items p" by (rule collection.accounted_run[OF assms start])
  show "col_ok items options p"
    using assms
  proof (induction rule: rtranclp_induct)
    case base
    show ?case by (auto simp: col_ok_def slots_ok_def start_collection_def Let_def list_all_iff)
  next
    case (step p q)
    then show ?case
      using collection.delivered_once(1)[OF collection.accounted_run[OF step(1) start]] col_ok_step by blast
  qed
qed

lemma filtered_results:
  assumes "length xs = n" "\<forall>i < n. (i \<in> A \<longleftrightarrow> xs ! i \<noteq> None) \<and> (\<forall>r. xs ! i = Some r \<longrightarrow> f r = g i)"
  shows "map f (List.map_filter (\<lambda>r. r) xs) = map g (filter (\<lambda>i. i \<in> A) [0..<n])"
  using assms
proof (induction xs arbitrary: n rule: rev_induct)
  case (snoc x xs)
  obtain m where m: "n = Suc m" "length xs = m" using snoc.prems(1) by simp
  have "\<forall>i < m. (i \<in> A \<longleftrightarrow> xs ! i \<noteq> None) \<and> (\<forall>r. xs ! i = Some r \<longrightarrow> f r = g i)"
  proof (intro allI impI)
    fix i assume "i < m"
    then have "(xs @ [x]) ! i = xs ! i" "i < n" using m by (simp_all add: nth_append)
    then show "(i \<in> A \<longleftrightarrow> xs ! i \<noteq> None) \<and> (\<forall>r. xs ! i = Some r \<longrightarrow> f r = g i)"
      using snoc.prems(2) by metis
  qed
  with m have ih: "map f (List.map_filter (\<lambda>r. r) xs) = map g (filter (\<lambda>i. i \<in> A) [0..<m])" by (intro snoc.IH)
  have x: "(m \<in> A \<longleftrightarrow> x \<noteq> None) \<and> (\<forall>r. x = Some r \<longrightarrow> f r = g m)"
    using snoc.prems m by (metis lessI nth_append_length)
  have "List.map_filter (\<lambda>r. r) (xs @ [x]) = List.map_filter (\<lambda>r. r) xs @ (case x of Some r \<Rightarrow> [r] | None \<Rightarrow> [])"
    by (simp add: List.map_filter_def split: option.split)
  with ih x m show ?case by (cases x) auto
qed (simp add: List.map_filter_def)

section \<open>The serial run\<close>

text \<open>The interfaces one after the other, each over the variables the previous ones left.\<close>

fun serial_run ::
  "'u run_env \<Rightarrow> collection_options \<Rightarrow> nat \<Rightarrow> collection_item list \<Rightarrow> shared \<Rightarrow> endpoint_result list \<times> shared" where
  "serial_run R options k [] rt = ([], rt)"
| "serial_run R options k (it # items) rt =
     (let ((r, _), rt1) = run_one R k (ci_endpoint it) (ci_url it) (ci_spec it) rt (co_timeout_ms options);
          (rs, rt2) = serial_run R options (Suc k) items rt1
      in (r # rs, rt2))"

lemma serial_run_append:
  "serial_run R options k (xs @ ys) rt =
     (let (rs, rt1) = serial_run R options k xs rt; (rs', rt2) = serial_run R options (k + length xs) ys rt1
      in (rs @ rs', rt2))"
  by (induction xs arbitrary: k rt) (auto simp: Let_def split: prod.split)

lemma serial_run_length: "length (fst (serial_run R options k items rt)) = length items"
  by (induction items arbitrary: k rt) (auto simp: Let_def split: prod.split, metis fst_conv)

abbreviation upto_run where
  "upto_run R options items rt k \<equiv> serial_run R options 0 (take k items) rt"

lemma upto_run_Suc:
  assumes "k < length items"
    and "run_one R k (ci_endpoint (items ! k)) (ci_url (items ! k)) (ci_spec (items ! k))
           (snd (upto_run R options items rt k)) (co_timeout_ms options) = ((r, resp), rt')"
  shows "upto_run R options items rt (Suc k) = (fst (upto_run R options items rt k) @ [r], rt')"
  using assms by (auto simp: take_Suc_conv_app_nth serial_run_append Let_def split: prod.splits)

definition delivered_upto :: "'u run_env \<Rightarrow> collection_options \<Rightarrow> collection_item list \<Rightarrow> shared \<Rightarrow> nat \<Rightarrow> col_pool \<Rightarrow> bool" where
  "delivered_upto R options items rt k p \<longleftrightarrow>
     (let rs = fst (upto_run R options items rt k) in
      \<exists>m \<le> k. cp_channel p = map (\<lambda>i. (i, rs ! i)) [m..<k]
        \<and> cp_ordered p = map Some (take m rs) @ replicate (length items - m) None)"

fun serial_inv :: "'u run_env \<Rightarrow> collection_options \<Rightarrow> collection_item list \<Rightarrow> shared \<Rightarrow> col_pool \<Rightarrow> col_worker list \<Rightarrow> bool" where
  "serial_inv R options items rt p [C_Running i ph] \<longleftrightarrow> i < length items \<and> cp_next p = Suc i
     \<and> delivered_upto R options items rt i p
     \<and> (\<exists>j. (item_step R options i (items ! i) ^^ j) (Ph_Start, snd (upto_run R options items rt i)) = (ph, cp_shared p))"
| "serial_inv R options items rt p [C_Gone] \<longleftrightarrow> delivered_upto R options items rt (length items) p
     \<and> cp_shared p = snd (upto_run R options items rt (length items))"
| "serial_inv R options items rt p [w] \<longleftrightarrow> cp_next p \<le> length items
     \<and> delivered_upto R options items rt (cp_next p) p \<and> cp_shared p = snd (upto_run R options items rt (cp_next p))"
| "serial_inv R options items rt p _ \<longleftrightarrow> False"

lemma upto_run_length: "k \<le> length items \<Longrightarrow> length (fst (upto_run R options items rt k)) = k"
  by (simp add: serial_run_length)

lemma delivered_receive:
  assumes "delivered_upto R options items rt k p" "cp_channel p \<noteq> []" "k \<le> length items"
  shows "delivered_upto R options items rt k (col_receive p)"
proof -
  define rs where "rs = fst (upto_run R options items rt k)"
  obtain m where m: "m \<le> k" "cp_channel p = map (\<lambda>i. (i, rs ! i)) [m..<k]"
      "cp_ordered p = map Some (take m rs) @ replicate (length items - m) None"
    using assms(1) by (auto simp: delivered_upto_def rs_def Let_def)
  have mk: "m < k" using m(1,2) assms(2) by (cases "m = k") auto
  have len: "length rs = k" using upto_run_length[OF assms(3)] by (simp add: rs_def)
  have "cp_channel p = (m, rs ! m) # map (\<lambda>i. (i, rs ! i)) [Suc m..<k]" using m(2) mk by (simp add: upt_conv_Cons)
  moreover have "(cp_ordered p)[m := Some (rs ! m)] = map Some (take (Suc m) rs) @ replicate (length items - Suc m) None"
  proof -
    have "replicate (length items - m) None = None # replicate (length items - Suc m) (None :: endpoint_result option)"
      using mk assms(3) by (metis Suc_diff_Suc less_le_trans replicate_Suc)
    then show ?thesis using m(3) mk len by (simp add: list_update_append take_Suc_conv_app_nth)
  qed
  ultimately show ?thesis
    using mk by (auto simp: delivered_upto_def col_receive_def rs_def[symmetric] Let_def intro!: exI[of _ "Suc m"])
qed

lemma delivered_pass:
  assumes "delivered_upto R options items rt i p" "i < length items"
    "upto_run R options items rt (Suc i) = (fst (upto_run R options items rt i) @ [r], rt')"
  shows "delivered_upto R options items rt (Suc i) (col_pass w i r p)"
proof -
  define rs where "rs = fst (upto_run R options items rt i)"
  have len: "length rs = i" using upto_run_length[of i items R options rt] assms(2) by (simp add: rs_def)
  obtain m where m: "m \<le> i" "cp_channel p = map (\<lambda>j. (j, rs ! j)) [m..<i]"
      "cp_ordered p = map Some (take m rs) @ replicate (length items - m) None"
    using assms(1) by (auto simp: delivered_upto_def rs_def Let_def)
  have "cp_channel (col_pass w i r p) = map (\<lambda>j. (j, (rs @ [r]) ! j)) [m..<Suc i]"
    using m(1,2) len by (auto simp: col_pass_def nth_append)
  moreover have "cp_ordered (col_pass w i r p) = map Some (take m (rs @ [r])) @ replicate (length items - m) None"
    using m(1,3) len by (simp add: col_pass_def)
  ultimately show ?thesis
    using m(1) assms(3) by (auto simp: delivered_upto_def rs_def Let_def intro!: exI[of _ m])
qed

lemma delivered_cong:
  assumes "cp_channel q = cp_channel p" "cp_ordered q = cp_ordered p"
  shows "delivered_upto R options items rt k q = delivered_upto R options items rt k p"
  using assms by (simp add: delivered_upto_def)

lemma delivered_set_col [simp]: "delivered_upto R options items rt k (set_col w x p) = delivered_upto R options items rt k p"
  by (simp add: delivered_upto_def)

lemma serial_single: "serial_inv R options items rt p ws \<Longrightarrow> \<exists>x. ws = [x]"
  by (cases "(R, options, items, rt, p, ws)" rule: serial_inv.cases) auto

lemma serial_receive:
  assumes "serial_inv R options items rt p (cp_workers p)" "cp_channel p \<noteq> []"
  shows "serial_inv R options items rt (col_receive p) (cp_workers (col_receive p))"
proof -
  obtain x where x: "cp_workers p = [x]" using serial_single[OF assms(1)] by blast
  have same: "cp_workers (col_receive p) = cp_workers p" "cp_next (col_receive p) = cp_next p"
    "cp_shared (col_receive p) = cp_shared p"
    by (simp_all add: col_receive_def split: list.split)
  have "delivered_upto R options items rt k p \<Longrightarrow> k \<le> length items \<Longrightarrow> delivered_upto R options items rt k (col_receive p)" for k
    using delivered_receive assms(2) by blast
  then show ?thesis using assms(1) x same by (cases x) auto
qed

lemma serial_step:
  assumes "col_step R items options p q" "\<not> cp_cancelled q" "serial_inv R options items rt p (cp_workers p)"
  shows "serial_inv R options items rt q (cp_workers q)"
proof -
  obtain x where x: "cp_workers p = [x]" using serial_single[OF assms(3)] by blast
  from assms(1) show ?thesis
  proof (cases rule: col_step.cases)
    case (check w)
    then show ?thesis using assms(2,3) x by (simp add: col_check_def)
  next
    case (draw w)
    then have inv: "cp_next p \<le> length items" "delivered_upto R options items rt (cp_next p) p"
      "cp_shared p = snd (upto_run R options items rt (cp_next p))"
      using assms(3) x by simp_all
    have "delivered_upto R options items rt (cp_next p) q"
      using inv(2) draw(1) by (subst delivered_cong[of q p]) (simp_all add: col_draw_def Let_def)
    with inv draw x show ?thesis by (auto simp: col_draw_def Let_def intro!: exI[of _ 0])
  next
    case (move w i ph)
    then have inv: "i < length items" "cp_next p = Suc i" "delivered_upto R options items rt i p"
      "\<exists>j. (item_step R options i (items ! i) ^^ j) (Ph_Start, snd (upto_run R options items rt i)) = (ph, cp_shared p)"
      using assms(3) x by simp_all
    then obtain j where j: "(item_step R options i (items ! i) ^^ j) (Ph_Start, snd (upto_run R options items rt i)) = (ph, cp_shared p)"
      by blast
    obtain ph' rt' where m: "item_step R options i (items ! i) (ph, cp_shared p) = (ph', rt')"
      by (cases "item_step R options i (items ! i) (ph, cp_shared p)")
    have "delivered_upto R options items rt i q"
      using inv(3) move(1) by (subst delivered_cong[of q p]) (simp_all add: col_move_def m Let_def)
    with inv j m move x show ?thesis by (auto simp: col_move_def Let_def intro!: exI[of _ "Suc j"])
  next
    case (pass w i r resp)
    then have inv: "i < length items" "cp_next p = Suc i" "delivered_upto R options items rt i p"
      "\<exists>j. (item_step R options i (items ! i) ^^ j) (Ph_Start, snd (upto_run R options items rt i)) = (Ph_Done r resp, cp_shared p)"
      using assms(3) x by simp_all
    then have "upto_run R options items rt (Suc i) = (fst (upto_run R options items rt i) @ [r], cp_shared p)"
      using upto_run_Suc[OF inv(1)] steps_agree by blast
    with delivered_pass[OF inv(3,1)] inv pass x show ?thesis by (simp add: col_pass_def)
  next
    case recv
    then show ?thesis using serial_receive assms(3) by blast
  qed (use assms(2) in simp)
qed

lemma collection_serial_inv:
  assumes "rtranclp (col_step R items options) (start_collection items options rt) p" "pool_size items options = 1"
  shows "cp_cancelled p \<or> serial_inv R options items rt p (cp_workers p)"
  using assms(1)
proof (induction rule: rtranclp_induct)
  case base
  show ?case using assms(2) by (simp add: start_collection_def delivered_upto_def)
next
  case (step p q)
  then have "cp_cancelled p \<longrightarrow> cp_cancelled q"
    by (auto elim!: col_stepE simp: col_check_def col_draw_def col_move_def col_pass_def col_receive_def Let_def
        split: list.split prod.split)
  with step serial_step show ?case by blast
qed

section \<open>A sample run\<close>

definition demo_item :: collection_item where
  "demo_item = \<lparr>ci_endpoint = \<lparr>ep_id = 5, ep_project_id = 1, ep_folder_id = None, ep_name = ''a'', ep_method = GET,
     ep_path = ''/a'', ep_description = [], ep_status = Testing, ep_sort_order = 0, ep_request = default_request,
     ep_created_at = 0, ep_updated_at = 0\<rparr>, ci_url = ''/a'', ci_spec = default_request\<rparr>"

definition demo_run_env :: "str run_env" where
  "demo_run_env = \<lparr>ru_test = demo_test_env, ru_http = demo_env, ru_net = (\<lambda>i. demo_network), ru_duration = (\<lambda>i. 0)\<rparr>"

abbreviation demo_shared :: shared where "demo_shared \<equiv> (Map.empty, demo_seq)"

definition demo_drawn :: col_pool where
  "demo_drawn = col_draw [demo_item] 0 (col_check 0 (start_collection [demo_item] default_collection_options demo_shared))"

definition demo_moved :: col_pool where
  "demo_moved = col_move demo_run_env [demo_item] default_collection_options 0 0 Ph_Start demo_drawn"

definition demo_received :: col_pool where
  "demo_received = col_receive (col_pass 0 0 (skipped (ci_endpoint demo_item)) demo_moved)"

definition demo_collection :: col_pool where
  "demo_collection = col_draw [demo_item] 0 (col_check 0 demo_received)"

lemma demo_size: "pool_size [demo_item] default_collection_options = 1"
  by (simp add: pool_size_def default_collection_options_def)

lemmas demo_moves = col_check_def col_draw_def col_move_def col_pass_def col_receive_def set_col_def Let_def

lemma demo_drawn_eq: "demo_drawn = \<lparr>cp_next = 1, cp_workers = [C_Running 0 Ph_Start], cp_channel = [], cp_cancelled = False,
    cp_shared = demo_shared, cp_ordered = [None], cp_received = [], cp_progress = []\<rparr>"
  by (simp add: demo_drawn_def start_collection_def demo_size demo_moves)

lemma demo_moved_eq: "demo_moved = demo_drawn\<lparr>cp_workers := [C_Running 0 (Ph_Done (skipped (ci_endpoint demo_item)) None)]\<rparr>"
  by (simp add: demo_moved_def demo_drawn_eq demo_moves begin_one_def)
     (simp add: demo_item_def default_request_def from_request_value_def spec_is_empty_def)

lemma demo_received_eq: "demo_received = demo_drawn\<lparr>cp_workers := [C_Top], cp_received := [0], cp_progress := [(1, 1)],
    cp_ordered := [Some (skipped (ci_endpoint demo_item))]\<rparr>"
  by (simp add: demo_received_def demo_moved_eq demo_drawn_eq demo_moves)

lemma demo_collection_run:
  "rtranclp (col_step demo_run_env [demo_item] default_collection_options)
     (start_collection [demo_item] default_collection_options demo_shared) demo_collection"
  "col_finished demo_collection" "\<not> cp_cancelled demo_collection"
proof -
  let ?step = "col_step demo_run_env [demo_item] default_collection_options"
  let ?start = "start_collection [demo_item] default_collection_options demo_shared"
  have "?step ?start (col_check 0 ?start)"
    by (rule col_step.check) (simp_all add: start_collection_def demo_size)
  moreover have "?step (col_check 0 ?start) demo_drawn"
    unfolding demo_drawn_def by (rule col_step.draw) (simp_all add: start_collection_def demo_size col_check_def)
  moreover have "?step demo_drawn demo_moved"
    unfolding demo_moved_def by (rule col_step.move) (simp_all add: demo_drawn_eq)
  moreover have "?step demo_moved (col_pass 0 0 (skipped (ci_endpoint demo_item)) demo_moved)"
    by (rule col_step.pass[where resp = None]) (simp_all add: demo_moved_eq demo_drawn_eq demo_size)
  moreover have "?step (col_pass 0 0 (skipped (ci_endpoint demo_item)) demo_moved) demo_received"
    unfolding demo_received_def by (rule col_step.recv) (simp add: col_pass_def)
  moreover have "?step demo_received (col_check 0 demo_received)"
    by (rule col_step.check) (simp_all add: demo_received_eq demo_drawn_eq)
  moreover have "?step (col_check 0 demo_received) demo_collection"
    unfolding demo_collection_def by (rule col_step.draw) (simp_all add: demo_received_eq demo_drawn_eq col_check_def)
  ultimately show "rtranclp ?step ?start demo_collection"
    by (meson rtranclp.rtrancl_into_rtrancl rtranclp.rtrancl_refl)
  show "col_finished demo_collection" "\<not> cp_cancelled demo_collection"
    by (simp_all add: demo_collection_def demo_received_eq demo_drawn_eq demo_moves col_finished_def)
qed

section \<open>Properties\<close>

text \<open>
  C17: However many workers run and however they interleave, the results of a collection stand in the
  order of its items, each with the identity of its item, no item twice, progress counts them one
  by one, and a run that ends uncancelled has one result for every item.
\<close>

theorem collection_in_order:
  assumes "rtranclp (col_step R items options) (start_collection items options rt) p" "items \<noteq> []"
  shows "let ids = (\<lambda>i. ep_id (ci_endpoint (items ! i))); n = length items in
      map er_endpoint_id (cr_results (collection_report p)) = map ids (filter (\<lambda>i. i \<in> set (cp_received p)) [0..<n])
      \<and> distinct (cp_received p) \<and> set (cp_received p) \<subseteq> {..<n}
      \<and> cp_progress p = map (\<lambda>k. (k, n)) [1..<Suc (length (cp_received p))]
      \<and> (col_finished p \<and> \<not> cp_cancelled p \<longrightarrow>
           map er_endpoint_id (cr_results (collection_report p)) = map (ep_id \<circ> ci_endpoint) items)"
proof -
  note ok = collection_run_ok(1)[OF assms(1)] and acc = collection_run_ok(2)[OF assms(1)]
  have ids: "map er_endpoint_id (cr_results (collection_report p))
      = map (\<lambda>i. ep_id (ci_endpoint (items ! i))) (filter (\<lambda>i. i \<in> set (cp_received p)) [0..<length items])"
    unfolding collection_report_def collection_result.simps
    by (rule filtered_results) (use ok in \<open>auto simp: col_ok_def slots_ok_def result_of_def Let_def\<close>)
  have every: "set (cp_received p) = {..<length items}" if f: "col_finished p" "\<not> cp_cancelled p"
  proof -
    have "length (cp_workers p) = pool_size items options" using ok by (simp add: col_ok_def Let_def)
    with pool_size_pos[OF assms(2), of options] have "cp_workers p \<noteq> []" by auto
    then have "C_Gone \<in> set (cp_workers p)" using f(1) by (cases "cp_workers p") (auto simp: col_finished_def)
    then have "length items \<le> cp_next p" using ok f(2) by (simp add: col_ok_def Let_def)
    moreover have "cp_busy p = {#}"
    proof -
      have "\<forall>x \<in> set ws. x = C_Gone \<Longrightarrow> sum_list (map col_busy ws) = {#}" for ws by (induction ws) simp_all
      then show ?thesis using f(1) by (auto simp: cp_busy_def col_finished_def)
    qed
    ultimately show ?thesis
      using collection.all_delivered(3)[OF acc] f(1) by (simp add: cp_delivered_def col_finished_def)
  qed
  have once: "distinct (cp_received p)" "set (cp_received p) \<subseteq> {..<length items}"
    using collection.delivered_once(1,2)[OF acc] by (auto simp: cp_delivered_def)
  have progress: "cp_progress p = map (\<lambda>k. (k, length items)) [1..<Suc (length (cp_received p))]"
    using ok unfolding col_ok_def Let_def by blast
  have "filter (\<lambda>i. i \<in> {..<length items}) [0..<length items] = [0..<length items]" by (simp add: filter_id_conv)
  moreover have "map (\<lambda>i. ep_id (ci_endpoint (items ! i))) [0..<length items]
      = map (ep_id \<circ> ci_endpoint) (map ((!) items) [0..<length items])"
    by (simp only: map_map comp_def)
  ultimately have "map er_endpoint_id (cr_results (collection_report p)) = map (ep_id \<circ> ci_endpoint) items"
    if "col_finished p" "\<not> cp_cancelled p"
    using ids every[OF that] by (simp only: map_nth)
  then show ?thesis unfolding Let_def by (intro conjI impI ids once progress) simp
qed

theorem collection_in_order_witness:
  "map er_endpoint_id (cr_results (collection_report demo_collection)) = [5]"
proof -
  have "map er_endpoint_id (cr_results (collection_report demo_collection)) = map (ep_id \<circ> ci_endpoint) [demo_item]"
    using collection_in_order[OF demo_collection_run(1)] demo_collection_run(2,3) unfolding Let_def by blast
  then show ?thesis by (simp add: demo_item_def)
qed

text \<open>
  C16: With one worker the pool is the serial run: whatever the order in which the worker and the
  collector take turns, an uncancelled run ends with the results and the variables of testing the
  interfaces one after the other, each seeing what the previous ones extracted.
\<close>

theorem one_worker_is_serial:
  assumes "rtranclp (col_step R items options) (start_collection items options rt) p"
    and "pool_size items options = 1" "col_finished p" "\<not> cp_cancelled p"
  shows "(cr_results (collection_report p), cp_shared p) = serial_run R options 0 items rt"
proof -
  obtain x where x: "cp_workers p = [x]" and inv: "serial_inv R options items rt p [x]"
    using collection_serial_inv[OF assms(1,2)] assms(4) serial_single by fastforce
  then have "x = C_Gone" using assms(3) by (auto simp: col_finished_def)
  with inv have d: "delivered_upto R options items rt (length items) p" "cp_shared p = snd (serial_run R options 0 items rt)"
    by simp_all
  have some: "List.map_filter (\<lambda>r. r) (map Some rs) = rs" for rs :: "endpoint_result list"
    by (induction rs) (simp_all add: List.map_filter_simps)
  have "cp_ordered p = map Some (fst (serial_run R options 0 items rt))"
    using d(1) assms(3) upto_run_length[of "length items" items R options rt]
    by (auto simp: delivered_upto_def col_finished_def Let_def)
  then show ?thesis using d(2) some by (simp add: collection_report_def)
qed

theorem one_worker_is_serial_witness:
  "fst (serial_run demo_run_env default_collection_options 0 [demo_item] demo_shared)
     = cr_results (collection_report demo_collection)"
  using one_worker_is_serial[OF demo_collection_run(1) demo_size demo_collection_run(2,3)] by (metis fst_conv)

end
