(* ===== verification/Secret.thy ===== *)
theory Secret
  imports Model
begin

text \<open>
  Encryption at rest, \<open>crates/fox-secret/src/lib.rs\<close>: the master key (cached in the process, read
  from \<open>master.key\<close>, migrated from the older directory, or generated) and the cipher text format
  \<open>base64(nonce):base64(ciphertext || tag)\<close>.

  Byte arrays are the strings of those bytes. AES-256-GCM and base64 belong to other crates and
  are the parameters of \<open>aead\<close>; the random nonce and the random key are arguments. The disk is a
  map from paths to contents, and \<open>io_faults\<close> says which of its operations fail.
\<close>

section \<open>Parameters\<close>

record aead =
  ae_seal :: "str \<Rightarrow> str \<Rightarrow> str \<Rightarrow> str option"
  ae_open :: "str \<Rightarrow> str \<Rightarrow> str \<Rightarrow> str option"
  ae_b64 :: "str \<Rightarrow> str"
  ae_unb64 :: "str \<Rightarrow> str option"
  ae_utf8 :: "str \<Rightarrow> bool"

datatype secret_error = IoError str | InvalidKey | InvalidCiphertext | DecryptionFailed

fun secret_error_text :: "secret_error \<Rightarrow> msg" where
  "secret_error_text (IoError e) = Msg ''key file unavailable'' [e]"
| "secret_error_text InvalidKey = Msg ''invalid key file content (32 bytes of Base64 expected)'' []"
| "secret_error_text InvalidCiphertext = Msg ''malformed ciphertext'' []"
| "secret_error_text DecryptionFailed = Msg ''decryption failed: wrong master key or corrupt ciphertext'' []"

type_synonym master_key = str

section \<open>Encryption\<close>

definition encrypt :: "aead \<Rightarrow> str \<Rightarrow> master_key \<Rightarrow> str \<Rightarrow> (secret_error, str) result" where
  "encrypt A nonce k plain =
     (case ae_seal A k nonce plain of
        None \<Rightarrow> Err InvalidCiphertext
      | Some c \<Rightarrow> Ok (ae_b64 A nonce @ '':'' @ ae_b64 A c))"

definition decrypt :: "aead \<Rightarrow> master_key \<Rightarrow> str \<Rightarrow> (secret_error, str) result" where
  "decrypt A k text =
     (case split_once '':'' text of
        None \<Rightarrow> Ok text
      | Some (nonce_b64, cipher_b64) \<Rightarrow>
          (case ae_unb64 A nonce_b64 of
             None \<Rightarrow> Ok text
           | Some nonce \<Rightarrow>
               if length nonce \<noteq> 12 then Ok text
               else (case ae_unb64 A cipher_b64 of
                  None \<Rightarrow> Err DecryptionFailed
                | Some c \<Rightarrow>
                    (case ae_open A k nonce c of
                       None \<Rightarrow> Err DecryptionFailed
                     | Some plain \<Rightarrow> if ae_utf8 A plain then Ok plain else Err DecryptionFailed))))"

section \<open>The master key\<close>

type_synonym disk = "str \<rightharpoonup> str"

text \<open>
  A copy succeeds, fails before it has created the target, or fails later and leaves in the target
  what it had written; a write that fails may leave a part as well.
\<close>

datatype copy_outcome = Copied | Not_Copied | Copy_Leaves str

record io_faults =
  if_read :: "str \<Rightarrow> str option"
  if_copy :: copy_outcome
  if_mkdir :: "str option"
  if_write :: "(str \<times> str option) option"

record key_paths =
  kp_key :: str
  kp_legacy :: str

record key_world =
  kw_cache :: "master_key option"
  kw_disk :: disk

text \<open>\<open>path.exists()\<close> holds for the paths of the disk; reading one may still fail.\<close>

definition read_key_file :: "aead \<Rightarrow> io_faults \<Rightarrow> disk \<Rightarrow> str \<Rightarrow> (secret_error, master_key) result" where
  "read_key_file A f d path =
     (case if_read f path of
        Some e \<Rightarrow> Err (IoError e)
      | None \<Rightarrow>
          (case d path of
             None \<Rightarrow> Err (IoError ''not found'')
           | Some content \<Rightarrow>
               (case ae_unb64 A (trim content) of
                  None \<Rightarrow> Err InvalidKey
                | Some k \<Rightarrow> if length k = 32 then Ok k else Err InvalidKey)))"

definition load_or_create_key ::
  "aead \<Rightarrow> key_paths \<Rightarrow> io_faults \<Rightarrow> str \<Rightarrow> disk \<Rightarrow> (secret_error, master_key) result \<times> disk" where
  "load_or_create_key A p f rnd d =
     (if d (kp_key p) \<noteq> None then (read_key_file A f d (kp_key p), d)
      else if d (kp_legacy p) \<noteq> None then
        (case read_key_file A f d (kp_legacy p) of
           Inl e \<Rightarrow> (Err e, d)
         | Inr k \<Rightarrow>
             (Ok k, (case if_copy f of
                       Copied \<Rightarrow> d(kp_key p := d (kp_legacy p))
                     | Not_Copied \<Rightarrow> d
                     | Copy_Leaves part \<Rightarrow> d(kp_key p \<mapsto> part))))
      else
        (case if_mkdir f of
           Some e \<Rightarrow> (Err (IoError e), d)
         | None \<Rightarrow>
             (case if_write f of
                Some (e, None) \<Rightarrow> (Err (IoError e), d)
              | Some (e, Some part) \<Rightarrow> (Err (IoError e), d(kp_key p \<mapsto> part))
              | None \<Rightarrow> (Ok rnd, d(kp_key p \<mapsto> ae_b64 A rnd)))))"

definition ensure_master_key ::
  "aead \<Rightarrow> key_paths \<Rightarrow> io_faults \<Rightarrow> str \<Rightarrow> key_world
     \<Rightarrow> (secret_error, master_key) result \<times> key_world" where
  "ensure_master_key A p f rnd w =
     (case kw_cache w of
        Some k \<Rightarrow> (Ok k, w)
      | None \<Rightarrow>
          (case load_or_create_key A p f rnd (kw_disk w) of
             (Inl e, d) \<Rightarrow> (Err e, w\<lparr>kw_disk := d\<rparr>)
           | (Inr k, d) \<Rightarrow> (Ok k, w\<lparr>kw_cache := Some k, kw_disk := d\<rparr>)))"

text \<open>The next run of the program: the cache is gone, the disk stays.\<close>

definition restart :: "key_world \<Rightarrow> key_world" where
  "restart w = w\<lparr>kw_cache := None\<rparr>"

section \<open>Laws of the parameters\<close>

text \<open>
  What the documentation of the crates promises, at the values a run uses: the standard base64
  alphabet decodes what it encoded and holds neither a colon nor white space, the authenticated
  cipher opens what it sealed under the same key and nonce, nonces have twelve bytes and a Rust
  \<open>str\<close> is valid UTF-8.
\<close>

definition b64_at :: "aead \<Rightarrow> str \<Rightarrow> bool" where
  "b64_at A b \<longleftrightarrow>
     ae_unb64 A (ae_b64 A b) = Some b \<and> CHR '':'' \<notin> set (ae_b64 A b) \<and> trim (ae_b64 A b) = ae_b64 A b"

definition seals :: "aead \<Rightarrow> str \<Rightarrow> str \<Rightarrow> str \<Rightarrow> bool" where
  "seals A k nonce plain \<longleftrightarrow>
     (case ae_seal A k nonce plain of
        None \<Rightarrow> False
      | Some c \<Rightarrow> ae_open A k nonce c = Some plain \<and> b64_at A c)
     \<and> b64_at A nonce \<and> length nonce = 12 \<and> ae_utf8 A plain"

section \<open>Properties\<close>

lemma split_sealed [simp]:
  assumes "b64_at A n"
  shows "split_once '':'' (ae_b64 A n @ CHR '':'' # c) = Some (ae_b64 A n, c)"
  using assms by (simp add: b64_at_def split_once_char_append)

text \<open>
  Encryption at rest loses nothing: whatever the master key and the nonce, encrypting a text
  succeeds, and decrypting the result under that key gives the text back.
\<close>

lemma decrypt_encrypt:
  assumes "seals A k nonce plain"
  shows "\<exists>c. encrypt A nonce k plain = Ok c \<and> decrypt A k c = Ok plain"
proof -
  obtain c where c: "ae_seal A k nonce plain = Some c" "ae_open A k nonce c = Some plain" "b64_at A c"
    using assms by (auto simp: seals_def split: option.splits)
  have n: "b64_at A nonce" "length nonce = 12" "ae_utf8 A plain"
    using assms by (auto simp: seals_def)
  then show ?thesis
    using c split_sealed[OF n(1)] by (simp add: encrypt_def decrypt_def b64_at_def)
qed

lemma decrypt_plain:
  "split_once '':'' t = None \<Longrightarrow> decrypt A k t = Ok t"
  by (simp add: decrypt_def)

lemma encrypt_Ok_shape:
  "encrypt A nonce k p = Ok c \<Longrightarrow> \<exists>s. ae_seal A k nonce p = Some s \<and> c = ae_b64 A nonce @ '':'' @ ae_b64 A s"
  by (auto simp: encrypt_def split: option.splits)

lemma decrypt_sealed_failure:
  assumes "decrypt A k' c = Err e"
  shows "e = DecryptionFailed"
  using assms by (auto simp: decrypt_def split: option.splits if_splits)

text \<open>The key a process uses.\<close>

lemma ensure_cached: "kw_cache w = Some k \<Longrightarrow> ensure_master_key A p f rnd w = (Ok k, w)"
  by (simp add: ensure_master_key_def)

lemma ensure_caches:
  "ensure_master_key A p f rnd w = (Ok k, w') \<Longrightarrow> kw_cache w' = Some k"
  by (auto simp: ensure_master_key_def split: option.splits prod.splits sum.splits)

lemma ensure_disk:
  assumes "ensure_master_key A p f rnd w = (Ok k, w')" "kw_cache w = None"
  shows "load_or_create_key A p f rnd (kw_disk w) = (Ok k, kw_disk w')"
  using assms by (auto simp: ensure_master_key_def split: prod.splits sum.splits)

text \<open>A key that is taken over from the older directory, and one whose copy breaks off.\<close>

definition takes_over :: "key_paths \<Rightarrow> disk \<Rightarrow> bool" where
  "takes_over p d \<longleftrightarrow> d (kp_key p) = None \<and> d (kp_legacy p) \<noteq> None"

definition copy_breaks :: "io_faults \<Rightarrow> bool" where
  "copy_breaks f \<longleftrightarrow> (case if_copy f of Copy_Leaves part \<Rightarrow> True | _ \<Rightarrow> False)"

lemma load_again:
  assumes b64: "b64_at A rnd" and rnd: "length rnd = 32"
    and ok: "load_or_create_key A p f rnd d = (Ok k, d')"
    and whole: "\<not> (takes_over p d \<and> copy_breaks f)"
    and reads: "if_read f' (kp_key p) = None" "if_read f' (kp_legacy p) = None"
  shows "fst (load_or_create_key A p f' rnd' d') = Ok k"
  using assms
  by (auto simp: load_or_create_key_def read_key_file_def b64_at_def takes_over_def copy_breaks_def
      split: if_splits option.splits sum.splits copy_outcome.splits)

lemma master_key_stable_laws:
  assumes "b64_at A rnd" "length rnd = 32" "kw_cache w = None"
    and "ensure_master_key A p f rnd w = (Ok k, w')"
    and "\<not> (takes_over p (kw_disk w) \<and> copy_breaks f)"
    and "if_read f' (kp_key p) = None" "if_read f' (kp_legacy p) = None"
  shows "fst (ensure_master_key A p f' rnd' (restart w')) = Ok k"
proof -
  have "fst (load_or_create_key A p f' rnd' (kw_disk w')) = Ok k"
    by (rule load_again[OF assms(1,2) ensure_disk[OF assms(4,3)] assms(5-7)])
  then show ?thesis
    by (auto simp: ensure_master_key_def restart_def split: prod.splits sum.splits)
qed

text \<open>
  C25: One key for the life of an installation. Whatever keys the process would have generated
  and whichever disk operations fail afterwards, a process that obtained the master key once keeps
  obtaining the same key and leaves the disk alone. The next process, if it can read the key
  files, obtains that key again, whether it was generated, read, or taken over from the older
  directory by a copy that succeeded or that failed before it created its target. (A copy that
  fails later leaves a part of the key file, which the next process refuses,
  \<open>broken_copy_locks_out\<close>.)
\<close>

theorem master_key_stable:
  assumes "b64_at A rnd" "length rnd = 32" "kw_cache w = None"
    and "ensure_master_key A p f rnd w = (Ok k, w')"
  shows "ensure_master_key A p f'' rnd'' w' = (Ok k, w')
    \<and> (\<not> (takes_over p (kw_disk w) \<and> copy_breaks f) \<and> if_read f' (kp_key p) = None \<and> if_read f' (kp_legacy p) = None
       \<longrightarrow> fst (ensure_master_key A p f' rnd' (restart w')) = Ok k)"
  using ensure_cached[OF ensure_caches[OF assms(4)]] master_key_stable_laws[OF assms] by blast

text \<open>
  The copy of the key file breaks off: this process has the key, and every later one, whatever it
  would generate, is refused by what the copy left, although the whole key is still in the older
  directory.
\<close>

lemma broken_copy_locks_out:
  assumes "takes_over p d" "if_copy f = Copy_Leaves part" "read_key_file A f d (kp_legacy p) = Ok k"
    and "\<nexists>k. ae_unb64 A (trim part) = Some k \<and> length k = 32"
    and "if_read f' (kp_key p) = None"
  shows "\<exists>d'. load_or_create_key A p f rnd d = (Ok k, d') \<and> load_or_create_key A p f' rnd' d' = (Err InvalidKey, d')"
  using assms by (auto simp: load_or_create_key_def takes_over_def read_key_file_def[of A f'] split: option.split)

text \<open>A concrete instance: a toy cipher that puts the key in front, a toy encoding.\<close>

definition demo_aead :: aead where
  "demo_aead = \<lparr>ae_seal = \<lambda>k n p. Some (k @ p), ae_open = \<lambda>k n c. strip_prefix k c,
     ae_b64 = \<lambda>b. b, ae_unb64 = Some, ae_utf8 = \<lambda>s. True\<rparr>"

definition demo_key :: str where "demo_key = replicate 32 (CHR ''k'')"
definition demo_nonce :: str where "demo_nonce = replicate 12 (CHR ''n'')"
definition demo_paths :: key_paths where "demo_paths = \<lparr>kp_key = ''new'', kp_legacy = ''old''\<rparr>"
definition no_faults :: io_faults where
  "no_faults = \<lparr>if_read = \<lambda>_. None, if_copy = Copied, if_mkdir = None, if_write = None\<rparr>"

lemma master_key_stable_witness:
  "fst (ensure_master_key demo_aead demo_paths no_faults []
     (restart \<lparr>kw_cache = Some demo_key, kw_disk = Map.empty(''new'' \<mapsto> demo_key)\<rparr>)) = Ok demo_key"
proof -
  have 1: "b64_at demo_aead demo_key" "length demo_key = 32" by code_simp+
  have 2: "ensure_master_key demo_aead demo_paths no_faults demo_key \<lparr>kw_cache = None, kw_disk = Map.empty\<rparr>
    = (Ok demo_key, \<lparr>kw_cache = Some demo_key, kw_disk = Map.empty(''new'' \<mapsto> demo_key)\<rparr>)"
    by (simp add: ensure_master_key_def load_or_create_key_def demo_paths_def no_faults_def demo_aead_def)
  show ?thesis
    using master_key_stable[OF 1 _ 2, of no_faults "[]" no_faults "[]"]
    by (simp add: no_faults_def takes_over_def)
qed

end
