(* ===== verification/Rows.thy ===== *)
theory Rows
  imports Secret
begin

text \<open>
  Rows of the database, \<open>crates/fox-storage/src/repository/rows.rs\<close> and the row structs of
  \<open>proto_files.rs\<close>, \<open>request_examples.rs\<close> and \<open>test_cases.rs\<close>: one record per row struct, whose
  columns are text and \<open>i64\<close>, the conversions from and to the domain model, and the encryption
  of the columns that hold secrets.

  What other crates compute is the parameter \<open>codec\<close>: the text of a \<open>Uuid\<close> and of an RFC 3339
  instant, the derived \<open>serde\<close> instances, and the cipher with the result of
  \<open>fox_secret::ensure_master_key\<close>, which is constant in a process. The random nonces of one
  conversion are a supply \<open>nonces 0, nonces 1, ...\<close>.
\<close>

section \<open>Parameters\<close>

datatype 'a serde =
  Serde (ser: "'a \<Rightarrow> (str, str) result") (de: "str \<Rightarrow> (str, 'a) result")
    (de_value: "json \<Rightarrow> (str, 'a) result")

record codec =
  co_uuid_text :: "uuid \<Rightarrow> str"
  co_uuid_parse :: "str \<Rightarrow> (str, uuid) result"
  co_time_text :: "datetime \<Rightarrow> str"
  co_time_parse :: "str \<Rightarrow> (str, datetime) result"
  co_json :: "json serde"
  co_request :: "request_spec serde"
  co_var :: "environment_variable serde"
  co_vars :: "environment_variable list serde"
  co_params :: "global_param list serde"
  co_strings :: "(str, str) hash_map serde"
  co_items :: "mock_match_item list serde"
  co_headers :: "str str_table serde"
  co_docs :: "field_doc str_table serde"
  co_kvs :: "key_value list serde"
  co_key :: "(secret_error, master_key) result"
  co_aead :: aead

definition ok_or :: "'a \<Rightarrow> ('e, 'a) result \<Rightarrow> 'a" where
  "ok_or d r = (case r of Inl _ \<Rightarrow> d | Inr x \<Rightarrow> x)"

definition map_err :: "('e \<Rightarrow> 'f) \<Rightarrow> ('e, 'a) result \<Rightarrow> ('f, 'a) result" where
  "map_err f r = (case r of Inl e \<Rightarrow> Err (f e) | Inr x \<Rightarrow> Ok x)"

definition transpose_map :: "('a \<Rightarrow> ('e, 'b) result) \<Rightarrow> 'a option \<Rightarrow> ('e, 'b option) result" where
  "transpose_map f v = (case v of None \<Rightarrow> Ok None | Some x \<Rightarrow> and_then (f x) (\<lambda>y. Ok (Some y)))"

fun collect_results :: "('a \<Rightarrow> ('e, 'b) result) \<Rightarrow> 'a list \<Rightarrow> ('e, 'b list) result" where
  "collect_results f [] = Ok []"
| "collect_results f (x # xs) =
     and_then (f x) (\<lambda>y. and_then (collect_results f xs) (\<lambda>ys. Ok (y # ys)))"

lemma result_simps [simp]:
  "ok_or d (Inr x) = x" "ok_or d (Inl e) = d"
  "map_err f (Inr x) = Inr x" "map_err f (Inl e) = Inl (f e)"
  "transpose_map g None = Inr None"
  "transpose_map g (Some a) = and_then (g a) (\<lambda>y. Inr (Some y))"
  by (simp_all add: ok_or_def map_err_def transpose_map_def)

lemma collect_results_map:
  "\<forall>x \<in> set xs. f (g x) = Ok x \<Longrightarrow> collect_results f (map g xs) = Ok xs"
  by (induction xs) auto

lemma collect_results_length: "collect_results f xs = Ok ys \<Longrightarrow> length ys = length xs"
  by (induction xs arbitrary: ys) (auto simp: and_then_eq_Inr)

lemma collect_results_nth:
  "collect_results f xs = Ok ys \<Longrightarrow> i < length xs \<Longrightarrow> f (xs ! i) = Ok (ys ! i)"
  by (induction xs arbitrary: ys i) (auto simp: and_then_eq_Inr nth_Cons split: nat.splits)

section \<open>Identifiers and instants\<close>

definition parse_uuid :: "codec \<Rightarrow> str \<Rightarrow> (app_error, uuid) result" where
  "parse_uuid C s = map_err (\<lambda>e. Validation (Msg ''invalid id'' [s, e])) (co_uuid_parse C s)"

definition parse_time :: "codec \<Rightarrow> str \<Rightarrow> (app_error, datetime) result" where
  "parse_time C s = map_err (\<lambda>e. Validation (Msg ''invalid time'' [s, e])) (co_time_parse C s)"

text \<open>\<open>v as i64\<close> of a \<open>u64\<close>, and the casts of an \<open>i64\<close> column back.\<close>

definition u64_as_i64 :: "u64 \<Rightarrow> int" where "u64_as_i64 n = sint n"
definition i64_as_u64 :: "int \<Rightarrow> u64" where "i64_as_u64 n = word_of_int n"
definition i64_as_u16 :: "int \<Rightarrow> u16" where "i64_as_u16 n = word_of_int n"
definition i64_as_u8 :: "int \<Rightarrow> u8" where "i64_as_u8 n = word_of_int n"

definition clamp :: "int \<Rightarrow> int \<Rightarrow> int \<Rightarrow> int" where
  "clamp lo hi n = (if n < lo then lo else if hi < n then hi else n)"

lemma cast_back [simp]:
  "i64_as_u64 (u64_as_i64 d) = d" "i64_as_u16 (uint s) = s" "i64_as_u8 (uint b) = b"
  by (simp_all add: i64_as_u64_def u64_as_i64_def i64_as_u16_def i64_as_u8_def)

text \<open>\<open>format!("{e}")\<close> of an \<open>AppError\<close>.\<close>

fun app_error_display :: "app_error \<Rightarrow> msg" where
  "app_error_display (Database m) = Msg ''database error'' (msg_text m # msg_args m)"
| "app_error_display (Io m) = Msg ''io error'' (msg_text m # msg_args m)"
| "app_error_display (Http m) = Msg ''http error'' (msg_text m # msg_args m)"
| "app_error_display (NetworkTimeout m) = Msg ''network timeout'' (msg_text m # msg_args m)"
| "app_error_display (Ssl m) = Msg ''ssl error'' (msg_text m # msg_args m)"
| "app_error_display (Dns m) = Msg ''dns error'' (msg_text m # msg_args m)"
| "app_error_display (Connection m) = Msg ''connection error'' (msg_text m # msg_args m)"
| "app_error_display (Validation m) = Msg ''validation error'' (msg_text m # msg_args m)"
| "app_error_display (NotFound m) = Msg ''not found'' (msg_text m # msg_args m)"
| "app_error_display (OpenApi m) = Msg ''openapi error'' (msg_text m # msg_args m)"
| "app_error_display (Mock m) = Msg ''mock error'' (msg_text m # msg_args m)"
| "app_error_display (Test m) = Msg ''test error'' (msg_text m # msg_args m)"
| "app_error_display (ScriptError m) = Msg ''script error'' (msg_text m # msg_args m)"
| "app_error_display (WebSocket m) = Msg ''websocket error'' (msg_text m # msg_args m)"
| "app_error_display (Json_Error m) = Msg ''json error'' (msg_text m # msg_args m)"
| "app_error_display (Decryption m) = Msg ''decryption failed'' (msg_text m # msg_args m)"
| "app_error_display (OAuth2_Error m) = Msg ''oauth2 error'' (msg_text m # msg_args m)"
| "app_error_display (Cancelled m) = Msg ''request cancelled'' (msg_text m # msg_args m)"
| "app_error_display (Grpc_Error m) = Msg ''grpc error'' (msg_text m # msg_args m)"

section \<open>Secrets in JSON\<close>

definition secret_step :: "codec \<Rightarrow> bool \<Rightarrow> str \<Rightarrow> str \<Rightarrow> (app_error, str) result" where
  "secret_step C enc nonce s =
     map_err (\<lambda>e. Decryption (secret_error_text e))
       (and_then (co_key C)
          (\<lambda>k. if enc then encrypt (co_aead C) nonce k s else decrypt (co_aead C) k s))"

text \<open>
  The recursive walk; the last argument counts the secrets already met, so that the \<open>n\<close>-th
  encryption of a walk uses the \<open>n\<close>-th nonce.
\<close>

fun walk_secrets ::
  "codec \<Rightarrow> bool \<Rightarrow> (nat \<Rightarrow> str) \<Rightarrow> json \<Rightarrow> nat \<Rightarrow> (app_error, json \<times> nat) result"
  and walk_fields ::
  "codec \<Rightarrow> bool \<Rightarrow> (nat \<Rightarrow> str) \<Rightarrow> (str \<times> json) list \<Rightarrow> nat
     \<Rightarrow> (app_error, (str \<times> json) list \<times> nat) result"
  and walk_items ::
  "codec \<Rightarrow> bool \<Rightarrow> (nat \<Rightarrow> str) \<Rightarrow> json list \<Rightarrow> nat \<Rightarrow> (app_error, json list \<times> nat) result" where
  "walk_secrets C enc nonces (JObject kvs) i =
     and_then (walk_fields C enc nonces kvs i) (\<lambda>(out, j). Ok (JObject out, j))"
| "walk_secrets C enc nonces (JArray items) i =
     and_then (walk_items C enc nonces items i) (\<lambda>(out, j). Ok (JArray out, j))"
| "walk_secrets C enc nonces other i = Ok (other, i)"
| "walk_fields C enc nonces [] i = Ok ([], i)"
| "walk_fields C enc nonces ((key, v) # kvs) i =
     and_then
       (if key = ''app_secret'' then
          (case v of
             JString s \<Rightarrow>
               and_then (secret_step C enc (nonces i) s) (\<lambda>secret. Ok (JString secret, Suc i))
           | _ \<Rightarrow> Ok (v, i))
        else walk_secrets C enc nonces v i)
       (\<lambda>(v', j). and_then (walk_fields C enc nonces kvs j)
          (\<lambda>(out, l). Ok ((key, v') # out, l)))"
| "walk_items C enc nonces [] i = Ok ([], i)"
| "walk_items C enc nonces (item # items) i =
     and_then (walk_secrets C enc nonces item i)
       (\<lambda>(v', j). and_then (walk_items C enc nonces items j) (\<lambda>(out, l). Ok (v' # out, l)))"

definition encrypt_request_json :: "codec \<Rightarrow> (nat \<Rightarrow> str) \<Rightarrow> str \<Rightarrow> bool \<Rightarrow> str" where
  "encrypt_request_json C nonces request_json enc =
     (case de (co_json C) request_json of
        Inl _ \<Rightarrow> request_json
      | Inr v \<Rightarrow>
          (case walk_secrets C enc nonces v 0 of
             Inl _ \<Rightarrow> request_json
           | Inr (out, _) \<Rightarrow> ok_or request_json (ser (co_json C) out)))"

definition encrypt_request_secrets :: "codec \<Rightarrow> (nat \<Rightarrow> str) \<Rightarrow> str \<Rightarrow> str" where
  "encrypt_request_secrets C nonces request_json = encrypt_request_json C nonces request_json True"

definition decrypt_request_secrets :: "codec \<Rightarrow> str \<Rightarrow> (app_error, str) result" where
  "decrypt_request_secrets C request_json =
     (case de (co_json C) request_json of
        Inl _ \<Rightarrow> Ok request_json
      | Inr v \<Rightarrow>
          (case walk_secrets C False (\<lambda>_. []) v 0 of
             Inl e \<Rightarrow>
               (case app_error_display e of
                  Msg t args \<Rightarrow> Err (Decryption (Msg ''request secrets cannot be decrypted'' (t # args))))
           | Inr (out, _) \<Rightarrow> Ok (ok_or request_json (ser (co_json C) out))))"

section \<open>Environment variables\<close>

definition encrypt_text :: "codec \<Rightarrow> str \<Rightarrow> str \<Rightarrow> str" where
  "encrypt_text C nonce json =
     ok_or json (and_then (co_key C) (\<lambda>k. encrypt (co_aead C) nonce k json))"

definition encrypt_env_json :: "codec \<Rightarrow> str \<Rightarrow> environment_variable list \<Rightarrow> str" where
  "encrypt_env_json C nonce vars = encrypt_text C nonce (ok_or ''[]'' (ser (co_vars C) vars))"

definition decrypt_env_json :: "codec \<Rightarrow> str \<Rightarrow> (app_error, json) result" where
  "decrypt_env_json C json =
     and_then
       (map_err (\<lambda>e. Decryption (secret_error_text e))
          (and_then (co_key C) (\<lambda>k. decrypt (co_aead C) k json)))
       (\<lambda>plain. map_err (\<lambda>_. Decryption (Msg ''environment variables are corrupt'' []))
          (de (co_json C) plain))"

definition skipped_key :: "str \<Rightarrow> bool" where
  "skipped_key key \<longleftrightarrow> trim key = [] \<or> starts_with ''{{'' key \<or> starts_with ''$'' key"

definition variable_text :: "codec \<Rightarrow> json \<Rightarrow> str" where
  "variable_text C v = (case v of JString s \<Rightarrow> s | other \<Rightarrow> ok_or [] (ser (co_json C) other))"

definition legacy_variable :: "codec \<Rightarrow> str \<times> json \<Rightarrow> environment_variable" where
  "legacy_variable C kv =
     \<lparr>ev_key = fst kv, ev_remote_value = variable_text C (snd kv), ev_local_value = [],
      ev_enabled = True, ev_description = None\<rparr>"

definition variables_from_value :: "codec \<Rightarrow> json \<Rightarrow> (app_error, environment_variable list) result" where
  "variables_from_value C v =
     (case v of
        JArray items \<Rightarrow>
          collect_results
            (\<lambda>item. map_err (\<lambda>_. Decryption (Msg ''environment variables are corrupt'' []))
               (de_value (co_var C) item)) items
      | JObject kvs \<Rightarrow>
          Ok (map (legacy_variable C) (filter (\<lambda>kv. \<not> skipped_key (fst kv)) kvs))
      | _ \<Rightarrow> Err (Decryption (Msg ''environment variables are corrupt'' [])))"

section \<open>Projects, folders and endpoints\<close>

record project_row =
  pw_id :: str
  pw_name :: str
  pw_description :: str
  pw_variables_json :: str
  pw_created_at :: str
  pw_updated_at :: str

definition project_row :: "codec \<Rightarrow> project \<Rightarrow> project_row" where
  "project_row C m =
     \<lparr>pw_id = co_uuid_text C (pr_id m), pw_name = pr_name m, pw_description = pr_description m,
      pw_variables_json = ok_or ''{}'' (ser (co_strings C) (pr_variables m)),
      pw_created_at = co_time_text C (pr_created_at m),
      pw_updated_at = co_time_text C (pr_updated_at m)\<rparr>"

definition project_model :: "codec \<Rightarrow> 'a project_row_scheme \<Rightarrow> (app_error, project) result" where
  "project_model C r =
     and_then (parse_uuid C (pw_id r)) (\<lambda>i.
     and_then (parse_time C (pw_created_at r)) (\<lambda>created.
     and_then (parse_time C (pw_updated_at r)) (\<lambda>updated.
       Ok \<lparr>pr_id = i, pr_name = pw_name r, pr_description = pw_description r,
           pr_variables = ok_or Map.empty (de (co_strings C) (pw_variables_json r)),
           pr_created_at = created, pr_updated_at = updated\<rparr>)))"

record folder_row =
  fw_id :: str
  fw_project_id :: str
  fw_parent_id :: "str option"
  fw_name :: str
  fw_sort_order :: int
  fw_created_at :: str
  fw_updated_at :: str

definition folder_row :: "codec \<Rightarrow> folder \<Rightarrow> folder_row" where
  "folder_row C m =
     \<lparr>fw_id = co_uuid_text C (fo_id m), fw_project_id = co_uuid_text C (fo_project_id m),
      fw_parent_id = map_option (co_uuid_text C) (fo_parent_id m), fw_name = fo_name m,
      fw_sort_order = fo_sort_order m, fw_created_at = co_time_text C (fo_created_at m),
      fw_updated_at = co_time_text C (fo_updated_at m)\<rparr>"

definition folder_model :: "codec \<Rightarrow> folder_row \<Rightarrow> (app_error, folder) result" where
  "folder_model C r =
     and_then (parse_uuid C (fw_id r)) (\<lambda>i.
     and_then (parse_uuid C (fw_project_id r)) (\<lambda>p.
     and_then (transpose_map (parse_uuid C) (fw_parent_id r)) (\<lambda>parent.
     and_then (parse_time C (fw_created_at r)) (\<lambda>created.
     and_then (parse_time C (fw_updated_at r)) (\<lambda>updated.
       Ok \<lparr>fo_id = i, fo_project_id = p, fo_parent_id = parent, fo_name = fw_name r,
           fo_sort_order = fw_sort_order r, fo_created_at = created, fo_updated_at = updated\<rparr>)))))"

record endpoint_row =
  ew_id :: str
  ew_project_id :: str
  ew_folder_id :: "str option"
  ew_name :: str
  ew_method :: str
  ew_path :: str
  ew_description :: str
  ew_status :: str
  ew_sort_order :: int
  ew_request_json :: str
  ew_created_at :: str
  ew_updated_at :: str

definition endpoint_row :: "codec \<Rightarrow> (nat \<Rightarrow> str) \<Rightarrow> endpoint \<Rightarrow> endpoint_row" where
  "endpoint_row C nonces m =
     \<lparr>ew_id = co_uuid_text C (ep_id m), ew_project_id = co_uuid_text C (ep_project_id m),
      ew_folder_id = map_option (co_uuid_text C) (ep_folder_id m), ew_name = ep_name m,
      ew_method = method_as_str (ep_method m), ew_path = ep_path m,
      ew_description = ep_description m, ew_status = status_as_str (ep_status m),
      ew_sort_order = ep_sort_order m,
      ew_request_json =
        encrypt_request_secrets C nonces (ok_or ''{}'' (ser (co_request C) (ep_request m))),
      ew_created_at = co_time_text C (ep_created_at m),
      ew_updated_at = co_time_text C (ep_updated_at m)\<rparr>"

definition status_of_text :: "str \<Rightarrow> endpoint_status" where
  "status_of_text s =
     (if s = ''designing'' then Designing
      else if s = ''developing'' then Developing
      else if s = ''testing'' then Testing
      else if s = ''released'' then Released
      else if s = ''deprecated'' then Deprecated
      else Developing)"

definition endpoint_model :: "codec \<Rightarrow> endpoint_row \<Rightarrow> (app_error, endpoint) result" where
  "endpoint_model C r =
     and_then (parse_uuid C (ew_id r)) (\<lambda>i.
     and_then (parse_uuid C (ew_project_id r)) (\<lambda>p.
     and_then (transpose_map (parse_uuid C) (ew_folder_id r)) (\<lambda>folder.
     and_then (method_from_str (ew_method r)) (\<lambda>meth.
     and_then (decrypt_request_secrets C (ew_request_json r)) (\<lambda>request.
     and_then (parse_time C (ew_created_at r)) (\<lambda>created.
     and_then (parse_time C (ew_updated_at r)) (\<lambda>updated.
       Ok \<lparr>ep_id = i, ep_project_id = p, ep_folder_id = folder, ep_name = ew_name r,
           ep_method = meth, ep_path = ew_path r, ep_description = ew_description r,
           ep_status = status_of_text (ew_status r), ep_sort_order = ew_sort_order r,
           ep_request = ok_or default_request (de (co_request C) request),
           ep_created_at = created, ep_updated_at = updated\<rparr>)))))))"

section \<open>Environments\<close>

record environment_row =
  nw_id :: str
  nw_project_id :: str
  nw_name :: str
  nw_base_url :: str
  nw_variables_json :: str
  nw_created_at :: str
  nw_updated_at :: str

definition environment_row :: "codec \<Rightarrow> str \<Rightarrow> environment \<Rightarrow> environment_row" where
  "environment_row C nonce m =
     \<lparr>nw_id = co_uuid_text C (en_id m), nw_project_id = co_uuid_text C (en_project_id m),
      nw_name = en_name m, nw_base_url = en_base_url m,
      nw_variables_json = encrypt_env_json C nonce (en_variables m),
      nw_created_at = co_time_text C (en_created_at m),
      nw_updated_at = co_time_text C (en_updated_at m)\<rparr>"

definition environment_model :: "codec \<Rightarrow> environment_row \<Rightarrow> (app_error, environment) result" where
  "environment_model C r =
     and_then (decrypt_env_json C (nw_variables_json r)) (\<lambda>v.
     and_then (variables_from_value C v) (\<lambda>vars.
     and_then (parse_uuid C (nw_id r)) (\<lambda>i.
     and_then (parse_uuid C (nw_project_id r)) (\<lambda>p.
     and_then (parse_time C (nw_created_at r)) (\<lambda>created.
     and_then (parse_time C (nw_updated_at r)) (\<lambda>updated.
       Ok \<lparr>en_id = i, en_project_id = p, en_name = nw_name r, en_base_url = nw_base_url r,
           en_variables = vars, en_created_at = created, en_updated_at = updated\<rparr>))))))"

section \<open>What encryption keeps\<close>

text \<open>The strings a walk encrypts, in the order it meets them.\<close>

fun json_secrets :: "json \<Rightarrow> str list" and field_secrets :: "(str \<times> json) list \<Rightarrow> str list"
  and item_secrets :: "json list \<Rightarrow> str list" where
  "json_secrets (JObject kvs) = field_secrets kvs"
| "json_secrets (JArray items) = item_secrets items"
| "json_secrets other = []"
| "field_secrets [] = []"
| "field_secrets ((key, v) # kvs) =
     (if key = ''app_secret'' then (case v of JString s \<Rightarrow> [s] | _ \<Rightarrow> []) else json_secrets v)
       @ field_secrets kvs"
| "item_secrets [] = []"
| "item_secrets (v # vs) = json_secrets v @ item_secrets vs"

definition all_seal :: "codec \<Rightarrow> master_key \<Rightarrow> (nat \<Rightarrow> str) \<Rightarrow> str list \<Rightarrow> bool" where
  "all_seal C k nonces ss \<longleftrightarrow> (\<forall>s \<in> set ss. \<forall>i. seals (co_aead C) k (nonces i) s)"

lemma all_seal_simps [simp]:
  "all_seal C k nonces []"
  "all_seal C k nonces (s # ss) \<longleftrightarrow> (\<forall>i. seals (co_aead C) k (nonces i) s) \<and> all_seal C k nonces ss"
  "all_seal C k nonces (as @ bs) \<longleftrightarrow> all_seal C k nonces as \<and> all_seal C k nonces bs"
  by (auto simp: all_seal_def)

lemma secret_step_back:
  assumes "co_key C = Ok k" "seals (co_aead C) k nonce s"
  shows "\<exists>c. secret_step C True nonce s = Ok c \<and> (\<forall>n. secret_step C False n c = Ok s)"
  using decrypt_encrypt[OF assms(2)] assms(1) by (auto simp: secret_step_def)

text \<open>One field of an object, as \<open>walk_fields\<close> treats it.\<close>

definition field_step ::
  "codec \<Rightarrow> bool \<Rightarrow> (nat \<Rightarrow> str) \<Rightarrow> str \<Rightarrow> json \<Rightarrow> nat \<Rightarrow> (app_error, json \<times> nat) result" where
  "field_step C enc nonces key v i =
     (if key = ''app_secret'' then
        (case v of
           JString s \<Rightarrow>
             and_then (secret_step C enc (nonces i) s) (\<lambda>secret. Ok (JString secret, Suc i))
         | _ \<Rightarrow> Ok (v, i))
      else walk_secrets C enc nonces v i)"

lemma walk_fields_Cons:
  "walk_fields C enc nonces ((key, v) # kvs) i =
     and_then (field_step C enc nonces key v i)
       (\<lambda>(v', j). and_then (walk_fields C enc nonces kvs j) (\<lambda>(out, l). Ok ((key, v') # out, l)))"
  by (simp add: field_step_def)

text \<open>A walk step encrypts and, from whatever position, decrypts again.\<close>

definition back_at :: "(bool \<Rightarrow> (nat \<Rightarrow> str) \<Rightarrow> 'a \<Rightarrow> nat \<Rightarrow> (app_error, 'a \<times> nat) result)
    \<Rightarrow> (nat \<Rightarrow> str) \<Rightarrow> 'a \<Rightarrow> bool" where
  "back_at W nonces v \<longleftrightarrow>
     (\<forall>i. \<exists>v' j. W True nonces v i = Ok (v', j) \<and> (\<forall>n l. \<exists>m. W False n v' l = Ok (v, m)))"

lemma back_atI:
  assumes "\<And>i. \<exists>v' j. W True nonces v i = Ok (v', j) \<and> (\<forall>n l. \<exists>m. W False n v' l = Ok (v, m))"
  shows "back_at W nonces v"
  using assms by (simp add: back_at_def)

lemma back_atE:
  assumes "back_at W nonces v"
  obtains v' j where "W True nonces v i = Ok (v', j)" "\<And>n l. \<exists>m. W False n v' l = Ok (v, m)"
  using assms unfolding back_at_def by metis

lemma field_step_back:
  assumes "co_key C = Ok k"
    and "all_seal C k nonces (if key = ''app_secret'' then (case v of JString s \<Rightarrow> [s] | _ \<Rightarrow> []) else json_secrets v)"
    and "key \<noteq> ''app_secret'' \<Longrightarrow> all_seal C k nonces (json_secrets v) \<Longrightarrow> back_at (walk_secrets C) nonces v"
  shows "back_at (\<lambda>e n v i. field_step C e n key v i) nonces v"
proof (cases "key = ''app_secret'' \<and> (\<exists>s. v = JString s)")
  case True
  then obtain s where v: "key = ''app_secret''" "v = JString s" by auto
  show ?thesis
  proof (rule back_atI)
    fix i
    have "seals (co_aead C) k (nonces i) s" using assms(2) v by simp
    then obtain c where "secret_step C True (nonces i) s = Ok c" "\<And>n. secret_step C False n c = Ok s"
      using secret_step_back[OF assms(1)] by blast
    then show "\<exists>v' j. field_step C True nonces key v i = Ok (v', j)
        \<and> (\<forall>n l. \<exists>m. field_step C False n key v' l = Ok (v, m))"
      by (intro exI[of _ "JString c"] exI[of _ "Suc i"]) (simp add: field_step_def v)
  qed
next
  case False
  then show ?thesis
    using assms(2,3) by (cases "key = ''app_secret''")
      (auto simp: back_at_def field_step_def split: json.splits)
qed

lemma walk_fields_back:
  assumes h: "back_at (\<lambda>e n v i. field_step C e n key v i) nonces v"
    and r: "back_at (walk_fields C) nonces kvs"
  shows "back_at (walk_fields C) nonces ((key, v) # kvs)"
proof (rule back_atI)
  fix i
  obtain v1 j where h1: "field_step C True nonces key v i = Ok (v1, j)"
    "\<And>n l. \<exists>m. field_step C False n key v1 l = Ok (v, m)" using back_atE[OF h] by metis
  obtain v' j' where r1: "walk_fields C True nonces kvs j = Ok (v', j')"
    "\<And>n l. \<exists>m. walk_fields C False n v' l = Ok (kvs, m)" using back_atE[OF r] by metis
  have "\<exists>m. walk_fields C False n ((key, v1) # v') l = Ok ((key, v) # kvs, m)" for n l
  proof -
    obtain m where "field_step C False n key v1 l = Ok (v, m)" using h1(2) by blast
    moreover obtain m' where "walk_fields C False n v' m = Ok (kvs, m')" using r1(2) by blast
    ultimately show ?thesis by (simp only: walk_fields_Cons) simp
  qed
  moreover have "walk_fields C True nonces ((key, v) # kvs) i = Ok ((key, v1) # v', j')"
    by (simp only: walk_fields_Cons h1(1)) (simp add: r1(1))
  ultimately show "\<exists>v' j. walk_fields C True nonces ((key, v) # kvs) i = Ok (v', j)
      \<and> (\<forall>n l. \<exists>m. walk_fields C False n v' l = Ok ((key, v) # kvs, m))" by blast
qed

lemma walk_items_back:
  assumes h: "back_at (walk_secrets C) nonces v" and r: "back_at (walk_items C) nonces vs"
  shows "back_at (walk_items C) nonces (v # vs)"
proof (rule back_atI)
  fix i
  obtain v1 j where h1: "walk_secrets C True nonces v i = Ok (v1, j)"
    "\<And>n l. \<exists>m. walk_secrets C False n v1 l = Ok (v, m)" using back_atE[OF h] by metis
  obtain v' j' where r1: "walk_items C True nonces vs j = Ok (v', j')"
    "\<And>n l. \<exists>m. walk_items C False n v' l = Ok (vs, m)" using back_atE[OF r] by metis
  have "\<exists>m. walk_items C False n (v1 # v') l = Ok (v # vs, m)" for n l
  proof -
    obtain m where "walk_secrets C False n v1 l = Ok (v, m)" using h1(2) by blast
    moreover obtain m' where "walk_items C False n v' m = Ok (vs, m')" using r1(2) by blast
    ultimately show ?thesis by simp
  qed
  moreover have "walk_items C True nonces (v # vs) i = Ok (v1 # v', j')"
    by (simp add: h1(1) r1(1))
  ultimately show "\<exists>v' j. walk_items C True nonces (v # vs) i = Ok (v', j)
      \<and> (\<forall>n l. \<exists>m. walk_items C False n v' l = Ok (v # vs, m))" by blast
qed

lemma walk_wrap_back:
  assumes "back_at (W C) nonces x"
    and "\<And>e n x i. walk_secrets C e n (wrap x) i = and_then (W C e n x i) (\<lambda>(out, j). Ok (wrap out, j))"
  shows "back_at (walk_secrets C) nonces (wrap x)"
proof (rule back_atI)
  fix i
  obtain v j where v: "W C True nonces x i = Ok (v, j)" "\<And>n l. \<exists>m. W C False n v l = Ok (x, m)"
    using back_atE[OF assms(1)] by metis
  have "\<exists>m. walk_secrets C False n (wrap v) l = Ok (wrap x, m)" for n l
    using v(2)[of n l] by (auto simp: assms(2))
  moreover have "walk_secrets C True nonces (wrap x) i = Ok (wrap v, j)"
    by (simp add: assms(2) v(1))
  ultimately show "\<exists>v' j. walk_secrets C True nonces (wrap x) i = Ok (v', j)
      \<and> (\<forall>n l. \<exists>m. walk_secrets C False n v' l = Ok (wrap x, m))" by blast
qed

lemma walk_back:
  assumes key: "co_key C = Ok k"
  shows "all_seal C k nonces (json_secrets v) \<Longrightarrow> back_at (walk_secrets C) nonces v"
    and "all_seal C k nonces (field_secrets kvs) \<Longrightarrow> back_at (walk_fields C) nonces kvs"
    and "all_seal C k nonces (item_secrets items) \<Longrightarrow> back_at (walk_items C) nonces items"
proof (induction v and kvs and items rule: json_secrets_field_secrets_item_secrets.induct)
  case (1 kvs)
  then show ?case by (intro walk_wrap_back[where W = walk_fields and wrap = JObject]) simp_all
next
  case (2 items)
  then show ?case by (intro walk_wrap_back[where W = walk_items and wrap = JArray]) simp_all
next
  case (5 key v kvs)
  then show ?case
    by (intro walk_fields_back field_step_back[OF key]) (auto simp: all_seal_def)
next
  case (7 v vs)
  then show ?case by (intro walk_items_back) simp_all
qed (simp_all add: back_at_def)

end
