(* ===== verification/RowsMore.thy ===== *)
theory RowsMore
  imports Rows
begin

text \<open>
  The remaining row structs: test runs, request history, mock rules, response and request
  examples, test cases, proto files and queued WebSocket messages.
\<close>

section \<open>Runs and history\<close>

record test_run =
  tr_id :: uuid
  tr_project_id :: uuid
  tr_environment_id :: "uuid option"
  tr_name :: str
  tr_result_json :: str
  tr_started_at :: datetime
  tr_finished_at :: "datetime option"

record test_run_row =
  tw_id :: str
  tw_project_id :: str
  tw_environment_id :: "str option"
  tw_name :: str
  tw_result_json :: str
  tw_started_at :: str
  tw_finished_at :: "str option"

definition test_run_row :: "codec \<Rightarrow> test_run \<Rightarrow> test_run_row" where
  "test_run_row C m =
     \<lparr>tw_id = co_uuid_text C (tr_id m), tw_project_id = co_uuid_text C (tr_project_id m),
      tw_environment_id = map_option (co_uuid_text C) (tr_environment_id m), tw_name = tr_name m,
      tw_result_json = tr_result_json m, tw_started_at = co_time_text C (tr_started_at m),
      tw_finished_at = map_option (co_time_text C) (tr_finished_at m)\<rparr>"

definition test_run_model :: "codec \<Rightarrow> test_run_row \<Rightarrow> (app_error, test_run) result" where
  "test_run_model C r =
     and_then (parse_uuid C (tw_id r)) (\<lambda>i.
     and_then (parse_uuid C (tw_project_id r)) (\<lambda>p.
     and_then (transpose_map (parse_uuid C) (tw_environment_id r)) (\<lambda>env.
     and_then (parse_time C (tw_started_at r)) (\<lambda>started.
     and_then (transpose_map (parse_time C) (tw_finished_at r)) (\<lambda>finished.
       Ok \<lparr>tr_id = i, tr_project_id = p, tr_environment_id = env, tr_name = tw_name r,
           tr_result_json = tw_result_json r, tr_started_at = started,
           tr_finished_at = finished\<rparr>)))))"

record request_history =
  rh_id :: uuid
  rh_project_id :: uuid
  rh_endpoint_id :: "uuid option"
  rh_method :: str
  rh_url :: str
  rh_status :: "u16 option"
  rh_duration_ms :: "u64 option"
  rh_request_summary_json :: str
  rh_response_summary_json :: str
  rh_created_at :: datetime

record history_row =
  hw_id :: str
  hw_project_id :: str
  hw_endpoint_id :: "str option"
  hw_method :: str
  hw_url :: str
  hw_status :: "int option"
  hw_duration_ms :: "int option"
  hw_request_summary_json :: str
  hw_response_summary_json :: str
  hw_created_at :: str

definition history_row :: "codec \<Rightarrow> request_history \<Rightarrow> history_row" where
  "history_row C m =
     \<lparr>hw_id = co_uuid_text C (rh_id m), hw_project_id = co_uuid_text C (rh_project_id m),
      hw_endpoint_id = map_option (co_uuid_text C) (rh_endpoint_id m), hw_method = rh_method m,
      hw_url = rh_url m, hw_status = map_option uint (rh_status m),
      hw_duration_ms = map_option u64_as_i64 (rh_duration_ms m),
      hw_request_summary_json = rh_request_summary_json m,
      hw_response_summary_json = rh_response_summary_json m,
      hw_created_at = co_time_text C (rh_created_at m)\<rparr>"

definition history_model :: "codec \<Rightarrow> history_row \<Rightarrow> (app_error, request_history) result" where
  "history_model C r =
     and_then (parse_uuid C (hw_id r)) (\<lambda>i.
     and_then (parse_uuid C (hw_project_id r)) (\<lambda>p.
     and_then (transpose_map (parse_uuid C) (hw_endpoint_id r)) (\<lambda>ep.
     and_then (parse_time C (hw_created_at r)) (\<lambda>created.
       Ok \<lparr>rh_id = i, rh_project_id = p, rh_endpoint_id = ep, rh_method = hw_method r,
           rh_url = hw_url r, rh_status = map_option i64_as_u16 (hw_status r),
           rh_duration_ms = map_option i64_as_u64 (hw_duration_ms r),
           rh_request_summary_json = hw_request_summary_json r,
           rh_response_summary_json = hw_response_summary_json r, rh_created_at = created\<rparr>))))"

section \<open>Mock rules\<close>

record mock_rule_row =
  mw_id :: str
  mw_project_id :: str
  mw_endpoint_id :: "str option"
  mw_name :: str
  mw_method :: str
  mw_path :: str
  mw_match_query_json :: str
  mw_match_headers_json :: str
  mw_response_status :: int
  mw_response_headers_json :: str
  mw_response_body_template :: str
  mw_delay_ms :: int
  mw_fault_rate_pct :: int
  mw_fault_status :: int
  mw_enabled :: int
  mw_priority :: int
  mw_created_at :: str
  mw_updated_at :: str

definition mock_rule_row :: "codec \<Rightarrow> mock_rule \<Rightarrow> mock_rule_row" where
  "mock_rule_row C m =
     \<lparr>mw_id = co_uuid_text C (mr_id m), mw_project_id = co_uuid_text C (mr_project_id m),
      mw_endpoint_id = map_option (co_uuid_text C) (mr_endpoint_id m), mw_name = mr_name m,
      mw_method = method_as_str (mr_method m), mw_path = mr_path m,
      mw_match_query_json = ok_or ''[]'' (ser (co_items C) (mr_match_query m)),
      mw_match_headers_json = ok_or ''[]'' (ser (co_items C) (mr_match_headers m)),
      mw_response_status = uint (mr_response_status m),
      mw_response_headers_json = ok_or ''{}'' (ser (co_headers C) (mr_response_headers m)),
      mw_response_body_template = mr_response_body_template m,
      mw_delay_ms = u64_as_i64 (mr_delay_ms m), mw_fault_rate_pct = uint (mr_fault_rate_pct m),
      mw_fault_status = uint (mr_fault_status m), mw_enabled = (if mr_enabled m then 1 else 0),
      mw_priority = mr_priority m, mw_created_at = co_time_text C (mr_created_at m),
      mw_updated_at = co_time_text C (mr_updated_at m)\<rparr>"

definition mock_rule_model :: "codec \<Rightarrow> mock_rule_row \<Rightarrow> (app_error, mock_rule) result" where
  "mock_rule_model C r =
     and_then (parse_uuid C (mw_id r)) (\<lambda>i.
     and_then (parse_uuid C (mw_project_id r)) (\<lambda>p.
     and_then (transpose_map (parse_uuid C) (mw_endpoint_id r)) (\<lambda>ep.
     and_then (method_from_str (mw_method r)) (\<lambda>meth.
     and_then (parse_time C (mw_created_at r)) (\<lambda>created.
     and_then (parse_time C (mw_updated_at r)) (\<lambda>updated.
       Ok \<lparr>mr_id = i, mr_project_id = p, mr_endpoint_id = ep, mr_name = mw_name r,
           mr_method = meth, mr_path = mw_path r,
           mr_match_query = ok_or [] (de (co_items C) (mw_match_query_json r)),
           mr_match_headers = ok_or [] (de (co_items C) (mw_match_headers_json r)),
           mr_response_status = i64_as_u16 (mw_response_status r),
           mr_response_headers = ok_or [] (de (co_headers C) (mw_response_headers_json r)),
           mr_response_body_template = mw_response_body_template r,
           mr_delay_ms = i64_as_u64 (mw_delay_ms r),
           mr_fault_rate_pct = i64_as_u8 (clamp 0 100 (mw_fault_rate_pct r)),
           mr_fault_status = i64_as_u16 (mw_fault_status r), mr_enabled = (mw_enabled r \<noteq> 0),
           mr_priority = mw_priority r, mr_created_at = created, mr_updated_at = updated\<rparr>))))))"

section \<open>Examples\<close>

record response_example_row =
  xw_id :: str
  xw_endpoint_id :: str
  xw_name :: str
  xw_status :: int
  xw_headers_json :: str
  xw_body :: str
  xw_content_type :: str
  xw_docs_json :: str
  xw_created_at :: str
  xw_updated_at :: str

definition response_example_row :: "codec \<Rightarrow> response_example \<Rightarrow> response_example_row" where
  "response_example_row C m =
     \<lparr>xw_id = co_uuid_text C (rx_id m), xw_endpoint_id = co_uuid_text C (rx_endpoint_id m),
      xw_name = rx_name m, xw_status = uint (rx_status m),
      xw_headers_json = ok_or ''{}'' (ser (co_headers C) (rx_headers m)), xw_body = rx_body m,
      xw_content_type = rx_content_type m,
      xw_docs_json = ok_or ''{}'' (ser (co_docs C) (rx_docs m)),
      xw_created_at = co_time_text C (rx_created_at m),
      xw_updated_at = co_time_text C (rx_updated_at m)\<rparr>"

definition response_example_model ::
  "codec \<Rightarrow> response_example_row \<Rightarrow> (app_error, response_example) result" where
  "response_example_model C r =
     and_then (parse_uuid C (xw_id r)) (\<lambda>i.
     and_then (parse_uuid C (xw_endpoint_id r)) (\<lambda>ep.
     and_then (parse_time C (xw_created_at r)) (\<lambda>created.
     and_then (parse_time C (xw_updated_at r)) (\<lambda>updated.
       Ok \<lparr>rx_id = i, rx_endpoint_id = ep, rx_name = xw_name r,
           rx_status = i64_as_u16 (xw_status r),
           rx_headers = ok_or [] (de (co_headers C) (xw_headers_json r)), rx_body = xw_body r,
           rx_content_type = xw_content_type r,
           rx_docs = ok_or [] (de (co_docs C) (xw_docs_json r)), rx_created_at = created,
           rx_updated_at = updated\<rparr>))))"

record request_example_row =
  qw_id :: str
  qw_endpoint_id :: str
  qw_name :: str
  qw_request_json :: str
  qw_created_at :: str
  qw_updated_at :: str

text \<open>The values bound by \<open>create_request_example\<close>, which \<open>save_request_examples_bulk\<close> collects.\<close>

definition request_example_row ::
  "codec \<Rightarrow> request_example \<Rightarrow> (app_error, request_example_row) result" where
  "request_example_row C m =
     and_then (map_err (\<lambda>e. Json_Error (Msg e [])) (ser (co_request C) (qx_request m))) (\<lambda>t.
       Ok \<lparr>qw_id = co_uuid_text C (qx_id m), qw_endpoint_id = co_uuid_text C (qx_endpoint_id m),
           qw_name = qx_name m, qw_request_json = t,
           qw_created_at = co_time_text C (qx_created_at m),
           qw_updated_at = co_time_text C (qx_updated_at m)\<rparr>)"

definition request_example_model ::
  "codec \<Rightarrow> request_example_row \<Rightarrow> (app_error, request_example) result" where
  "request_example_model C r =
     and_then (parse_uuid C (qw_id r)) (\<lambda>i.
     and_then (parse_uuid C (qw_endpoint_id r)) (\<lambda>ep.
     and_then (map_err (\<lambda>e. Json_Error (Msg e [])) (de (co_request C) (qw_request_json r))) (\<lambda>req.
     and_then (parse_time C (qw_created_at r)) (\<lambda>created.
     and_then (parse_time C (qw_updated_at r)) (\<lambda>updated.
       Ok \<lparr>qx_id = i, qx_endpoint_id = ep, qx_name = qw_name r, qx_request = req,
           qx_created_at = created, qx_updated_at = updated\<rparr>)))))"

section \<open>Test cases\<close>

record test_case_row =
  cw_id :: str
  cw_request_id :: str
  cw_name :: str
  cw_category :: str
  cw_method :: str
  cw_url_path :: str
  cw_params :: "str option"
  cw_headers :: "str option"
  cw_body_type :: str
  cw_body_content :: str
  cw_last_run_status :: str
  cw_created_at :: str

definition kvs_text :: "codec \<Rightarrow> key_value list \<Rightarrow> (app_error, str) result" where
  "kvs_text C kvs = map_err (\<lambda>e. Json_Error (Msg e [])) (ser (co_kvs C) kvs)"

definition kvs_of_text :: "codec \<Rightarrow> str option \<Rightarrow> (app_error, key_value list) result" where
  "kvs_of_text C t =
     map_err (\<lambda>e. Json_Error (Msg e []))
       (de (co_kvs C) (case t of None \<Rightarrow> ''[]'' | Some s \<Rightarrow> s))"

definition test_case_row :: "codec \<Rightarrow> test_case \<Rightarrow> (app_error, test_case_row) result" where
  "test_case_row C m =
     and_then (kvs_text C (tc_params m)) (\<lambda>params.
     and_then (kvs_text C (tc_headers m)) (\<lambda>headers.
       Ok \<lparr>cw_id = co_uuid_text C (tc_id m), cw_request_id = co_uuid_text C (tc_request_id m),
           cw_name = tc_name m, cw_category = tc_category m,
           cw_method = method_as_str (tc_method m), cw_url_path = tc_url_path m,
           cw_params = Some params, cw_headers = Some headers, cw_body_type = tc_body_type m,
           cw_body_content = tc_body_content m,
           cw_last_run_status = test_case_status_as_str (tc_last_run_status m),
           cw_created_at = co_time_text C (tc_created_at m)\<rparr>))"

definition test_case_model :: "codec \<Rightarrow> test_case_row \<Rightarrow> (app_error, test_case) result" where
  "test_case_model C r =
     and_then (parse_uuid C (cw_id r)) (\<lambda>i.
     and_then (parse_uuid C (cw_request_id r)) (\<lambda>q.
     and_then (method_from_str (cw_method r)) (\<lambda>meth.
     and_then (kvs_of_text C (cw_params r)) (\<lambda>params.
     and_then (kvs_of_text C (cw_headers r)) (\<lambda>headers.
     and_then (parse_time C (cw_created_at r)) (\<lambda>created.
       Ok \<lparr>tc_id = i, tc_request_id = q, tc_name = cw_name r, tc_category = cw_category r,
           tc_method = meth, tc_url_path = cw_url_path r, tc_params = params,
           tc_headers = headers, tc_body_type = cw_body_type r,
           tc_body_content = cw_body_content r,
           tc_last_run_status =
             (case test_case_status_parse (cw_last_run_status r) of
                Some s \<Rightarrow> s | None \<Rightarrow> TC_Untested),
           tc_created_at = created\<rparr>))))))"

section \<open>Proto files and WebSocket messages\<close>

record proto_file_row =
  ow_id :: str
  ow_project_id :: str
  ow_name :: str
  ow_content :: str
  ow_created_at :: str
  ow_updated_at :: str

definition proto_file_row :: "codec \<Rightarrow> proto_file \<Rightarrow> proto_file_row" where
  "proto_file_row C m =
     \<lparr>ow_id = co_uuid_text C (pf_id m), ow_project_id = co_uuid_text C (pf_project_id m),
      ow_name = pf_name m, ow_content = pf_content m,
      ow_created_at = co_time_text C (pf_created_at m),
      ow_updated_at = co_time_text C (pf_updated_at m)\<rparr>"

definition proto_file_model :: "codec \<Rightarrow> proto_file_row \<Rightarrow> (app_error, proto_file) result" where
  "proto_file_model C r =
     and_then (parse_uuid C (ow_id r)) (\<lambda>i.
     and_then (parse_uuid C (ow_project_id r)) (\<lambda>p.
     and_then (parse_time C (ow_created_at r)) (\<lambda>created.
     and_then (parse_time C (ow_updated_at r)) (\<lambda>updated.
       Ok \<lparr>pf_id = i, pf_project_id = p, pf_name = ow_name r, pf_content = ow_content r,
           pf_created_at = created, pf_updated_at = updated\<rparr>))))"

record ws_message_record =
  wr_id :: uuid
  wr_message_type :: ws_message_type
  wr_payload :: str
  wr_created_at :: datetime

record ws_message_row =
  sw_id :: str
  sw_message_type :: str
  sw_payload :: str
  sw_created_at :: str

definition ws_message_model :: "codec \<Rightarrow> 'a ws_message_row_scheme \<Rightarrow> (app_error, ws_message_record) result" where
  "ws_message_model C r =
     and_then (parse_uuid C (sw_id r)) (\<lambda>i.
     and_then
       (if sw_message_type r = ''text'' then Ok WT_Text
        else if sw_message_type r = ''binary'' then Ok WT_Binary
        else if sw_message_type r = ''ping'' then Ok WT_Ping
        else Err (Validation (Msg ''invalid message type'' [sw_message_type r]))) (\<lambda>ty.
     and_then (parse_time C (sw_created_at r)) (\<lambda>created.
       Ok \<lparr>wr_id = i, wr_message_type = ty, wr_payload = sw_payload r,
           wr_created_at = created\<rparr>)))"

section \<open>What a row keeps\<close>

definition codec_lawful :: "codec \<Rightarrow> bool" where
  "codec_lawful C \<longleftrightarrow>
     (\<forall>u. co_uuid_parse C (co_uuid_text C u) = Ok u) \<and>
     (\<forall>t. co_time_parse C (co_time_text C t) = Ok t)"

definition text_ok :: "'a serde \<Rightarrow> 'a \<Rightarrow> bool" where
  "text_ok S x \<longleftrightarrow> (case ser S x of Inl _ \<Rightarrow> False | Inr t \<Rightarrow> de S t = Ok x)"

lemma text_ok_ser: "text_ok S x \<Longrightarrow> \<exists>t. ser S x = Ok t \<and> de S t = Ok x"
  by (auto simp: text_ok_def split: sum.splits)

lemma codec_lawful_simps [simp]:
  assumes "codec_lawful C"
  shows "parse_uuid C (co_uuid_text C u) = Ok u" "parse_time C (co_time_text C t) = Ok t"
    "transpose_map (parse_uuid C) (map_option (co_uuid_text C) mu) = Ok mu"
    "transpose_map (parse_time C) (map_option (co_time_text C) mt) = Ok mt"
  using assms
  by (cases mu; cases mt; simp add: codec_lawful_def parse_uuid_def parse_time_def)+

lemma uuid_text_inject: "codec_lawful C \<Longrightarrow> co_uuid_text C u = co_uuid_text C v \<longleftrightarrow> u = v"
  by (metis codec_lawful_simps(1) sum.inject(2))

lemma project_roundtrip:
  "codec_lawful C \<Longrightarrow> text_ok (co_strings C) (pr_variables m) \<Longrightarrow> project_model C (project_row C m) = Ok m"
  by (drule text_ok_ser) (auto simp: project_model_def project_row_def)

lemma folder_roundtrip: "codec_lawful C \<Longrightarrow> folder_model C (folder_row C m) = Ok m"
  by (simp add: folder_model_def folder_row_def)

lemma test_run_roundtrip: "codec_lawful C \<Longrightarrow> test_run_model C (test_run_row C m) = Ok m"
  by (simp add: test_run_model_def test_run_row_def)

lemma history_roundtrip: "codec_lawful C \<Longrightarrow> history_model C (history_row C m) = Ok m"
  by (simp add: history_model_def history_row_def option.map_comp comp_def option.map_ident)

lemma response_example_roundtrip:
  "codec_lawful C \<Longrightarrow> text_ok (co_headers C) (rx_headers m) \<Longrightarrow> text_ok (co_docs C) (rx_docs m)
     \<Longrightarrow> response_example_model C (response_example_row C m) = Ok m"
  by (drule text_ok_ser)+ (auto simp: response_example_model_def response_example_row_def)

lemma request_example_roundtrip:
  "codec_lawful C \<Longrightarrow> text_ok (co_request C) (qx_request m)
     \<Longrightarrow> and_then (request_example_row C m) (request_example_model C) = Ok m"
  by (drule text_ok_ser) (auto simp: request_example_model_def request_example_row_def)

lemma test_case_roundtrip:
  "codec_lawful C \<Longrightarrow> text_ok (co_kvs C) (tc_params m) \<Longrightarrow> text_ok (co_kvs C) (tc_headers m)
     \<Longrightarrow> and_then (test_case_row C m) (test_case_model C) = Ok m"
  by (drule text_ok_ser)+
     (auto simp: test_case_model_def test_case_row_def kvs_text_def kvs_of_text_def
        method_roundtrip test_case_status_roundtrip)

lemma proto_file_roundtrip: "codec_lawful C \<Longrightarrow> proto_file_model C (proto_file_row C m) = Ok m"
  by (simp add: proto_file_model_def proto_file_row_def)

text \<open>
  What the round trip of a request column needs of the crates, at the request itself: serializing
  it succeeds, the text parses as JSON, the secrets in it can be sealed, the sealed JSON survives
  printing and parsing, and the request can be read back from the printed JSON.
\<close>

definition request_lawful :: "codec \<Rightarrow> (nat \<Rightarrow> str) \<Rightarrow> request_spec \<Rightarrow> bool" where
  "request_lawful C nonces r \<longleftrightarrow>
     (case (co_key C, ser (co_request C) r) of
        (Inr k, Inr t) \<Rightarrow>
          (case de (co_json C) t of
             Inl _ \<Rightarrow> False
           | Inr v \<Rightarrow>
               all_seal C k nonces (json_secrets v)
               \<and> text_ok (co_json C) (fst (ok_or (v, 0) (walk_secrets C True nonces v 0)))
               \<and> text_ok (co_json C) v
               \<and> de (co_request C) (ok_or t (ser (co_json C) v)) = Ok r)
      | _ \<Rightarrow> False)"

lemma request_secrets_roundtrip:
  assumes "request_lawful C nonces r"
  shows "\<exists>t t'. ser (co_request C) r = Ok t \<and> de (co_request C) t' = Ok r
     \<and> decrypt_request_secrets C (encrypt_request_secrets C nonces t) = Ok t'"
proof -
  obtain k t v where k: "co_key C = Ok k" and t: "ser (co_request C) r = Ok t"
    and v: "de (co_json C) t = Ok v" and seal: "all_seal C k nonces (json_secrets v)"
    and p': "text_ok (co_json C) (fst (ok_or (v, 0) (walk_secrets C True nonces v 0)))"
    and p: "text_ok (co_json C) v" and rd: "de (co_request C) (ok_or t (ser (co_json C) v)) = Ok r"
    using assms by (auto simp: request_lawful_def split: sum.splits)
  obtain v' j where w: "walk_secrets C True nonces v 0 = Ok (v', j)"
    and w': "\<And>n l. \<exists>m. walk_secrets C False n v' l = Ok (v, m)"
    using back_atE[OF walk_back(1)[OF k seal]] by metis
  obtain u' where u': "ser (co_json C) v' = Ok u'" "de (co_json C) u' = Ok v'"
    using text_ok_ser[OF p'] by (auto simp: w)
  obtain u where u: "ser (co_json C) v = Ok u" using text_ok_ser[OF p] by auto
  obtain m where m: "walk_secrets C False (\<lambda>_. []) v' 0 = Ok (v, m)" using w' by blast
  have "encrypt_request_secrets C nonces t = u'"
    by (simp add: encrypt_request_secrets_def encrypt_request_json_def v w u')
  then have "decrypt_request_secrets C (encrypt_request_secrets C nonces t) = Ok u"
    by (simp add: decrypt_request_secrets_def u' m u)
  with t rd u show ?thesis by auto
qed

lemma status_roundtrip: "status_of_text (status_as_str s) = s"
  by (cases s) (simp_all add: status_of_text_def)

lemma endpoint_row_back:
  assumes "codec_lawful C" "request_lawful C nonces (ep_request m)"
  shows "endpoint_model C (endpoint_row C nonces m) = Ok m"
proof -
  obtain t t' where "ser (co_request C) (ep_request m) = Ok t" "de (co_request C) t' = Ok (ep_request m)"
    "decrypt_request_secrets C (encrypt_request_secrets C nonces t) = Ok t'"
    using request_secrets_roundtrip[OF assms(2)] by blast
  then show ?thesis
    using assms(1) by (simp add: endpoint_model_def endpoint_row_def method_roundtrip status_roundtrip)
qed

text \<open>
  The secrets of the stored request, in the order of the walk, are the encryptions of those of the
  request that was written, each under its own nonce.
\<close>

fun sealed_as :: "codec \<Rightarrow> master_key \<Rightarrow> (nat \<Rightarrow> str) \<Rightarrow> nat \<Rightarrow> str list \<Rightarrow> str list \<Rightarrow> bool" where
  "sealed_as C k nonces i [] [] = True"
| "sealed_as C k nonces i (s # ss) (c # cs) =
     (encrypt (co_aead C) (nonces i) k s = Ok c \<and> sealed_as C k nonces (Suc i) ss cs)"
| "sealed_as C k nonces i _ _ = False"

lemma sealed_as_append:
  "sealed_as C k nonces i as as' \<Longrightarrow> sealed_as C k nonces (i + length as) bs bs' \<Longrightarrow>
   sealed_as C k nonces i (as @ bs) (as' @ bs')"
  by (induction C k nonces i as as' rule: sealed_as.induct) simp_all

lemma walk_seals:
  assumes key: "co_key C = Ok k"
  shows "walk_secrets C True nonces v i = Ok (v', j) \<Longrightarrow>
      j = i + length (json_secrets v) \<and> sealed_as C k nonces i (json_secrets v) (json_secrets v')"
    and "walk_fields C True nonces kvs i = Ok (kvs', j) \<Longrightarrow>
      j = i + length (field_secrets kvs) \<and> sealed_as C k nonces i (field_secrets kvs) (field_secrets kvs')"
    and "walk_items C True nonces items i = Ok (items', j) \<Longrightarrow>
      j = i + length (item_secrets items) \<and> sealed_as C k nonces i (item_secrets items) (item_secrets items')"
proof (induction v and kvs and items arbitrary: i v' j and i kvs' j and i items' j
    rule: json_secrets_field_secrets_item_secrets.induct)
  case (1 kvs)
  then show ?case by (auto simp: and_then_eq_Inr)
next
  case (2 items)
  then show ?case by (auto simp: and_then_eq_Inr)
next
  case (5 key v kvs)
  obtain v1 l rest where one: "field_step C True nonces key v i = Ok (v1, l)"
    and more: "walk_fields C True nonces kvs l = Ok (rest, j)" and out: "kvs' = (key, v1) # rest"
    using 5(3) unfolding walk_fields_Cons by (auto simp: and_then_eq_Inr)
  let ?here = "\<lambda>v. if key = ''app_secret'' then (case v of JString s \<Rightarrow> [s] | _ \<Rightarrow> []) else json_secrets v"
  have "l = i + length (?here v) \<and> sealed_as C k nonces i (?here v) (?here v1)"
  proof (cases "key = ''app_secret''")
    case True
    then show ?thesis using one key
      by (cases v) (auto simp: field_step_def secret_step_def and_then_eq_Inr map_err_def split: sum.splits)
  next
    case False
    then show ?thesis using one 5(1) by (simp add: field_step_def)
  qed
  with 5(2)[OF more] out sealed_as_append show ?case by simp
next
  case (7 v vs)
  obtain v1 l rest where one: "walk_secrets C True nonces v i = Ok (v1, l)"
    and more: "walk_items C True nonces vs l = Ok (rest, j)" and out: "items' = v1 # rest"
    using 7(3) by (auto simp: and_then_eq_Inr)
  with 7(1)[OF one] 7(2)[OF more] sealed_as_append show ?case by simp
qed simp_all

lemma stored_secrets:
  assumes "request_lawful C nonces r"
  obtains k t v v' where "co_key C = Ok k" "ser (co_request C) r = Ok t" "de (co_json C) t = Ok v"
    "de (co_json C) (encrypt_request_secrets C nonces t) = Ok v'"
    "sealed_as C k nonces 0 (json_secrets v) (json_secrets v')"
proof -
  obtain k t v where k: "co_key C = Ok k" and t: "ser (co_request C) r = Ok t"
    and v: "de (co_json C) t = Ok v" and seal: "all_seal C k nonces (json_secrets v)"
    and p': "text_ok (co_json C) (fst (ok_or (v, 0) (walk_secrets C True nonces v 0)))"
    using assms by (auto simp: request_lawful_def split: sum.splits)
  obtain v' j where w: "walk_secrets C True nonces v 0 = Ok (v', j)"
    using back_atE[OF walk_back(1)[OF k seal]] by metis
  obtain u' where u': "ser (co_json C) v' = Ok u'" "de (co_json C) u' = Ok v'"
    using text_ok_ser[OF p'] by (auto simp: w)
  have "encrypt_request_secrets C nonces t = u'"
    by (simp add: encrypt_request_secrets_def encrypt_request_json_def v w u')
  then show ?thesis using that[OF k t v] u'(2) walk_seals(1)[OF k w] by simp
qed

text \<open>
  C23: An endpoint read back from its row is the endpoint that was written: every column round
  trips, and the request comes back with its application secrets in clear. The row itself does not
  hold them in clear: the string fields \<open>app_secret\<close> of the request in the row, at any depth of its
  objects and arrays, are one for one the encryptions of those of the request that was written,
  under the master key and each under the nonce drawn for it. (The hypothesis on the request: the JSON
  library reads what it printed and the cipher seals these secrets.)
\<close>

theorem endpoint_row_roundtrip:
  assumes "codec_lawful C" "request_lawful C nonces (ep_request m)"
  shows "endpoint_model C (endpoint_row C nonces m) = Ok m
    \<and> (\<exists>k t v v'. co_key C = Ok k \<and> ser (co_request C) (ep_request m) = Ok t \<and> de (co_json C) t = Ok v
         \<and> de (co_json C) (ew_request_json (endpoint_row C nonces m)) = Ok v'
         \<and> sealed_as C k nonces 0 (json_secrets v) (json_secrets v'))"
proof -
  from stored_secrets[OF assms(2)] obtain k t v v' where "co_key C = Ok k" "ser (co_request C) (ep_request m) = Ok t"
    "de (co_json C) t = Ok v" "de (co_json C) (encrypt_request_secrets C nonces t) = Ok v'"
    "sealed_as C k nonces 0 (json_secrets v) (json_secrets v')" by metis
  with endpoint_row_back[OF assms] show ?thesis by (simp add: endpoint_row_def)
qed

definition variables_lawful :: "codec \<Rightarrow> str \<Rightarrow> environment_variable list \<Rightarrow> bool" where
  "variables_lawful C nonce vars \<longleftrightarrow>
     (case (co_key C, ser (co_vars C) vars) of
        (Inr k, Inr t) \<Rightarrow>
          seals (co_aead C) k nonce t
          \<and> (case de (co_json C) t of
               Inr (JArray items) \<Rightarrow> map (de_value (co_var C)) items = map Inr vars
             | _ \<Rightarrow> False)
      | _ \<Rightarrow> False)"

lemma collect_map_Inr:
  "map f xs = map Inr ys \<Longrightarrow> collect_results (\<lambda>x. map_err g (f x)) xs = Ok ys"
  by (induction xs arbitrary: ys) (auto simp: Cons_eq_map_conv)

lemma variables_column:
  assumes "variables_lawful C nonce vars"
  shows "\<exists>v. decrypt_env_json C (encrypt_env_json C nonce vars) = Ok v
     \<and> variables_from_value C v = Ok vars"
proof -
  obtain k t items where h: "co_key C = Ok k" "ser (co_vars C) vars = Ok t"
    "seals (co_aead C) k nonce t" "de (co_json C) t = Ok (JArray items)"
    "map (de_value (co_var C)) items = map Inr vars"
    using assms by (auto simp: variables_lawful_def split: sum.splits json.splits)
  obtain c where "encrypt (co_aead C) nonce k t = Ok c" "decrypt (co_aead C) k c = Ok t"
    using decrypt_encrypt[OF h(3)] by blast
  then show ?thesis
    by (simp add: encrypt_env_json_def encrypt_text_def decrypt_env_json_def h variables_from_value_def
        collect_map_Inr[OF h(5)])
qed

lemma environment_row_back:
  assumes "codec_lawful C" "variables_lawful C nonce (en_variables m)"
  shows "environment_model C (environment_row C nonce m) = Ok m"
proof -
  obtain v where "decrypt_env_json C (encrypt_env_json C nonce (en_variables m)) = Ok v"
    "variables_from_value C v = Ok (en_variables m)"
    using variables_column[OF assms(2)] by blast
  then show ?thesis using assms(1) by (simp add: environment_model_def environment_row_def)
qed

lemma environment_row_roundtrip_laws:
  assumes "codec_lawful C" "variables_lawful C nonce (en_variables m)"
  shows "environment_model C (environment_row C nonce m) = Ok m"
    and "co_key C = Ok k \<Longrightarrow> decrypt (co_aead C) k (nw_variables_json r) = Err e \<Longrightarrow>
       environment_model C r = Err (Decryption (secret_error_text DecryptionFailed))"
proof -
  show "environment_model C (environment_row C nonce m) = Ok m"
    by (rule environment_row_back[OF assms])
next
  assume k: "co_key C = Ok k" and d: "decrypt (co_aead C) k (nw_variables_json r) = Err e"
  with decrypt_sealed_failure[OF d]
  show "environment_model C r = Err (Decryption (secret_error_text DecryptionFailed))"
    by (simp add: environment_model_def decrypt_env_json_def)
qed

text \<open>
  Environment variables are never silently lost. A column in the encrypted format that the
  current master key does not open is an error, whichever row it is in; and a column written under
  the current key reads back as the variables that were written.
\<close>

theorem environment_row_roundtrip:
  assumes "codec_lawful C" "variables_lawful C nonce (en_variables m)"
  shows "(environment_model C (environment_row C nonce m) = Ok m)
    \<and> (co_key C = Ok k \<longrightarrow> decrypt (co_aead C) k (nw_variables_json r) = Err e \<longrightarrow>
       environment_model C r = Err (Decryption (secret_error_text DecryptionFailed)))"
  by (intro conjI impI) (rule environment_row_roundtrip_laws[OF assms]; assumption)+

lemma uint_min_100: "uint (min 100 (p :: u8)) = min 100 (uint p)"
  by (simp add: min_def word_le_def)

text \<open>
  A mock rule read back from its row is the rule that was written, except that a fault rate
  above 100 percent comes back as 100: statuses, delays beyond \<open>i64\<close> and the enabled flag survive
  the \<open>i64\<close> columns. And whatever a row holds, a rule read from it has a fault rate of at most 100.
\<close>

theorem mock_rule_row_roundtrip:
  assumes "codec_lawful C" "text_ok (co_items C) (mr_match_query m)"
    "text_ok (co_items C) (mr_match_headers m)" "text_ok (co_headers C) (mr_response_headers m)"
  shows "mock_rule_model C (mock_rule_row C m)
      = Ok (m\<lparr>mr_fault_rate_pct := min 100 (mr_fault_rate_pct m)\<rparr>)"
    and "mock_rule_model C r = Ok rule \<Longrightarrow> mr_fault_rate_pct rule \<le> 100"
proof -
  have "clamp 0 100 (uint p) = uint (min 100 (p :: u8))" for p
    by (auto simp: uint_min_100 clamp_def min_def word_le_def)
  then show "mock_rule_model C (mock_rule_row C m)
      = Ok (m\<lparr>mr_fault_rate_pct := min 100 (mr_fault_rate_pct m)\<rparr>)"
    using text_ok_ser[OF assms(2)] text_ok_ser[OF assms(3)] text_ok_ser[OF assms(4)] assms(1)
    by (auto simp: mock_rule_model_def mock_rule_row_def method_roundtrip)
next
  have "uint (i64_as_u8 (clamp 0 100 n)) \<le> 100" for n
    by (simp add: i64_as_u8_def clamp_def uint_word_of_int)
  then show "mr_fault_rate_pct rule \<le> 100" if "mock_rule_model C r = Ok rule"
    using that by (auto simp: mock_rule_model_def and_then_eq_Inr word_le_def)
qed

section \<open>A concrete codec\<close>

definition demo_time_text :: "datetime \<Rightarrow> str" where
  "demo_time_text t = show_nat (if t < 0 then 2 * nat (- t) + 1 else 2 * nat t)"

definition demo_time_parse :: "str \<Rightarrow> (str, datetime) result" where
  "demo_time_parse s =
     (case parse_nat s of
        None \<Rightarrow> Err ''not a time''
      | Some n \<Rightarrow> Ok (if odd n then - int (n div 2) else int (n div 2)))"

definition demo_uuid_parse :: "str \<Rightarrow> (str, uuid) result" where
  "demo_uuid_parse s = (case parse_nat s of None \<Rightarrow> Err ''not an id'' | Some n \<Rightarrow> Ok (of_nat n))"

text \<open>Serializers that know one document each.\<close>

definition demo_request_json :: json where
  "demo_request_json = JObject [(''auth'', JObject [(''app_secret'', JString ''hunter2'')])]"

definition demo_sealed_json :: json where
  "demo_sealed_json = JObject [(''auth'', JObject [(''app_secret'',
     JString (demo_nonce @ '':'' @ demo_key @ ''hunter2''))])]"

definition const_serde :: "str \<Rightarrow> 'a \<Rightarrow> 'a serde" where
  "const_serde t x =
     Serde (\<lambda>_. Ok t) (\<lambda>s. if s = t then Ok x else Err ''no'') (\<lambda>_. Ok x)"

definition demo_json_serde :: "json serde" where
  "demo_json_serde =
     Serde (\<lambda>v. if v = demo_request_json then Ok ''R'' else if v = demo_sealed_json then Ok ''E'' else Ok ''[]'')
       (\<lambda>s. if s = ''R'' then Ok demo_request_json else if s = ''E'' then Ok demo_sealed_json
            else if s = ''[]'' then Ok (JArray []) else Err ''no'') Ok"

definition demo_variable :: environment_variable where
  "demo_variable = \<lparr>ev_key = ''k'', ev_remote_value = ''v'', ev_local_value = [], ev_enabled = True,
     ev_description = None\<rparr>"

definition demo_codec :: codec where
  "demo_codec =
     \<lparr>co_uuid_text = \<lambda>u. show_nat (unat u), co_uuid_parse = demo_uuid_parse,
      co_time_text = demo_time_text, co_time_parse = demo_time_parse,
      co_json = demo_json_serde, co_request = const_serde ''R'' default_request,
      co_var = const_serde ''V'' demo_variable, co_vars = const_serde ''[]'' [],
      co_params = const_serde ''[]'' [], co_strings = const_serde ''{}'' Map.empty,
      co_items = const_serde ''[]'' [], co_headers = const_serde ''{}'' [],
      co_docs = const_serde ''{}'' [], co_kvs = const_serde ''[]'' [],
      co_key = Inr demo_key, co_aead = demo_aead\<rparr>"

lemma demo_codec_lawful [simp]: "codec_lawful demo_codec"
  by (auto simp: codec_lawful_def demo_codec_def demo_uuid_parse_def demo_time_parse_def
      demo_time_text_def)

definition demo_endpoint :: endpoint where
  "demo_endpoint = \<lparr>ep_id = 1, ep_project_id = 2, ep_folder_id = None, ep_name = ''e'', ep_method = POST,
     ep_path = ''/'', ep_description = [], ep_status = Released, ep_sort_order = 0,
     ep_request = default_request, ep_created_at = 5, ep_updated_at = 6\<rparr>"

lemma demo_request_lawful: "request_lawful demo_codec (\<lambda>_. demo_nonce) default_request"
proof -
  have w: "walk_secrets demo_codec True (\<lambda>_. demo_nonce) demo_request_json 0 = Ok (demo_sealed_json, 1)"
    by (simp add: demo_request_json_def demo_sealed_json_def demo_codec_def secret_step_def
        encrypt_def demo_aead_def)
  have s: "seals demo_aead demo_key demo_nonce ''hunter2''" by code_simp
  have d: "demo_request_json \<noteq> demo_sealed_json"
    by (simp add: demo_request_json_def demo_sealed_json_def demo_nonce_def)
  have j: "json_secrets demo_request_json = [''hunter2'']" by (simp add: demo_request_json_def)
  have "de (co_json demo_codec) ''R'' = Ok demo_request_json" "co_key demo_codec = Ok demo_key"
    "ser (co_request demo_codec) default_request = Ok ''R''" "co_aead demo_codec = demo_aead"
    "de (co_request demo_codec) ''R'' = Ok default_request"
    "ser (co_json demo_codec) demo_request_json = Ok ''R''"
    "text_ok (co_json demo_codec) demo_request_json" "text_ok (co_json demo_codec) demo_sealed_json"
    using d by (auto simp: demo_codec_def demo_json_serde_def const_serde_def text_ok_def)
  then show ?thesis
    by (simp add: request_lawful_def w j s)
qed

lemma endpoint_row_roundtrip_witness:
  "endpoint_model demo_codec (endpoint_row demo_codec (\<lambda>_. demo_nonce) demo_endpoint) = Ok demo_endpoint
   \<and> (\<exists>v' c. de (co_json demo_codec) (ew_request_json (endpoint_row demo_codec (\<lambda>_. demo_nonce) demo_endpoint)) = Ok v'
        \<and> json_secrets v' = [c] \<and> encrypt demo_aead demo_nonce demo_key ''hunter2'' = Ok c)"
proof -
  have lawful: "request_lawful demo_codec (\<lambda>_. demo_nonce) (ep_request demo_endpoint)"
    by (simp add: demo_endpoint_def demo_request_lawful)
  have here: "co_key demo_codec = Ok demo_key" "co_aead demo_codec = demo_aead"
    "ser (co_request demo_codec) (ep_request demo_endpoint) = Ok ''R''" "de (co_json demo_codec) ''R'' = Ok demo_request_json"
    by (auto simp: demo_codec_def demo_json_serde_def const_serde_def)
  have j: "json_secrets demo_request_json = [''hunter2'']" by (simp add: demo_request_json_def)
  from endpoint_row_roundtrip[OF demo_codec_lawful lawful] obtain v' where
    v': "de (co_json demo_codec) (ew_request_json (endpoint_row demo_codec (\<lambda>_. demo_nonce) demo_endpoint)) = Ok v'"
    and s: "sealed_as demo_codec demo_key (\<lambda>_. demo_nonce) 0 [''hunter2''] (json_secrets v')"
    using here j by fastforce
  obtain c where "json_secrets v' = [c]" "encrypt demo_aead demo_nonce demo_key ''hunter2'' = Ok c"
    using s here(2) by (cases "json_secrets v'"; cases "tl (json_secrets v')") auto
  with v' endpoint_row_roundtrip[OF demo_codec_lawful lawful] show ?thesis by blast
qed

definition demo_environment :: environment where
  "demo_environment = \<lparr>en_id = 3, en_project_id = 2, en_name = ''dev'', en_base_url = ''http'',
     en_variables = [], en_created_at = 5, en_updated_at = 6\<rparr>"

lemma demo_variables_lawful: "variables_lawful demo_codec demo_nonce []"
proof -
  have "seals demo_aead demo_key demo_nonce ''[]''" by code_simp
  then show ?thesis
    by (simp add: variables_lawful_def demo_codec_def const_serde_def demo_json_serde_def)
qed

lemma environment_row_roundtrip_witness:
  "environment_model demo_codec (environment_row demo_codec demo_nonce demo_environment) = Ok demo_environment"
  by (rule environment_row_roundtrip[THEN conjunct1]) (simp_all add: demo_environment_def demo_variables_lawful)

definition demo_mock_rule :: mock_rule where
  "demo_mock_rule = \<lparr>mr_id = 4, mr_project_id = 2, mr_endpoint_id = Some 1, mr_name = ''r'',
     mr_method = GET, mr_path = ''/a'', mr_match_query = [], mr_match_headers = [],
     mr_response_status = 200, mr_response_headers = [], mr_response_body_template = [],
     mr_delay_ms = 2 ^ 63 + 1, mr_fault_rate_pct = 250, mr_fault_status = 500, mr_enabled = True,
     mr_priority = 0, mr_created_at = 5, mr_updated_at = 6\<rparr>"

lemma mock_rule_row_roundtrip_witness:
  "mock_rule_model demo_codec (mock_rule_row demo_codec demo_mock_rule)
     = Ok (demo_mock_rule\<lparr>mr_fault_rate_pct := 100\<rparr>)"
proof -
  have "min 100 (mr_fault_rate_pct demo_mock_rule) = 100" by code_simp
  moreover have "text_ok (co_items demo_codec) (mr_match_query demo_mock_rule)"
    "text_ok (co_items demo_codec) (mr_match_headers demo_mock_rule)"
    "text_ok (co_headers demo_codec) (mr_response_headers demo_mock_rule)"
    by (simp_all add: text_ok_def demo_codec_def const_serde_def demo_mock_rule_def)
  ultimately show ?thesis
    using mock_rule_row_roundtrip(1)[of demo_codec demo_mock_rule] by simp
qed

end
