(* ===== verification/Database.thy ===== *)
theory Database
  imports RowsMore "HOL-Library.Char_ord" "HOL-Library.List_Lexorder" "HOL-Library.Product_Lexorder"
begin

text \<open>
  The schema of \<open>crates/fox-storage/migrations\<close>, after the last migration, and what the SQL
  statements of the repositories do to it. A table is its rows in \<open>rowid\<close> order. A statement that
  leaves a dangling reference fails and changes nothing, as SQLite's immediate foreign keys do
  (\<open>connect\<close> turns them on); an insertion of a present primary key fails unless it is an upsert;
  a deletion cascades or clears references as the schema says. Failures of the disk are outside
  the model. Rows with equal sort keys are listed in table order.
\<close>

section \<open>Tables\<close>

record project_record = project_row + pw_sort_order :: int

record ws_record = ws_message_row + sw_target :: str

record db =
  t_projects :: "project_record list"
  t_folders :: "folder_row list"
  t_endpoints :: "endpoint_row list"
  t_environments :: "environment_row list"
  t_mock_rules :: "mock_rule_row list"
  t_response_examples :: "response_example_row list"
  t_request_examples :: "request_example_row list"
  t_test_cases :: "test_case_row list"
  t_test_runs :: "test_run_row list"
  t_histories :: "history_row list"
  t_proto_files :: "proto_file_row list"
  t_settings :: "(str \<times> str) list"
  t_ws_messages :: "ws_record list"

definition empty_db :: db where
  "empty_db = \<lparr>t_projects = [], t_folders = [], t_endpoints = [], t_environments = [],
     t_mock_rules = [], t_response_examples = [], t_request_examples = [], t_test_cases = [],
     t_test_runs = [], t_histories = [], t_proto_files = [], t_settings = [], t_ws_messages = []\<rparr>"

section \<open>Keys and references\<close>

definition opt_ref :: "str option \<Rightarrow> str set \<Rightarrow> bool" where
  "opt_ref r ids \<longleftrightarrow> (case r of None \<Rightarrow> True | Some i \<Rightarrow> i \<in> ids)"

abbreviation project_ids :: "db \<Rightarrow> str set" where "project_ids d \<equiv> pw_id ` set (t_projects d)"
abbreviation folder_ids :: "db \<Rightarrow> str set" where "folder_ids d \<equiv> fw_id ` set (t_folders d)"
abbreviation endpoint_ids :: "db \<Rightarrow> str set" where "endpoint_ids d \<equiv> ew_id ` set (t_endpoints d)"
abbreviation environment_ids :: "db \<Rightarrow> str set" where
  "environment_ids d \<equiv> nw_id ` set (t_environments d)"

definition fk_folders :: "db \<Rightarrow> bool" where
  "fk_folders d \<longleftrightarrow> (\<forall>r \<in> set (t_folders d).
     fw_project_id r \<in> project_ids d \<and> opt_ref (fw_parent_id r) (folder_ids d))"

definition fk_endpoints :: "db \<Rightarrow> bool" where
  "fk_endpoints d \<longleftrightarrow> (\<forall>r \<in> set (t_endpoints d).
     ew_project_id r \<in> project_ids d \<and> opt_ref (ew_folder_id r) (folder_ids d))"

definition fk_environments :: "db \<Rightarrow> bool" where
  "fk_environments d \<longleftrightarrow> (\<forall>r \<in> set (t_environments d). nw_project_id r \<in> project_ids d)"

definition fk_mock_rules :: "db \<Rightarrow> bool" where
  "fk_mock_rules d \<longleftrightarrow> (\<forall>r \<in> set (t_mock_rules d).
     mw_project_id r \<in> project_ids d \<and> opt_ref (mw_endpoint_id r) (endpoint_ids d))"

definition fk_children :: "db \<Rightarrow> bool" where
  "fk_children d \<longleftrightarrow>
     (\<forall>r \<in> set (t_response_examples d). xw_endpoint_id r \<in> endpoint_ids d)
     \<and> (\<forall>r \<in> set (t_request_examples d). qw_endpoint_id r \<in> endpoint_ids d)
     \<and> (\<forall>r \<in> set (t_test_cases d). cw_request_id r \<in> endpoint_ids d)"

definition fk_runs :: "db \<Rightarrow> bool" where
  "fk_runs d \<longleftrightarrow> (\<forall>r \<in> set (t_test_runs d).
     tw_project_id r \<in> project_ids d \<and> opt_ref (tw_environment_id r) (environment_ids d))"

definition fk_histories :: "db \<Rightarrow> bool" where
  "fk_histories d \<longleftrightarrow> (\<forall>r \<in> set (t_histories d).
     hw_project_id r \<in> project_ids d \<and> opt_ref (hw_endpoint_id r) (endpoint_ids d))"

definition fk_proto_files :: "db \<Rightarrow> bool" where
  "fk_proto_files d \<longleftrightarrow> (\<forall>r \<in> set (t_proto_files d). ow_project_id r \<in> project_ids d)"

definition fk_ok :: "db \<Rightarrow> bool" where
  "fk_ok d \<longleftrightarrow> fk_folders d \<and> fk_endpoints d \<and> fk_environments d \<and> fk_mock_rules d \<and> fk_children d
     \<and> fk_runs d \<and> fk_histories d \<and> fk_proto_files d"

lemmas fk_defs = fk_ok_def fk_folders_def fk_endpoints_def fk_environments_def fk_mock_rules_def
  fk_children_def fk_runs_def fk_histories_def fk_proto_files_def

definition keys_ok :: "db \<Rightarrow> bool" where
  "keys_ok d \<longleftrightarrow>
     distinct (map pw_id (t_projects d)) \<and> distinct (map fw_id (t_folders d))
     \<and> distinct (map ew_id (t_endpoints d)) \<and> distinct (map nw_id (t_environments d))
     \<and> distinct (map mw_id (t_mock_rules d)) \<and> distinct (map xw_id (t_response_examples d))
     \<and> distinct (map qw_id (t_request_examples d)) \<and> distinct (map cw_id (t_test_cases d))
     \<and> distinct (map tw_id (t_test_runs d)) \<and> distinct (map hw_id (t_histories d))
     \<and> distinct (map ow_id (t_proto_files d)) \<and> distinct (map fst (t_settings d))
     \<and> distinct (map sw_id (t_ws_messages d))"

definition db_inv :: "db \<Rightarrow> bool" where
  "db_inv d \<longleftrightarrow> keys_ok d \<and> fk_ok d"

lemma empty_db_inv [simp]: "db_inv empty_db"
  by (simp add: db_inv_def keys_ok_def fk_defs empty_db_def)

section \<open>Statements\<close>

definition fk_failed :: app_error where
  "fk_failed = Database (Msg ''FOREIGN KEY constraint failed'' [])"

definition unique_failed :: app_error where
  "unique_failed = Database (Msg ''UNIQUE constraint failed'' [])"

text \<open>
  The end of a statement. SQLite enforces the declared keys itself (the program opens its connections
  with \<open>foreign_keys(true)\<close>): a statement that would leave a reference without its row, or repeat a
  primary key, is an error and changes nothing. \<open>checked\<close> and \<open>insert_row\<close> are this documented
  behaviour; the repositories rely on it and have no checks of their own, so their errors come from
  here. Which rows a statement writes, and what a deletion takes with it, is the code and the schema.
\<close>

definition checked :: "db \<Rightarrow> (app_error, db) result" where
  "checked d = (if fk_ok d then Ok d else Err fk_failed)"

definition insert_row :: "('r \<Rightarrow> str) \<Rightarrow> 'r \<Rightarrow> 'r list \<Rightarrow> (app_error, 'r list) result" where
  "insert_row key r rows = (if key r \<in> key ` set rows then Err unique_failed else Ok (rows @ [r]))"

fun insert_rows :: "('r \<Rightarrow> str) \<Rightarrow> 'r list \<Rightarrow> 'r list \<Rightarrow> (app_error, 'r list) result" where
  "insert_rows key [] rows = Ok rows"
| "insert_rows key (r # rs) rows = and_then (insert_row key r rows) (insert_rows key rs)"

text \<open>\<open>ON CONFLICT(id) DO UPDATE\<close>: \<open>merge old new\<close> is the row after the update.\<close>

definition upsert :: "('r \<Rightarrow> str) \<Rightarrow> ('r \<Rightarrow> 'r \<Rightarrow> 'r) \<Rightarrow> 'r \<Rightarrow> 'r list \<Rightarrow> 'r list" where
  "upsert key merge r rows =
     (if key r \<in> key ` set rows then map (\<lambda>old. if key old = key r then merge old r else old) rows
      else rows @ [r])"

definition upsert_rows :: "('r \<Rightarrow> str) \<Rightarrow> ('r \<Rightarrow> 'r \<Rightarrow> 'r) \<Rightarrow> 'r list \<Rightarrow> 'r list \<Rightarrow> 'r list" where
  "upsert_rows key merge rs rows = fold (upsert key merge) rs rows"

text \<open>\<open>UPDATE ... WHERE id = ?\<close>\<close>

definition update_where :: "('r \<Rightarrow> bool) \<Rightarrow> ('r \<Rightarrow> 'r) \<Rightarrow> 'r list \<Rightarrow> 'r list" where
  "update_where p f rows = map (\<lambda>r. if p r then f r else r) rows"

definition rows_affected :: "('r \<Rightarrow> bool) \<Rightarrow> 'r list \<Rightarrow> nat" where
  "rows_affected p rows = length (filter p rows)"

definition fetch_optional :: "('r \<Rightarrow> bool) \<Rightarrow> 'r list \<Rightarrow> 'r option" where
  "fetch_optional p rows = find p rows"

definition order_asc :: "('r \<Rightarrow> 'k::linorder) \<Rightarrow> 'r list \<Rightarrow> 'r list" where
  "order_asc f rows = sort_key f rows"

definition order_desc :: "('r \<Rightarrow> 'k::linorder) \<Rightarrow> 'r list \<Rightarrow> 'r list" where
  "order_desc f rows = rev (sort_key f (rev rows))"

definition limit_rows :: "int \<Rightarrow> 'r list \<Rightarrow> 'r list" where
  "limit_rows n rows = (if n < 0 then rows else take (nat n) rows)"

fun chunks :: "nat \<Rightarrow> 'a list \<Rightarrow> 'a list list" where
  "chunks n xs = (if n = 0 \<or> xs = [] then [] else take n xs # chunks n (drop n xs))"

declare chunks.simps [simp del]

fun each_stmt :: "('a \<Rightarrow> db \<Rightarrow> (app_error, db) result) \<Rightarrow> 'a list \<Rightarrow> db \<Rightarrow> (app_error, db) result" where
  "each_stmt f [] d = Ok d"
| "each_stmt f (x # xs) d = and_then (f x d) (each_stmt f xs)"

section \<open>Deletions\<close>

definition clear_ref :: "str set \<Rightarrow> str option \<Rightarrow> str option" where
  "clear_ref gone r = (case r of None \<Rightarrow> None | Some i \<Rightarrow> if i \<in> gone then None else Some i)"

definition delete_endpoints_where :: "(endpoint_row \<Rightarrow> bool) \<Rightarrow> db \<Rightarrow> db" where
  "delete_endpoints_where p d =
     (let gone = ew_id ` set (filter p (t_endpoints d)) in
      d\<lparr>t_endpoints := filter (\<lambda>r. \<not> p r) (t_endpoints d),
        t_response_examples := filter (\<lambda>r. xw_endpoint_id r \<notin> gone) (t_response_examples d),
        t_request_examples := filter (\<lambda>r. qw_endpoint_id r \<notin> gone) (t_request_examples d),
        t_test_cases := filter (\<lambda>r. cw_request_id r \<notin> gone) (t_test_cases d),
        t_mock_rules := map (\<lambda>r. r\<lparr>mw_endpoint_id := clear_ref gone (mw_endpoint_id r)\<rparr>) (t_mock_rules d),
        t_histories := map (\<lambda>r. r\<lparr>hw_endpoint_id := clear_ref gone (hw_endpoint_id r)\<rparr>) (t_histories d)\<rparr>)"

definition delete_folders_where :: "(folder_row \<Rightarrow> bool) \<Rightarrow> db \<Rightarrow> db" where
  "delete_folders_where p d =
     (let gone = fw_id ` set (filter p (t_folders d)) in
      d\<lparr>t_folders := map (\<lambda>r. r\<lparr>fw_parent_id := clear_ref gone (fw_parent_id r)\<rparr>)
                       (filter (\<lambda>r. \<not> p r) (t_folders d)),
        t_endpoints := map (\<lambda>r. r\<lparr>ew_folder_id := clear_ref gone (ew_folder_id r)\<rparr>) (t_endpoints d)\<rparr>)"

definition delete_environments_where :: "(environment_row \<Rightarrow> bool) \<Rightarrow> db \<Rightarrow> db" where
  "delete_environments_where p d =
     (let gone = nw_id ` set (filter p (t_environments d)) in
      d\<lparr>t_environments := filter (\<lambda>r. \<not> p r) (t_environments d),
        t_test_runs := map (\<lambda>r. r\<lparr>tw_environment_id := clear_ref gone (tw_environment_id r)\<rparr>) (t_test_runs d)\<rparr>)"

definition delete_projects_where :: "(project_record \<Rightarrow> bool) \<Rightarrow> db \<Rightarrow> db" where
  "delete_projects_where p d =
     (let gone = pw_id ` set (filter p (t_projects d));
          d1 = delete_endpoints_where (\<lambda>r. ew_project_id r \<in> gone) d;
          d2 = delete_folders_where (\<lambda>r. fw_project_id r \<in> gone) d1;
          d3 = delete_environments_where (\<lambda>r. nw_project_id r \<in> gone) d2
      in d3\<lparr>t_projects := filter (\<lambda>r. \<not> p r) (t_projects d3),
            t_mock_rules := filter (\<lambda>r. mw_project_id r \<notin> gone) (t_mock_rules d3),
            t_test_runs := filter (\<lambda>r. tw_project_id r \<notin> gone) (t_test_runs d3),
            t_histories := filter (\<lambda>r. hw_project_id r \<notin> gone) (t_histories d3),
            t_proto_files := filter (\<lambda>r. ow_project_id r \<notin> gone) (t_proto_files d3)\<rparr>)"

section \<open>Lemmas\<close>

named_theorems row_rules "keys and membership after a statement on one table"

lemma opt_ref_clear: "opt_ref r ids \<Longrightarrow> opt_ref (clear_ref gone r) (ids - gone)"
  by (auto simp: opt_ref_def clear_ref_def split: option.splits)

lemma opt_ref_mono: "opt_ref r ids \<Longrightarrow> ids \<subseteq> ids' \<Longrightarrow> opt_ref r ids'"
  by (auto simp: opt_ref_def split: option.splits)

lemma opt_ref_simps [simp]: "opt_ref None ids" "opt_ref (Some i) ids \<longleftrightarrow> i \<in> ids"
  by (simp_all add: opt_ref_def)

definition keeps_key :: "('r \<Rightarrow> str) \<Rightarrow> ('r \<Rightarrow> 'r \<Rightarrow> 'r) \<Rightarrow> bool" where
  "keeps_key key merge \<longleftrightarrow> (\<forall>a b. key a = key b \<longrightarrow> key (merge a b) = key b)"

lemma upsert_keys [row_rules]:
  "keeps_key key merge \<Longrightarrow> map key (upsert key merge r rows) =
    (if key r \<in> key ` set rows then map key rows else map key rows @ [key r])"
  by (auto simp: upsert_def keeps_key_def)

lemma upsert_ids [row_rules]:
  assumes "keeps_key key merge"
  shows "key ` set (upsert key merge r rows) = insert (key r) (key ` set rows)"
proof -
  have "key ` set (upsert key merge r rows) = set (map key (upsert key merge r rows))" by simp
  then show ?thesis by (simp only: upsert_keys[OF assms]) auto
qed

lemma upsert_distinct [row_rules]:
  "keeps_key key merge \<Longrightarrow> distinct (map key rows) \<Longrightarrow> distinct (map key (upsert key merge r rows))"
  by (simp add: upsert_keys)

lemma upsert_rows_distinct [row_rules]:
  "keeps_key key merge \<Longrightarrow> distinct (map key rows) \<Longrightarrow> distinct (map key (upsert_rows key merge rs rows))"
  unfolding upsert_rows_def by (induction rs arbitrary: rows) (auto intro: upsert_distinct)

lemma upsert_rows_ids [row_rules]:
  "keeps_key key merge \<Longrightarrow> key ` set (upsert_rows key merge rs rows) = key ` set rs \<union> key ` set rows"
  unfolding upsert_rows_def by (induction rs arbitrary: rows) (auto simp: upsert_ids)

lemma insert_row_distinct:
  "insert_row key r rows = Ok rows' \<Longrightarrow> distinct (map key rows) \<Longrightarrow>
     rows' = rows @ [r] \<and> distinct (map key rows')"
  by (auto simp: insert_row_def split: if_splits)

lemma insert_rows_distinct:
  "insert_rows key rs rows = Ok rows' \<Longrightarrow> distinct (map key rows) \<Longrightarrow>
     rows' = rows @ rs \<and> distinct (map key rows')"
  by (induction rs arbitrary: rows) (fastforce simp: and_then_eq_Inr insert_row_def split: if_splits)+

lemma update_where_keys [row_rules]:
  "(\<And>r. key (f r) = key r) \<Longrightarrow> map key (update_where p f rows) = map key rows"
  by (simp add: update_where_def)

lemma update_where_ids [row_rules]:
  "(\<And>r. key (f r) = key r) \<Longrightarrow> key ` set (update_where p f rows) = key ` set rows"
  by (metis update_where_keys list.set_map)

lemma distinct_map_filter: "distinct (map key rows) \<Longrightarrow> distinct (map key (filter p rows))"
  by (induction rows) auto

lemma checked_Ok: "checked d = Ok d' \<longleftrightarrow> d' = d \<and> fk_ok d"
  by (auto simp: checked_def)

lemma set_order [simp]:
  "set (order_asc f rows) = set rows" "set (order_desc f rows) = set rows"
  by (simp_all add: order_asc_def order_desc_def)

lemma length_order [simp]:
  "length (order_asc f rows) = length rows" "length (order_desc f rows) = length rows"
  by (simp_all add: order_asc_def order_desc_def)

lemma concat_chunks: "0 < n \<Longrightarrow> concat (chunks n xs) = xs"
proof (induction n xs rule: chunks.induct)
  case (1 n xs)
  then show ?case by (subst chunks.simps) auto
qed

lemma each_stmt_append:
  "each_stmt f (xs @ ys) d = and_then (each_stmt f xs d) (each_stmt f ys)"
  by (induction xs arbitrary: d) (auto simp: and_then_def split: sum.splits)

lemma each_stmt_inv:
  assumes "\<And>x d d'. P d \<Longrightarrow> f x d = Ok d' \<Longrightarrow> P d'"
  shows "P d \<Longrightarrow> each_stmt f xs d = Ok d' \<Longrightarrow> P d'"
  by (induction xs arbitrary: d) (auto simp: and_then_eq_Inr intro: assms)

section \<open>Deletions keep the invariant\<close>

lemma clear_ref_ok [intro]:
  "opt_ref r (key ` set rows) \<Longrightarrow>
     opt_ref (clear_ref (key ` set (filter p rows)) r) (key ` set (filter (\<lambda>x. \<not> p x) rows))"
  by (auto simp: opt_ref_def clear_ref_def split: option.splits)

lemma ref_left:
  "i \<in> key ` set rows \<Longrightarrow> i \<notin> key ` set (filter p rows) \<Longrightarrow> i \<in> key ` set (filter (\<lambda>x. \<not> p x) rows)"
  by auto

lemma delete_endpoints_inv: "db_inv d \<Longrightarrow> db_inv (delete_endpoints_where p d)"
  unfolding db_inv_def
proof (elim conjE, intro conjI)
  assume k: "keys_ok d"
  then show "keys_ok (delete_endpoints_where p d)"
    by (auto simp: keys_ok_def delete_endpoints_where_def Let_def comp_def distinct_map_filter)
  assume f: "fk_ok d"
  then show "fk_ok (delete_endpoints_where p d)"
    using clear_ref_ok[of _ ew_id "t_endpoints d" p] ref_left[of _ ew_id "t_endpoints d" p]
    by (simp add: fk_defs delete_endpoints_where_def Let_def)
qed

lemma delete_folders_inv: "db_inv d \<Longrightarrow> db_inv (delete_folders_where p d)"
  unfolding db_inv_def
proof (elim conjE, intro conjI)
  assume k: "keys_ok d"
  then show "keys_ok (delete_folders_where p d)"
    by (auto simp: keys_ok_def delete_folders_where_def Let_def comp_def distinct_map_filter)
  assume f: "fk_ok d"
  from f show "fk_ok (delete_folders_where p d)"
    using clear_ref_ok[of _ fw_id "t_folders d" p]
    by (simp add: fk_defs delete_folders_where_def Let_def image_image)
qed

lemma delete_environments_inv: "db_inv d \<Longrightarrow> db_inv (delete_environments_where p d)"
  unfolding db_inv_def
proof (elim conjE, intro conjI)
  assume k: "keys_ok d"
  then show "keys_ok (delete_environments_where p d)"
    by (auto simp: keys_ok_def delete_environments_where_def Let_def comp_def distinct_map_filter)
  assume f: "fk_ok d"
  then show "fk_ok (delete_environments_where p d)"
    using clear_ref_ok[of _ nw_id "t_environments d" p]
    by (simp add: fk_defs delete_environments_where_def Let_def)
qed

lemma deleted_rows:
  "r \<in> set (t_endpoints (delete_endpoints_where p d)) \<Longrightarrow> \<not> p r"
  "n \<in> set (t_environments (delete_environments_where q d)) \<Longrightarrow> \<not> q n"
  by (simp_all add: delete_endpoints_where_def delete_environments_where_def Let_def)

lemma deleted_folders_project:
  "r \<in> set (t_folders (delete_folders_where (\<lambda>r. fw_project_id r \<in> gone) d)) \<Longrightarrow> fw_project_id r \<notin> gone"
  "x \<in> set (t_endpoints (delete_folders_where p d)) \<Longrightarrow>
     \<exists>y \<in> set (t_endpoints d). ew_project_id x = ew_project_id y \<and> ew_id x = ew_id y"
  by (auto simp: delete_folders_where_def Let_def)

lemma delete_frames [simp]:
  "t_projects (delete_endpoints_where p d) = t_projects d"
  "t_projects (delete_folders_where q d) = t_projects d"
  "t_projects (delete_environments_where s d) = t_projects d"
  "t_folders (delete_environments_where s d) = t_folders d"
  "t_folders (delete_endpoints_where p d) = t_folders d"
  "t_endpoints (delete_environments_where s d) = t_endpoints d"
  by (simp_all add: delete_endpoints_where_def delete_folders_where_def
      delete_environments_where_def Let_def)

lemma delete_projects_inv:
  assumes "db_inv d"
  shows "db_inv (delete_projects_where p d)"
proof -
  define gone where "gone = pw_id ` set (filter p (t_projects d))"
  define d1 where "d1 = delete_endpoints_where (\<lambda>r. ew_project_id r \<in> gone) d"
  define d2 where "d2 = delete_folders_where (\<lambda>r. fw_project_id r \<in> gone) d1"
  define d3 where "d3 = delete_environments_where (\<lambda>r. nw_project_id r \<in> gone) d2"
  have inv: "keys_ok d3" "fk_ok d3"
    using assms delete_endpoints_inv delete_folders_inv delete_environments_inv
    by (auto simp: d1_def d2_def d3_def db_inv_def)
  have proj: "t_projects d3 = t_projects d" by (simp add: d1_def d2_def d3_def)
  have left: "i \<notin> gone \<Longrightarrow> i \<in> pw_id ` set (t_projects d) \<Longrightarrow> i \<in> pw_id ` set (filter (\<lambda>r. \<not> p r) (t_projects d))"
    for i by (auto simp: gone_def)
  have f: "r \<in> set (t_folders d3) \<Longrightarrow> fw_project_id r \<notin> gone" for r
    by (simp add: d3_def d2_def) (rule deleted_folders_project)
  have e: "r \<in> set (t_endpoints d3) \<Longrightarrow> ew_project_id r \<notin> gone" for r
    using deleted_folders_project(2)[of r _ d1] deleted_rows(1)
    by (fastforce simp: d3_def d2_def d1_def)
  have n: "r \<in> set (t_environments d3) \<Longrightarrow> nw_project_id r \<notin> gone" for r
    using deleted_rows(2) by (fastforce simp: d3_def)
  have eq: "delete_projects_where p d = d3\<lparr>t_projects := filter (\<lambda>r. \<not> p r) (t_projects d3),
            t_mock_rules := filter (\<lambda>r. mw_project_id r \<notin> gone) (t_mock_rules d3),
            t_test_runs := filter (\<lambda>r. tw_project_id r \<notin> gone) (t_test_runs d3),
            t_histories := filter (\<lambda>r. hw_project_id r \<notin> gone) (t_histories d3),
            t_proto_files := filter (\<lambda>r. ow_project_id r \<notin> gone) (t_proto_files d3)\<rparr>"
    by (simp add: delete_projects_where_def gone_def d1_def d2_def d3_def Let_def)
  have "keys_ok (delete_projects_where p d)"
    using inv(1) by (simp add: eq keys_ok_def distinct_map_filter)
  moreover have "fk_ok (delete_projects_where p d)"
    using inv(2) f e n left by (simp add: eq fk_defs proj)
  ultimately show ?thesis by (simp add: db_inv_def)
qed

section \<open>The interface of an upserted table\<close>

text \<open>
  A repository that writes single rows and batches of rows by upsert relies on the key that an
  update keeps and on the table being a field of the database. A batch then does what the single
  writes do, and a written row is found under its key.
\<close>

lemma each_stmt_map: "each_stmt f (map g xs) d = each_stmt (\<lambda>x. f (g x)) xs d"
  by (induction xs arbitrary: d) (auto simp: and_then_def split: sum.splits)

lemma upsert_rows_append:
  "upsert_rows key merge (xs @ ys) rows = upsert_rows key merge ys (upsert_rows key merge xs rows)"
  by (simp add: upsert_rows_def)

lemma find_upsert:
  assumes "keeps_key key merge"
  shows "find (\<lambda>x. key x = key r) (upsert key merge r rows)
    = Some (case find (\<lambda>x. key x = key r) rows of None \<Rightarrow> r | Some old \<Rightarrow> merge old r)"
proof (cases "key r \<in> key ` set rows")
  case True
  then show ?thesis
  proof (induction rows)
    case (Cons x rows)
    then show ?case
      using assms by (cases "key x = key r"; cases "key r \<in> key ` set rows")
        (auto simp: upsert_def keeps_key_def)
  qed simp
next
  case False
  then have "find (\<lambda>x. key x = key r) rows = None"
    unfolding find_None_iff by (metis image_eqI)
  moreover have "find P (xs @ ys) = (case find P xs of None \<Rightarrow> find P ys | Some x \<Rightarrow> Some x)" for P :: "'a \<Rightarrow> bool" and xs ys
    by (induction xs) auto
  ultimately show ?thesis using False by (simp add: upsert_def)
qed

lemma find_upsert_other:
  assumes "keeps_key key merge" "k \<noteq> key r"
  shows "find (\<lambda>x. key x = k) (upsert key merge r rows) = find (\<lambda>x. key x = k) rows"
proof -
  have "find (\<lambda>x. key x = k) (map (\<lambda>old. if key old = key r then merge old r else old) rows)
      = find (\<lambda>x. key x = k) rows"
    using assms by (induction rows) (auto simp: keeps_key_def)
  moreover have "find (\<lambda>x. key x = k) (rows @ [r]) = find (\<lambda>x. key x = k) rows"
    using assms(2) by (induction rows) auto
  ultimately show ?thesis by (simp add: upsert_def)
qed

locale upserted =
  fixes key :: "'r \<Rightarrow> str" and merge :: "'r \<Rightarrow> 'r \<Rightarrow> 'r"
    and rows_of :: "db \<Rightarrow> 'r list" and with_rows :: "'r list \<Rightarrow> db \<Rightarrow> db"
  assumes keeps: "keeps_key key merge"
    and get_with: "rows_of (with_rows rs d) = rs"
    and with_with: "with_rows rs (with_rows qs d) = with_rows rs d"
    and with_get: "with_rows (rows_of d) d = d"
begin

definition put_row :: "'r \<Rightarrow> db \<Rightarrow> (app_error, db) result" where
  "put_row r d = checked (with_rows (upsert key merge r (rows_of d)) d)"

definition batch :: "'r list \<Rightarrow> db \<Rightarrow> (app_error, db) result" where
  "batch rs d = checked (with_rows (upsert_rows key merge rs (rows_of d)) d)"

lemma writes_upsert:
  "each_stmt put_row rs d = Ok d' \<Longrightarrow>
     d' = with_rows (upsert_rows key merge rs (rows_of d)) d \<and> (rs \<noteq> [] \<longrightarrow> fk_ok d')"
proof (induction rs arbitrary: d)
  case (Cons r rs)
  then obtain d1 where d1: "put_row r d = Ok d1" "each_stmt put_row rs d1 = Ok d'"
    by (auto simp: and_then_eq_Inr)
  then have "d1 = with_rows (upsert key merge r (rows_of d)) d" "fk_ok d1"
    by (auto simp: put_row_def checked_Ok)
  with Cons.IH[OF d1(2)] d1(2) show ?case
    by (cases rs) (auto simp: upsert_rows_def get_with with_with)
qed (simp add: upsert_rows_def with_get)

lemma batches_upsert:
  "each_stmt batch rss d = Ok d' \<Longrightarrow> d' = with_rows (upsert_rows key merge (concat rss) (rows_of d)) d"
proof (induction rss arbitrary: d)
  case (Cons rs rss)
  then obtain d1 where d1: "batch rs d = Ok d1" "each_stmt batch rss d1 = Ok d'"
    by (auto simp: and_then_eq_Inr)
  then have "d1 = with_rows (upsert_rows key merge rs (rows_of d)) d"
    by (auto simp: batch_def checked_Ok)
  with Cons.IH[OF d1(2)] show ?case
    by (simp add: upsert_rows_append get_with with_with)
qed (simp add: upsert_rows_def with_get)

lemma writes_batches:
  assumes "each_stmt put_row (concat rss) d = Ok d'" "[] \<notin> set rss"
  shows "each_stmt batch rss d = Ok d'"
  using assms
proof (induction rss arbitrary: d)
  case (Cons rs rss)
  then obtain d1 where d1: "each_stmt put_row rs d = Ok d1" "each_stmt put_row (concat rss) d1 = Ok d'"
    by (auto simp: each_stmt_append and_then_eq_Inr)
  then have "batch rs d = Ok d1"
    using writes_upsert[OF d1(1)] Cons.prems(2) by (auto simp: batch_def checked_Ok)
  with Cons.IH[OF d1(2)] Cons.prems(2) show ?case by simp
qed simp

lemma chunks_nonempty: "[] \<notin> set (chunks n xs)"
proof (induction n xs rule: chunks.induct)
  case (1 n xs)
  then show ?case by (subst chunks.simps) auto
qed

lemma bulk_of_writes:
  "each_stmt put_row rs d = Ok d' \<Longrightarrow> each_stmt batch (chunks 200 rs) d = Ok d'"
  using writes_batches[of "chunks 200 rs" d d'] chunks_nonempty[of 200 rs]
  by (simp add: concat_chunks)

lemma bulk_upsert:
  "each_stmt batch (chunks 200 rs) d = Ok d' \<Longrightarrow>
     d' = with_rows (upsert_rows key merge rs (rows_of d)) d"
  using batches_upsert[of "chunks 200 rs" d d'] by (simp add: concat_chunks)

lemma written_found:
  assumes "put_row r d = Ok d'"
  shows "find (\<lambda>x. key x = key r) (rows_of d')
    = Some (case find (\<lambda>x. key x = key r) (rows_of d) of None \<Rightarrow> r | Some old \<Rightarrow> merge old r)"
  using assms by (auto simp: put_row_def checked_Ok get_with find_upsert[OF keeps])

lemma others_kept:
  assumes "put_row r d = Ok d'" "k \<noteq> key r"
  shows "find (\<lambda>x. key x = k) (rows_of d') = find (\<lambda>x. key x = k) (rows_of d)"
  using assms by (auto simp: put_row_def checked_Ok get_with find_upsert_other[OF keeps])

lemma puts_append:
  "distinct (map key rs) \<Longrightarrow> key ` set rs \<inter> key ` set (rows_of d) = {} \<Longrightarrow>
     \<forall>k \<le> length rs. fk_ok (with_rows (rows_of d @ take k rs) d) \<Longrightarrow>
     each_stmt put_row rs d = Ok (with_rows (rows_of d @ rs) d)"
proof (induction rs arbitrary: d)
  case (Cons r rs)
  let ?d = "with_rows (rows_of d @ [r]) d"
  have "fk_ok ?d" using Cons.prems(3)[rule_format, of 1] by simp
  then have "put_row r d = Ok ?d" using Cons.prems(2) by (simp add: put_row_def upsert_def checked_Ok)
  moreover have "each_stmt put_row rs ?d = Ok (with_rows (rows_of ?d @ rs) ?d)"
  proof (rule Cons.IH)
    show "\<forall>k \<le> length rs. fk_ok (with_rows (rows_of ?d @ take k rs) ?d)"
    proof (intro allI impI)
      fix k assume "k \<le> length rs"
      then show "fk_ok (with_rows (rows_of ?d @ take k rs) ?d)"
        using Cons.prems(3)[rule_format, of "Suc k"] by (simp add: get_with with_with)
    qed
    show "distinct (map key rs)" using Cons.prems(1) by simp
    show "key ` set rs \<inter> key ` set (rows_of ?d) = {}"
      using Cons.prems(1,2) by (auto simp: get_with)
  qed
  ultimately show ?case by (simp add: get_with with_with)
qed (simp add: with_get)

lemma bulk_append:
  assumes "distinct (map key rs)" "key ` set rs \<inter> key ` set (rows_of d) = {}"
    "\<forall>k \<le> length rs. fk_ok (with_rows (rows_of d @ take k rs) d)"
  shows "each_stmt batch (chunks 200 rs) d = Ok (with_rows (rows_of d @ rs) d)"
  by (rule bulk_of_writes[OF puts_append[OF assms]])

text \<open>A batch with distinct keys leaves each of its rows, merged into the row it replaced.\<close>

lemma upsert_rows_hit:
  "distinct (map key rs) \<Longrightarrow> r \<in> set rs \<Longrightarrow>
     \<exists>x \<in> set (upsert_rows key merge rs rows). key x = key r \<and> (x = r \<or> (\<exists>old. x = merge old r))"
proof (induction rs rule: rev_induct)
  case (snoc q rs)
  let ?rows = "upsert_rows key merge rs rows"
  have step: "upsert_rows key merge (rs @ [q]) rows = upsert key merge q ?rows"
    by (simp add: upsert_rows_def)
  show ?case
  proof (cases "r = q")
    case True
    have "find (\<lambda>x. key x = key q) (upsert key merge q ?rows)
        = Some (case find (\<lambda>x. key x = key q) ?rows of None \<Rightarrow> q | Some old \<Rightarrow> merge old q)"
      by (rule find_upsert[OF keeps])
    then obtain x where f: "find (\<lambda>x. key x = key q) (upsert key merge q ?rows) = Some x"
      and x: "x = q \<or> (\<exists>old. x = merge old q)"
      by (cases "find (\<lambda>x. key x = key q) ?rows") auto
    from f have "x \<in> set (upsert key merge q ?rows)" "key x = key q"
      by (auto simp: find_Some_iff)
    with x show ?thesis unfolding step True by blast
  next
    case False
    then have r: "r \<in> set rs" "distinct (map key rs)" "key q \<notin> key ` set rs"
      using snoc.prems by auto
    then have ne: "key r \<noteq> key q" by (metis imageI)
    obtain x where x: "x \<in> set ?rows" "key x = key r" "x = r \<or> (\<exists>old. x = merge old r)"
      using snoc.IH[OF r(2,1)] by auto
    have "x \<in> set (upsert key merge q ?rows)"
      using x(1,2) ne by (auto simp: upsert_def image_iff intro!: bexI[of _ x])
    with x show ?thesis unfolding step by blast
  qed
qed simp

lemma keys_after_batch:
  "distinct (map key (rows_of d)) \<Longrightarrow> each_stmt batch rss d = Ok d' \<Longrightarrow> distinct (map key (rows_of d'))"
  by (drule batches_upsert) (simp add: get_with upsert_rows_distinct keeps)

lemma fk_after_batch: "fk_ok d \<Longrightarrow> each_stmt batch rss d = Ok d' \<Longrightarrow> fk_ok d'"
  by (rule each_stmt_inv[where P = fk_ok]) (auto simp: batch_def checked_Ok)

end

end
