(* ===== verification/RepoTree.thy ===== *)
theory RepoTree
  imports Database
begin

text \<open>
  The repositories of the project tree: \<open>projects.rs\<close>, \<open>folders.rs\<close>, \<open>endpoints.rs\<close> and
  \<open>environments.rs\<close> of \<open>crates/fox-storage/src/repository\<close>. An operation takes the identifier
  \<open>Uuid::new_v4()\<close> returned, the instants \<open>Utc::now()\<close> returned and the nonces drawn as arguments,
  and returns its result with the database after it; an error leaves the database as it was.
\<close>

section \<open>Projects\<close>

definition merge_project :: "project_record \<Rightarrow> project_record \<Rightarrow> project_record" where
  "merge_project old new = old\<lparr>pw_name := pw_name new, pw_description := pw_description new,
     pw_variables_json := pw_variables_json new, pw_updated_at := pw_updated_at new\<rparr>"

definition project_record :: "project_row \<Rightarrow> int \<Rightarrow> project_record" where
  "project_record r order = project_row.extend r (project_record.fields order)"

definition next_project_order :: "db \<Rightarrow> int" where
  "next_project_order d =
     (if t_projects d = [] then - 1 else Max (pw_sort_order ` set (t_projects d))) + 1"

definition create_project ::
  "codec \<Rightarrow> uuid \<Rightarrow> datetime \<Rightarrow> str \<Rightarrow> str \<Rightarrow> db \<Rightarrow> (app_error, project \<times> db) result" where
  "create_project C new_id now name description d =
     (let model = \<lparr>pr_id = new_id, pr_name = name, pr_description = description,
                   pr_variables = Map.empty, pr_created_at = now, pr_updated_at = now\<rparr>;
          r = project_record (project_row C model) (next_project_order d)
      in and_then (insert_row pw_id r (t_projects d)) (\<lambda>rows.
         and_then (checked (d\<lparr>t_projects := rows\<rparr>)) (\<lambda>d'. Ok (model, d'))))"

definition list_projects :: "codec \<Rightarrow> db \<Rightarrow> (app_error, project list) result" where
  "list_projects C d =
     collect_results (project_model C)
       (order_asc (\<lambda>r. (pw_sort_order r, pw_created_at r)) (t_projects d))"

record project_endpoint_stat =
  ps_project_id :: str
  ps_endpoint_count :: nat
  ps_latest_method :: "str option"
  ps_latest_path :: "str option"

definition latest_endpoint :: "str \<Rightarrow> db \<Rightarrow> endpoint_row option" where
  "latest_endpoint pid d =
     (case order_desc ew_updated_at (filter (\<lambda>e. ew_project_id e = pid) (t_endpoints d)) of
        [] \<Rightarrow> None | e # _ \<Rightarrow> Some e)"

definition list_endpoint_stats :: "db \<Rightarrow> project_endpoint_stat list" where
  "list_endpoint_stats d =
     map (\<lambda>p. \<lparr>ps_project_id = pw_id p,
               ps_endpoint_count = rows_affected (\<lambda>e. ew_project_id e = pw_id p) (t_endpoints d),
               ps_latest_method = map_option ew_method (latest_endpoint (pw_id p) d),
               ps_latest_path = map_option ew_path (latest_endpoint (pw_id p) d)\<rparr>) (t_projects d)"

fun order_projects :: "codec \<Rightarrow> nat \<Rightarrow> uuid list \<Rightarrow> db \<Rightarrow> (app_error, db) result" where
  "order_projects C index [] d = Ok d"
| "order_projects C index (u # us) d =
     (let p = (\<lambda>r. pw_id r = co_uuid_text C u) in
      if rows_affected p (t_projects d) = 0
      then Err (NotFound (Msg ''project'' [co_uuid_text C u]))
      else order_projects C (Suc index) us
        (d\<lparr>t_projects := update_where p (\<lambda>r. r\<lparr>pw_sort_order := int index\<rparr>) (t_projects d)\<rparr>))"

definition update_projects_order :: "codec \<Rightarrow> uuid list \<Rightarrow> db \<Rightarrow> (app_error, db) result" where
  "update_projects_order C us d = order_projects C 0 us d"

definition get_project :: "codec \<Rightarrow> uuid \<Rightarrow> db \<Rightarrow> (app_error, project) result" where
  "get_project C u d =
     (case fetch_optional (\<lambda>r. pw_id r = co_uuid_text C u) (t_projects d) of
        None \<Rightarrow> Err (NotFound (Msg ''project'' [co_uuid_text C u]))
      | Some r \<Rightarrow> project_model C r)"

definition update_project :: "codec \<Rightarrow> datetime \<Rightarrow> project \<Rightarrow> db \<Rightarrow> (app_error, project \<times> db) result" where
  "update_project C now m d =
     (let updated = m\<lparr>pr_updated_at := now\<rparr>;
          new = project_record (project_row C updated) 0;
          p = (\<lambda>r. pw_id r = pw_id new)
      in if rows_affected p (t_projects d) = 0
         then Err (NotFound (Msg ''project'' [co_uuid_text C (pr_id m)]))
         else Ok (updated,
           d\<lparr>t_projects := update_where p (\<lambda>r. merge_project r new) (t_projects d)\<rparr>))"

definition delete_project :: "codec \<Rightarrow> uuid \<Rightarrow> db \<Rightarrow> db" where
  "delete_project C u d = delete_projects_where (\<lambda>r. pw_id r = co_uuid_text C u) d"

definition save_project :: "codec \<Rightarrow> project \<Rightarrow> db \<Rightarrow> (app_error, db) result" where
  "save_project C m d =
     checked (d\<lparr>t_projects :=
       upsert pw_id merge_project (project_record (project_row C m) 0) (t_projects d)\<rparr>)"

text \<open>\<open>touch_project\<close> of \<open>endpoints.rs\<close>.\<close>

definition touch_project :: "codec \<Rightarrow> datetime \<Rightarrow> str \<Rightarrow> db \<Rightarrow> db" where
  "touch_project C now pid d =
     d\<lparr>t_projects := update_where (\<lambda>r. pw_id r = pid)
         (\<lambda>r. r\<lparr>pw_updated_at := co_time_text C now\<rparr>) (t_projects d)\<rparr>"

section \<open>Folders\<close>

definition merge_folder :: "folder_row \<Rightarrow> folder_row \<Rightarrow> folder_row" where
  "merge_folder old new = old\<lparr>fw_project_id := fw_project_id new, fw_parent_id := fw_parent_id new,
     fw_name := fw_name new, fw_sort_order := fw_sort_order new, fw_updated_at := fw_updated_at new\<rparr>"

definition create_folder ::
  "codec \<Rightarrow> uuid \<Rightarrow> datetime \<Rightarrow> uuid \<Rightarrow> uuid option \<Rightarrow> str \<Rightarrow> db \<Rightarrow> (app_error, folder \<times> db) result" where
  "create_folder C new_id now project_id parent_id name d =
     (let model = \<lparr>fo_id = new_id, fo_project_id = project_id, fo_parent_id = parent_id,
                   fo_name = name, fo_sort_order = 0, fo_created_at = now, fo_updated_at = now\<rparr>
      in and_then (insert_row fw_id (folder_row C model) (t_folders d)) (\<lambda>rows.
         and_then (checked (d\<lparr>t_folders := rows\<rparr>)) (\<lambda>d'. Ok (model, d'))))"

definition list_folders :: "codec \<Rightarrow> uuid \<Rightarrow> db \<Rightarrow> (app_error, folder list) result" where
  "list_folders C project_id d =
     collect_results (folder_model C)
       (order_asc (\<lambda>r. (fw_sort_order r, fw_created_at r))
          (filter (\<lambda>r. fw_project_id r = co_uuid_text C project_id) (t_folders d)))"

definition get_folder :: "codec \<Rightarrow> uuid \<Rightarrow> db \<Rightarrow> (app_error, folder) result" where
  "get_folder C u d =
     (case fetch_optional (\<lambda>r. fw_id r = co_uuid_text C u) (t_folders d) of
        None \<Rightarrow> Err (NotFound (Msg ''folder'' [co_uuid_text C u]))
      | Some r \<Rightarrow> folder_model C r)"

definition update_folder :: "codec \<Rightarrow> folder \<Rightarrow> db \<Rightarrow> (app_error, folder \<times> db) result" where
  "update_folder C m d =
     (let new = folder_row C m in
      and_then (checked (d\<lparr>t_folders := update_where (\<lambda>r. fw_id r = fw_id new)
          (\<lambda>r. r\<lparr>fw_parent_id := fw_parent_id new, fw_name := fw_name new,
                  fw_sort_order := fw_sort_order new, fw_updated_at := fw_updated_at new\<rparr>)
          (t_folders d)\<rparr>)) (\<lambda>d'. Ok (m, d')))"

text \<open>
  The recursive query of \<open>FOLDER_SUBTREE_SQL\<close>: the start, then level by level the children of the
  level before. It is a \<open>UNION ALL\<close>, so it stops only when a level is empty; when it never does,
  the value is \<open>None\<close>.
\<close>

definition children_of :: "folder_row list \<Rightarrow> str list \<Rightarrow> str list" where
  "children_of rows level =
     concat (map (\<lambda>s. map fw_id (filter (\<lambda>f. fw_parent_id f = Some s) rows)) level)"

partial_function (option) subtree_loop :: "folder_row list \<Rightarrow> str list \<Rightarrow> str list \<Rightarrow> str list option" where
  "subtree_loop rows level seen =
     (if level = [] then Some seen
      else subtree_loop rows (children_of rows level) (seen @ level))"

definition folder_subtree :: "folder_row list \<Rightarrow> str \<Rightarrow> str list option" where
  "folder_subtree rows start = subtree_loop rows [start] []"

text \<open>\<open>folder_id IN (SELECT id FROM subtree)\<close>\<close>

definition folder_in :: "str list \<Rightarrow> endpoint_row \<Rightarrow> bool" where
  "folder_in ids e = (case ew_folder_id e of None \<Rightarrow> False | Some i \<Rightarrow> i \<in> set ids)"

definition delete_folder :: "codec \<Rightarrow> uuid \<Rightarrow> db \<Rightarrow> (app_error, db) result option" where
  "delete_folder C u d =
     (case folder_subtree (t_folders d) (co_uuid_text C u) of
        None \<Rightarrow> None
      | Some ids \<Rightarrow>
          (let d1 = delete_endpoints_where (folder_in ids) d;
               p = (\<lambda>f. fw_id f \<in> set ids)
           in Some (if rows_affected p (t_folders d1) = 0
                    then Err (NotFound (Msg ''folder'' [co_uuid_text C u]))
                    else Ok (delete_folders_where p d1))))"

definition save_folder :: "codec \<Rightarrow> folder \<Rightarrow> db \<Rightarrow> (app_error, db) result" where
  "save_folder C m d =
     checked (d\<lparr>t_folders := upsert fw_id merge_folder (folder_row C m) (t_folders d)\<rparr>)"

definition save_folders_bulk :: "codec \<Rightarrow> folder list \<Rightarrow> db \<Rightarrow> (app_error, db) result" where
  "save_folders_bulk C ms d =
     each_stmt (\<lambda>chunk d. checked (d\<lparr>t_folders := upsert_rows fw_id merge_folder chunk (t_folders d)\<rparr>))
       (chunks 200 (map (folder_row C) ms)) d"

section \<open>Endpoints\<close>

definition merge_endpoint :: "endpoint_row \<Rightarrow> endpoint_row \<Rightarrow> endpoint_row" where
  "merge_endpoint old new = new\<lparr>ew_id := ew_id old, ew_created_at := ew_created_at old\<rparr>"

definition insert_endpoint ::
  "codec \<Rightarrow> (nat \<Rightarrow> str) \<Rightarrow> datetime \<Rightarrow> endpoint \<Rightarrow> db \<Rightarrow> (app_error, endpoint \<times> db) result" where
  "insert_endpoint C nonces touched model d =
     and_then (insert_row ew_id (endpoint_row C nonces model) (t_endpoints d)) (\<lambda>rows.
     and_then (checked (d\<lparr>t_endpoints := rows\<rparr>)) (\<lambda>d'.
       Ok (model, touch_project C touched (co_uuid_text C (ep_project_id model)) d')))"

definition create_endpoint ::
  "codec \<Rightarrow> (nat \<Rightarrow> str) \<Rightarrow> uuid \<Rightarrow> datetime \<Rightarrow> datetime \<Rightarrow> uuid \<Rightarrow> uuid option \<Rightarrow> str \<Rightarrow> db
     \<Rightarrow> (app_error, endpoint \<times> db) result" where
  "create_endpoint C nonces new_id now touched project_id folder_id name d =
     insert_endpoint C nonces touched
       \<lparr>ep_id = new_id, ep_project_id = project_id, ep_folder_id = folder_id, ep_name = name,
        ep_method = GET, ep_path = ''/'', ep_description = [], ep_status = Developing,
        ep_sort_order = 0, ep_request = default_request, ep_created_at = now, ep_updated_at = now\<rparr> d"

definition get_endpoint :: "codec \<Rightarrow> uuid \<Rightarrow> db \<Rightarrow> (app_error, endpoint) result" where
  "get_endpoint C u d =
     (case fetch_optional (\<lambda>r. ew_id r = co_uuid_text C u) (t_endpoints d) of
        None \<Rightarrow> Err (NotFound (Msg ''endpoint'' [co_uuid_text C u]))
      | Some r \<Rightarrow> endpoint_model C r)"

definition update_endpoint ::
  "codec \<Rightarrow> (nat \<Rightarrow> str) \<Rightarrow> datetime \<Rightarrow> datetime \<Rightarrow> endpoint \<Rightarrow> db
     \<Rightarrow> (app_error, endpoint \<times> db) result" where
  "update_endpoint C nonces now touched m d =
     (let updated = m\<lparr>ep_updated_at := now\<rparr>;
          new = endpoint_row C nonces updated;
          p = (\<lambda>r. ew_id r = ew_id new)
      in and_then (checked (d\<lparr>t_endpoints := update_where p
             (\<lambda>r. new\<lparr>ew_id := ew_id r, ew_project_id := ew_project_id r,
                       ew_created_at := ew_created_at r\<rparr>) (t_endpoints d)\<rparr>)) (\<lambda>d'.
         if rows_affected p (t_endpoints d) = 0
         then Err (NotFound (Msg ''endpoint'' [co_uuid_text C (ep_id m)]))
         else Ok (updated, touch_project C touched (co_uuid_text C (ep_project_id updated)) d')))"

definition delete_endpoint :: "codec \<Rightarrow> datetime \<Rightarrow> uuid \<Rightarrow> db \<Rightarrow> db" where
  "delete_endpoint C now u d =
     (let p = (\<lambda>r. ew_id r = co_uuid_text C u);
          d1 = (case fetch_optional p (t_endpoints d) of
                  None \<Rightarrow> d | Some r \<Rightarrow> touch_project C now (ew_project_id r) d)
      in delete_endpoints_where p d1)"

text \<open>\<open>sort_order + 1\<close> on \<open>i64\<close>, which wraps in the release build.\<close>

definition i64_succ :: "int \<Rightarrow> int" where "i64_succ n = sint (word_of_int (n + 1) :: u64)"

definition copy_suffix :: str where "copy_suffix = bytes [239, 188, 136, 229, 137, 175, 230, 156, 172, 239, 188, 137]"

definition duplicate_endpoint ::
  "codec \<Rightarrow> (nat \<Rightarrow> str) \<Rightarrow> uuid \<Rightarrow> datetime \<Rightarrow> datetime \<Rightarrow> uuid \<Rightarrow> db
     \<Rightarrow> (app_error, endpoint \<times> db) result" where
  "duplicate_endpoint C nonces new_id now touched u d =
     and_then (get_endpoint C u d) (\<lambda>src.
       insert_endpoint C nonces touched
         \<lparr>ep_id = new_id, ep_project_id = ep_project_id src, ep_folder_id = ep_folder_id src,
          ep_name = ep_name src @ copy_suffix, ep_method = ep_method src, ep_path = ep_path src,
          ep_description = ep_description src, ep_status = ep_status src,
          ep_sort_order = i64_succ (ep_sort_order src), ep_request = ep_request src,
          ep_created_at = now, ep_updated_at = now\<rparr> d)"

definition list_endpoints :: "codec \<Rightarrow> uuid \<Rightarrow> db \<Rightarrow> (app_error, endpoint list) result" where
  "list_endpoints C project_id d =
     collect_results (endpoint_model C)
       (order_asc (\<lambda>r. (ew_sort_order r, ew_created_at r))
          (filter (\<lambda>r. ew_project_id r = co_uuid_text C project_id) (t_endpoints d)))"

definition save_endpoint :: "codec \<Rightarrow> (nat \<Rightarrow> str) \<Rightarrow> endpoint \<Rightarrow> db \<Rightarrow> (app_error, db) result" where
  "save_endpoint C nonces m d =
     checked (d\<lparr>t_endpoints := upsert ew_id merge_endpoint (endpoint_row C nonces m) (t_endpoints d)\<rparr>)"

text \<open>In a bulk write the \<open>i\<close>-th conversion draws the nonces \<open>nonces i\<close>.\<close>

definition indexed :: "'a list \<Rightarrow> (nat \<times> 'a) list" where
  "indexed xs = zip [0..<length xs] xs"

definition save_endpoints_bulk ::
  "codec \<Rightarrow> (nat \<Rightarrow> nat \<Rightarrow> str) \<Rightarrow> endpoint list \<Rightarrow> db \<Rightarrow> (app_error, db) result" where
  "save_endpoints_bulk C nonces ms d =
     each_stmt (\<lambda>chunk d. checked (d\<lparr>t_endpoints := upsert_rows ew_id merge_endpoint chunk (t_endpoints d)\<rparr>))
       (chunks 200 (map (\<lambda>(i, m). endpoint_row C (nonces i) m) (indexed ms))) d"

section \<open>Environments\<close>

definition merge_environment :: "environment_row \<Rightarrow> environment_row \<Rightarrow> environment_row" where
  "merge_environment old new = new\<lparr>nw_id := nw_id old, nw_created_at := nw_created_at old\<rparr>"

definition create_environment ::
  "codec \<Rightarrow> str \<Rightarrow> uuid \<Rightarrow> datetime \<Rightarrow> uuid \<Rightarrow> str \<Rightarrow> str \<Rightarrow> environment_variable list \<Rightarrow> db
     \<Rightarrow> (app_error, environment \<times> db) result" where
  "create_environment C nonce new_id now project_id name base_url variables d =
     (let model = \<lparr>en_id = new_id, en_project_id = project_id, en_name = name, en_base_url = base_url,
                   en_variables = variables, en_created_at = now, en_updated_at = now\<rparr>
      in and_then (insert_row nw_id (environment_row C nonce model) (t_environments d)) (\<lambda>rows.
         and_then (checked (d\<lparr>t_environments := rows\<rparr>)) (\<lambda>d'. Ok (model, d'))))"

definition get_environment :: "codec \<Rightarrow> uuid \<Rightarrow> db \<Rightarrow> (app_error, environment) result" where
  "get_environment C u d =
     (case fetch_optional (\<lambda>r. nw_id r = co_uuid_text C u) (t_environments d) of
        None \<Rightarrow> Err (NotFound (Msg ''environment'' [co_uuid_text C u]))
      | Some r \<Rightarrow> environment_model C r)"

definition update_environment ::
  "codec \<Rightarrow> str \<Rightarrow> datetime \<Rightarrow> environment \<Rightarrow> db \<Rightarrow> (app_error, environment \<times> db) result" where
  "update_environment C nonce now m d =
     (let updated = m\<lparr>en_updated_at := now\<rparr>;
          new = environment_row C nonce updated;
          p = (\<lambda>r. nw_id r = nw_id new)
      in and_then (checked (d\<lparr>t_environments := update_where p (\<lambda>r. merge_environment r new)
             (t_environments d)\<rparr>)) (\<lambda>d'.
         if rows_affected p (t_environments d) = 0
         then Err (NotFound (Msg ''environment'' [co_uuid_text C (en_id m)]))
         else Ok (updated, d')))"

definition delete_environment :: "codec \<Rightarrow> uuid \<Rightarrow> db \<Rightarrow> db" where
  "delete_environment C u d = delete_environments_where (\<lambda>r. nw_id r = co_uuid_text C u) d"

definition lenient_environment :: "codec \<Rightarrow> environment_row \<Rightarrow> (app_error, environment) result" where
  "lenient_environment C r =
     environment_model C
       (case decrypt_env_json C (nw_variables_json r) of
          Inl _ \<Rightarrow> r\<lparr>nw_variables_json := ''[]''\<rparr>
        | Inr _ \<Rightarrow> r)"

definition list_environments :: "codec \<Rightarrow> uuid \<Rightarrow> db \<Rightarrow> (app_error, environment list) result" where
  "list_environments C project_id d =
     collect_results (lenient_environment C)
       (order_asc nw_created_at
          (filter (\<lambda>r. nw_project_id r = co_uuid_text C project_id) (t_environments d)))"

definition save_environment ::
  "codec \<Rightarrow> str \<Rightarrow> environment \<Rightarrow> db \<Rightarrow> (app_error, environment \<times> db) result" where
  "save_environment C nonce m d =
     and_then (checked (d\<lparr>t_environments :=
         upsert nw_id merge_environment (environment_row C nonce m) (t_environments d)\<rparr>))
       (\<lambda>d'. Ok (m, d'))"

definition save_environments_bulk ::
  "codec \<Rightarrow> (nat \<Rightarrow> str) \<Rightarrow> environment list \<Rightarrow> db \<Rightarrow> (app_error, db) result" where
  "save_environments_bulk C nonces ms d =
     each_stmt (\<lambda>chunk d. checked (d\<lparr>t_environments :=
         upsert_rows nw_id merge_environment chunk (t_environments d)\<rparr>))
       (chunks 200 (map (\<lambda>(i, m). environment_row C (nonces i) m) (indexed ms))) d"

end
