(* ===== verification/Subtree.thy ===== *)
theory Subtree
  imports RepoTree
begin

text \<open>
  Deleting a folder: the recursive query of \<open>folders.rs\<close> computes the folders below the given one
  exactly when no folder below it is its own ancestor, and then the deletion removes that subtree
  and the endpoints in it and nothing else; otherwise the query does not end.
\<close>

section \<open>The folder graph\<close>

definition child_rel :: "folder_row list \<Rightarrow> (str \<times> str) set" where
  "child_rel rows = {(s, fw_id f) |s f. f \<in> set rows \<and> fw_parent_id f = Some s}"

lemma child_rel_iff: "(s, x) \<in> child_rel rows \<longleftrightarrow> (\<exists>f \<in> set rows. fw_parent_id f = Some s \<and> fw_id f = x)"
  by (auto simp: child_rel_def)

lemma set_children_of: "set (children_of rows level) = child_rel rows `` set level"
  by (auto simp: children_of_def child_rel_def)

lemma finite_child_rel: "finite (child_rel rows)"
proof -
  have "child_rel rows \<subseteq> (the \<circ> fw_parent_id) ` set rows \<times> fw_id ` set rows"
    by (force simp: child_rel_def)
  then show ?thesis by (rule finite_subset) simp
qed

text \<open>The folders at or below \<open>s\<close>.\<close>

definition below :: "folder_row list \<Rightarrow> str \<Rightarrow> str set" where
  "below rows s = (child_rel rows)\<^sup>* `` {s}"

definition cycle_below :: "folder_row list \<Rightarrow> str \<Rightarrow> bool" where
  "cycle_below rows s \<longleftrightarrow> (\<exists>x \<in> below rows s. (x, x) \<in> (child_rel rows)\<^sup>+)"

lemma below_start [simp]: "s \<in> below rows s"
  by (simp add: below_def)

lemma below_step: "x \<in> below rows s \<Longrightarrow> (x, y) \<in> child_rel rows \<Longrightarrow> y \<in> below rows s"
  by (auto simp: below_def intro: rtrancl_into_rtrancl)

section \<open>What the query returns\<close>

lemma subtree_loop_step: "level \<noteq> [] \<Longrightarrow>
    subtree_loop rows level seen = subtree_loop rows (children_of rows level) (seen @ level)"
  by (subst subtree_loop.simps) simp

lemma subtree_loop_end [simp]: "subtree_loop rows [] seen = Some seen"
  by (subst subtree_loop.simps) simp

lemma rtrancl_unfold_Image: "A \<union> R\<^sup>* `` (R `` A) = R\<^sup>* `` A"
proof
  show "R\<^sup>* `` A \<subseteq> A \<union> R\<^sup>* `` (R `` A)"
  proof
    fix y assume "y \<in> R\<^sup>* `` A"
    then obtain x where x: "x \<in> A" "(x, y) \<in> R\<^sup>*" by blast
    from x(2) x(1) show "y \<in> A \<union> R\<^sup>* `` (R `` A)"
      by (cases rule: converse_rtranclE) blast+
  qed
qed (auto intro: converse_rtrancl_into_rtrancl)

lemma subtree_loop_result:
  assumes "subtree_loop rows level seen = Some out"
  shows "set out = set seen \<union> (child_rel rows)\<^sup>* `` set level"
proof (rule subtree_loop.raw_induct[OF _ assms], goal_cases)
  case (1 loop rows level seen out)
  show ?case
  proof (cases "level = []")
    case False
    have "set out = set (seen @ level) \<union> (child_rel rows)\<^sup>* `` set (children_of rows level)"
      by (rule 1(1)) (use 1(2) False in simp)
    also have "\<dots> = set seen \<union> (set level \<union> (child_rel rows)\<^sup>* `` (child_rel rows `` set level))"
      by (simp add: set_children_of Un_assoc)
    also have "set level \<union> (child_rel rows)\<^sup>* `` (child_rel rows `` set level) = (child_rel rows)\<^sup>* `` set level"
      by (rule rtrancl_unfold_Image)
    finally show ?thesis .
  qed (use 1 in simp)
qed

lemma folder_subtree_result:
  "folder_subtree rows s = Some ids \<Longrightarrow> set ids = below rows s"
  using subtree_loop_result[of rows "[s]" "[]" ids] by (simp add: folder_subtree_def below_def)

section \<open>When it returns\<close>

text \<open>The number of folders strictly below one is the measure of the loop.\<close>

definition height :: "folder_row list \<Rightarrow> str \<Rightarrow> nat" where
  "height rows x = card ((child_rel rows)\<^sup>+ `` {x})"

lemma finite_below: "finite ((child_rel rows)\<^sup>+ `` {x})"
proof -
  have "(child_rel rows)\<^sup>+ `` {x} \<subseteq> snd ` child_rel rows"
    by (auto elim: tranclE simp: image_iff) (metis snd_conv tranclE)
  then show ?thesis by (rule finite_subset) (simp add: finite_child_rel)
qed

lemma height_child:
  assumes "(x, y) \<in> child_rel rows" "(y, y) \<notin> (child_rel rows)\<^sup>+"
  shows "height rows y < height rows x"
proof -
  have "(child_rel rows)\<^sup>+ `` {y} \<subset> (child_rel rows)\<^sup>+ `` {x}"
    using assms by (auto intro: trancl_into_trancl2)
  then show ?thesis unfolding height_def by (intro psubset_card_mono finite_below)
qed

lemma subtree_loop_returns:
  assumes "\<forall>x \<in> set level. x \<in> below rows s \<and> height rows x < n" "\<not> cycle_below rows s"
  shows "subtree_loop rows level seen \<noteq> None"
  using assms(1)
proof (induction n arbitrary: level seen)
  case 0
  then have "level = []" by (cases level) auto
  then show ?case by simp
next
  case (Suc n)
  have "y \<in> below rows s \<and> height rows y < n" if y: "y \<in> set (children_of rows level)" for y
  proof -
    obtain x where x: "x \<in> set level" "(x, y) \<in> child_rel rows"
      using y by (auto simp: set_children_of)
    then have "y \<in> below rows s" using Suc.prems below_step by blast
    moreover have "(y, y) \<notin> (child_rel rows)\<^sup>+"
      using assms(2) calculation by (auto simp: cycle_below_def)
    ultimately show ?thesis using height_child[OF x(2)] Suc.prems x(1) by fastforce
  qed
  then show ?case using Suc.IH[of "children_of rows level"] by (cases "level = []") (auto simp: subtree_loop_step)
qed

lemma subtree_loop_no_cycle:
  assumes "subtree_loop rows level seen = Some out"
  shows "\<forall>l x. l \<in> set level \<longrightarrow> (l, x) \<in> (child_rel rows)\<^sup>* \<longrightarrow> (x, x) \<notin> (child_rel rows)\<^sup>+"
proof (rule subtree_loop.raw_induct[OF _ assms], goal_cases)
  case (1 loop rows level seen out)
  show ?case
  proof (intro allI impI)
    fix l x
    assume l: "l \<in> set level" and lx: "(l, x) \<in> (child_rel rows)\<^sup>*"
    then have "loop rows (children_of rows level) (seen @ level) = Some out" using 1(2) by (auto split: if_splits)
    note IH = 1(1)[OF this, rule_format]
    show "(x, x) \<notin> (child_rel rows)\<^sup>+"
    proof
      assume c: "(x, x) \<in> (child_rel rows)\<^sup>+"
      have "(l, x) \<in> (child_rel rows)\<^sup>+" using lx c by (rule rtrancl_trancl_trancl)
      then obtain y where y: "(l, y) \<in> child_rel rows" "(y, x) \<in> (child_rel rows)\<^sup>*"
        by (meson tranclD)
      have "y \<in> set (children_of rows level)" using y(1) l by (auto simp: set_children_of)
      from IH[OF this y(2)] c show False by contradiction
    qed
  qed
qed

lemma folder_subtree_returns: "folder_subtree rows s = None \<longleftrightarrow> cycle_below rows s"
proof
  assume n: "folder_subtree rows s = None"
  show "cycle_below rows s"
  proof (rule ccontr)
    assume "\<not> cycle_below rows s"
    then have "subtree_loop rows [s] [] \<noteq> None"
      by (intro subtree_loop_returns[where n = "Suc (height rows s)" and s = s]) auto
    with n show False by (simp add: folder_subtree_def)
  qed
next
  assume "cycle_below rows s"
  then show "folder_subtree rows s = None"
    using subtree_loop_no_cycle[of rows "[s]" "[]"]
    by (cases "folder_subtree rows s") (auto simp: cycle_below_def below_def folder_subtree_def)
qed

section \<open>What the deletion does\<close>

lemma subtree_closed:
  assumes "set ids = below rows s" "f \<in> set rows" "fw_parent_id f = Some p" "p \<in> set ids"
  shows "fw_id f \<in> set ids"
  using assms below_step[of p rows s "fw_id f"] by (auto simp: child_rel_iff)

lemma delete_folder_exact_laws:
  assumes inv: "db_inv d" and present: "co_uuid_text C u \<in> folder_ids d"
  shows "delete_folder C u d = None \<longleftrightarrow> cycle_below (t_folders d) (co_uuid_text C u)"
    and "delete_folder C u d = Some r \<Longrightarrow>
      \<exists>d'. r = Ok d' \<and> db_inv d' \<and>
        t_folders d' = filter (\<lambda>f. fw_id f \<notin> below (t_folders d) (co_uuid_text C u)) (t_folders d) \<and>
        t_endpoints d' = filter (\<lambda>e. \<not> (\<exists>i \<in> below (t_folders d) (co_uuid_text C u). ew_folder_id e = Some i))
          (t_endpoints d)"
proof -
  let ?s = "co_uuid_text C u"
  let ?B = "below (t_folders d) ?s"
  show "delete_folder C u d = None \<longleftrightarrow> cycle_below (t_folders d) ?s"
    by (simp add: delete_folder_def folder_subtree_returns[symmetric] Let_def split: option.splits)
  assume r: "delete_folder C u d = Some r"
  then obtain ids where ids: "folder_subtree (t_folders d) ?s = Some ids"
    by (auto simp: delete_folder_def split: option.splits)
  note B = folder_subtree_result[OF ids]
  let ?q = "folder_in ids"
  let ?p = "\<lambda>f. fw_id f \<in> set ids"
  let ?d1 = "delete_endpoints_where ?q d"
  let ?d2 = "delete_folders_where ?p ?d1"
  have folders1: "t_folders ?d1 = t_folders d"
    and endpoints1: "t_endpoints ?d1 = filter (\<lambda>e. \<not> ?q e) (t_endpoints d)"
    by (simp_all add: delete_endpoints_where_def Let_def)
  have "rows_affected ?p (t_folders ?d1) \<noteq> 0"
  proof -
    obtain f where f: "f \<in> set (t_folders d)" "fw_id f = ?s" using present by auto
    then have "fw_id f \<in> set ids" by (simp add: B)
    with f(1) show ?thesis by (auto simp: rows_affected_def filter_empty_conv)
  qed
  then have ok: "r = Ok ?d2"
    using r ids by (simp add: delete_folder_def Let_def)
  have gone: "i \<in> fw_id ` set (filter ?p (t_folders d)) \<Longrightarrow> i \<in> set ids" for i by auto
  have keep_f: "clear_ref (fw_id ` set (filter ?p (t_folders d))) (fw_parent_id f) = fw_parent_id f"
    if "f \<in> set (t_folders d)" "fw_id f \<notin> set ids" for f
    using subtree_closed[OF B that(1)] that(2) by (auto simp: clear_ref_def split: option.splits)
  have keep_e: "clear_ref (fw_id ` set (filter ?p (t_folders d))) (ew_folder_id e) = ew_folder_id e"
    if "\<not> ?q e" for e
    using that by (auto simp: clear_ref_def folder_in_def split: option.splits)
  have "t_folders ?d2 = filter (\<lambda>f. fw_id f \<notin> ?B) (t_folders d)"
    using keep_f by (auto simp: delete_folders_where_def Let_def folders1 B[symmetric] intro!: map_idI)
  moreover have "t_endpoints ?d2 = filter (\<lambda>e. \<not> (\<exists>i \<in> ?B. ew_folder_id e = Some i)) (t_endpoints d)"
  proof -
    have q: "?q e \<longleftrightarrow> (\<exists>i \<in> ?B. ew_folder_id e = Some i)" for e
      by (auto simp: folder_in_def B split: option.splits)
    have "t_endpoints ?d2 = map (\<lambda>e. e\<lparr>ew_folder_id := clear_ref (fw_id ` set (filter ?p (t_folders d)))
        (ew_folder_id e)\<rparr>) (filter (\<lambda>e. \<not> ?q e) (t_endpoints d))"
      by (simp only: delete_folders_where_def Let_def folders1 endpoints1) simp
    also have "\<dots> = filter (\<lambda>e. \<not> ?q e) (t_endpoints d)"
      by (rule map_idI) (use keep_e in simp)
    finally show ?thesis by (simp only: q)
  qed
  moreover have "db_inv ?d2" by (intro delete_folders_inv delete_endpoints_inv inv)
  ultimately show "\<exists>d'. r = Ok d' \<and> db_inv d' \<and>
        t_folders d' = filter (\<lambda>f. fw_id f \<notin> ?B) (t_folders d) \<and>
        t_endpoints d' = filter (\<lambda>e. \<not> (\<exists>i \<in> ?B. ew_folder_id e = Some i)) (t_endpoints d)"
    using ok by blast
qed

text \<open>
  C22: Deleting a folder returns unless some folder at or below it is its own ancestor. When it
  returns and the folder exists, exactly the folders at or below it are gone, exactly the endpoints
  in those folders are gone, and every other folder and endpoint is left as it was, with no
  reference cleared; the references of the database are intact again.
\<close>

theorem delete_folder_exact:
  assumes inv: "db_inv d" and present: "co_uuid_text C u \<in> folder_ids d"
  shows "(delete_folder C u d = None \<longleftrightarrow> cycle_below (t_folders d) (co_uuid_text C u))
    \<and> (delete_folder C u d = Some r \<longrightarrow>
      (\<exists>d'. r = Ok d' \<and> db_inv d' \<and>
        t_folders d' = filter (\<lambda>f. fw_id f \<notin> below (t_folders d) (co_uuid_text C u)) (t_folders d) \<and>
        t_endpoints d' = filter (\<lambda>e. \<not> (\<exists>i \<in> below (t_folders d) (co_uuid_text C u). ew_folder_id e = Some i))
          (t_endpoints d)))"
  by (intro conjI impI) (rule delete_folder_exact_laws[OF assms]; assumption)+

lemma delete_folder_exact_witness:
  "delete_folder demo_codec 1 (empty_db\<lparr>t_projects := [project_record (project_row demo_codec
       \<lparr>pr_id = 9, pr_name = [], pr_description = [], pr_variables = Map.empty, pr_created_at = 0,
        pr_updated_at = 0\<rparr>) 0],
     t_folders := [\<lparr>fw_id = ''1'', fw_project_id = ''9'', fw_parent_id = Some ''1'', fw_name = [],
       fw_sort_order = 0, fw_created_at = [], fw_updated_at = []\<rparr>]\<rparr>) = None"
  (is "delete_folder _ _ ?d = None")
proof -
  have "show_nat 9 = ''9''" by code_simp
  then have inv: "db_inv ?d"
    by (simp add: db_inv_def keys_ok_def fk_defs empty_db_def project_record_def project_row_def
        project_row.extend_def project_record.fields_def demo_codec_def)
  have u: "co_uuid_text demo_codec 1 = ''1''" by code_simp
  have "(''1'', ''1'') \<in> child_rel (t_folders ?d)" by (simp add: child_rel_iff)
  then have "cycle_below (t_folders ?d) ''1''"
    unfolding cycle_below_def by (intro bexI[of _ "''1''"]) auto
  then show ?thesis using delete_folder_exact[OF inv, of demo_codec 1, THEN conjunct1] u by simp
qed

end
