(* ===== verification/RepoData.thy ===== *)
theory RepoData
  imports Database Store
begin

text \<open>
  The other repositories of \<open>crates/fox-storage/src/repository\<close>: mock rules, response and request
  examples, test cases, test runs, request history with its retention, proto files, settings with
  the encrypted global variables and parameters kept in them, and queued WebSocket messages.
\<close>

section \<open>Mock rules\<close>

definition merge_mock_rule :: "mock_rule_row \<Rightarrow> mock_rule_row \<Rightarrow> mock_rule_row" where
  "merge_mock_rule old new = new\<lparr>mw_id := mw_id old, mw_created_at := mw_created_at old\<rparr>"

definition create_mock_rule ::
  "codec \<Rightarrow> uuid \<Rightarrow> mock_rule \<Rightarrow> db \<Rightarrow> (app_error, mock_rule \<times> db) result" where
  "create_mock_rule C project_id rule d =
     and_then (checked (d\<lparr>t_mock_rules :=
         upsert mw_id merge_mock_rule (mock_rule_row C rule) (t_mock_rules d)\<rparr>))
       (\<lambda>d'. Ok (rule, d'))"

definition save_mock_rules_bulk :: "codec \<Rightarrow> mock_rule list \<Rightarrow> db \<Rightarrow> (app_error, db) result" where
  "save_mock_rules_bulk C ms d =
     each_stmt (\<lambda>chunk d. checked (d\<lparr>t_mock_rules :=
         upsert_rows mw_id merge_mock_rule chunk (t_mock_rules d)\<rparr>))
       (chunks 200 (map (mock_rule_row C) ms)) d"

definition list_mock_rules :: "codec \<Rightarrow> uuid \<Rightarrow> db \<Rightarrow> (app_error, mock_rule list) result" where
  "list_mock_rules C project_id d =
     collect_results (mock_rule_model C)
       (order_asc (\<lambda>r. (- mw_priority r, mw_created_at r))
          (filter (\<lambda>r. mw_project_id r = co_uuid_text C project_id) (t_mock_rules d)))"

definition update_mock_rule ::
  "codec \<Rightarrow> mock_rule \<Rightarrow> db \<Rightarrow> (app_error, mock_rule \<times> db) result" where
  "update_mock_rule C rule d =
     (let new = mock_rule_row C rule; p = (\<lambda>r. mw_id r = mw_id new) in
      if rows_affected p (t_mock_rules d) = 0
      then Err (NotFound (Msg ''mock rule'' [co_uuid_text C (mr_id rule)]))
      else Ok (rule, d\<lparr>t_mock_rules := update_where p
        (\<lambda>r. new\<lparr>mw_id := mw_id r, mw_project_id := mw_project_id r,
                  mw_endpoint_id := mw_endpoint_id r, mw_created_at := mw_created_at r\<rparr>)
        (t_mock_rules d)\<rparr>))"

definition delete_mock_rule :: "codec \<Rightarrow> uuid \<Rightarrow> db \<Rightarrow> db" where
  "delete_mock_rule C u d =
     d\<lparr>t_mock_rules := filter (\<lambda>r. mw_id r \<noteq> co_uuid_text C u) (t_mock_rules d)\<rparr>"

definition save_mock_rule :: "codec \<Rightarrow> mock_rule \<Rightarrow> db \<Rightarrow> (app_error, db) result" where
  "save_mock_rule C rule d =
     and_then (create_mock_rule C (mr_project_id rule) rule d) (\<lambda>(_, d'). Ok d')"

section \<open>Examples\<close>

definition merge_response_example ::
  "response_example_row \<Rightarrow> response_example_row \<Rightarrow> response_example_row" where
  "merge_response_example old new = new\<lparr>xw_id := xw_id old, xw_created_at := xw_created_at old\<rparr>"

definition create_response_example ::
  "codec \<Rightarrow> uuid \<Rightarrow> response_example \<Rightarrow> db \<Rightarrow> (app_error, response_example \<times> db) result" where
  "create_response_example C endpoint_id ex d =
     and_then (checked (d\<lparr>t_response_examples :=
         upsert xw_id merge_response_example (response_example_row C ex) (t_response_examples d)\<rparr>))
       (\<lambda>d'. Ok (ex, d'))"

definition list_response_examples ::
  "codec \<Rightarrow> uuid \<Rightarrow> db \<Rightarrow> (app_error, response_example list) result" where
  "list_response_examples C endpoint_id d =
     collect_results (response_example_model C)
       (order_asc xw_created_at
          (filter (\<lambda>r. xw_endpoint_id r = co_uuid_text C endpoint_id) (t_response_examples d)))"

text \<open>\<open>map.entry(k).or_default().push(x)\<close>\<close>

definition push_entry :: "'k \<Rightarrow> 'v \<Rightarrow> ('k, 'v list) hash_map \<Rightarrow> ('k, 'v list) hash_map" where
  "push_entry k x m = m(k \<mapsto> (case m k of None \<Rightarrow> [] | Some xs \<Rightarrow> xs) @ [x])"

definition group_by_key :: "('v \<Rightarrow> 'k) \<Rightarrow> 'v list \<Rightarrow> ('k, 'v list) hash_map" where
  "group_by_key key xs = fold (\<lambda>x. push_entry (key x) x) xs Map.empty"

text \<open>One query for at most 500 endpoints; the shards are read one after the other.\<close>

definition query_in ::
  "codec \<Rightarrow> ('r \<Rightarrow> str) \<Rightarrow> ('r list \<Rightarrow> 'r list) \<Rightarrow> uuid list \<Rightarrow> 'r list \<Rightarrow> 'r list" where
  "query_in C owner order ids rows =
     concat (map (\<lambda>shard. order (filter (\<lambda>r. owner r \<in> co_uuid_text C ` set shard) rows))
       (chunks 500 ids))"

definition list_response_examples_by_endpoints ::
  "codec \<Rightarrow> uuid list \<Rightarrow> db \<Rightarrow> (app_error, (uuid, response_example list) hash_map) result" where
  "list_response_examples_by_endpoints C ids d =
     and_then (collect_results (response_example_model C)
         (query_in C xw_endpoint_id (order_asc (\<lambda>r. (xw_endpoint_id r, xw_created_at r))) ids
            (t_response_examples d)))
       (\<lambda>models. Ok (group_by_key rx_endpoint_id models))"

definition delete_response_example :: "codec \<Rightarrow> uuid \<Rightarrow> db \<Rightarrow> db" where
  "delete_response_example C u d =
     d\<lparr>t_response_examples := filter (\<lambda>r. xw_id r \<noteq> co_uuid_text C u) (t_response_examples d)\<rparr>"

definition delete_response_examples :: "codec \<Rightarrow> uuid \<Rightarrow> db \<Rightarrow> db" where
  "delete_response_examples C endpoint_id d =
     d\<lparr>t_response_examples :=
       filter (\<lambda>r. xw_endpoint_id r \<noteq> co_uuid_text C endpoint_id) (t_response_examples d)\<rparr>"

definition save_response_example :: "codec \<Rightarrow> response_example \<Rightarrow> db \<Rightarrow> (app_error, db) result" where
  "save_response_example C ex d =
     and_then (create_response_example C (rx_endpoint_id ex) ex d) (\<lambda>(_, d'). Ok d')"

definition save_response_examples_bulk ::
  "codec \<Rightarrow> response_example list \<Rightarrow> db \<Rightarrow> (app_error, db) result" where
  "save_response_examples_bulk C ms d =
     each_stmt (\<lambda>chunk d. checked (d\<lparr>t_response_examples :=
         upsert_rows xw_id merge_response_example chunk (t_response_examples d)\<rparr>))
       (chunks 200 (map (response_example_row C) ms)) d"

definition create_request_example ::
  "codec \<Rightarrow> request_example \<Rightarrow> db \<Rightarrow> (app_error, request_example \<times> db) result" where
  "create_request_example C ex d =
     and_then (request_example_row C ex) (\<lambda>r.
     and_then (insert_row qw_id r (t_request_examples d)) (\<lambda>rows.
     and_then (checked (d\<lparr>t_request_examples := rows\<rparr>)) (\<lambda>d'. Ok (ex, d'))))"

definition list_request_examples ::
  "codec \<Rightarrow> uuid \<Rightarrow> db \<Rightarrow> (app_error, request_example list) result" where
  "list_request_examples C endpoint_id d =
     collect_results (request_example_model C)
       (order_desc qw_created_at
          (filter (\<lambda>r. qw_endpoint_id r = co_uuid_text C endpoint_id) (t_request_examples d)))"

definition list_request_examples_by_endpoints ::
  "codec \<Rightarrow> uuid list \<Rightarrow> db \<Rightarrow> (app_error, (uuid, request_example list) hash_map) result" where
  "list_request_examples_by_endpoints C ids d =
     and_then (collect_results (request_example_model C)
         (query_in C qw_endpoint_id (\<lambda>rows. order_asc qw_endpoint_id (order_desc qw_created_at rows)) ids
            (t_request_examples d)))
       (\<lambda>models. Ok (group_by_key qx_endpoint_id models))"

definition delete_request_example :: "codec \<Rightarrow> uuid \<Rightarrow> db \<Rightarrow> db" where
  "delete_request_example C u d =
     d\<lparr>t_request_examples := filter (\<lambda>r. qw_id r \<noteq> co_uuid_text C u) (t_request_examples d)\<rparr>"

definition save_request_examples_bulk ::
  "codec \<Rightarrow> request_example list \<Rightarrow> db \<Rightarrow> (app_error, db) result" where
  "save_request_examples_bulk C ms d =
     and_then (collect_results (request_example_row C) ms) (\<lambda>rows.
       each_stmt (\<lambda>chunk d. and_then (insert_rows qw_id chunk (t_request_examples d))
           (\<lambda>rows. checked (d\<lparr>t_request_examples := rows\<rparr>)))
         (chunks 200 rows) d)"

section \<open>Test cases and runs\<close>

definition create_test_case :: "codec \<Rightarrow> test_case \<Rightarrow> db \<Rightarrow> (app_error, test_case \<times> db) result" where
  "create_test_case C tc d =
     and_then (test_case_row C tc) (\<lambda>r.
     and_then (insert_row cw_id r (t_test_cases d)) (\<lambda>rows.
     and_then (checked (d\<lparr>t_test_cases := rows\<rparr>)) (\<lambda>d'. Ok (tc, d'))))"

definition list_test_cases :: "codec \<Rightarrow> uuid \<Rightarrow> db \<Rightarrow> (app_error, test_case list) result" where
  "list_test_cases C request_id d =
     collect_results (test_case_model C)
       (order_asc cw_created_at
          (filter (\<lambda>r. cw_request_id r = co_uuid_text C request_id) (t_test_cases d)))"

definition list_test_cases_by_endpoints ::
  "codec \<Rightarrow> uuid list \<Rightarrow> db \<Rightarrow> (app_error, test_case list) result" where
  "list_test_cases_by_endpoints C ids d =
     collect_results (test_case_model C)
       (query_in C cw_request_id (order_asc (\<lambda>r. (cw_request_id r, cw_created_at r))) ids
          (t_test_cases d))"

definition delete_test_case :: "codec \<Rightarrow> uuid \<Rightarrow> db \<Rightarrow> db" where
  "delete_test_case C u d =
     d\<lparr>t_test_cases := filter (\<lambda>r. cw_id r \<noteq> co_uuid_text C u) (t_test_cases d)\<rparr>"

definition update_test_case_meta :: "codec \<Rightarrow> uuid \<Rightarrow> str \<Rightarrow> str \<Rightarrow> db \<Rightarrow> db" where
  "update_test_case_meta C u name category d =
     d\<lparr>t_test_cases := update_where (\<lambda>r. cw_id r = co_uuid_text C u)
         (\<lambda>r. r\<lparr>cw_name := name, cw_category := category\<rparr>) (t_test_cases d)\<rparr>"

definition update_test_case_status :: "codec \<Rightarrow> uuid \<Rightarrow> test_case_status \<Rightarrow> db \<Rightarrow> db" where
  "update_test_case_status C u status d =
     d\<lparr>t_test_cases := update_where (\<lambda>r. cw_id r = co_uuid_text C u)
         (\<lambda>r. r\<lparr>cw_last_run_status := test_case_status_as_str status\<rparr>) (t_test_cases d)\<rparr>"

definition update_test_case_content ::
  "codec \<Rightarrow> uuid \<Rightarrow> http_method \<Rightarrow> str \<Rightarrow> key_value list \<Rightarrow> key_value list \<Rightarrow> str \<Rightarrow> str \<Rightarrow> db
     \<Rightarrow> (app_error, db) result" where
  "update_test_case_content C u meth url_path params headers body_type body_content d =
     and_then (kvs_text C params) (\<lambda>ps.
     and_then (kvs_text C headers) (\<lambda>hs.
       Ok (d\<lparr>t_test_cases := update_where (\<lambda>r. cw_id r = co_uuid_text C u)
         (\<lambda>r. r\<lparr>cw_method := method_as_str meth, cw_url_path := url_path, cw_params := Some ps,
                 cw_headers := Some hs, cw_body_type := body_type,
                 cw_body_content := body_content\<rparr>) (t_test_cases d)\<rparr>)))"

definition save_test_run :: "codec \<Rightarrow> test_run \<Rightarrow> db \<Rightarrow> (app_error, db) result" where
  "save_test_run C run d =
     and_then (insert_row tw_id (test_run_row C run) (t_test_runs d))
       (\<lambda>rows. checked (d\<lparr>t_test_runs := rows\<rparr>))"

definition delete_test_run :: "codec \<Rightarrow> uuid \<Rightarrow> db \<Rightarrow> db" where
  "delete_test_run C u d =
     d\<lparr>t_test_runs := filter (\<lambda>r. tw_id r \<noteq> co_uuid_text C u) (t_test_runs d)\<rparr>"

definition list_test_runs :: "codec \<Rightarrow> uuid \<Rightarrow> int \<Rightarrow> db \<Rightarrow> (app_error, test_run list) result" where
  "list_test_runs C project_id limit d =
     collect_results (test_run_model C)
       (limit_rows limit (order_desc tw_started_at
          (filter (\<lambda>r. tw_project_id r = co_uuid_text C project_id) (t_test_runs d))))"

section \<open>Request history\<close>

definition HISTORY_RETENTION_PER_PROJECT :: int where "HISTORY_RETENTION_PER_PROJECT = 500"
definition TRIM_EVERY_INSERTS :: u64 where "TRIM_EVERY_INSERTS = 20"

type_synonym ticks = "(str, u64) hash_map"

definition bump_project_tick :: "str \<Rightarrow> ticks \<Rightarrow> u64 \<times> ticks" where
  "bump_project_tick project_id t =
     (let n = (case t project_id of None \<Rightarrow> 0 | Some n \<Rightarrow> n) + 1 in (n, t(project_id \<mapsto> n)))"

definition project_history :: "str \<Rightarrow> db \<Rightarrow> history_row list" where
  "project_history project_id d = filter (\<lambda>r. hw_project_id r = project_id) (t_histories d)"

definition trim_request_history :: "str \<Rightarrow> db \<Rightarrow> db" where
  "trim_request_history project_id d =
     (let kept = limit_rows HISTORY_RETENTION_PER_PROJECT
                   (order_desc hw_created_at (project_history project_id d))
      in d\<lparr>t_histories := filter
            (\<lambda>r. \<not> (hw_project_id r = project_id \<and> hw_id r \<notin> hw_id ` set kept)) (t_histories d)\<rparr>)"

definition save_request_history ::
  "codec \<Rightarrow> request_history \<Rightarrow> db \<times> ticks \<Rightarrow> (app_error, db \<times> ticks) result" where
  "save_request_history C m st =
     (case st of (d, t) \<Rightarrow>
       (let r = history_row C m in
        and_then (insert_row hw_id r (t_histories d)) (\<lambda>rows.
        and_then (checked (d\<lparr>t_histories := rows\<rparr>)) (\<lambda>d'.
          (case bump_project_tick (hw_project_id r) t of
             (tick, t') \<Rightarrow>
               Ok (if tick mod TRIM_EVERY_INSERTS = 1
                   then trim_request_history (hw_project_id r) d' else d', t'))))))"

definition list_request_histories ::
  "codec \<Rightarrow> uuid \<Rightarrow> uuid option \<Rightarrow> int \<Rightarrow> db \<Rightarrow> (app_error, request_history list) result" where
  "list_request_histories C project_id endpoint_id limit d =
     collect_results (history_model C)
       (limit_rows limit (order_desc hw_created_at
          (case endpoint_id of
             Some e \<Rightarrow> filter (\<lambda>r. hw_endpoint_id r = Some (co_uuid_text C e))
                         (project_history (co_uuid_text C project_id) d)
           | None \<Rightarrow> project_history (co_uuid_text C project_id) d)))"

definition clear_request_histories :: "codec \<Rightarrow> uuid \<Rightarrow> uuid option \<Rightarrow> db \<Rightarrow> nat \<times> db" where
  "clear_request_histories C project_id endpoint_id d =
     (let p = (case endpoint_id of
                 Some e \<Rightarrow> (\<lambda>r. hw_project_id r = co_uuid_text C project_id
                               \<and> hw_endpoint_id r = Some (co_uuid_text C e))
               | None \<Rightarrow> (\<lambda>r. hw_project_id r = co_uuid_text C project_id))
      in (rows_affected p (t_histories d), d\<lparr>t_histories := filter (\<lambda>r. \<not> p r) (t_histories d)\<rparr>))"

section \<open>Proto files\<close>

definition merge_proto_file :: "proto_file_row \<Rightarrow> proto_file_row \<Rightarrow> proto_file_row" where
  "merge_proto_file old new = old\<lparr>ow_name := ow_name new, ow_content := ow_content new,
     ow_updated_at := ow_updated_at new\<rparr>"

definition list_proto_files :: "codec \<Rightarrow> uuid \<Rightarrow> db \<Rightarrow> (app_error, proto_file list) result" where
  "list_proto_files C project_id d =
     collect_results (proto_file_model C)
       (order_asc ow_name
          (filter (\<lambda>r. ow_project_id r = co_uuid_text C project_id) (t_proto_files d)))"

definition delete_proto_file :: "codec \<Rightarrow> uuid \<Rightarrow> db \<Rightarrow> db" where
  "delete_proto_file C u d =
     d\<lparr>t_proto_files := filter (\<lambda>r. ow_id r \<noteq> co_uuid_text C u) (t_proto_files d)\<rparr>"

definition save_proto_files_bulk :: "codec \<Rightarrow> proto_file list \<Rightarrow> db \<Rightarrow> (app_error, db) result" where
  "save_proto_files_bulk C ms d =
     each_stmt (\<lambda>chunk d. and_then (insert_rows ow_id chunk (t_proto_files d))
         (\<lambda>rows. checked (d\<lparr>t_proto_files := rows\<rparr>)))
       (chunks 200 (map (proto_file_row C) ms)) d"

text \<open>\<open>save_proto_files\<close> runs its batches outside a transaction: on an error the batches before
  stay. The error carries the database it leaves.\<close>

fun each_committed ::
  "('a \<Rightarrow> db \<Rightarrow> (app_error, db) result) \<Rightarrow> 'a list \<Rightarrow> db \<Rightarrow> app_error option \<times> db" where
  "each_committed f [] d = (None, d)"
| "each_committed f (x # xs) d =
     (case f x d of Inl e \<Rightarrow> (Some e, d) | Inr d' \<Rightarrow> each_committed f xs d')"

definition save_proto_files :: "codec \<Rightarrow> proto_file list \<Rightarrow> db \<Rightarrow> app_error option \<times> db" where
  "save_proto_files C ms d =
     each_committed (\<lambda>chunk d. checked (d\<lparr>t_proto_files :=
         upsert_rows ow_id merge_proto_file chunk (t_proto_files d)\<rparr>))
       (chunks 200 (map (proto_file_row C) ms)) d"

section \<open>Settings\<close>

definition set_setting :: "str \<Rightarrow> str \<Rightarrow> db \<Rightarrow> db" where
  "set_setting key v d =
     d\<lparr>t_settings := upsert fst (\<lambda>old new. (fst old, snd new)) (key, v) (t_settings d)\<rparr>"

definition get_setting :: "db \<Rightarrow> str \<Rightarrow> str option" where
  "get_setting d key = map_option snd (fetch_optional (\<lambda>r. fst r = key) (t_settings d))"

definition get_settings :: "db \<Rightarrow> str list \<Rightarrow> (str, str) hash_map" where
  "get_settings d keys =
     fold (\<lambda>shard out. insert_all (filter (\<lambda>r. fst r \<in> set shard) (t_settings d)) out)
       (chunks 500 keys) Map.empty"

definition get_global_variables :: "codec \<Rightarrow> db \<Rightarrow> (app_error, environment_variable list) result" where
  "get_global_variables C d =
     (case get_setting d ''global_variables'' of
        None \<Rightarrow> Ok []
      | Some blob \<Rightarrow>
          (case decrypt_env_json C blob of
             Inr v \<Rightarrow> variables_from_value C v
           | Inl _ \<Rightarrow> Ok []))"

definition save_global_variables :: "codec \<Rightarrow> str \<Rightarrow> environment_variable list \<Rightarrow> db \<Rightarrow> db" where
  "save_global_variables C nonce vars d =
     set_setting ''global_variables'' (encrypt_env_json C nonce vars) d"

definition get_global_params :: "codec \<Rightarrow> db \<Rightarrow> (app_error, global_param list) result" where
  "get_global_params C d =
     (case get_setting d ''global_params'' of
        None \<Rightarrow> Ok []
      | Some blob \<Rightarrow>
          (case decrypt_env_json C blob of
             Inr v \<Rightarrow> Ok (ok_or [] (de_value (co_params C) v))
           | Inl _ \<Rightarrow> Ok []))"

definition encrypt_env_json_params :: "codec \<Rightarrow> str \<Rightarrow> global_param list \<Rightarrow> str" where
  "encrypt_env_json_params C nonce params =
     encrypt_text C nonce (ok_or ''[]'' (ser (co_params C) params))"

definition save_global_params :: "codec \<Rightarrow> str \<Rightarrow> global_param list \<Rightarrow> db \<Rightarrow> db" where
  "save_global_params C nonce params d =
     set_setting ''global_params'' (encrypt_env_json_params C nonce params) d"

section \<open>Queued WebSocket messages\<close>

definition enqueue_ws_message ::
  "codec \<Rightarrow> uuid \<Rightarrow> datetime \<Rightarrow> str \<Rightarrow> ws_message_type \<Rightarrow> str \<Rightarrow> db
     \<Rightarrow> (app_error, ws_message_record \<times> db) result" where
  "enqueue_ws_message C new_id now target ty payload d =
     (let r = \<lparr>wr_id = new_id, wr_message_type = ty, wr_payload = payload, wr_created_at = now\<rparr>;
          row = \<lparr>sw_id = co_uuid_text C new_id, sw_message_type = ws_message_type_as_str ty,
                 sw_payload = payload, sw_created_at = co_time_text C now, sw_target = target\<rparr>
      in and_then (insert_row sw_id row (t_ws_messages d)) (\<lambda>rows.
           Ok (r, d\<lparr>t_ws_messages := rows\<rparr>)))"

definition list_pending_ws_messages ::
  "codec \<Rightarrow> str \<Rightarrow> db \<Rightarrow> (app_error, ws_message_record list) result" where
  "list_pending_ws_messages C target d =
     collect_results (ws_message_model C)
       (order_asc sw_created_at (filter (\<lambda>r. sw_target r = target) (t_ws_messages d)))"

definition delete_ws_messages :: "codec \<Rightarrow> uuid list \<Rightarrow> db \<Rightarrow> db" where
  "delete_ws_messages C ids d =
     (if ids = [] then d
      else d\<lparr>t_ws_messages := filter (\<lambda>r. sw_id r \<notin> co_uuid_text C ` set ids) (t_ws_messages d)\<rparr>)"

definition purge_expired_ws_messages ::
  "codec \<Rightarrow> datetime \<Rightarrow> str \<Rightarrow> int \<Rightarrow> db \<Rightarrow> nat \<times> db" where
  "purge_expired_ws_messages C now target retention d =
     (let cutoff = co_time_text C (now - retention);
          p = (\<lambda>r. sw_target r = target \<and> sw_created_at r < cutoff)
      in (rows_affected p (t_ws_messages d),
          d\<lparr>t_ws_messages := filter (\<lambda>r. \<not> p r) (t_ws_messages d)\<rparr>))"

end
