(* ===== verification/RepoLaws.thy ===== *)
theory RepoLaws
  imports Subtree RepoData "HOL-Library.Multiset"
begin

text \<open>
  What the repositories promise together: batches do what single writes do, every operation keeps
  the keys distinct and the references intact, the history of a project stays bounded, a
  reordering of projects is all or nothing, and settings behave as a keyed store.
\<close>

section \<open>The tables as instances of the upsert interface\<close>

lemma merge_keys [simp]:
  "keeps_key pw_id merge_project" "keeps_key fw_id merge_folder" "keeps_key ew_id merge_endpoint"
  "keeps_key nw_id merge_environment" "keeps_key mw_id merge_mock_rule"
  "keeps_key xw_id merge_response_example" "keeps_key ow_id merge_proto_file"
  "keeps_key fst (\<lambda>old new. (fst old, snd new))"
  by (simp_all add: keeps_key_def merge_project_def merge_folder_def merge_endpoint_def
      merge_environment_def merge_mock_rule_def merge_response_example_def merge_proto_file_def)

interpretation folders: upserted fw_id merge_folder t_folders "\<lambda>rs d. d\<lparr>t_folders := rs\<rparr>"
  by unfold_locales simp_all

interpretation endpoints: upserted ew_id merge_endpoint t_endpoints "\<lambda>rs d. d\<lparr>t_endpoints := rs\<rparr>"
  by unfold_locales simp_all

interpretation environments: upserted nw_id merge_environment t_environments
  "\<lambda>rs d. d\<lparr>t_environments := rs\<rparr>"
  by unfold_locales simp_all

interpretation mock_rules: upserted mw_id merge_mock_rule t_mock_rules "\<lambda>rs d. d\<lparr>t_mock_rules := rs\<rparr>"
  by unfold_locales simp_all

interpretation response_examples: upserted xw_id merge_response_example t_response_examples
  "\<lambda>rs d. d\<lparr>t_response_examples := rs\<rparr>"
  by unfold_locales simp_all

interpretation projects: upserted pw_id merge_project t_projects "\<lambda>rs d. d\<lparr>t_projects := rs\<rparr>"
  by unfold_locales simp_all

lemma save_folder_put: "save_folder C = (\<lambda>m. folders.put_row (folder_row C m))"
  by (simp add: fun_eq_iff save_folder_def folders.put_row_def)

lemma save_as_put:
  "save_folder C m = folders.put_row (folder_row C m)"
  "save_endpoint C nonces e = endpoints.put_row (endpoint_row C nonces e)"
  "save_project C p = projects.put_row (project_record (project_row C p) 0)"
  by (simp_all add: fun_eq_iff save_folder_def folders.put_row_def save_endpoint_def
      endpoints.put_row_def save_project_def projects.put_row_def)

lemma bulk_as_batches:
  "save_folders_bulk C ms = each_stmt folders.batch (chunks 200 (map (folder_row C) ms))"
  "save_endpoints_bulk C nonces es
     = each_stmt endpoints.batch (chunks 200 (map (\<lambda>(i, m). endpoint_row C (nonces i) m) (indexed es)))"
  "save_environments_bulk C ns vs
     = each_stmt environments.batch (chunks 200 (map (\<lambda>(i, m). environment_row C (ns i) m) (indexed vs)))"
  "save_mock_rules_bulk C rs = each_stmt mock_rules.batch (chunks 200 (map (mock_rule_row C) rs))"
  "save_response_examples_bulk C xs
     = each_stmt response_examples.batch (chunks 200 (map (response_example_row C) xs))"
  by (simp_all add: fun_eq_iff save_folders_bulk_def save_endpoints_bulk_def
      save_environments_bulk_def save_mock_rules_bulk_def save_response_examples_bulk_def
      folders.batch_def[abs_def] endpoints.batch_def[abs_def] environments.batch_def[abs_def]
      mock_rules.batch_def[abs_def] response_examples.batch_def[abs_def])

lemma bulk_equals_single_laws:
  shows "each_stmt (save_folder C) ms d = Ok d' \<Longrightarrow> save_folders_bulk C ms d = Ok d'"
    and "each_stmt (\<lambda>(i, m). save_endpoint C (nonces i) m) (indexed es) d = Ok d'' \<Longrightarrow>
        save_endpoints_bulk C nonces es d = Ok d''"
    and "save_folders_bulk C ms d = Ok d1 \<Longrightarrow>
        d1 = d\<lparr>t_folders := upsert_rows fw_id merge_folder (map (folder_row C) ms) (t_folders d)\<rparr>"
proof -
  show "save_folders_bulk C ms d = Ok d'" if "each_stmt (save_folder C) ms d = Ok d'"
    using that folders.bulk_of_writes[of "map (folder_row C) ms" d d']
    by (simp add: bulk_as_batches save_folder_put each_stmt_map)
  have "(\<lambda>(i, m). save_endpoint C (nonces i) m) = (\<lambda>x. endpoints.put_row ((\<lambda>(i, m). endpoint_row C (nonces i) m) x))"
    by (auto simp: save_as_put)
  then show "save_endpoints_bulk C nonces es d = Ok d''"
    if "each_stmt (\<lambda>(i, m). save_endpoint C (nonces i) m) (indexed es) d = Ok d''"
    using that endpoints.bulk_of_writes[of "map (\<lambda>(i, m). endpoint_row C (nonces i) m) (indexed es)" d d'']
    by (simp add: bulk_as_batches each_stmt_map)
  show "d1 = d\<lparr>t_folders := upsert_rows fw_id merge_folder (map (folder_row C) ms) (t_folders d)\<rparr>"
    if "save_folders_bulk C ms d = Ok d1"
    using that folders.bulk_upsert[of "map (folder_row C) ms" d d1] by (simp add: bulk_as_batches)
qed

text \<open>
  A batch write means what the writes one by one mean: when every single upsert of a list of
  folders (or of endpoints, each with the nonces it draws) succeeds in turn, the batch of two
  hundred rows a statement succeeds with the same database; and whenever a batch succeeds, the
  table is the one the upserts in turn produce.
\<close>

theorem bulk_equals_single:
  shows "(each_stmt (save_folder C) ms d = Ok d' \<longrightarrow> save_folders_bulk C ms d = Ok d')
    \<and> (each_stmt (\<lambda>(i, m). save_endpoint C (nonces i) m) (indexed es) d = Ok d'' \<longrightarrow>
        save_endpoints_bulk C nonces es d = Ok d'')
    \<and> (save_folders_bulk C ms d = Ok d1 \<longrightarrow>
        d1 = d\<lparr>t_folders := upsert_rows fw_id merge_folder (map (folder_row C) ms) (t_folders d)\<rparr>)"
  by (intro conjI impI) (rule bulk_equals_single_laws; assumption)+

section \<open>Written folders and endpoints are found\<close>

lemma saved_folder_found_laws:
  assumes "codec_lawful C" "save_folder C m d = Ok d'"
  shows "get_folder C (fo_id m) d' =
      (case fetch_optional (\<lambda>r. fw_id r = co_uuid_text C (fo_id m)) (t_folders d) of
         None \<Rightarrow> Ok m
       | Some r \<Rightarrow> and_then (parse_time C (fw_created_at r)) (\<lambda>t. Ok (m\<lparr>fo_created_at := t\<rparr>)))"
    and "u \<noteq> fo_id m \<Longrightarrow> get_folder C u d' = get_folder C u d"
    and "d' = d\<lparr>t_folders := t_folders d'\<rparr>"
proof -
  have put: "folders.put_row (folder_row C m) d = Ok d'"
    using assms(2) by (simp add: save_folder_put)
  have key: "fw_id (folder_row C m) = co_uuid_text C (fo_id m)" by (simp add: folder_row_def)
  let ?old = "find (\<lambda>r. fw_id r = co_uuid_text C (fo_id m)) (t_folders d)"
  have found: "find (\<lambda>r. fw_id r = co_uuid_text C (fo_id m)) (t_folders d')
      = Some (case ?old of None \<Rightarrow> folder_row C m | Some old \<Rightarrow> merge_folder old (folder_row C m))"
    using folders.written_found[OF put] by (simp add: key)
  show "get_folder C (fo_id m) d' =
      (case fetch_optional (\<lambda>r. fw_id r = co_uuid_text C (fo_id m)) (t_folders d) of
         None \<Rightarrow> Ok m
       | Some r \<Rightarrow> and_then (parse_time C (fw_created_at r)) (\<lambda>t. Ok (m\<lparr>fo_created_at := t\<rparr>)))"
  proof (cases ?old)
    case None
    with found show ?thesis
      by (simp add: get_folder_def fetch_optional_def folder_roundtrip[OF assms(1)])
  next
    case (Some old)
    then have "fw_id old = co_uuid_text C (fo_id m)" by (metis (mono_tags) find_Some_iff)
    with found Some show ?thesis
      using assms(1) by (cases m; cases "parse_time C (fw_created_at old)")
        (simp_all add: get_folder_def fetch_optional_def folder_model_def merge_folder_def folder_row_def)
  qed
  show "get_folder C u d' = get_folder C u d" if "u \<noteq> fo_id m"
    using folders.others_kept[OF put, of "co_uuid_text C u"] that uuid_text_inject[OF assms(1)]
    by (simp add: key get_folder_def fetch_optional_def)
  show "d' = d\<lparr>t_folders := t_folders d'\<rparr>"
    using assms(2) by (auto simp: save_folder_def checked_Ok)
qed

text \<open>
  What was saved is what is read. After a folder is saved it is read back under its id, with
  the creation time of the row it replaced if there was one, and every other id reads as before;
  the other tables are not touched.
\<close>

theorem saved_folder_found:
  assumes "codec_lawful C" "save_folder C m d = Ok d'"
  shows "(get_folder C (fo_id m) d' =
      (case fetch_optional (\<lambda>r. fw_id r = co_uuid_text C (fo_id m)) (t_folders d) of
         None \<Rightarrow> Ok m
       | Some r \<Rightarrow> and_then (parse_time C (fw_created_at r)) (\<lambda>t. Ok (m\<lparr>fo_created_at := t\<rparr>))))
    \<and> (u \<noteq> fo_id m \<longrightarrow> get_folder C u d' = get_folder C u d)
    \<and> (d' = d\<lparr>t_folders := t_folders d'\<rparr>)"
  by (intro conjI impI) (rule saved_folder_found_laws[OF assms]; assumption)+

section \<open>Every operation keeps the database intact\<close>

text \<open>The operations that change the database, with every argument and random choice free.\<close>

inductive repo_step :: "codec \<Rightarrow> db \<Rightarrow> db \<Rightarrow> bool" for C where
  "create_project C u now n ds d = Ok (m, d') \<Longrightarrow> repo_step C d d'"
| "update_projects_order C us d = Ok d' \<Longrightarrow> repo_step C d d'"
| "update_project C now p d = Ok (p', d') \<Longrightarrow> repo_step C d d'"
| "repo_step C d (delete_project C u d)"
| "save_project C p d = Ok d' \<Longrightarrow> repo_step C d d'"
| "create_folder C u now pid parent n d = Ok (f, d') \<Longrightarrow> repo_step C d d'"
| "update_folder C f d = Ok (f', d') \<Longrightarrow> repo_step C d d'"
| "delete_folder C u d = Some (Ok d') \<Longrightarrow> repo_step C d d'"
| "save_folder C f d = Ok d' \<Longrightarrow> repo_step C d d'"
| "save_folders_bulk C fs d = Ok d' \<Longrightarrow> repo_step C d d'"
| "create_endpoint C nonces u now touched pid fid n d = Ok (e, d') \<Longrightarrow> repo_step C d d'"
| "update_endpoint C nonces now touched e d = Ok (e', d') \<Longrightarrow> repo_step C d d'"
| "repo_step C d (delete_endpoint C now u d)"
| "duplicate_endpoint C nonces u now touched src d = Ok (e, d') \<Longrightarrow> repo_step C d d'"
| "save_endpoint C nonces e d = Ok d' \<Longrightarrow> repo_step C d d'"
| "save_endpoints_bulk C nonces2 es d = Ok d' \<Longrightarrow> repo_step C d d'"
| "create_environment C nonce u now pid n b vars d = Ok (v, d') \<Longrightarrow> repo_step C d d'"
| "update_environment C nonce now v d = Ok (v', d') \<Longrightarrow> repo_step C d d'"
| "repo_step C d (delete_environment C u d)"
| "save_environment C nonce v d = Ok (v', d') \<Longrightarrow> repo_step C d d'"
| "save_environments_bulk C nonces vs d = Ok d' \<Longrightarrow> repo_step C d d'"
| "create_mock_rule C pid r d = Ok (r', d') \<Longrightarrow> repo_step C d d'"
| "save_mock_rules_bulk C rs d = Ok d' \<Longrightarrow> repo_step C d d'"
| "update_mock_rule C r d = Ok (r', d') \<Longrightarrow> repo_step C d d'"
| "repo_step C d (delete_mock_rule C u d)"
| "create_response_example C eid x d = Ok (x', d') \<Longrightarrow> repo_step C d d'"
| "repo_step C d (delete_response_example C u d)"
| "repo_step C d (delete_response_examples C u d)"
| "save_response_examples_bulk C xs d = Ok d' \<Longrightarrow> repo_step C d d'"
| "create_request_example C q d = Ok (q', d') \<Longrightarrow> repo_step C d d'"
| "repo_step C d (delete_request_example C u d)"
| "save_request_examples_bulk C qs d = Ok d' \<Longrightarrow> repo_step C d d'"
| "create_test_case C t d = Ok (t', d') \<Longrightarrow> repo_step C d d'"
| "repo_step C d (delete_test_case C u d)"
| "repo_step C d (update_test_case_meta C u n cat d)"
| "repo_step C d (update_test_case_status C u st d)"
| "update_test_case_content C u meth path ps hs bt bc d = Ok d' \<Longrightarrow> repo_step C d d'"
| "save_test_run C run d = Ok d' \<Longrightarrow> repo_step C d d'"
| "repo_step C d (delete_test_run C u d)"
| "save_request_history C h (d, t) = Ok (d', t'') \<Longrightarrow> repo_step C d d'"
| "repo_step C d (snd (clear_request_histories C pid eid d))"
| "repo_step C d (delete_proto_file C u d)"
| "save_proto_files_bulk C os d = Ok d' \<Longrightarrow> repo_step C d d'"
| "repo_step C d (snd (save_proto_files C os d))"
| "repo_step C d (set_setting k v' d)"
| "enqueue_ws_message C u now target ty payload d = Ok (r, d') \<Longrightarrow> repo_step C d d'"
| "repo_step C d (delete_ws_messages C ids d)"
| "repo_step C d (snd (purge_expired_ws_messages C now target retention d))"

text \<open>One table at a time: what a new value of a table must satisfy.\<close>

lemma inv_tables [inv_rules]:
  assumes "db_inv d"
  shows "distinct (map pw_id ps) \<Longrightarrow> fk_ok (d\<lparr>t_projects := ps\<rparr>) \<Longrightarrow> db_inv (d\<lparr>t_projects := ps\<rparr>)"
    "distinct (map fw_id fs) \<Longrightarrow> fk_ok (d\<lparr>t_folders := fs\<rparr>) \<Longrightarrow> db_inv (d\<lparr>t_folders := fs\<rparr>)"
    "distinct (map ew_id es) \<Longrightarrow> fk_ok (d\<lparr>t_endpoints := es\<rparr>) \<Longrightarrow> db_inv (d\<lparr>t_endpoints := es\<rparr>)"
    "distinct (map nw_id vs) \<Longrightarrow> fk_ok (d\<lparr>t_environments := vs\<rparr>) \<Longrightarrow> db_inv (d\<lparr>t_environments := vs\<rparr>)"
    "distinct (map mw_id rs) \<Longrightarrow> fk_ok (d\<lparr>t_mock_rules := rs\<rparr>) \<Longrightarrow> db_inv (d\<lparr>t_mock_rules := rs\<rparr>)"
    "distinct (map xw_id xs) \<Longrightarrow> fk_ok (d\<lparr>t_response_examples := xs\<rparr>) \<Longrightarrow> db_inv (d\<lparr>t_response_examples := xs\<rparr>)"
    "distinct (map qw_id qs) \<Longrightarrow> fk_ok (d\<lparr>t_request_examples := qs\<rparr>) \<Longrightarrow> db_inv (d\<lparr>t_request_examples := qs\<rparr>)"
    "distinct (map cw_id cs) \<Longrightarrow> fk_ok (d\<lparr>t_test_cases := cs\<rparr>) \<Longrightarrow> db_inv (d\<lparr>t_test_cases := cs\<rparr>)"
    "distinct (map tw_id ts) \<Longrightarrow> fk_ok (d\<lparr>t_test_runs := ts\<rparr>) \<Longrightarrow> db_inv (d\<lparr>t_test_runs := ts\<rparr>)"
    "distinct (map hw_id hs) \<Longrightarrow> fk_ok (d\<lparr>t_histories := hs\<rparr>) \<Longrightarrow> db_inv (d\<lparr>t_histories := hs\<rparr>)"
    "distinct (map ow_id os) \<Longrightarrow> fk_ok (d\<lparr>t_proto_files := os\<rparr>) \<Longrightarrow> db_inv (d\<lparr>t_proto_files := os\<rparr>)"
    "distinct (map fst ss) \<Longrightarrow> db_inv (d\<lparr>t_settings := ss\<rparr>)"
    "distinct (map sw_id ws) \<Longrightarrow> db_inv (d\<lparr>t_ws_messages := ws\<rparr>)"
  using assms by (simp_all add: db_inv_def keys_ok_def fk_defs)

lemma inv_keys:
  assumes "db_inv d"
  shows "distinct (map pw_id (t_projects d))" "distinct (map fw_id (t_folders d))"
    "distinct (map ew_id (t_endpoints d))" "distinct (map nw_id (t_environments d))"
    "distinct (map mw_id (t_mock_rules d))" "distinct (map xw_id (t_response_examples d))"
    "distinct (map qw_id (t_request_examples d))" "distinct (map cw_id (t_test_cases d))"
    "distinct (map tw_id (t_test_runs d))" "distinct (map hw_id (t_histories d))"
    "distinct (map ow_id (t_proto_files d))" "distinct (map fst (t_settings d))"
    "distinct (map sw_id (t_ws_messages d))" "fk_ok d"
  using assms by (simp_all add: db_inv_def keys_ok_def)

text \<open>Removing rows nobody refers to, and changing columns that are no references, keep the references.\<close>

lemma fk_frames:
  assumes "fk_ok d"
  shows "set rs \<subseteq> set (t_mock_rules d) \<Longrightarrow> fk_ok (d\<lparr>t_mock_rules := rs\<rparr>)"
    "set xs \<subseteq> set (t_response_examples d) \<Longrightarrow> fk_ok (d\<lparr>t_response_examples := xs\<rparr>)"
    "set qs \<subseteq> set (t_request_examples d) \<Longrightarrow> fk_ok (d\<lparr>t_request_examples := qs\<rparr>)"
    "set cs \<subseteq> set (t_test_cases d) \<Longrightarrow> fk_ok (d\<lparr>t_test_cases := cs\<rparr>)"
    "set ts \<subseteq> set (t_test_runs d) \<Longrightarrow> fk_ok (d\<lparr>t_test_runs := ts\<rparr>)"
    "set hs \<subseteq> set (t_histories d) \<Longrightarrow> fk_ok (d\<lparr>t_histories := hs\<rparr>)"
    "set os \<subseteq> set (t_proto_files d) \<Longrightarrow> fk_ok (d\<lparr>t_proto_files := os\<rparr>)"
    "pw_id ` set ps = pw_id ` set (t_projects d) \<Longrightarrow> fk_ok (d\<lparr>t_projects := ps\<rparr>)"
  using assms by (auto simp: fk_defs subset_iff)

lemma fk_updates:
  assumes "fk_ok d"
  shows "(\<And>r. mw_project_id (f r) = mw_project_id r \<and> mw_endpoint_id (f r) = mw_endpoint_id r) \<Longrightarrow>
      fk_ok (d\<lparr>t_mock_rules := update_where p f (t_mock_rules d)\<rparr>)"
    "(\<And>r. cw_request_id (g r) = cw_request_id r) \<Longrightarrow>
      fk_ok (d\<lparr>t_test_cases := update_where q g (t_test_cases d)\<rparr>)"
  using assms by (auto simp: fk_defs update_where_def)

lemma distinct_update_where:
  "(\<And>r. key (f r) = key r) \<Longrightarrow> distinct (map key rows) \<Longrightarrow> distinct (map key (update_where p f rows))"
  by (simp add: update_where_keys)

lemma update_projects_inv:
  "(\<And>r. pw_id (f r) = pw_id r) \<Longrightarrow> db_inv d \<Longrightarrow>
     db_inv (d\<lparr>t_projects := update_where p f (t_projects d)\<rparr>)"
  by (intro inv_tables fk_frames distinct_update_where) (simp_all add: inv_keys update_where_ids)

lemma touch_inv [inv_rules]: "db_inv d \<Longrightarrow> db_inv (touch_project C now pid d)"
  by (simp add: touch_project_def update_projects_inv)

lemma order_projects_inv: "order_projects C i us d = Ok d' \<Longrightarrow> db_inv d \<Longrightarrow> db_inv d'"
proof (induction C i us d rule: order_projects.induct)
  case (2 C i u us d)
  let ?d1 = "d\<lparr>t_projects := update_where (\<lambda>r. pw_id r = co_uuid_text C u)
      (\<lambda>r. r\<lparr>pw_sort_order := int i\<rparr>) (t_projects d)\<rparr>"
  have "db_inv ?d1"
    using 2(3) by (simp add: update_projects_inv)
  with 2(1)[OF refl] 2(2) show ?case by (simp add: Let_def split: if_splits)
qed simp

lemma insert_endpoint_inv: "insert_endpoint C nonces touched m d = Ok (e, d') \<Longrightarrow> db_inv d \<Longrightarrow> db_inv d'"
  by (auto simp: insert_endpoint_def and_then_eq_Inr checked_Ok dest!: insert_row_distinct
      intro!: touch_inv inv_tables inv_keys)

lemma project_ops_inv:
  "create_project C u now n ds d = Ok (m, d') \<Longrightarrow> db_inv d \<Longrightarrow> db_inv d'"
  "update_project C now p d = Ok (p', d') \<Longrightarrow> db_inv d \<Longrightarrow> db_inv d'"
  "save_project C p d = Ok d' \<Longrightarrow> db_inv d \<Longrightarrow> db_inv d'"
proof -
  show "create_project C u now n ds d = Ok (m, d') \<Longrightarrow> db_inv d \<Longrightarrow> db_inv d'"
    by (auto simp: create_project_def Let_def and_then_eq_Inr checked_Ok dest!: insert_row_distinct
        intro!: inv_tables inv_keys)
  have "pw_id (merge_project a b) = pw_id a" for a b by (simp add: merge_project_def)
  then show "update_project C now p d = Ok (p', d') \<Longrightarrow> db_inv d \<Longrightarrow> db_inv d'"
    by (auto simp: update_project_def Let_def split: if_splits intro!: update_projects_inv)
  show "save_project C p d = Ok d' \<Longrightarrow> db_inv d \<Longrightarrow> db_inv d'"
    by (auto simp: save_project_def checked_Ok inv_keys intro!: inv_tables upsert_distinct)
qed

lemma folder_ops_inv:
  "create_folder C u now pid parent n d = Ok (f, d') \<Longrightarrow> db_inv d \<Longrightarrow> db_inv d'"
  "update_folder C g d = Ok (g', d') \<Longrightarrow> db_inv d \<Longrightarrow> db_inv d'"
  "delete_folder C u d = Some (Ok d') \<Longrightarrow> db_inv d \<Longrightarrow> db_inv d'"
  "save_folder C g d = Ok d' \<Longrightarrow> db_inv d \<Longrightarrow> db_inv d'"
  "save_folders_bulk C gs d = Ok d' \<Longrightarrow> db_inv d \<Longrightarrow> db_inv d'"
proof -
  show "create_folder C u now pid parent n d = Ok (f, d') \<Longrightarrow> db_inv d \<Longrightarrow> db_inv d'"
    by (auto simp: create_folder_def Let_def and_then_eq_Inr checked_Ok dest!: insert_row_distinct
        intro!: inv_tables inv_keys)
  show "update_folder C g d = Ok (g', d') \<Longrightarrow> db_inv d \<Longrightarrow> db_inv d'"
    by (auto simp: update_folder_def Let_def and_then_eq_Inr checked_Ok inv_keys
        intro!: inv_tables distinct_update_where)
  show "delete_folder C u d = Some (Ok d') \<Longrightarrow> db_inv d \<Longrightarrow> db_inv d'"
    by (auto simp: delete_folder_def Let_def split: option.splits if_splits
        intro!: delete_folders_inv delete_endpoints_inv)
  show "save_folder C g d = Ok d' \<Longrightarrow> db_inv d \<Longrightarrow> db_inv d'"
    by (auto simp: save_folder_def checked_Ok inv_keys intro!: inv_tables upsert_distinct)
  show "save_folders_bulk C gs d = Ok d' \<Longrightarrow> db_inv d \<Longrightarrow> db_inv d'"
    unfolding bulk_as_batches
    by (erule each_stmt_inv[where P = db_inv, rotated])
       (auto simp: folders.batch_def checked_Ok inv_keys intro!: inv_tables upsert_rows_distinct)
qed

lemma endpoint_ops_inv:
  "create_endpoint C nonces u now touched pid fid n d = Ok (e, d') \<Longrightarrow> db_inv d \<Longrightarrow> db_inv d'"
  "update_endpoint C nonces now touched e d = Ok (e', d') \<Longrightarrow> db_inv d \<Longrightarrow> db_inv d'"
  "db_inv d \<Longrightarrow> db_inv (delete_endpoint C now u d)"
  "duplicate_endpoint C nonces u now touched src d = Ok (e, d') \<Longrightarrow> db_inv d \<Longrightarrow> db_inv d'"
  "save_endpoint C nonces e d = Ok d' \<Longrightarrow> db_inv d \<Longrightarrow> db_inv d'"
  "save_endpoints_bulk C nonces2 es d = Ok d' \<Longrightarrow> db_inv d \<Longrightarrow> db_inv d'"
proof -
  show "create_endpoint C nonces u now touched pid fid n d = Ok (e, d') \<Longrightarrow> db_inv d \<Longrightarrow> db_inv d'"
    by (auto simp: create_endpoint_def dest: insert_endpoint_inv)
  show "update_endpoint C nonces now touched e d = Ok (e', d') \<Longrightarrow> db_inv d \<Longrightarrow> db_inv d'"
    by (auto simp: update_endpoint_def Let_def and_then_eq_Inr checked_Ok inv_keys split: if_splits
        intro!: touch_inv inv_tables distinct_update_where)
  show "db_inv d \<Longrightarrow> db_inv (delete_endpoint C now u d)"
    by (auto simp: delete_endpoint_def Let_def split: option.splits intro!: delete_endpoints_inv touch_inv)
  show "duplicate_endpoint C nonces u now touched src d = Ok (e, d') \<Longrightarrow> db_inv d \<Longrightarrow> db_inv d'"
    by (auto simp: duplicate_endpoint_def and_then_eq_Inr dest: insert_endpoint_inv)
  show "save_endpoint C nonces e d = Ok d' \<Longrightarrow> db_inv d \<Longrightarrow> db_inv d'"
    by (auto simp: save_endpoint_def checked_Ok inv_keys intro!: inv_tables upsert_distinct)
  show "save_endpoints_bulk C nonces2 es d = Ok d' \<Longrightarrow> db_inv d \<Longrightarrow> db_inv d'"
    unfolding bulk_as_batches
    by (erule each_stmt_inv[where P = db_inv, rotated])
       (auto simp: endpoints.batch_def checked_Ok inv_keys intro!: inv_tables upsert_rows_distinct)
qed

lemma environment_ops_inv:
  "create_environment C nonce u now pid n b vars d = Ok (v, d') \<Longrightarrow> db_inv d \<Longrightarrow> db_inv d'"
  "update_environment C nonce now v d = Ok (v', d') \<Longrightarrow> db_inv d \<Longrightarrow> db_inv d'"
  "db_inv d \<Longrightarrow> db_inv (delete_environment C u d)"
  "save_environment C nonce v d = Ok (v', d') \<Longrightarrow> db_inv d \<Longrightarrow> db_inv d'"
  "save_environments_bulk C nonces vs d = Ok d' \<Longrightarrow> db_inv d \<Longrightarrow> db_inv d'"
proof -
  show "create_environment C nonce u now pid n b vars d = Ok (v, d') \<Longrightarrow> db_inv d \<Longrightarrow> db_inv d'"
    by (auto simp: create_environment_def Let_def and_then_eq_Inr checked_Ok dest!: insert_row_distinct
        intro!: inv_tables inv_keys)
  have "nw_id (merge_environment a b) = nw_id a" for a b by (simp add: merge_environment_def)
  then show "update_environment C nonce now v d = Ok (v', d') \<Longrightarrow> db_inv d \<Longrightarrow> db_inv d'"
    by (auto simp: update_environment_def Let_def and_then_eq_Inr checked_Ok inv_keys split: if_splits
        intro!: inv_tables distinct_update_where)
  show "db_inv d \<Longrightarrow> db_inv (delete_environment C u d)"
    by (simp add: delete_environment_def delete_environments_inv)
  show "save_environment C nonce v d = Ok (v', d') \<Longrightarrow> db_inv d \<Longrightarrow> db_inv d'"
    by (auto simp: save_environment_def and_then_eq_Inr checked_Ok inv_keys intro!: inv_tables upsert_distinct)
  show "save_environments_bulk C nonces vs d = Ok d' \<Longrightarrow> db_inv d \<Longrightarrow> db_inv d'"
    unfolding bulk_as_batches
    by (erule each_stmt_inv[where P = db_inv, rotated])
       (auto simp: environments.batch_def checked_Ok inv_keys intro!: inv_tables upsert_rows_distinct)
qed

lemma mock_ops_inv:
  "create_mock_rule C pid r d = Ok (r', d') \<Longrightarrow> db_inv d \<Longrightarrow> db_inv d'"
  "save_mock_rules_bulk C rs d = Ok d' \<Longrightarrow> db_inv d \<Longrightarrow> db_inv d'"
  "update_mock_rule C r d = Ok (r', d') \<Longrightarrow> db_inv d \<Longrightarrow> db_inv d'"
  "db_inv d \<Longrightarrow> db_inv (delete_mock_rule C u d)"
proof -
  show "create_mock_rule C pid r d = Ok (r', d') \<Longrightarrow> db_inv d \<Longrightarrow> db_inv d'"
    by (auto simp: create_mock_rule_def and_then_eq_Inr checked_Ok inv_keys intro!: inv_tables upsert_distinct)
  show "save_mock_rules_bulk C rs d = Ok d' \<Longrightarrow> db_inv d \<Longrightarrow> db_inv d'"
    unfolding bulk_as_batches
    by (erule each_stmt_inv[where P = db_inv, rotated])
       (auto simp: mock_rules.batch_def checked_Ok inv_keys intro!: inv_tables upsert_rows_distinct)
  show "update_mock_rule C r d = Ok (r', d') \<Longrightarrow> db_inv d \<Longrightarrow> db_inv d'"
    by (auto simp: update_mock_rule_def Let_def inv_keys split: if_splits
        intro!: inv_tables fk_updates distinct_update_where)
  show "db_inv d \<Longrightarrow> db_inv (delete_mock_rule C u d)"
    by (auto simp: delete_mock_rule_def inv_keys intro!: inv_tables fk_frames distinct_map_filter)
qed

lemma example_ops_inv:
  "create_response_example C eid x d = Ok (x', d') \<Longrightarrow> db_inv d \<Longrightarrow> db_inv d'"
  "db_inv d \<Longrightarrow> db_inv (delete_response_example C u d)"
  "db_inv d \<Longrightarrow> db_inv (delete_response_examples C u d)"
  "save_response_examples_bulk C xs d = Ok d' \<Longrightarrow> db_inv d \<Longrightarrow> db_inv d'"
  "create_request_example C q d = Ok (q', d') \<Longrightarrow> db_inv d \<Longrightarrow> db_inv d'"
  "db_inv d \<Longrightarrow> db_inv (delete_request_example C u d)"
  "save_request_examples_bulk C qs d = Ok d' \<Longrightarrow> db_inv d \<Longrightarrow> db_inv d'"
proof -
  show "create_response_example C eid x d = Ok (x', d') \<Longrightarrow> db_inv d \<Longrightarrow> db_inv d'"
    by (auto simp: create_response_example_def and_then_eq_Inr checked_Ok inv_keys intro!: inv_tables upsert_distinct)
  show "db_inv d \<Longrightarrow> db_inv (delete_response_example C u d)"
    by (auto simp: delete_response_example_def inv_keys intro!: inv_tables fk_frames distinct_map_filter)
  show "db_inv d \<Longrightarrow> db_inv (delete_response_examples C u d)"
    by (auto simp: delete_response_examples_def inv_keys intro!: inv_tables fk_frames distinct_map_filter)
  show "save_response_examples_bulk C xs d = Ok d' \<Longrightarrow> db_inv d \<Longrightarrow> db_inv d'"
    unfolding bulk_as_batches
    by (erule each_stmt_inv[where P = db_inv, rotated])
       (auto simp: response_examples.batch_def checked_Ok inv_keys intro!: inv_tables upsert_rows_distinct)
  show "create_request_example C q d = Ok (q', d') \<Longrightarrow> db_inv d \<Longrightarrow> db_inv d'"
    by (auto simp: create_request_example_def and_then_eq_Inr checked_Ok dest!: insert_row_distinct
        intro!: inv_tables inv_keys)
  show "db_inv d \<Longrightarrow> db_inv (delete_request_example C u d)"
    by (auto simp: delete_request_example_def inv_keys intro!: inv_tables fk_frames distinct_map_filter)
  show "save_request_examples_bulk C qs d = Ok d' \<Longrightarrow> db_inv d \<Longrightarrow> db_inv d'"
    unfolding save_request_examples_bulk_def and_then_eq_Inr
    by (elim exE conjE, erule each_stmt_inv[where P = db_inv, rotated])
       (auto simp: and_then_eq_Inr checked_Ok inv_keys dest!: insert_rows_distinct intro!: inv_tables)
qed

lemma case_ops_inv:
  "create_test_case C t d = Ok (t', d') \<Longrightarrow> db_inv d \<Longrightarrow> db_inv d'"
  "db_inv d \<Longrightarrow> db_inv (delete_test_case C u d)"
  "db_inv d \<Longrightarrow> db_inv (update_test_case_meta C u n cat d)"
  "db_inv d \<Longrightarrow> db_inv (update_test_case_status C u st d)"
  "update_test_case_content C u meth path ps hs bt bc d = Ok d' \<Longrightarrow> db_inv d \<Longrightarrow> db_inv d'"
  "save_test_run C run d = Ok d' \<Longrightarrow> db_inv d \<Longrightarrow> db_inv d'"
  "db_inv d \<Longrightarrow> db_inv (delete_test_run C u d)"
proof -
  show "create_test_case C t d = Ok (t', d') \<Longrightarrow> db_inv d \<Longrightarrow> db_inv d'"
    by (auto simp: create_test_case_def and_then_eq_Inr checked_Ok dest!: insert_row_distinct
        intro!: inv_tables inv_keys)
  show "db_inv d \<Longrightarrow> db_inv (delete_test_case C u d)"
    by (auto simp: delete_test_case_def inv_keys intro!: inv_tables fk_frames distinct_map_filter)
  show "db_inv d \<Longrightarrow> db_inv (update_test_case_meta C u n cat d)"
    by (auto simp: update_test_case_meta_def inv_keys intro!: inv_tables fk_updates distinct_update_where)
  show "db_inv d \<Longrightarrow> db_inv (update_test_case_status C u st d)"
    by (auto simp: update_test_case_status_def inv_keys intro!: inv_tables fk_updates distinct_update_where)
  show "update_test_case_content C u meth path ps hs bt bc d = Ok d' \<Longrightarrow> db_inv d \<Longrightarrow> db_inv d'"
    by (auto simp: update_test_case_content_def and_then_eq_Inr inv_keys
        intro!: inv_tables fk_updates distinct_update_where)
  show "save_test_run C run d = Ok d' \<Longrightarrow> db_inv d \<Longrightarrow> db_inv d'"
    by (auto simp: save_test_run_def and_then_eq_Inr checked_Ok dest!: insert_row_distinct
        intro!: inv_tables inv_keys)
  show "db_inv d \<Longrightarrow> db_inv (delete_test_run C u d)"
    by (auto simp: delete_test_run_def inv_keys intro!: inv_tables fk_frames distinct_map_filter)
qed

lemma trim_inv: "db_inv d \<Longrightarrow> db_inv (trim_request_history pid d)"
  by (auto simp: trim_request_history_def Let_def inv_keys intro!: inv_tables fk_frames distinct_map_filter)

lemma save_request_history_Ok:
  assumes "save_request_history C h (d, t) = Ok (d', t')"
  obtains tick where "bump_project_tick (co_uuid_text C (rh_project_id h)) t = (tick, t')"
    "hw_id (history_row C h) \<notin> hw_id ` set (t_histories d)"
    "fk_ok (d\<lparr>t_histories := t_histories d @ [history_row C h]\<rparr>)"
    "d' = (if tick mod TRIM_EVERY_INSERTS = 1
           then trim_request_history (co_uuid_text C (rh_project_id h)) (d\<lparr>t_histories := t_histories d @ [history_row C h]\<rparr>)
           else d\<lparr>t_histories := t_histories d @ [history_row C h]\<rparr>)"
proof -
  have p: "hw_project_id (history_row C h) = co_uuid_text C (rh_project_id h)" by (simp add: history_row_def)
  show ?thesis
    using assms that
    by (cases "bump_project_tick (co_uuid_text C (rh_project_id h)) t")
       (auto simp: save_request_history_def Let_def p and_then_eq_Inr checked_Ok insert_row_def split: if_splits)
qed

lemma history_ops_inv:
  "save_request_history C h (d, t) = Ok (d', t') \<Longrightarrow> db_inv d \<Longrightarrow> db_inv d'"
  "db_inv d \<Longrightarrow> db_inv (snd (clear_request_histories C pid eid d))"
proof -
  show "save_request_history C h (d, t) = Ok (d', t') \<Longrightarrow> db_inv d \<Longrightarrow> db_inv d'"
    by (erule save_request_history_Ok) (auto simp: inv_keys intro!: trim_inv inv_tables)
  show "db_inv d \<Longrightarrow> db_inv (snd (clear_request_histories C pid eid d))"
    by (auto simp: clear_request_histories_def Let_def inv_keys intro!: inv_tables fk_frames distinct_map_filter)
qed

lemma each_committed_inv:
  assumes "\<And>x d d'. P d \<Longrightarrow> f x d = Ok d' \<Longrightarrow> P d'"
  shows "P d \<Longrightarrow> P (snd (each_committed f xs d))"
  by (induction xs arbitrary: d) (auto split: sum.splits intro: assms)

lemma other_ops_inv:
  "db_inv d \<Longrightarrow> db_inv (delete_proto_file C u d)"
  "save_proto_files_bulk C os d = Ok d' \<Longrightarrow> db_inv d \<Longrightarrow> db_inv d'"
  "db_inv d \<Longrightarrow> db_inv (snd (save_proto_files C os d))"
  "db_inv d \<Longrightarrow> db_inv (set_setting k v d)"
  "enqueue_ws_message C u now target ty payload d = Ok (r, d') \<Longrightarrow> db_inv d \<Longrightarrow> db_inv d'"
  "db_inv d \<Longrightarrow> db_inv (delete_ws_messages C ids d)"
  "db_inv d \<Longrightarrow> db_inv (snd (purge_expired_ws_messages C now target retention d))"
proof -
  show "db_inv d \<Longrightarrow> db_inv (delete_proto_file C u d)"
    by (auto simp: delete_proto_file_def inv_keys intro!: inv_tables fk_frames distinct_map_filter)
  show "save_proto_files_bulk C os d = Ok d' \<Longrightarrow> db_inv d \<Longrightarrow> db_inv d'"
    unfolding save_proto_files_bulk_def
    by (erule each_stmt_inv[where P = db_inv, rotated])
       (auto simp: and_then_eq_Inr checked_Ok inv_keys dest!: insert_rows_distinct intro!: inv_tables)
  show "db_inv d \<Longrightarrow> db_inv (snd (save_proto_files C os d))"
    unfolding save_proto_files_def
    by (rule each_committed_inv[where P = db_inv])
       (auto simp: checked_Ok inv_keys intro!: inv_tables upsert_rows_distinct)
  show "db_inv d \<Longrightarrow> db_inv (set_setting k v d)"
    by (auto simp: set_setting_def inv_keys intro!: inv_tables upsert_distinct)
  show "enqueue_ws_message C u now target ty payload d = Ok (r, d') \<Longrightarrow> db_inv d \<Longrightarrow> db_inv d'"
    by (auto simp: enqueue_ws_message_def Let_def and_then_eq_Inr dest!: insert_row_distinct
        intro!: inv_tables inv_keys)
  show "db_inv d \<Longrightarrow> db_inv (delete_ws_messages C ids d)"
    by (auto simp: delete_ws_messages_def inv_keys intro!: inv_tables distinct_map_filter)
  show "db_inv d \<Longrightarrow> db_inv (snd (purge_expired_ws_messages C now target retention d))"
    by (auto simp: purge_expired_ws_messages_def Let_def inv_keys intro!: inv_tables distinct_map_filter)
qed

lemma repo_step_inv: "repo_step C d d' \<Longrightarrow> db_inv d \<Longrightarrow> db_inv d'"
  by (induction rule: repo_step.induct)
     (auto simp: update_projects_order_def delete_project_def delete_projects_inv
       dest: order_projects_inv project_ops_inv folder_ops_inv endpoint_ops_inv environment_ops_inv
         mock_ops_inv example_ops_inv case_ops_inv history_ops_inv other_ops_inv)

text \<open>
  In every database the repositories can produce from the empty one, by any operations with any
  arguments in any order, primary keys are distinct and every reference of the schema names an
  existing row. The checks of SQLite are part of the model (\<open>checked\<close>, \<open>insert_row\<close>), so what this says
  of the code is that its deletions, which have no such check, leave no reference behind.
\<close>

theorem reachable_db_intact:
  assumes "(repo_step C)\<^sup>*\<^sup>* empty_db d"
  shows "keys_ok d \<and> fk_ok d"
proof -
  have "db_inv d" using assms by (induction rule: rtranclp_induct) (simp_all add: repo_step_inv)
  then show ?thesis by (simp add: db_inv_def)
qed

lemma reachable_db_intact_witness:
  "keys_ok (set_setting ''k'' ''v'' empty_db) \<and> fk_ok (set_setting ''k'' ''v'' empty_db)"
  by (rule reachable_db_intact[of demo_codec]) (rule r_into_rtranclp, rule repo_step.intros)

section \<open>The history of a project stays bounded\<close>

text \<open>How many writes ago a project was last trimmed, from its counter, the wrap of \<open>u64\<close> included.\<close>

definition since_trim :: "u64 \<Rightarrow> nat" where
  "since_trim n = (if n = 0 then 15 else (unat n - 1) mod 20)"

lemma since_trim_less: "since_trim n < 20"
  by (simp add: since_trim_def)

lemma unat_succ:
  assumes "n \<noteq> - 1"
  shows "unat (n + 1 :: u64) = unat n + 1"
proof -
  have "1 + n \<noteq> 0" using assms by (simp add: eq_neg_iff_add_eq_0 add.commute)
  then show ?thesis using unatSuc[of n] by (simp add: add.commute)
qed

lemma tick_trims: "n mod TRIM_EVERY_INSERTS = 1 \<longleftrightarrow> unat n mod 20 = 1"
proof -
  have "n mod 20 = 1 \<longleftrightarrow> unat (n mod 20) = unat (1 :: u64)" by (rule word_unat_eq_iff)
  then show ?thesis by (simp add: TRIM_EVERY_INSERTS_def unat_mod)
qed

lemma since_trim_step:
  assumes "\<not> (n + 1) mod TRIM_EVERY_INSERTS = 1"
  shows "since_trim (n + 1) = Suc (since_trim n)"
proof (cases "n = - 1")
  case True
  have "unat (- 1 :: u64) = 2 ^ 64 - 1"
    by (simp add: unsigned_minus_1_eq_mask mask_eq_exp_minus_1)
  with True show ?thesis by (simp add: since_trim_def)
next
  case False
  then have u: "unat (n + 1) = unat n + 1" by (rule unat_succ)
  then have "n + 1 \<noteq> 0" by (metis add_is_0 unat_0 zero_neq_one)
  moreover have "(unat n + 1) mod 20 \<noteq> 1" using assms by (simp add: tick_trims u)
  moreover have "(m + 1) mod 20 \<noteq> 1 \<Longrightarrow> 0 < m \<Longrightarrow> m mod 20 = Suc ((m - 1) mod 20)" for m :: nat
    by (cases m) (auto simp: mod_Suc split: if_splits)
  moreover have "n \<noteq> 0" using calculation(2) by (auto simp: u)
  ultimately show ?thesis
    using unat_eq_0[of n] by (auto simp: since_trim_def u)
qed

lemma project_history_trim_other:
  "p \<noteq> pid \<Longrightarrow> project_history p (trim_request_history pid d) = project_history p d"
  by (auto simp: project_history_def trim_request_history_def Let_def intro!: filter_cong)

lemma trim_distinct:
  "distinct (map hw_id (t_histories d)) \<Longrightarrow> distinct (map hw_id (t_histories (trim_request_history pid d)))"
  by (simp add: trim_request_history_def Let_def distinct_map_filter)

definition newest :: "str \<Rightarrow> db \<Rightarrow> history_row list" where
  "newest pid d = take 500 (order_desc hw_created_at (project_history pid d))"

lemma project_history_trim:
  "project_history pid (trim_request_history pid d)
     = filter (\<lambda>r. hw_id r \<in> hw_id ` set (newest pid d)) (project_history pid d)"
  by (auto simp: project_history_def newest_def trim_request_history_def Let_def limit_rows_def
      HISTORY_RETENTION_PER_PROJECT_def intro!: filter_cong)

lemma filter_ids_subset:
  assumes "distinct (map key rows)" "set kept \<subseteq> set rows" "distinct kept"
  shows "mset (filter (\<lambda>r. key r \<in> key ` set kept) rows) = mset kept"
proof -
  have "filter (\<lambda>r. key r \<in> key ` set kept) rows = filter (\<lambda>r. r \<in> set kept) rows"
    using assms(1,2) by (intro filter_cong refl) (auto simp: distinct_map dest: inj_onD)
  moreover have "mset (filter (\<lambda>r. r \<in> set kept) rows) = mset kept"
    using assms by (intro set_eq_iff_mset_eq_distinct[THEN iffD1]) (auto simp: distinct_map)
  ultimately show ?thesis by simp
qed

lemma mset_order_desc [simp]: "mset (order_desc f rows) = mset rows"
  by (simp add: order_desc_def)

lemma trimmed_rows:
  assumes "distinct (map hw_id (t_histories d))"
  shows "mset (project_history pid (trim_request_history pid d)) = mset (newest pid d)"
proof -
  have d: "distinct (map hw_id (project_history pid d))"
    using assms by (simp add: project_history_def distinct_map_filter)
  have "distinct (order_desc hw_created_at (project_history pid d))"
    using d by (simp add: order_desc_def distinct_map)
  then show ?thesis
    unfolding project_history_trim
    by (intro filter_ids_subset d) (auto simp: newest_def dest: in_set_takeD)
qed

definition history_bounded_at :: "ticks \<Rightarrow> db \<Rightarrow> bool" where
  "history_bounded_at t d \<longleftrightarrow>
     (\<forall>pid n. t pid = Some n \<longrightarrow> length (project_history pid d) \<le> 500 + since_trim n)"

lemma save_history_bounded:
  assumes "save_request_history C h (d, t) = Ok (d', t')" "distinct (map hw_id (t_histories d))"
    "history_bounded_at t d"
  shows "history_bounded_at t' d' \<and> distinct (map hw_id (t_histories d'))"
proof -
  let ?p = "co_uuid_text C (rh_project_id h)"
  let ?d = "d\<lparr>t_histories := t_histories d @ [history_row C h]\<rparr>"
  obtain tick where tick: "bump_project_tick ?p t = (tick, t')"
    and new: "hw_id (history_row C h) \<notin> hw_id ` set (t_histories d)"
    and d': "d' = (if tick mod TRIM_EVERY_INSERTS = 1 then trim_request_history ?p ?d else ?d)"
    using save_request_history_Ok[OF assms(1)] by metis
  have hp: "hw_project_id (history_row C h) = ?p" by (simp add: history_row_def)
  have dist: "distinct (map hw_id (t_histories ?d))" using new assms(2) by simp
  have dist': "distinct (map hw_id (t_histories d'))"
    using dist trim_distinct[OF dist] by (simp add: d')
  have other: "project_history p d' = project_history p d" if "p \<noteq> ?p" for p
    using that project_history_trim_other[OF that, of ?d] by (simp add: d' project_history_def hp)
  have "length (project_history ?p d') \<le> 500 + since_trim tick"
  proof (cases "tick mod TRIM_EVERY_INSERTS = 1")
    case True
    have "length (project_history ?p (trim_request_history ?p ?d)) = length (newest ?p ?d)"
      by (rule mset_eq_length[OF trimmed_rows[OF dist]])
    with True show ?thesis by (simp add: d' newest_def)
  next
    case False
    define n where "n = (case t ?p of None \<Rightarrow> 0 | Some n \<Rightarrow> n)"
    have n: "tick = n + 1" using tick by (simp add: bump_project_tick_def Let_def n_def)
    have one: "(1 :: u64) mod TRIM_EVERY_INSERTS = 1" unfolding tick_trims by simp
    have "t ?p \<noteq> None"
    proof
      assume "t ?p = None"
      then have "tick = 1" using n by (simp add: n_def)
      with one False show False by (simp only: not_True_eq_False)
    qed
    then have "t ?p = Some n" by (auto simp: n_def)
    then have "length (project_history ?p d) \<le> 500 + since_trim n"
      using assms(3) by (simp add: history_bounded_at_def)
    with False since_trim_step[of n] show ?thesis
      by (simp add: d' n project_history_def hp)
  qed
  moreover have "t' = t(?p \<mapsto> tick)" using tick by (auto simp: bump_project_tick_def Let_def)
  ultimately have "history_bounded_at t' d'"
    using other assms(3) by (auto simp: history_bounded_at_def)
  with dist' show ?thesis by blast
qed

text \<open>Any number of saves, the failed ones without effect.\<close>

fun save_histories :: "codec \<Rightarrow> request_history list \<Rightarrow> db \<times> ticks \<Rightarrow> db \<times> ticks" where
  "save_histories C [] st = st"
| "save_histories C (h # hs) st = save_histories C hs (ok_or st (save_request_history C h st))"

lemma save_histories_bounded:
  assumes "history_bounded_at (snd st) (fst st)" "distinct (map hw_id (t_histories (fst st)))"
  shows "history_bounded_at (snd (save_histories C hs st)) (fst (save_histories C hs st))"
  using assms
proof (induction hs arbitrary: st)
  case (Cons h hs)
  obtain d t where st: "st = (d, t)" by (cases st)
  show ?case
  proof (cases "save_request_history C h (d, t)")
    case (Inr st')
    obtain d' t' where st': "st' = (d', t')" by (cases st')
    have "history_bounded_at t' d' \<and> distinct (map hw_id (t_histories d'))"
      by (rule save_history_bounded[of C h d t]) (use Cons.prems Inr st st' in simp_all)
    then show ?thesis using Cons.IH[of st'] by (simp add: st Inr st')
  qed (use Cons st in simp)
qed simp

lemma order_desc_split:
  assumes "a \<in> set (take k (order_desc f rows))" "b \<in> set (drop k (order_desc f rows))"
  shows "f b \<le> f a"
proof -
  have "sorted_wrt (\<lambda>x y. f y \<le> f x) (order_desc f rows)"
    using sorted_sort_key[of f "rev rows"] by (simp add: order_desc_def sorted_wrt_rev sorted_map)
  then have "sorted_wrt (\<lambda>x y. f y \<le> f x) (take k (order_desc f rows) @ drop k (order_desc f rows))"
    by simp
  then show ?thesis using assms by (simp only: sorted_wrt_append)
qed

lemma history_retention_laws:
  assumes "keys_ok d"
  shows "save_histories C hs (d, Map.empty) = (d', t') \<Longrightarrow> t' pid \<noteq> None \<Longrightarrow>
      length (project_history pid d') \<le> 519"
    and "length (project_history pid (trim_request_history pid d)) = min 500 (length (project_history pid d))"
    and "old \<in> set (project_history pid d) \<Longrightarrow> old \<notin> set (project_history pid (trim_request_history pid d)) \<Longrightarrow>
      kept \<in> set (project_history pid (trim_request_history pid d)) \<Longrightarrow> hw_created_at old \<le> hw_created_at kept"
proof -
  have dist: "distinct (map hw_id (t_histories d))" using assms by (simp add: keys_ok_def)
  show "length (project_history pid d') \<le> 519"
    if run: "save_histories C hs (d, Map.empty) = (d', t')" and written: "t' pid \<noteq> None"
  proof -
    have "history_bounded_at t' d'"
      using save_histories_bounded[of "(d, Map.empty)" C hs] run dist
      by (simp add: history_bounded_at_def)
    then obtain n where "length (project_history pid d') \<le> 500 + since_trim n"
      using written by (auto simp: history_bounded_at_def)
    with since_trim_less[of n] show ?thesis by simp
  qed
  note rows = trimmed_rows[OF dist, of pid]
  show "length (project_history pid (trim_request_history pid d)) = min 500 (length (project_history pid d))"
    using mset_eq_length[OF rows] by (simp add: newest_def)
  assume old: "old \<in> set (project_history pid d)" "old \<notin> set (project_history pid (trim_request_history pid d))"
    and kept: "kept \<in> set (project_history pid (trim_request_history pid d))"
  have "set (project_history pid (trim_request_history pid d)) = set (newest pid d)"
    by (rule mset_eq_setD[OF rows])
  moreover have "set (order_desc hw_created_at (project_history pid d)) = set (newest pid d) \<union>
      set (drop 500 (order_desc hw_created_at (project_history pid d)))"
    by (simp only: newest_def set_append[symmetric] append_take_drop_id)
  ultimately show "hw_created_at old \<le> hw_created_at kept"
    using old kept order_desc_split[of kept 500 hw_created_at "project_history pid d" old]
    by (auto simp: newest_def)
qed

text \<open>
  C24: The request history is bounded. Starting a process on any database, after any sequence of
  saved requests of any projects, a project that was written to in this process has at most 519
  rows, although rows are trimmed only on every twentieth write; and a trimming keeps the newest
  five hundred rows of the project: no dropped row is younger than a kept one.
\<close>

theorem history_retention:
  assumes "keys_ok d"
  shows "(save_histories C hs (d, Map.empty) = (d', t') \<longrightarrow> t' pid \<noteq> None \<longrightarrow>
      length (project_history pid d') \<le> 519)
    \<and> (length (project_history pid (trim_request_history pid d)) = min 500 (length (project_history pid d)))
    \<and> (old \<in> set (project_history pid d) \<longrightarrow> old \<notin> set (project_history pid (trim_request_history pid d)) \<longrightarrow>
      kept \<in> set (project_history pid (trim_request_history pid d)) \<longrightarrow> hw_created_at old \<le> hw_created_at kept)"
  by (intro conjI impI) (rule history_retention_laws[OF assms]; assumption)+

definition demo_project :: project where
  "demo_project = \<lparr>pr_id = 2, pr_name = ''p'', pr_description = [], pr_variables = Map.empty,
     pr_created_at = 0, pr_updated_at = 0\<rparr>"

definition demo_db :: db where
  "demo_db = empty_db\<lparr>t_projects := [project_record (project_row demo_codec demo_project) 0]\<rparr>"

definition demo_history :: request_history where
  "demo_history = \<lparr>rh_id = 7, rh_project_id = 2, rh_endpoint_id = None, rh_method = ''GET'', rh_url = [],
     rh_status = Some 200, rh_duration_ms = None, rh_request_summary_json = [],
     rh_response_summary_json = [], rh_created_at = 1\<rparr>"

lemma pw_id_record [simp]: "pw_id (project_record r n) = pw_id r"
  by (simp add: project_record_def project_row.extend_def project_record.fields_def)

lemma demo_db_simps [simp]:
  "keys_ok demo_db" "project_ids demo_db = {co_uuid_text demo_codec 2}" "t_folders demo_db = []"
  "t_endpoints demo_db = []" "t_environments demo_db = []" "t_mock_rules demo_db = []"
  "t_response_examples demo_db = []" "t_request_examples demo_db = []" "t_test_cases demo_db = []"
  "t_test_runs demo_db = []" "t_histories demo_db = []" "t_proto_files demo_db = []"
  by (simp_all add: demo_db_def empty_db_def keys_ok_def project_row_def demo_project_def)

definition demo_folder :: folder where
  "demo_folder = \<lparr>fo_id = 1, fo_project_id = 2, fo_parent_id = None, fo_name = ''f'', fo_sort_order = 0,
     fo_created_at = 5, fo_updated_at = 6\<rparr>"

lemma demo_save:
  "save_folder demo_codec demo_folder demo_db
     = Ok (demo_db\<lparr>t_folders := [folder_row demo_codec demo_folder]\<rparr>)"
  by (simp add: save_folder_put folders.put_row_def upsert_def checked_def fk_defs folder_row_def
      demo_folder_def)

lemma saved_folder_found_witness:
  "get_folder demo_codec 1 (demo_db\<lparr>t_folders := [folder_row demo_codec demo_folder]\<rparr>) = Ok demo_folder"
  using saved_folder_found[OF demo_codec_lawful demo_save, THEN conjunct1]
  by (simp add: fetch_optional_def) (simp add: demo_folder_def)

lemma bulk_equals_single_witness:
  "save_folders_bulk demo_codec [demo_folder] demo_db
     = Ok (demo_db\<lparr>t_folders := [folder_row demo_codec demo_folder]\<rparr>)"
  by (rule bulk_equals_single[THEN conjunct1, rule_format]) (simp add: demo_save)

lemma history_retention_witness:
  "length (project_history (co_uuid_text demo_codec 2)
     (fst (save_histories demo_codec [demo_history] (demo_db, Map.empty)))) \<le> 519"
proof -
  obtain d' t' where run: "save_histories demo_codec [demo_history] (demo_db, Map.empty) = (d', t')"
    by fastforce
  have "fk_ok (demo_db\<lparr>t_histories := [history_row demo_codec demo_history]\<rparr>)"
    by (simp add: fk_defs history_row_def demo_history_def)
  then have "t' (co_uuid_text demo_codec 2) \<noteq> None"
    using run by (auto simp: save_request_history_def insert_row_def checked_def bump_project_tick_def
        history_row_def demo_history_def Let_def split: if_splits)
  then show ?thesis
    using history_retention[OF demo_db_simps(1), THEN conjunct1, rule_format, OF run] by (simp only: run fst_conv)
qed

section \<open>Reordering projects\<close>

lemma order_projects_rows:
  assumes "order_projects C i us d = Ok d'" "distinct (map (co_uuid_text C) us)"
  shows "map pw_id (t_projects d') = map pw_id (t_projects d)
    \<and> (\<forall>r \<in> set (t_projects d'). pw_id r \<notin> co_uuid_text C ` set us \<longrightarrow> r \<in> set (t_projects d))
    \<and> (\<forall>k < length us. \<forall>r \<in> set (t_projects d'). pw_id r = co_uuid_text C (us ! k) \<longrightarrow> pw_sort_order r = int (i + k))
    \<and> co_uuid_text C ` set us \<subseteq> project_ids d"
  using assms
proof (induction C i us d rule: order_projects.induct)
  case (2 C i u us d)
  let ?p = "\<lambda>r. pw_id r = co_uuid_text C u"
  let ?d1 = "d\<lparr>t_projects := update_where ?p (\<lambda>r. r\<lparr>pw_sort_order := int i\<rparr>) (t_projects d)\<rparr>"
  have hit: "rows_affected ?p (t_projects d) \<noteq> 0" and rest: "order_projects C (Suc i) us ?d1 = Ok d'"
    using 2(2) by (simp_all add: Let_def split: if_splits)
  have u: "co_uuid_text C u \<notin> co_uuid_text C ` set us" and ds: "distinct (map (co_uuid_text C) us)"
    using 2(3) by simp_all
  have ids: "map pw_id (t_projects ?d1) = map pw_id (t_projects d)"
    by (simp add: update_where_keys)
  note IH = 2(1)[OF refl hit rest ds]
  have "pw_sort_order r = int (i + k)"
    if "k < length (u # us)" "r \<in> set (t_projects d')" "pw_id r = co_uuid_text C ((u # us) ! k)" for k r
  proof (cases k)
    case 0
    then have "r \<in> set (t_projects ?d1)" using IH that u by auto
    then show ?thesis using that 0 by (auto simp: update_where_def)
  next
    case (Suc k')
    then show ?thesis using IH that by auto
  qed
  moreover have "r \<in> set (t_projects d)"
    if "r \<in> set (t_projects d')" "pw_id r \<notin> co_uuid_text C ` set (u # us)" for r
  proof -
    have "r \<in> set (t_projects ?d1)" using IH that by auto
    then show ?thesis using that by (auto simp: update_where_def split: if_splits)
  qed
  moreover have "co_uuid_text C u \<in> project_ids d"
    using hit by (auto simp: rows_affected_def filter_empty_conv) (metis image_eqI)
  moreover have "co_uuid_text C ` set us \<subseteq> project_ids d"
    using IH arg_cong[OF ids, of set] by simp
  ultimately show ?case using IH ids by auto
qed simp

lemma order_projects_missing:
  assumes "order_projects C i us d = Err e"
  shows "\<exists>u \<in> set us. co_uuid_text C u \<notin> project_ids d"
  using assms
proof (induction C i us d rule: order_projects.induct)
  case (2 C i u us d)
  let ?p = "\<lambda>r. pw_id r = co_uuid_text C u"
  show ?case
  proof (cases "rows_affected ?p (t_projects d) = 0")
    case True
    then show ?thesis by (auto simp: rows_affected_def filter_empty_conv)
  next
    case False
    with 2(2) have "order_projects C (Suc i) us
        (d\<lparr>t_projects := update_where ?p (\<lambda>r. r\<lparr>pw_sort_order := int i\<rparr>) (t_projects d)\<rparr>) = Err e"
      by (simp add: Let_def)
    from 2(1)[OF refl False this] show ?thesis by (auto simp: update_where_ids)
  qed
qed simp

lemma sorted_positions:
  assumes "sorted ks" "distinct ks" "set ks = int ` {..<n}"
  shows "ks = map int [0..<n]"
  using assms by (intro sorted_distinct_set_unique) (auto simp: sorted_map distinct_map lessThan_atLeast0)

text \<open>
  Dragging projects into an order gives that order. When the identifiers of all projects are
  sent, each once, the reordering succeeds and the projects are then listed in exactly the order
  sent, whatever their earlier positions; it fails only when some identifier is no project, and
  then nothing is reordered.
\<close>

theorem projects_order:
  assumes "keys_ok d" "codec_lawful C" "distinct us"
  shows "co_uuid_text C ` set us = project_ids d \<Longrightarrow>
      \<exists>d'. update_projects_order C us d = Ok d' \<and>
        map pw_id (order_asc (\<lambda>r. (pw_sort_order r, pw_created_at r)) (t_projects d')) = map (co_uuid_text C) us"
    and "update_projects_order C us d = Err e \<Longrightarrow> \<exists>u \<in> set us. co_uuid_text C u \<notin> project_ids d"
proof -
  show "\<exists>u \<in> set us. co_uuid_text C u \<notin> project_ids d" if "update_projects_order C us d = Err e"
    using that by (simp add: update_projects_order_def order_projects_missing)
  assume all: "co_uuid_text C ` set us = project_ids d"
  have dt: "distinct (map (co_uuid_text C) us)"
    using assms(2,3) by (simp add: distinct_map inj_on_def uuid_text_inject)
  obtain d' where d': "order_projects C 0 us d = Ok d'"
    using order_projects_missing[of C 0 us d] all by (cases "order_projects C 0 us d") auto
  note rows = order_projects_rows[OF d' dt]
  let ?L = "order_asc (\<lambda>r. (pw_sort_order r, pw_created_at r)) (t_projects d')"
  have dist: "distinct (map pw_id (t_projects d'))"
    using rows assms(1) by (simp add: keys_ok_def)
  have ids: "pw_id ` set (t_projects d') = co_uuid_text C ` set us"
    using arg_cong[OF conjunct1[OF rows], of set] all by simp
  have pos: "pw_sort_order r = int k"
    if "r \<in> set ?L" "k < length us" "pw_id r = co_uuid_text C (us ! k)" for r k
    using rows that by auto
  have some: "\<exists>k < length us. pw_id r = co_uuid_text C (us ! k)" if "r \<in> set ?L" for r
  proof -
    have "pw_id r \<in> co_uuid_text C ` set us" using ids that by auto
    then show ?thesis by (auto simp: in_set_conv_nth)
  qed
  have dL: "distinct (map pw_id ?L)"
    using dist by (simp add: order_asc_def distinct_map)
  have len: "length ?L = length us"
    using dist dt ids by (metis distinct_card length_map length_order(1) list.set_map)
  have "sorted_wrt (\<lambda>x y. (pw_sort_order x, pw_created_at x) \<le> (pw_sort_order y, pw_created_at y)) ?L"
    using sorted_sort_key[of "\<lambda>r. (pw_sort_order r, pw_created_at r)" "t_projects d'"]
    by (simp only: order_asc_def sorted_map)
  then have "sorted_wrt (\<lambda>x y. pw_sort_order x \<le> pw_sort_order y) ?L"
    by (rule sorted_wrt_mono_rel[rotated]) auto
  then have "sorted (map pw_sort_order ?L)" by (simp only: sorted_map)
  moreover have "inj_on pw_sort_order (set ?L)"
  proof (rule inj_onI)
    fix r s assume r: "r \<in> set ?L" and s: "s \<in> set ?L" and eq: "pw_sort_order r = pw_sort_order s"
    obtain k where k: "k < length us" "pw_id r = co_uuid_text C (us ! k)" using some[OF r] by blast
    obtain l where l: "l < length us" "pw_id s = co_uuid_text C (us ! l)" using some[OF s] by blast
    have "k = l" using eq pos[OF r k] pos[OF s l] by simp
    then have "pw_id r = pw_id s" using k l by simp
    then show "r = s" using dL r s by (simp only: distinct_map inj_on_def)
  qed
  then have "distinct (map pw_sort_order ?L)"
    using dL by (simp only: distinct_map)
  moreover have "pw_sort_order ` set ?L = int ` {..<length us}"
  proof
    show "pw_sort_order ` set ?L \<subseteq> int ` {..<length us}"
      using some pos by fastforce
    show "int ` {..<length us} \<subseteq> pw_sort_order ` set ?L"
    proof
      fix x assume "x \<in> int ` {..<length us}"
      then obtain k where k: "k < length us" "x = int k" by auto
      then have "co_uuid_text C (us ! k) \<in> pw_id ` set (t_projects d')" using ids by simp
      then obtain r where r: "r \<in> set ?L" "pw_id r = co_uuid_text C (us ! k)" by auto
      have "x = pw_sort_order r" using pos[OF r(1) k(1) r(2)] k(2) by simp
      then show "x \<in> pw_sort_order ` set ?L" using r(1) by (rule image_eqI)
    qed
  qed
  ultimately have keys: "map pw_sort_order ?L = map int [0..<length us]"
    by (intro sorted_positions) simp_all
  have "map pw_id ?L = map (co_uuid_text C) us"
  proof (rule nth_equalityI)
    show "length (map pw_id ?L) = length (map (co_uuid_text C) us)" by (simp add: len del: length_order)
    fix j assume "j < length (map pw_id ?L)"
    then have j: "j < length ?L" by simp
    have r: "?L ! j \<in> set ?L" using j by (rule nth_mem)
    obtain k where k: "k < length us" "pw_id (?L ! j) = co_uuid_text C (us ! k)" using some[OF r] by blast
    have "pw_sort_order (?L ! j) = map pw_sort_order ?L ! j" using j by (simp only: nth_map)
    then have "int k = int j" using pos[OF r k] j len by (simp only: keys) simp
    then show "map pw_id ?L ! j = map (co_uuid_text C) us ! j"
      using j k by (simp only: nth_map) simp
  qed
  then show "\<exists>d'. update_projects_order C us d = Ok d' \<and>
        map pw_id (order_asc (\<lambda>r. (pw_sort_order r, pw_created_at r)) (t_projects d')) = map (co_uuid_text C) us"
    using d' by (auto simp: update_projects_order_def)
qed

lemma projects_order_witness:
  "\<exists>d'. update_projects_order demo_codec [2] demo_db = Ok d' \<and>
     map pw_id (order_asc (\<lambda>r. (pw_sort_order r, pw_created_at r)) (t_projects d')) = [''2'']"
proof -
  have "co_uuid_text demo_codec 2 = ''2''" by code_simp
  then show ?thesis using projects_order(1)[of demo_db demo_codec "[2]"] by simp
qed

section \<open>Settings\<close>

lemma get_set_setting: "get_setting (set_setting k v d) k' = (if k' = k then Some v else get_setting d k')"
proof -
  let ?m = "\<lambda>old new :: str \<times> str. (fst old, snd new)"
  have keeps: "keeps_key fst ?m" by (simp add: keeps_key_def)
  have hit: "find (\<lambda>r. fst r = k) (upsert fst ?m (k, v) (t_settings d))
      = Some (case find (\<lambda>r. fst r = k) (t_settings d) of None \<Rightarrow> (k, v) | Some old \<Rightarrow> ?m old (k, v))"
    using find_upsert[OF keeps, of "(k, v)"] by simp
  have miss: "k' \<noteq> k \<Longrightarrow> find (\<lambda>r. fst r = k') (upsert fst ?m (k, v) (t_settings d))
      = find (\<lambda>r. fst r = k') (t_settings d)"
    using find_upsert_other[OF keeps, of k' "(k, v)"] by simp
  show ?thesis
    using hit miss by (auto simp: get_setting_def set_setting_def fetch_optional_def split: option.splits)
qed

end
