(* ===== verification/Backup.thy ===== *)
theory Backup
  imports RowsMore "HOL-Library.Char_ord" "HOL-Library.List_Lexorder"
begin

text \<open>
  Project backups, \<open>crates/fox-backup/src/lib.rs\<close>: the file, its version gate with the upgrade of
  older files, and the restoration, which gives every entity a new identifier and carries the
  references over. The derived \<open>serde\<close> instance of the file is a parameter; \<open>fresh 0, fresh 1,
  ...\<close> are the identifiers the successive calls of \<open>Uuid::new_v4()\<close> return. A JSON object is the
  entries of a \<open>BTreeMap\<close>: an insertion keeps the keys in order.
\<close>

section \<open>The file\<close>

record backup_file =
  bf_format :: str
  bf_schema_version :: u32
  bf_exported_at :: str
  bf_project :: project
  bf_folders :: "folder list"
  bf_endpoints :: "endpoint list"
  bf_environments :: "environment list"
  bf_mock_rules :: "mock_rule list"
  bf_response_examples :: "response_example list"
  bf_request_examples :: "request_example list"
  bf_proto_files :: "proto_file list"
  bf_settings :: "(str, str) hash_map"
  bf_global_variables :: "environment_variable list"
  bf_global_params :: "global_param list"

definition FORMAT :: str where "FORMAT = ''rustfox-project-backup''"
definition SCHEMA_VERSION :: u32 where "SCHEMA_VERSION = 3"

record backup_input =
  bi_project :: project
  bi_folders :: "folder list"
  bi_endpoints :: "endpoint list"
  bi_environments :: "environment list"
  bi_mock_rules :: "mock_rule list"
  bi_response_examples :: "response_example list"
  bi_request_examples :: "request_example list"
  bi_proto_files :: "proto_file list"
  bi_settings :: "(str, str) hash_map"
  bi_global_variables :: "environment_variable list"
  bi_global_params :: "global_param list"

definition build_backup :: "codec \<Rightarrow> datetime \<Rightarrow> backup_input \<Rightarrow> backup_file" where
  "build_backup C now i =
     \<lparr>bf_format = FORMAT, bf_schema_version = SCHEMA_VERSION, bf_exported_at = co_time_text C now,
      bf_project = bi_project i, bf_folders = bi_folders i, bf_endpoints = bi_endpoints i,
      bf_environments = bi_environments i, bf_mock_rules = bi_mock_rules i,
      bf_response_examples = bi_response_examples i, bf_request_examples = bi_request_examples i,
      bf_proto_files = bi_proto_files i, bf_settings = bi_settings i,
      bf_global_variables = bi_global_variables i, bf_global_params = bi_global_params i\<rparr>"

definition serialize_backup :: "backup_file serde \<Rightarrow> backup_file \<Rightarrow> (app_error, str) result" where
  "serialize_backup B f = map_err (\<lambda>e. Json_Error (Msg e [])) (ser B f)"

section \<open>Upgrading older files\<close>

fun obj_insert :: "str \<Rightarrow> json \<Rightarrow> (str \<times> json) list \<Rightarrow> (str \<times> json) list" where
  "obj_insert k v [] = [(k, v)]"
| "obj_insert k v ((k', v') # kvs) =
     (if k = k' then (k, v) # kvs
      else if k < k' then (k, v) # (k', v') # kvs
      else (k', v') # obj_insert k v kvs)"

definition obj_remove :: "str \<Rightarrow> (str \<times> json) list \<Rightarrow> (str \<times> json) list" where
  "obj_remove k kvs = filter (\<lambda>kv. fst kv \<noteq> k) kvs"

definition as_object :: "json \<Rightarrow> (str \<times> json) list option" where
  "as_object v = (case v of JObject kvs \<Rightarrow> Some kvs | _ \<Rightarrow> None)"

definition as_bool :: "json \<Rightarrow> bool option" where
  "as_bool v = (case v of JBool b \<Rightarrow> Some b | _ \<Rightarrow> None)"

text \<open>The v1 shape: a map of variables, whose \<open>base_url\<close> becomes the base URL.\<close>

definition upgraded_variable :: "codec \<Rightarrow> str \<times> json \<Rightarrow> json" where
  "upgraded_variable C kv =
     JObject [(''description'', JNull), (''enabled'', JBool True), (''key'', JString (fst kv)),
              (''local_value'', JString []), (''remote_value'', JString (variable_text C (snd kv)))]"

definition upgrade_variables :: "codec \<Rightarrow> (str \<times> json) list \<Rightarrow> json \<times> str" where
  "upgrade_variables C m =
     (JArray (map (upgraded_variable C)
        (filter (\<lambda>kv. fst kv \<noteq> ''base_url'' \<and> \<not> skipped_key (fst kv)) m)),
      (case map_of m ''base_url'' of None \<Rightarrow> [] | Some v \<Rightarrow> variable_text C v))"

text \<open>The v2 shape: the base URL of the default module, or of the first one.\<close>

definition module_is_default :: "json \<Rightarrow> bool" where
  "module_is_default m =
     (case Option.bind (json_get ''is_default'' m) as_bool of None \<Rightarrow> False | Some b \<Rightarrow> b)"

definition modules_base_url :: "(str \<times> json) list \<Rightarrow> str" where
  "modules_base_url env =
     (let picked = Option.bind (Option.bind (map_of env ''modules'') as_array)
            (\<lambda>ms. case find module_is_default ms of
                     Some m \<Rightarrow> Some m
                   | None \<Rightarrow> (case ms of [] \<Rightarrow> None | m # _ \<Rightarrow> Some m))
      in (case Option.bind (Option.bind picked (json_get ''base_url'')) as_str_json of
            None \<Rightarrow> [] | Some u \<Rightarrow> u))"

definition upgrade_environment :: "codec \<Rightarrow> str option \<Rightarrow> json \<Rightarrow> json" where
  "upgrade_environment C project_id env =
     (case env of
        JObject o1 \<Rightarrow>
          (if map_of o1 ''base_url'' \<noteq> None then env
           else
             let (vars, base_url) =
                   (case Option.bind (map_of o1 ''variables'') as_object of
                      Some m \<Rightarrow> (let (vs, b) = upgrade_variables C m in (Some vs, b))
                    | None \<Rightarrow> (None, modules_base_url o1));
                 o2 = (case vars of None \<Rightarrow> o1 | Some vs \<Rightarrow> obj_insert ''variables'' vs o1);
                 o3 = obj_insert ''base_url'' (JString base_url) (obj_remove ''modules'' o2)
             in JObject (case project_id of
                           None \<Rightarrow> o3 | Some pid \<Rightarrow> obj_insert ''project_id'' (JString pid) o3))
      | _ \<Rightarrow> env)"

definition obj_update :: "str \<Rightarrow> (json \<Rightarrow> json) \<Rightarrow> json \<Rightarrow> json" where
  "obj_update k f v =
     (case v of
        JObject kvs \<Rightarrow> JObject (map (\<lambda>kv. if fst kv = k then (fst kv, f (snd kv)) else kv) kvs)
      | _ \<Rightarrow> v)"

definition upgrade_legacy_environments :: "codec \<Rightarrow> json \<Rightarrow> json" where
  "upgrade_legacy_environments C value =
     (let project_id = Option.bind (Option.bind (json_get ''project'' value) (json_get ''id'')) as_str_json
      in obj_update ''environments''
           (\<lambda>envs. case envs of
              JArray es \<Rightarrow> JArray (map (upgrade_environment C project_id) es)
            | _ \<Rightarrow> envs) value)"

definition set_version :: "json \<Rightarrow> json" where
  "set_version v =
     (case v of JObject kvs \<Rightarrow> JObject (obj_insert ''schema_version'' (JNumber (PosInt 3)) kvs) | _ \<Rightarrow> v)"

definition parse_backup :: "codec \<Rightarrow> backup_file serde \<Rightarrow> str \<Rightarrow> (app_error, backup_file) result" where
  "parse_backup C B text =
     and_then (map_err (\<lambda>e. Validation (Msg ''backup file cannot be parsed'' [e])) (de (co_json C) text))
       (\<lambda>value.
         let version = (case Option.bind (json_get ''schema_version'' value) as_u64 of
                          None \<Rightarrow> 0 | Some n \<Rightarrow> n);
             value = (if 1 \<le> version \<and> version \<le> 3 \<and> version < 3
                      then set_version (upgrade_legacy_environments C value) else value)
         in and_then (map_err (\<lambda>e. Validation (Msg ''backup file cannot be parsed'' [e])) (de_value B value))
           (\<lambda>file.
             if bf_format file \<noteq> FORMAT
             then Err (Validation (Msg ''not a RustFox backup file'' []))
             else if SCHEMA_VERSION < bf_schema_version file
             then Err (Validation (Msg ''backup file is too new''
                    [show_nat (unat (bf_schema_version file)), show_nat (unat SCHEMA_VERSION)]))
             else Ok file))"

section \<open>Restoring\<close>

record restored =
  re_project :: project
  re_folders :: "folder list"
  re_endpoints :: "endpoint list"
  re_environments :: "environment list"
  re_mock_rules :: "mock_rule list"
  re_response_examples :: "response_example list"
  re_request_examples :: "request_example list"
  re_proto_files :: "proto_file list"

type_synonym id_map = "(uuid, uuid) hash_map"

definition or_id :: "id_map \<Rightarrow> uuid \<Rightarrow> uuid \<Rightarrow> uuid" where
  "or_id m d u = (case m u of None \<Rightarrow> d | Some v \<Rightarrow> v)"

fun restore_folders ::
  "(nat \<Rightarrow> uuid) \<Rightarrow> uuid \<Rightarrow> folder list \<Rightarrow> nat \<Rightarrow> id_map \<Rightarrow> folder list \<times> id_map" where
  "restore_folders fresh project_id [] i m = ([], m)"
| "restore_folders fresh project_id (f # fs) i m =
     (let m' = m(fo_id f \<mapsto> fresh i);
          f' = f\<lparr>fo_id := fresh i, fo_project_id := project_id,
                  fo_parent_id := map_option (or_id m' project_id) (fo_parent_id f)\<rparr>;
          (rest, m'') = restore_folders fresh project_id fs (Suc i) m'
      in (f' # rest, m''))"

fun restore_endpoints ::
  "(nat \<Rightarrow> uuid) \<Rightarrow> uuid \<Rightarrow> endpoint list \<Rightarrow> nat \<Rightarrow> id_map \<Rightarrow> endpoint list \<times> id_map" where
  "restore_endpoints fresh project_id [] i m = ([], m)"
| "restore_endpoints fresh project_id (e # es) i m =
     (let m' = m(ep_id e \<mapsto> fresh i);
          e' = e\<lparr>ep_id := fresh i, ep_project_id := project_id,
                  ep_folder_id := map_option (or_id m' (fresh i)) (ep_folder_id e)\<rparr>;
          (rest, m'') = restore_endpoints fresh project_id es (Suc i) m'
      in (e' # rest, m''))"

definition number_from :: "nat \<Rightarrow> 'a list \<Rightarrow> (nat \<times> 'a) list" where
  "number_from i xs = zip [i..<i + length xs] xs"

definition restore_backup :: "(nat \<Rightarrow> uuid) \<Rightarrow> backup_file \<Rightarrow> restored" where
  "restore_backup fresh file =
     (let new_project_id = fresh 0;
          m0 = Map.empty(pr_id (bf_project file) \<mapsto> new_project_id);
          i1 = 1;
          (folders, m1) = restore_folders fresh new_project_id (bf_folders file) i1 m0;
          i2 = i1 + length (bf_folders file);
          (endpoints, m2) = restore_endpoints fresh new_project_id (bf_endpoints file) i2 m1;
          i3 = i2 + length (bf_endpoints file);
          i4 = i3 + length (bf_environments file);
          i5 = i4 + length (bf_mock_rules file);
          i6 = i5 + length (bf_response_examples file);
          i7 = i6 + length (bf_request_examples file)
      in \<lparr>re_project = (bf_project file)\<lparr>pr_id := new_project_id\<rparr>,
          re_folders = folders,
          re_endpoints = endpoints,
          re_environments = map (\<lambda>(i, e). e\<lparr>en_id := fresh i, en_project_id := new_project_id\<rparr>)
            (number_from i3 (bf_environments file)),
          re_mock_rules = map (\<lambda>(i, r). r\<lparr>mr_id := fresh i, mr_project_id := new_project_id,
              mr_endpoint_id := map_option (or_id m2 0) (mr_endpoint_id r)\<rparr>)
            (number_from i4 (bf_mock_rules file)),
          re_response_examples = map (\<lambda>(i, x). x\<lparr>rx_id := fresh i,
              rx_endpoint_id := or_id m2 new_project_id (rx_endpoint_id x)\<rparr>)
            (number_from i5 (bf_response_examples file)),
          re_request_examples = map (\<lambda>(i, x). x\<lparr>qx_id := fresh i,
              qx_endpoint_id := or_id m2 new_project_id (qx_endpoint_id x)\<rparr>)
            (number_from i6 (bf_request_examples file)),
          re_proto_files = map (\<lambda>(i, f). f\<lparr>pf_id := fresh i, pf_project_id := new_project_id\<rparr>)
            (number_from i7 (bf_proto_files file))\<rparr>)"

section \<open>What restoring keeps\<close>

text \<open>
  A file whose references resolve: its identifiers are distinct, a folder's parent is a folder
  listed before it, and the references to folders and endpoints name folders and endpoints of the
  file.
\<close>

fun parents_first :: "uuid set \<Rightarrow> folder list \<Rightarrow> bool" where
  "parents_first known [] = True"
| "parents_first known (f # fs) =
     ((case fo_parent_id f of None \<Rightarrow> True | Some p \<Rightarrow> p \<in> known)
      \<and> parents_first (insert (fo_id f) known) fs)"

definition tree_ids :: "backup_file \<Rightarrow> uuid list" where
  "tree_ids file = pr_id (bf_project file) # map fo_id (bf_folders file) @ map ep_id (bf_endpoints file)"

definition wf_backup :: "backup_file \<Rightarrow> bool" where
  "wf_backup file \<longleftrightarrow>
     distinct (tree_ids file)
     \<and> parents_first {} (bf_folders file)
     \<and> (\<forall>e \<in> set (bf_endpoints file). case ep_folder_id e of None \<Rightarrow> True | Some p \<Rightarrow> p \<in> fo_id ` set (bf_folders file))
     \<and> (\<forall>r \<in> set (bf_mock_rules file). case mr_endpoint_id r of None \<Rightarrow> True | Some p \<Rightarrow> p \<in> ep_id ` set (bf_endpoints file))
     \<and> (\<forall>x \<in> set (bf_response_examples file). rx_endpoint_id x \<in> ep_id ` set (bf_endpoints file))
     \<and> (\<forall>x \<in> set (bf_request_examples file). qx_endpoint_id x \<in> ep_id ` set (bf_endpoints file))"

text \<open>The number of identifiers a restoration draws.\<close>

definition entity_count :: "backup_file \<Rightarrow> nat" where
  "entity_count file = 1 + length (bf_folders file) + length (bf_endpoints file)
     + length (bf_environments file) + length (bf_mock_rules file) + length (bf_response_examples file)
     + length (bf_request_examples file) + length (bf_proto_files file)"

text \<open>The identifiers of the restored entities.\<close>

definition restored_ids :: "restored \<Rightarrow> uuid list" where
  "restored_ids r = pr_id (re_project r) # map fo_id (re_folders r) @ map ep_id (re_endpoints r)
     @ map en_id (re_environments r) @ map mr_id (re_mock_rules r) @ map rx_id (re_response_examples r)
     @ map qx_id (re_request_examples r) @ map pf_id (re_proto_files r)"

lemma map_snd_number_from [simp]: "map snd (number_from i xs) = xs"
  by (simp add: number_from_def)

lemma map_fst_number_from [simp]: "map fst (number_from i xs) = [i..<i + length xs]"
  by (simp add: number_from_def)

lemma length_number_from [simp]: "length (number_from i xs) = length xs"
  by (simp add: number_from_def)

lemma map_number_from:
  "(\<And>i x. f (i, x) = g x) \<Longrightarrow> map f (number_from k xs) = map g xs"
  using map_snd_number_from[of k xs] by (metis (no_types, lifting) list.map_comp list.map_cong0 comp_apply prod.collapse)

lemma map_number_fresh:
  "(\<And>i x. f (i, x) = fresh i) \<Longrightarrow> map f (number_from k xs) = map fresh [k..<k + length xs]"
  using map_fst_number_from[of k xs] by (metis (no_types, lifting) list.map_comp list.map_cong0 comp_apply prod.collapse)

text \<open>The identifier map only grows, by the fresh identifiers in order.\<close>

lemma restore_folders_map:
  assumes "restore_folders fresh np fs i m = (out, m')" "distinct (map fo_id fs)"
  shows "(\<forall>x. x \<notin> fo_id ` set fs \<longrightarrow> m' x = m x)
    \<and> map m' (map fo_id fs) = map (Some \<circ> fresh) [i..<i + length fs]"
  using assms
proof (induction fs arbitrary: i m out)
  case (Cons f fs)
  obtain rest m1 where r: "restore_folders fresh np fs (Suc i) (m(fo_id f \<mapsto> fresh i)) = (rest, m1)"
    by fastforce
  with Cons.prems have m1: "m1 = m'" by (simp add: Let_def)
  note IH = Cons.IH[OF r[unfolded m1]]
  have "m' (fo_id f) = Some (fresh i)" using IH Cons.prems(2) m1 by auto
  moreover have "[i..<i + length (f # fs)] = i # [Suc i..<Suc i + length fs]" by (subst upt_conv_Cons) simp_all
  ultimately show ?case using IH Cons.prems(2) m1 by auto
qed simp

lemma restore_endpoints_map:
  assumes "restore_endpoints fresh np es i m = (out, m')" "distinct (map ep_id es)"
  shows "(\<forall>x. x \<notin> ep_id ` set es \<longrightarrow> m' x = m x)
    \<and> map m' (map ep_id es) = map (Some \<circ> fresh) [i..<i + length es]"
  using assms
proof (induction es arbitrary: i m out)
  case (Cons e es)
  obtain rest m1 where r: "restore_endpoints fresh np es (Suc i) (m(ep_id e \<mapsto> fresh i)) = (rest, m1)"
    by fastforce
  with Cons.prems have m1: "m1 = m'" by (simp add: Let_def)
  note IH = Cons.IH[OF r[unfolded m1]]
  have "m' (ep_id e) = Some (fresh i)" using IH Cons.prems(2) m1 by auto
  moreover have "[i..<i + length (e # es)] = i # [Suc i..<Suc i + length es]" by (subst upt_conv_Cons) simp_all
  ultimately show ?case using IH Cons.prems(2) m1 by auto
qed simp

definition renamed_folder :: "id_map \<Rightarrow> uuid \<Rightarrow> folder \<Rightarrow> folder" where
  "renamed_folder m np f = f\<lparr>fo_id := the (m (fo_id f)), fo_project_id := np,
     fo_parent_id := map_option (the \<circ> m) (fo_parent_id f)\<rparr>"

definition renamed_endpoint :: "id_map \<Rightarrow> uuid \<Rightarrow> endpoint \<Rightarrow> endpoint" where
  "renamed_endpoint m np e = e\<lparr>ep_id := the (m (ep_id e)), ep_project_id := np,
     ep_folder_id := map_option (the \<circ> m) (ep_folder_id e)\<rparr>"

lemma restore_folders_out:
  assumes "restore_folders fresh np fs i m = (out, m')" "distinct (map fo_id fs)"
    "parents_first known fs" "known \<inter> fo_id ` set fs = {}" "known \<subseteq> dom m"
  shows "out = map (renamed_folder m' np) fs"
  using assms
proof (induction fs arbitrary: i m out known)
  case (Cons f fs)
  let ?m1 = "m(fo_id f \<mapsto> fresh i)"
  obtain rest m2 where r: "restore_folders fresh np fs (Suc i) ?m1 = (rest, m2)" by fastforce
  with Cons.prems(1) have m2: "m2 = m'"
    and out: "out = f\<lparr>fo_id := fresh i, fo_project_id := np,
        fo_parent_id := map_option (or_id ?m1 np) (fo_parent_id f)\<rparr> # rest"
    by (simp_all add: Let_def)
  have keep: "m' x = ?m1 x" if "x \<notin> fo_id ` set fs" for x
    using restore_folders_map[OF r] Cons.prems(2) that m2 by auto
  have "rest = map (renamed_folder m' np) fs"
    by (rule Cons.IH[OF r[unfolded m2], of "insert (fo_id f) known"]) (use Cons.prems in auto)
  moreover have "m' (fo_id f) = Some (fresh i)" using keep Cons.prems(2) by simp
  moreover have "or_id ?m1 np p = the (m' p)" if "fo_parent_id f = Some p" for p
  proof -
    have p: "p \<in> known" using Cons.prems(3) that by simp
    then have "p \<notin> fo_id ` set fs" "p \<in> dom m" using Cons.prems(4,5) by auto
    then show ?thesis using keep[of p] by (cases "p = fo_id f") (auto simp: or_id_def)
  qed
  ultimately show ?case
    by (cases "fo_parent_id f") (simp_all add: out renamed_folder_def)
qed simp

lemma restore_endpoints_out:
  assumes "restore_endpoints fresh np es i m = (out, m')" "distinct (map ep_id es)"
    "\<forall>e \<in> set es. case ep_folder_id e of None \<Rightarrow> True | Some p \<Rightarrow> p \<in> dom m \<and> p \<notin> ep_id ` set es"
  shows "out = map (renamed_endpoint m' np) es"
  using assms
proof (induction es arbitrary: i m out)
  case (Cons e es)
  let ?m1 = "m(ep_id e \<mapsto> fresh i)"
  obtain rest m2 where r: "restore_endpoints fresh np es (Suc i) ?m1 = (rest, m2)" by fastforce
  with Cons.prems(1) have m2: "m2 = m'"
    and out: "out = e\<lparr>ep_id := fresh i, ep_project_id := np,
        ep_folder_id := map_option (or_id ?m1 (fresh i)) (ep_folder_id e)\<rparr> # rest"
    by (simp_all add: Let_def)
  have keep: "m' x = ?m1 x" if "x \<notin> ep_id ` set es" for x
    using restore_endpoints_map[OF r] Cons.prems(2) that m2 by auto
  have "rest = map (renamed_endpoint m' np) es"
    by (rule Cons.IH[OF r[unfolded m2]]) (use Cons.prems in \<open>auto split: option.splits\<close>)
  moreover have "m' (ep_id e) = Some (fresh i)" using keep Cons.prems(2) by simp
  moreover have "or_id ?m1 (fresh i) p = the (m' p)" if "ep_folder_id e = Some p" for p
  proof -
    have "p \<in> dom m" "p \<notin> ep_id ` set es" using Cons.prems(3) that by auto
    then show ?thesis using keep[of p] by (cases "p = ep_id e") (auto simp: or_id_def)
  qed
  ultimately show ?case
    by (cases "ep_folder_id e") (simp_all add: out renamed_endpoint_def)
qed simp

text \<open>
  Everything of a restoration in terms of the identifier map \<open>m\<close>; the entities nobody refers to
  (environments, rules, examples, proto files) are compared up to their own fresh identifier.
\<close>

definition renamed_by :: "id_map \<Rightarrow> backup_file \<Rightarrow> restored \<Rightarrow> bool" where
  "renamed_by m file r \<longleftrightarrow>
     (let np = the (m (pr_id (bf_project file))) in
      re_project r = (bf_project file)\<lparr>pr_id := np\<rparr>
      \<and> re_folders r = map (renamed_folder m np) (bf_folders file)
      \<and> re_endpoints r = map (renamed_endpoint m np) (bf_endpoints file)
      \<and> map (\<lambda>e. e\<lparr>en_id := 0\<rparr>) (re_environments r)
          = map (\<lambda>e. e\<lparr>en_id := 0, en_project_id := np\<rparr>) (bf_environments file)
      \<and> map (\<lambda>x. x\<lparr>mr_id := 0\<rparr>) (re_mock_rules r)
          = map (\<lambda>x. x\<lparr>mr_id := 0, mr_project_id := np,
                mr_endpoint_id := map_option (the \<circ> m) (mr_endpoint_id x)\<rparr>) (bf_mock_rules file)
      \<and> map (\<lambda>x. x\<lparr>rx_id := 0\<rparr>) (re_response_examples r)
          = map (\<lambda>x. x\<lparr>rx_id := 0, rx_endpoint_id := the (m (rx_endpoint_id x))\<rparr>) (bf_response_examples file)
      \<and> map (\<lambda>x. x\<lparr>qx_id := 0\<rparr>) (re_request_examples r)
          = map (\<lambda>x. x\<lparr>qx_id := 0, qx_endpoint_id := the (m (qx_endpoint_id x))\<rparr>) (bf_request_examples file)
      \<and> map (\<lambda>x. x\<lparr>pf_id := 0\<rparr>) (re_proto_files r)
          = map (\<lambda>x. x\<lparr>pf_id := 0, pf_project_id := np\<rparr>) (bf_proto_files file))"

lemma restore_backup_maps:
  obtains folders m1 endpoints m2 where
    "restore_folders fresh (fresh 0) (bf_folders file) 1 (Map.empty(pr_id (bf_project file) \<mapsto> fresh 0)) = (folders, m1)"
    "restore_endpoints fresh (fresh 0) (bf_endpoints file) (1 + length (bf_folders file)) m1 = (endpoints, m2)"
  by fastforce

lemma or_id_dom: "p \<in> dom m \<Longrightarrow> or_id m d p = the (m p)"
  by (auto simp: or_id_def)

lemma map_Some_the: "map m ys = map (Some \<circ> f) ks \<Longrightarrow> map (the \<circ> m) ys = map f ks"
  by (metis (no_types, lifting) comp_apply list.map_comp list.map_cong0 option.sel)

lemma restore_folders_ids:
  "restore_folders fresh np fs i m = (out, m') \<Longrightarrow> map fo_id out = map fresh [i..<i + length fs]"
proof (induction fs arbitrary: i m out)
  case (Cons f fs)
  obtain rest m1 where r: "restore_folders fresh np fs (Suc i) (m(fo_id f \<mapsto> fresh i)) = (rest, m1)"
    by fastforce
  have "[i..<i + length (f # fs)] = i # [Suc i..<Suc i + length fs]" by (subst upt_conv_Cons) simp_all
  then show ?case using Cons r by (auto simp: Let_def)
qed simp

lemma restore_endpoints_ids:
  "restore_endpoints fresh np es i m = (out, m') \<Longrightarrow> map ep_id out = map fresh [i..<i + length es]"
proof (induction es arbitrary: i m out)
  case (Cons e es)
  obtain rest m1 where r: "restore_endpoints fresh np es (Suc i) (m(ep_id e \<mapsto> fresh i)) = (rest, m1)"
    by fastforce
  have "[i..<i + length (e # es)] = i # [Suc i..<Suc i + length es]" by (subst upt_conv_Cons) simp_all
  then show ?case using Cons r by (auto simp: Let_def)
qed simp

lemma restored_ids_fresh: "restored_ids (restore_backup fresh file) = map fresh [0..<entity_count file]"
proof -
  obtain folders m1 endpoints m2 where
    f: "restore_folders fresh (fresh 0) (bf_folders file) 1 (Map.empty(pr_id (bf_project file) \<mapsto> fresh 0)) = (folders, m1)"
    and e: "restore_endpoints fresh (fresh 0) (bf_endpoints file) (1 + length (bf_folders file)) m1 = (endpoints, m2)"
    by (rule restore_backup_maps)
  have split: "map fresh [0..<a + b] = map fresh [0..<a] @ map fresh [a..<a + b]" for a b
    using upt_add_eq_append[of 0 a b] by simp
  have zero: "map fresh [0..<1] = [fresh 0]" by simp
  have "pr_id (re_project (restore_backup fresh file)) # map fo_id folders @ map ep_id endpoints
     = map fresh [0..<1 + length (bf_folders file) + length (bf_endpoints file)]"
    using restore_folders_ids[OF f] restore_endpoints_ids[OF e] f e
    by (simp only: split zero) (simp add: restore_backup_def Let_def)
  then show ?thesis
    using f e
    by (simp only: restored_ids_def entity_count_def split)
      (simp add: restore_backup_def Let_def comp_def case_prod_beta map_number_fresh[where f = "\<lambda>p. fresh (fst p)"])
qed

lemma upt_blocks: "[0..<Suc (a + b)] = 0 # [Suc 0..<Suc a] @ [Suc a..<Suc (a + b)]"
proof -
  have "[0..<Suc a + b] = [0..<Suc a] @ [Suc a..<Suc a + b]" by (rule upt_add_eq_append) simp
  moreover have "[0..<Suc a] = 0 # [Suc 0..<Suc a]" by (rule upt_conv_Cons) simp
  ultimately show ?thesis by simp
qed

text \<open>The references of a well-formed file are in the domain of the final map.\<close>

lemma restore_map_total:
  assumes "wf_backup file"
    and f: "restore_folders fresh (fresh 0) (bf_folders file) 1 (Map.empty(pr_id (bf_project file) \<mapsto> fresh 0)) = (folders, m1)"
    and e: "restore_endpoints fresh (fresh 0) (bf_endpoints file) (1 + length (bf_folders file)) m1 = (endpoints, m2)"
  shows "map m2 (tree_ids file) = map (Some \<circ> fresh) [0..<length (tree_ids file)]"
    and "x \<in> fo_id ` set (bf_folders file) \<Longrightarrow> m2 x = m1 x \<and> x \<in> dom m1"
proof -
  have d: "distinct (map fo_id (bf_folders file))" "distinct (map ep_id (bf_endpoints file))"
    "pr_id (bf_project file) \<notin> fo_id ` set (bf_folders file)"
    "pr_id (bf_project file) \<notin> ep_id ` set (bf_endpoints file)"
    "fo_id ` set (bf_folders file) \<inter> ep_id ` set (bf_endpoints file) = {}"
    using assms(1) by (auto simp: wf_backup_def tree_ids_def)
  note F = restore_folders_map[OF f d(1)] and E = restore_endpoints_map[OF e d(2)]
  have proj: "m2 (pr_id (bf_project file)) = Some (fresh 0)" using F E d by simp
  have keep: "m2 x = m1 x" if "x \<in> fo_id ` set (bf_folders file)" for x
    using E d(5) that by blast
  have mm: "map m2 (map fo_id (bf_folders file)) = map m1 (map fo_id (bf_folders file))"
    using keep by auto
  have "map m2 (tree_ids file) = Some (fresh 0) # map (Some \<circ> fresh) [1..<1 + length (bf_folders file)]
      @ map (Some \<circ> fresh) [1 + length (bf_folders file)..<1 + length (bf_folders file) + length (bf_endpoints file)]"
    by (simp only: tree_ids_def list.map map_append mm F[THEN conjunct2] E[THEN conjunct2] proj)
  also have "\<dots> = map (Some \<circ> fresh) [0..<length (tree_ids file)]"
    using upt_blocks[of "length (bf_folders file)" "length (bf_endpoints file)"]
    by (simp add: tree_ids_def del: upt_Suc)
  finally show "map m2 (tree_ids file) = map (Some \<circ> fresh) [0..<length (tree_ids file)]" .
  assume x: "x \<in> fo_id ` set (bf_folders file)"
  have "m1 x \<noteq> None"
  proof -
    have "m1 x \<in> set (map m1 (map fo_id (bf_folders file)))" using x by auto
    then show ?thesis using F by (metis (no_types, lifting) comp_apply in_set_conv_nth length_map nth_map option.distinct(1))
  qed
  then show "m2 x = m1 x \<and> x \<in> dom m1" using keep x by auto
qed

lemma parents_first_parent:
  "parents_first known fs \<Longrightarrow> f \<in> set fs \<Longrightarrow> fo_parent_id f = Some p \<Longrightarrow> p \<in> known \<union> fo_id ` set fs"
proof (induction fs arbitrary: known)
  case (Cons g fs)
  show ?case
  proof (cases "f = g")
    case True
    then show ?thesis using Cons.prems by simp
  next
    case False
    then show ?thesis using Cons.IH[of "insert (fo_id g) known"] Cons.prems by auto
  qed
qed simp

lemma wf_refs:
  assumes "wf_backup file"
  shows "x \<in> set (bf_response_examples file) \<Longrightarrow> rx_endpoint_id x \<in> ep_id ` set (bf_endpoints file)"
    "y \<in> set (bf_request_examples file) \<Longrightarrow> qx_endpoint_id y \<in> ep_id ` set (bf_endpoints file)"
  using assms by (auto simp: wf_backup_def)

lemma nth_number_from: "i < length xs \<Longrightarrow> number_from k xs ! i = (k + i, xs ! i)"
  by (simp add: number_from_def)

lemma number_map:
  "map h (number_from k xs) = map u xs \<longleftrightarrow> (\<forall>i < length xs. h (k + i, xs ! i) = u (xs ! i))"
  by (simp add: list_eq_iff_nth_eq nth_number_from)

lemma restore_is_renaming_laws:
  assumes "wf_backup file" "inj_on fresh {..<entity_count file}"
  shows "\<exists>m. inj_on m (set (tree_ids file)) \<and> set (tree_ids file) \<subseteq> dom m
      \<and> renamed_by m file (restore_backup fresh file)"
    and "distinct (restored_ids (restore_backup fresh file))"
proof -
  show "distinct (restored_ids (restore_backup fresh file))"
    using assms(2) by (simp add: restored_ids_fresh distinct_map lessThan_atLeast0)
  obtain folders m1 endpoints m2 where
    f: "restore_folders fresh (fresh 0) (bf_folders file) 1 (Map.empty(pr_id (bf_project file) \<mapsto> fresh 0)) = (folders, m1)"
    and e: "restore_endpoints fresh (fresh 0) (bf_endpoints file) (1 + length (bf_folders file)) m1 = (endpoints, m2)"
    by (rule restore_backup_maps)
  have d: "distinct (tree_ids file)" "distinct (map fo_id (bf_folders file))" "distinct (map ep_id (bf_endpoints file))"
    "fo_id ` set (bf_folders file) \<inter> ep_id ` set (bf_endpoints file) = {}"
    using assms(1) by (auto simp: wf_backup_def tree_ids_def)
  note total = restore_map_total[OF assms(1) f e]
  have inj: "inj_on (m2 :: id_map) (set (tree_ids file))"
  proof -
    have "inj_on fresh {0..<length (tree_ids file)}"
      using assms(2) by (rule inj_on_subset) (auto simp: tree_ids_def entity_count_def)
    then have "distinct (map m2 (tree_ids file))"
      by (simp add: total(1) distinct_map inj_on_def)
    then show ?thesis by (simp add: distinct_map)
  qed
  have dom: "set (tree_ids file) \<subseteq> dom m2"
  proof
    fix x assume "x \<in> set (tree_ids file)"
    then have "m2 x \<in> set (map m2 (tree_ids file))" by simp
    then show "x \<in> dom m2" by (auto simp: total(1))
  qed
  have proj: "the (m2 (pr_id (bf_project file))) = fresh 0"
    using arg_cong[OF total(1), of "\<lambda>l. l ! 0"] by (simp add: tree_ids_def del: upt_Suc)
  have folders: "folders = map (renamed_folder m2 (fresh 0)) (bf_folders file)"
  proof -
    have "folders = map (renamed_folder m1 (fresh 0)) (bf_folders file)"
      by (rule restore_folders_out[OF f d(2), of "{}"]) (use assms(1) in \<open>simp_all add: wf_backup_def\<close>)
    moreover have "renamed_folder m1 (fresh 0) x = renamed_folder m2 (fresh 0) x" if "x \<in> set (bf_folders file)" for x
    proof -
      have "p \<in> fo_id ` set (bf_folders file)" if "fo_parent_id x = Some p" for p
        using parents_first_parent[of "{}" "bf_folders file" x p] assms(1) that \<open>x \<in> set (bf_folders file)\<close>
        by (simp add: wf_backup_def)
      then show ?thesis using total(2) that
        by (cases "fo_parent_id x") (auto simp: renamed_folder_def)
    qed
    ultimately show ?thesis by simp
  qed
  have ref: "x \<in> ep_id ` set (bf_endpoints file) \<Longrightarrow> x \<in> dom m2" for x
    using dom by (auto simp: tree_ids_def)
  have endpoints: "endpoints = map (renamed_endpoint m2 (fresh 0)) (bf_endpoints file)"
  proof (rule restore_endpoints_out[OF e d(3)], rule ballI)
    fix x assume "x \<in> set (bf_endpoints file)"
    then have "case ep_folder_id x of None \<Rightarrow> True | Some p \<Rightarrow> p \<in> fo_id ` set (bf_folders file)"
      using assms(1) by (simp add: wf_backup_def)
    then show "case ep_folder_id x of None \<Rightarrow> True | Some p \<Rightarrow> p \<in> dom m1 \<and> p \<notin> ep_id ` set (bf_endpoints file)"
      using total(2) d(4) by (auto split: option.splits)
  qed
  let ?r = "restore_backup fresh file"
  have r: "re_project ?r = (bf_project file)\<lparr>pr_id := fresh 0\<rparr>" "re_folders ?r = folders" "re_endpoints ?r = endpoints"
    using f e by (simp_all add: restore_backup_def Let_def)
  have mocks: "map_option (or_id m2 0) (mr_endpoint_id x) = map_option (the \<circ> m2) (mr_endpoint_id x)"
    if "x \<in> set (bf_mock_rules file)" for x
    using assms(1) that ref or_id_dom by (cases "mr_endpoint_id x") (auto simp: wf_backup_def)
  have "renamed_by m2 file ?r"
    unfolding renamed_by_def Let_def proj r folders endpoints
    using f e mocks ref
    by (auto simp: restore_backup_def Let_def number_map wf_refs[OF assms(1)] or_id_dom comp_def)
  then show "\<exists>m. inj_on m (set (tree_ids file)) \<and> set (tree_ids file) \<subseteq> dom m
      \<and> renamed_by m file (restore_backup fresh file)"
    using inj dom by blast
qed

lemma requests_copied:
  "map ep_request (re_endpoints (restore_backup fresh file)) = map ep_request (bf_endpoints file)"
proof -
  have "map ep_request (fst (restore_endpoints fresh np es i m)) = map ep_request es" for np es i m
    by (induction es arbitrary: i m) (simp_all add: Let_def case_prod_unfold)
  from this[of _ "bf_endpoints file"] show ?thesis
    by (simp add: restore_backup_def Let_def case_prod_unfold)
qed

text \<open>
  C21: A restored project is a renamed copy. Take a backup whose project, folders and endpoints have
  distinct identifiers, whose folders are listed after their parents, and whose references from
  endpoints to folders and from mock rules and examples to endpoints name entities of the file; and
  let the drawn identifiers be distinct. Then there is one injective renaming of its project, folders
  and endpoints such that the restored entities are those of the file, in the same order, with the
  identifier of every entity replaced and the references that are columns (the owning project, the
  parent folder, the folder of an endpoint, the endpoint of a mock rule or example) renamed, and
  nothing else changed; and all identifiers of the restored entities are distinct. References inside
  a request are not renamed: it is copied as it is, with the identifiers of the old proto files in it
  (\<open>requests_copied\<close>).
\<close>

theorem restore_is_renaming:
  assumes "wf_backup file" "inj_on fresh {..<entity_count file}"
  shows "(\<exists>m. inj_on m (set (tree_ids file)) \<and> set (tree_ids file) \<subseteq> dom m
      \<and> renamed_by m file (restore_backup fresh file))
    \<and> (distinct (restored_ids (restore_backup fresh file)))"
  by (intro conjI impI) (rule restore_is_renaming_laws[OF assms]; assumption)+

section \<open>What parsing accepts\<close>

text \<open>
  The text of a file parses back: printing and parsing JSON and the derived instance agree on the
  file, and the version that the gate reads is the one the file holds.
\<close>

definition backup_lawful :: "codec \<Rightarrow> backup_file serde \<Rightarrow> backup_file \<Rightarrow> bool" where
  "backup_lawful C B f \<longleftrightarrow>
     (case ser B f of
        Inl _ \<Rightarrow> False
      | Inr t \<Rightarrow>
          (case de (co_json C) t of
             Inl _ \<Rightarrow> False
           | Inr v \<Rightarrow>
               json_get ''schema_version'' v = Some (JNumber (PosInt (ucast (bf_schema_version f))))
               \<and> de_value B v = Ok f))"

lemma backup_parse_laws:
  shows "backup_lawful C B (build_backup C now i) \<Longrightarrow>
      \<exists>t. serialize_backup B (build_backup C now i) = Ok t \<and> parse_backup C B t = Ok (build_backup C now i)"
    and "parse_backup C B text = Ok f \<Longrightarrow> bf_format f = FORMAT \<and> bf_schema_version f \<le> 3"
proof -
  show "\<exists>t. serialize_backup B (build_backup C now i) = Ok t \<and> parse_backup C B t = Ok (build_backup C now i)"
    if "backup_lawful C B (build_backup C now i)"
    using that
    by (auto simp: backup_lawful_def serialize_backup_def parse_backup_def build_backup_def
        SCHEMA_VERSION_def as_u64_def split: sum.splits)
  show "bf_format f = FORMAT \<and> bf_schema_version f \<le> 3" if "parse_backup C B text = Ok f"
    using that
    by (auto simp: parse_backup_def and_then_eq_Inr SCHEMA_VERSION_def Let_def not_less split: if_splits)
qed

text \<open>
  A backup that was built and serialized parses back to itself; and whatever text is parsed, an
  accepted file carries the format mark and a schema version of at most three, a newer version
  being refused by name.
\<close>

theorem backup_parse:
  shows "(backup_lawful C B (build_backup C now i) \<longrightarrow>
      (\<exists>t. serialize_backup B (build_backup C now i) = Ok t \<and> parse_backup C B t = Ok (build_backup C now i)))
    \<and> (parse_backup C B text = Ok f \<longrightarrow> bf_format f = FORMAT \<and> bf_schema_version f \<le> 3)"
  using backup_parse_laws(1)[of C B now i] backup_parse_laws(2)[of C B "text" f] by blast

text \<open>
  Two readers of the old map of variables agree: upgrading the map of a version 1 backup and
  reading the result gives the variables that the storage layer reads from the same map of an old
  row, the \<open>base_url\<close> entry apart, which the upgrade promotes.
\<close>

theorem upgrade_agrees_with_rows:
  assumes "\<forall>kv \<in> set m. de_value (co_var C) (upgraded_variable C kv) = Ok (legacy_variable C kv)"
  shows "variables_from_value C (fst (upgrade_variables C m))
    = variables_from_value C (JObject (obj_remove ''base_url'' m))"
proof -
  have "collect_results (\<lambda>item. map_err (\<lambda>_. e) (de_value (co_var C) item)) (map (upgraded_variable C) xs)
      = Ok (map (legacy_variable C) xs)" if "set xs \<subseteq> set m" for xs and e :: app_error
    using that assms by (induction xs) auto
  then show ?thesis
    by (simp add: upgrade_variables_def variables_from_value_def obj_remove_def conj_commute subset_iff)
qed

section \<open>A concrete file\<close>

definition demo_input :: backup_input where
  "demo_input =
     \<lparr>bi_project = \<lparr>pr_id = 2, pr_name = ''p'', pr_description = [], pr_variables = Map.empty,
        pr_created_at = 0, pr_updated_at = 0\<rparr>,
      bi_folders = [\<lparr>fo_id = 7, fo_project_id = 2, fo_parent_id = None, fo_name = ''outer'',
          fo_sort_order = 0, fo_created_at = 0, fo_updated_at = 0\<rparr>,
        \<lparr>fo_id = 8, fo_project_id = 2, fo_parent_id = Some 7, fo_name = ''inner'',
          fo_sort_order = 0, fo_created_at = 0, fo_updated_at = 0\<rparr>],
      bi_endpoints = [demo_endpoint\<lparr>ep_folder_id := Some 8\<rparr>],
      bi_environments = [demo_environment], bi_mock_rules = [demo_mock_rule],
      bi_response_examples = [], bi_request_examples = [], bi_proto_files = [],
      bi_settings = Map.empty, bi_global_variables = [], bi_global_params = []\<rparr>"

definition demo_file :: backup_file where
  "demo_file = build_backup demo_codec 0 demo_input"

lemma demo_file_wf: "wf_backup demo_file"
  by (simp add: demo_file_def wf_backup_def tree_ids_def build_backup_def demo_input_def
      demo_endpoint_def demo_mock_rule_def)

lemma demo_fresh: "inj_on (word_of_nat :: nat \<Rightarrow> uuid) {..<entity_count demo_file}"
proof -
  have "entity_count demo_file = 6"
    by (simp add: entity_count_def demo_file_def build_backup_def demo_input_def)
  moreover have "{..<6::nat} = {0, 1, 2, 3, 4, 5}" by auto
  ultimately show ?thesis by simp
qed

lemma restore_is_renaming_witness: "distinct (restored_ids (restore_backup word_of_nat demo_file))"
  by (rule restore_is_renaming[OF demo_file_wf demo_fresh, THEN conjunct2])

text \<open>A codec and an instance that know the one text of the file.\<close>

definition file_codec :: codec where
  "file_codec = demo_codec\<lparr>co_json := const_serde ''B'' (JObject [(''schema_version'', JNumber (PosInt 3))])\<rparr>"

lemma backup_parse_witness:
  "\<exists>t. parse_backup file_codec (const_serde ''B'' (build_backup file_codec 0 demo_input)) t
     = Ok (build_backup file_codec 0 demo_input)"
proof -
  have "backup_lawful file_codec (const_serde ''B'' (build_backup file_codec 0 demo_input))
      (build_backup file_codec 0 demo_input)"
    by (simp add: backup_lawful_def file_codec_def const_serde_def build_backup_def SCHEMA_VERSION_def
        json_get_def)
  from backup_parse[THEN conjunct1, rule_format, OF this] show ?thesis by blast
qed

lemma upgrade_agrees_with_rows_witness:
  "variables_from_value demo_codec (fst (upgrade_variables demo_codec [(''base_url'', JString ''u''), (''k'', JString ''v'')]))
     = Ok [demo_variable]"
proof -
  have "\<forall>kv \<in> set [(''k'', JString ''v'')].
      de_value (co_var demo_codec) (upgraded_variable demo_codec kv) = Ok (legacy_variable demo_codec kv)"
    by (simp add: demo_codec_def const_serde_def legacy_variable_def demo_variable_def variable_text_def)
  then have "variables_from_value demo_codec (fst (upgrade_variables demo_codec [(''k'', JString ''v'')]))
      = variables_from_value demo_codec (JObject (obj_remove ''base_url'' [(''k'', JString ''v'')]))"
    by (rule upgrade_agrees_with_rows)
  moreover have "\<not> skipped_key ''k''" by code_simp
  then have "variables_from_value demo_codec (JObject (obj_remove ''base_url'' [(''k'', JString ''v'')]))
      = Ok [demo_variable]"
    by (simp add: variables_from_value_def obj_remove_def legacy_variable_def
        demo_variable_def variable_text_def)
  moreover have "fst (upgrade_variables demo_codec [(''base_url'', JString ''u''), (''k'', JString ''v'')])
      = fst (upgrade_variables demo_codec [(''k'', JString ''v'')])"
    by (simp add: upgrade_variables_def)
  ultimately show ?thesis by simp
qed

end
