(* ===== verification/BackupFlow.thy ===== *)
theory BackupFlow
  imports Backup RepoLaws Variable
begin

text \<open>
  The two backup commands, \<open>crates/fox-tauri/src/commands/backup.rs\<close>: exporting a project reads it
  out of the repositories into a file; restoring parses a file, gives everything new identifiers,
  writes all of it in one transaction and then merges the global tables. The values of a hash table
  come in an order of its own, a parameter (\<open>into_values\<close>). The conversion of the errors for the
  frontend is left out.
\<close>

section \<open>Export\<close>

definition BACKUP_SETTING_KEYS :: "str list" where
  "BACKUP_SETTING_KEYS = [''http_proxy'', ''http_timeout_ms'', ''seq_counters'']"

definition backup_export ::
  "codec \<Rightarrow> backup_file serde \<Rightarrow> ((uuid, response_example list) hash_map \<Rightarrow> response_example list list)
     \<Rightarrow> ((uuid, request_example list) hash_map \<Rightarrow> request_example list list)
     \<Rightarrow> datetime \<Rightarrow> db \<Rightarrow> uuid \<Rightarrow> (app_error, str) result" where
  "backup_export C B responses_of requests_of now d project_id =
     and_then (get_project C project_id d) (\<lambda>project.
     and_then (list_folders C project_id d) (\<lambda>folders.
     and_then (list_endpoints C project_id d) (\<lambda>endpoints.
     and_then (list_environments C project_id d) (\<lambda>environments.
     and_then (list_mock_rules C project_id d) (\<lambda>mock_rules.
     and_then (get_global_variables C d) (\<lambda>global_variables.
     and_then (get_global_params C d) (\<lambda>global_params.
     and_then (list_proto_files C project_id d) (\<lambda>proto_files.
       let active_ids = map ep_id (filter (\<lambda>e. ep_status e \<noteq> Deprecated) endpoints);
           response_examples = concat (responses_of
             (ok_or Map.empty (list_response_examples_by_endpoints C active_ids d)));
           request_examples = concat (requests_of
             (ok_or Map.empty (list_request_examples_by_endpoints C active_ids d)))
       in serialize_backup B (build_backup C now
            \<lparr>bi_project = project, bi_folders = folders, bi_endpoints = endpoints,
             bi_environments = environments, bi_mock_rules = mock_rules,
             bi_response_examples = response_examples, bi_request_examples = request_examples,
             bi_proto_files = proto_files, bi_settings = get_settings d BACKUP_SETTING_KEYS,
             bi_global_variables = global_variables, bi_global_params = global_params\<rparr>)))))))))"

section \<open>Merging the global tables\<close>

record globals_summary =
  gs_settings_applied :: "str list"
  gs_settings_skipped :: "str list"
  gs_variables_merged :: nat
  gs_params_merged :: nat

definition default_summary :: globals_summary where
  "default_summary = \<lparr>gs_settings_applied = [], gs_settings_skipped = [], gs_variables_merged = 0,
     gs_params_merged = 0\<rparr>"

text \<open>Variables: \<open>keys\<close> grows with every variable that is added.\<close>

fun missing_variables :: "environment_variable list \<Rightarrow> str set \<Rightarrow> environment_variable list" where
  "missing_variables [] keys = []"
| "missing_variables (v # vs) keys =
     (if ev_key v \<in> keys then missing_variables vs keys
      else v # missing_variables vs (insert (ev_key v) keys))"

definition param_key :: "global_param \<Rightarrow> str" where
  "param_key p = (case gm_location p of GP_Query \<Rightarrow> ''Query'' | GP_Header \<Rightarrow> ''Header'')
     @ '':'' @ to_lowercase (gm_key p)"

definition missing_params :: "global_param list \<Rightarrow> global_param list \<Rightarrow> global_param list" where
  "missing_params current incoming = filter (\<lambda>p. param_key p \<notin> param_key ` set current) incoming"

definition restore_variables ::
  "codec \<Rightarrow> str \<Rightarrow> backup_file \<Rightarrow> db \<Rightarrow> (app_error, nat \<times> db) result" where
  "restore_variables C nonce file d =
     (if bf_global_variables file = [] then Ok (0, d)
      else and_then (get_global_variables C d) (\<lambda>current.
        let added = missing_variables (bf_global_variables file) (ev_key ` set current)
        in Ok (length added, if added = [] then d else save_global_variables C nonce (current @ added) d)))"

definition restore_params ::
  "codec \<Rightarrow> str \<Rightarrow> backup_file \<Rightarrow> db \<Rightarrow> (app_error, nat \<times> db) result" where
  "restore_params C nonce file d =
     (if bf_global_params file = [] then Ok (0, d)
      else and_then (get_global_params C d) (\<lambda>current.
        let added = missing_params current (bf_global_params file)
        in Ok (length added, if added = [] then d else save_global_params C nonce (current @ added) d)))"

fun restore_settings ::
  "(str, str) hash_map \<Rightarrow> str list \<Rightarrow> globals_summary \<times> db \<Rightarrow> globals_summary \<times> db" where
  "restore_settings incoming [] st = st"
| "restore_settings incoming (key # keys) (s, d) =
     restore_settings incoming keys
       (case incoming key of
          None \<Rightarrow> (s, d)
        | Some v \<Rightarrow>
            (if get_setting d key \<noteq> None
             then (s\<lparr>gs_settings_skipped := gs_settings_skipped s @ [key]\<rparr>, d)
             else (s\<lparr>gs_settings_applied := gs_settings_applied s @ [key]\<rparr>, set_setting key v d)))"

definition merge_counter :: "str \<times> u64 \<Rightarrow> u64 str_table \<Rightarrow> u64 str_table" where
  "merge_counter kv merged =
     (case map_of merged (fst kv) of
        None \<Rightarrow> AList.update (fst kv) (snd kv) merged
      | Some cur \<Rightarrow> if cur < snd kv then AList.update (fst kv) (snd kv) merged else merged)"

text \<open>
  The counters are read, merged with those of the file, written to the settings and then put back,
  with the write to the database awaited in between: \<open>meanwhile\<close> is what other tasks do to the
  counters during that time.
\<close>

definition restore_counters ::
  "u64 str_table serde \<Rightarrow> (seq_state \<Rightarrow> seq_state) \<Rightarrow> backup_file \<Rightarrow> globals_summary \<times> db \<times> seq_state
     \<Rightarrow> (app_error, globals_summary \<times> db \<times> seq_state) result" where
  "restore_counters N meanwhile file st =
     (case st of (s, d, q) \<Rightarrow>
       (case bf_settings file ''seq_counters'' of
          None \<Rightarrow> Ok (s, d, q)
        | Some seq_json \<Rightarrow>
            (let incoming = ok_or [] (de N seq_json) in
             if incoming = [] then Ok (s, d, q)
             else
               (let merged = fold merge_counter incoming (dump_seq_counters q) in
                and_then (map_err (\<lambda>e. Json_Error (Msg e [])) (ser N merged)) (\<lambda>json.
                  Ok (s\<lparr>gs_settings_applied := gs_settings_applied s @ [''seq_counters'']\<rparr>,
                      set_setting ''seq_counters'' json d, load_seq_counters merged (meanwhile q)))))))"

text \<open>
  An error ends the merge; what was written before it stays. The state of the counters is the one
  the merge finds when it comes to them.
\<close>

definition restore_globals ::
  "codec \<Rightarrow> u64 str_table serde \<Rightarrow> str \<Rightarrow> str \<Rightarrow> (seq_state \<Rightarrow> seq_state) \<Rightarrow> backup_file \<Rightarrow> db \<times> seq_state
     \<Rightarrow> (app_error, globals_summary) result \<times> db \<times> seq_state" where
  "restore_globals C N nonce1 nonce2 meanwhile file st =
     (case st of (d, q) \<Rightarrow>
       (case restore_variables C nonce1 file d of
          Inl e \<Rightarrow> (Err e, d, q)
        | Inr (n1, d1) \<Rightarrow>
            (case restore_params C nonce2 file d1 of
               Inl e \<Rightarrow> (Err e, d1, q)
             | Inr (n2, d2) \<Rightarrow>
                 (case restore_settings (bf_settings file) [''http_proxy'', ''http_timeout_ms'']
                         (default_summary\<lparr>gs_variables_merged := n1, gs_params_merged := n2\<rparr>, d2) of
                    (s, d3) \<Rightarrow>
                      (case restore_counters N meanwhile file (s, d3, q) of
                         Inl e \<Rightarrow> (Err e, d3, q)
                       | Inr (s', d4, q') \<Rightarrow> (Ok s', d4, q'))))))"

section \<open>Restore\<close>

text \<open>The writes of the transaction; \<open>nonces1\<close> and \<open>nonces2\<close> feed the encryption of the rows.\<close>

definition save_restored ::
  "codec \<Rightarrow> (nat \<Rightarrow> nat \<Rightarrow> str) \<Rightarrow> (nat \<Rightarrow> str) \<Rightarrow> restored \<Rightarrow> db \<Rightarrow> (app_error, db) result" where
  "save_restored C nonces1 nonces2 r d =
     and_then (save_project C (re_project r) d) (\<lambda>d.
     and_then (save_folders_bulk C (re_folders r) d) (\<lambda>d.
     and_then (save_endpoints_bulk C nonces1 (re_endpoints r) d) (\<lambda>d.
     and_then (save_environments_bulk C nonces2 (re_environments r) d) (\<lambda>d.
     and_then (save_mock_rules_bulk C (re_mock_rules r) d) (\<lambda>d.
     and_then (save_response_examples_bulk C (re_response_examples r) d) (\<lambda>d.
     and_then (save_request_examples_bulk C (re_request_examples r) d) (\<lambda>d.
     save_proto_files_bulk C (re_proto_files r) d)))))))"

definition count_json :: "'a list \<Rightarrow> json" where
  "count_json xs = JNumber (PosInt (of_nat (length xs)))"

definition restore_summary :: "codec \<Rightarrow> restored \<Rightarrow> globals_summary \<Rightarrow> json" where
  "restore_summary C r g =
     JObject
      [(''endpoints'', count_json (re_endpoints r)),
       (''environments'', count_json (re_environments r)),
       (''folders'', count_json (re_folders r)),
       (''global_params_merged'', JNumber (PosInt (of_nat (gs_params_merged g)))),
       (''global_variables_merged'', JNumber (PosInt (of_nat (gs_variables_merged g)))),
       (''id'', JString (co_uuid_text C (pr_id (re_project r)))),
       (''mock_rules'', count_json (re_mock_rules r)),
       (''name'', JString (pr_name (re_project r))),
       (''proto_files'', count_json (re_proto_files r)),
       (''request_examples'', count_json (re_request_examples r)),
       (''response_examples'', count_json (re_response_examples r)),
       (''settings_applied'', JArray (map JString (gs_settings_applied g))),
       (''settings_skipped'', JArray (map JString (gs_settings_skipped g)))]"

record restore_draws =
  rd_fresh :: "nat \<Rightarrow> uuid"
  rd_nonces1 :: "nat \<Rightarrow> nat \<Rightarrow> str"
  rd_nonces2 :: "nat \<Rightarrow> str"
  rd_nonce3 :: str
  rd_nonce4 :: str
  rd_meanwhile :: "seq_state \<Rightarrow> seq_state"

definition backup_restore ::
  "codec \<Rightarrow> backup_file serde \<Rightarrow> u64 str_table serde \<Rightarrow> restore_draws \<Rightarrow> str \<Rightarrow> db \<times> seq_state
     \<Rightarrow> (app_error, json) result \<times> db \<times> seq_state" where
  "backup_restore C B N rnd txt st =
     (case st of (d, q) \<Rightarrow>
       (case parse_backup C B txt of
          Inl e \<Rightarrow> (Err e, d, q)
        | Inr file \<Rightarrow>
            (let r = restore_backup (rd_fresh rnd) file in
             (case save_restored C (rd_nonces1 rnd) (rd_nonces2 rnd) r d of
                Inl e \<Rightarrow> (Err e, d, q)
              | Inr d' \<Rightarrow>
                  (case restore_globals C N (rd_nonce3 rnd) (rd_nonce4 rnd) (rd_meanwhile rnd) file (d', q) of
                     (g, st') \<Rightarrow> (Ok (restore_summary C r (ok_or default_summary g)), st'))))))"

section \<open>The merge of the global tables is conservative\<close>

definition same_tables :: "db \<Rightarrow> db \<Rightarrow> bool" where
  "same_tables d d' \<longleftrightarrow> d' = d\<lparr>t_settings := t_settings d'\<rparr>"

lemma same_tables_trans: "same_tables d d1 \<Longrightarrow> same_tables d1 d2 \<Longrightarrow> same_tables d d2"
  unfolding same_tables_def by (cases d; cases d1; cases d2) simp

lemma same_tables_simps [simp]:
  "same_tables d d" "same_tables d (set_setting k v d)"
  "same_tables d (save_global_variables C nonce vs d)" "same_tables d (save_global_params C nonce ps d)"
  by (simp_all add: same_tables_def set_setting_def save_global_variables_def save_global_params_def)

text \<open>The three steps that write one key each.\<close>

lemma restore_variables_keeps:
  assumes "restore_variables C nonce file d = Ok (n, d')"
  shows "same_tables d d'" "k \<noteq> ''global_variables'' \<Longrightarrow> get_setting d' k = get_setting d k"
  using assms by (auto simp: restore_variables_def and_then_eq_Inr Let_def save_global_variables_def
      get_set_setting split: if_splits)

lemma restore_params_keeps:
  assumes "restore_params C nonce file d = Ok (n, d')"
  shows "same_tables d d'" "k \<noteq> ''global_params'' \<Longrightarrow> get_setting d' k = get_setting d k"
  using assms by (auto simp: restore_params_def and_then_eq_Inr Let_def save_global_params_def
      get_set_setting split: if_splits)

lemma restore_settings_step:
  obtains s1 d1 where "restore_settings incoming (key # keys) (s, d) = restore_settings incoming keys (s1, d1)"
    "same_tables d d1"
    "\<And>k. get_setting d1 k = (if k = key \<and> get_setting d key = None then incoming key else get_setting d k)"
proof (cases "incoming key")
  case None
  then show ?thesis using that[of s d] by simp
next
  case (Some v)
  show ?thesis
  proof (cases "get_setting d key")
    case None
    with Some show ?thesis
      using that[of "s\<lparr>gs_settings_applied := gs_settings_applied s @ [key]\<rparr>" "set_setting key v d"]
      by (simp add: get_set_setting)
  next
    case (Some w)
    with \<open>incoming key = Some v\<close> show ?thesis
      using that[of "s\<lparr>gs_settings_skipped := gs_settings_skipped s @ [key]\<rparr>" d] by simp
  qed
qed

lemma restore_settings_keeps:
  assumes "restore_settings incoming keys (s, d) = (s', d')"
  shows "same_tables d d' \<and> get_setting d' k =
    (case get_setting d k of Some v \<Rightarrow> Some v | None \<Rightarrow> if k \<in> set keys then incoming k else None)"
  using assms
proof (induction keys arbitrary: s d)
  case (Cons key keys)
  obtain s1 d1 where step: "restore_settings incoming (key # keys) (s, d) = restore_settings incoming keys (s1, d1)"
    and same: "same_tables d d1"
    and get: "\<And>k. get_setting d1 k = (if k = key \<and> get_setting d key = None then incoming key else get_setting d k)"
    using restore_settings_step[where incoming = incoming and key = key and keys = keys and s = s and d = d]
    by blast
  have "same_tables d1 d' \<and> get_setting d' k =
    (case get_setting d1 k of Some v \<Rightarrow> Some v | None \<Rightarrow> if k \<in> set keys then incoming k else None)"
    by (rule Cons.IH) (use Cons.prems step in simp)
  then show ?case
    using same_tables_trans[OF same] by (auto simp: get split: option.splits)
qed (auto split: option.splits)

lemma merge_counter_lookup:
  "map_of (merge_counter (k, v) t) k' =
     (if k' = k then Some (case map_of t k of None \<Rightarrow> v | Some cur \<Rightarrow> max cur v) else map_of t k')"
  by (auto simp: merge_counter_def update_conv' max_def split: option.splits)

lemma merge_counters_above:
  "map_of t k = Some v \<Longrightarrow> \<exists>v'. map_of (fold merge_counter kvs t) k = Some v' \<and> v \<le> v'"
proof (induction kvs arbitrary: t v)
  case (Cons kv kvs)
  obtain k1 v1 where kv: "kv = (k1, v1)" by fastforce
  have "\<exists>v0. map_of (merge_counter kv t) k = Some v0 \<and> v \<le> v0"
    using Cons.prems by (auto simp: kv merge_counter_lookup)
  then obtain v0 where "map_of (merge_counter kv t) k = Some v0" "v \<le> v0" by blast
  with Cons.IH[of "merge_counter kv t" v0] show ?case by (auto intro: order_trans)
qed simp

lemma merge_counters_in:
  "(k, v) \<in> set kvs \<Longrightarrow> \<exists>v'. map_of (fold merge_counter kvs t) k = Some v' \<and> v \<le> v'"
proof (induction kvs arbitrary: t)
  case (Cons kv kvs)
  show ?case
  proof (cases "kv = (k, v)")
    case True
    have "\<exists>v0. map_of (merge_counter kv t) k = Some v0 \<and> v \<le> v0"
      by (auto simp: True merge_counter_lookup split: option.splits)
    then obtain v0 where v0: "map_of (merge_counter kv t) k = Some v0" "v \<le> v0" by blast
    from merge_counters_above[OF v0(1), of kvs] v0(2) show ?thesis by (auto intro: order_trans)
  qed (use Cons in auto)
qed simp

lemma merge_counters_distinct:
  "distinct (map fst t) \<Longrightarrow> distinct (map fst (fold merge_counter kvs t))"
  by (induction kvs arbitrary: t) (auto simp: merge_counter_def distinct_update split: option.splits)

lemma load_merged:
  assumes "counters_wf q"
  shows "get_counter (load_seq_counters (fold merge_counter kvs (dump_seq_counters q)) q') k
    = (case map_of (fold merge_counter kvs (dump_seq_counters q)) k of
         Some v \<Rightarrow> Some v | None \<Rightarrow> get_counter q' k)"
proof -
  let ?m = "fold merge_counter kvs (dump_seq_counters q)"
  have d: "distinct (map fst ?m)"
    using assms by (intro merge_counters_distinct) (simp add: counters_wf_def dump_seq_counters_def)
  have "get_counter (load_seq_counters ?m q') = get_counter q' ++ map_of ?m"
    by (simp add: load_counters_eq counters.get_put_all insert_all_distinct[OF d])
  then show ?thesis by (simp add: map_add_def)
qed

lemma restore_counters_keys:
  assumes "restore_counters N meanwhile file (s, d, q) = Ok (s', d', q')"
  shows "same_tables d d'" "k \<noteq> ''seq_counters'' \<Longrightarrow> get_setting d' k = get_setting d k"
  using assms by (auto simp: restore_counters_def Let_def and_then_eq_Inr get_set_setting
      split: option.splits if_splits)

lemma restore_counters_merge:
  assumes "restore_counters N meanwhile file (s, d, q) = Ok (s', d', q')" "counters_wf q"
  shows "same_tables d d'" "k \<noteq> ''seq_counters'' \<Longrightarrow> get_setting d' k = get_setting d k"
    "get_counter q k = Some v \<Longrightarrow> \<exists>v'. get_counter q' k = Some v' \<and> v \<le> v'"
    "bf_settings file ''seq_counters'' = Some js \<Longrightarrow> de N js = Ok kvs \<Longrightarrow> (k, v) \<in> set kvs \<Longrightarrow>
       \<exists>v'. get_counter q' k = Some v' \<and> v \<le> v'"
proof -
  let ?inc = "case bf_settings file ''seq_counters'' of None \<Rightarrow> [] | Some js \<Rightarrow> ok_or [] (de N js)"
  let ?m = "fold merge_counter ?inc (dump_seq_counters q)"
  have q': "q' = (if ?inc = [] then q else load_seq_counters ?m (meanwhile q))"
    and d': "same_tables d d'" "k \<noteq> ''seq_counters'' \<longrightarrow> get_setting d' k = get_setting d k"
    using assms(1) by (auto simp: restore_counters_def Let_def and_then_eq_Inr get_set_setting
        split: option.splits if_splits)
  show "same_tables d d'" "k \<noteq> ''seq_counters'' \<Longrightarrow> get_setting d' k = get_setting d k"
    using d' by simp_all
  show "\<exists>v'. get_counter q' k = Some v' \<and> v \<le> v'" if "get_counter q k = Some v"
  proof -
    from that obtain v' where "map_of ?m k = Some v'" "v \<le> v'"
      using merge_counters_above[of "dump_seq_counters q" k v ?inc] by (auto simp: get_counter_def dump_seq_counters_def)
    with that show ?thesis by (simp add: q' load_merged[OF assms(2)])
  qed
  show "\<exists>v'. get_counter q' k = Some v' \<and> v \<le> v'"
    if "bf_settings file ''seq_counters'' = Some js" "de N js = Ok kvs" "(k, v) \<in> set kvs"
    using merge_counters_in[OF that(3), of "dump_seq_counters q"] that
    by (auto simp: q' load_merged[OF assms(2)])
qed

lemma restore_globals_steps:
  assumes "restore_globals C N n3 n4 meanwhile file (d, q) = (r, d', q')"
  obtains (variables) e where "r = Err e" "d' = d" "q' = q" "restore_variables C n3 file d = Err e"
  | (params) e n1 d1 where "restore_variables C n3 file d = Ok (n1, d1)" "r = Err e" "d' = d1" "q' = q"
      "restore_params C n4 file d1 = Err e"
  | (counters) e n1 d1 n2 d2 s0 s where "restore_variables C n3 file d = Ok (n1, d1)"
      "restore_params C n4 file d1 = Ok (n2, d2)"
      "restore_settings (bf_settings file) [''http_proxy'', ''http_timeout_ms''] (s0, d2) = (s, d')"
      "restore_counters N meanwhile file (s, d', q) = Err e" "r = Err e" "q' = q"
  | (all) n1 d1 n2 d2 s0 s d3 s' where "restore_variables C n3 file d = Ok (n1, d1)"
      "restore_params C n4 file d1 = Ok (n2, d2)"
      "restore_settings (bf_settings file) [''http_proxy'', ''http_timeout_ms''] (s0, d2) = (s, d3)"
      "restore_counters N meanwhile file (s, d3, q) = Ok (s', d', q')" "r = Ok s'"
proof (cases "restore_variables C n3 file d")
  case (Inl e)
  then show ?thesis using assms by (intro variables) (auto simp: restore_globals_def)
next
  case (Inr nd)
  obtain n1 d1 where v: "restore_variables C n3 file d = Ok (n1, d1)" using Inr by (cases nd) simp
  show ?thesis
  proof (cases "restore_params C n4 file d1")
    case (Inl e)
    then show ?thesis using assms v by (intro params[OF v]) (auto simp: restore_globals_def)
  next
    case (Inr nd')
    obtain n2 d2 where p: "restore_params C n4 file d1 = Ok (n2, d2)" using Inr by (cases nd') simp
    let ?s0 = "default_summary\<lparr>gs_variables_merged := n1, gs_params_merged := n2\<rparr>"
    obtain s d3 where s: "restore_settings (bf_settings file) [''http_proxy'', ''http_timeout_ms''] (?s0, d2) = (s, d3)"
      by fastforce
    show ?thesis
    proof (cases "restore_counters N meanwhile file (s, d3, q)")
      case (Inl e)
      then have "r = Err e" "d' = d3" "q' = q"
        using assms v p s by (simp_all only: restore_globals_def prod.case sum.case prod.inject)
      with Inl s show ?thesis by (intro counters[OF v p]) simp_all
    next
      case (Inr t)
      then have "r = Ok (fst t)" "d' = fst (snd t)" "q' = snd (snd t)"
        using assms v p s
        by (auto simp only: restore_globals_def prod.case sum.case prod.inject fst_conv snd_conv split: prod.splits)
      with Inr s show ?thesis by (intro all[OF v p]) simp_all
    qed
  qed
qed

lemma restore_globals_rest:
  assumes "counters_wf q" "restore_globals C N n3 n4 meanwhile file (d, q) = (r, d', q')"
  shows "d' = d\<lparr>t_settings := t_settings d'\<rparr>
    \<and> (\<forall>k \<in> {''http_proxy'', ''http_timeout_ms''}.
         case get_setting d k of
           Some v \<Rightarrow> get_setting d' k = Some v
         | None \<Rightarrow> get_setting d' k \<in> {None, bf_settings file k})
    \<and> (get_counter q k = Some v \<longrightarrow> (\<exists>v'. get_counter q' k = Some v' \<and> v \<le> v'))
    \<and> (r = Ok s \<longrightarrow> bf_settings file ''seq_counters'' = Some js \<longrightarrow> de N js = Ok kvs \<longrightarrow> (k, v) \<in> set kvs \<longrightarrow>
         (\<exists>v'. get_counter q' k = Some v' \<and> v \<le> v'))"
  using assms(2)
proof (cases rule: restore_globals_steps)
  case (all n1 d1 n2 d2 s0 s1 d3 s')
  note V = restore_variables_keeps[OF all(1)] and P = restore_params_keeps[OF all(2)]
    and S = restore_settings_keeps[OF all(3)] and K = restore_counters_merge[OF all(4) assms(1)]
  have "same_tables d d'"
    using V(1) P(1) S[THEN conjunct1] K(1) by (blast intro: same_tables_trans)
  moreover have "get_setting d' key = get_setting d3 key" "get_setting d2 key = get_setting d key"
    if "key \<in> {''http_proxy'', ''http_timeout_ms''}" for key
    using that V(2)[of key] P(2)[of key] K(2)[of key] by auto
  ultimately show ?thesis
    using S[THEN conjunct2] K(3,4) by (auto simp: same_tables_def[symmetric] split: option.splits)
next
  case (counters e n1 d1 n2 d2 s0 s1)
  note V = restore_variables_keeps[OF counters(1)] and P = restore_params_keeps[OF counters(2)]
    and S = restore_settings_keeps[OF counters(3)]
  have "same_tables d d'"
    using V(1) P(1) S[THEN conjunct1] by (blast intro: same_tables_trans)
  moreover have "get_setting d2 key = get_setting d key"
    if "key \<in> {''http_proxy'', ''http_timeout_ms''}" for key
    using that V(2)[of key] P(2)[of key] by auto
  ultimately show ?thesis
    using S[THEN conjunct2] counters by (auto simp: same_tables_def[symmetric] split: option.splits)
next
  case (params e n1 d1)
  note V = restore_variables_keeps[OF params(1)]
  show ?thesis
    using V(1) V(2)[of "''http_proxy''"] V(2)[of "''http_timeout_ms''"] params
    by (auto simp: same_tables_def[symmetric] split: option.splits)
next
  case (variables e)
  then show ?thesis by (auto split: option.splits)
qed

text \<open>
  The global variables and parameters: what the merge reads stays in front, and behind it come
  entries of the file under keys that were not there.
\<close>

definition extended_by :: "('a \<Rightarrow> 'k) \<Rightarrow> 'a list \<Rightarrow> 'a list \<Rightarrow> 'a list \<Rightarrow> bool" where
  "extended_by key cur incoming merged \<longleftrightarrow>
     (\<exists>added. merged = cur @ added \<and> set added \<subseteq> set incoming \<and> key ` set added \<inter> key ` set cur = {}
        \<and> key ` set incoming \<subseteq> key ` set merged)"

text \<open>The round trip of a stored list of parameters, as \<open>variables_lawful\<close> for variables.\<close>

definition params_lawful :: "codec \<Rightarrow> str \<Rightarrow> global_param list \<Rightarrow> bool" where
  "params_lawful C nonce params \<longleftrightarrow>
     (case (co_key C, ser (co_params C) params) of
        (Inr k, Inr t) \<Rightarrow>
          seals (co_aead C) k nonce t
          \<and> (case de (co_json C) t of Inr v \<Rightarrow> de_value (co_params C) v = Ok params | _ \<Rightarrow> False)
      | _ \<Rightarrow> False)"

lemma params_column:
  assumes "params_lawful C nonce params"
  shows "\<exists>v. decrypt_env_json C (encrypt_env_json_params C nonce params) = Ok v \<and> de_value (co_params C) v = Ok params"
proof -
  obtain k t v where h: "co_key C = Ok k" "ser (co_params C) params = Ok t"
    "seals (co_aead C) k nonce t" "de (co_json C) t = Ok v" "de_value (co_params C) v = Ok params"
    using assms by (auto simp: params_lawful_def split: sum.splits)
  obtain c where "encrypt (co_aead C) nonce k t = Ok c" "decrypt (co_aead C) k c = Ok t"
    using decrypt_encrypt[OF h(3)] by blast
  then show ?thesis
    by (simp add: encrypt_env_json_params_def encrypt_text_def decrypt_env_json_def h)
qed

lemma missing_variables_new:
  "set (missing_variables vs keys) \<subseteq> set vs" "ev_key ` set (missing_variables vs keys) \<inter> keys = {}"
  "ev_key ` set vs \<subseteq> keys \<union> ev_key ` set (missing_variables vs keys)"
proof -
  have "set (missing_variables vs keys) \<subseteq> set vs \<and> ev_key ` set (missing_variables vs keys) \<inter> keys = {}
    \<and> ev_key ` set vs \<subseteq> keys \<union> ev_key ` set (missing_variables vs keys)"
  proof (induction vs arbitrary: keys)
    case (Cons v vs)
    show ?case using Cons.IH[of keys] Cons.IH[of "insert (ev_key v) keys"] by (cases "ev_key v \<in> keys") auto
  qed simp
  then show "set (missing_variables vs keys) \<subseteq> set vs" "ev_key ` set (missing_variables vs keys) \<inter> keys = {}"
    "ev_key ` set vs \<subseteq> keys \<union> ev_key ` set (missing_variables vs keys)" by blast+
qed

lemma missing_variables_extend:
  "extended_by ev_key cur vs (cur @ missing_variables vs (ev_key ` set cur))"
  using missing_variables_new[of vs "ev_key ` set cur"] unfolding extended_by_def by (auto simp: image_Un)

lemma missing_params_extend: "extended_by param_key cur ps (cur @ missing_params cur ps)"
  by (auto simp: extended_by_def missing_params_def)

lemma restore_variables_saved:
  assumes "get_global_variables C d = Ok cur"
    and "variables_lawful C nonce (cur @ missing_variables (bf_global_variables file) (ev_key ` set cur))"
  shows "\<exists>n d'. restore_variables C nonce file d = Ok (n, d')
    \<and> get_global_variables C d' = Ok (cur @ missing_variables (bf_global_variables file) (ev_key ` set cur))"
  using variables_column[OF assms(2)] assms(1)
  by (auto simp: restore_variables_def Let_def get_global_variables_def save_global_variables_def get_set_setting
      split: option.splits sum.splits)

lemma restore_params_saved:
  assumes "get_global_params C d = Ok cur"
    and "params_lawful C nonce (cur @ missing_params cur (bf_global_params file))"
  shows "\<exists>n d'. restore_params C nonce file d = Ok (n, d')
    \<and> get_global_params C d' = Ok (cur @ missing_params cur (bf_global_params file))"
  using params_column[OF assms(2)] assms(1)
  by (auto simp: restore_params_def Let_def get_global_params_def save_global_params_def get_set_setting missing_params_def
      split: option.splits sum.splits)

lemma restore_params_total: "\<exists>n d'. restore_params C nonce file d = Ok (n, d')"
proof -
  have "\<exists>cur. get_global_params C d = Ok cur"
    by (simp add: get_global_params_def split: option.split sum.split)
  then show ?thesis by (auto simp: restore_params_def Let_def)
qed

lemma setting_decides:
  "get_setting d' ''global_variables'' = get_setting d ''global_variables'' \<Longrightarrow> get_global_variables C d' = get_global_variables C d"
  "get_setting d' ''global_params'' = get_setting d ''global_params'' \<Longrightarrow> get_global_params C d' = get_global_params C d"
  by (simp_all add: get_global_variables_def get_global_params_def)

lemma restore_globals_lists:
  assumes "restore_globals C N n3 n4 meanwhile file (d, q) = (r, d', q')" "restore_variables C n3 file d = Ok (n1, d1)"
  shows "get_global_variables C d' = get_global_variables C d1"
    and "\<exists>n2 d2. restore_params C n4 file d1 = Ok (n2, d2) \<and> get_global_params C d' = get_global_params C d2"
proof -
  obtain n2 d2 where p: "restore_params C n4 file d1 = Ok (n2, d2)" using restore_params_total by blast
  have "get_setting d' k = get_setting d2 k" if k: "k \<notin> {''http_proxy'', ''http_timeout_ms'', ''seq_counters''}" for k
    using assms(1)
  proof (cases rule: restore_globals_steps)
    case (variables e)
    then show ?thesis using assms(2) by simp
  next
    case (params e n1 d1)
    then show ?thesis using assms(2) p by simp
  next
    case (counters e n1 d1' n2' d2' s0 s1)
    have "d2' = d2" using counters(1,2) assms(2) p by simp
    then show ?thesis using k restore_settings_keeps[OF counters(3), of k] by (simp split: option.splits)
  next
    case (all n1 d1' n2' d2' s0 s1 d3 s')
    have "d2' = d2" using all(1,2) assms(2) p by simp
    moreover have "get_setting d' k = get_setting d3 k" using k restore_counters_keys(2)[OF all(4)] by simp
    ultimately show ?thesis using k restore_settings_keeps[OF all(3), of k] by (simp split: option.splits)
  qed
  then have same: "get_setting d' ''global_variables'' = get_setting d2 ''global_variables''"
    "get_setting d' ''global_params'' = get_setting d2 ''global_params''" by simp_all
  show "get_global_variables C d' = get_global_variables C d1"
    using same(1) restore_params_keeps(2)[OF p, of "''global_variables''"] by (intro setting_decides(1)) simp
  show "\<exists>n2 d2. restore_params C n4 file d1 = Ok (n2, d2) \<and> get_global_params C d' = get_global_params C d2"
    using p setting_decides(2)[OF same(2)] by blast
qed

text \<open>
  C20: Restoring a backup never takes anything from the user's global state. Whatever the file holds
  and wherever the merge stops: the tables of projects are left as they were. The global variables
  and the global parameters that could be read before are read again after it, in front and
  unchanged, followed only by entries of the file under keys that were not there, and every key of
  the file is then present (when the stored lists round trip through the encryption). A proxy or
  timeout that was set keeps its value, and one that was not set can only become the one of the
  file. No sequence counter disappears or goes behind where it stood when the merge read the
  counters, whatever other tasks do to them before they are put back; when the merge succeeds, every
  counter of the file is at least as far as the file says. (A number drawn between the reading and
  the putting back is drawn again, \<open>drawn_number_comes_back\<close>; and a list that cannot be decrypted
  reads as empty, so it is replaced, \<open>unreadable_variables_replaced\<close>.)
\<close>

theorem restore_globals_conservative:
  assumes "counters_wf q" "restore_globals C N n3 n4 meanwhile file (d, q) = (r, d', q')"
  shows "d' = d\<lparr>t_settings := t_settings d'\<rparr>
    \<and> (\<forall>cur. get_global_variables C d = Ok cur
          \<and> variables_lawful C n3 (cur @ missing_variables (bf_global_variables file) (ev_key ` set cur)) \<longrightarrow>
        (\<exists>vs. get_global_variables C d' = Ok vs \<and> extended_by ev_key cur (bf_global_variables file) vs))
    \<and> (\<forall>n1 d1 cur. restore_variables C n3 file d = Ok (n1, d1) \<and> get_global_params C d = Ok cur
          \<and> params_lawful C n4 (cur @ missing_params cur (bf_global_params file)) \<longrightarrow>
        (\<exists>ps. get_global_params C d' = Ok ps \<and> extended_by param_key cur (bf_global_params file) ps))
    \<and> (\<forall>e. restore_variables C n3 file d = Err e \<longrightarrow> d' = d)
    \<and> (\<forall>k \<in> {''http_proxy'', ''http_timeout_ms''}.
         case get_setting d k of
           Some v \<Rightarrow> get_setting d' k = Some v
         | None \<Rightarrow> get_setting d' k \<in> {None, bf_settings file k})
    \<and> (get_counter q k = Some v \<longrightarrow> (\<exists>v'. get_counter q' k = Some v' \<and> v \<le> v'))
    \<and> (r = Ok s \<longrightarrow> bf_settings file ''seq_counters'' = Some js \<longrightarrow> de N js = Ok kvs \<longrightarrow> (k, v) \<in> set kvs \<longrightarrow>
         (\<exists>v'. get_counter q' k = Some v' \<and> v \<le> v'))"
proof -
  have vars: "\<exists>vs. get_global_variables C d' = Ok vs \<and> extended_by ev_key cur (bf_global_variables file) vs"
    if "get_global_variables C d = Ok cur"
      "variables_lawful C n3 (cur @ missing_variables (bf_global_variables file) (ev_key ` set cur))" for cur
    using restore_variables_saved[OF that] restore_globals_lists(1)[OF assms(2)] missing_variables_extend by metis
  have params: "\<exists>ps. get_global_params C d' = Ok ps \<and> extended_by param_key cur (bf_global_params file) ps"
    if v: "restore_variables C n3 file d = Ok (n1, d1)" and g: "get_global_params C d = Ok cur"
      and l: "params_lawful C n4 (cur @ missing_params cur (bf_global_params file))" for n1 d1 cur
  proof -
    have "get_global_params C d1 = Ok cur"
      using g setting_decides(2)[OF restore_variables_keeps(2)[OF v]] by simp
    from restore_params_saved[OF this l] obtain n2 d2 where
      "restore_params C n4 file d1 = Ok (n2, d2)"
      "get_global_params C d2 = Ok (cur @ missing_params cur (bf_global_params file))" by blast
    with restore_globals_lists(2)[OF assms(2) v] show ?thesis using missing_params_extend by simp
  qed
  have stop: "d' = d" if "restore_variables C n3 file d = Err e" for e
    using assms(2) that by (cases rule: restore_globals_steps) auto
  note R = restore_globals_rest[OF assms, of k v s js kvs]
  have all: "\<forall>cur. get_global_variables C d = Ok cur
          \<and> variables_lawful C n3 (cur @ missing_variables (bf_global_variables file) (ev_key ` set cur)) \<longrightarrow>
        (\<exists>vs. get_global_variables C d' = Ok vs \<and> extended_by ev_key cur (bf_global_variables file) vs)"
    "\<forall>n1 d1 cur. restore_variables C n3 file d = Ok (n1, d1) \<and> get_global_params C d = Ok cur
          \<and> params_lawful C n4 (cur @ missing_params cur (bf_global_params file)) \<longrightarrow>
        (\<exists>ps. get_global_params C d' = Ok ps \<and> extended_by param_key cur (bf_global_params file) ps)"
    "\<forall>e. restore_variables C n3 file d = Err e \<longrightarrow> d' = d"
    using vars params stop by blast+
  show ?thesis
    by (intro conjI; fact all R[THEN conjunct1] R[THEN conjunct2, THEN conjunct1]
        R[THEN conjunct2, THEN conjunct2, THEN conjunct1] R[THEN conjunct2, THEN conjunct2, THEN conjunct2])
qed

text \<open>
  A sample: variables whose names are single letters, written as the word of their names.
\<close>

definition lettered :: "str \<Rightarrow> environment_variable" where
  "lettered k = demo_variable\<lparr>ev_key := k\<rparr>"

definition letters_codec :: codec where
  "letters_codec = demo_codec\<lparr>co_vars := Serde (\<lambda>vs. Ok (concat (map ev_key vs))) (\<lambda>_. Err []) (\<lambda>_. Err []),
     co_json := Serde (\<lambda>_. Ok []) (\<lambda>t. Ok (JArray (map (\<lambda>c. JString [c]) t))) (\<lambda>_. Err []),
     co_var := Serde (\<lambda>_. Ok []) (\<lambda>_. Err []) (\<lambda>j. case j of JString k \<Rightarrow> Ok (lettered k) | _ \<Rightarrow> Err [])\<rparr>"

lemma letters_lawful: "variables_lawful letters_codec demo_nonce [lettered ''a'', lettered ''b'']"
    "variables_lawful letters_codec demo_nonce [lettered ''a'']"
proof -
  have "seals demo_aead demo_key demo_nonce ''ab''" "seals demo_aead demo_key demo_nonce ''a''"
    by code_simp+
  then show "variables_lawful letters_codec demo_nonce [lettered ''a'', lettered ''b'']"
    "variables_lawful letters_codec demo_nonce [lettered ''a'']"
    by (simp_all add: variables_lawful_def letters_codec_def demo_codec_def lettered_def)
qed

definition letters_db :: db where
  "letters_db = save_global_variables letters_codec demo_nonce [lettered ''a''] (set_setting ''http_proxy'' ''old'' empty_db)"

definition letters_file :: backup_file where
  "letters_file = demo_file\<lparr>bf_settings := Map.empty(''http_proxy'' \<mapsto> ''new''),
     bf_global_variables := [(lettered ''a'')\<lparr>ev_remote_value := ''other''\<rparr>, lettered ''b'']\<rparr>"

lemma restore_globals_conservative_witness:
  "case restore_globals letters_codec (const_serde [] []) demo_nonce [] (\<lambda>q. q) letters_file
     (letters_db, \<lparr>sq_counters = [], sq_dirty = False, sq_tick = 0\<rparr>) of
   (r, d', q') \<Rightarrow> get_setting d' ''http_proxy'' = Some ''old''
     \<and> (\<exists>vs. get_global_variables letters_codec d' = Ok (lettered ''a'' # vs) \<and> ''b'' \<in> ev_key ` set vs)"
  (is "case ?run of (r, d', q') \<Rightarrow> ?P d'")
proof -
  obtain r d' q' where run: "?run = (r, d', q')" by (metis surj_pair)
  have wf: "counters_wf \<lparr>sq_counters = [], sq_dirty = False, sq_tick = 0\<rparr>" by (simp add: counters_wf_def)
  have proxy: "get_setting letters_db ''http_proxy'' = Some ''old''"
    by (simp add: letters_db_def save_global_variables_def get_set_setting)
  have keys: "ev_key (lettered k) = k" for k by (simp add: lettered_def)
  have cur: "get_global_variables letters_codec letters_db = Ok [lettered ''a'']"
    using variables_column[OF letters_lawful(2)]
    by (auto simp: letters_db_def get_global_variables_def save_global_variables_def get_set_setting)
  have "missing_variables (bf_global_variables letters_file) (ev_key ` set [lettered ''a'']) = [lettered ''b'']"
    by (simp add: letters_file_def lettered_def)
  then have lawful: "variables_lawful letters_codec demo_nonce
      ([lettered ''a''] @ missing_variables (bf_global_variables letters_file) (ev_key ` set [lettered ''a'']))"
    using letters_lawful(1) by simp
  note C = restore_globals_conservative[OF wf run]
  have old: "get_setting d' ''http_proxy'' = Some ''old''"
    using C[THEN conjunct2, THEN conjunct2, THEN conjunct2, THEN conjunct2, THEN conjunct1] proxy by simp
  obtain vs where "get_global_variables letters_codec d' = Ok vs"
      "extended_by ev_key [lettered ''a''] (bf_global_variables letters_file) vs"
    using C[THEN conjunct2, THEN conjunct1, rule_format, of "[lettered ''a'']"] cur lawful by blast
  then obtain added where "get_global_variables letters_codec d' = Ok (lettered ''a'' # added)"
      "ev_key ` set (bf_global_variables letters_file) \<subseteq> ev_key ` set (lettered ''a'' # added)"
    unfolding extended_by_def by force
  moreover have "''b'' \<in> ev_key ` set (bf_global_variables letters_file)"
    by (simp add: letters_file_def keys)
  ultimately have "get_global_variables letters_codec d' = Ok (lettered ''a'' # added)"
    "''b'' \<in> ev_key ` set (lettered ''a'' # added)" by blast+
  then have "\<exists>vs. get_global_variables letters_codec d' = Ok (lettered ''a'' # vs) \<and> ''b'' \<in> ev_key ` set vs"
    by (simp add: keys)
  with old show ?thesis by (simp add: run)
qed

text \<open>
  A number drawn after the counters were read and before they are put back is drawn a second time.
\<close>

lemma drawn_number_comes_back:
  fixes draw :: "seq_state \<Rightarrow> str \<times> seq_state"
  defines "draw \<equiv> seq_value ''n''"
    and "q \<equiv> \<lparr>sq_counters = [(''n'', 5)], sq_dirty = False, sq_tick = 0\<rparr>"
  shows "case restore_counters (const_serde ''J'' [(''n'', 1)]) (\<lambda>q. snd (draw q))
      (demo_file\<lparr>bf_settings := Map.empty(''seq_counters'' \<mapsto> ''J'')\<rparr>) (default_summary, empty_db, q) of
    Inr (s, d, q') \<Rightarrow> fst (draw q') = fst (draw q) | Inl e \<Rightarrow> False"
  by (simp add: draw_def q_def restore_counters_def const_serde_def dump_seq_counters_def load_seq_counters_def
      merge_counter_def seq_value_def Let_def)

text \<open>
  A list of variables that cannot be decrypted, because the master key is another one, is read as
  empty, and the merge writes the variables of the file in its place.
\<close>

lemma unreadable_variables_replaced:
  assumes "get_setting d ''global_variables'' = Some blob" "decrypt_env_json C blob = Err e"
    and "bf_global_variables file = v # vs"
  shows "restore_variables C nonce file d = Ok (length (missing_variables (v # vs) {}),
    save_global_variables C nonce (missing_variables (v # vs) {}) d)"
  using assms by (simp add: restore_variables_def get_global_variables_def Let_def)

section \<open>Restoring into a database\<close>

context upserted
begin

lemma batch_fails: "each_stmt batch rss d = Err e \<Longrightarrow> e = fk_failed"
  by (induction rss arbitrary: d) (auto simp: batch_def checked_def and_then_def split: sum.splits if_splits)

end

lemma fk_new_project:
  assumes "fk_ok d"
  shows "fk_ok (d\<lparr>t_projects := upsert pw_id merge_project r (t_projects d)\<rparr>)"
proof -
  have "project_ids d \<subseteq> pw_id ` set (upsert pw_id merge_project r (t_projects d))"
    by (auto simp: upsert_ids)
  then show ?thesis using assms by (auto simp: fk_defs subset_iff)
qed

lemma save_project_ok:
  "fk_ok d \<Longrightarrow> save_project C m d
     = Ok (d\<lparr>t_projects := upsert pw_id merge_project (project_record (project_row C m) 0) (t_projects d)\<rparr>)"
  by (simp add: save_project_def checked_def fk_new_project)

lemma restore_folders_append:
  "restore_folders fresh np (fs1 @ fs2) i m =
     (let (o1, m1) = restore_folders fresh np fs1 i m;
          (o2, m2) = restore_folders fresh np fs2 (i + length fs1) m1
      in (o1 @ o2, m2))"
  by (induction fs1 arbitrary: i m) (simp_all add: Let_def split: prod.splits)

lemma restore_folders_dom:
  "restore_folders fresh np fs i m = (out, m') \<Longrightarrow> dom m' = dom m \<union> fo_id ` set fs"
  by (induction fs arbitrary: i m out) (auto simp: Let_def split: prod.splits)

lemma restored_orphan:
  assumes "fo_parent_id f = Some p" "p \<notin> insert (pr_id (bf_project file)) (fo_id ` set (fs1 @ [f]))"
    and "bf_folders file = fs1 @ f # fs2"
  obtains f' where "f' \<in> set (re_folders (restore_backup fresh file))" "fo_parent_id f' = Some (fresh 0)"
proof -
  let ?m0 = "Map.empty(pr_id (bf_project file) \<mapsto> fresh 0)"
  obtain o1 m1 where r1: "restore_folders fresh (fresh 0) fs1 1 ?m0 = (o1, m1)" by fastforce
  obtain o2 m2 where r2: "restore_folders fresh (fresh 0) (f # fs2) (1 + length fs1) m1 = (o2, m2)" by fastforce
  have "p \<notin> dom (m1(fo_id f \<mapsto> fresh (1 + length fs1)))"
    using restore_folders_dom[OF r1] assms(2) by auto
  then have none: "(m1(fo_id f \<mapsto> fresh (1 + length fs1))) p = None" by blast
  obtain f' rest where "o2 = f' # rest" "fo_parent_id f' = Some (fresh 0)"
    using r2 none assms(1) by (auto simp: Let_def or_id_def split: prod.splits)
  moreover have "restore_folders fresh (fresh 0) (bf_folders file) 1 ?m0 = (o1 @ o2, m2)"
    using r1 r2 by (simp add: assms(3) restore_folders_append)
  then have "re_folders (restore_backup fresh file) = o1 @ o2"
    by (simp add: restore_backup_def Let_def split: prod.splits)
  ultimately show ?thesis using that[of f'] by simp
qed

lemma restored_folder_ids:
  "map fo_id (re_folders (restore_backup fresh file)) = map fresh [1..<1 + length (bf_folders file)]"
proof -
  obtain folders m1 endpoints m2 where
    "restore_folders fresh (fresh 0) (bf_folders file) 1 (Map.empty(pr_id (bf_project file) \<mapsto> fresh 0)) = (folders, m1)"
    "restore_endpoints fresh (fresh 0) (bf_endpoints file) (1 + length (bf_folders file)) m1 = (endpoints, m2)"
    by (rule restore_backup_maps)
  then show ?thesis
    using restore_folders_ids by (simp add: restore_backup_def Let_def del: upt_Suc)
qed

lemma re_project_id [simp]: "pr_id (re_project (restore_backup fresh file)) = fresh 0"
  by (simp add: restore_backup_def Let_def split: prod.splits)

lemma upserted_rows_ids:
  "keeps_key key merge \<Longrightarrow> key ` set (upsert_rows key merge rs rows) = key ` set rows \<union> key ` set rs"
  unfolding upsert_rows_def by (induction rs arbitrary: rows) (auto simp: upsert_ids)

lemma save_restored_orphan:
  assumes "codec_lawful C" "fk_ok d"
    and orphan: "f' \<in> set (re_folders r)" "fo_parent_id f' = Some np"
    and "np \<notin> fo_id ` set (re_folders r)" "co_uuid_text C np \<notin> folder_ids d"
    and "distinct (map fo_id (re_folders r))"
  shows "save_restored C n1 n2 r d = Err fk_failed"
proof -
  obtain d1 where d1: "save_project C (re_project r) d = Ok d1" and tf: "t_folders d1 = t_folders d"
    using save_project_ok[OF assms(2)] by fastforce
  then have fk: "fk_ok d1" by (auto simp: save_project_def checked_Ok)
  let ?rows = "map (folder_row C) (re_folders r)"
  have ids: "fw_id (folder_row C m) = co_uuid_text C (fo_id m)" for m by (simp add: folder_row_def)
  have dist: "distinct (map fw_id ?rows)"
    using assms(7) uuid_text_inject[OF assms(1)]
    by (simp add: comp_def ids distinct_map inj_on_def)
  have "save_folders_bulk C (re_folders r) d1 = Err fk_failed"
  proof (cases "save_folders_bulk C (re_folders r) d1")
    case (Inl e)
    then show ?thesis using folders.batch_fails by (auto simp: bulk_as_batches)
  next
    case (Inr d2)
    then have run: "each_stmt folders.batch (chunks 200 ?rows) d1 = Ok d2" by (simp add: bulk_as_batches)
    have rows: "t_folders d2 = upsert_rows fw_id merge_folder ?rows (t_folders d)"
      using folders.bulk_upsert[OF run] by (simp add: tf)
    have "folder_row C f' \<in> set ?rows" using orphan(1) by simp
    from folders.upsert_rows_hit[OF dist this, of "t_folders d"]
    obtain x where "x \<in> set (t_folders d2)" "fw_parent_id x = Some (co_uuid_text C np)"
      using orphan(2) by (auto simp: rows merge_folder_def folder_row_def)
    then have "co_uuid_text C np \<in> folder_ids d2"
      using folders.fk_after_batch[OF fk run] by (force simp: fk_ok_def fk_folders_def)
    moreover have "folder_ids d2 = folder_ids d \<union> fw_id ` set ?rows"
      by (simp only: rows upserted_rows_ids[OF merge_keys(2)])
    ultimately show ?thesis
      using assms(5,6) uuid_text_inject[OF assms(1)] by (auto simp: ids image_iff)
  qed
  then show ?thesis by (simp add: save_restored_def d1)
qed

text \<open>
  C19: A backup cannot be restored when a folder is listed before its parent. The file is accepted
  and its references all resolve, but the parent of the early folder is taken for the new project,
  whose identifier is no folder, so the write of the folders fails on its foreign key. The whole
  restore fails with this error and the database and the counters stay as they were.
\<close>

theorem restore_child_first_fails:
  assumes "codec_lawful C" "fk_ok d" "parse_backup C B txt = Ok file"
    and "bf_folders file = fs1 @ f # fs2" "fo_parent_id f = Some p"
    and "p \<notin> insert (pr_id (bf_project file)) (fo_id ` set (fs1 @ [f]))"
    and "inj_on (rd_fresh rnd) {..length (bf_folders file)}"
    and "co_uuid_text C (rd_fresh rnd 0) \<notin> folder_ids d"
  shows "backup_restore C B N rnd txt (d, q) = (Err fk_failed, d, q)"
proof -
  let ?r = "restore_backup (rd_fresh rnd) file"
  obtain f' where orphan: "f' \<in> set (re_folders ?r)" "fo_parent_id f' = Some (rd_fresh rnd 0)"
    using restored_orphan[OF assms(5,6,4)] by blast
  have ids: "fo_id ` set (re_folders ?r) = rd_fresh rnd ` {1..<1 + length (bf_folders file)}"
  proof -
    have "set (map fo_id (re_folders ?r)) = set (map (rd_fresh rnd) [1..<1 + length (bf_folders file)])"
      by (simp only: restored_folder_ids)
    then show ?thesis by (simp del: upt_Suc)
  qed
  have "rd_fresh rnd 0 \<notin> fo_id ` set (re_folders ?r)"
    unfolding ids by (subst inj_on_image_mem_iff[OF assms(7)]) auto
  moreover have "inj_on (rd_fresh rnd) {1..<1 + length (bf_folders file)}"
    by (rule inj_on_subset[OF assms(7)]) auto
  then have "distinct (map fo_id (re_folders ?r))"
    by (simp add: restored_folder_ids distinct_map del: upt_Suc)
  ultimately have "save_restored C (rd_nonces1 rnd) (rd_nonces2 rnd) ?r d = Err fk_failed"
    using save_restored_orphan[OF assms(1,2) orphan] assms(8) by simp
  then show ?thesis by (simp add: backup_restore_def assms(3) Let_def)
qed

text \<open>A child listed before its parent.\<close>

definition child_first_file :: backup_file where
  "child_first_file = demo_file\<lparr>bf_folders := rev (bf_folders demo_file)\<rparr>"

definition child_first_codec :: codec where
  "child_first_codec = demo_codec\<lparr>co_json := const_serde ''B'' (JObject [(''schema_version'', JNumber (PosInt 3))])\<rparr>"

definition demo_draws :: restore_draws where
  "demo_draws = \<lparr>rd_fresh = word_of_nat, rd_nonces1 = \<lambda>_ _. [], rd_nonces2 = \<lambda>_. [], rd_nonce3 = [],
     rd_nonce4 = [], rd_meanwhile = \<lambda>q. q\<rparr>"

lemma restore_child_first_fails_witness:
  "fst (backup_restore child_first_codec (const_serde ''B'' child_first_file) (const_serde [] []) demo_draws
     ''B'' (empty_db, \<lparr>sq_counters = [], sq_dirty = False, sq_tick = 0\<rparr>)) = Err fk_failed"
proof -
  have lawful: "codec_lawful child_first_codec"
    using demo_codec_lawful by (simp add: codec_lawful_def child_first_codec_def)
  obtain f g where two: "bf_folders child_first_file = [] @ f # [g]" and f: "fo_parent_id f = Some 7"
    and ids: "fo_id f = 8" "fo_id g = 7" "pr_id (bf_project child_first_file) = 2"
    by (auto simp: child_first_file_def demo_file_def build_backup_def demo_input_def)
  have parse: "parse_backup child_first_codec (const_serde ''B'' child_first_file) ''B'' = Ok child_first_file"
    by (simp add: parse_backup_def child_first_codec_def const_serde_def json_get_def as_u64_def
        child_first_file_def demo_file_def build_backup_def SCHEMA_VERSION_def)
  have "{..length (bf_folders child_first_file)} = {0, 1, 2}" by (auto simp: two)
  then have inj: "inj_on (rd_fresh demo_draws) {..length (bf_folders child_first_file)}"
    by (simp add: demo_draws_def)
  have "p = 7 \<Longrightarrow> p \<notin> insert (pr_id (bf_project child_first_file)) (fo_id ` set ([] @ [f]))" for p
    by (simp add: ids)
  from restore_child_first_fails[OF lawful _ parse two f this[OF refl] inj, of empty_db]
  show ?thesis using empty_db_inv by (simp add: db_inv_def) (simp add: empty_db_def)
qed

end
