(* ===== verification/RestoreRuns.thy ===== *)
theory RestoreRuns
  imports BackupFlow
begin

text \<open>
  A well-formed backup restores: every write of the transaction succeeds, and the database
  afterwards is the one before with the rows of the restored project behind the rows of each table.
\<close>

section \<open>Appending rows\<close>

locale row_table =
  fixes key :: "'r \<Rightarrow> str" and rows_of :: "db \<Rightarrow> 'r list" and with_rows :: "'r list \<Rightarrow> db \<Rightarrow> db"
  assumes get_with: "rows_of (with_rows rs d) = rs"
    and with_with: "with_rows rs (with_rows qs d) = with_rows rs d"
    and with_get: "with_rows (rows_of d) d = d"
begin

definition insert_batch :: "'r list \<Rightarrow> db \<Rightarrow> (app_error, db) result" where
  "insert_batch rs d = and_then (insert_rows key rs (rows_of d)) (\<lambda>rows. checked (with_rows rows d))"

lemma insert_rows_append:
  "distinct (map key rs) \<Longrightarrow> key ` set rs \<inter> key ` set rows = {} \<Longrightarrow> insert_rows key rs rows = Ok (rows @ rs)"
  by (induction rs arbitrary: rows) (auto simp: insert_row_def)

lemma inserts_append:
  assumes "distinct (map key (concat rss))" "key ` set (concat rss) \<inter> key ` set (rows_of d) = {}"
    and "\<forall>k \<le> length (concat rss). fk_ok (with_rows (rows_of d @ take k (concat rss)) d)"
  shows "each_stmt insert_batch rss d = Ok (with_rows (rows_of d @ concat rss) d)"
  using assms
proof (induction rss arbitrary: d)
  case (Cons rs rss)
  let ?d = "with_rows (rows_of d @ rs) d"
  have "fk_ok ?d" using Cons.prems(3)[rule_format, of "length rs"] by simp
  moreover have "insert_rows key rs (rows_of d) = Ok (rows_of d @ rs)"
    by (rule insert_rows_append) (use Cons.prems(1,2) in auto)
  ultimately have "insert_batch rs d = Ok ?d" by (simp add: insert_batch_def checked_Ok)
  moreover have "each_stmt insert_batch rss ?d = Ok (with_rows (rows_of ?d @ concat rss) ?d)"
  proof (rule Cons.IH)
    show "distinct (map key (concat rss))" using Cons.prems(1) by simp
    have "set (map key rs) \<inter> set (map key (concat rss)) = {}" using Cons.prems(1) by simp
    then show "key ` set (concat rss) \<inter> key ` set (rows_of ?d) = {}"
      using Cons.prems(2) by (simp add: get_with image_Un Int_Un_distrib Int_Un_distrib2 inf_commute)
    show "\<forall>k \<le> length (concat rss). fk_ok (with_rows (rows_of ?d @ take k (concat rss)) ?d)"
    proof (intro allI impI)
      fix k assume "k \<le> length (concat rss)"
      then show "fk_ok (with_rows (rows_of ?d @ take k (concat rss)) ?d)"
        using Cons.prems(3)[rule_format, of "length rs + k"] by (simp add: get_with with_with)
    qed
  qed
  ultimately show ?case by (simp add: get_with with_with)
qed (simp add: with_get)

end

sublocale upserted \<subseteq> row_table key rows_of with_rows
  by unfold_locales (fact get_with with_with with_get)+

interpretation request_rows: row_table qw_id t_request_examples "\<lambda>rs d. d\<lparr>t_request_examples := rs\<rparr>"
  by unfold_locales simp_all

interpretation proto_rows: row_table ow_id t_proto_files "\<lambda>rs d. d\<lparr>t_proto_files := rs\<rparr>"
  by unfold_locales simp_all

lemma take_set: "x \<in> set (take k xs) \<Longrightarrow> x \<in> set xs"
  by (rule in_set_takeD)

text \<open>The rows each table may take.\<close>

lemma fk_more_folders:
  "fk_ok d \<Longrightarrow> (\<forall>r \<in> set rs. fw_project_id r \<in> project_ids d
     \<and> opt_ref (fw_parent_id r) (folder_ids d \<union> fw_id ` set rs)) \<Longrightarrow>
   fk_ok (d\<lparr>t_folders := t_folders d @ rs\<rparr>)"
  by (auto simp: fk_defs image_Un ball_Un intro: opt_ref_mono)

lemma fk_more_endpoints:
  "fk_ok d \<Longrightarrow> (\<forall>r \<in> set rs. ew_project_id r \<in> project_ids d \<and> opt_ref (ew_folder_id r) (folder_ids d)) \<Longrightarrow>
   fk_ok (d\<lparr>t_endpoints := t_endpoints d @ rs\<rparr>)"
  by (auto simp: fk_defs image_Un ball_Un intro: opt_ref_mono)

lemma fk_more_environments:
  "fk_ok d \<Longrightarrow> (\<forall>r \<in> set rs. nw_project_id r \<in> project_ids d) \<Longrightarrow>
   fk_ok (d\<lparr>t_environments := t_environments d @ rs\<rparr>)"
  by (auto simp: fk_defs image_Un ball_Un intro: opt_ref_mono)

lemma fk_more_rules:
  "fk_ok d \<Longrightarrow> (\<forall>r \<in> set rs. mw_project_id r \<in> project_ids d \<and> opt_ref (mw_endpoint_id r) (endpoint_ids d)) \<Longrightarrow>
   fk_ok (d\<lparr>t_mock_rules := t_mock_rules d @ rs\<rparr>)"
  by (auto simp: fk_defs)

lemma fk_more_children:
  "fk_ok d \<Longrightarrow> (\<forall>r \<in> set rs. xw_endpoint_id r \<in> endpoint_ids d) \<Longrightarrow>
   fk_ok (d\<lparr>t_response_examples := t_response_examples d @ rs\<rparr>)"
  "fk_ok d \<Longrightarrow> (\<forall>r \<in> set qs. qw_endpoint_id r \<in> endpoint_ids d) \<Longrightarrow>
   fk_ok (d\<lparr>t_request_examples := t_request_examples d @ qs\<rparr>)"
  "fk_ok d \<Longrightarrow> (\<forall>r \<in> set ps. ow_project_id r \<in> project_ids d) \<Longrightarrow>
   fk_ok (d\<lparr>t_proto_files := t_proto_files d @ ps\<rparr>)"
  by (auto simp: fk_defs)

section \<open>The restored project is well formed\<close>

definition wf_restored :: "restored \<Rightarrow> bool" where
  "wf_restored r \<longleftrightarrow>
     (let np = pr_id (re_project r); fos = fo_id ` set (re_folders r); eps = ep_id ` set (re_endpoints r) in
      distinct (restored_ids r)
      \<and> parents_first {} (re_folders r) \<and> (\<forall>f \<in> set (re_folders r). fo_project_id f = np)
      \<and> (\<forall>e \<in> set (re_endpoints r). ep_project_id e = np \<and> set_option (ep_folder_id e) \<subseteq> fos)
      \<and> (\<forall>n \<in> set (re_environments r). en_project_id n = np)
      \<and> (\<forall>m \<in> set (re_mock_rules r). mr_project_id m = np \<and> set_option (mr_endpoint_id m) \<subseteq> eps)
      \<and> (\<forall>x \<in> set (re_response_examples r). rx_endpoint_id x \<in> eps)
      \<and> (\<forall>x \<in> set (re_request_examples r). qx_endpoint_id x \<in> eps)
      \<and> (\<forall>p \<in> set (re_proto_files r). pf_project_id p = np))"

lemma parents_first_renamed:
  "parents_first known fs \<Longrightarrow> parents_first ((the \<circ> m) ` known) (map (renamed_folder m np) fs)"
proof (induction fs arbitrary: known)
  case (Cons f fs)
  have "parents_first ((the \<circ> m) ` insert (fo_id f) known) (map (renamed_folder m np) fs)"
    by (rule Cons.IH) (use Cons.prems in simp)
  then show ?case
    using Cons.prems by (cases "fo_parent_id f") (auto simp: renamed_folder_def[of m np f])
qed simp

lemma map_eq_pick: "map f xs = map g ys \<Longrightarrow> x \<in> set xs \<Longrightarrow> \<exists>y \<in> set ys. f x = g y"
  by (metis (no_types, lifting) image_iff image_eqI list.set_map)

lemma restored_wf:
  assumes "wf_backup file" "inj_on fresh {..<entity_count file}"
  shows "wf_restored (restore_backup fresh file)"
proof -
  let ?r = "restore_backup fresh file"
  obtain m where ren: "renamed_by m file ?r" and dist: "distinct (restored_ids ?r)"
    using restore_is_renaming_laws[OF assms] by blast
  define np where "np = the (m (pr_id (bf_project file)))"
  note R = ren[unfolded renamed_by_def Let_def, folded np_def]
  have proj: "pr_id (re_project ?r) = np"
    and fo: "re_folders ?r = map (renamed_folder m np) (bf_folders file)"
    and ep: "re_endpoints ?r = map (renamed_endpoint m np) (bf_endpoints file)"
    using R by simp_all
  have fos: "fo_id ` set (re_folders ?r) = (the \<circ> m) ` fo_id ` set (bf_folders file)"
    and eps: "ep_id ` set (re_endpoints ?r) = (the \<circ> m) ` ep_id ` set (bf_endpoints file)"
    by (simp_all add: fo ep image_image renamed_folder_def renamed_endpoint_def)
  have "parents_first {} (re_folders ?r)"
    using parents_first_renamed[of "{}" "bf_folders file" m np] assms(1) by (simp add: fo wf_backup_def)
  moreover have "\<forall>f \<in> set (re_folders ?r). fo_project_id f = np"
    by (auto simp: fo renamed_folder_def)
  moreover have "\<forall>e \<in> set (re_endpoints ?r). ep_project_id e = np
      \<and> set_option (ep_folder_id e) \<subseteq> fo_id ` set (re_folders ?r)"
    using assms(1) by (fastforce simp: ep fos renamed_endpoint_def wf_backup_def split: option.splits)
  moreover have "\<forall>n \<in> set (re_environments ?r). en_project_id n = np"
  proof
    fix n assume n: "n \<in> set (re_environments ?r)"
    have "map (\<lambda>e. e\<lparr>en_id := 0\<rparr>) (re_environments ?r)
        = map (\<lambda>e. e\<lparr>en_id := 0, en_project_id := np\<rparr>) (bf_environments file)" using R by blast
    from map_eq_pick[OF this n] show "en_project_id n = np" by (auto dest: arg_cong[where f = en_project_id])
  qed
  moreover have "\<forall>x \<in> set (re_mock_rules ?r). mr_project_id x = np
      \<and> set_option (mr_endpoint_id x) \<subseteq> ep_id ` set (re_endpoints ?r)"
  proof
    fix x assume x: "x \<in> set (re_mock_rules ?r)"
    have "map (\<lambda>x. x\<lparr>mr_id := 0\<rparr>) (re_mock_rules ?r)
        = map (\<lambda>x. x\<lparr>mr_id := 0, mr_project_id := np,
            mr_endpoint_id := map_option (the \<circ> m) (mr_endpoint_id x)\<rparr>) (bf_mock_rules file)" using R by blast
    from map_eq_pick[OF this x] obtain y where y: "y \<in> set (bf_mock_rules file)"
      and eq: "x\<lparr>mr_id := 0\<rparr> = y\<lparr>mr_id := 0, mr_project_id := np,
        mr_endpoint_id := map_option (the \<circ> m) (mr_endpoint_id y)\<rparr>" by blast
    have "mr_project_id x = np" "mr_endpoint_id x = map_option (the \<circ> m) (mr_endpoint_id y)"
      using arg_cong[OF eq, of mr_project_id] arg_cong[OF eq, of mr_endpoint_id] by simp_all
    moreover have "case mr_endpoint_id y of None \<Rightarrow> True | Some p \<Rightarrow> p \<in> ep_id ` set (bf_endpoints file)"
      using assms(1) y by (simp add: wf_backup_def)
    then have "set_option (map_option (the \<circ> m) (mr_endpoint_id y)) \<subseteq> (the \<circ> m) ` ep_id ` set (bf_endpoints file)"
      by (cases "mr_endpoint_id y") auto
    ultimately show "mr_project_id x = np \<and> set_option (mr_endpoint_id x) \<subseteq> ep_id ` set (re_endpoints ?r)"
      by (simp add: eps)
  qed
  moreover have "\<forall>x \<in> set (re_response_examples ?r). rx_endpoint_id x \<in> ep_id ` set (re_endpoints ?r)"
  proof
    fix x assume x: "x \<in> set (re_response_examples ?r)"
    have "map (\<lambda>x. x\<lparr>rx_id := 0\<rparr>) (re_response_examples ?r)
        = map (\<lambda>x. x\<lparr>rx_id := 0, rx_endpoint_id := the (m (rx_endpoint_id x))\<rparr>) (bf_response_examples file)"
      using R by blast
    from map_eq_pick[OF this x] obtain y where "y \<in> set (bf_response_examples file)"
      "rx_endpoint_id x = the (m (rx_endpoint_id y))" by (auto dest: arg_cong[where f = rx_endpoint_id])
    then show "rx_endpoint_id x \<in> ep_id ` set (re_endpoints ?r)"
      using wf_refs(1)[OF assms(1)] by (simp add: eps)
  qed
  moreover have "\<forall>x \<in> set (re_request_examples ?r). qx_endpoint_id x \<in> ep_id ` set (re_endpoints ?r)"
  proof
    fix x assume x: "x \<in> set (re_request_examples ?r)"
    have "map (\<lambda>x. x\<lparr>qx_id := 0\<rparr>) (re_request_examples ?r)
        = map (\<lambda>x. x\<lparr>qx_id := 0, qx_endpoint_id := the (m (qx_endpoint_id x))\<rparr>) (bf_request_examples file)"
      using R by blast
    from map_eq_pick[OF this x] obtain y where "y \<in> set (bf_request_examples file)"
      "qx_endpoint_id x = the (m (qx_endpoint_id y))" by (auto dest: arg_cong[where f = qx_endpoint_id])
    then show "qx_endpoint_id x \<in> ep_id ` set (re_endpoints ?r)"
      using wf_refs(2)[OF assms(1)] by (simp add: eps)
  qed
  moreover have "\<forall>p \<in> set (re_proto_files ?r). pf_project_id p = np"
  proof
    fix p assume p: "p \<in> set (re_proto_files ?r)"
    have "map (\<lambda>x. x\<lparr>pf_id := 0\<rparr>) (re_proto_files ?r)
        = map (\<lambda>x. x\<lparr>pf_id := 0, pf_project_id := np\<rparr>) (bf_proto_files file)" using R by blast
    from map_eq_pick[OF this p] show "pf_project_id p = np" by (auto dest: arg_cong[where f = pf_project_id])
  qed
  moreover have "fresh 0 = np" using proj by simp
  ultimately show ?thesis using dist by (simp add: wf_restored_def Let_def)
qed

section \<open>Every write succeeds\<close>

definition table_keys :: "db \<Rightarrow> str set" where
  "table_keys d = project_ids d \<union> folder_ids d \<union> endpoint_ids d \<union> environment_ids d
     \<union> mw_id ` set (t_mock_rules d) \<union> xw_id ` set (t_response_examples d)
     \<union> qw_id ` set (t_request_examples d) \<union> ow_id ` set (t_proto_files d)"

text \<open>The rows of a restored project.\<close>

definition project_rows ::
  "codec \<Rightarrow> (nat \<Rightarrow> nat \<Rightarrow> str) \<Rightarrow> (nat \<Rightarrow> str) \<Rightarrow> restored \<Rightarrow> request_example_row list \<Rightarrow> db \<Rightarrow> db" where
  "project_rows C n1 n2 r qrows d =
     d\<lparr>t_projects := t_projects d @ [project_record (project_row C (re_project r)) 0],
       t_folders := t_folders d @ map (folder_row C) (re_folders r),
       t_endpoints := t_endpoints d @ map (\<lambda>(i, m). endpoint_row C (n1 i) m) (indexed (re_endpoints r)),
       t_environments := t_environments d @ map (\<lambda>(i, m). environment_row C (n2 i) m) (indexed (re_environments r)),
       t_mock_rules := t_mock_rules d @ map (mock_rule_row C) (re_mock_rules r),
       t_response_examples := t_response_examples d @ map (response_example_row C) (re_response_examples r),
       t_request_examples := t_request_examples d @ qrows,
       t_proto_files := t_proto_files d @ map (proto_file_row C) (re_proto_files r)\<rparr>"

lemma row_ids:
  "fw_id (folder_row C f) = co_uuid_text C (fo_id f)"
  "fw_project_id (folder_row C f) = co_uuid_text C (fo_project_id f)"
  "fw_parent_id (folder_row C f) = map_option (co_uuid_text C) (fo_parent_id f)"
  "ew_id (endpoint_row C n e) = co_uuid_text C (ep_id e)"
  "ew_project_id (endpoint_row C n e) = co_uuid_text C (ep_project_id e)"
  "ew_folder_id (endpoint_row C n e) = map_option (co_uuid_text C) (ep_folder_id e)"
  "nw_id (environment_row C k v) = co_uuid_text C (en_id v)"
  "nw_project_id (environment_row C k v) = co_uuid_text C (en_project_id v)"
  "mw_id (mock_rule_row C m) = co_uuid_text C (mr_id m)"
  "mw_project_id (mock_rule_row C m) = co_uuid_text C (mr_project_id m)"
  "mw_endpoint_id (mock_rule_row C m) = map_option (co_uuid_text C) (mr_endpoint_id m)"
  "xw_id (response_example_row C x) = co_uuid_text C (rx_id x)"
  "xw_endpoint_id (response_example_row C x) = co_uuid_text C (rx_endpoint_id x)"
  "ow_id (proto_file_row C p) = co_uuid_text C (pf_id p)"
  "ow_project_id (proto_file_row C p) = co_uuid_text C (pf_project_id p)"
  "pw_id (project_row C q) = co_uuid_text C (pr_id q)"
  by (simp_all add: folder_row_def endpoint_row_def environment_row_def mock_rule_row_def
      response_example_row_def proto_file_row_def project_row_def)

lemma indexed_map: "(\<And>i x. g (h i x) = k x) \<Longrightarrow> map g (map (\<lambda>(i, x). h i x) (indexed xs)) = map k xs"
  unfolding indexed_def by (induction xs rule: rev_induct) (auto simp: comp_def)

lemma indexed_set: "y \<in> set (map (\<lambda>(i, x). h i x) (indexed xs)) \<Longrightarrow> \<exists>i. \<exists>x \<in> set xs. y = h i x"
  by (auto simp: indexed_def dest: set_zip_rightD)

lemma request_rows_ids:
  "collect_results (request_example_row C) xs = Ok rows \<Longrightarrow>
     map qw_id rows = map (co_uuid_text C \<circ> qx_id) xs
     \<and> map qw_endpoint_id rows = map (co_uuid_text C \<circ> qx_endpoint_id) xs"
  by (induction xs arbitrary: rows) (auto simp: and_then_eq_Inr request_example_row_def)

lemma parents_first_take: "parents_first known fs \<Longrightarrow> parents_first known (take k fs)"
  by (induction fs arbitrary: known k) (auto simp: take_Cons split: nat.splits)

lemma parents_first_all:
  assumes "parents_first {} fs" "f \<in> set (take k fs)"
  shows "set_option (fo_parent_id f) \<subseteq> fo_id ` set (take k fs)"
  using parents_first_parent[OF parents_first_take[OF assms(1), of k] assms(2)]
  by (cases "fo_parent_id f") auto

lemma opt_ref_iff: "opt_ref r ids \<longleftrightarrow> set_option r \<subseteq> ids"
  by (cases r) auto

lemma texts_distinct: "codec_lawful C \<Longrightarrow> distinct (map f xs) \<Longrightarrow> distinct (map (\<lambda>x. co_uuid_text C (f x)) xs)"
  using uuid_text_inject by (auto simp: distinct_map inj_on_def)

text \<open>Each bulk write in turn, on rows with new keys and resolving references.\<close>

lemma folders_append:
  assumes C: "codec_lawful C" and fk: "fk_ok d" and "distinct (map fo_id fs)" "parents_first {} fs"
    and np: "\<forall>f \<in> set fs. co_uuid_text C (fo_project_id f) \<in> project_ids d"
    and new: "co_uuid_text C ` fo_id ` set fs \<inter> folder_ids d = {}"
  shows "save_folders_bulk C fs d = Ok (d\<lparr>t_folders := t_folders d @ map (folder_row C) fs\<rparr>)"
    and "fk_ok (d\<lparr>t_folders := t_folders d @ map (folder_row C) fs\<rparr>)"
proof -
  let ?rs = "map (folder_row C) fs"
  have prefix: "fk_ok (d\<lparr>t_folders := t_folders d @ take k ?rs\<rparr>)" for k
  proof (rule fk_more_folders[OF fk], rule ballI)
    fix x assume "x \<in> set (take k ?rs)"
    then obtain f where f: "f \<in> set (take k fs)" "x = folder_row C f" by (auto simp: take_map)
    then show "fw_project_id x \<in> project_ids d \<and> opt_ref (fw_parent_id x) (folder_ids d \<union> fw_id ` set (take k ?rs))"
      using np in_set_takeD[OF f(1)] parents_first_all[OF assms(4) f(1)]
      by (auto simp: row_ids take_map image_image opt_ref_iff option.set_map)
  qed
  have "each_stmt folders.batch (chunks 200 ?rs) d = Ok (d\<lparr>t_folders := t_folders d @ ?rs\<rparr>)"
    by (rule folders.bulk_append)
      (use new texts_distinct[OF C assms(3)] prefix in \<open>simp_all add: comp_def row_ids image_image\<close>)
  then show "save_folders_bulk C fs d = Ok (d\<lparr>t_folders := t_folders d @ ?rs\<rparr>)"
    by (simp add: bulk_as_batches)
  show "fk_ok (d\<lparr>t_folders := t_folders d @ ?rs\<rparr>)" using prefix[of "length ?rs"] by simp
qed

lemma endpoints_append:
  fixes n :: "nat \<Rightarrow> nat \<Rightarrow> str"
  assumes C: "codec_lawful C" and fk: "fk_ok d" and "distinct (map ep_id es)"
    and np: "\<forall>e \<in> set es. co_uuid_text C (ep_project_id e) \<in> project_ids d
      \<and> co_uuid_text C ` set_option (ep_folder_id e) \<subseteq> folder_ids d"
    and new: "co_uuid_text C ` ep_id ` set es \<inter> endpoint_ids d = {}"
  defines "rs \<equiv> map (\<lambda>(i, m). endpoint_row C (n i) m) (indexed es)"
  shows "save_endpoints_bulk C n es d = Ok (d\<lparr>t_endpoints := t_endpoints d @ rs\<rparr>)"
    and "fk_ok (d\<lparr>t_endpoints := t_endpoints d @ rs\<rparr>)"
    and "ew_id ` set rs = co_uuid_text C ` ep_id ` set es"
proof -
  have ids: "map ew_id rs = map (\<lambda>e. co_uuid_text C (ep_id e)) es"
    unfolding rs_def by (rule indexed_map) (simp add: row_ids)
  show ids': "ew_id ` set rs = co_uuid_text C ` ep_id ` set es"
    using arg_cong[OF ids, of set] by (simp add: image_image)
  have prefix: "fk_ok (d\<lparr>t_endpoints := t_endpoints d @ take k rs\<rparr>)" for k
  proof (rule fk_more_endpoints[OF fk], rule ballI)
    fix x assume "x \<in> set (take k rs)"
    then obtain i e where "e \<in> set es" "x = endpoint_row C (n i) e"
      using indexed_set in_set_takeD unfolding rs_def by metis
    with np show "ew_project_id x \<in> project_ids d \<and> opt_ref (ew_folder_id x) (folder_ids d)"
      by (simp add: row_ids opt_ref_iff option.set_map)
  qed
  have "each_stmt endpoints.batch (chunks 200 rs) d = Ok (d\<lparr>t_endpoints := t_endpoints d @ rs\<rparr>)"
    by (rule endpoints.bulk_append)
      (use new texts_distinct[OF C assms(3)] prefix in \<open>simp_all add: ids ids' image_image\<close>)
  then show "save_endpoints_bulk C n es d = Ok (d\<lparr>t_endpoints := t_endpoints d @ rs\<rparr>)"
    by (simp add: bulk_as_batches rs_def)
  show "fk_ok (d\<lparr>t_endpoints := t_endpoints d @ rs\<rparr>)" using prefix[of "length rs"] by simp
qed

lemma environments_append:
  fixes n :: "nat \<Rightarrow> str"
  assumes C: "codec_lawful C" and fk: "fk_ok d" and "distinct (map en_id vs)"
    and np: "\<forall>e \<in> set vs. co_uuid_text C (en_project_id e) \<in> project_ids d"
    and new: "co_uuid_text C ` en_id ` set vs \<inter> environment_ids d = {}"
  defines "rs \<equiv> map (\<lambda>(i, m). environment_row C (n i) m) (indexed vs)"
  shows "save_environments_bulk C n vs d = Ok (d\<lparr>t_environments := t_environments d @ rs\<rparr>)"
    and "fk_ok (d\<lparr>t_environments := t_environments d @ rs\<rparr>)"
proof -
  have ids: "map nw_id rs = map (\<lambda>e. co_uuid_text C (en_id e)) vs"
    unfolding rs_def by (rule indexed_map) (simp add: row_ids)
  have ids': "nw_id ` set rs = co_uuid_text C ` en_id ` set vs"
    using arg_cong[OF ids, of set] by (simp add: image_image)
  have prefix: "fk_ok (d\<lparr>t_environments := t_environments d @ take k rs\<rparr>)" for k
  proof (rule fk_more_environments[OF fk], rule ballI)
    fix x assume "x \<in> set (take k rs)"
    then obtain i e where "e \<in> set vs" "x = environment_row C (n i) e"
      using indexed_set in_set_takeD unfolding rs_def by metis
    with np show "nw_project_id x \<in> project_ids d" by (simp add: row_ids)
  qed
  have "each_stmt environments.batch (chunks 200 rs) d = Ok (d\<lparr>t_environments := t_environments d @ rs\<rparr>)"
    by (rule environments.bulk_append)
      (use new texts_distinct[OF C assms(3)] prefix in \<open>simp_all add: ids ids' image_image\<close>)
  then show "save_environments_bulk C n vs d = Ok (d\<lparr>t_environments := t_environments d @ rs\<rparr>)"
    by (simp add: bulk_as_batches rs_def)
  show "fk_ok (d\<lparr>t_environments := t_environments d @ rs\<rparr>)" using prefix[of "length rs"] by simp
qed

lemma mock_rules_append:
  assumes C: "codec_lawful C" and fk: "fk_ok d" and "distinct (map mr_id ms)"
    and np: "\<forall>m \<in> set ms. co_uuid_text C (mr_project_id m) \<in> project_ids d
      \<and> co_uuid_text C ` set_option (mr_endpoint_id m) \<subseteq> endpoint_ids d"
    and new: "co_uuid_text C ` mr_id ` set ms \<inter> mw_id ` set (t_mock_rules d) = {}"
  shows "save_mock_rules_bulk C ms d = Ok (d\<lparr>t_mock_rules := t_mock_rules d @ map (mock_rule_row C) ms\<rparr>)"
    and "fk_ok (d\<lparr>t_mock_rules := t_mock_rules d @ map (mock_rule_row C) ms\<rparr>)"
proof -
  let ?rs = "map (mock_rule_row C) ms"
  have prefix: "fk_ok (d\<lparr>t_mock_rules := t_mock_rules d @ take k ?rs\<rparr>)" for k
    by (rule fk_more_rules[OF fk])
      (use np in \<open>auto simp: take_map row_ids opt_ref_iff option.set_map dest!: in_set_takeD\<close>)
  have "each_stmt mock_rules.batch (chunks 200 ?rs) d = Ok (d\<lparr>t_mock_rules := t_mock_rules d @ ?rs\<rparr>)"
    by (rule mock_rules.bulk_append)
      (use new texts_distinct[OF C assms(3)] prefix in \<open>simp_all add: comp_def row_ids image_image\<close>)
  then show "save_mock_rules_bulk C ms d = Ok (d\<lparr>t_mock_rules := t_mock_rules d @ ?rs\<rparr>)"
    by (simp add: bulk_as_batches)
  show "fk_ok (d\<lparr>t_mock_rules := t_mock_rules d @ ?rs\<rparr>)" using prefix[of "length ?rs"] by simp
qed

lemma response_examples_append:
  assumes C: "codec_lawful C" and fk: "fk_ok d" and "distinct (map rx_id xs)"
    and np: "\<forall>x \<in> set xs. co_uuid_text C (rx_endpoint_id x) \<in> endpoint_ids d"
    and new: "co_uuid_text C ` rx_id ` set xs \<inter> xw_id ` set (t_response_examples d) = {}"
  shows "save_response_examples_bulk C xs d
      = Ok (d\<lparr>t_response_examples := t_response_examples d @ map (response_example_row C) xs\<rparr>)"
    and "fk_ok (d\<lparr>t_response_examples := t_response_examples d @ map (response_example_row C) xs\<rparr>)"
proof -
  let ?rs = "map (response_example_row C) xs"
  have prefix: "fk_ok (d\<lparr>t_response_examples := t_response_examples d @ take k ?rs\<rparr>)" for k
    by (rule fk_more_children(1)[OF fk]) (use np in \<open>auto simp: take_map row_ids dest!: in_set_takeD\<close>)
  have "each_stmt response_examples.batch (chunks 200 ?rs) d
      = Ok (d\<lparr>t_response_examples := t_response_examples d @ ?rs\<rparr>)"
    by (rule response_examples.bulk_append)
      (use new texts_distinct[OF C assms(3)] prefix in \<open>simp_all add: comp_def row_ids image_image\<close>)
  then show "save_response_examples_bulk C xs d
      = Ok (d\<lparr>t_response_examples := t_response_examples d @ ?rs\<rparr>)"
    by (simp add: bulk_as_batches)
  show "fk_ok (d\<lparr>t_response_examples := t_response_examples d @ ?rs\<rparr>)"
    using prefix[of "length ?rs"] by simp
qed

lemma request_examples_append:
  assumes C: "codec_lawful C" and fk: "fk_ok d" and "distinct (map qx_id xs)"
    and rows: "collect_results (request_example_row C) xs = Ok rs"
    and np: "\<forall>x \<in> set xs. co_uuid_text C (qx_endpoint_id x) \<in> endpoint_ids d"
    and new: "co_uuid_text C ` qx_id ` set xs \<inter> qw_id ` set (t_request_examples d) = {}"
  shows "save_request_examples_bulk C xs d = Ok (d\<lparr>t_request_examples := t_request_examples d @ rs\<rparr>)"
    and "fk_ok (d\<lparr>t_request_examples := t_request_examples d @ rs\<rparr>)"
proof -
  have ids: "map qw_id rs = map (\<lambda>x. co_uuid_text C (qx_id x)) xs"
    "map qw_endpoint_id rs = map (\<lambda>x. co_uuid_text C (qx_endpoint_id x)) xs"
    using request_rows_ids[OF rows] by (simp_all add: comp_def)
  have ids': "qw_id ` set rs = co_uuid_text C ` qx_id ` set xs"
    using arg_cong[OF ids(1), of set] by (simp add: image_image)
  have owners: "qw_endpoint_id ` set rs \<subseteq> endpoint_ids d"
    using arg_cong[OF ids(2), of set] np by auto
  have prefix: "fk_ok (d\<lparr>t_request_examples := t_request_examples d @ take k rs\<rparr>)" for k
    by (rule fk_more_children(2)[OF fk]) (use owners in \<open>auto dest!: in_set_takeD\<close>)
  have "each_stmt request_rows.insert_batch (chunks 200 rs) d
      = Ok (d\<lparr>t_request_examples := t_request_examples d @ concat (chunks 200 rs)\<rparr>)"
    by (rule request_rows.inserts_append)
      (use new texts_distinct[OF C assms(3)] prefix in \<open>simp_all add: ids ids' concat_chunks\<close>)
  then show "save_request_examples_bulk C xs d = Ok (d\<lparr>t_request_examples := t_request_examples d @ rs\<rparr>)"
    by (simp add: save_request_examples_bulk_def rows request_rows.insert_batch_def[abs_def] concat_chunks)
  show "fk_ok (d\<lparr>t_request_examples := t_request_examples d @ rs\<rparr>)" using prefix[of "length rs"] by simp
qed

lemma proto_files_append:
  assumes C: "codec_lawful C" and fk: "fk_ok d" and "distinct (map pf_id ps)"
    and np: "\<forall>p \<in> set ps. co_uuid_text C (pf_project_id p) \<in> project_ids d"
    and new: "co_uuid_text C ` pf_id ` set ps \<inter> ow_id ` set (t_proto_files d) = {}"
  shows "save_proto_files_bulk C ps d = Ok (d\<lparr>t_proto_files := t_proto_files d @ map (proto_file_row C) ps\<rparr>)"
proof -
  let ?rs = "map (proto_file_row C) ps"
  have prefix: "fk_ok (d\<lparr>t_proto_files := t_proto_files d @ take k ?rs\<rparr>)" for k
    by (rule fk_more_children(3)[OF fk]) (use np in \<open>auto simp: take_map row_ids dest!: in_set_takeD\<close>)
  have "each_stmt proto_rows.insert_batch (chunks 200 ?rs) d
      = Ok (d\<lparr>t_proto_files := t_proto_files d @ concat (chunks 200 ?rs)\<rparr>)"
    by (rule proto_rows.inserts_append)
      (use new texts_distinct[OF C assms(3)] prefix in \<open>simp_all add: comp_def row_ids image_image concat_chunks\<close>)
  then show ?thesis
    by (simp add: save_proto_files_bulk_def proto_rows.insert_batch_def[abs_def] concat_chunks)
qed

lemma save_restored_ok:
  assumes C: "codec_lawful C" and fk: "fk_ok d" and wf: "wf_restored r"
    and new: "\<forall>u \<in> set (restored_ids r). co_uuid_text C u \<notin> table_keys d"
    and q: "collect_results (request_example_row C) (re_request_examples r) = Ok qrows"
  shows "save_restored C n1 n2 r d = Ok (project_rows C n1 n2 r qrows d)"
proof -
  let ?t = "co_uuid_text C" and ?p = "project_record (project_row C (re_project r)) 0"
  note W = wf[unfolded wf_restored_def Let_def]
  have apart: "?t ` S \<inter> K = {}" if "S \<subseteq> set (restored_ids r)" "K \<subseteq> table_keys d" for S K
    using new that by blast
  have newp: "pw_id ?p \<notin> project_ids d"
    using new by (simp add: restored_ids_def table_keys_def row_ids)
  have "fk_ok (d\<lparr>t_projects := t_projects d @ [?p]\<rparr>)"
    using fk_new_project[OF fk, of ?p] newp by (simp add: upsert_def)
  note 1 = this
  have s1: "save_project C (re_project r) d = Ok (d\<lparr>t_projects := t_projects d @ [?p]\<rparr>)"
    using save_project_ok[OF fk] newp by (simp add: upsert_def)
  have fo: "distinct (map fo_id (re_folders r))" "parents_first {} (re_folders r)"
    using W by (simp_all add: restored_ids_def)
  have ep: "distinct (map ep_id (re_endpoints r))" "distinct (map en_id (re_environments r))"
    "distinct (map mr_id (re_mock_rules r))" "distinct (map rx_id (re_response_examples r))"
    "distinct (map qx_id (re_request_examples r))" "distinct (map pf_id (re_proto_files r))"
    using W by (simp_all add: restored_ids_def)
  have new_keys:
    "?t ` fo_id ` set (re_folders r) \<inter> folder_ids d = {}"
    "?t ` ep_id ` set (re_endpoints r) \<inter> endpoint_ids d = {}"
    "?t ` en_id ` set (re_environments r) \<inter> environment_ids d = {}"
    "?t ` mr_id ` set (re_mock_rules r) \<inter> mw_id ` set (t_mock_rules d) = {}"
    "?t ` rx_id ` set (re_response_examples r) \<inter> xw_id ` set (t_response_examples d) = {}"
    "?t ` qx_id ` set (re_request_examples r) \<inter> qw_id ` set (t_request_examples d) = {}"
    "?t ` pf_id ` set (re_proto_files r) \<inter> ow_id ` set (t_proto_files d) = {}"
    by (rule apart; auto simp: restored_ids_def table_keys_def)+
  let ?d1 = "d\<lparr>t_projects := t_projects d @ [?p]\<rparr>"
  let ?d2 = "?d1\<lparr>t_folders := t_folders ?d1 @ map (folder_row C) (re_folders r)\<rparr>"
  let ?er = "map (\<lambda>(i, m). endpoint_row C (n1 i) m) (indexed (re_endpoints r))"
  let ?d3 = "?d2\<lparr>t_endpoints := t_endpoints ?d2 @ ?er\<rparr>"
  let ?d4 = "?d3\<lparr>t_environments := t_environments ?d3
    @ map (\<lambda>(i, m). environment_row C (n2 i) m) (indexed (re_environments r))\<rparr>"
  let ?d5 = "?d4\<lparr>t_mock_rules := t_mock_rules ?d4 @ map (mock_rule_row C) (re_mock_rules r)\<rparr>"
  let ?d6 = "?d5\<lparr>t_response_examples := t_response_examples ?d5
    @ map (response_example_row C) (re_response_examples r)\<rparr>"
  let ?d7 = "?d6\<lparr>t_request_examples := t_request_examples ?d6 @ qrows\<rparr>"
  have p2: "\<forall>f \<in> set (re_folders r). ?t (fo_project_id f) \<in> project_ids ?d1"
    and k2: "?t ` fo_id ` set (re_folders r) \<inter> folder_ids ?d1 = {}"
    using W new_keys(1) by (simp_all add: row_ids)
  note 2 = folders_append[OF C 1 fo p2 k2]
  have fids: "?t ` fo_id ` set (re_folders r) \<subseteq> folder_ids ?d2"
    by (auto simp: row_ids image_Un image_image)
  have p3: "\<forall>e \<in> set (re_endpoints r). ?t (ep_project_id e) \<in> project_ids ?d2
      \<and> ?t ` set_option (ep_folder_id e) \<subseteq> folder_ids ?d2"
  proof
    fix e assume e: "e \<in> set (re_endpoints r)"
    then have "?t ` set_option (ep_folder_id e) \<subseteq> ?t ` fo_id ` set (re_folders r)"
      using W by (intro image_mono) blast
    moreover have "?t (ep_project_id e) \<in> project_ids ?d2" using W e by (simp add: row_ids)
    ultimately show "?t (ep_project_id e) \<in> project_ids ?d2 \<and> ?t ` set_option (ep_folder_id e) \<subseteq> folder_ids ?d2"
      using fids by (meson order_trans)
  qed
  have k3: "?t ` ep_id ` set (re_endpoints r) \<inter> endpoint_ids ?d2 = {}" using new_keys(2) by simp
  note 3 = endpoints_append[OF C 2(2) ep(1) p3 k3, where n = n1]
  have eids: "?t ` ep_id ` set (re_endpoints r) \<subseteq> endpoint_ids ?d3" using 3(3) by (simp add: image_Un)
  have p4: "\<forall>v \<in> set (re_environments r). ?t (en_project_id v) \<in> project_ids ?d3"
    and k4: "?t ` en_id ` set (re_environments r) \<inter> environment_ids ?d3 = {}"
    using W new_keys(3) by (simp_all add: row_ids)
  note 4 = environments_append[OF C 3(2) ep(2) p4 k4, where n = n2]
  have p5: "\<forall>m \<in> set (re_mock_rules r). ?t (mr_project_id m) \<in> project_ids ?d4
      \<and> ?t ` set_option (mr_endpoint_id m) \<subseteq> endpoint_ids ?d4"
  proof
    fix m assume m: "m \<in> set (re_mock_rules r)"
    then have "?t ` set_option (mr_endpoint_id m) \<subseteq> ?t ` ep_id ` set (re_endpoints r)"
      using W by (intro image_mono) blast
    moreover have "?t (mr_project_id m) \<in> project_ids ?d4" using W m by (simp add: row_ids)
    moreover have "?t ` ep_id ` set (re_endpoints r) \<subseteq> endpoint_ids ?d4" using eids by simp
    ultimately show "?t (mr_project_id m) \<in> project_ids ?d4 \<and> ?t ` set_option (mr_endpoint_id m) \<subseteq> endpoint_ids ?d4"
      by (meson order_trans)
  qed
  have k5: "?t ` mr_id ` set (re_mock_rules r) \<inter> mw_id ` set (t_mock_rules ?d4) = {}" using new_keys(4) by simp
  note 5 = mock_rules_append[OF C 4(2) ep(3) p5 k5]
  have eids5: "?t ` ep_id ` set (re_endpoints r) \<subseteq> endpoint_ids ?d5"
    and eids6: "?t ` ep_id ` set (re_endpoints r) \<subseteq> endpoint_ids ?d6" using eids by simp_all
  have p6: "\<forall>x \<in> set (re_response_examples r). ?t (rx_endpoint_id x) \<in> endpoint_ids ?d5"
    using W eids5 by blast
  have k6: "?t ` rx_id ` set (re_response_examples r) \<inter> xw_id ` set (t_response_examples ?d5) = {}"
    using new_keys(5) by simp
  note 6 = response_examples_append[OF C 5(2) ep(4) p6 k6]
  have p7: "\<forall>x \<in> set (re_request_examples r). ?t (qx_endpoint_id x) \<in> endpoint_ids ?d6"
    using W eids6 by blast
  have k7: "?t ` qx_id ` set (re_request_examples r) \<inter> qw_id ` set (t_request_examples ?d6) = {}"
    using new_keys(6) by simp
  note 7 = request_examples_append[OF C 6(2) ep(5) q p7 k7]
  have p8: "\<forall>p \<in> set (re_proto_files r). ?t (pf_project_id p) \<in> project_ids ?d7"
    and k8: "?t ` pf_id ` set (re_proto_files r) \<inter> ow_id ` set (t_proto_files ?d7) = {}"
    using W new_keys(7) by (simp_all add: row_ids)
  note 8 = proto_files_append[OF C 7(2) ep(6) p8 k8]
  show ?thesis
    by (simp only: save_restored_def s1 2(1) 3(1) 4(1) 5(1) 6(1) 7(1) 8 and_then_simps) (simp add: project_rows_def)
qed

lemma restore_globals_tables:
  assumes "restore_globals C N n3 n4 meanwhile file (d, q) = (r, d', q')"
  shows "same_tables d d'"
  using assms
proof (cases rule: restore_globals_steps)
  case (variables e)
  then show ?thesis by simp
next
  case (params e n1 d1)
  then show ?thesis using restore_variables_keeps(1) by blast
next
  case (counters e n1 d1 n2 d2 s0 s)
  note V = restore_variables_keeps(1)[OF counters(1)] and P = restore_params_keeps(1)[OF counters(2)]
    and S = restore_settings_keeps[OF counters(3), THEN conjunct1]
  show ?thesis by (rule same_tables_trans[OF V same_tables_trans[OF P S]])
next
  case (all n1 d1 n2 d2 s0 s d3 s')
  note V = restore_variables_keeps(1)[OF all(1)] and P = restore_params_keeps(1)[OF all(2)]
    and S = restore_settings_keeps[OF all(3), THEN conjunct1]
  have "same_tables d3 d'"
    using all(4) by (auto simp: restore_counters_def Let_def and_then_eq_Inr split: option.splits if_splits)
  then show ?thesis by (rule same_tables_trans[OF V same_tables_trans[OF P same_tables_trans[OF S]]])
qed

text \<open>
  C18: A well-formed backup restores. When the parsed file's references resolve, its folders come
  after their parents, the drawn identifiers are new and distinct and the requests of its examples
  serialize, every write of the transaction succeeds, and afterwards each table holds the rows it
  held before followed by the rows of the renamed project, with nothing else changed outside the
  settings. The answer names the new project.
\<close>

theorem restore_succeeds:
  assumes "codec_lawful C" "db_inv d" "parse_backup C B txt = Ok file" "wf_backup file"
    and "inj_on (rd_fresh rnd) {..<entity_count file}"
    and "\<forall>i < entity_count file. co_uuid_text C (rd_fresh rnd i) \<notin> table_keys d"
    and "collect_results (request_example_row C)
        (re_request_examples (restore_backup (rd_fresh rnd) file)) = Ok qrows"
  shows "\<exists>j d' q'. backup_restore C B N rnd txt (d, q) = (Ok j, d', q')
    \<and> d' = (project_rows C (rd_nonces1 rnd) (rd_nonces2 rnd) (restore_backup (rd_fresh rnd) file) qrows d)
        \<lparr>t_settings := t_settings d'\<rparr>
    \<and> json_get ''id'' j = Some (JString (co_uuid_text C (rd_fresh rnd 0)))"
proof -
  let ?r = "restore_backup (rd_fresh rnd) file"
  have wf: "wf_restored ?r" by (rule restored_wf[OF assms(4,5)])
  have new: "\<forall>u \<in> set (restored_ids ?r). co_uuid_text C u \<notin> table_keys d"
    using assms(6) by (auto simp: restored_ids_fresh)
  have fk: "fk_ok d" using assms(2) by (simp add: db_inv_def)
  note run = save_restored_ok[OF assms(1) fk wf new assms(7), of "rd_nonces1 rnd" "rd_nonces2 rnd"]
  let ?d1 = "project_rows C (rd_nonces1 rnd) (rd_nonces2 rnd) ?r qrows d"
  obtain g d' q' where g: "restore_globals C N (rd_nonce3 rnd) (rd_nonce4 rnd) (rd_meanwhile rnd) file (?d1, q) = (g, d', q')"
    by (metis surj_pair)
  have "same_tables ?d1 d'" by (rule restore_globals_tables[OF g])
  moreover have "backup_restore C B N rnd txt (d, q) = (Ok (restore_summary C ?r (ok_or default_summary g)), d', q')"
    by (simp add: backup_restore_def assms(3) Let_def run g)
  moreover have "json_get ''id'' (restore_summary C ?r s) = Some (JString (co_uuid_text C (rd_fresh rnd 0)))" for s
    by (simp add: json_get_def restore_summary_def)
  ultimately show ?thesis unfolding same_tables_def by blast
qed

lemma restore_succeeds_witness:
  "\<exists>j d' q'. backup_restore child_first_codec (const_serde ''B'' demo_file) (const_serde [] []) demo_draws ''B''
     (empty_db, \<lparr>sq_counters = [], sq_dirty = False, sq_tick = 0\<rparr>) = (Ok j, d', q')
     \<and> json_get ''id'' j = Some (JString ''0'')"
proof -
  have lawful: "codec_lawful child_first_codec"
    using demo_codec_lawful by (simp add: codec_lawful_def child_first_codec_def)
  have parse: "parse_backup child_first_codec (const_serde ''B'' demo_file) ''B'' = Ok demo_file"
    by (simp add: parse_backup_def child_first_codec_def const_serde_def json_get_def as_u64_def
        demo_file_def build_backup_def SCHEMA_VERSION_def)
  have inj: "inj_on (rd_fresh demo_draws) {..<entity_count demo_file}"
    using demo_fresh by (simp add: demo_draws_def)
  have keys: "table_keys empty_db = {}" by (simp add: table_keys_def empty_db_def)
  have none: "collect_results (request_example_row child_first_codec)
      (re_request_examples (restore_backup (rd_fresh demo_draws) demo_file)) = Ok []"
    by (simp add: restore_backup_def Let_def demo_file_def build_backup_def demo_input_def number_from_def
        split: prod.splits)
  have text0: "co_uuid_text child_first_codec (rd_fresh demo_draws 0) = ''0''"
  proof -
    have "show_nat 0 = ''0''" by code_simp
    then show ?thesis by (simp add: child_first_codec_def demo_codec_def demo_draws_def)
  qed
  show ?thesis
    using restore_succeeds[OF lawful empty_db_inv parse demo_file_wf inj _ none,
        where N = "const_serde [] []" and q = "\<lparr>sq_counters = [], sq_dirty = False, sq_tick = 0\<rparr>"]
    unfolding keys text0 by blast
qed

end
