(* ===== verification/Codegen.thy ===== *)
theory Codegen
  imports Sign "HOL-Library.Char_ord" "HOL-Library.List_Lexorder"
begin

text \<open>
  Code generation, \<open>crates/fox-codegen/src/lib.rs\<close> and \<open>util.rs\<close>: a request as a curl command or as
  a program in Python, JavaScript, Go, Java, PHP or Rust. The texts are the source's byte for byte.
  What the generator takes from outside (the clock, nonces, URL parsing for signatures, JSON) is a
  field of \<open>gen_env\<close>.
\<close>

section \<open>Texts\<close>

definition nl :: str where "nl = [newline]"
definition bsl :: str where "bsl = [backslash]"
definition apos :: str where "apos = [CHR 0x27]"

lemmas text_defs = nl_def bsl_def apos_def newline_def backslash_def

definition is_unreserved :: "char \<Rightarrow> bool" where
  "is_unreserved c \<longleftrightarrow> is_alnum c \<or> c \<in> {CHR ''-'', CHR ''_'', CHR ''.'', CHR ''~''}"

definition encode_component :: "str \<Rightarrow> str" where
  "encode_component s = concat (map (\<lambda>c. if is_unreserved c then [c] else CHR ''%'' # hex_byte_upper c) s)"

definition sq :: "str \<Rightarrow> str" where
  "sq s = replace_all apos (apos @ bsl @ apos @ apos) s"

definition dq_char :: "char \<Rightarrow> str" where
  "dq_char c =
     (if c = quote then bsl @ [quote]
      else if c = backslash then bsl @ bsl
      else if c = newline then bsl @ ''n''
      else if c = CHR 0x0D then bsl @ ''r''
      else if c = CHR 0x09 then bsl @ ''t''
      else [c])"

definition dq :: "str \<Rightarrow> str" where "dq s = concat (map dq_char s)"

definition pq_char :: "char \<Rightarrow> str" where
  "pq_char c = (if c = backslash then bsl @ bsl else if [c] = apos then bsl @ apos else [c])"

definition pq :: "str \<Rightarrow> str" where "pq s = concat (map pq_char s)"

section \<open>Requests\<close>

datatype lang = Lang_Curl | Lang_Python | Lang_JavaScript | Lang_Go | Lang_Java | Lang_Php | Lang_Rust

fun lang_label :: "lang \<Rightarrow> str" where
  "lang_label Lang_Curl = ''curl''"
| "lang_label Lang_Python = ''Python (requests)''"
| "lang_label Lang_JavaScript = ''JavaScript (fetch)''"
| "lang_label Lang_Go = ''Go (net/http)''"
| "lang_label Lang_Java = ''Java (OkHttp)''"
| "lang_label Lang_Php = ''PHP (cURL)''"
| "lang_label Lang_Rust = ''Rust (reqwest)''"

definition lang_from_str :: "str \<Rightarrow> lang option" where
  "lang_from_str s =
     (if s = ''curl'' then Some Lang_Curl
      else if s = ''python'' then Some Lang_Python
      else if s = ''js'' then Some Lang_JavaScript
      else if s = ''go'' then Some Lang_Go
      else if s = ''java'' then Some Lang_Java
      else if s = ''php'' then Some Lang_Php
      else if s = ''rust'' then Some Lang_Rust
      else None)"

record gen_env =
  ge_crypto :: crypto
  ge_sign_parse :: "str \<Rightarrow> (str, url_parts) result"
  ge_path_query :: "str \<Rightarrow> (str, str \<times> str option) result"
  ge_now_secs :: u64
  ge_nonce :: str
  ge_amz_date :: str
  ge_timestamp :: str
  ge_json_parse :: "str \<Rightarrow> (str, json) result"
  ge_json_print :: "json \<Rightarrow> str"
  ge_json_pretty :: "json \<Rightarrow> str"

record gen_request =
  gr_http_method :: http_method
  gr_url :: str
  gr_headers :: "key_value list"
  gr_body :: body_spec
  gr_auth :: auth_spec

record sign_snapshot =
  sn_method :: http_method
  sn_url :: str
  sn_body :: body_spec

text \<open>A JSON object has its entries in the order of insertion; how they are printed is the printer's choice.\<close>

definition graphql_json :: "gen_env \<Rightarrow> graphql_spec \<Rightarrow> str" where
  "graphql_json E spec =
     (let trimmed = trim (gq_variables spec);
          vars = (if trimmed \<noteq> [] \<and> trimmed \<noteq> ''{}'' then
                    (case ge_json_parse E trimmed of
                       Inr (JObject kvs) \<Rightarrow> [(''variables'', JObject kvs)]
                     | _ \<Rightarrow> [])
                  else []);
          operation = (if trim (gq_operation_name spec) \<noteq> []
                       then [(''operationName'', JString (gq_operation_name spec))] else [])
      in ge_json_print E (JObject ((''query'', JString (gq_query spec)) # vars @ operation)))"

definition body_parts :: "gen_env \<Rightarrow> body_spec \<Rightarrow> str \<times> str option \<times> multipart_field list option" where
  "body_parts E body =
     (case body of
        Body_None \<Rightarrow> ([], None, None)
      | Body_Json raw \<Rightarrow> (raw, Some ''application/json'', None)
      | Body_Text raw \<Rightarrow> (raw, None, None)
      | UrlEncoded fs \<Rightarrow>
          (join ''&'' (map (\<lambda>f. encode_component (kv_key f) @ ''='' @ encode_component (kv_value f))
             (filter kv_enabled fs)),
           Some ''application/x-www-form-urlencoded'', None)
      | Multipart fs \<Rightarrow> ([], None, Some fs)
      | GraphQL spec \<Rightarrow> (graphql_json E spec, Some ''application/json'', None)
      | Binary _ \<Rightarrow> ([], Some ''application/octet-stream'', None)
      | Body_Grpc _ \<Rightarrow> ([], None, None))"

definition snapshot_payload :: "gen_env \<Rightarrow> body_spec \<Rightarrow> str \<times> (str \<times> str) option" where
  "snapshot_payload E body =
     (case body of
        Body_None \<Rightarrow> (sha256_hex (ge_crypto E) [], None)
      | Binary _ \<Rightarrow> (''UNSIGNED-PAYLOAD'', None)
      | Multipart _ \<Rightarrow> (''UNSIGNED-PAYLOAD'', None)
      | _ \<Rightarrow>
          (case body_parts E body of
             (txt, content_type, _) \<Rightarrow>
               (sha256_hex (ge_crypto E) txt,
                Some (case content_type of None \<Rightarrow> ''application/octet-stream'' | Some ct \<Rightarrow> ct, txt))))"

definition bearer_header :: "str \<Rightarrow> (str \<times> str) list" where
  "bearer_header token = [(''Authorization'', ''Bearer '' @ token)]"

definition auth_headers :: "gen_env \<Rightarrow> auth_spec \<Rightarrow> sign_snapshot \<Rightarrow> (str \<times> str) list" where
  "auth_headers E auth snap =
     (case auth of
        Bearer token \<Rightarrow> if token \<noteq> [] then bearer_header token else []
      | Basic username password \<Rightarrow>
          [(''Authorization'', ''Basic '' @ c_base64 (ge_crypto E) (username @ '':'' @ password))]
      | ApiKey key v Loc_Header \<Rightarrow> if trim key \<noteq> [] \<and> v \<noteq> [] then [(key, v)] else []
      | OAuth2 _ _ _ _ _ _ (Some t) \<Rightarrow>
          if ot_access_token t \<noteq> [] then bearer_header (ot_access_token t) else []
      | Hawk key_id key \<Rightarrow>
          (case hawk_authorization (ge_crypto E) (ge_sign_parse E)
                  \<lparr>hk_id = key_id, hk_key = key, hk_method = method_as_str (sn_method snap),
                   hk_url = sn_url snap, hk_body = snd (snapshot_payload E (sn_body snap)),
                   hk_ts = ge_now_secs E, hk_nonce = ge_nonce E\<rparr> of
             Inr h \<Rightarrow> [(''Authorization'', h)]
           | Inl _ \<Rightarrow> [])
      | AwsV4 access_key secret_key region service session_token \<Rightarrow>
          (let out = (''x-amz-date'', ge_amz_date E)
                 # (case session_token of
                      Some token \<Rightarrow> if trim token \<noteq> [] then [(''x-amz-security-token'', token)] else []
                    | None \<Rightarrow> [])
           in (case sign_aws_v4 (ge_crypto E) (ge_sign_parse E)
                      \<lparr>aw_access_key = access_key, aw_secret_key = secret_key,
                       aw_session_token = session_token, aw_region = region, aw_service = service,
                       aw_method = method_as_str (sn_method snap), aw_url = sn_url snap,
                       aw_payload_hash = fst (snapshot_payload E (sn_body snap)),
                       aw_amz_date = ge_amz_date E\<rparr> of
                 Inr (authorization, _) \<Rightarrow> out @ [(''Authorization'', authorization)]
               | Inl _ \<Rightarrow> []))
      | Hmac access_key secret_key \<Rightarrow>
          (let path_query = (case ge_path_query E (sn_url snap) of
                               Inr (path, Some q) \<Rightarrow> path @ ''?'' @ q
                             | Inr (path, None) \<Rightarrow> path
                             | Inl _ \<Rightarrow> sn_url snap)
           in (case aksk_headers (ge_crypto E)
                      \<lparr>ak_access_key = access_key, ak_secret_key = secret_key,
                       ak_method = method_as_str (sn_method snap), ak_path_query = path_query,
                       ak_timestamp = ge_timestamp E, ak_nonce = ge_nonce E\<rparr> of
                 Inr (headers, _) \<Rightarrow> headers
               | Inl _ \<Rightarrow> []))
      | _ \<Rightarrow> [])"

text \<open>An entry that names the header in any case takes the value; otherwise one is added.\<close>

fun set_header :: "str \<Rightarrow> str \<Rightarrow> (str \<times> str) list \<Rightarrow> (str \<times> str) list" where
  "set_header key v [] = [(key, v)]"
| "set_header key v ((k, w) # hs) =
     (if eq_ignore_ascii_case k key then (k, v) # hs else (k, w) # set_header key v hs)"

definition merge_headers ::
  "gen_env \<Rightarrow> key_value list \<Rightarrow> auth_spec \<Rightarrow> sign_snapshot \<Rightarrow> (str \<times> str) list" where
  "merge_headers E headers auth snap =
     fold (\<lambda>kv merged. set_header (trim (kv_key kv)) (kv_value kv) merged)
       (filter (\<lambda>kv. kv_enabled kv \<and> trim (kv_key kv) \<noteq> []) headers)
       (auth_headers E auth snap)"

definition names_header :: "(str \<times> str) list \<Rightarrow> str \<Rightarrow> bool" where
  "names_header headers name \<longleftrightarrow> list_ex (\<lambda>(k, _). eq_ignore_ascii_case k name) headers"

text \<open>The parts of a form that are sent.\<close>

definition sent_fields :: "multipart_field list \<Rightarrow> multipart_field list" where
  "sent_fields fs = filter (\<lambda>f. mf_enabled f \<and> trim (mf_key f) \<noteq> []) fs"

section \<open>curl\<close>

definition curl_header :: "str \<Rightarrow> str \<Rightarrow> str" where
  "curl_header k v = '' '' @ bsl @ nl @ ''     -H '' @ apos @ sq k @ '': '' @ sq v @ apos"

definition curl_field :: "multipart_field \<Rightarrow> str" where
  "curl_field f =
     (let v = (case mf_value_type f of MV_Text \<Rightarrow> sq (mf_value f) | MV_FilePath \<Rightarrow> ''@'' @ sq (mf_value f))
      in '' '' @ bsl @ nl @ ''     -F '' @ apos @ sq (mf_key f) @ ''='' @ v @ apos)"

definition render_curl ::
  "gen_env \<Rightarrow> http_method \<Rightarrow> str \<Rightarrow> (str \<times> str) list \<Rightarrow> body_spec \<Rightarrow> str" where
  "render_curl E method url headers spec =
     (case body_parts E spec of
        (body, content_type, multipart) \<Rightarrow>
          (let start = ''curl -X '' @ method_as_str method @ '' '' @ apos @ sq url @ apos
                 @ concat (map (\<lambda>(k, v). curl_header k v) headers);
               untyped = \<not> names_header headers ''content-type''
           in (case spec of
                 Binary path \<Rightarrow>
                   start
                   @ (if untyped then '' '' @ bsl @ nl @ ''     -H 'Content-Type: application/octet-stream'' @ apos else [])
                   @ '' '' @ bsl @ nl @ ''     --data-binary '@'' @ sq path @ apos
               | _ \<Rightarrow>
                   start
                   @ (case multipart of
                        Some fs \<Rightarrow> concat (map curl_field (sent_fields fs))
                      | None \<Rightarrow>
                          if body \<noteq> [] then '' '' @ bsl @ nl @ ''     --data '' @ apos @ sq body @ apos else [])
                   @ (case content_type of
                        Some ct \<Rightarrow> if untyped then '' '' @ bsl @ nl @ ''     -H 'Content-Type: '' @ ct @ apos else []
                      | None \<Rightarrow> []))))"

definition render_graphql_curl ::
  "gen_env \<Rightarrow> str \<Rightarrow> key_value list \<Rightarrow> auth_spec \<Rightarrow> graphql_spec \<Rightarrow> str" where
  "render_graphql_curl E url headers auth spec =
     (let merged = merge_headers E headers auth \<lparr>sn_method = POST, sn_url = url, sn_body = GraphQL spec\<rparr>
      in ''curl -X POST '' @ apos @ sq url @ apos
         @ concat (map (\<lambda>(k, v). curl_header k v) merged)
         @ (if names_header merged ''content-type'' then []
            else '' '' @ bsl @ nl @ ''     -H 'Content-Type: application/json'' @ apos)
         @ '' '' @ bsl @ nl @ ''     --data '' @ apos @ sq (graphql_json E spec) @ apos)"

section \<open>JavaScript for GraphQL\<close>

definition render_graphql_js ::
  "gen_env \<Rightarrow> str \<Rightarrow> key_value list \<Rightarrow> auth_spec \<Rightarrow> graphql_spec \<Rightarrow> str" where
  "render_graphql_js E url headers auth spec =
     (let merged = merge_headers E headers auth \<lparr>sn_method = POST, sn_url = url, sn_body = GraphQL spec\<rparr>;
          start = ''import { ApolloClient, InMemoryCache, gql } from '@apollo/client';''
            @ nl @ nl
            @ ''const client = new ApolloClient({'' @ nl
            @ ''  uri: '' @ apos @ sq url @ apos @ '','' @ nl
            @ (if merged = [] then []
               else ''  headers: {'' @ nl
                 @ concat (map (\<lambda>(k, v). ''    '' @ apos @ dq k @ apos @ '': '' @ apos @ dq v @ apos @ '','' @ nl) merged)
                 @ ''  },'' @ nl)
            @ ''  cache: new InMemoryCache(),'' @ nl @ ''});'' @ nl @ nl
            @ ''const QUERY = gql`'' @ nl
            @ gq_query spec;
          query_end = (if ends_with nl start then [] else nl);
          variables = (case ge_json_parse E (trim (gq_variables spec)) of
                         Inr (JObject kvs) \<Rightarrow> JObject kvs
                       | _ \<Rightarrow> JObject []);
          operation = trim (gq_operation_name spec)
      in start @ query_end
         @ ''`;'' @ nl @ nl
         @ ''const variables = '' @ ge_json_print E variables @ '';'' @ nl @ nl
         @ (if operation \<noteq> []
            then ''const result = await client.query({'' @ nl @ ''  query: QUERY,'' @ nl
          @ ''  variables,'' @ nl @ ''  operationName: '' @ apos @ dq operation @ apos @ '',''
          @ nl @ ''});'' @ nl
            else ''const result = await client.query({'' @ nl @ ''  query: QUERY,'' @ nl
          @ ''  variables,'' @ nl @ ''});'' @ nl)
         @ ''console.log(result.data);'' @ nl)"

section \<open>Python\<close>

definition render_python ::
  "gen_env \<Rightarrow> http_method \<Rightarrow> str \<Rightarrow> (str \<times> str) list \<Rightarrow> body_spec \<Rightarrow> str" where
  "render_python E method url headers spec =
     (case body_parts E spec of
        (body, content_type, multipart) \<Rightarrow>
          ''import requests'' @ nl @ nl
          @ ''url = \"'' @ sq url @ ''\"'' @ nl
          @ ''headers = {''
          @ (if headers \<noteq> [] \<or> content_type \<noteq> None then
               nl @ concat (map (\<lambda>(k, v). ''    \"'' @ dq k @ ''\": \"'' @ dq v @ ''\",'' @ nl) headers)
               @ (case content_type of
                    Some ct \<Rightarrow> ''    \"Content-Type\": \"'' @ ct @ ''\",'' @ nl
                  | None \<Rightarrow> [])
               @ ''}'' @ nl
             else ''}'' @ nl)
          @ (case multipart of
               Some fs \<Rightarrow>
                 ''files = {'' @ nl
                 @ concat (map (\<lambda>f. case mf_value_type f of
                       MV_Text \<Rightarrow> ''    \"'' @ dq (mf_key f) @ ''\": \"'' @ dq (mf_value f) @ ''\",'' @ nl
                     | MV_FilePath \<Rightarrow> ''    \"'' @ dq (mf_key f) @ ''\": open(\"'' @ dq (mf_value f)
                @ ''\", \"rb\"),'' @ nl)
                     (sent_fields fs))
                 @ ''}'' @ nl
                 @ ''resp = requests.request(\"'' @ method_as_str method
              @ ''\", url, headers=headers, files=files)'' @ nl
             | None \<Rightarrow>
                 if body \<noteq> [] then
                   ''payload = \"'' @ dq body @ ''\"'' @ nl
                   @ ''resp = requests.request(\"'' @ method_as_str method
              @ ''\", url, headers=headers, data=payload)'' @ nl
                 else
                   ''resp = requests.request(\"'' @ method_as_str method
              @ ''\", url, headers=headers)'' @ nl)
          @ ''print(resp.status_code, resp.text)'' @ nl)"

section \<open>JavaScript\<close>

definition render_js ::
  "gen_env \<Rightarrow> http_method \<Rightarrow> str \<Rightarrow> (str \<times> str) list \<Rightarrow> body_spec \<Rightarrow> str" where
  "render_js E method url headers spec =
     (case body_parts E spec of
        (body, content_type, multipart) \<Rightarrow>
          ''const url = '' @ apos @ sq url @ apos @ '';'' @ nl
          @ ''const options = {'' @ nl @ ''  method: '' @ apos @ method_as_str method @ apos
          @ '','' @ nl
          @ (if headers \<noteq> [] \<or> content_type \<noteq> None then
               ''  headers: {'' @ nl
               @ concat (map (\<lambda>(k, v). ''    '' @ apos @ dq k @ apos @ '': '' @ apos @ dq v @ apos @ '','' @ nl) headers)
               @ (case content_type of
                    Some ct \<Rightarrow> ''    'Content-Type': '' @ apos @ ct @ apos @ '','' @ nl
                  | None \<Rightarrow> [])
               @ ''  },'' @ nl
             else [])
          @ (case multipart of
               Some fs \<Rightarrow>
                 ''const fd = new FormData();'' @ nl
                 @ concat (map (\<lambda>f. case mf_value_type f of
                       MV_Text \<Rightarrow> ''fd.append(\"'' @ dq (mf_key f) @ ''\", \"'' @ dq (mf_value f) @ ''\");'' @ nl
                     | MV_FilePath \<Rightarrow> ''fd.append(\"'' @ dq (mf_key f) @ ''\", yourFile); // ''
                @ bytes [230, 150, 135, 228, 187, 182, 229, 173, 151, 230, 174, 181, 239, 188, 154, 229, 176, 134]
                @ '' yourFile ''
                @ bytes [230, 155, 191, 230, 141, 162, 228, 184, 186, 228, 189, 160, 231, 154, 132]
                @ '' File '' @ bytes [229, 175, 185, 232, 177, 161] @ nl)
                     (sent_fields fs))
                 @ ''  body: fd,'' @ nl
             | None \<Rightarrow>
                 if body \<noteq> [] then
                   (if content_type = Some ''application/json''
                    then ''  body: JSON.stringify('' @ body @ ''),'' @ nl
                    else ''  body: '' @ apos @ dq body @ apos @ '','' @ nl)
                 else [])
          @ ''};'' @ nl
          @ ''const resp = await fetch(url, options);'' @ nl
          @ ''const data = await resp.text();'' @ nl
          @ ''console.log(resp.status, data);'' @ nl)"

section \<open>Go\<close>

definition render_go ::
  "gen_env \<Rightarrow> http_method \<Rightarrow> str \<Rightarrow> (str \<times> str) list \<Rightarrow> body_spec \<Rightarrow> str" where
  "render_go E method url headers spec =
     (case body_parts E spec of
        (body, content_type, _) \<Rightarrow>
          ''package main'' @ nl @ nl @ ''import ('' @ nl
          @ ''  \"bytes\"'' @ nl @ ''  \"fmt\"'' @ nl @ ''  \"io\"'' @ nl @ ''  \"net/http\"''
          @ nl @ '')'' @ nl @ nl
          @ ''func main() {'' @ nl
          @ (if body = [] then
               ''  req, err := http.NewRequest(\"'' @ method_as_str method @ ''\", \"'' @ dq url
              @ ''\", nil)'' @ nl
             else
               ''  payload := []byte(\"'' @ dq body @ ''\")'' @ nl
               @ ''  req, err := http.NewRequest(\"'' @ method_as_str method @ ''\", \"'' @ dq url
              @ ''\", bytes.NewBuffer(payload))'' @ nl)
          @ ''  if err != nil {'' @ nl @ ''    panic(err)'' @ nl @ ''  }'' @ nl
          @ concat (map (\<lambda>(k, v). ''  req.Header.Set(\"'' @ dq k @ ''\", \"'' @ dq v @ ''\")'' @ nl) headers)
          @ (case content_type of
               Some ct \<Rightarrow> ''  req.Header.Set(\"Content-Type\", \"'' @ ct @ ''\")'' @ nl
             | None \<Rightarrow> [])
          @ ''  resp, err := http.DefaultClient.Do(req)'' @ nl
          @ ''  if err != nil {'' @ nl @ ''    fmt.Println(\"''
          @ bytes [232, 175, 183, 230, 177, 130, 229, 164, 177, 232, 180, 165] @ '':\", err)''
          @ nl @ ''    return'' @ nl @ ''  }'' @ nl
          @ ''  defer resp.Body.Close()'' @ nl
          @ ''  data, _ := io.ReadAll(resp.Body)'' @ nl
          @ ''  fmt.Println(resp.Status, string(data))'' @ nl @ ''}'' @ nl)"

section \<open>Java\<close>

definition file_name :: "str \<Rightarrow> str" where
  "file_name path = last (split_on (CHR ''/'') path)"

definition body_expr_java ::
  "str \<Rightarrow> str option \<Rightarrow> multipart_field list option \<Rightarrow> str" where
  "body_expr_java body content_type multipart =
     (case multipart of
        Some fs \<Rightarrow>
          ''    MultipartBody.Builder builder = new MultipartBody.Builder()'' @ nl
          @ ''      .setType(MultipartBody.FORM)'' @ nl
          @ concat (map (\<lambda>f. case mf_value_type f of
                MV_Text \<Rightarrow> ''      .addFormDataPart(\"'' @ dq (mf_key f) @ ''\", \"'' @ dq (mf_value f)
              @ ''\")'' @ nl
              | MV_FilePath \<Rightarrow> ''      .addFormDataPart(\"'' @ dq (mf_key f) @ ''\", \"''
              @ file_name (mf_value f)
              @ ''\", RequestBody.create(MediaType.parse(\"application/octet-stream\"), new File(\"''
              @ dq (mf_value f) @ ''\")))'' @ nl)
              (sent_fields fs))
          @ ''      .build();'' @ nl @ ''    RequestBody body = builder;''
      | None \<Rightarrow>
          let ct = (case content_type of None \<Rightarrow> ''application/json'' | Some ct \<Rightarrow> ct)
          in if body = [] then ''    RequestBody body = null;''
             else ''    MediaType mediaType = MediaType.parse(\"'' @ ct @ ''\");'' @ nl
              @ ''    RequestBody body = RequestBody.create(mediaType, \"'' @ dq body @ ''\");'')"

definition render_java ::
  "gen_env \<Rightarrow> http_method \<Rightarrow> str \<Rightarrow> (str \<times> str) list \<Rightarrow> body_spec \<Rightarrow> str" where
  "render_java E method url headers spec =
     (case body_parts E spec of
        (body, content_type, multipart) \<Rightarrow>
          ''import okhttp3.*;'' @ nl @ ''import java.io.File;'' @ nl
          @ ''import java.io.IOException;'' @ nl @ nl
          @ ''public class Main {'' @ nl
          @ ''  public static void main(String[] args) throws IOException {'' @ nl
          @ ''    OkHttpClient client = new OkHttpClient();'' @ nl @ nl
          @ body_expr_java body content_type multipart
          @ ''    Request request = new Request.Builder()'' @ nl
          @ ''      .url(\"'' @ dq url @ ''\")'' @ nl
          @ ''      .method(\"'' @ method_as_str method @ ''\", body)'' @ nl
          @ concat (map (\<lambda>(k, v). ''      .addHeader(\"'' @ dq k @ ''\", \"'' @ dq v @ ''\")'' @ nl) headers)
          @ (case content_type of
               Some ct \<Rightarrow>
                 if names_header headers ''content-type'' then []
                 else ''      .addHeader(\"Content-Type\", \"'' @ ct @ ''\")'' @ nl
             | None \<Rightarrow> [])
          @ ''      .build();'' @ nl @ nl
          @ ''    try (Response response = client.newCall(request).execute()) {'' @ nl
          @ ''      System.out.println(response.code());'' @ nl
          @ ''      System.out.println(response.body() != null ? response.body().string() : \"\");''
          @ nl
          @ ''    }'' @ nl @ ''  }'' @ nl @ ''}'' @ nl)"

section \<open>PHP\<close>

definition render_php ::
  "gen_env \<Rightarrow> http_method \<Rightarrow> str \<Rightarrow> (str \<times> str) list \<Rightarrow> body_spec \<Rightarrow> str" where
  "render_php E method url headers spec =
     (case body_parts E spec of
        (body, content_type, multipart) \<Rightarrow>
          let has_ct = names_header headers ''content-type''
          in ''<?php'' @ nl @ nl @ ''$ch = curl_init();'' @ nl
          @ ''curl_setopt($ch, CURLOPT_URL, \"'' @ dq url @ ''\");'' @ nl
          @ ''curl_setopt($ch, CURLOPT_CUSTOMREQUEST, \"'' @ method_as_str method @ ''\");'' @ nl
          @ (case multipart of
               Some fs \<Rightarrow>
                 ''curl_setopt($ch, CURLOPT_POSTFIELDS, array('' @ nl
                 @ concat (map (\<lambda>f. case mf_value_type f of
                       MV_Text \<Rightarrow> ''    \"'' @ pq (mf_key f) @ ''\" => \"'' @ pq (mf_value f) @ ''\",'' @ nl
                     | MV_FilePath \<Rightarrow> ''    \"'' @ pq (mf_key f) @ ''\" => new CURLFile(\"'' @ pq (mf_value f)
                @ ''\"),'' @ nl)
                     (sent_fields fs))
                 @ ''));'' @ nl
             | None \<Rightarrow>
                 if body \<noteq> [] then ''curl_setopt($ch, CURLOPT_POSTFIELDS, \"'' @ dq body @ ''\");'' @ nl else [])
          @ (if headers \<noteq> [] \<or> content_type \<noteq> None \<and> \<not> has_ct then
               ''curl_setopt($ch, CURLOPT_HTTPHEADER, array('' @ nl
               @ concat (map (\<lambda>(k, v). ''    \"'' @ dq k @ '': '' @ dq v @ ''\",'' @ nl) headers)
               @ (case content_type of
                    Some ct \<Rightarrow> if has_ct then [] else ''    \"Content-Type: '' @ ct @ ''\",'' @ nl
                  | None \<Rightarrow> [])
               @ ''));'' @ nl
             else [])
          @ ''curl_setopt($ch, CURLOPT_RETURNTRANSFER, true);'' @ nl @ nl
          @ ''$response = curl_exec($ch);'' @ nl
          @ ''$err = curl_error($ch);'' @ nl
          @ ''curl_close($ch);'' @ nl @ nl
          @ ''if ($err) {'' @ nl @ ''    echo \"cURL Error #:\" . $err;'' @ nl @ ''} else {'' @ nl
          @ ''    echo $response;'' @ nl @ ''}'' @ nl)"

section \<open>Rust\<close>

definition rust_request :: "http_method \<Rightarrow> str \<Rightarrow> (str \<times> str) list \<Rightarrow> str" where
  "rust_request method url headers =
     ''    let response = client.request(\"'' @ method_as_str method @ ''\".parse()?, \"''
     @ dq url @ ''\")'' @ nl
     @ concat (map (\<lambda>(k, v). ''        .header(\"'' @ dq k @ ''\", \"'' @ dq v @ ''\")'' @ nl) headers)"

definition render_rust ::
  "gen_env \<Rightarrow> http_method \<Rightarrow> str \<Rightarrow> (str \<times> str) list \<Rightarrow> body_spec \<Rightarrow> str" where
  "render_rust E method url headers spec =
     (case body_parts E spec of
        (body, content_type, multipart) \<Rightarrow>
          ''// Cargo.toml '' @ bytes [228, 190, 157, 232, 181, 150, 239, 188, 154]
          @ ''reqwest = { version = \"0.12\", features = [\"blocking\", \"multipart\"] }'' @ nl
          @ nl
          @ ''fn main() -> Result<(), Box<dyn std::error::Error>> {'' @ nl
          @ ''    let client = reqwest::blocking::Client::new();'' @ nl
          @ (case multipart of
               Some fs \<Rightarrow>
                 join nl (''    let form = reqwest::multipart::Form::new()''
                   # map (\<lambda>f. case mf_value_type f of
                       MV_Text \<Rightarrow> ''        .text(\"'' @ dq (mf_key f) @ ''\", \"'' @ dq (mf_value f) @ ''\")''
                     | MV_FilePath \<Rightarrow> ''        .file(\"'' @ dq (mf_key f) @ ''\", \"'' @ dq (mf_value f) @ ''\")?'')
                     (sent_fields fs))
                 @ '';'' @ nl
                 @ rust_request method url headers
                 @ ''        .multipart(form)'' @ nl @ ''        .send()?;'' @ nl
             | None \<Rightarrow>
                 rust_request method url headers
                 @ (case content_type of
                      Some ct \<Rightarrow>
                        if names_header headers ''content-type'' then []
                        else ''        .header(\"Content-Type\", \"'' @ ct @ ''\")'' @ nl
                    | None \<Rightarrow> [])
                 @ (if body \<noteq> [] then ''        .body(\"'' @ dq body @ ''\")'' @ nl else [])
                 @ ''        .send()?;'' @ nl)
          @ ''    let status = response.status();'' @ nl
          @ ''    let body = response.text()?;'' @ nl
          @ ''    println!(\"{} {}\", status, body);'' @ nl
          @ ''    Ok(())'' @ nl @ ''}'' @ nl)"

section \<open>The entry point\<close>

definition render :: "gen_env \<Rightarrow> lang \<Rightarrow> gen_request \<Rightarrow> str" where
  "render E lang req =
     (let m = gr_http_method req; u = gr_url req; b = gr_body req;
          merged = merge_headers E (gr_headers req) (gr_auth req) \<lparr>sn_method = m, sn_url = u, sn_body = b\<rparr>
      in (case lang of
            Lang_Curl \<Rightarrow> render_curl E m u merged b
          | Lang_Python \<Rightarrow> render_python E m u merged b
          | Lang_JavaScript \<Rightarrow> render_js E m u merged b
          | Lang_Go \<Rightarrow> render_go E m u merged b
          | Lang_Java \<Rightarrow> render_java E m u merged b
          | Lang_Php \<Rightarrow> render_php E m u merged b
          | Lang_Rust \<Rightarrow> render_rust E m u merged b))"

end
