(* ===== verification/CodegenShell.thy ===== *)
theory CodegenShell
  imports Codegen Curl
begin

text \<open>
  What a shell makes of a generated curl command. \<open>shell_words\<close> reads a line by the POSIX rules for
  quoting, and refuses every character that a shell treats specially outside quotes; the generated
  command is read as exactly its intended words, whatever the request holds, and the curl importer
  reads the request back.
\<close>

section \<open>Shell words\<close>

datatype sh_state = Between | In_Word str | In_Quotes str

definition plain_char :: "char \<Rightarrow> bool" where
  "plain_char c \<longleftrightarrow> is_alnum c \<or> c \<in> {CHR ''-'', CHR ''_'', CHR ''.'', CHR ''/''}"

definition is_sep :: "char \<Rightarrow> bool" where
  "is_sep c \<longleftrightarrow> c = CHR '' '' \<or> c = CHR 0x09"

text \<open>A backslash before a newline joins the lines.\<close>

fun shell_words :: "sh_state \<Rightarrow> str \<Rightarrow> str list option" where
  "shell_words Between [] = Some []"
| "shell_words (In_Word w) [] = Some [w]"
| "shell_words (In_Quotes w) [] = None"
| "shell_words (In_Quotes w) (c # cs) =
     (if [c] = apos then shell_words (In_Word w) cs else shell_words (In_Quotes (w @ [c])) cs)"
| "shell_words Between (c # cs) =
     (if is_sep c then shell_words Between cs
      else if [c] = apos then shell_words (In_Quotes []) cs
      else if [c] = bsl then
        (case cs of
           [] \<Rightarrow> None
         | d # ds \<Rightarrow> if [d] = nl then shell_words Between ds else shell_words (In_Word [d]) ds)
      else if plain_char c then shell_words (In_Word [c]) cs
      else None)"
| "shell_words (In_Word w) (c # cs) =
     (if is_sep c then map_option (\<lambda>ws. w # ws) (shell_words Between cs)
      else if [c] = apos then shell_words (In_Quotes w) cs
      else if [c] = bsl then
        (case cs of
           [] \<Rightarrow> None
         | d # ds \<Rightarrow> if [d] = nl then shell_words (In_Word w) ds else shell_words (In_Word (w @ [d])) ds)
      else if plain_char c then shell_words (In_Word (w @ [c])) cs
      else None)"

section \<open>Quoting\<close>

lemma sq_Nil [simp]: "sq [] = []"
  by (simp add: sq_def)

lemma sq_Cons: "sq (c # cs) = (if [c] = apos then apos @ bsl @ apos @ apos else [c]) @ sq cs"
proof (cases "[c] = apos")
  case True
  then show ?thesis
    using replace_all_here[of apos "apos @ bsl @ apos @ apos" cs] by (simp add: sq_def apos_def)
next
  case False
  then have "\<not> prefix apos (c # cs)" by (auto simp: apos_def)
  then show ?thesis using False by (simp add: sq_def replace_all_step)
qed

lemma sq_append: "sq (a @ b) = sq a @ sq b"
  by (induction a) (simp_all add: sq_Cons)

lemma sq_plain: "CHR 0x27 \<notin> set s \<Longrightarrow> sq s = s"
  by (induction s) (auto simp: sq_Cons apos_def)

lemma plain_not_special:
  "plain_char c \<Longrightarrow> \<not> is_sep c \<and> [c] \<noteq> apos \<and> [c] \<noteq> bsl"
  by (auto simp: plain_char_def is_sep_def is_alnum_def text_defs)

lemma word_plain: "list_all plain_char a \<Longrightarrow> shell_words (In_Word w) (a @ rest) = shell_words (In_Word (w @ a)) rest"
  by (induction a arbitrary: w) (auto dest: plain_not_special)

lemma between_plain:
  "list_all plain_char a \<Longrightarrow> a \<noteq> [] \<Longrightarrow> shell_words Between (a @ rest) = shell_words (In_Word a) rest"
  by (cases a) (auto simp: word_plain dest: plain_not_special)

lemma quoted_body: "shell_words (In_Quotes w) (sq s @ apos @ rest) = shell_words (In_Word (w @ s)) rest"
  by (induction s arbitrary: w) (auto simp: sq_Cons text_defs is_sep_def plain_char_def)

lemma quoted_word: "shell_words Between (apos @ sq s @ apos @ rest) = shell_words (In_Word s) rest"
  using quoted_body[of "[]" s rest] by (simp add: apos_def is_sep_def)

lemma skip_spaces: "shell_words Between (replicate n (CHR '' '') @ rest) = shell_words Between rest"
  by (induction n) (simp_all add: is_sep_def)

lemma end_word: "shell_words (In_Word w) (CHR '' '' # rest) = map_option (\<lambda>ws. w # ws) (shell_words Between rest)"
  by (simp add: is_sep_def)

lemma continued: "shell_words Between (bsl @ nl @ rest) = shell_words Between rest"
  by (simp add: text_defs is_sep_def)

text \<open>One option on a line of its own.\<close>

definition opt_text :: "str \<times> str \<Rightarrow> str" where
  "opt_text ov = '' '' @ bsl @ nl @ ''     '' @ fst ov @ '' '' @ apos @ sq (snd ov) @ apos"

lemma opt_words:
  assumes "list_all plain_char (fst ov)" "fst ov \<noteq> []"
  shows "shell_words (In_Word w) (opt_text ov @ rest)
    = map_option (\<lambda>ws. w # fst ov # ws) (shell_words (In_Word (snd ov)) rest)"
proof -
  have five: "''     '' = replicate 5 (CHR '' '')" by (simp add: eval_nat_numeral)
  show ?thesis
    unfolding opt_text_def five append_assoc
    by (simp only: append_Cons append_Nil end_word continued skip_spaces between_plain[OF assms]
        quoted_word option.map_comp comp_def)
qed

lemma opts_words:
  "\<forall>ov \<in> set ovs. list_all plain_char (fst ov) \<and> fst ov \<noteq> [] \<Longrightarrow>
   shell_words (In_Word w) (concat (map opt_text ovs)) = Some (w # concat (map (\<lambda>(n, v). [n, v]) ovs))"
  by (induction ovs arbitrary: w) (auto simp: opt_words)

section \<open>The words of a generated command\<close>

text \<open>The options a command is meant to have, with their values as they are.\<close>

definition curl_options :: "gen_env \<Rightarrow> (str \<times> str) list \<Rightarrow> body_spec \<Rightarrow> (str \<times> str) list" where
  "curl_options E headers spec =
     (let typed = names_header headers ''content-type'';
          ctype = (\<lambda>ct. if typed then [] else [(''-H'', ''Content-Type: '' @ ct)])
      in map (\<lambda>(k, v). (''-H'', k @ '': '' @ v)) headers
         @ (case spec of
              Binary path \<Rightarrow> ctype ''application/octet-stream'' @ [(''--data-binary'', ''@'' @ path)]
            | _ \<Rightarrow>
                (case body_parts E spec of
                   (body, content_type, multipart) \<Rightarrow>
                     (case multipart of
                        Some fs \<Rightarrow>
                          map (\<lambda>f. (''-F'', mf_key f @ ''='' @ (case mf_value_type f of
                                 MV_Text \<Rightarrow> mf_value f | MV_FilePath \<Rightarrow> ''@'' @ mf_value f)))
                            (sent_fields fs)
                      | None \<Rightarrow> if body \<noteq> [] then [(''--data'', body)] else [])
                     @ (case content_type of Some ct \<Rightarrow> ctype ct | None \<Rightarrow> []))))"

lemma sq_literal [simp]:
  "sq '': '' = '': ''" "sq ''='' = ''=''" "sq ''@'' = ''@''" "sq ''Content-Type: '' = ''Content-Type: ''"
  "sq ''application/octet-stream'' = ''application/octet-stream''"
  by (simp_all add: sq_plain)

lemma body_type_plain: "body_parts E spec = (body, Some ct, multipart) \<Longrightarrow> sq ct = ct"
  by (cases spec) (auto simp: body_parts_def sq_plain)

lemma curl_header_opt: "curl_header k v = opt_text (''-H'', k @ '': '' @ v)"
  by (simp add: curl_header_def opt_text_def sq_append sq_Cons apos_def)

lemma curl_field_opt:
  "curl_field f = opt_text (''-F'', mf_key f @ ''='' @ (case mf_value_type f of
      MV_Text \<Rightarrow> mf_value f | MV_FilePath \<Rightarrow> ''@'' @ mf_value f))"
  by (simp add: curl_field_def opt_text_def sq_append sq_Cons apos_def split: multipart_value_type.split)

lemma curl_field_fun:
  "curl_field = (\<lambda>f. opt_text (''-F'', mf_key f @ ''='' @ (case mf_value_type f of
      MV_Text \<Rightarrow> mf_value f | MV_FilePath \<Rightarrow> ''@'' @ mf_value f)))"
  by (rule ext) (rule curl_field_opt)

lemma literal_opts:
  "'' '' @ bsl @ nl @ ''     -H 'Content-Type: application/octet-stream'' @ apos
     = opt_text (''-H'', ''Content-Type: application/octet-stream'')"
  "'' '' @ bsl @ nl @ ''     --data-binary '@'' @ sq path @ apos = opt_text (''--data-binary'', ''@'' @ path)"
  "'' '' @ bsl @ nl @ ''     --data '' @ apos @ sq body @ apos = opt_text (''--data'', body)"
  "sq ct = ct \<Longrightarrow> '' '' @ bsl @ nl @ ''     -H 'Content-Type: '' @ ct @ apos = opt_text (''-H'', ''Content-Type: '' @ ct)"
  by (simp_all add: opt_text_def sq_append sq_Cons apos_def)

lemma header_opts:
  "concat (map (\<lambda>(k, v). curl_header k v) headers)
    = concat (map opt_text (map (\<lambda>(k, v). (''-H'', k @ '': '' @ v)) headers))"
  by (induction headers) (auto simp: curl_header_opt)

lemma render_curl_options:
  "render_curl E m url headers spec =
     ''curl -X '' @ method_as_str m @ '' '' @ apos @ sq url @ apos
     @ concat (map opt_text (curl_options E headers spec))"
proof -
  obtain body ct multipart where parts: "body_parts E spec = (body, ct, multipart)" by (metis surj_pair)
  have C: "sq c = c" if "ct = Some c" for c using body_type_plain parts that by blast
  show ?thesis
    unfolding render_curl_def curl_options_def parts Let_def prod.case header_opts literal_opts(1-3)
    using C literal_opts(4)
    by (cases spec; cases multipart; cases ct) (simp_all add: curl_field_fun comp_def)
qed

lemma curl_options_plain:
  "\<forall>ov \<in> set (curl_options E headers spec). list_all plain_char (fst ov) \<and> fst ov \<noteq> []"
proof -
  have "list_all plain_char ''-H''" "list_all plain_char ''-F''" "list_all plain_char ''--data''"
    "list_all plain_char ''--data-binary''" by code_simp+
  then show ?thesis
    by (cases spec) (auto simp: curl_options_def Let_def split: option.splits prod.splits)
qed

lemma method_plain: "list_all plain_char (method_as_str m) \<and> method_as_str m \<noteq> []"
proof -
  have "list_all (\<lambda>m. list_all plain_char (method_as_str m) \<and> method_as_str m \<noteq> [])
      [GET, POST, PUT, DELETE, PATCH, HEAD, OPTIONS, Grpc]"
    by code_simp
  then show ?thesis by (cases m) simp_all
qed

lemma command_start:
  "shell_words Between (''curl -X '' @ rest) =
     map_option (\<lambda>ws. ''curl'' # ws) (map_option (\<lambda>ws. ''-X'' # ws) (shell_words Between rest))"
  by (simp add: plain_char_def is_alnum_def is_sep_def text_defs)

lemma command_words:
  assumes "\<forall>ov \<in> set ovs. list_all plain_char (fst ov) \<and> fst ov \<noteq> []"
  shows "shell_words Between (''curl -X '' @ method_as_str m @ '' '' @ apos @ sq url @ apos
      @ concat (map opt_text ovs)) =
    Some ([''curl'', ''-X'', method_as_str m, url] @ concat (map (\<lambda>(n, v). [n, v]) ovs))"
proof -
  note plain = method_plain[of m]
  have "shell_words Between (''curl -X '' @ method_as_str m @ '' '' @ apos @ sq url @ apos
      @ concat (map opt_text ovs)) =
    map_option (\<lambda>ws. ''curl'' # ws) (map_option (\<lambda>ws. ''-X'' # ws) (map_option (\<lambda>ws. method_as_str m # ws)
      (shell_words (In_Word url) (concat (map opt_text ovs)))))"
    unfolding command_start
    by (simp only: between_plain[OF plain[THEN conjunct1] plain[THEN conjunct2]] end_word append_Cons append_Nil quoted_word)
  also have "\<dots> = Some ([''curl'', ''-X'', method_as_str m, url] @ concat (map (\<lambda>(n, v). [n, v]) ovs))"
    unfolding opts_words[OF assms] by simp
  finally show ?thesis .
qed

lemma render_curl_words:
  "shell_words Between (render_curl E m url headers spec) =
     Some ([''curl'', ''-X'', method_as_str m, url]
       @ concat (map (\<lambda>(n, v). [n, v]) (curl_options E headers spec)))"
  unfolding render_curl_options by (rule command_words[OF curl_options_plain])

section \<open>The importer reads the command back\<close>

definition curl_args :: "http_method \<Rightarrow> str \<Rightarrow> (str \<times> str) list \<Rightarrow> curl_opt list" where
  "curl_args m url ovs = Valued ''-X'' (method_as_str m) # Plain url # map (\<lambda>(n, v). Valued n v) ovs"

lemma curl_args_words:
  "concat (map words_of (curl_args m url ovs)) =
     [''-X'', method_as_str m, url] @ concat (map (\<lambda>(n, v). [n, v]) ovs)"
  by (induction ovs) (auto simp: curl_args_def)

lemma trim_space: "trim (CHR '' '' # v) = trim v"
proof -
  have "strip_first ws_seqs (CHR '' '' # v) = Some v" by (simp add: ws_seqs_def)
  then show ?thesis by (simp add: trim_def trim_start_def strip_all.simps[of ws_seqs "CHR '' '' # v"])
qed

lemma push_header_line:
  assumes "CHR '':'' \<notin> set k" "trim k = k" "k \<noteq> []" "trim v = v"
  shows "push_header (k @ '': '' @ v) hs = hs @ [new_kv k v]"
  using assms by (simp add: push_header_def split_once_char_append trim_space)

text \<open>A header a command can carry: the name has no colon, and neither side has space around it.\<close>

definition plain_header :: "str \<times> str \<Rightarrow> bool" where
  "plain_header kv \<longleftrightarrow> CHR '':'' \<notin> set (fst kv) \<and> trim (fst kv) = fst kv \<and> fst kv \<noteq> [] \<and> trim (snd kv) = snd kv"

lemma push_header_lines:
  "\<forall>kv \<in> set kvs. plain_header kv \<Longrightarrow>
   fold push_header (map (\<lambda>(k, v). k @ '': '' @ v) kvs) hs = hs @ map (\<lambda>(k, v). new_kv k v) kvs"
  by (induction kvs arbitrary: hs) (auto simp: plain_header_def push_header_line[simplified])

lemma method_parses: "parse_method (method_as_str m) = Some m"
proof -
  have "list_all (\<lambda>m. parse_method (method_as_str m) = Some m) [GET, POST, PUT, DELETE, PATCH, HEAD, OPTIONS, Grpc]"
    by code_simp
  then show ?thesis by (cases m) simp_all
qed

text \<open>The headers and the data of a command whose body is sent as text.\<close>

definition has_text_body :: "body_spec \<Rightarrow> bool" where
  "has_text_body spec = (case spec of Multipart _ \<Rightarrow> False | Binary _ \<Rightarrow> False | _ \<Rightarrow> True)"

definition sent_headers :: "gen_env \<Rightarrow> (str \<times> str) list \<Rightarrow> body_spec \<Rightarrow> (str \<times> str) list" where
  "sent_headers E headers spec =
     headers @ (case fst (snd (body_parts E spec)) of
                  Some ct \<Rightarrow> if names_header headers ''content-type'' then [] else [(''Content-Type'', ct)]
                | None \<Rightarrow> [])"

lemma text_body_options:
  assumes "has_text_body spec"
  shows "\<exists>ct. curl_options E headers spec =
      map (\<lambda>(k, v). (''-H'', k @ '': '' @ v)) headers
      @ (if fst (body_parts E spec) = [] then [] else [(''--data'', fst (body_parts E spec))])
      @ map (\<lambda>(k, v). (''-H'', k @ '': '' @ v)) ct
    \<and> sent_headers E headers spec = headers @ ct \<and> (\<forall>kv \<in> set ct. plain_header kv)"
proof -
  have types: "plain_header (''Content-Type'', ''application/json'')"
    "plain_header (''Content-Type'', ''application/x-www-form-urlencoded'')"
    by code_simp+
  show ?thesis
    using assms types
    by (cases spec)
       (auto simp: curl_options_def sent_headers_def body_parts_def has_text_body_def)
qed

lemma headers_given:
  "of_opts (given k) (map (\<lambda>(n, v). Valued n v) (map (\<lambda>(k, v). (''-H'', k @ '': '' @ v)) kvs)) =
     (if k = K_Header then map (\<lambda>(k, v). k @ '': '' @ v) kvs else [])"
  by (induction kvs) (auto simp: canonical_value_option, (simp add: canonical_def kind_of_def)+)

lemma headers_ignored:
  "of_opts ignored_of (map (\<lambda>(n, v). Valued n v) (map (\<lambda>(k, v). (''-H'', k @ '': '' @ v)) kvs)) = []"
  by (induction kvs) (auto simp: canonical_value_option)

lemma args_given:
  fixes hs ct :: "(str \<times> str) list" and body :: str
  defines "ovs \<equiv> map (\<lambda>(k, v). (''-H'', k @ '': '' @ v)) hs @ (if body = [] then [] else [(''--data'', body)])
    @ map (\<lambda>(k, v). (''-H'', k @ '': '' @ v)) ct"
  shows "of_opts (given k) (curl_args m url ovs) =
      (case k of K_Url \<Rightarrow> [url] | K_Request \<Rightarrow> [method_as_str m]
       | K_Header \<Rightarrow> map (\<lambda>(k, v). k @ '': '' @ v) (hs @ ct) | K_User \<Rightarrow> []
       | K_Data \<Rightarrow> if body = [] then [] else [body])"
    and "of_opts ignored_of (curl_args m url ovs) = []"
    and "Switch ''--digest'' \<notin> set (curl_args m url ovs)"
  unfolding ovs_def curl_args_def map_append concat_append headers_given headers_ignored list.map concat.simps
  by (auto simp: canonical_value_option headers_given headers_ignored canonical_def kind_of_def
      is_value_option_def split: value_kind.split)

lemma curl_args_ok:
  assumes "has_text_body spec" "url \<noteq> []" "hd url \<noteq> CHR ''-''"
  shows "\<forall>p \<in> set (curl_args m url (curl_options E headers spec)). opt_ok p"
proof -
  obtain ct where "curl_options E headers spec =
      map (\<lambda>(k, v). (''-H'', k @ '': '' @ v)) headers
      @ (if fst (body_parts E spec) = [] then [] else [(''--data'', fst (body_parts E spec))])
      @ map (\<lambda>(k, v). (''-H'', k @ '': '' @ v)) ct"
    using text_body_options[OF assms(1)] by blast
  then show ?thesis
    using assms(2,3) by (cases url) (auto simp: curl_args_def canonical_value_option starts_with_iff)
qed

section \<open>Properties\<close>

text \<open>
  Whatever the request holds, a shell reads the generated curl command as exactly the words it is
  meant to have: the method, the URL and each option with its value as it is, so no byte of a URL,
  header, form field or body escapes its quotes.
\<close>

theorem curl_command_words:
  "\<exists>headers.
     headers = merge_headers E (gr_headers req) (gr_auth req)
       \<lparr>sn_method = gr_http_method req, sn_url = gr_url req, sn_body = gr_body req\<rparr>
     \<and> shell_words Between (render E Lang_Curl req) =
         Some ([''curl'', ''-X'', method_as_str (gr_http_method req), gr_url req]
           @ concat (map (\<lambda>(n, v). [n, v]) (curl_options E headers (gr_body req))))"
  by (simp add: render_def Let_def render_curl_words)

text \<open>
  C26: The curl importer reads back the generated command of a request without a body or with a body
  that is sent as text (JSON, form, text, XML; a multipart or binary body is excluded): the same
  method, URL, headers (with the content type the body calls for) and body, with nothing ignored.
  It holds for a URL that is not empty and does not start with a dash, which would be read as an
  option, and for headers whose name is not empty, holds no colon and has no blank at its ends, as
  its value has none: the importer splits at the first colon and trims. Splitting the line into
  words is the library's part: it is taken to split this command as a POSIX shell does
  (\<open>shell_words\<close>).
\<close>

theorem curl_import_reads_export:
  assumes "has_text_body spec" "url \<noteq> []" "hd url \<noteq> CHR ''-''" "\<forall>kv \<in> set headers. plain_header kv"
    and "split (render_curl E m url headers spec) = Inr (the (shell_words Between (render_curl E m url headers spec)))"
  shows "parse_curl split json_ok (render_curl E m url headers spec) =
    Ok \<lparr>cp_url = url, cp_method = m,
      cp_headers = map (\<lambda>(k, v). new_kv k v) (sent_headers E headers spec),
      cp_body = (let body = fst (body_parts E spec)
                 in if body = [] then None else Some (infer_body json_ok body)),
      cp_auth = Auth_None, cp_ignored = []\<rparr>"
proof -
  let ?args = "curl_args m url (curl_options E headers spec)"
  obtain ct where ct: "curl_options E headers spec =
      map (\<lambda>(k, v). (''-H'', k @ '': '' @ v)) headers
      @ (if fst (body_parts E spec) = [] then [] else [(''--data'', fst (body_parts E spec))])
      @ map (\<lambda>(k, v). (''-H'', k @ '': '' @ v)) ct"
    "sent_headers E headers spec = headers @ ct" "\<forall>kv \<in> set ct. plain_header kv"
    using text_body_options[OF assms(1)] by blast
  have words: "split (render_curl E m url headers spec) = Inr (''curl'' # concat (map words_of ?args))"
    unfolding assms(5) render_curl_words curl_args_words by simp
  have plain: "\<forall>kv \<in> set (headers @ ct). plain_header kv" using assms(4) ct(3) by auto
  note given = args_given[where m = m and url = url and hs = headers and body = "fst (body_parts E spec)" and ct = ct, folded ct(1)]
  show ?thesis
    unfolding parse_curl_closed_form[of split "render_curl E m url headers spec" ?args json_ok,
        OF words curl_args_ok[OF assms(1-3)]]
    using assms(2) given push_header_lines[OF plain, of "[]"]
    by (simp add: method_parses first_nonempty_Cons Let_def ct(2))
qed

theorem curl_import_reads_export_witness:
  "\<forall>E. parse_curl (\<lambda>s. Inr (the (shell_words Between s))) (\<lambda>_. False)
      (render_curl E POST ''u.io'' [(''A'', ''it'' @ apos @ ''s'')] (Body_Text (''$(rm) '' @ apos))) =
    Ok \<lparr>cp_url = ''u.io'', cp_method = POST, cp_headers = [new_kv ''A'' (''it'' @ apos @ ''s'')],
      cp_body = Some (Body_Text (''$(rm) '' @ apos)), cp_auth = Auth_None, cp_ignored = []\<rparr>"
proof
  fix E
  have plain: "plain_header (''A'', ''it'' @ apos @ ''s'')" by code_simp
  have infer: "infer_body (\<lambda>_. False) (''$(rm) '' @ apos) = Body_Text (''$(rm) '' @ apos)" by code_simp
  show "parse_curl (\<lambda>s. Inr (the (shell_words Between s))) (\<lambda>_. False)
      (render_curl E POST ''u.io'' [(''A'', ''it'' @ apos @ ''s'')] (Body_Text (''$(rm) '' @ apos))) =
    Ok \<lparr>cp_url = ''u.io'', cp_method = POST, cp_headers = [new_kv ''A'' (''it'' @ apos @ ''s'')],
      cp_body = Some (Body_Text (''$(rm) '' @ apos)), cp_auth = Auth_None, cp_ignored = []\<rparr>"
    using curl_import_reads_export[of "Body_Text (''$(rm) '' @ apos)" "''u.io''" "[(''A'', ''it'' @ apos @ ''s'')]"
        "\<lambda>s. Inr (the (shell_words Between s))" E POST "\<lambda>_. False"] plain infer
    by (simp add: has_text_body_def sent_headers_def body_parts_def)
qed

end
