(* ===== verification/JsonTypes.thy ===== *)
theory JsonTypes
  imports Codegen
begin

text \<open>
  The type generator, \<open>crates/fox-codegen/src/json_types\<close>: from a JSON sample to the declarations of
  structs in Rust, Java or Go. \<open>naming.rs\<close> splits a key into words, \<open>model.rs\<close> infers a tree of types,
  \<open>emit.rs\<close> gives every record of the tree a name and prints the declarations. A character is its UTF-8
  bytes; its Unicode properties are the fields of \<open>char_tables\<close>.
\<close>

section \<open>Names\<close>

record char_tables =
  ct_lowercase :: "uchar \<Rightarrow> bool"
  ct_uppercase :: "uchar \<Rightarrow> bool"
  ct_alphabetic :: "uchar \<Rightarrow> bool"
  ct_numeric :: "uchar \<Rightarrow> bool"
  ct_to_uppercase :: "uchar \<Rightarrow> str"
  ct_to_lowercase :: "str \<Rightarrow> str"

definition is_separator :: "uchar \<Rightarrow> bool" where
  "is_separator c \<longleftrightarrow> c \<in> {''_'', ''-'', ''.'', '' '', ''/'', bsl, '':''}"

definition word_boundary :: "char_tables \<Rightarrow> uchar option \<Rightarrow> uchar \<Rightarrow> uchar option \<Rightarrow> bool" where
  "word_boundary T before c after =
     (case before of
        None \<Rightarrow> False
      | Some p \<Rightarrow>
          ct_lowercase T p \<and> ct_uppercase T c
          \<or> ct_uppercase T p \<and> ct_uppercase T c
            \<and> (case after of None \<Rightarrow> False | Some n \<Rightarrow> ct_lowercase T n)
          \<or> ct_alphabetic T p \<and> ct_numeric T c)"

fun split_loop :: "char_tables \<Rightarrow> uchar option \<Rightarrow> uchar list \<Rightarrow> str \<Rightarrow> str list \<Rightarrow> str list" where
  "split_loop T before [] current words = (if current \<noteq> [] then words @ [current] else words)"
| "split_loop T before (c # cs) current words =
     (if is_separator c then
        split_loop T (Some c) cs [] (if current \<noteq> [] then words @ [current] else words)
      else if word_boundary T before c (case cs of [] \<Rightarrow> None | n # _ \<Rightarrow> Some n) \<and> current \<noteq> [] then
        split_loop T (Some c) cs c (words @ [current])
      else split_loop T (Some c) cs (current @ c) words)"

definition split_words :: "char_tables \<Rightarrow> str \<Rightarrow> str list" where
  "split_words T input =
     (let words = split_loop T None (uchars input) [] [] in if words = [] then [input] else words)"

definition capitalize :: "char_tables \<Rightarrow> str \<Rightarrow> str" where
  "capitalize T word =
     (case uchars word of [] \<Rightarrow> [] | first # rest \<Rightarrow> ct_to_uppercase T first @ concat rest)"

definition to_snake_case :: "char_tables \<Rightarrow> str \<Rightarrow> str" where
  "to_snake_case T input = join ''_'' (map (ct_to_lowercase T) (split_words T input))"

definition to_camel_case :: "char_tables \<Rightarrow> str \<Rightarrow> str" where
  "to_camel_case T input =
     (case split_words T input of
        [] \<Rightarrow> []
      | w # ws \<Rightarrow> ct_to_lowercase T w @ concat (map (capitalize T) ws))"

definition to_pascal_case :: "char_tables \<Rightarrow> str \<Rightarrow> str" where
  "to_pascal_case T input = concat (map (capitalize T) (split_words T input))"

definition guard_digit :: "str \<Rightarrow> str \<Rightarrow> str" where
  "guard_digit ident before =
     (case ident of
        [] \<Rightarrow> before @ ''Empty''
      | c # _ \<Rightarrow> if CHR ''0'' \<le> c \<and> c \<le> CHR ''9'' then before @ ident else ident)"

definition RUST_KEYWORDS :: "str list" where
  "RUST_KEYWORDS =
     [''as'', ''async'', ''await'', ''break'', ''const'', ''continue'', ''crate'', ''dyn'',
      ''else'', ''enum'', ''extern'', ''false'', ''fn'', ''for'', ''gen'', ''if'', ''impl'',
      ''in'', ''let'', ''loop'', ''match'', ''mod'', ''move'', ''mut'', ''pub'', ''ref'',
      ''return'', ''self'', ''Self'', ''static'', ''struct'', ''super'', ''trait'', ''true'',
      ''try'', ''type'', ''unsafe'', ''use'', ''where'', ''while'']"

definition rust_field_ident :: "str \<Rightarrow> str" where
  "rust_field_ident snake =
     (let guarded = guard_digit snake ''_''
      in if guarded \<in> set RUST_KEYWORDS then ''r#'' @ guarded else guarded)"

definition JAVA_KEYWORDS :: "str list" where
  "JAVA_KEYWORDS =
     [''abstract'', ''assert'', ''boolean'', ''break'', ''byte'', ''case'', ''catch'', ''char'',
      ''class'', ''const'', ''continue'', ''default'', ''do'', ''double'', ''else'', ''enum'',
      ''extends'', ''final'', ''finally'', ''float'', ''for'', ''goto'', ''if'', ''implements'',
      ''import'', ''instanceof'', ''int'', ''interface'', ''long'', ''native'', ''new'', ''null'',
      ''package'', ''permits'', ''private'', ''protected'', ''public'', ''record'', ''return'',
      ''sealed'', ''short'', ''static'', ''strictfp'', ''super'', ''switch'', ''synchronized'',
      ''this'', ''throw'', ''throws'', ''transient'', ''true'', ''try'', ''var'', ''void'',
      ''volatile'', ''while'', ''yield'']"

definition java_field_ident :: "str \<Rightarrow> str" where
  "java_field_ident camel =
     (let guarded = guard_digit camel ''_''
      in if guarded \<in> set JAVA_KEYWORDS then ''_'' @ guarded else guarded)"

definition go_field_ident :: "str \<Rightarrow> str" where
  "go_field_ident pascal = guard_digit pascal ''N''"

section \<open>Inference\<close>

datatype field_type =
    FT_Str
  | FT_Int
  | FT_Float
  | FT_Bool
  | FT_Unknown
  | FT_Array field_type
  | FT_Record record_def
and record_def = RecordDef (rd_preferred: str) (rd_fields: "record_field list")
and record_field = RecordField (rf_json_key: str) (rf_ty: field_type)

definition preferred_name :: "char_tables \<Rightarrow> str \<Rightarrow> str" where
  "preferred_name T key = (let pascal = to_pascal_case T key in if pascal = [] then ''Item'' else pascal)"

fun same_shape :: "field_type \<Rightarrow> field_type \<Rightarrow> bool"
  and same_fields :: "record_field list \<Rightarrow> record_field list \<Rightarrow> bool" where
  "same_shape (FT_Record (RecordDef m x)) (FT_Record (RecordDef n y)) = same_fields x y"
| "same_shape (FT_Array x) (FT_Array y) = same_shape x y"
| "same_shape x y = (x = y)"
| "same_fields [] [] = True"
| "same_fields (RecordField k x # xs) (RecordField l y # ys) = (k = l \<and> same_shape x y \<and> same_fields xs ys)"
| "same_fields xs ys = False"

fun merge_types :: "field_type \<Rightarrow> field_type \<Rightarrow> field_type" where
  "merge_types FT_Unknown t = t"
| "merge_types t FT_Unknown = t"
| "merge_types FT_Str FT_Str = FT_Str"
| "merge_types FT_Int FT_Int = FT_Int"
| "merge_types FT_Bool FT_Bool = FT_Bool"
| "merge_types FT_Int FT_Float = FT_Float"
| "merge_types FT_Float FT_Int = FT_Float"
| "merge_types FT_Float FT_Float = FT_Float"
| "merge_types (FT_Array x) (FT_Array y) = FT_Array (merge_types x y)"
| "merge_types (FT_Record x) (FT_Record y) =
     (if same_fields (rd_fields x) (rd_fields y) then FT_Record x else FT_Unknown)"
| "merge_types a b = FT_Unknown"

definition merge_next :: "field_type option \<Rightarrow> field_type \<Rightarrow> field_type option" where
  "merge_next merged ty = Some (case merged of None \<Rightarrow> ty | Some prev \<Rightarrow> merge_types prev ty)"

fun infer_value :: "char_tables \<Rightarrow> str \<Rightarrow> json \<Rightarrow> field_type"
  and infer_items :: "char_tables \<Rightarrow> str \<Rightarrow> json list \<Rightarrow> field_type option \<Rightarrow> field_type option"
  and infer_fields :: "char_tables \<Rightarrow> (str \<times> json) list \<Rightarrow> record_field list" where
  "infer_value T key JNull = FT_Unknown"
| "infer_value T key (JBool b) = FT_Bool"
| "infer_value T key (JNumber n) = (case n of Float _ \<Rightarrow> FT_Float | _ \<Rightarrow> FT_Int)"
| "infer_value T key (JString s) = FT_Str"
| "infer_value T key (JArray items) =
     FT_Array (case infer_items T key items None of None \<Rightarrow> FT_Unknown | Some t \<Rightarrow> t)"
| "infer_value T key (JObject kvs) = FT_Record (RecordDef (preferred_name T key) (infer_fields T kvs))"
| "infer_items T key [] merged = merged"
| "infer_items T key (v # vs) merged = infer_items T key vs (merge_next merged (infer_value T key v))"
| "infer_fields T [] = []"
| "infer_fields T ((k, v) # kvs) = RecordField k (infer_value T k v) # infer_fields T kvs"

definition infer_root :: "char_tables \<Rightarrow> json \<Rightarrow> str \<Rightarrow> (str, field_type) result" where
  "infer_root T v root_key =
     (let refused = ''the root must be a JSON object or an array of objects''
      in (case v of
            JObject kvs \<Rightarrow> Ok (infer_value T root_key v)
          | JArray items \<Rightarrow>
              (case infer_items T root_key items None of
                 None \<Rightarrow> Err refused
               | Some (FT_Record d) \<Rightarrow> Ok (FT_Record d)
               | Some _ \<Rightarrow> Err refused)
          | _ \<Rightarrow> Err refused))"

section \<open>The names of the records\<close>

record name_registry =
  nr_records :: "record_def list"
  nr_names :: "str list"
  nr_completed :: "str list"

definition new_registry :: name_registry where
  "new_registry = \<lparr>nr_records = [], nr_names = [], nr_completed = []\<rparr>"

definition begin_record :: "str \<Rightarrow> name_registry \<Rightarrow> name_registry" where
  "begin_record name R =
     R\<lparr>nr_names := nr_names R @ [name], nr_records := nr_records R @ [RecordDef name []]\<rparr>"

definition complete_record :: "nat \<Rightarrow> str \<Rightarrow> record_field list \<Rightarrow> name_registry \<Rightarrow> name_registry" where
  "complete_record i name fs R =
     R\<lparr>nr_records := (nr_records R)[i := RecordDef (rd_preferred (nr_records R ! i)) fs],
       nr_completed := nr_completed R @ [name]\<rparr>"

definition reusable :: "name_registry \<Rightarrow> record_field list \<Rightarrow> str option" where
  "reusable R fs =
     map_option rd_preferred
       (find (\<lambda>r. same_fields (rd_fields r) fs)
         (filter (\<lambda>r. rd_preferred r \<in> set (nr_completed R)) (nr_records R)))"

text \<open>The search for a numbered name ends because only finitely many names are taken.\<close>

lemma finite_taken: "finite {m. n \<le> m \<and> candidate @ show_nat m \<in> set names}"
proof (rule finite_subset)
  show "finite ((\<lambda>s. THE m. s = candidate @ show_nat m) ` set names)" by simp
  show "{m. n \<le> m \<and> candidate @ show_nat m \<in> set names} \<subseteq> (\<lambda>s. THE m. s = candidate @ show_nat m) ` set names"
  proof
    fix m assume m: "m \<in> {m. n \<le> m \<and> candidate @ show_nat m \<in> set names}"
    have "m = (THE k. candidate @ show_nat m = candidate @ show_nat k)"
      by (rule the_equality[symmetric]) (auto simp: show_nat_inject)
    then show "m \<in> (\<lambda>s. THE m. s = candidate @ show_nat m) ` set names" using m by blast
  qed
qed

function numbered_name :: "str list \<Rightarrow> str \<Rightarrow> nat \<Rightarrow> str" where
  "numbered_name names candidate n =
     (let numbered = candidate @ show_nat n
      in if numbered \<notin> set names then numbered else numbered_name names candidate (n + 1))"
  by pat_completeness auto
termination
proof (relation "measure (\<lambda>(names, candidate, n). card {m. n \<le> m \<and> candidate @ show_nat m \<in> set names})")
  fix names :: "str list" and candidate :: str and n :: nat and numbered
  assume "numbered = candidate @ show_nat n" "\<not> numbered \<notin> set names"
  then have "{m. n + 1 \<le> m \<and> candidate @ show_nat m \<in> set names}
      \<subset> {m. n \<le> m \<and> candidate @ show_nat m \<in> set names}"
    by (intro psubsetI) (auto intro: Suc_leD dest: equalityD2[THEN subsetD, of _ _ n])
  then show "((names, candidate, n + 1), names, candidate, n)
      \<in> measure (\<lambda>(names, candidate, n). card {m. n \<le> m \<and> candidate @ show_nat m \<in> set names})"
    using psubset_card_mono[OF finite_taken] by simp
qed simp

declare numbered_name.simps [simp del]

definition fresh_name :: "str list \<Rightarrow> str \<Rightarrow> str list \<Rightarrow> str" where
  "fresh_name names candidate ancestors =
     (if candidate \<notin> set names then candidate
      else (case find (\<lambda>ancestor. ancestor @ candidate \<notin> set names) (rev ancestors) of
              Some ancestor \<Rightarrow> ancestor @ candidate
            | None \<Rightarrow> numbered_name names candidate 2))"

lemma size_parts:
  "4 * size_list size (rd_fields d) \<le> Suc (4 * size d)" "4 * size_list size (rd_fields d) < 4 + 4 * size d"
  "4 * size (rf_ty f) < 4 + (4 * size f + n)"
  by (cases d; simp)+ (cases f; simp)

text \<open>
  \<open>resolve_fields\<close> reserves a place, resolves the fields and fills the place; \<open>claim\<close> gives a nested
  record the name of an equal one, or a new name under which its fields are resolved.
\<close>

function (sequential) resolve_ty :: "field_type \<Rightarrow> str list \<Rightarrow> name_registry \<Rightarrow> field_type \<times> name_registry"
  and resolve_list :: "record_field list \<Rightarrow> str list \<Rightarrow> name_registry \<Rightarrow> record_field list \<times> name_registry"
  and claim :: "record_def \<Rightarrow> str list \<Rightarrow> name_registry \<Rightarrow> str \<times> name_registry"
  and resolve_fields :: "str \<Rightarrow> record_def \<Rightarrow> name_registry \<Rightarrow> name_registry" where
  "resolve_ty (FT_Array inner) ancestors R =
     (case resolve_ty inner ancestors R of (t, R') \<Rightarrow> (FT_Array t, R'))"
| "resolve_ty (FT_Record def) ancestors R =
     (case claim def ancestors R of
        (name, R1) \<Rightarrow>
          (case resolve_list (rd_fields def) (ancestors @ [name]) R1 of
             (fs, R2) \<Rightarrow> (FT_Record (RecordDef name fs), R2)))"
| "resolve_ty primitive ancestors R = (primitive, R)"
| "resolve_list [] ancestors R = ([], R)"
| "resolve_list (f # fs) ancestors R =
     (case resolve_ty (rf_ty f) ancestors R of
        (t, R1) \<Rightarrow>
          (case resolve_list fs ancestors R1 of
             (ts, R2) \<Rightarrow> (RecordField (rf_json_key f) t # ts, R2)))"
| "claim def ancestors R =
     (case reusable R (rd_fields def) of
        Some existing \<Rightarrow> (existing, R)
      | None \<Rightarrow>
          (let name = fresh_name (nr_names R) (rd_preferred def) ancestors
           in (name, resolve_fields name def R)))"
| "resolve_fields name def R =
     (let R1 = begin_record name R
      in (case resolve_list (rd_fields def) [name] R1 of
            (fs, R2) \<Rightarrow> complete_record (length (nr_records R1) - 1) name fs R2))"
  by pat_completeness auto
termination
  by (relation "measure (\<lambda>x. case x of
        Inl (Inl (t, _, _)) \<Rightarrow> 4 * size t
      | Inl (Inr (fs, _, _)) \<Rightarrow> 4 * size_list size fs
      | Inr (Inl (d, _, _)) \<Rightarrow> 4 * size d + 3
      | Inr (Inr (_, d, _)) \<Rightarrow> 4 * size d + 2)")
     (auto simp: less_Suc_eq_le size_parts)

definition resolve_model :: "record_def \<Rightarrow> record_def list" where
  "resolve_model root = nr_records (resolve_fields (rd_preferred root) root new_registry)"

section \<open>Declarations\<close>

fun rust_ty :: "field_type \<Rightarrow> str" where
  "rust_ty FT_Str = ''String''"
| "rust_ty FT_Int = ''i64''"
| "rust_ty FT_Float = ''f64''"
| "rust_ty FT_Bool = ''bool''"
| "rust_ty FT_Unknown = ''serde_json::Value''"
| "rust_ty (FT_Array inner) = ''Vec<'' @ rust_ty inner @ ''>''"
| "rust_ty (FT_Record def) = rd_preferred def"

fun java_ty :: "field_type \<Rightarrow> str" where
  "java_ty FT_Str = ''String''"
| "java_ty FT_Int = ''Long''"
| "java_ty FT_Float = ''Double''"
| "java_ty FT_Bool = ''Boolean''"
| "java_ty FT_Unknown = ''Object''"
| "java_ty (FT_Array inner) = ''List<'' @ java_ty inner @ ''>''"
| "java_ty (FT_Record def) = rd_preferred def"

fun go_ty :: "field_type \<Rightarrow> str" where
  "go_ty FT_Str = ''string''"
| "go_ty FT_Int = ''int64''"
| "go_ty FT_Float = ''float64''"
| "go_ty FT_Bool = ''bool''"
| "go_ty FT_Unknown = ''interface{}''"
| "go_ty (FT_Array inner) = ''[]'' @ go_ty inner"
| "go_ty (FT_Record def) = rd_preferred def"

text \<open>A field's identifier, and whether it needs an attribute with the key.\<close>

definition rust_field_name :: "char_tables \<Rightarrow> str \<Rightarrow> str \<times> bool" where
  "rust_field_name T key =
     (let ident = rust_field_ident (to_snake_case T key);
          wire = strip_all [''r#''] ident
      in (ident, wire \<noteq> key))"

definition java_field_name :: "char_tables \<Rightarrow> str \<Rightarrow> str \<times> bool" where
  "java_field_name T key = (let ident = java_field_ident (to_camel_case T key) in (ident, ident \<noteq> key))"

definition go_field_name :: "char_tables \<Rightarrow> str \<Rightarrow> str" where
  "go_field_name T key = go_field_ident (to_pascal_case T key)"

definition go_tag :: "str \<Rightarrow> str" where
  "go_tag key =
     (if CHR ''`'' \<in> set key then ''\"json:'' @ bsl @ ''\"'' @ dq key @ bsl @ ''\"\"''
      else ''`json:\"'' @ key @ ''\"`'')"

definition emit_rust :: "char_tables \<Rightarrow> record_def list \<Rightarrow> str" where
  "emit_rust T records =
     ''// '' @ bytes [231, 148, 177] @ '' RustFox ''
     @ bytes [232, 135, 170, 229, 138, 168, 231, 148, 159, 230, 136, 144, 239, 188, 140, 232, 175, 183, 229, 139, 191, 230, 137, 139, 230, 148, 185, 227, 128, 130]
     @ nl @ nl
     @ concat (map (\<lambda>record.
         ''#[derive(Debug, Serialize, Deserialize)]'' @ nl @ ''pub struct ''
         @ rd_preferred record @ '' {'' @ nl
         @ concat (map (\<lambda>field.
             (case rust_field_name T (rf_json_key field) of
                (ident, renamed) \<Rightarrow>
                  (if renamed then ''    #[serde(rename = \"'' @ dq (rf_json_key field) @ ''\")]'' @ nl else [])
                  @ ''    pub '' @ ident @ '': '' @ rust_ty (rf_ty field) @ '','' @ nl))
             (rd_fields record))
         @ ''}'' @ nl @ nl) records)"

definition emit_java :: "char_tables \<Rightarrow> record_def list \<Rightarrow> str" where
  "emit_java T records =
     ''// '' @ bytes [231, 148, 177] @ '' RustFox ''
     @ bytes [232, 135, 170, 229, 138, 168, 231, 148, 159, 230, 136, 144, 239, 188, 140, 232, 175, 183, 229, 139, 191, 230, 137, 139, 230, 148, 185, 227, 128, 130]
     @ nl @ nl
     @ ''import com.fasterxml.jackson.annotation.JsonProperty;'' @ nl @ ''import java.util.List;''
     @ nl @ ''import lombok.Builder;'' @ nl @ ''import lombok.Data;'' @ nl @ nl
     @ concat (map (\<lambda>record.
         ''@Data'' @ nl @ ''@Builder'' @ nl @ ''class '' @ rd_preferred record @ '' {'' @ nl
         @ concat (map (\<lambda>field.
             (case java_field_name T (rf_json_key field) of
                (ident, renamed) \<Rightarrow>
                  (if renamed then ''    @JsonProperty(\"'' @ dq (rf_json_key field) @ ''\")'' @ nl else [])
                  @ ''    private '' @ java_ty (rf_ty field) @ '' '' @ ident @ '';'' @ nl))
             (rd_fields record))
         @ ''}'' @ nl @ nl) records)"

definition emit_go :: "char_tables \<Rightarrow> record_def list \<Rightarrow> str" where
  "emit_go T records =
     ''// '' @ bytes [231, 148, 177] @ '' RustFox ''
     @ bytes [232, 135, 170, 229, 138, 168, 231, 148, 159, 230, 136, 144, 239, 188, 140, 232, 175, 183, 229, 139, 191, 230, 137, 139, 230, 148, 185, 227, 128, 130]
     @ nl @ nl
     @ concat (map (\<lambda>record.
         ''type '' @ rd_preferred record @ '' struct {'' @ nl
         @ concat (map (\<lambda>field.
             ''    '' @ go_field_name T (rf_json_key field) @ '' '' @ go_ty (rf_ty field)
             @ '' '' @ go_tag (rf_json_key field) @ nl)
             (rd_fields record))
         @ ''}'' @ nl @ nl) records)"

section \<open>The entry point\<close>

text \<open>The last branch of \<open>json_to_structs\<close> is the code's \<open>unreachable!\<close>; \<open>infer_root\<close> gives only records.\<close>

datatype type_lang = TL_Rust | TL_Java | TL_Go

definition all_type_langs :: "type_lang list" where
  "all_type_langs = [TL_Rust, TL_Java, TL_Go]"

definition type_lang_from_name :: "str \<Rightarrow> type_lang option" where
  "type_lang_from_name s =
     (if s = ''rust'' then Some TL_Rust
      else if s = ''java'' then Some TL_Java
      else if s = ''go'' then Some TL_Go
      else None)"

fun type_lang_label :: "type_lang \<Rightarrow> str" where
  "type_lang_label TL_Rust = ''Rust (serde)''"
| "type_lang_label TL_Java = ''Java (Lombok + Jackson)''"
| "type_lang_label TL_Go = ''Go (encoding/json)''"

fun type_lang_suffix :: "type_lang \<Rightarrow> str" where
  "type_lang_suffix TL_Rust = ''rs''"
| "type_lang_suffix TL_Java = ''java''"
| "type_lang_suffix TL_Go = ''go''"

datatype codegen_error =
    UnsupportedMethod str
  | UnsupportedBody str
  | UnsupportedAuth str
  | Render str
  | GeneratorNotFound str
  | GeneratorAlreadyRegistered str
  | JsonParse str
  | TypeInference str

definition json_to_structs ::
  "char_tables \<Rightarrow> (str \<Rightarrow> (str, json) result) \<Rightarrow> str \<Rightarrow> str \<Rightarrow> type_lang \<Rightarrow> (codegen_error, str) result" where
  "json_to_structs T parse_json text0 root_name0 lang =
     (let root_name = trim root_name0
      in if root_name = [] then Err (TypeInference ''the name of the root is empty'')
         else (case parse_json text0 of
                 Inl e \<Rightarrow> Err (JsonParse e)
               | Inr v \<Rightarrow>
                   (case infer_root T v root_name of
                      Inl e \<Rightarrow> Err (TypeInference e)
                    | Inr (FT_Record root) \<Rightarrow>
                        (let model = resolve_model root
                         in Ok (case lang of
                                  TL_Rust \<Rightarrow> emit_rust T model
                                | TL_Java \<Rightarrow> emit_java T model
                                | TL_Go \<Rightarrow> emit_go T model))
                    | Inr _ \<Rightarrow> Err (Render ''unreachable''))))"

end
