(* ===== verification/Engine.thy ===== *)
theory Engine
  imports CodegenShell JsonTypes "HOL-Library.AList"
begin

text \<open>
  The generation engine, \<open>crates/fox-codegen/src/engine.rs\<close>, \<open>model.rs\<close>, \<open>registry.rs\<close>, \<open>util.rs\<close> and
  \<open>generators\<close>: a neutral description of a call, a registry of generators by language, and the
  built-in generators. A hash table is its entries in the order the code iterates over them.
\<close>

section \<open>The description of a call\<close>

record key_value_pair =
  kvp_key :: str
  kvp_value :: str

datatype api_body =
    AB_None
  | AB_Json str
  | AB_FormData "key_value_pair list"
  | AB_Raw str

fun body_type_name :: "api_body \<Rightarrow> str" where
  "body_type_name AB_None = ''none''"
| "body_type_name (AB_Json raw) = ''json''"
| "body_type_name (AB_FormData fs) = ''formdata''"
| "body_type_name (AB_Raw raw) = ''raw''"

datatype auth_info =
    AI_None
  | AI_Bearer str
  | AI_Basic str str
  | AI_ApiKey str str

record api_definition =
  api_url :: str
  api_method :: http_method
  api_headers :: "(str \<times> str) list"
  api_query_params :: "(str \<times> str) list"
  api_body :: api_body
  api_auth :: auth_info

definition new_api :: "str \<Rightarrow> http_method \<Rightarrow> api_definition" where
  "new_api url m = \<lparr>api_url = url, api_method = m, api_headers = [], api_query_params = [],
     api_body = AB_None, api_auth = AI_None\<rparr>"

definition with_header :: "str \<Rightarrow> str \<Rightarrow> api_definition \<Rightarrow> api_definition" where
  "with_header k v api = api\<lparr>api_headers := AList.update k v (api_headers api)\<rparr>"

definition with_query :: "str \<Rightarrow> str \<Rightarrow> api_definition \<Rightarrow> api_definition" where
  "with_query k v api = api\<lparr>api_query_params := AList.update k v (api_query_params api)\<rparr>"

definition with_body :: "api_body \<Rightarrow> api_definition \<Rightarrow> api_definition" where
  "with_body b api = api\<lparr>api_body := b\<rparr>"

definition with_auth :: "auth_info \<Rightarrow> api_definition \<Rightarrow> api_definition" where
  "with_auth a api = api\<lparr>api_auth := a\<rparr>"

section \<open>Generators and their registry\<close>

record language_info =
  li_name :: str
  li_sdk :: str

record code_generator =
  cg_language_name :: str
  cg_target_sdk :: str
  cg_generate :: "api_definition \<Rightarrow> (codegen_error, str) result"

definition gen_metadata :: "code_generator \<Rightarrow> language_info" where
  "gen_metadata g = \<lparr>li_name = cg_language_name g, li_sdk = cg_target_sdk g\<rparr>"

type_synonym gen_registry = "(str \<times> code_generator) list"

definition new_gen_registry :: gen_registry where
  "new_gen_registry = []"

definition register_gen :: "code_generator \<Rightarrow> gen_registry \<Rightarrow> (codegen_error, unit) result \<times> gen_registry" where
  "register_gen g reg =
     (let key = cg_language_name g
      in if map_of reg key \<noteq> None then (Err (GeneratorAlreadyRegistered key), reg)
         else (Ok (), reg @ [(key, g)]))"

definition get_gen :: "str \<Rightarrow> gen_registry \<Rightarrow> code_generator option" where
  "get_gen language reg = map_of reg language"

definition has_gen :: "str \<Rightarrow> gen_registry \<Rightarrow> bool" where
  "has_gen language reg \<longleftrightarrow> get_gen language reg \<noteq> None"

definition generate_for :: "str \<Rightarrow> api_definition \<Rightarrow> gen_registry \<Rightarrow> (codegen_error, str) result" where
  "generate_for language api reg =
     (case map_of reg language of
        None \<Rightarrow> Err (GeneratorNotFound language)
      | Some g \<Rightarrow> cg_generate g api)"

definition gen_languages :: "gen_registry \<Rightarrow> language_info list" where
  "gen_languages reg = sort_key li_name (map (\<lambda>(k, g). gen_metadata g) reg)"

definition gen_count :: "gen_registry \<Rightarrow> nat" where
  "gen_count reg = length reg"

section \<open>Shared steps\<close>

definition pretty_json :: "gen_env \<Rightarrow> str \<Rightarrow> str" where
  "pretty_json E raw = (case ge_json_parse E raw of Inr v \<Rightarrow> ge_json_pretty E v | Inl _ \<Rightarrow> raw)"

definition query_url :: "str \<Rightarrow> (str \<times> str) list \<Rightarrow> str" where
  "query_url base query =
     (if query = [] then base
      else
        (let keys = sort (map fst query);
             params = join ''&'' (map (\<lambda>k. encode_component k @ ''='' @ encode_component (the (map_of query k))) keys)
         in if contains ''?'' base then base @ ''&'' @ params else base @ ''?'' @ params))"

definition engine_auth_headers :: "crypto \<Rightarrow> auth_info \<Rightarrow> (str \<times> str) list" where
  "engine_auth_headers C auth =
     (case auth of
        AI_Bearer token \<Rightarrow> if token \<noteq> [] then bearer_header token else []
      | AI_Basic username password \<Rightarrow>
          [(''Authorization'', ''Basic '' @ c_base64 C (username @ '':'' @ password))]
      | AI_ApiKey key v \<Rightarrow> if trim key \<noteq> [] \<and> v \<noteq> [] then [(key, v)] else []
      | AI_None \<Rightarrow> [])"

definition merged_headers :: "crypto \<Rightarrow> api_definition \<Rightarrow> (str \<times> str) list" where
  "merged_headers C api =
     sort_key fst (fold (\<lambda>(k, v) merged. set_header k v merged) (api_headers api)
       (engine_auth_headers C (api_auth api)))"

section \<open>curl\<close>

definition curl_data :: "gen_env \<Rightarrow> api_body \<Rightarrow> str" where
  "curl_data E body =
     (case body of
        AB_None \<Rightarrow> []
      | AB_Json raw \<Rightarrow> '' '' @ bsl @ nl @ ''     --data '' @ apos @ sq (pretty_json E raw) @ apos
      | AB_FormData fs \<Rightarrow>
          concat (map (\<lambda>f. '' '' @ bsl @ nl @ ''     -F '' @ apos @ sq (kvp_key f) @ ''='' @ sq (kvp_value f)
            @ apos) fs)
      | AB_Raw raw \<Rightarrow> '' '' @ bsl @ nl @ ''     --data-raw '' @ apos @ sq raw @ apos)"

definition curl_generate :: "gen_env \<Rightarrow> api_definition \<Rightarrow> (codegen_error, str) result" where
  "curl_generate E api =
     (let url = query_url (api_url api) (api_query_params api);
          headers = merged_headers (ge_crypto E) api
      in Ok (''curl -X '' @ method_as_str (api_method api) @ '' '' @ apos @ sq url @ apos
         @ concat (map (\<lambda>(k, v). curl_header k v) headers)
         @ curl_data E (api_body api)
         @ (case api_body api of
              AB_Json _ \<Rightarrow>
                if names_header headers ''content-type'' then []
                else '' '' @ bsl @ nl @ ''     -H 'Content-Type: application/json'' @ apos
            | _ \<Rightarrow> [])))"

section \<open>Go\<close>

text \<open>The imports a body adds, the statements before the request, and the expression of the body.\<close>

definition go_body :: "gen_env \<Rightarrow> api_body \<Rightarrow> str list \<times> str list \<times> str" where
  "go_body E body =
     (case body of
        AB_None \<Rightarrow> ([], [], ''nil'')
      | AB_Json raw \<Rightarrow>
          (let pretty = pretty_json E raw
           in ([''bytes''], [],
               if CHR ''`'' \<in> set pretty
               then ''bytes.NewBufferString(\"'' @ dq pretty @ ''\")''
               else ''bytes.NewBufferString(`'' @ nl @ pretty @ nl @ ''`)''))
      | AB_Raw raw \<Rightarrow> ([''bytes''], [], ''bytes.NewBufferString(\"'' @ dq raw @ ''\")'')
      | AB_FormData fs \<Rightarrow>
          ([''bytes'', ''mime/multipart''],
           [''var bodyBuf bytes.Buffer'', ''writer := multipart.NewWriter(&bodyBuf)'']
           @ map (\<lambda>f. ''_ = writer.WriteField(\"'' @ dq (kvp_key f) @ ''\", \"'' @ dq (kvp_value f)
          @ ''\")'') fs
           @ [''_ = writer.Close()''],
           ''&bodyBuf''))"

definition go_content_type :: "api_body \<Rightarrow> str option" where
  "go_content_type body =
     (case body of
        AB_Json _ \<Rightarrow> Some ''\"application/json\"''
      | AB_FormData _ \<Rightarrow> Some ''writer.FormDataContentType()''
      | _ \<Rightarrow> None)"

definition go_generate :: "gen_env \<Rightarrow> api_definition \<Rightarrow> (codegen_error, str) result" where
  "go_generate E api =
     (let url = query_url (api_url api) (api_query_params api);
          headers = merged_headers (ge_crypto E) api
      in (case go_body E (api_body api) of
            (extra, body_lines, body_arg) \<Rightarrow>
              Ok (''package main'' @ nl @ nl @ ''import ('' @ nl
              @ concat (map (\<lambda>import. ''    \"'' @ import @ ''\"'' @ nl)
                  (sort ([''context'', ''fmt'', ''io'', ''net/http'', ''time''] @ extra)))
              @ '')'' @ nl @ nl @ ''func main() {'' @ nl @ ''    url := \"'' @ dq url @ ''\"''
              @ nl
              @ concat (map (\<lambda>line. ''    '' @ line @ nl) body_lines)
              @ (if body_lines \<noteq> [] then nl else [])
              @ ''    req, err := http.NewRequest(\"'' @ method_as_str (api_method api)
              @ ''\", url, '' @ body_arg @ '')'' @ nl
              @ ''    if err != nil {'' @ nl @ ''        fmt.Println(\"''
              @ bytes [230, 158, 132, 229, 187, 186, 232, 175, 183, 230, 177, 130, 229, 164, 177, 232, 180, 165]
              @ '':\", err)'' @ nl @ ''        return'' @ nl @ ''    }'' @ nl
              @ concat (map (\<lambda>(k, v). ''    req.Header.Set(\"'' @ dq k @ ''\", \"'' @ dq v @ ''\")'' @ nl) headers)
              @ (case go_content_type (api_body api) of
                   Some ct \<Rightarrow>
                     if names_header headers ''content-type'' then []
                     else ''    req.Header.Set(\"Content-Type\", '' @ ct @ '')'' @ nl
                 | None \<Rightarrow> [])
              @ nl
              @ ''    ctx, cancel := context.WithTimeout(context.Background(), 30*time.Second)''
              @ nl
              @ ''    defer cancel()'' @ nl @ ''    req = req.WithContext(ctx)'' @ nl @ nl
              @ ''    resp, err := http.DefaultClient.Do(req)'' @ nl
              @ ''    if err != nil {'' @ nl @ ''        fmt.Println(\"''
              @ bytes [232, 175, 183, 230, 177, 130, 229, 164, 177, 232, 180, 165]
              @ '':\", err)'' @ nl @ ''        return'' @ nl @ ''    }'' @ nl
              @ ''    defer resp.Body.Close()'' @ nl @ nl
              @ ''    respBody, err := io.ReadAll(resp.Body)'' @ nl
              @ ''    if err != nil {'' @ nl @ ''        fmt.Println(\"''
              @ bytes [232, 175, 187, 229, 143, 150, 229, 147, 141, 229, 186, 148, 229, 164, 177, 232, 180, 165]
              @ '':\", err)'' @ nl @ ''        return'' @ nl @ ''    }'' @ nl
              @ ''    fmt.Println(resp.Status, string(respBody))'' @ nl @ ''}'' @ nl)))"

section \<open>Java\<close>

definition java_preamble :: "gen_env \<Rightarrow> api_body \<Rightarrow> str \<times> str" where
  "java_preamble E body =
     (case body of
        AB_None \<Rightarrow> ([], ''null'')
      | AB_Json raw \<Rightarrow>
          (''        MediaType mediaType = MediaType.parse(\"application/json; charset=utf-8\");''
           @ nl
           @ ''        RequestBody body = RequestBody.create(mediaType, \"''
           @ dq (pretty_json E raw) @ ''\");'' @ nl,
           ''body'')
      | AB_Raw raw \<Rightarrow>
          (''        MediaType mediaType = MediaType.parse(\"text/plain; charset=utf-8\");''
           @ nl
           @ ''        RequestBody body = RequestBody.create(mediaType, \"'' @ dq raw @ ''\");''
           @ nl,
           ''body'')
      | AB_FormData fs \<Rightarrow>
          (let chain = ''.setType(MultipartBody.FORM)''
                 # map (\<lambda>f. ''.addFormDataPart(\"'' @ dq (kvp_key f) @ ''\", \"'' @ dq (kvp_value f)
                  @ ''\")'') fs
                 @ [''.build();'']
           in (''        MultipartBody.Builder formBuilder = new MultipartBody.Builder()'' @ nl
               @ concat (map (\<lambda>step. ''                '' @ step @ nl) chain)
               @ ''        RequestBody body = formBuilder;'' @ nl,
               ''body'')))"

definition java_generate :: "gen_env \<Rightarrow> api_definition \<Rightarrow> (codegen_error, str) result" where
  "java_generate E api =
     (let url = query_url (api_url api) (api_query_params api);
          headers = merged_headers (ge_crypto E) api
      in (case java_preamble E (api_body api) of
            (preamble, body_ref) \<Rightarrow>
              Ok (''import okhttp3.*;'' @ nl @ ''import java.io.IOException;'' @ nl
              @ ''import java.util.concurrent.TimeUnit;'' @ nl @ nl
              @ ''public class Main {'' @ nl @ nl
              @ ''    private static final OkHttpClient HTTP_CLIENT = new OkHttpClient.Builder()''
              @ nl
              @ ''            .connectTimeout(30, TimeUnit.SECONDS)'' @ nl
              @ ''            .readTimeout(30, TimeUnit.SECONDS)'' @ nl
              @ ''            .build();'' @ nl @ nl
              @ ''    public static void main(String[] args) throws IOException {'' @ nl
              @ ''        String url = \"'' @ dq url @ ''\";'' @ nl
              @ (if preamble \<noteq> [] then nl @ preamble else [])
              @ nl
              @ ''        Request request = new Request.Builder()'' @ nl
              @ ''                .url(url)'' @ nl
              @ ''                .method(\"'' @ method_as_str (api_method api) @ ''\", ''
              @ body_ref @ '')'' @ nl
              @ concat (map (\<lambda>(k, v). ''                .addHeader(\"'' @ dq k @ ''\", \"'' @ dq v @ ''\")'' @ nl) headers)
              @ ''                .build();'' @ nl @ nl
              @ ''        try (Response response = HTTP_CLIENT.newCall(request).execute()) {''
              @ nl
              @ ''            if (!response.isSuccessful()) {'' @ nl
              @ ''                throw new IOException(\"Unexpected code \" + response);'' @ nl
              @ ''            }'' @ nl
              @ ''            String responseBody = response.body() != null ? response.body().string() : \"\";''
              @ nl
              @ ''            System.out.println(response.code() + \" \" + responseBody);'' @ nl
              @ ''        }'' @ nl @ ''    }'' @ nl @ ''}'' @ nl)))"

section \<open>Python\<close>

definition py_sq_char :: "char \<Rightarrow> str" where
  "py_sq_char c =
     (if c = backslash then bsl @ bsl
      else if [c] = apos then bsl @ apos
      else if c = newline then bsl @ ''n''
      else if c = CHR 0x0D then bsl @ ''r''
      else if c = CHR 0x09 then bsl @ ''t''
      else [c])"

definition py_sq :: "str \<Rightarrow> str" where
  "py_sq s = concat (map py_sq_char s)"

definition indentation :: "nat \<Rightarrow> str" where
  "indentation depth = concat (replicate depth ''    '')"

fun json_to_python :: "gen_env \<Rightarrow> json \<Rightarrow> nat \<Rightarrow> str"
  and python_items :: "gen_env \<Rightarrow> json list \<Rightarrow> nat \<Rightarrow> str"
  and python_entries :: "gen_env \<Rightarrow> (str \<times> json) list \<Rightarrow> nat \<Rightarrow> str" where
  "json_to_python E JNull depth = ''None''"
| "json_to_python E (JBool b) depth = (if b then ''True'' else ''False'')"
| "json_to_python E (JNumber n) depth = ge_json_print E (JNumber n)"
| "json_to_python E (JString s) depth = apos @ py_sq s @ apos"
| "json_to_python E (JArray items) depth =
     (if items = [] then ''[]''
      else ''['' @ nl @ python_items E items (depth + 1) @ indentation depth @ '']'')"
| "json_to_python E (JObject kvs) depth =
     (if kvs = [] then ''{}''
      else ''{'' @ nl @ python_entries E kvs (depth + 1) @ indentation depth @ ''}'')"
| "python_items E [] depth = []"
| "python_items E (v # vs) depth =
     indentation depth @ json_to_python E v depth @ '','' @ nl @ python_items E vs depth"
| "python_entries E [] depth = []"
| "python_entries E ((k, v) # kvs) depth =
     indentation depth @ apos @ py_sq k @ apos @ '': '' @ json_to_python E v depth @ '','' @ nl
     @ python_entries E kvs depth"

text \<open>What a body adds before the call, and its argument.\<close>

definition python_body :: "gen_env \<Rightarrow> api_body \<Rightarrow> str \<times> str list" where
  "python_body E body =
     (case body of
        AB_None \<Rightarrow> ([], [])
      | AB_Json raw \<Rightarrow>
          (let literal = (case ge_json_parse E raw of
                            Inr v \<Rightarrow> json_to_python E v 0
                          | Inl _ \<Rightarrow> ''\"'' @ dq raw @ ''\"'')
           in (nl @ ''payload = '' @ literal @ nl, [''json=payload'']))
      | AB_FormData fs \<Rightarrow>
          (nl @ ''files = {'' @ nl
           @ concat (map (\<lambda>f. ''    '' @ apos @ py_sq (kvp_key f) @ apos @ '': '' @ apos @ py_sq (kvp_value f)
            @ apos @ '','' @ nl) fs)
           @ ''}'' @ nl, [''files=files''])
      | AB_Raw raw \<Rightarrow> (nl @ ''payload = \"'' @ dq raw @ ''\"'' @ nl, [''data=payload'']))"

definition python_generate :: "gen_env \<Rightarrow> api_definition \<Rightarrow> (codegen_error, str) result" where
  "python_generate E api =
     (let url = query_url (api_url api) (api_query_params api);
          headers = merged_headers (ge_crypto E) api
      in (case python_body E (api_body api) of
            (statements, argument) \<Rightarrow>
              Ok (''import requests'' @ nl @ nl @ ''url = \"'' @ dq url @ ''\"'' @ nl
              @ (if headers = [] then []
                 else nl @ ''headers = {'' @ nl
                   @ concat (map (\<lambda>(k, v). ''    \"'' @ dq k @ ''\": \"'' @ dq v @ ''\",'' @ nl) headers)
                   @ ''}'' @ nl)
              @ statements
              @ nl @ ''resp = requests.'' @ to_lowercase (method_as_str (api_method api)) @ ''(''
              @ join '', '' ([''url''] @ (if headers = [] then [] else [''headers=headers'']) @ argument)
              @ '')'' @ nl
              @ ''resp.raise_for_status()'' @ nl
              @ ''print(resp.status_code, resp.text)'' @ nl)))"

section \<open>The built-in generators\<close>

definition curl_generator :: "gen_env \<Rightarrow> code_generator" where
  "curl_generator E = \<lparr>cg_language_name = ''curl'', cg_target_sdk = ''curl'', cg_generate = curl_generate E\<rparr>"

definition go_generator :: "gen_env \<Rightarrow> code_generator" where
  "go_generator E =
     \<lparr>cg_language_name = ''go'', cg_target_sdk = ''Go (net/http)'', cg_generate = go_generate E\<rparr>"

definition java_generator :: "gen_env \<Rightarrow> code_generator" where
  "java_generator E =
     \<lparr>cg_language_name = ''java'', cg_target_sdk = ''Java (OkHttp)'', cg_generate = java_generate E\<rparr>"

definition python_generator :: "gen_env \<Rightarrow> code_generator" where
  "python_generator E =
     \<lparr>cg_language_name = ''python'', cg_target_sdk = ''Python (requests)'', cg_generate = python_generate E\<rparr>"

definition mock_generate :: "str \<Rightarrow> api_definition \<Rightarrow> (codegen_error, str) result" where
  "mock_generate name api =
     Ok (''mock:'' @ name @ '':'' @ method_as_str (api_method api) @ '' '' @ api_url api @ ''?''
         @ join ''&'' (map (\<lambda>(k, v). k @ ''='' @ v) (api_query_params api)))"

definition mock_generator :: "str \<Rightarrow> str \<Rightarrow> code_generator" where
  "mock_generator name sdk =
     \<lparr>cg_language_name = name, cg_target_sdk = sdk, cg_generate = mock_generate name\<rparr>"

end
