(* ===== verification/CodegenLaws.thy ===== *)
theory CodegenLaws
  imports Codegen
begin

text \<open>
  Laws of the generators: the headers of a generated request, and what a string literal of the target
  languages means.
\<close>

section \<open>Headers\<close>

text \<open>What a request sends for a header name, whatever its case.\<close>

definition sent_value :: "(str \<times> str) list \<Rightarrow> str \<Rightarrow> str option" where
  "sent_value headers name = map_option snd (find (\<lambda>(k, _). eq_ignore_ascii_case k name) headers)"

lemma sent_value_simps [simp]:
  "sent_value [] name = None"
  "sent_value ((k, v) # hs) name = (if eq_ignore_ascii_case k name then Some v else sent_value hs name)"
  by (simp_all add: sent_value_def)

lemma sent_value_set:
  "sent_value (set_header key v hs) name =
     (if eq_ignore_ascii_case key name then Some v else sent_value hs name)"
  by (induction key v hs rule: set_header.induct) (auto simp: eq_ignore_ascii_case_def)

lemma set_header_names:
  "map (to_ascii_lowercase \<circ> fst) (set_header key v hs) =
     (if to_ascii_lowercase key \<in> set (map (to_ascii_lowercase \<circ> fst) hs)
      then map (to_ascii_lowercase \<circ> fst) hs else map (to_ascii_lowercase \<circ> fst) hs @ [to_ascii_lowercase key])"
  by (induction key v hs rule: set_header.induct) (auto simp: eq_ignore_ascii_case_def)

abbreviation unique_names :: "(str \<times> str) list \<Rightarrow> bool" where
  "unique_names hs \<equiv> distinct (map (to_ascii_lowercase \<circ> fst) hs)"

lemma set_header_unique: "unique_names hs \<Longrightarrow> unique_names (set_header key v hs)"
  unfolding set_header_names by simp

lemma aksk_unique: "aksk_headers crypto args = Inr (hs, s) \<Longrightarrow> unique_names hs"
  by (auto simp: aksk_headers_def Let_def to_ascii_lowercase_def ascii_lower_def split: sum.splits if_splits)

lemma auth_unique: "unique_names (auth_headers E auth snap)"
  by (auto simp: auth_headers_def bearer_header_def Let_def to_ascii_lowercase_def ascii_lower_def
      dest!: aksk_unique split: auth_spec.split api_key_location.split option.split sum.split prod.split)

lemma merge_fold_unique:
  "unique_names hs \<Longrightarrow> unique_names (fold (\<lambda>kv merged. set_header (trim (kv_key kv)) (kv_value kv) merged) kvs hs)"
  by (induction kvs arbitrary: hs) (simp_all add: set_header_unique)

text \<open>The value the request itself gives a name: that of its last enabled entry.\<close>

definition own_value :: "key_value list \<Rightarrow> str \<Rightarrow> str option" where
  "own_value headers name =
     map_option kv_value (find (\<lambda>kv. kv_enabled kv \<and> trim (kv_key kv) \<noteq> []
       \<and> eq_ignore_ascii_case (trim (kv_key kv)) name) (rev headers))"

lemma merge_fold_value:
  "sent_value (fold (\<lambda>kv merged. set_header (trim (kv_key kv)) (kv_value kv) merged)
      (filter (\<lambda>kv. kv_enabled kv \<and> trim (kv_key kv) \<noteq> []) kvs) hs) name =
   (case own_value kvs name of Some v \<Rightarrow> Some v | None \<Rightarrow> sent_value hs name)"
  by (induction kvs rule: rev_induct) (auto simp: own_value_def sent_value_set)

text \<open>
  A generated request names no header twice, whatever the case of the names; each header has the value of
  the request's last enabled entry for it, and only where there is none the one of the credentials.
\<close>

theorem merge_headers_exact:
  "distinct (map (to_ascii_lowercase \<circ> fst) (merge_headers E headers auth snap))
   \<and> (\<forall>name. sent_value (merge_headers E headers auth snap) name =
        (case own_value headers name of
           Some v \<Rightarrow> Some v
         | None \<Rightarrow> sent_value (auth_headers E auth snap) name))"
  unfolding merge_headers_def by (simp add: merge_fold_unique auth_unique merge_fold_value del: map_map)

section \<open>String literals\<close>

text \<open>
  A double-quoted literal after its opening quote, by the escapes that Python, Go, Java and Rust share:
  its value and the text behind the closing quote. A line break inside it is an error.
\<close>

fun read_literal :: "str \<Rightarrow> (str \<times> str) option" where
  "read_literal [] = None"
| "read_literal (c # cs) =
     (if c = quote then Some ([], cs)
      else if c = newline \<or> c = CHR 0x0D then None
      else if c = backslash then
        (case cs of
           [] \<Rightarrow> None
         | d # ds \<Rightarrow>
             (let e = (if d = backslash \<or> d = quote then Some d
                       else if d = CHR ''n'' then Some newline
                       else if d = CHR ''r'' then Some (CHR 0x0D)
                       else if d = CHR ''t'' then Some (CHR 0x09)
                       else None)
              in (case e of
                    None \<Rightarrow> None
                  | Some x \<Rightarrow> map_option (\<lambda>(v, rest). (x # v, rest)) (read_literal ds))))
      else map_option (\<lambda>(v, rest). (c # v, rest)) (read_literal cs))"

lemma dq_Cons: "dq (c # cs) = dq_char c @ dq cs"
  by (simp add: dq_def)

text \<open>
  A text put in a double-quoted literal is read back as that text, and the literal ends where the
  generator closes it: no text breaks out of its quotes.
\<close>

theorem literal_reads_back: "read_literal (dq s @ [quote] @ rest) = Some (s, rest)"
  by (induction s) (auto simp: dq_def dq_char_def bsl_def newline_def backslash_def quote_def)

end
