(* ===== verification/EngineLaws.thy ===== *)
theory EngineLaws
  imports Engine CodegenLaws "HOL-Library.Multiset"
begin

text \<open>
  Laws of the generation engine: what it generates does not depend on the iteration order of the hash
  tables of a call, a shell reads its curl command as the intended words, and the registry keeps the first
  generator of every language.
\<close>

section \<open>Hash tables in any order\<close>

lemma sort_key_mset:
  assumes "mset xs = mset ys" "distinct (map f xs)"
  shows "sort_key f xs = sort_key f ys"
proof (rule properties_for_sort_key)
  have inj: "inj_on f (set xs)" using assms(2) by (simp add: distinct_map)
  show "mset (sort_key f ys) = mset xs" using assms(1) by simp
  show "sorted (map f (sort_key f ys))" by simp
  fix k assume "k \<in> set (sort_key f ys)"
  then have k: "k \<in> set xs" using mset_eq_setD[OF assms(1)] by simp
  have "filter (\<lambda>x. f k = f x) zs = replicate (count (mset zs) k) k" if "mset zs = mset xs" for zs
  proof -
    have "filter (\<lambda>x. f k = f x) zs = filter (\<lambda>x. k = x) zs"
      using inj k mset_eq_setD[OF that] by (auto intro!: filter_cong dest: inj_onD)
    then show ?thesis by (simp add: replicate_count_mset_eq_filter_eq)
  qed
  from this[of "sort_key f ys"] this[of xs]
  show "filter (\<lambda>x. f k = f x) (sort_key f ys) = filter (\<lambda>x. f k = f x) xs"
    using assms(1) by simp
qed

lemma find_unique:
  assumes "\<And>x y. x \<in> set xs \<Longrightarrow> y \<in> set xs \<Longrightarrow> P x \<Longrightarrow> P y \<Longrightarrow> x = y"
  shows "find P xs = Some x \<longleftrightarrow> x \<in> set xs \<and> P x"
  using assms by (induction xs) (auto split: if_splits)

lemma find_mset:
  assumes "mset xs = mset ys" "\<And>x y. x \<in> set xs \<Longrightarrow> y \<in> set xs \<Longrightarrow> P x \<Longrightarrow> P y \<Longrightarrow> x = y"
  shows "find P xs = find P ys"
proof -
  have "set xs = set ys" using assms(1) by (rule mset_eq_setD)
  then have "find P xs = Some x \<longleftrightarrow> find P ys = Some x" for x
    using find_unique[of xs P x] find_unique[of ys P x] assms(2) by blast
  then show ?thesis by (metis not_None_eq)
qed

lemma unique_names_eq:
  "unique_names hs \<Longrightarrow> x \<in> set hs \<Longrightarrow> y \<in> set hs \<Longrightarrow>
   eq_ignore_ascii_case (fst x) (fst y) \<Longrightarrow> x = y"
  by (auto simp: eq_ignore_ascii_case_def distinct_map inj_on_def)

lemma set_header_absent: "\<not> names_header hs k \<Longrightarrow> set_header k v hs = hs @ [(k, v)]"
  by (induction hs) (auto simp: names_header_def)

lemma set_header_left: "names_header a k \<Longrightarrow> set_header k v (a @ b) = set_header k v a @ b"
  by (induction a) (auto simp: names_header_def)

lemma set_header_present:
  "unique_names hs \<Longrightarrow> names_header hs k \<Longrightarrow>
   set_header k v hs = map (\<lambda>(l, w). (l, if eq_ignore_ascii_case l k then v else w)) hs"
proof (induction hs)
  case (Cons h hs)
  have "map (\<lambda>(l, w). (l, if eq_ignore_ascii_case l k then v else w)) hs = hs"
    if "eq_ignore_ascii_case (fst h) k"
    using Cons.prems(1) that by (intro map_idI) (force simp: eq_ignore_ascii_case_def)
  then show ?case using Cons by (cases h) (auto simp: names_header_def)
qed (simp add: names_header_def)

text \<open>The merged headers in closed form, for a table whose names differ in more than case.\<close>

definition overridden :: "(str \<times> str) list \<Rightarrow> str \<times> str \<Rightarrow> str \<times> str" where
  "overridden hs kv =
     (fst kv, case find (\<lambda>h. eq_ignore_ascii_case (fst h) (fst kv)) hs of Some h \<Rightarrow> snd h | None \<Rightarrow> snd kv)"

lemma names_header_map: "names_header (map (overridden hs) auth) k = names_header auth k"
  by (induction auth) (auto simp: names_header_def overridden_def)

lemma find_append: "find P (xs @ ys) = (case find P xs of Some x \<Rightarrow> Some x | None \<Rightarrow> find P ys)"
  by (induction xs) auto

lemma merged_closed_form:
  "unique_names auth \<Longrightarrow> unique_names hs \<Longrightarrow>
   fold (\<lambda>(k, v) merged. set_header k v merged) hs auth =
     map (overridden hs) auth @ filter (\<lambda>h. \<not> names_header auth (fst h)) hs"
proof (induction hs rule: rev_induct)
  case Nil
  show ?case by (simp add: overridden_def)
next
  case (snoc h hs)
  obtain k v where h: "h = (k, v)" by fastforce
  let ?old = "map (overridden hs) auth @ filter (\<lambda>h. \<not> names_header auth (fst h)) hs"
  have IH: "fold (\<lambda>(k, v) merged. set_header k v merged) hs auth = ?old" using snoc by simp
  have new: "find (\<lambda>g. eq_ignore_ascii_case (fst g) k) hs = None"
    using snoc.prems(2) by (force simp: find_None_iff h eq_ignore_ascii_case_def)
  show ?case
  proof (cases "names_header auth k")
    case True
    have names: "unique_names (map (overridden hs) auth)"
      using snoc.prems(1) by (simp add: comp_def overridden_def)
    have "overridden (hs @ [h]) a = (\<lambda>(l, w). (l, if eq_ignore_ascii_case l k then v else w)) (overridden hs a)" for a
      using new by (auto simp: overridden_def find_append h eq_ignore_ascii_case_def split: option.split)
    then have "set_header k v (map (overridden hs) auth) = map (overridden (hs @ [h])) auth"
      using set_header_present[OF names, of k v] True by (simp add: names_header_map comp_def)
    then show ?thesis using True IH by (simp add: h set_header_left names_header_map)
  next
    case False
    have same: "overridden (hs @ [h]) a = overridden hs a" if "a \<in> set auth" for a
      using False that new
      by (auto simp: overridden_def find_append h names_header_def eq_ignore_ascii_case_def list_ex_iff split: option.split)
    have absent: "\<not> names_header ?old k"
      using False new
      by (auto simp: names_header_def list_ex_iff find_None_iff overridden_def)
    show ?thesis using IH set_header_absent[OF absent] False same by (simp add: h cong: map_cong)
  qed
qed

lemma engine_auth_unique: "unique_names (engine_auth_headers C auth)"
  by (cases auth) (simp_all add: engine_auth_headers_def bearer_header_def)

lemma fold_engine_unique:
  "unique_names auth \<Longrightarrow> unique_names (fold (\<lambda>(k, v) merged. set_header k v merged) hs auth)"
  by (induction hs arbitrary: auth) (auto simp: set_header_unique)

lemma merged_headers_order:
  assumes "mset (api_headers a) = mset (api_headers b)" "unique_names (api_headers a)" "api_auth a = api_auth b"
  shows "merged_headers C a = merged_headers C b"
proof -
  let ?auth = "engine_auth_headers C (api_auth b)"
  have b: "unique_names (api_headers b)"
    using assms(1,2) by (metis mset_eq_imp_distinct_iff mset_map)
  have over: "overridden (api_headers a) = overridden (api_headers b)"
    using assms(1,2) unique_names_eq[OF assms(2)]
    by (intro ext) (auto simp: overridden_def eq_ignore_ascii_case_def intro!: find_mset option.case_cong)
  note closed = merged_closed_form[OF engine_auth_unique]
  have "mset (fold (\<lambda>(k, v) m. set_header k v m) (api_headers a) ?auth)
      = mset (fold (\<lambda>(k, v) m. set_header k v m) (api_headers b) ?auth)"
    using closed[OF assms(2)] closed[OF b] assms(1) over by simp
  moreover have "distinct (map fst (fold (\<lambda>(k, v) m. set_header k v m) (api_headers a) ?auth))"
    using fold_engine_unique[OF engine_auth_unique, of "api_headers a"]
    by (simp add: distinct_map flip: map_map)
  ultimately show ?thesis
    using assms(3) by (simp add: merged_headers_def sort_key_mset)
qed

lemma query_url_order:
  assumes "mset xs = mset ys" "distinct (map fst xs)"
  shows "query_url base xs = query_url base ys"
proof -
  have ys: "distinct (map fst ys)" using assms by (metis mset_eq_imp_distinct_iff mset_map)
  have "mset (map fst xs) = mset (map fst ys)" by (simp add: assms(1))
  then have keys: "sort (map fst xs) = sort (map fst ys)"
    by (rule sort_key_mset) (simp add: assms(2))
  have "map_of xs = map_of ys"
    using map_of_inject_set[OF assms(2) ys] mset_eq_setD[OF assms(1)] by simp
  then show ?thesis using keys assms(1) by (cases xs; cases ys) (simp_all add: query_url_def)
qed

section \<open>The curl generator and the shell\<close>

definition engine_options :: "gen_env \<Rightarrow> api_definition \<Rightarrow> (str \<times> str) list" where
  "engine_options E api =
     (let headers = merged_headers (ge_crypto E) api
      in map (\<lambda>(k, v). (''-H'', k @ '': '' @ v)) headers
         @ (case api_body api of
              AB_None \<Rightarrow> []
            | AB_Json raw \<Rightarrow>
                (''--data'', pretty_json E raw)
                # (if names_header headers ''content-type'' then [] else [(''-H'', ''Content-Type: application/json'')])
            | AB_FormData fs \<Rightarrow> map (\<lambda>f. (''-F'', kvp_key f @ ''='' @ kvp_value f)) fs
            | AB_Raw raw \<Rightarrow> [(''--data-raw'', raw)]))"

lemma engine_opt_texts:
  "'' '' @ bsl @ nl @ ''     -H 'Content-Type: application/json'' @ apos
     = opt_text (''-H'', ''Content-Type: application/json'')"
  "'' '' @ bsl @ nl @ ''     --data-raw '' @ apos @ sq raw @ apos = opt_text (''--data-raw'', raw)"
  "'' '' @ bsl @ nl @ ''     --data '' @ apos @ sq raw @ apos = opt_text (''--data'', raw)"
  "'' '' @ bsl @ nl @ ''     -F '' @ apos @ sq k @ ''='' @ sq v @ apos = opt_text (''-F'', k @ ''='' @ v)"
  by (simp_all add: opt_text_def sq_append sq_Cons apos_def)

lemma curl_generate_options:
  "curl_generate E api =
     Ok (''curl -X '' @ method_as_str (api_method api) @ '' '' @ apos
       @ sq (query_url (api_url api) (api_query_params api)) @ apos
       @ concat (map opt_text (engine_options E api)))"
  unfolding curl_generate_def engine_options_def curl_data_def Let_def engine_opt_texts header_opts
  by (cases "api_body api") (simp_all add: comp_def)

lemma engine_options_plain:
  "\<forall>ov \<in> set (engine_options E api). list_all plain_char (fst ov) \<and> fst ov \<noteq> []"
proof -
  have "list_all plain_char ''-H''" "list_all plain_char ''-F''" "list_all plain_char ''--data''"
    "list_all plain_char ''--data-raw''" by code_simp+
  then show ?thesis by (cases "api_body api") (auto simp: engine_options_def Let_def)
qed

section \<open>The registry\<close>

definition register_all :: "code_generator list \<Rightarrow> gen_registry" where
  "register_all gs = fold (\<lambda>g reg. snd (register_gen g reg)) gs new_gen_registry"

lemma register_all_snoc: "register_all (gs @ [g]) = snd (register_gen g (register_all gs))"
  by (simp add: register_all_def)

lemma register_lookup:
  "map_of (register_all gs) n = find (\<lambda>g. cg_language_name g = n) gs"
  by (induction gs rule: rev_induct)
     (auto simp: register_all_snoc register_gen_def Let_def find_append map_add_def
       split: option.split, simp add: register_all_def new_gen_registry_def)

lemma register_keys:
  "distinct (map fst (register_all gs)) \<and> (\<forall>(k, g) \<in> set (register_all gs). cg_language_name g = k)
   \<and> set (map fst (register_all gs)) = cg_language_name ` set gs"
proof (induction gs rule: rev_induct)
  case Nil
  show ?case by (simp add: register_all_def new_gen_registry_def)
next
  case (snoc g gs)
  then show ?case
    by (auto simp: register_all_snoc register_gen_def Let_def map_of_eq_None_iff image_iff)
qed

section \<open>Properties\<close>

text \<open>
  What the engine generates does not depend on the order in which the hash tables of a call are
  iterated: for header names that differ in more than case, every built-in generator gives the same text
  for any order of the headers and of the query parameters.
\<close>

theorem generation_ignores_table_order:
  assumes "mset hs = mset (api_headers api)" "unique_names (api_headers api)"
    and "mset qs = mset (api_query_params api)" "distinct (map fst (api_query_params api))"
    and "g \<in> {curl_generator E, go_generator E, java_generator E, python_generator E}"
  shows "cg_generate g (api\<lparr>api_headers := hs, api_query_params := qs\<rparr>) = cg_generate g api"
proof -
  let ?api = "api\<lparr>api_headers := hs, api_query_params := qs\<rparr>"
  have headers: "merged_headers (ge_crypto E) ?api = merged_headers (ge_crypto E) api"
    by (rule merged_headers_order[symmetric]) (simp_all add: assms)
  have url: "query_url (api_url api) qs = query_url (api_url api) (api_query_params api)"
    by (rule query_url_order[symmetric]) (simp_all add: assms)
  show ?thesis
    using assms(5) headers url
    by (auto simp: curl_generator_def go_generator_def java_generator_def python_generator_def
        curl_generate_def go_generate_def java_generate_def python_generate_def)
qed

lemma generation_ignores_table_order_witness:
  "\<forall>E. cg_generate (curl_generator E)
       (with_header ''Accept'' ''a'' (with_header ''Host'' ''h'' (new_api ''u'' GET)))
     = cg_generate (curl_generator E)
         (with_header ''Host'' ''h'' (with_header ''Accept'' ''a'' (new_api ''u'' GET)))"
proof
  fix E
  let ?api = "with_header ''Host'' ''h'' (with_header ''Accept'' ''a'' (new_api ''u'' GET))"
  have api: "with_header ''Accept'' ''a'' (with_header ''Host'' ''h'' (new_api ''u'' GET))
      = ?api\<lparr>api_headers := [(''Host'', ''h''), (''Accept'', ''a'')], api_query_params := []\<rparr>"
    by (simp add: with_header_def new_api_def)
  have "unique_names (api_headers ?api)"
    by (simp add: with_header_def new_api_def to_ascii_lowercase_def ascii_lower_def)
  then show "cg_generate (curl_generator E)
       (with_header ''Accept'' ''a'' (with_header ''Host'' ''h'' (new_api ''u'' GET)))
     = cg_generate (curl_generator E) ?api"
    unfolding api
    by (intro generation_ignores_table_order[where E = E]) (simp_all add: with_header_def new_api_def)
qed

text \<open>
  A shell reads the command of the engine's curl generator as exactly its intended words, whatever the
  call holds.
\<close>

theorem engine_curl_words:
  "\<exists>cmd. curl_generate E api = Ok cmd \<and>
     shell_words Between cmd =
       Some ([''curl'', ''-X'', method_as_str (api_method api), query_url (api_url api) (api_query_params api)]
         @ concat (map (\<lambda>(n, v). [n, v]) (engine_options E api)))"
  unfolding curl_generate_options using command_words[OF engine_options_plain] by blast

text \<open>
  The registry keeps the first generator registered for a language: afterwards exactly the registered
  languages are listed, once each and in order, generation for a language uses the first generator
  registered for it, and for an unknown language it is an error.
\<close>

theorem registry_keeps_first:
  "map li_name (gen_languages (register_all gs)) = sorted_list_of_set (cg_language_name ` set gs)
   \<and> generate_for language api (register_all gs) =
       (case find (\<lambda>g. cg_language_name g = language) gs of
          None \<Rightarrow> Err (GeneratorNotFound language)
        | Some g \<Rightarrow> cg_generate g api)"
proof -
  have names: "map li_name (map (\<lambda>(k, g). gen_metadata g) (register_all gs)) = map fst (register_all gs)"
    using register_keys[of gs] by (auto simp: gen_metadata_def)
  have "map li_name (gen_languages (register_all gs)) = sort (map fst (register_all gs))"
    unfolding gen_languages_def names[symmetric]
    by (rule properties_for_sort[symmetric]) (simp_all only: mset_map mset_sort sorted_sort_key)
  also have "\<dots> = sorted_list_of_set (set (map fst (register_all gs)))"
    by (simp only: sorted_list_of_set_sort_remdups distinct_remdups_id register_keys[THEN conjunct1])
  finally show ?thesis
    using register_keys[of gs] by (simp add: generate_for_def register_lookup)
qed

end
