(* ===== verification/JsonTypeLaws.thy ===== *)
theory JsonTypeLaws
  imports JsonTypes
begin

text \<open>
  Laws of the type generator: the declarations it prints are closed (every record a field refers to is
  declared once, with the shape the field was inferred to have), and the inferred types fit the sample.
\<close>

section \<open>Shapes\<close>

text \<open>Two types have the same shape when they differ only in the names of their records.\<close>

fun erase :: "field_type \<Rightarrow> field_type"
  and erase_fields :: "record_field list \<Rightarrow> record_field list" where
  "erase (FT_Record (RecordDef n fs)) = FT_Record (RecordDef [] (erase_fields fs))"
| "erase (FT_Array t) = FT_Array (erase t)"
| "erase t = t"
| "erase_fields [] = []"
| "erase_fields (RecordField k t # fs) = RecordField k (erase t) # erase_fields fs"

lemma erase_fields_Nil [simp]: "erase_fields fs = [] \<longleftrightarrow> fs = []" "[] = erase_fields fs \<longleftrightarrow> fs = []"
  by (cases fs rule: erase_fields.cases; simp)+

lemma erase_plain [simp]:
  "erase t = FT_Str \<longleftrightarrow> t = FT_Str" "FT_Str = erase t \<longleftrightarrow> t = FT_Str"
  "erase t = FT_Int \<longleftrightarrow> t = FT_Int" "FT_Int = erase t \<longleftrightarrow> t = FT_Int"
  "erase t = FT_Float \<longleftrightarrow> t = FT_Float" "FT_Float = erase t \<longleftrightarrow> t = FT_Float"
  "erase t = FT_Bool \<longleftrightarrow> t = FT_Bool" "FT_Bool = erase t \<longleftrightarrow> t = FT_Bool"
  "erase t = FT_Unknown \<longleftrightarrow> t = FT_Unknown" "FT_Unknown = erase t \<longleftrightarrow> t = FT_Unknown"
  "erase (FT_Record d) \<noteq> FT_Array u" "FT_Array u \<noteq> erase (FT_Record d)"
  by (cases t rule: erase.cases; simp)+ (cases d; simp)+

lemma same_shape_erase: "same_shape a b \<longleftrightarrow> erase a = erase b"
  and same_fields_erase: "same_fields xs ys \<longleftrightarrow> erase_fields xs = erase_fields ys"
  by (induction a b and xs ys rule: same_shape_same_fields.induct) auto

lemma erase_fields_def:
  "erase_fields fs = map (\<lambda>f. RecordField (rf_json_key f) (erase (rf_ty f))) fs"
  by (induction fs) (simp_all, metis erase_fields.simps(2) record_field.collapse)

lemma erase_record: "erase (FT_Record d) = FT_Record (RecordDef [] (erase_fields (rd_fields d)))"
  by (cases d) simp

section \<open>The registry\<close>

fun core :: "field_type \<Rightarrow> field_type" where
  "core (FT_Array t) = core t"
| "core t = t"

text \<open>A finished record of the registry that declares \<open>name\<close> with the given fields.\<close>

definition declared :: "name_registry \<Rightarrow> str \<Rightarrow> record_field list \<Rightarrow> bool" where
  "declared R name fs \<longleftrightarrow> name \<in> set (nr_completed R)
     \<and> (\<exists>r \<in> set (nr_records R). rd_preferred r = name \<and> same_fields (rd_fields r) fs)"

definition ref_ok :: "name_registry \<Rightarrow> field_type \<Rightarrow> bool" where
  "ref_ok R t = (case core t of FT_Record d \<Rightarrow> declared R (rd_preferred d) (rd_fields d) | _ \<Rightarrow> True)"

definition reg_ok :: "name_registry \<Rightarrow> bool" where
  "reg_ok R \<longleftrightarrow> map rd_preferred (nr_records R) = nr_names R \<and> distinct (nr_names R)
     \<and> set (nr_completed R) \<subseteq> set (nr_names R)
     \<and> (\<forall>r \<in> set (nr_records R). rd_preferred r \<in> set (nr_completed R) \<longrightarrow>
          (\<forall>f \<in> set (rd_fields r). ref_ok R (rf_ty f)))"

definition pending :: "name_registry \<Rightarrow> str set" where
  "pending R = set (nr_names R) - set (nr_completed R)"

text \<open>What every operation keeps: the records that were there, and which of them are unfinished.\<close>

definition grows :: "name_registry \<Rightarrow> name_registry \<Rightarrow> bool" where
  "grows R R' \<longleftrightarrow> (\<exists>new. nr_records R' = nr_records R @ new) \<and> set (nr_completed R) \<subseteq> set (nr_completed R')
     \<and> pending R' = pending R"

lemma grows_refl [simp]: "grows R R"
  by (simp add: grows_def)

lemma grows_trans: "grows R S \<Longrightarrow> grows S Q \<Longrightarrow> grows R Q"
  by (auto simp: grows_def)

lemma declared_grows: "declared R n fs \<Longrightarrow> grows R R' \<Longrightarrow> declared R' n fs"
  by (auto simp: declared_def grows_def)

lemma ref_ok_grows: "ref_ok R t \<Longrightarrow> grows R R' \<Longrightarrow> ref_ok R' t"
  by (auto simp: ref_ok_def declared_grows split: field_type.splits)

lemma reg_names: "reg_ok R \<Longrightarrow> nr_names R = map rd_preferred (nr_records R)"
  by (simp add: reg_ok_def)

lemma begin_ok:
  assumes "reg_ok R" "name \<notin> set (nr_names R)"
  shows "reg_ok (begin_record name R)"
proof -
  have "ref_ok (begin_record name R) t" if "ref_ok R t" for t
    using that by (auto simp: ref_ok_def declared_def begin_record_def split: field_type.splits)
  then show ?thesis
    using assms by (auto simp: reg_ok_def begin_record_def)
qed

text \<open>A record is finished over the registry its fields have grown.\<close>

lemma complete_ok:
  fixes fs :: "record_field list"
  assumes R: "reg_ok R" "name \<notin> set (nr_names R)"
    and R2: "reg_ok R2" "grows (begin_record name R) R2"
    and fs: "\<forall>f \<in> set fs. ref_ok R2 (rf_ty f)"
  defines "R3 \<equiv> complete_record (length (nr_records R)) name fs R2"
  shows "reg_ok R3" "grows R R3" "nr_records R3 ! length (nr_records R) = RecordDef name fs"
    "length (nr_records R) < length (nr_records R3)" "name \<in> set (nr_completed R3)"
proof -
  obtain new where recs: "nr_records R2 = nr_records R @ RecordDef name [] # new"
    and comp: "set (nr_completed R) \<subseteq> set (nr_completed R2)"
    and pend: "pending R2 = insert name (pending R)"
    using R2(2) R by (auto simp: grows_def begin_record_def pending_def reg_ok_def)
  have recs3: "nr_records R3 = nr_records R @ RecordDef name fs # new"
    by (simp add: R3_def complete_record_def recs)
  have names: "nr_names R3 = nr_names R2" "nr_completed R3 = nr_completed R2 @ [name]"
    by (simp_all add: R3_def complete_record_def)
  have fresh: "name \<notin> set (nr_completed R2)" using pend by (auto simp: pending_def)
  have keep: "declared R3 n gs" if "declared R2 n gs" for n gs
    using that fresh by (auto simp: declared_def recs recs3 names)
  then have ref: "ref_ok R3 t" if "ref_ok R2 t" for t
    using that by (auto simp: ref_ok_def split: field_type.splits)
  have "ref_ok R2 (rf_ty f)" if "r \<in> set (nr_records R) \<union> set new" "rd_preferred r \<in> insert name (set (nr_completed R2))"
    "f \<in> set (rd_fields r)" for r f
  proof -
    have "distinct (map rd_preferred (nr_records R2))" using R2(1) by (simp add: reg_ok_def)
    then have "rd_preferred r \<noteq> name" using that(1) by (auto simp: recs)
    then show ?thesis using that R2(1) by (auto simp: reg_ok_def recs)
  qed
  then show "reg_ok R3"
    using R2(1) fs ref reg_names[OF R2(1)] unfolding reg_ok_def recs3 names by (auto simp: recs)
  show "grows R R3"
    using comp pend R fresh by (auto simp: grows_def recs3 pending_def names reg_ok_def)
  show "nr_records R3 ! length (nr_records R) = RecordDef name fs"
    "length (nr_records R) < length (nr_records R3)" "name \<in> set (nr_completed R3)"
    by (simp_all add: recs3 names)
qed

lemma numbered_name_fresh: "numbered_name names candidate n \<notin> set names"
  by (induction names candidate n rule: numbered_name.induct)
     (metis numbered_name.simps)

lemma fresh_name_fresh: "fresh_name names candidate ancestors \<notin> set names"
  by (auto simp: fresh_name_def numbered_name_fresh find_Some_iff split: option.split)

lemma find_in: "find P xs = Some x \<Longrightarrow> x \<in> set xs \<and> P x"
  by (induction xs) (auto split: if_splits)

lemma reusable_declared: "reusable R fs = Some n \<Longrightarrow> declared R n fs"
  by (auto simp: reusable_def declared_def dest!: find_in)

text \<open>The operations of the registry, by their mutual recursion.\<close>

lemma resolve_ok:
  "reg_ok R \<Longrightarrow>
     (case resolve_ty t anc R of (t', R') \<Rightarrow>
        reg_ok R' \<and> grows R R' \<and> ref_ok R' t' \<and> erase t' = erase t)"
  "reg_ok R \<Longrightarrow>
     (case resolve_list fs anc R of (fs', R') \<Rightarrow>
        reg_ok R' \<and> grows R R' \<and> (\<forall>f \<in> set fs'. ref_ok R' (rf_ty f)) \<and> erase_fields fs' = erase_fields fs)"
  "reg_ok R \<Longrightarrow>
     (case claim d anc R of (name, R') \<Rightarrow> reg_ok R' \<and> grows R R' \<and> declared R' name (rd_fields d))"
  "reg_ok R \<Longrightarrow> name \<notin> set (nr_names R) \<Longrightarrow>
     reg_ok (resolve_fields name d R) \<and> grows R (resolve_fields name d R)
     \<and> (\<exists>fs. nr_records (resolve_fields name d R) ! length (nr_records R) = RecordDef name fs
          \<and> erase_fields fs = erase_fields (rd_fields d))
     \<and> length (nr_records R) < length (nr_records (resolve_fields name d R))
     \<and> name \<in> set (nr_completed (resolve_fields name d R))"
proof (induction t anc R and fs anc R and d anc R and name d R
    rule: resolve_ty_resolve_list_claim_resolve_fields.induct)
  case (1 inner anc R)
  then show ?case by (auto simp: ref_ok_def split: prod.splits)
next
  case (2 def anc R)
  obtain name R1 where c: "claim def anc R = (name, R1)" by fastforce
  obtain fs R2 where l: "resolve_list (rd_fields def) (anc @ [name]) R1 = (fs, R2)" by fastforce
  from 2 c have R1: "reg_ok R1" "grows R R1" "declared R1 name (rd_fields def)" by auto
  from 2(2)[OF c[symmetric]] R1(1) l have R2: "reg_ok R2" "grows R1 R2" "erase_fields fs = erase_fields (rd_fields def)"
    by auto
  have "declared R2 name fs"
    using declared_grows[OF R1(3) R2(2)] R2(3) by (simp add: declared_def same_fields_erase)
  then show ?case
    using R1 R2 c l grows_trans by (auto simp: ref_ok_def erase_record)
next
  case (5 f fs anc R)
  then show ?case
    by (cases f) (auto split: prod.splits intro: grows_trans ref_ok_grows)
next
  case (6 def anc R)
  show ?case
  proof (cases "reusable R (rd_fields def)")
    case None
    let ?name = "fresh_name (nr_names R) (rd_preferred def) anc"
    let ?R' = "resolve_fields ?name def R"
    from 6(1)[OF None refl 6(2) fresh_name_fresh] obtain fs where
      R': "reg_ok ?R'" "grows R ?R'" "nr_records ?R' ! length (nr_records R) = RecordDef ?name fs"
        "erase_fields fs = erase_fields (rd_fields def)" "length (nr_records R) < length (nr_records ?R')"
        "?name \<in> set (nr_completed ?R')"
      by blast
    then have "declared ?R' ?name (rd_fields def)"
      unfolding declared_def same_fields_erase by (metis nth_mem record_def.sel)
    then show ?thesis using None R'(1,2) by (simp add: Let_def)
  next
    case (Some existing)
    then show ?thesis using 6(2) reusable_declared[OF Some] by simp
  qed
next
  case (7 name def R)
  obtain fs R2 where l: "resolve_list (rd_fields def) [name] (begin_record name R) = (fs, R2)" by fastforce
  note new = begin_ok[OF 7(2,3)]
  from 7(1)[OF refl new] l have R2: "reg_ok R2" "grows (begin_record name R) R2"
    "\<forall>f \<in> set fs. ref_ok R2 (rf_ty f)" "erase_fields fs = erase_fields (rd_fields def)"
    by auto
  have "resolve_fields name def R = complete_record (length (nr_records R)) name fs R2"
    using l by (simp add: Let_def begin_record_def)
  then show ?case
    using complete_ok[OF 7(2,3) R2(1-3)] R2(4) by metis
qed (simp_all add: ref_ok_def)

lemma new_registry_ok: "reg_ok new_registry" "pending new_registry = {}"
  by (simp_all add: reg_ok_def new_registry_def pending_def)

lemma resolve_model_closed_laws:
  fixes root :: record_def
  defines "R \<equiv> resolve_fields (rd_preferred root) root new_registry"
  shows "reg_ok R" "set (nr_names R) = set (nr_completed R)"
    "nr_records R \<noteq> []" "rd_preferred (hd (nr_records R)) = rd_preferred root"
    "same_fields (rd_fields (hd (nr_records R))) (rd_fields root)"
proof -
  from resolve_ok(4)[OF new_registry_ok(1), of "rd_preferred root" root]
  obtain fs where R: "reg_ok R" "grows new_registry R" "nr_records R ! 0 = RecordDef (rd_preferred root) fs"
    "erase_fields fs = erase_fields (rd_fields root)" "0 < length (nr_records R)"
    unfolding R_def by (auto simp: new_registry_def)
  show "reg_ok R" by (rule R(1))
  show "set (nr_names R) = set (nr_completed R)"
    using R(1,2) by (auto simp: reg_ok_def grows_def pending_def new_registry_def)
  show "nr_records R \<noteq> []" using R(5) by auto
  then show "rd_preferred (hd (nr_records R)) = rd_preferred root"
    "same_fields (rd_fields (hd (nr_records R))) (rd_fields root)"
    using R(3,4) by (simp_all add: hd_conv_nth same_fields_erase)
qed

section \<open>Fitting\<close>

text \<open>
  A value fits a type when it has its shape: lists, objects with the same keys in the same order,
  texts, truth values, whole numbers and numbers where the type has them, anything where it is
  unknown. Null stands for a value that is absent, and fits every type.
\<close>

fun fits :: "json \<Rightarrow> field_type \<Rightarrow> bool"
  and fits_all :: "json list \<Rightarrow> field_type \<Rightarrow> bool"
  and fits_fields :: "(str \<times> json) list \<Rightarrow> record_field list \<Rightarrow> bool" where
  "fits JNull t = True"
| "fits (JBool b) t = (t = FT_Bool \<or> t = FT_Unknown)"
| "fits (JNumber n) t = (t = FT_Float \<or> t = FT_Unknown \<or> t = FT_Int \<and> (case n of Float _ \<Rightarrow> False | _ \<Rightarrow> True))"
| "fits (JString s) t = (t = FT_Str \<or> t = FT_Unknown)"
| "fits (JArray vs) t = (case t of FT_Array u \<Rightarrow> fits_all vs u | FT_Unknown \<Rightarrow> True | _ \<Rightarrow> False)"
| "fits (JObject kvs) t = (case t of FT_Record d \<Rightarrow> fits_fields kvs (rd_fields d) | FT_Unknown \<Rightarrow> True | _ \<Rightarrow> False)"
| "fits_all [] t = True"
| "fits_all (v # vs) t = (fits v t \<and> fits_all vs t)"
| "fits_fields [] fs = (fs = [])"
| "fits_fields ((k, v) # kvs) fs =
     (case fs of [] \<Rightarrow> False | f # gs \<Rightarrow> rf_json_key f = k \<and> fits v (rf_ty f) \<and> fits_fields kvs gs)"

lemma fits_all_set: "fits_all vs t \<longleftrightarrow> (\<forall>v \<in> set vs. fits v t)"
  by (induction vs) auto

text \<open>Types that merge without a conflict.\<close>

fun agree :: "field_type \<Rightarrow> field_type \<Rightarrow> bool" where
  "agree FT_Unknown t = True"
| "agree t FT_Unknown = True"
| "agree FT_Str FT_Str = True"
| "agree FT_Bool FT_Bool = True"
| "agree FT_Int t = (t = FT_Int \<or> t = FT_Float)"
| "agree FT_Float t = (t = FT_Int \<or> t = FT_Float)"
| "agree (FT_Array x) (FT_Array y) = agree x y"
| "agree (FT_Record x) (FT_Record y) = same_fields (rd_fields x) (rd_fields y)"
| "agree a b = False"

text \<open>The order of types: what absorbs a type.\<close>

fun below :: "field_type \<Rightarrow> field_type \<Rightarrow> bool" where
  "below FT_Unknown t = True"
| "below FT_Int t = (t = FT_Int \<or> t = FT_Float)"
| "below (FT_Array x) t = (case t of FT_Array y \<Rightarrow> below x y | _ \<Rightarrow> False)"
| "below (FT_Record x) t = (case t of FT_Record y \<Rightarrow> same_fields (rd_fields x) (rd_fields y) | _ \<Rightarrow> False)"
| "below a t = (a = t)"

lemma below_refl [simp]: "below t t"
  by (induction t rule: core.induct) (simp_all add: same_fields_erase)

lemma below_trans: "below a b \<Longrightarrow> below b c \<Longrightarrow> below a c"
proof (induction a b arbitrary: c rule: below.induct)
  case (3 x t)
  then show ?case by (cases t; cases c) auto
next
  case (4 x t)
  then show ?case by (cases t; cases c) (auto simp: same_fields_erase)
qed auto

lemma below_shape: "erase a = erase b \<Longrightarrow> below a b"
proof (induction a b rule: below.induct)
  case (3 x t)
  then show ?case by (cases t) (auto simp: erase_record)
next
  case (4 x t)
  then show ?case by (cases t) (auto simp: erase_record same_fields_erase)
qed auto

lemma merge_upper: "agree a b \<Longrightarrow> below a (merge_types a b) \<and> below b (merge_types a b)"
  by (induction a b rule: merge_types.induct) (auto simp: same_fields_erase)

lemma agree_merge: "agree a b \<Longrightarrow> agree a c \<Longrightarrow> agree b c \<Longrightarrow> agree (merge_types a b) c"
proof (induction a b arbitrary: c rule: merge_types.induct)
  case (9 x y)
  then show ?case by (cases c) auto
qed (auto simp: same_fields_erase elim: agree.elims)

text \<open>A sample is uniform when the elements of each array have types that agree.\<close>

fun uniform :: "char_tables \<Rightarrow> str \<Rightarrow> json \<Rightarrow> bool"
  and uniform_all :: "char_tables \<Rightarrow> str \<Rightarrow> json list \<Rightarrow> bool"
  and uniform_fields :: "char_tables \<Rightarrow> (str \<times> json) list \<Rightarrow> bool" where
  "uniform T key (JArray vs) =
     (sorted_wrt agree (map (infer_value T key) vs) \<and> uniform_all T key vs)"
| "uniform T key (JObject kvs) = uniform_fields T kvs"
| "uniform T key v = True"
| "uniform_all T key [] = True"
| "uniform_all T key (v # vs) = (uniform T key v \<and> uniform_all T key vs)"
| "uniform_fields T [] = True"
| "uniform_fields T ((k, v) # kvs) = (uniform T k v \<and> uniform_fields T kvs)"

lemma infer_items_fold: "infer_items T key vs acc = fold (\<lambda>v m. merge_next m (infer_value T key v)) vs acc"
  by (induction vs arbitrary: acc) auto

lemma infer_items_upper:
  assumes "sorted_wrt agree (t # map (infer_value T key) vs)"
  shows "\<exists>m. infer_items T key vs (Some t) = Some m \<and> below t m \<and> (\<forall>v \<in> set vs. below (infer_value T key v) m)"
  using assms
proof (induction vs arbitrary: t)
  case (Cons v vs)
  let ?u = "infer_value T key v"
  from Cons.prems have a: "agree t ?u" by simp
  have "sorted_wrt agree (merge_types t ?u # map (infer_value T key) vs)"
    using Cons.prems by (auto intro!: agree_merge)
  from Cons.IH[OF this] merge_upper[OF a] show ?case
    by (auto simp: merge_next_def intro: below_trans)
qed simp

lemma infer_items_all:
  assumes "sorted_wrt agree (map (infer_value T key) vs)" "vs \<noteq> []"
  shows "\<exists>m. infer_items T key vs None = Some m \<and> (\<forall>v \<in> set vs. below (infer_value T key v) m)"
proof (cases vs)
  case (Cons w ws)
  then show ?thesis
    using infer_items_upper[of "infer_value T key w" T key ws] assms(1) by (auto simp: merge_next_def)
qed (use assms(2) in simp)

lemma uniform_fits:
  "uniform T key v \<Longrightarrow> below (infer_value T key v) t \<Longrightarrow> fits v t"
  "uniform_all T key vs \<Longrightarrow> \<forall>v \<in> set vs. below (infer_value T key v) t \<Longrightarrow> fits_all vs t"
  "uniform_fields T kvs \<Longrightarrow> same_fields (infer_fields T kvs) fs \<Longrightarrow> fits_fields kvs fs"
proof (induction v t and vs t and kvs fs arbitrary: key and key rule: fits_fits_all_fits_fields.induct)
  case (5 vs t)
  from 5(3) obtain u where u: "t = FT_Array u"
    "below (case infer_items T key vs None of None \<Rightarrow> FT_Unknown | Some m \<Rightarrow> m) u"
    by (cases t) auto
  have "below (infer_value T key v) u" if v: "v \<in> set vs" for v
    using infer_items_all[of T key vs] 5(2) u(2) v below_trans by fastforce
  then show ?case using 5(1,2) u(1) by auto
next
  case (6 kvs t)
  then show ?case by (cases t) auto
next
  case (10 k v kvs fs)
  from 10(4) obtain t gs where fs: "fs = RecordField k t # gs" "same_shape (infer_value T k v) t"
    "same_fields (infer_fields T kvs) gs"
    by (cases fs rule: erase_fields.cases) auto
  then have "below (infer_value T k v) t" by (simp add: below_shape same_shape_erase)
  then show ?case using 10(1)[OF fs(1), of k] 10(2)[OF fs(1)] 10(3) fs by simp
qed (auto simp: same_fields_erase split: jnumber.splits)

section \<open>Reading\<close>

text \<open>
  What the generated declarations read: an integer is a signed 64-bit number, and no field or element
  may be null, unless its type is unknown.
\<close>

fun reads :: "json \<Rightarrow> field_type \<Rightarrow> bool"
  and reads_all :: "json list \<Rightarrow> field_type \<Rightarrow> bool"
  and reads_fields :: "(str \<times> json) list \<Rightarrow> record_field list \<Rightarrow> bool" where
  "reads JNull t = (t = FT_Unknown)"
| "reads (JBool b) t = (t = FT_Bool \<or> t = FT_Unknown)"
| "reads (JNumber n) t = (t = FT_Float \<or> t = FT_Unknown
     \<or> t = FT_Int \<and> (case n of PosInt u \<Rightarrow> uint u < 2 ^ 63 | NegInt i \<Rightarrow> True | Float _ \<Rightarrow> False))"
| "reads (JString s) t = (t = FT_Str \<or> t = FT_Unknown)"
| "reads (JArray vs) t = (case t of FT_Array u \<Rightarrow> reads_all vs u | FT_Unknown \<Rightarrow> True | _ \<Rightarrow> False)"
| "reads (JObject kvs) t = (case t of FT_Record d \<Rightarrow> reads_fields kvs (rd_fields d) | FT_Unknown \<Rightarrow> True | _ \<Rightarrow> False)"
| "reads_all [] t = True"
| "reads_all (v # vs) t = (reads v t \<and> reads_all vs t)"
| "reads_fields [] fs = (fs = [])"
| "reads_fields ((k, v) # kvs) fs =
     (case fs of [] \<Rightarrow> False | f # gs \<Rightarrow> rf_json_key f = k \<and> reads v (rf_ty f) \<and> reads_fields kvs gs)"

text \<open>
  Samples the declarations can read: integers in range and no null inside an array, however deep;
  \<open>inside\<close> says whether the value is inside an array.
\<close>

fun readable :: "bool \<Rightarrow> json \<Rightarrow> bool"
  and readable_all :: "json list \<Rightarrow> bool"
  and readable_fields :: "bool \<Rightarrow> (str \<times> json) list \<Rightarrow> bool" where
  "readable inside JNull = (\<not> inside)"
| "readable inside (JNumber n) = (case n of PosInt u \<Rightarrow> uint u < 2 ^ 63 | _ \<Rightarrow> True)"
| "readable inside (JArray vs) = readable_all vs"
| "readable inside (JObject kvs) = readable_fields inside kvs"
| "readable inside _ = True"
| "readable_all [] = True"
| "readable_all (v # vs) = (readable True v \<and> readable_all vs)"
| "readable_fields inside [] = True"
| "readable_fields inside ((k, v) # kvs) = (readable inside v \<and> readable_fields inside kvs)"

lemma reads_all_set: "reads_all vs t \<longleftrightarrow> (\<forall>v \<in> set vs. reads v t)"
  by (induction vs) auto

lemma readable_all_set: "readable_all vs \<longleftrightarrow> (\<forall>v \<in> set vs. readable True v)"
  by (induction vs) auto

lemma fits_reads:
  "fits v t \<Longrightarrow> readable True v \<Longrightarrow> reads v t"
  "fits_all vs t \<Longrightarrow> readable_all vs \<Longrightarrow> reads_all vs t"
  "fits_fields kvs fs \<Longrightarrow> readable_fields True kvs \<Longrightarrow> reads_fields kvs fs"
  by (induction v t and vs t and kvs fs rule: fits_fits_all_fits_fields.induct)
     (auto split: jnumber.splits field_type.splits list.splits)


lemma inferred_reads:
  "uniform T key v \<Longrightarrow> readable False v \<Longrightarrow> reads v (infer_value T key v)"
  "uniform_all T key vs \<Longrightarrow> True"
  "uniform_fields T kvs \<Longrightarrow> readable_fields False kvs \<Longrightarrow> reads_fields kvs (infer_fields T kvs)"
proof (induction T key v and T key vs and T kvs rule: uniform_uniform_all_uniform_fields.induct)
  case (1 T key vs)
  have "fits (JArray vs) (infer_value T key (JArray vs))"
    by (rule uniform_fits(1)[OF 1(2) below_refl])
  then show ?case using 1(3) by (simp add: fits_reads(2))
qed (simp_all split: jnumber.splits)

section \<open>Properties\<close>

text \<open>
  C28: The declarations generated from a record are closed: the names of the structs are distinct, the first
  is the root with the root's fields, and every struct a field refers to, directly or through lists, is
  declared with the fields the sample has there.
\<close>

theorem resolve_model_closed:
  "distinct (map rd_preferred (resolve_model root))
   \<and> rd_preferred (hd (resolve_model root)) = rd_preferred root
   \<and> same_fields (rd_fields (hd (resolve_model root))) (rd_fields root)
   \<and> (\<forall>r \<in> set (resolve_model root). \<forall>f \<in> set (rd_fields r).
        case core (rf_ty f) of
          FT_Record d \<Rightarrow> \<exists>r' \<in> set (resolve_model root).
            rd_preferred r' = rd_preferred d \<and> same_fields (rd_fields r') (rd_fields d)
        | _ \<Rightarrow> True)"
proof -
  define R where "R = resolve_fields (rd_preferred root) root new_registry"
  note R = resolve_model_closed_laws[of root, folded R_def]
  have "case core (rf_ty f) of
      FT_Record d \<Rightarrow> \<exists>r' \<in> set (nr_records R). rd_preferred r' = rd_preferred d \<and> same_fields (rd_fields r') (rd_fields d)
    | _ \<Rightarrow> True" if "r \<in> set (nr_records R)" "f \<in> set (rd_fields r)" for r f
  proof -
    have "rd_preferred r \<in> set (nr_completed R)"
      using that(1) R(2) reg_names[OF R(1)] by auto
    then have "ref_ok R (rf_ty f)" using that R(1) by (auto simp: reg_ok_def)
    then show ?thesis by (auto simp: ref_ok_def declared_def split: field_type.splits)
  qed
  then show ?thesis
    using R(1,4,5) unfolding resolve_model_def R_def[symmetric] by (auto simp: reg_ok_def)
qed

theorem resolve_model_closed_witness:
  "distinct (map rd_preferred (resolve_model
     (RecordDef ''Root'' [RecordField ''data'' (FT_Record (RecordDef ''Data'' [RecordField ''a'' FT_Int])),
       RecordField ''info'' (FT_Record (RecordDef ''Info''
         [RecordField ''data'' (FT_Record (RecordDef ''Data'' [RecordField ''b'' FT_Str]))]))])))"
  by (rule resolve_model_closed[THEN conjunct1])

text \<open>
  C27: The type inferred for a sample describes it, when the elements of each of its arrays have types
  that agree: at the root and at every place inside, the value has the shape of its type, where null
  counts as an absent value. If moreover no array has a null in it, however deep, and no integer
  exceeds the signed 64-bit range, the declarations read the sample back: every integer is one of the
  type, and null occurs only where the type is unknown. The two conditions are needed, because the
  generated fields are neither optional nor wider (\<open>null_in_array_not_read\<close>, \<open>large_integer_not_read\<close>).
\<close>

theorem inferred_type_fits:
  assumes "uniform T key v" "infer_root T v key = Ok t"
  shows "(case v of JArray vs \<Rightarrow> (\<forall>x \<in> set vs. fits x t) | _ \<Rightarrow> fits v t)
    \<and> (readable False v \<longrightarrow> (case v of JArray vs \<Rightarrow> (\<forall>x \<in> set vs. reads x t) | _ \<Rightarrow> reads v t))"
proof (cases v)
  case (JArray vs)
  with assms(2) obtain d where d: "infer_items T key vs None = Some (FT_Record d)" "t = FT_Record d"
    by (auto simp: infer_root_def Let_def split: option.splits field_type.splits)
  then have "below (infer_value T key v) (FT_Array t)" using JArray by (simp add: same_fields_erase)
  from uniform_fits(1)[OF assms(1) this] have "\<forall>x \<in> set vs. fits x t" by (simp add: JArray fits_all_set)
  then show ?thesis by (auto simp: JArray readable_all_set intro: fits_reads(1))
next
  case (JObject kvs)
  then show ?thesis
    using assms uniform_fits(1)[OF assms(1), of t] inferred_reads(1)[OF assms(1)]
    by (auto simp: infer_root_def Let_def)
qed (use assms(2) in \<open>simp_all add: infer_root_def Let_def\<close>)

definition ascii_tables :: char_tables where
  "ascii_tables = \<lparr>ct_lowercase = (\<lambda>c. c \<noteq> map ascii_upper c), ct_uppercase = (\<lambda>c. c \<noteq> map ascii_lower c),
     ct_alphabetic = (\<lambda>c. c \<noteq> map ascii_upper c \<or> c \<noteq> map ascii_lower c),
     ct_numeric = (\<lambda>c. list_all (\<lambda>b. CHR ''0'' \<le> b \<and> b \<le> CHR ''9'') c),
     ct_to_uppercase = map ascii_upper, ct_to_lowercase = map ascii_lower\<rparr>"

theorem inferred_type_fits_witness:
  "list_all
     (\<lambda>x. reads x (FT_Record (RecordDef ''Item'' [RecordField ''id'' FT_Int, RecordField ''tags'' (FT_Array FT_Str)])))
     [JObject [(''id'', JNumber (PosInt 1)), (''tags'', JArray [JString ''y''])],
      JObject [(''id'', JNumber (NegInt (-2))), (''tags'', JArray [JString ''x''])]]"
proof -
  let ?v = "JArray [JObject [(''id'', JNumber (PosInt 1)), (''tags'', JArray [JString ''y''])],
      JObject [(''id'', JNumber (NegInt (-2))), (''tags'', JArray [JString ''x''])]]"
  let ?t = "FT_Record (RecordDef ''Item'' [RecordField ''id'' FT_Int, RecordField ''tags'' (FT_Array FT_Str)])"
  have "uniform ascii_tables ''item'' ?v" by code_simp
  moreover have "infer_root ascii_tables ?v ''item'' = Ok ?t" by code_simp
  moreover have "readable False ?v" by simp
  ultimately have "\<forall>x \<in> set [JObject [(''id'', JNumber (PosInt 1)), (''tags'', JArray [JString ''y''])],
      JObject [(''id'', JNumber (NegInt (-2))), (''tags'', JArray [JString ''x''])]]. reads x ?t"
    using inferred_type_fits[of ascii_tables "''item''" ?v ?t, THEN conjunct2] unfolding json.case by blast
  then show ?thesis by (simp only: list_all_iff)
qed

text \<open>Samples with a type that does not read them.\<close>

lemma null_in_array_not_read:
  "infer_value T key (JArray [JNull, JString s]) = FT_Array FT_Str
   \<and> \<not> reads (JArray [JNull, JString s]) (FT_Array FT_Str)"
  by (simp add: merge_next_def)

lemma large_integer_not_read:
  "infer_value T key (JNumber (PosInt (2 ^ 64 - 1))) = FT_Int \<and> \<not> reads (JNumber (PosInt (2 ^ 64 - 1))) FT_Int"
  by simp

text \<open>
  Merging depends on the order: a conflict gives no type, and the next element then sets one that the
  elements before it do not fit.
\<close>

lemma mixed_array_takes_last_type:
  "infer_value T key (JArray [JNumber (PosInt 1), JString s, JNumber (PosInt 2)]) = FT_Array FT_Int
   \<and> \<not> fits (JArray [JNumber (PosInt 1), JString s, JNumber (PosInt 2)]) (FT_Array FT_Int)
   \<and> infer_value T key (JArray [JNumber (PosInt 1), JNumber (PosInt 2), JString s]) = FT_Array FT_Unknown"
  by (simp add: merge_next_def)

text \<open>Two keys of one object can get one field name.\<close>

lemma field_names_collide:
  "rust_field_name ascii_tables ''userName'' = (''user_name'', True)"
  "rust_field_name ascii_tables ''user_name'' = (''user_name'', False)"
  by code_simp+

end
