(* ===== verification/OAuth.thy ===== *)
theory OAuth
  imports Model
begin

text \<open>
  The OAuth 2 client, \<open>crates/fox-oauth\<close>: the cache of tokens (\<open>cache.rs\<close>), the authorization code flow
  and the refresh of tokens (\<open>client.rs\<close>). What runs between two points where the code waits is one
  definition here; \<open>OAuthTasks\<close> interleaves them. The URL parser, form and JSON decoding, the addition of
  times and the answers of the token endpoint are parameters.
\<close>

section \<open>The cache\<close>

type_synonym token_key = "str \<times> str"
type_synonym token_cache = "(token_key, oauth2_token) hash_map"

definition cached_token :: "str \<Rightarrow> str \<Rightarrow> token_cache \<Rightarrow> oauth2_token option" where
  "cached_token client_id token_url m = m (client_id, token_url)"

definition store_token :: "str \<Rightarrow> str \<Rightarrow> oauth2_token \<Rightarrow> token_cache \<Rightarrow> token_cache" where
  "store_token client_id token_url t m = m((client_id, token_url) \<mapsto> t)"

definition clear_token :: "str \<Rightarrow> str \<Rightarrow> token_cache \<Rightarrow> token_cache" where
  "clear_token client_id token_url m = m((client_id, token_url) := None)"

definition reset_cache :: "token_cache \<Rightarrow> token_cache" where
  "reset_cache m = Map.empty"

section \<open>Configuration\<close>

definition CALLBACK_HOST :: str where "CALLBACK_HOST = ''127.0.0.1''"
definition CALLBACK_PORT :: u16 where "CALLBACK_PORT = 9090"
definition DEFAULT_REDIRECT_URI :: str where "DEFAULT_REDIRECT_URI = ''http://127.0.0.1:9090/callback''"
definition REFRESH_AHEAD :: int where "REFRESH_AHEAD = seconds 60"
definition AUTHORIZE_TIMEOUT :: int where "AUTHORIZE_TIMEOUT = seconds 120"

datatype oauth2_error =
    OE_Config msg
  | OE_Callback msg
  | OE_Exchange msg
  | OE_Refresh msg
  | OE_Unauthorized msg

record oauth2_fields =
  of_client_id :: str
  of_client_secret :: str
  of_auth_url :: str
  of_token_url :: str
  of_scope :: str
  of_redirect_uri :: str

definition oauth2_fields_of :: "auth_spec \<Rightarrow> (oauth2_error, oauth2_fields) result" where
  "oauth2_fields_of auth =
     (case auth of
        OAuth2 client_id client_secret auth_url token_url scope redirect_uri _ \<Rightarrow>
          if trim client_id = [] then Err (OE_Config (Msg ''client_id is not configured'' []))
          else if trim token_url = [] then Err (OE_Config (Msg ''token_url is not configured'' []))
          else Ok \<lparr>of_client_id = client_id, of_client_secret = client_secret, of_auth_url = auth_url,
                  of_token_url = token_url, of_scope = scope,
                  of_redirect_uri = (if trim redirect_uri = [] then DEFAULT_REDIRECT_URI else redirect_uri)\<rparr>
      | _ \<Rightarrow> Err (OE_Config (Msg ''the authentication is not OAuth2'' [])))"

abbreviation key_of :: "oauth2_fields \<Rightarrow> token_key" where
  "key_of f \<equiv> (of_client_id f, of_token_url f)"

section \<open>Token responses\<close>

text \<open>
  \<open>oe_form\<close> decodes a form; \<open>oe_after\<close> adds seconds to a time, None where \<open>chrono\<close> panics because the
  sum is out of its range.
\<close>

record oauth_env =
  oe_json_parse :: "str \<Rightarrow> (str, json) result"
  oe_form :: "str \<Rightarrow> (str \<times> str) list"
  oe_after :: "datetime \<Rightarrow> int \<Rightarrow> datetime option"

definition json_str :: "json \<Rightarrow> str option" where
  "json_str v = (case v of JString s \<Rightarrow> Some s | _ \<Rightarrow> None)"

definition json_i64 :: "json \<Rightarrow> int option" where
  "json_i64 v =
     (case v of
        JNumber (PosInt n) \<Rightarrow> if uint n < 2 ^ 63 then Some (uint n) else None
      | JNumber (NegInt i) \<Rightarrow> Some i
      | _ \<Rightarrow> None)"

definition expires_in_of :: "json \<Rightarrow> int option" where
  "expires_in_of v =
     (case json_i64 v of
        Some n \<Rightarrow> Some n
      | None \<Rightarrow> (case json_str v of Some s \<Rightarrow> parse_i64 s | None \<Rightarrow> None))"

definition opt_bind :: "'a option \<Rightarrow> ('a \<Rightarrow> 'b option) \<Rightarrow> 'b option" where
  "opt_bind x f = (case x of None \<Rightarrow> None | Some a \<Rightarrow> f a)"

text \<open>The token with its time of expiry; None is the panic of the addition.\<close>

definition token_until ::
  "oauth_env \<Rightarrow> datetime \<Rightarrow> str \<Rightarrow> str \<Rightarrow> str option \<Rightarrow> int \<Rightarrow> (msg, oauth2_token) result option" where
  "token_until E now access token_type refresh expires_in =
     (case oe_after E now expires_in of
        None \<Rightarrow> None
      | Some at \<Rightarrow> Some (Ok \<lparr>ot_access_token = access, ot_token_type = token_type,
                            ot_refresh_token = refresh, ot_expires_at = at\<rparr>))"

definition parse_token_json :: "oauth_env \<Rightarrow> datetime \<Rightarrow> json \<Rightarrow> (msg, oauth2_token) result option" where
  "parse_token_json E now v =
     (case opt_bind (json_get ''access_token'' v) json_str of
        None \<Rightarrow> Some (Err (Msg ''the token response has no access_token'' []))
      | Some access \<Rightarrow>
          (case opt_bind (json_get ''expires_in'' v) expires_in_of of
             None \<Rightarrow> Some (Err (Msg ''the token response has no expires_in'' []))
           | Some expires_in \<Rightarrow>
               token_until E now access
                 (case opt_bind (json_get ''token_type'' v) json_str of None \<Rightarrow> ''Bearer'' | Some t \<Rightarrow> t)
                 (opt_bind (json_get ''refresh_token'' v) json_str) expires_in))"

definition parse_token_form ::
  "oauth_env \<Rightarrow> datetime \<Rightarrow> (str \<times> str) list \<Rightarrow> (msg, oauth2_token) result option" where
  "parse_token_form E now pairs =
     (let form = insert_all pairs Map.empty
      in if pairs = [] then Some (Err (Msg ''the token response is neither JSON nor a form'' []))
         else (case form ''access_token'' of
                 None \<Rightarrow> Some (Err (Msg ''the token response has no access_token'' []))
               | Some access \<Rightarrow>
                   (case form ''expires_in'' of
                      None \<Rightarrow> Some (Err (Msg ''the token response has no expires_in'' []))
                    | Some s \<Rightarrow>
                        (case parse_i64 s of
                           None \<Rightarrow> Some (Err (Msg ''expires_in is not a number'' []))
                         | Some expires_in \<Rightarrow>
                             token_until E now access
                               (case form ''token_type'' of None \<Rightarrow> ''Bearer'' | Some t \<Rightarrow> t)
                               (form ''refresh_token'') expires_in))))"

definition parse_token_payload :: "oauth_env \<Rightarrow> datetime \<Rightarrow> str \<Rightarrow> (msg, oauth2_token) result option" where
  "parse_token_payload E now s =
     (case oe_json_parse E s of
        Inr v \<Rightarrow> parse_token_json E now v
      | Inl _ \<Rightarrow> parse_token_form E now (oe_form E s))"

section \<open>The token endpoint\<close>

text \<open>An answer is an error of the transport, or a status and the text of the body.\<close>

type_synonym answer = "(str, nat \<times> str) result"

definition is_success :: "nat \<Rightarrow> bool" where
  "is_success status \<longleftrightarrow> 200 \<le> status \<and> status < 300"

definition excerpt :: "str \<Rightarrow> str" where
  "excerpt s = concat (take 200 (uchars s))"

definition refresh_form :: "oauth2_fields \<Rightarrow> str \<Rightarrow> (str \<times> str) list" where
  "refresh_form f refresh_token =
     [(''grant_type'', ''refresh_token''), (''refresh_token'', refresh_token),
      (''client_id'', of_client_id f), (''client_secret'', of_client_secret f)]"

definition refresh_answer :: "oauth_env \<Rightarrow> datetime \<Rightarrow> answer \<Rightarrow> (oauth2_error, oauth2_token) result option" where
  "refresh_answer E now resp =
     (case resp of
        Inl e \<Rightarrow> Some (Err (OE_Refresh (Msg ''the refresh request failed'' [e])))
      | Inr (status, body) \<Rightarrow>
          if \<not> is_success status then
            Some (Err (if status = 401 \<or> status = 400
                       then OE_Unauthorized (Msg ''the refresh token was refused'' [show_nat status])
                       else OE_Refresh (Msg ''refreshing the token failed'' [show_nat status, excerpt body])))
          else map_option (\<lambda>r. case r of Inl m \<Rightarrow> Err (OE_Refresh m) | Inr t \<Rightarrow> Ok t)
                 (parse_token_payload E now body))"

definition code_form :: "oauth2_fields \<Rightarrow> str \<Rightarrow> (str \<times> str) list" where
  "code_form f code =
     [(''grant_type'', ''authorization_code''), (''code'', code), (''redirect_uri'', of_redirect_uri f),
      (''client_id'', of_client_id f), (''client_secret'', of_client_secret f)]"

definition code_answer :: "oauth_env \<Rightarrow> datetime \<Rightarrow> answer \<Rightarrow> (oauth2_error, oauth2_token) result option" where
  "code_answer E now resp =
     (case resp of
        Inl e \<Rightarrow> Some (Err (OE_Exchange (Msg ''the token request failed'' [e])))
      | Inr (status, body) \<Rightarrow>
          if \<not> is_success status then
            Some (Err (OE_Exchange (Msg ''getting the token failed'' [show_nat status, excerpt body])))
          else map_option (\<lambda>r. case r of Inl m \<Rightarrow> Err (OE_Exchange m) | Inr t \<Rightarrow> Ok t)
                 (parse_token_payload E now body))"

section \<open>Access tokens\<close>

definition usable :: "datetime \<Rightarrow> oauth2_token \<Rightarrow> bool" where
  "usable now t \<longleftrightarrow> \<not> is_expired now t \<and> \<not> expires_within now t REFRESH_AHEAD"

text \<open>
  \<open>access_token_for\<close> up to the point where it has to refresh. It takes the lock of the cache four
  times, and on a runtime with several threads other tasks run in between: it looks for a usable
  token; it tests whether there is none at all; if so, it stores the token of the specification; and it
  looks again.
\<close>

datatype access_start =
    Has_Result "(oauth2_error, str) result"
  | Check_Empty oauth2_fields "oauth2_token option"
  | Store_Seed oauth2_fields oauth2_token
  | Look_Again oauth2_fields
  | Must_Refresh oauth2_fields oauth2_token

definition first_look :: "datetime \<Rightarrow> auth_spec \<Rightarrow> token_cache \<Rightarrow> access_start" where
  "first_look now auth m =
     (case oauth2_fields_of auth of
        Inl e \<Rightarrow> Has_Result (Err e)
      | Inr f \<Rightarrow>
          (let hit = cached_token (of_client_id f) (of_token_url f) m
           in if (case hit of Some t \<Rightarrow> usable now t | None \<Rightarrow> False)
              then Has_Result (Ok (ot_access_token (the hit)))
              else Check_Empty f (oa_token auth)))"

definition check_empty :: "oauth2_fields \<Rightarrow> oauth2_token option \<Rightarrow> token_cache \<Rightarrow> access_start" where
  "check_empty f token m =
     (if cached_token (of_client_id f) (of_token_url f) m = None then
        (case token of Some t \<Rightarrow> Store_Seed f t | None \<Rightarrow> Look_Again f)
      else Look_Again f)"

definition store_seed :: "oauth2_fields \<Rightarrow> oauth2_token \<Rightarrow> token_cache \<Rightarrow> token_cache" where
  "store_seed f t m = store_token (of_client_id f) (of_token_url f) t m"

definition look_again :: "datetime \<Rightarrow> oauth2_fields \<Rightarrow> token_cache \<Rightarrow> access_start" where
  "look_again now f m =
     (case cached_token (of_client_id f) (of_token_url f) m of
        Some t \<Rightarrow>
          if \<not> is_expired now t \<and> expires_within now t REFRESH_AHEAD then Must_Refresh f t
          else if is_expired now t then Must_Refresh f t
          else Has_Result (Ok (ot_access_token t))
      | None \<Rightarrow> Has_Result (Err (OE_Unauthorized (Msg ''not authorized yet'' []))))"

text \<open>The same without interruption.\<close>

definition access_token_start :: "datetime \<Rightarrow> auth_spec \<Rightarrow> token_cache \<Rightarrow> access_start \<times> token_cache" where
  "access_token_start now auth m =
     (case first_look now auth m of
        Check_Empty f token \<Rightarrow>
          (case check_empty f token m of
             Store_Seed g t \<Rightarrow> (let m' = store_seed g t m in (look_again now g m', m'))
           | _ \<Rightarrow> (look_again now f m, m))
      | st \<Rightarrow> (st, m))"

text \<open>What the holder of the lock does first: the result, or the refresh token to exchange.\<close>

definition under_lock ::
  "datetime \<Rightarrow> oauth2_fields \<Rightarrow> oauth2_token \<Rightarrow> token_cache \<Rightarrow> (oauth2_error, str) result + str" where
  "under_lock now f expired m =
     (case cached_token (of_client_id f) (of_token_url f) m of
        Some t \<Rightarrow>
          if usable now t then Inl (Ok (ot_access_token t))
          else (case ot_refresh_token expired of
                  None \<Rightarrow> Inl (Err (OE_Unauthorized (Msg ''there is no refresh_token'' [])))
                | Some rt \<Rightarrow> Inr rt)
      | None \<Rightarrow>
          (case ot_refresh_token expired of
             None \<Rightarrow> Inl (Err (OE_Unauthorized (Msg ''there is no refresh_token'' [])))
           | Some rt \<Rightarrow> Inr rt))"

definition after_refresh ::
  "oauth2_fields \<Rightarrow> (oauth2_error, oauth2_token) result \<Rightarrow> token_cache \<Rightarrow> (oauth2_error, str) result \<times> token_cache" where
  "after_refresh f r m =
     (case r of
        Inl e \<Rightarrow> (Err e, m)
      | Inr fresh \<Rightarrow> (Ok (ot_access_token fresh), store_token (of_client_id f) (of_token_url f) fresh m))"

section \<open>The authorization flow\<close>

record callback_url =
  cu_host :: "str option"
  cu_port :: "u16 option"
  cu_path :: str

definition redirect_binding ::
  "(str \<Rightarrow> (str, callback_url) result) \<Rightarrow> str \<Rightarrow> (oauth2_error, str \<times> u16 \<times> str) result" where
  "redirect_binding parse_url redirect_uri =
     (case parse_url redirect_uri of
        Inl e \<Rightarrow> Err (OE_Config (Msg ''invalid redirect_uri'' [e]))
      | Inr u \<Rightarrow>
          if cu_host u = Some ''127.0.0.1'' \<or> cu_host u = Some ''localhost'' then
            Ok (''127.0.0.1'', (case cu_port u of None \<Rightarrow> CALLBACK_PORT | Some p \<Rightarrow> p),
                (if cu_path u = [] then ''/callback'' else cu_path u))
          else Err (OE_Config (Msg ''redirect_uri must be a loopback address'' [])))"

text \<open>The query pairs of the page the browser is sent to.\<close>

definition authorize_query :: "oauth2_fields \<Rightarrow> str \<Rightarrow> (str \<times> str) list" where
  "authorize_query f state =
     [(''response_type'', ''code''), (''client_id'', of_client_id f), (''redirect_uri'', of_redirect_uri f),
      (''state'', state)]
     @ (if trim (of_scope f) \<noteq> [] then [(''scope'', trim (of_scope f))] else [])"

text \<open>What the handler of the callback sends to the flow.\<close>

definition callback_message :: "str \<Rightarrow> (str, str) hash_map \<Rightarrow> (msg, str) result" where
  "callback_message state_expected params =
     (case params ''state'' of
        Some s \<Rightarrow>
          if s = state_expected then
            (case params ''code'' of
               Some code \<Rightarrow> Ok code
             | None \<Rightarrow> Err (Msg ''the callback has no code'' []))
          else Err (Msg ''the state of the callback does not match'' [])
      | None \<Rightarrow> Err (Msg ''the state of the callback does not match'' []))"

text \<open>
  Attempts to bind the port: what the system answers, and whether the deadline has not passed yet.
  None says that the attempts given do not decide it.
\<close>

datatype bind_answer = Bound | Addr_In_Use str | Bind_Failed str

fun bind_callback_listener :: "u16 \<Rightarrow> (bind_answer \<times> bool) list \<Rightarrow> (oauth2_error, unit) result option" where
  "bind_callback_listener port [] = None"
| "bind_callback_listener port ((Bound, early) # attempts) = Some (Ok ())"
| "bind_callback_listener port ((Addr_In_Use e, early) # attempts) =
     (if early then bind_callback_listener port attempts
      else Some (Err (OE_Callback (Msg ''the callback port is taken'' [show_nat (unat port), e]))))"
| "bind_callback_listener port ((Bind_Failed e, early) # attempts) =
     (if early then Some (Err (OE_Callback (Msg ''binding the callback port failed'' [show_nat (unat port), e])))
      else Some (Err (OE_Callback (Msg ''the callback port is taken'' [show_nat (unat port), e]))))"

text \<open>
  The world of one authorization: the attempts to bind, whether the browser opens, the callbacks that
  arrive within the time limit in their order, and the answer of the token endpoint with its time.
\<close>

record authorize_world =
  aw_state :: str
  aw_parse_auth_url :: "str \<Rightarrow> (str, unit) result"
  aw_parse_redirect :: "str \<Rightarrow> (str, callback_url) result"
  aw_bind :: "(bind_answer \<times> bool) list"
  aw_open :: "str \<Rightarrow> (str \<times> str) list \<Rightarrow> (str, unit) result"
  aw_callbacks :: "(str, str) hash_map list"
  aw_post :: "str \<Rightarrow> (str \<times> str) list \<Rightarrow> answer"
  aw_now :: datetime

text \<open>The flow waits for the first message of the handler; the outer None is the panic of the parser.\<close>

definition authorize_steps ::
  "oauth_env \<Rightarrow> authorize_world \<Rightarrow> oauth2_fields \<Rightarrow> token_cache \<Rightarrow> ((oauth2_error, oauth2_token) result \<times> token_cache) option" where
  "authorize_steps E W f m =
     (case aw_parse_auth_url W (of_auth_url f) of
        Inl e \<Rightarrow> Some (Err (OE_Config (Msg ''invalid auth_url'' [e])), m)
      | Inr _ \<Rightarrow>
          (case redirect_binding (aw_parse_redirect W) (of_redirect_uri f) of
             Inl e \<Rightarrow> Some (Err e, m)
           | Inr (_, port, _) \<Rightarrow>
               (case bind_callback_listener port (aw_bind W) of
                  None \<Rightarrow> None
                | Some (Inl e) \<Rightarrow> Some (Err e, m)
                | Some (Inr _) \<Rightarrow>
                    (case aw_open W (of_auth_url f) (authorize_query f (aw_state W)) of
                       Inl e \<Rightarrow> Some (Err (OE_Callback (Msg ''opening the browser failed'' [e])), m)
                     | Inr _ \<Rightarrow>
                         (case aw_callbacks W of
                            [] \<Rightarrow> Some (Err (OE_Callback (Msg ''no callback in time'' [show_nat 120])), m)
                          | params # _ \<Rightarrow>
                              (case callback_message (aw_state W) params of
                                 Inl e \<Rightarrow> Some (Err (OE_Callback e), m)
                               | Inr code \<Rightarrow>
                                   (case code_answer E (aw_now W) (aw_post W (of_token_url f) (code_form f code)) of
                                      None \<Rightarrow> None
                                    | Some (Inl e) \<Rightarrow> Some (Err e, m)
                                    | Some (Inr t) \<Rightarrow>
                                        Some (Ok t, store_token (of_client_id f) (of_token_url f) t m)))))))) "

definition authorize ::
  "oauth_env \<Rightarrow> authorize_world \<Rightarrow> auth_spec \<Rightarrow> token_cache \<Rightarrow> ((oauth2_error, oauth2_token) result \<times> token_cache) option" where
  "authorize E W auth m =
     (case oauth2_fields_of auth of
        Inl e \<Rightarrow> Some (Err e, m)
      | Inr f \<Rightarrow>
          if trim (of_auth_url f) = [] then Some (Err (OE_Config (Msg ''auth_url is not configured'' [])), m)
          else authorize_steps E W f m)"

end
