(* ===== verification/OAuthTasks.thy ===== *)
theory OAuthTasks
  imports OAuth
begin

text \<open>
  Concurrent calls of \<open>access_token_for\<close> (\<open>crates/fox-oauth/src/client.rs\<close>): every call is a task, the
  table of locks has one lock per key, and a step of a task ends where it waits or where it gives the
  lock of the token cache back, because there another thread may run. A step has the time at which it runs; tasks may be dropped while they wait.
\<close>

section \<open>Tasks and locks\<close>

datatype task_pc =
    T_Checking oauth2_fields "oauth2_token option"
  | T_Seeding oauth2_fields oauth2_token
  | T_Looking oauth2_fields
  | T_Waiting oauth2_fields oauth2_token nat
  | T_Exchanging oauth2_fields str nat
  | T_Evicting oauth2_fields nat "(oauth2_error, str) result"
  | T_Done "(oauth2_error, str) result"
  | T_Dropped

record oauth_sys =
  os_cache :: token_cache
  os_locks :: "(token_key, nat) hash_map"
  os_next :: nat
  os_tasks :: "task_pc list"
  os_sent :: "(token_key \<times> str) list"

definition oauth_init :: oauth_sys where
  "oauth_init = \<lparr>os_cache = Map.empty, os_locks = Map.empty, os_next = 0, os_tasks = [], os_sent = []\<rparr>"

fun lock_of :: "task_pc \<Rightarrow> nat option" where
  "lock_of (T_Checking f t) = None"
| "lock_of (T_Seeding f s) = None"
| "lock_of (T_Looking f) = None"
| "lock_of (T_Waiting f t l) = Some l"
| "lock_of (T_Exchanging f rt l) = Some l"
| "lock_of (T_Evicting f l r) = Some l"
| "lock_of (T_Done r) = None"
| "lock_of T_Dropped = None"

text \<open>The lock of a key is made at its first use.\<close>

definition refresh_lock :: "token_key \<Rightarrow> oauth_sys \<Rightarrow> nat \<times> oauth_sys" where
  "refresh_lock k s =
     (case os_locks s k of
        Some l \<Rightarrow> (l, s)
      | None \<Rightarrow> (os_next s, s\<lparr>os_locks := (os_locks s)(k \<mapsto> os_next s), os_next := os_next s + 1\<rparr>))"

text \<open>The references to a lock: the entry of the table and the tasks that have it.\<close>

definition strong_count :: "token_key \<Rightarrow> nat \<Rightarrow> oauth_sys \<Rightarrow> nat" where
  "strong_count k l s =
     (if os_locks s k = Some l then 1 else 0) + length (filter (\<lambda>pc. lock_of pc = Some l) (os_tasks s))"

definition evict_refresh_lock :: "token_key \<Rightarrow> nat \<Rightarrow> oauth_sys \<Rightarrow> oauth_sys" where
  "evict_refresh_lock k l s =
     (if 2 < strong_count k l s then s
      else if os_locks s k = Some l \<and> strong_count k l s \<le> 2 then s\<lparr>os_locks := (os_locks s)(k := None)\<rparr>
      else s)"

definition set_task :: "nat \<Rightarrow> task_pc \<Rightarrow> oauth_sys \<Rightarrow> oauth_sys" where
  "set_task i pc s = s\<lparr>os_tasks := (os_tasks s)[i := pc]\<rparr>"

definition new_task :: "task_pc \<Rightarrow> oauth_sys \<Rightarrow> oauth_sys" where
  "new_task pc s = s\<lparr>os_tasks := os_tasks s @ [pc]\<rparr>"

definition lock_free :: "nat \<Rightarrow> oauth_sys \<Rightarrow> bool" where
  "lock_free l s \<longleftrightarrow> list_all (\<lambda>pc. case pc of T_Exchanging _ _ l' \<Rightarrow> l' \<noteq> l | _ \<Rightarrow> True) (os_tasks s)"

section \<open>Steps\<close>

text \<open>
  What a task does next: it is done, or it goes on, or it takes the lock of its key (made at its first
  use) to wait for it.
\<close>

definition continue_at :: "access_start \<Rightarrow> (task_pc \<Rightarrow> oauth_sys \<Rightarrow> oauth_sys) \<Rightarrow> oauth_sys \<Rightarrow> oauth_sys" where
  "continue_at st put s =
     (case st of
        Has_Result r \<Rightarrow> put (T_Done r) s
      | Check_Empty f token \<Rightarrow> put (T_Checking f token) s
      | Store_Seed f t \<Rightarrow> put (T_Seeding f t) s
      | Look_Again f \<Rightarrow> put (T_Looking f) s
      | Must_Refresh f t \<Rightarrow> (case refresh_lock (key_of f) s of (l, s') \<Rightarrow> put (T_Waiting f t l) s'))"

definition call_step :: "datetime \<Rightarrow> auth_spec \<Rightarrow> oauth_sys \<Rightarrow> oauth_sys" where
  "call_step now auth s = continue_at (first_look now auth (os_cache s)) new_task s"

definition check_step :: "nat \<Rightarrow> oauth_sys \<Rightarrow> oauth_sys option" where
  "check_step i s =
     (case os_tasks s ! i of
        T_Checking f token \<Rightarrow> Some (continue_at (check_empty f token (os_cache s)) (set_task i) s)
      | _ \<Rightarrow> None)"

definition seed_step :: "nat \<Rightarrow> oauth_sys \<Rightarrow> oauth_sys option" where
  "seed_step i s =
     (case os_tasks s ! i of
        T_Seeding f t \<Rightarrow> Some (set_task i (T_Looking f) (s\<lparr>os_cache := store_seed f t (os_cache s)\<rparr>))
      | _ \<Rightarrow> None)"

definition look_step :: "datetime \<Rightarrow> nat \<Rightarrow> oauth_sys \<Rightarrow> oauth_sys option" where
  "look_step now i s =
     (case os_tasks s ! i of
        T_Looking f \<Rightarrow> Some (continue_at (look_again now f (os_cache s)) (set_task i) s)
      | _ \<Rightarrow> None)"

definition acquire_step :: "datetime \<Rightarrow> nat \<Rightarrow> oauth_sys \<Rightarrow> oauth_sys option" where
  "acquire_step now i s =
     (case os_tasks s ! i of
        T_Waiting f t l \<Rightarrow>
          if lock_free l s then
            Some (case under_lock now f t (os_cache s) of
                    Inl r \<Rightarrow> set_task i (T_Evicting f l r) s
                  | Inr rt \<Rightarrow> (set_task i (T_Exchanging f rt l) s)\<lparr>os_sent := os_sent s @ [(key_of f, rt)]\<rparr>)
          else None
      | _ \<Rightarrow> None)"

definition answer_step :: "oauth_env \<Rightarrow> datetime \<Rightarrow> nat \<Rightarrow> answer \<Rightarrow> oauth_sys \<Rightarrow> oauth_sys option" where
  "answer_step E now i a s =
     (case os_tasks s ! i of
        T_Exchanging f rt l \<Rightarrow>
          Some (case refresh_answer E now a of
                  None \<Rightarrow> set_task i T_Dropped s
                | Some r \<Rightarrow>
                    (case after_refresh f r (os_cache s) of
                       (r', m) \<Rightarrow> set_task i (T_Evicting f l r') (s\<lparr>os_cache := m\<rparr>)))
      | _ \<Rightarrow> None)"

definition evict_step :: "nat \<Rightarrow> oauth_sys \<Rightarrow> oauth_sys option" where
  "evict_step i s =
     (case os_tasks s ! i of
        T_Evicting f l r \<Rightarrow> Some (set_task i (T_Done r) (evict_refresh_lock (key_of f) l s))
      | _ \<Rightarrow> None)"

definition drop_step :: "nat \<Rightarrow> oauth_sys \<Rightarrow> oauth_sys option" where
  "drop_step i s =
     (case os_tasks s ! i of
        T_Waiting f t l \<Rightarrow> Some (set_task i T_Dropped s)
      | T_Exchanging f rt l \<Rightarrow> Some (set_task i T_Dropped s)
      | _ \<Rightarrow> None)"

text \<open>The cache is also written by a finished authorization and cleared by the user.\<close>

inductive oauth_step :: "oauth_env \<Rightarrow> datetime \<Rightarrow> token_key set \<Rightarrow> oauth_sys \<Rightarrow> oauth_sys \<Rightarrow> bool"
  for E :: oauth_env and now :: datetime where
  Call: "oauth_step E now {} s (call_step now auth s)"
| Check: "i < length (os_tasks s) \<Longrightarrow> check_step i s = Some s' \<Longrightarrow> oauth_step E now {} s s'"
| Seed: "i < length (os_tasks s) \<Longrightarrow> seed_step i s = Some s' \<Longrightarrow> oauth_step E now {} s s'"
| Look: "i < length (os_tasks s) \<Longrightarrow> look_step now i s = Some s' \<Longrightarrow> oauth_step E now {} s s'"
| Acquire: "i < length (os_tasks s) \<Longrightarrow> acquire_step now i s = Some s' \<Longrightarrow> oauth_step E now {} s s'"
| Answer: "i < length (os_tasks s) \<Longrightarrow> answer_step E now i a s = Some s' \<Longrightarrow> oauth_step E now {} s s'"
| Evict: "i < length (os_tasks s) \<Longrightarrow> evict_step i s = Some s' \<Longrightarrow> oauth_step E now {} s s'"
| Drop: "i < length (os_tasks s) \<Longrightarrow> drop_step i s = Some s' \<Longrightarrow> oauth_step E now {} s s'"
| Clear: "oauth_step E now {(c, u)} s (s\<lparr>os_cache := clear_token c u (os_cache s)\<rparr>)"
| Authorized: "oauth_step E now {(c, u)} s (s\<lparr>os_cache := store_token c u t (os_cache s)\<rparr>)"

inductive oauth_reachable :: "oauth_env \<Rightarrow> oauth_sys \<Rightarrow> bool" for E :: oauth_env where
  Start: "oauth_reachable E oauth_init"
| Step: "oauth_reachable E s \<Longrightarrow> oauth_step E now ks s s' \<Longrightarrow> oauth_reachable E s'"

text \<open>Runs whose steps lie before a time and leave the cache entry of a key to the tasks.\<close>

inductive quiet_run :: "oauth_env \<Rightarrow> datetime \<Rightarrow> token_key \<Rightarrow> oauth_sys \<Rightarrow> oauth_sys \<Rightarrow> bool"
  for E :: oauth_env and until :: datetime and k :: token_key where
  Quiet_Here: "quiet_run E until k s s"
| Quiet_Step: "quiet_run E until k s s' \<Longrightarrow> oauth_step E now ks s' s'' \<Longrightarrow> now \<le> until \<Longrightarrow> k \<notin> ks \<Longrightarrow>
    quiet_run E until k s s''"

section \<open>One lock per key\<close>

fun wants :: "task_pc \<Rightarrow> (token_key \<times> nat) option" where
  "wants (T_Waiting f t l) = Some (key_of f, l)"
| "wants (T_Exchanging f rt l) = Some (key_of f, l)"
| "wants pc = None"

fun seeding :: "task_pc \<Rightarrow> token_key option" where
  "seeding (T_Seeding f t) = Some (key_of f)"
| "seeding pc = None"

fun exchanging :: "task_pc \<Rightarrow> token_key option" where
  "exchanging (T_Exchanging f rt l) = Some (key_of f)"
| "exchanging pc = None"

definition locks_ok :: "oauth_sys \<Rightarrow> bool" where
  "locks_ok s \<longleftrightarrow>
     (\<forall>pc \<in> set (os_tasks s). \<forall>k l. wants pc = Some (k, l) \<longrightarrow> os_locks s k = Some l)"

definition one_exchange :: "oauth_sys \<Rightarrow> bool" where
  "one_exchange s \<longleftrightarrow>
     (\<forall>i < length (os_tasks s). \<forall>j < length (os_tasks s). \<forall>k.
        exchanging (os_tasks s ! i) = Some k \<longrightarrow> exchanging (os_tasks s ! j) = Some k \<longrightarrow> i = j)"

lemma locks_okD: "locks_ok s \<Longrightarrow> pc \<in> set (os_tasks s) \<Longrightarrow> wants pc = Some (k, l) \<Longrightarrow> os_locks s k = Some l"
  unfolding locks_ok_def by blast

lemma one_exchangeD:
  "one_exchange s \<Longrightarrow> i < length (os_tasks s) \<Longrightarrow> j < length (os_tasks s) \<Longrightarrow>
   exchanging (os_tasks s ! i) = Some k \<Longrightarrow> exchanging (os_tasks s ! j) = Some k \<Longrightarrow> i = j"
  unfolding one_exchange_def by blast

lemma set_task_fields [simp]: "os_tasks (set_task i pc s) = (os_tasks s)[i := pc]"
  "os_locks (set_task i pc s) = os_locks s" "os_cache (set_task i pc s) = os_cache s"
  "os_sent (set_task i pc s) = os_sent s"
  by (simp_all add: set_task_def)

lemma inv_frames [simp]:
  "locks_ok (s\<lparr>os_sent := x\<rparr>) = locks_ok s" "one_exchange (s\<lparr>os_sent := x\<rparr>) = one_exchange s"
  "locks_ok (s\<lparr>os_cache := m\<rparr>) = locks_ok s" "one_exchange (s\<lparr>os_cache := m\<rparr>) = one_exchange s"
  by (simp_all add: locks_ok_def one_exchange_def)

lemma locks_ok_set:
  assumes "locks_ok s" "\<And>k l. wants pc = Some (k, l) \<Longrightarrow> os_locks s k = Some l"
  shows "locks_ok (set_task i pc s)"
proof -
  have "os_locks s k = Some l" if "p \<in> set ((os_tasks s)[i := pc])" "wants p = Some (k, l)" for p k l
    using set_update_subset_insert[THEN subsetD, OF that(1)] locks_okD[OF assms(1)] assms(2) that(2) by blast
  then show ?thesis unfolding locks_ok_def set_task_fields by blast
qed

lemma one_exchange_set:
  assumes "one_exchange s"
    and "\<And>k j. exchanging pc = Some k \<Longrightarrow> j < length (os_tasks s) \<Longrightarrow> exchanging (os_tasks s ! j) = Some k \<Longrightarrow> j = i"
  shows "one_exchange (set_task i pc s)"
  unfolding one_exchange_def set_task_fields length_list_update
proof (intro allI impI)
  fix a b k
  assume ab: "a < length (os_tasks s)" "b < length (os_tasks s)"
    "exchanging ((os_tasks s)[i := pc] ! a) = Some k" "exchanging ((os_tasks s)[i := pc] ! b) = Some k"
  note same = one_exchangeD[OF assms(1) ab(1,2)] and new = assms(2)[of k]
  show "a = b"
  proof (cases "a = i")
    case True
    show ?thesis
    proof (rule ccontr)
      assume "a \<noteq> b"
      then have "exchanging pc = Some k" "exchanging (os_tasks s ! b) = Some k" using ab True by simp_all
      from new[OF this(1) ab(2) this(2)] show False using True \<open>a \<noteq> b\<close> by simp
    qed
  next
    case False
    then have a: "exchanging (os_tasks s ! a) = Some k" using ab(3) by simp
    have "b \<noteq> i"
    proof
      assume "b = i"
      then have "exchanging pc = Some k" using ab by simp
      from new[OF this ab(1) a] False show False by simp
    qed
    then show ?thesis using same[OF a] ab(4) by simp
  qed
qed

lemma strong_count_three:
  assumes "os_locks s k = Some l" "i < length (os_tasks s)" "j < length (os_tasks s)" "i \<noteq> j"
    and "lock_of (os_tasks s ! i) = Some l" "lock_of (os_tasks s ! j) = Some l"
  shows "2 < strong_count k l s"
proof -
  have "card {i, j} \<le> card {n. n < length (os_tasks s) \<and> lock_of (os_tasks s ! n) = Some l}"
    by (rule card_mono) (use assms in auto)
  then show ?thesis
    using assms(1,4) by (simp add: strong_count_def length_filter_conv_card)
qed

lemma evict_tasks [simp]: "os_tasks (evict_refresh_lock k l s) = os_tasks s"
  "os_cache (evict_refresh_lock k l s) = os_cache s" "os_sent (evict_refresh_lock k l s) = os_sent s"
  by (simp_all add: evict_refresh_lock_def)

lemma evict_keeps_locks:
  assumes ok: "locks_ok s" and i: "i < length (os_tasks s)" "os_tasks s ! i = T_Evicting f l r"
  shows "locks_ok (set_task i (T_Done r) (evict_refresh_lock (key_of f) l s))"
proof -
  have "os_locks (evict_refresh_lock (key_of f) l s) k = Some l'"
    if "p \<in> set ((os_tasks s)[i := T_Done r])" "wants p = Some (k, l')" for p k l'
  proof -
    note member = that
    obtain j where u: "j < length (os_tasks s)" "(os_tasks s)[i := T_Done r] ! j = p"
      using member(1) unfolding in_set_conv_nth length_list_update by blast
    then have j: "j < length (os_tasks s)" "j \<noteq> i" "os_tasks s ! j = p"
      using that(2) by (cases "j = i"; auto)+
    then have held: "os_locks s k = Some l'" using locks_okD[OF ok _ that(2)] nth_mem by metis
    have "lock_of p = Some l'" using that(2) by (cases p) auto
    then have "2 < strong_count k l' s" if "k = key_of f" "l' = l"
      using strong_count_three[OF held i(1) j(1)] i(2) j that by auto
    then show ?thesis using held by (auto simp: evict_refresh_lock_def)
  qed
  then show ?thesis unfolding locks_ok_def set_task_fields evict_tasks(1) by blast
qed

lemma one_exchange_tasks: "os_tasks s = os_tasks s' \<Longrightarrow> one_exchange s = one_exchange s'"
  by (simp add: one_exchange_def)

lemma refresh_lock_inv:
  assumes "refresh_lock k s = (l, s')" "locks_ok s" "one_exchange s"
  shows "locks_ok s'" "one_exchange s'" "os_locks s' k = Some l"
proof -
  have "os_locks s k = None \<Longrightarrow> wants pc = Some (k', l') \<Longrightarrow> pc \<in> set (os_tasks s) \<Longrightarrow> k' \<noteq> k" for pc k' l'
    using locks_okD[OF assms(2)] by fastforce
  then show "locks_ok s'" using assms(1) locks_okD[OF assms(2)]
    by (force simp: refresh_lock_def locks_ok_def simp del: split_paired_All split: option.splits)
  show "one_exchange s'" "os_locks s' k = Some l"
    using assms by (auto simp: refresh_lock_def one_exchange_def split: option.splits)
qed

lemma new_task_inv:
  assumes "locks_ok s" "one_exchange s" "exchanging pc = None"
    and "\<And>k l. wants pc = Some (k, l) \<Longrightarrow> os_locks s k = Some l"
  shows "locks_ok (new_task pc s) \<and> one_exchange (new_task pc s)"
proof
  show "locks_ok (new_task pc s)"
    using assms(1,4) unfolding locks_ok_def new_task_def by auto
  have "a = b" if "a < length (os_tasks s) + 1" "b < length (os_tasks s) + 1"
    "exchanging ((os_tasks s @ [pc]) ! a) = Some k" "exchanging ((os_tasks s @ [pc]) ! b) = Some k" for a b k
    using that assms(3) one_exchangeD[OF assms(2), of a b k] by (auto simp: nth_append split: if_splits)
  then show "one_exchange (new_task pc s)"
    unfolding one_exchange_def new_task_def by (simp del: split_paired_All)
qed

lemma continue_inv:
  assumes "locks_ok s" "one_exchange s"
  shows "locks_ok (continue_at st new_task s) \<and> one_exchange (continue_at st new_task s)"
    and "locks_ok (continue_at st (set_task i) s) \<and> one_exchange (continue_at st (set_task i) s)"
proof -
  have put: "locks_ok (new_task pc s') \<and> one_exchange (new_task pc s')
      \<and> locks_ok (set_task i pc s') \<and> one_exchange (set_task i pc s')"
    if "locks_ok s'" "one_exchange s'" "exchanging pc = None" "\<And>k l. wants pc = Some (k, l) \<Longrightarrow> os_locks s' k = Some l"
    for pc s'
  proof (intro conjI)
    show "locks_ok (new_task pc s')" "one_exchange (new_task pc s')" using new_task_inv[OF that] by blast+
    show "locks_ok (set_task i pc s')" by (rule locks_ok_set[OF that(1,4)])
    show "one_exchange (set_task i pc s')" by (rule one_exchange_set[OF that(2)]) (simp add: that(3))
  qed
  have wait: "locks_ok (new_task (T_Waiting f t l) s') \<and> one_exchange (new_task (T_Waiting f t l) s')
      \<and> locks_ok (set_task i (T_Waiting f t l) s') \<and> one_exchange (set_task i (T_Waiting f t l) s')"
    if "refresh_lock (key_of f) s = (l, s')" for f t l s'
    using put[of s' "T_Waiting f t l"] refresh_lock_inv[OF that assms] by auto
  have all: "locks_ok (continue_at st new_task s) \<and> one_exchange (continue_at st new_task s)
      \<and> locks_ok (continue_at st (set_task i) s) \<and> one_exchange (continue_at st (set_task i) s)"
  proof (cases st)
    case (Must_Refresh f t)
    obtain l s' where r: "refresh_lock (key_of f) s = (l, s')" by fastforce
    then show ?thesis using wait[OF r] by (simp add: continue_at_def Must_Refresh)
  next
    case (Has_Result r)
    then show ?thesis using put[OF assms, of "T_Done r"] by (simp add: continue_at_def)
  next
    case (Check_Empty f t)
    then show ?thesis using put[OF assms, of "T_Checking f t"] by (simp add: continue_at_def)
  next
    case (Store_Seed f t)
    then show ?thesis using put[OF assms, of "T_Seeding f t"] by (simp add: continue_at_def)
  next
    case (Look_Again f)
    then show ?thesis using put[OF assms, of "T_Looking f"] by (simp add: continue_at_def)
  qed
  then show "locks_ok (continue_at st new_task s) \<and> one_exchange (continue_at st new_task s)"
    "locks_ok (continue_at st (set_task i) s) \<and> one_exchange (continue_at st (set_task i) s)"
    using all by blast+
qed

lemma step_inv:
  assumes "oauth_step E now ks s s'" "locks_ok s" "one_exchange s"
  shows "locks_ok s' \<and> one_exchange s'"
  using assms
proof cases
  case (Call auth)
  then show ?thesis using continue_inv(1)[OF assms(2,3)] by (simp add: call_step_def)
next
  case (Check i)
  then show ?thesis using continue_inv(2)[OF assms(2,3)] by (auto simp: check_step_def split: task_pc.splits)
next
  case (Seed i)
  then show ?thesis using assms(2,3)
    by (auto simp: seed_step_def split: task_pc.splits intro!: locks_ok_set one_exchange_set)
next
  case (Look i)
  then show ?thesis using continue_inv(2)[OF assms(2,3)] by (auto simp: look_step_def split: task_pc.splits)
next
  case (Acquire i)
  then obtain f t l where w: "os_tasks s ! i = T_Waiting f t l" "lock_free l s"
    by (auto simp: acquire_step_def split: task_pc.splits if_splits)
  have held: "os_locks s (key_of f) = Some l"
    using locks_okD[OF assms(2) nth_mem[OF Acquire(2)]] w(1) by simp
  have alone: "False" if "j < length (os_tasks s)" "exchanging (os_tasks s ! j) = Some (key_of f)" for j
  proof -
    from that(2) obtain g rt l' where x: "os_tasks s ! j = T_Exchanging g rt l'" "key_of g = key_of f"
      by (cases "os_tasks s ! j") auto
    then have "os_locks s (key_of g) = Some l'"
      using locks_okD[OF assms(2) nth_mem[OF that(1)]] by simp
    then have "l' = l" using held x(2) by simp
    then show False using w(2) nth_mem[OF that(1)] x(1) by (auto simp: lock_free_def list_all_iff)
  qed
  show ?thesis
    using Acquire w held assms(2,3) alone
    by (auto simp: acquire_step_def split: sum.splits intro!: locks_ok_set one_exchange_set) blast
next
  case (Answer i a)
  then obtain f rt l where x: "os_tasks s ! i = T_Exchanging f rt l"
    by (auto simp: answer_step_def split: task_pc.splits)
  show ?thesis
    using Answer x assms(2,3)
    by (auto simp: answer_step_def split: option.splits prod.splits intro!: locks_ok_set one_exchange_set)
next
  case (Evict i)
  then obtain f l r where e: "os_tasks s ! i = T_Evicting f l r"
    "s' = set_task i (T_Done r) (evict_refresh_lock (key_of f) l s)"
    by (auto simp: evict_step_def split: task_pc.splits)
  have "one_exchange (evict_refresh_lock (key_of f) l s)"
    using assms(3) one_exchange_tasks evict_tasks(1) by metis
  then show ?thesis
    using evict_keeps_locks[OF assms(2) Evict(2) e(1)] e(2) by (auto intro: one_exchange_set)
next
  case (Drop i)
  then show ?thesis using assms(2,3)
    by (auto simp: drop_step_def split: task_pc.splits intro!: locks_ok_set one_exchange_set)
qed (auto simp: locks_ok_def one_exchange_def simp del: split_paired_All)

lemma reachable_inv: "oauth_reachable E s \<Longrightarrow> locks_ok s \<and> one_exchange s"
proof (induction rule: oauth_reachable.induct)
  case Start
  show ?case by (simp add: oauth_init_def locks_ok_def one_exchange_def)
next
  case (Step s now ks s')
  then show ?case using step_inv by blast
qed

section \<open>A usable token is shared\<close>

definition sent_for :: "token_key \<Rightarrow> oauth_sys \<Rightarrow> (token_key \<times> str) list" where
  "sent_for k s = filter (\<lambda>(k', rt). k' = k) (os_sent s)"

definition settled :: "token_key \<Rightarrow> oauth2_token \<Rightarrow> oauth_sys \<Rightarrow> bool" where
  "settled k t s \<longleftrightarrow> os_cache s k = Some t
     \<and> (\<forall>pc \<in> set (os_tasks s). exchanging pc \<noteq> Some k \<and> seeding pc \<noteq> Some k)"

lemma usable_before: "usable until t \<Longrightarrow> now \<le> until \<Longrightarrow> usable now t"
  by (simp add: usable_def is_expired_def expires_within_def)

lemma settled_set:
  "settled k t s \<Longrightarrow> exchanging pc \<noteq> Some k \<Longrightarrow> seeding pc \<noteq> Some k \<Longrightarrow> settled k t (set_task i pc s)"
  unfolding settled_def set_task_fields using set_update_subset_insert[of "os_tasks s" i pc] by blast

lemma settled_frame [simp]: "settled k t (s\<lparr>os_sent := x\<rparr>) = settled k t s"
  by (simp add: settled_def)

lemma continue_settled:
  assumes "settled k t s" "\<And>f u. st = Store_Seed f u \<Longrightarrow> key_of f \<noteq> k"
  shows "settled k t (continue_at st new_task s) \<and> sent_for k (continue_at st new_task s) = sent_for k s"
    and "settled k t (continue_at st (set_task i) s) \<and> sent_for k (continue_at st (set_task i) s) = sent_for k s"
proof -
  have lock: "settled k t s'" "sent_for k s' = sent_for k s" if "refresh_lock k' s = (l, s')" for k' l s'
    using that assms(1) by (auto simp: refresh_lock_def settled_def sent_for_def split: option.splits)
  have put: "settled k t (new_task pc s') \<and> settled k t (set_task i pc s')
      \<and> sent_for k (new_task pc s') = sent_for k s' \<and> sent_for k (set_task i pc s') = sent_for k s'"
    if "settled k t s'" "exchanging pc = None" "seeding pc \<noteq> Some k" for pc s'
    using that settled_set[OF that(1), of pc i] by (auto simp: settled_def new_task_def sent_for_def)
  show "settled k t (continue_at st new_task s) \<and> sent_for k (continue_at st new_task s) = sent_for k s"
    "settled k t (continue_at st (set_task i) s) \<and> sent_for k (continue_at st (set_task i) s) = sent_for k s"
    using put[OF assms(1)] put[OF lock(1)] lock(2) assms(2)
    by (cases st; simp add: continue_at_def split: prod.split)+
qed

lemma no_seed_when_cached:
  "settled k t s \<Longrightarrow> check_empty f token (os_cache s) = Store_Seed g u \<Longrightarrow> key_of g \<noteq> k"
  by (auto simp: check_empty_def cached_token_def settled_def split: if_splits option.splits)

lemma first_look_no_seed: "first_look now auth m \<noteq> Store_Seed f u" "look_again now g m \<noteq> Store_Seed f u"
  by (auto simp: first_look_def look_again_def Let_def split: sum.split option.split)

lemma step_settled:
  assumes "oauth_step E now ks s s'" "settled k t s" "usable now t" "k \<notin> ks"
  shows "settled k t s' \<and> sent_for k s' = sent_for k s"
  using assms
proof cases
  case (Call auth)
  have "settled k t (continue_at (first_look now auth (os_cache s)) new_task s)
      \<and> sent_for k (continue_at (first_look now auth (os_cache s)) new_task s) = sent_for k s"
    by (rule continue_settled(1)[OF assms(2)]) (simp add: first_look_no_seed(1))
  with Call show ?thesis by (simp add: call_step_def)
next
  case (Check i)
  then obtain f token where x: "os_tasks s ! i = T_Checking f token"
    by (auto simp: check_step_def split: task_pc.splits)
  have "settled k t (continue_at (check_empty f token (os_cache s)) (set_task i) s)
      \<and> sent_for k (continue_at (check_empty f token (os_cache s)) (set_task i) s) = sent_for k s"
    by (rule continue_settled(2)[OF assms(2) no_seed_when_cached[OF assms(2)]])
  with Check x show ?thesis by (simp add: check_step_def)
next
  case (Seed i)
  then obtain f u where x: "os_tasks s ! i = T_Seeding f u"
    by (auto simp: seed_step_def split: task_pc.splits)
  have "key_of f \<noteq> k" using assms(2) nth_mem[OF Seed(2)] x by (auto simp: settled_def)
  then have "settled k t (s\<lparr>os_cache := store_seed f u (os_cache s)\<rparr>)"
    using assms(2) by (auto simp: settled_def store_seed_def store_token_def)
  then show ?thesis using Seed x by (auto simp: seed_step_def sent_for_def intro!: settled_set)
next
  case (Look i)
  then obtain f where x: "os_tasks s ! i = T_Looking f"
    by (auto simp: look_step_def split: task_pc.splits)
  have "settled k t (continue_at (look_again now f (os_cache s)) (set_task i) s)
      \<and> sent_for k (continue_at (look_again now f (os_cache s)) (set_task i) s) = sent_for k s"
    by (rule continue_settled(2)[OF assms(2)]) (simp add: first_look_no_seed(2))
  with Look x show ?thesis by (simp add: look_step_def)
next
  case (Acquire i)
  then obtain f t' l where w: "os_tasks s ! i = T_Waiting f t' l"
    by (auto simp: acquire_step_def split: task_pc.splits)
  have "under_lock now f t' (os_cache s) = Inl (Ok (ot_access_token t))" if "key_of f = k"
    using that assms(2,3) by (auto simp: under_lock_def settled_def cached_token_def)
  then show ?thesis
    using Acquire w assms(2)
    by (auto simp: acquire_step_def sent_for_def split: sum.splits if_splits intro!: settled_set)
next
  case (Answer i a)
  then obtain f rt l where x: "os_tasks s ! i = T_Exchanging f rt l"
    by (auto simp: answer_step_def split: task_pc.splits)
  have "key_of f \<noteq> k"
    using assms(2) nth_mem[OF Answer(2)] x by (auto simp: settled_def)
  then have "settled k t (s\<lparr>os_cache := snd (after_refresh f r (os_cache s))\<rparr>)" for r
    using assms(2) by (auto simp: settled_def after_refresh_def store_token_def split: sum.split)
  then show ?thesis
    using Answer x assms(2)
    by (auto simp: answer_step_def sent_for_def split: option.splits prod.splits intro!: settled_set)
      (metis snd_conv)
next
  case (Evict i)
  have "settled k t (evict_refresh_lock k' l s)" for k' l
    using assms(2) by (simp add: settled_def)
  then show ?thesis using Evict
    by (auto simp: evict_step_def sent_for_def split: task_pc.splits intro!: settled_set)
next
  case (Drop i)
  then show ?thesis using assms(2)
    by (auto simp: drop_step_def sent_for_def split: task_pc.splits intro!: settled_set)
next
  case (Clear c u)
  then show ?thesis using assms(2,4) by (auto simp: settled_def clear_token_def sent_for_def)
next
  case (Authorized c u t)
  then show ?thesis using assms(2,4) by (auto simp: settled_def store_token_def sent_for_def)
qed

lemma run_settled:
  "quiet_run E until k s s' \<Longrightarrow> settled k t s \<Longrightarrow> usable until t \<Longrightarrow>
   settled k t s' \<and> sent_for k s' = sent_for k s"
proof (induction rule: quiet_run.induct)
  case (Quiet_Step s s' now ks s'')
  then show ?case using step_settled usable_before by metis
qed simp

section \<open>Properties\<close>

text \<open>
  C29: However the calls interleave, and whichever of them are dropped, at most one task exchanges a refresh
  token of a key at a time.
\<close>

theorem one_refresh_in_flight:
  assumes "oauth_reachable E s" "i < length (os_tasks s)" "j < length (os_tasks s)"
    and "os_tasks s ! i = T_Exchanging f rt l" "os_tasks s ! j = T_Exchanging g rt' l'"
    and "key_of f = key_of g"
  shows "i = j"
  using one_exchangeD[of s i j "key_of f"] reachable_inv[OF assms(1)] assms(2-) by simp

definition demo_oauth :: auth_spec where
  "demo_oauth = OAuth2 ''c'' [] [] ''u'' [] [] (Some \<lparr>ot_access_token = ''a'', ot_token_type = ''Bearer'',
     ot_refresh_token = Some ''r'', ot_expires_at = 0\<rparr>)"

text \<open>The task \<open>i\<close> starts a call and runs to the point where it waits for the lock, with nobody in between.\<close>

definition seeded :: "nat \<Rightarrow> oauth_sys \<Rightarrow> oauth_sys" where
  "seeded i s = (case seed_step i s of Some s' \<Rightarrow> s' | None \<Rightarrow> s)"

definition demo_checked :: "nat \<Rightarrow> oauth_sys \<Rightarrow> oauth_sys" where
  "demo_checked i s = the (check_step i (call_step 10 demo_oauth s))"

definition demo_start :: "nat \<Rightarrow> oauth_sys \<Rightarrow> oauth_sys" where
  "demo_start i s = the (look_step 10 i (seeded i (demo_checked i s)))"

definition demo_first :: oauth_sys where
  "demo_first = the (acquire_step 10 0 (demo_start 0 oauth_init))"

definition demo_sys :: oauth_sys where
  "demo_sys = demo_start 1 demo_first"

definition demo_oauth_env :: oauth_env where
  "demo_oauth_env = \<lparr>oe_json_parse = \<lambda>s. Ok (JObject [(''access_token'', JString ''b''), (''expires_in'', JNumber (PosInt 3600))]),
     oe_form = \<lambda>s. [], oe_after = \<lambda>now n. Some (now + seconds n)\<rparr>"

definition demo_fields :: oauth2_fields where
  "demo_fields = \<lparr>of_client_id = ''c'', of_client_secret = [], of_auth_url = [], of_token_url = ''u'',
     of_scope = [], of_redirect_uri = DEFAULT_REDIRECT_URI\<rparr>"

lemma demo_start_reachable:
  assumes "oauth_reachable demo_oauth_env s"
    and "check_step i (call_step 10 demo_oauth s) \<noteq> None" "i < length (os_tasks (call_step 10 demo_oauth s))"
    and "i < length (os_tasks (demo_checked i s))"
    and "look_step 10 i (seeded i (demo_checked i s)) \<noteq> None"
    and "i < length (os_tasks (seeded i (demo_checked i s)))"
  shows "oauth_reachable demo_oauth_env (demo_start i s)"
proof -
  have "oauth_step demo_oauth_env 10 {} (call_step 10 demo_oauth s) (demo_checked i s)"
    unfolding demo_checked_def using assms(2,3) by (intro oauth_step.Check) auto
  then have c: "oauth_reachable demo_oauth_env (demo_checked i s)"
    using oauth_reachable.Step[OF assms(1) oauth_step.Call] oauth_reachable.Step by blast
  have "oauth_reachable demo_oauth_env (seeded i (demo_checked i s))"
  proof (cases "seed_step i (demo_checked i s)")
    case None
    then show ?thesis using c by (simp add: seeded_def)
  next
    case (Some s')
    show ?thesis
      using oauth_reachable.Step[OF c oauth_step.Seed[OF assms(4) Some]] by (simp add: seeded_def Some)
  qed
  moreover have "oauth_step demo_oauth_env 10 {} (seeded i (demo_checked i s)) (demo_start i s)"
    unfolding demo_start_def using assms(5,6) by (intro oauth_step.Look) auto
  ultimately show ?thesis using oauth_reachable.Step by blast
qed

lemma demo_oauth_reachable: "oauth_reachable demo_oauth_env demo_sys"
proof -
  have "check_step 0 (call_step 10 demo_oauth oauth_init) \<noteq> None" "0 < length (os_tasks (call_step 10 demo_oauth oauth_init))"
    "0 < length (os_tasks (demo_checked 0 oauth_init))" "look_step 10 0 (seeded 0 (demo_checked 0 oauth_init)) \<noteq> None"
    "0 < length (os_tasks (seeded 0 (demo_checked 0 oauth_init)))"
    by code_simp+
  from demo_start_reachable[OF oauth_reachable.Start this]
  have one: "oauth_reachable demo_oauth_env (demo_start 0 oauth_init)" .
  have "acquire_step 10 0 (demo_start 0 oauth_init) \<noteq> None" "0 < length (os_tasks (demo_start 0 oauth_init))"
    by code_simp+
  then have "oauth_step demo_oauth_env 10 {} (demo_start 0 oauth_init) demo_first"
    unfolding demo_first_def by (intro oauth_step.Acquire[of 0]) auto
  from oauth_reachable.Step[OF one this] have two: "oauth_reachable demo_oauth_env demo_first" .
  have "check_step 1 (call_step 10 demo_oauth demo_first) \<noteq> None" "1 < length (os_tasks (call_step 10 demo_oauth demo_first))"
    "1 < length (os_tasks (demo_checked 1 demo_first))" "look_step 10 1 (seeded 1 (demo_checked 1 demo_first)) \<noteq> None"
    "1 < length (os_tasks (seeded 1 (demo_checked 1 demo_first)))"
    by code_simp+
  from demo_start_reachable[OF two this] show ?thesis unfolding demo_sys_def .
qed

theorem one_refresh_in_flight_witness:
  "os_tasks demo_sys ! 0 = T_Exchanging demo_fields ''r'' 0
   \<and> (\<nexists>rt l. os_tasks demo_sys ! 1 = T_Exchanging demo_fields rt l)"
proof -
  have first: "os_tasks demo_sys ! 0 = T_Exchanging demo_fields ''r'' 0"
    "0 < length (os_tasks demo_sys)" "1 < length (os_tasks demo_sys)"
    by code_simp+
  then show ?thesis
    using one_refresh_in_flight[OF demo_oauth_reachable first(2,3,1)] by auto
qed

text \<open>
  C30: A refresh is done once and shared. A task exchanges a refresh token, in whatever interleaving the
  system has reached, and the answer brings the token \<open>t\<close>, usable until a time; no other task is about to
  store the token of its specification under the same key (a race that the code allows,
  \<open>stale_seed_overwrites\<close>), and until that time nobody clears the entry of the key or authorizes it
  anew. Then until that time, however the calls interleave and whichever of them are dropped, \<open>t\<close> stays
  in the cache and no task sends a refresh request for the key; the task itself ends with \<open>t\<close>; and a
  task that waited for the lock of the key, when it gets it, takes \<open>t\<close> as its result without sending
  anything.
\<close>

theorem refreshed_token_shared:
  assumes "oauth_reachable E s0" "i < length (os_tasks s0)" "os_tasks s0 ! i = T_Exchanging f rt l"
    and "refresh_answer E now a = Some (Ok t)" "answer_step E now i a s0 = Some s"
    and "\<forall>pc \<in> set (os_tasks s0). seeding pc \<noteq> Some (key_of f)"
    and "quiet_run E until (key_of f) s s'" "usable until t"
  shows "os_cache s' (key_of f) = Some t \<and> sent_for (key_of f) s' = sent_for (key_of f) s0
    \<and> os_tasks s ! i = T_Evicting f l (Ok (ot_access_token t))
    \<and> (\<forall>j later g old l'. os_tasks s' ! j = T_Waiting g old l' \<and> key_of g = key_of f \<and> lock_free l' s' \<and> later \<le> until
         \<longrightarrow> acquire_step later j s' = Some (set_task j (T_Evicting g l' (Ok (ot_access_token t))) s'))"
proof -
  have s: "s = set_task i (T_Evicting f l (Ok (ot_access_token t)))
      (s0\<lparr>os_cache := store_token (of_client_id f) (of_token_url f) t (os_cache s0)\<rparr>)"
    using assms(3-5) by (simp add: answer_step_def after_refresh_def)
  have others: "exchanging pc \<noteq> Some (key_of f) \<and> seeding pc \<noteq> Some (key_of f)" if "pc \<in> set (os_tasks s)" for pc
  proof -
    obtain j where j: "j < length (os_tasks s0)" "os_tasks s ! j = pc"
      using \<open>pc \<in> set (os_tasks s)\<close> by (auto simp: s in_set_conv_nth)
    show ?thesis
    proof (cases "j = i")
      case True
      then show ?thesis using j by (auto simp: s)
    next
      case False
      then have "os_tasks s0 ! j = pc" using j by (simp add: s)
      moreover have "exchanging (os_tasks s0 ! j) \<noteq> Some (key_of f)"
        using one_exchangeD[of s0 i j "key_of f"] reachable_inv[OF assms(1)] assms(2,3) j(1) False by auto
      ultimately show ?thesis using assms(6) nth_mem[OF j(1)] by auto
    qed
  qed
  have "settled (key_of f) t s"
    using others by (simp add: settled_def s store_token_def)
  from run_settled[OF assms(7) this assms(8)] have
    fin: "settled (key_of f) t s'" "sent_for (key_of f) s' = sent_for (key_of f) s" by simp_all
  have "acquire_step later j s' = Some (set_task j (T_Evicting g l' (Ok (ot_access_token t))) s')"
    if "os_tasks s' ! j = T_Waiting g old l'" "key_of g = key_of f" "lock_free l' s'" "later \<le> until" for j later g old l'
    using that fin(1) usable_before[OF assms(8) that(4)]
    by (simp add: acquire_step_def under_lock_def settled_def cached_token_def)
  then show ?thesis using fin assms(2) by (simp add: settled_def s sent_for_def)
qed

definition demo_waiting :: oauth_sys where
  "demo_waiting = the (answer_step demo_oauth_env 10 0 (Ok (200, [])) demo_sys)"

theorem refreshed_token_shared_witness:
  "os_tasks (the (acquire_step 20 1 demo_waiting)) ! 1 = T_Evicting demo_fields 0 (Ok ''b'')
   \<and> sent_for (''c'', ''u'') demo_waiting = [((''c'', ''u''), ''r'')]"
proof -
  let ?t = "\<lparr>ot_access_token = ''b'', ot_token_type = ''Bearer'', ot_refresh_token = None,
    ot_expires_at = 10 + seconds 3600\<rparr>"
  have first: "0 < length (os_tasks demo_sys)" "os_tasks demo_sys ! 0 = T_Exchanging demo_fields ''r'' 0"
    "refresh_answer demo_oauth_env 10 (Ok (200, [])) = Some (Ok ?t)"
    "\<forall>pc \<in> set (os_tasks demo_sys). seeding pc \<noteq> Some (key_of demo_fields)" "usable 100 ?t"
    by code_simp+
  have "answer_step demo_oauth_env 10 0 (Ok (200, [])) demo_sys \<noteq> None" by code_simp
  then have answer: "answer_step demo_oauth_env 10 0 (Ok (200, [])) demo_sys = Some demo_waiting"
    by (auto simp: demo_waiting_def)
  have waiting: "os_tasks demo_waiting ! 1 = T_Waiting demo_fields (the (oa_token demo_oauth)) 0"
    "lock_free 0 demo_waiting" "1 < length (os_tasks demo_waiting)" "key_of demo_fields = (''c'', ''u'')"
    "sent_for (''c'', ''u'') demo_sys = [((''c'', ''u''), ''r'')]"
    by code_simp+
  note shared = refreshed_token_shared[OF demo_oauth_reachable first(1-3) answer first(4) quiet_run.Quiet_Here first(5)]
  have "acquire_step 20 1 demo_waiting = Some (set_task 1 (T_Evicting demo_fields 0 (Ok ''b'')) demo_waiting)"
    using shared[THEN conjunct2, THEN conjunct2, THEN conjunct2, rule_format, of 1 demo_fields _ 0 20] waiting by simp
  moreover have "sent_for (''c'', ''u'') demo_waiting = [((''c'', ''u''), ''r'')]"
    using shared[THEN conjunct2, THEN conjunct1] waiting(4,5) by simp
  ultimately show ?thesis using waiting(3) by simp
qed

text \<open>
  A task that found the cache empty stores the token of its specification whatever is in the cache by
  then: in this run an authorization has put a new token there, and the old one replaces it.
\<close>

lemma stale_seed_overwrites:
  fixes fresh :: oauth2_token
  defines "s \<equiv> (demo_checked 0 oauth_init)\<lparr>os_cache := store_token ''c'' ''u'' fresh (os_cache (demo_checked 0 oauth_init))\<rparr>"
  shows "oauth_reachable demo_oauth_env s \<and> os_cache s (''c'', ''u'') = Some fresh
    \<and> os_cache (the (seed_step 0 s)) (''c'', ''u'') = oa_token demo_oauth"
proof -
  have enabled: "check_step 0 (call_step 10 demo_oauth oauth_init) \<noteq> None" "0 < length (os_tasks (call_step 10 demo_oauth oauth_init))"
    by code_simp+
  have "oauth_step demo_oauth_env 10 {} (call_step 10 demo_oauth oauth_init) (demo_checked 0 oauth_init)"
    unfolding demo_checked_def using enabled by (intro oauth_step.Check) auto
  then have "oauth_reachable demo_oauth_env (demo_checked 0 oauth_init)"
    using oauth_reachable.Step[OF oauth_reachable.Start oauth_step.Call] oauth_reachable.Step by blast
  then have "oauth_reachable demo_oauth_env s"
    unfolding s_def by (rule oauth_reachable.Step[OF _ oauth_step.Authorized])
  moreover have "os_tasks (demo_checked 0 oauth_init) ! 0 = T_Seeding demo_fields (the (oa_token demo_oauth))"
    by code_simp
  moreover have "key_of demo_fields = (''c'', ''u'')" "oa_token demo_oauth \<noteq> None" by code_simp+
  ultimately show ?thesis
    by (simp add: s_def seed_step_def store_seed_def store_token_def)
qed

text \<open>
  A refresh whose answer brings no new refresh token loses the old one: the stored token has none, and
  when it expires every call, whatever token its own specification still holds, ends unauthorized.
\<close>

theorem refresh_loses_refresh_token:
  assumes "oe_json_parse E body = Ok v" "json_get ''refresh_token'' v = None"
    and "refresh_answer E now (Ok (200, body)) = Some (Ok fresh)"
    and "oauth2_fields_of auth = Ok f" "ot_expires_at fresh \<le> later"
  shows "let m' = snd (after_refresh f (Ok fresh) m)
    in access_token_start later auth m' = (Must_Refresh f fresh, m')
       \<and> under_lock later f fresh m' = Inl (Err (OE_Unauthorized (Msg ''there is no refresh_token'' [])))"
proof -
  obtain r where r: "parse_token_json E now v = Some r"
    "(case r of Inl m \<Rightarrow> Err (OE_Refresh m) | Inr t \<Rightarrow> Ok t) = Ok fresh"
    using assms(1,3) by (auto simp: refresh_answer_def is_success_def parse_token_payload_def)
  then have "parse_token_json E now v = Some (Ok fresh)" by (cases r) auto
  then have none: "ot_refresh_token fresh = None"
    using assms(2) by (auto simp: parse_token_json_def token_until_def opt_bind_def split: option.splits)
  show ?thesis
    using assms(4,5) none
    by (simp add: after_refresh_def access_token_start_def first_look_def check_empty_def look_again_def under_lock_def
        cached_token_def store_token_def usable_def is_expired_def Let_def)
qed

theorem refresh_loses_refresh_token_witness:
  "under_lock (10 + seconds 3600) demo_fields
     \<lparr>ot_access_token = ''b'', ot_token_type = ''Bearer'', ot_refresh_token = None, ot_expires_at = 10 + seconds 3600\<rparr>
     ((os_cache demo_waiting)((''c'', ''u'') \<mapsto>
       \<lparr>ot_access_token = ''b'', ot_token_type = ''Bearer'', ot_refresh_token = None, ot_expires_at = 10 + seconds 3600\<rparr>))
   = Inl (Err (OE_Unauthorized (Msg ''there is no refresh_token'' [])))"
proof -
  let ?t = "\<lparr>ot_access_token = ''b'', ot_token_type = ''Bearer'', ot_refresh_token = None,
    ot_expires_at = 10 + seconds 3600\<rparr>"
  have "oe_json_parse demo_oauth_env [] = Ok (JObject [(''access_token'', JString ''b''), (''expires_in'', JNumber (PosInt 3600))])"
    by (simp add: demo_oauth_env_def)
  moreover have "json_get ''refresh_token'' (JObject [(''access_token'', JString ''b''), (''expires_in'', JNumber (PosInt 3600))]) = None"
    by code_simp
  moreover have "refresh_answer demo_oauth_env 10 (Ok (200, [])) = Some (Ok ?t)" by code_simp
  moreover have "oauth2_fields_of demo_oauth = Ok demo_fields" by code_simp
  ultimately have "under_lock (10 + seconds 3600) demo_fields ?t (snd (after_refresh demo_fields (Ok ?t) (os_cache demo_waiting)))
      = Inl (Err (OE_Unauthorized (Msg ''there is no refresh_token'' [])))"
    using refresh_loses_refresh_token[of demo_oauth_env "[]" _ 10 ?t demo_oauth demo_fields "10 + seconds 3600" "os_cache demo_waiting"]
    by (simp add: Let_def)
  then show ?thesis by (simp add: after_refresh_def store_token_def demo_fields_def)
qed

text \<open>
  An authorization yields a token only for a callback with the state of this authorization: the first
  callback that arrives has it, its code is the one exchanged, and only the entry of this client changes.
\<close>

theorem authorize_checks_state:
  assumes "authorize E W auth m = Some (Ok t, m')"
  shows "\<exists>f params later code.
    oauth2_fields_of auth = Ok f \<and> aw_callbacks W = params # later
    \<and> params ''state'' = Some (aw_state W) \<and> params ''code'' = Some code
    \<and> code_answer E (aw_now W) (aw_post W (of_token_url f) (code_form f code)) = Some (Ok t)
    \<and> m' = m(key_of f \<mapsto> t)"
proof -
  from assms obtain f where f: "oauth2_fields_of auth = Ok f" "authorize_steps E W f m = Some (Ok t, m')"
    by (auto simp: authorize_def split: sum.splits if_splits)
  then obtain params later code where c: "aw_callbacks W = params # later"
    "callback_message (aw_state W) params = Ok code"
    "code_answer E (aw_now W) (aw_post W (of_token_url f) (code_form f code)) = Some (Ok t)"
    "m' = store_token (of_client_id f) (of_token_url f) t m"
    by (auto simp: authorize_steps_def split: sum.splits option.splits list.splits prod.splits)
  then have "params ''state'' = Some (aw_state W)" "params ''code'' = Some code"
    by (auto simp: callback_message_def split: option.splits if_splits)
  then show ?thesis using f(1) c by (auto simp: store_token_def)
qed

definition demo_world :: authorize_world where
  "demo_world = \<lparr>aw_state = ''s1'', aw_parse_auth_url = (\<lambda>u. Ok ()),
     aw_parse_redirect = (\<lambda>u. Ok \<lparr>cu_host = Some ''localhost'', cu_port = None, cu_path = ''/callback''\<rparr>),
     aw_bind = [(Addr_In_Use [], True), (Bound, True)], aw_open = (\<lambda>u q. Ok ()),
     aw_callbacks = [map_of [(''state'', ''s1''), (''code'', ''k'')]],
     aw_post = (\<lambda>u form. Ok (200, [])), aw_now = 10\<rparr>"

theorem authorize_checks_state_witness:
  "\<exists>params. aw_callbacks demo_world = [params] \<and> params ''state'' = Some ''s1''"
proof -
  let ?t = "\<lparr>ot_access_token = ''b'', ot_token_type = ''Bearer'', ot_refresh_token = None,
    ot_expires_at = 10 + seconds 3600\<rparr>"
  have run: "authorize demo_oauth_env demo_world (OAuth2 ''c'' [] ''https://a'' ''u'' [] [] None) Map.empty
      = Some (Ok ?t, store_token ''c'' ''u'' ?t Map.empty)"
    by (simp add: authorize_def authorize_steps_def oauth2_fields_of_def demo_world_def redirect_binding_def
        callback_message_def code_answer_def is_success_def parse_token_payload_def parse_token_json_def
        demo_oauth_env_def token_until_def opt_bind_def json_get_def json_str_def expires_in_of_def json_i64_def
        trim_def trim_start_def strip_all.simps ws_seqs_def trim_end_def)
  obtain params where "aw_callbacks demo_world = params # []" "params ''state'' = Some (aw_state demo_world)"
    using authorize_checks_state[OF run] by (auto simp: demo_world_def)
  then show ?thesis by (simp add: demo_world_def)
qed

end
