(* ===== verification/ImportDoc.thy ===== *)
theory ImportDoc
  imports Model
begin

text \<open>
  What the importers of API documents share (\<open>crates/fox-openapi/src/import.rs\<close>): the conflict
  strategies, the endpoints and examples an import yields before they are stored, the format
  detection, and the way a document text becomes a value. The JSON and YAML readers and the
  printers are \<open>serde_json\<close> and \<open>serde_norway\<close>, fields of \<open>doc_env\<close>: \<open>de_json\<close> and \<open>de_yaml\<close> read
  a text, \<open>de_compact\<close> is \<open>Value::to_string\<close> and \<open>de_pretty\<close> is \<open>to_string_pretty\<close>.
\<close>

record doc_env =
  de_json :: "str \<Rightarrow> (str, json) result"
  de_yaml :: "str \<Rightarrow> (str, json) result"
  de_compact :: "json \<Rightarrow> str"
  de_pretty :: "json \<Rightarrow> str"

section \<open>Conflict strategies\<close>

datatype conflict_strategy = CS_Skip | CS_Overwrite | CS_Duplicate

definition from_str_cn :: "str \<Rightarrow> conflict_strategy option" where
  "from_str_cn s =
     (if s = ''skip'' then Some CS_Skip
      else if s = ''overwrite'' then Some CS_Overwrite
      else if s = ''duplicate'' then Some CS_Duplicate
      else None)"

fun strategy_as_str :: "conflict_strategy \<Rightarrow> str" where
  "strategy_as_str CS_Skip = ''skip''"
| "strategy_as_str CS_Overwrite = ''overwrite''"
| "strategy_as_str CS_Duplicate = ''duplicate''"

fun strategy_label :: "conflict_strategy \<Rightarrow> str" where
  "strategy_label CS_Skip = (bytes [232, 183, 179, 232, 191, 135])"
| "strategy_label CS_Overwrite = (bytes [232, 166, 134, 231, 155, 150])"
| "strategy_label CS_Duplicate = (bytes [229, 164, 141, 229, 136, 182])"

lemma strategy_name_reads_back: "from_str_cn (strategy_as_str s) = Some s"
  by (cases s) (simp_all add: from_str_cn_def)

section \<open>Imported data\<close>

record imported_example =
  ie_name :: str
  ie_status :: u16
  ie_content_type :: str
  ie_headers :: "str str_table"
  ie_body :: str

record imported_endpoint =
  im_name :: str
  im_method :: http_method
  im_path :: str
  im_description :: str
  im_request :: request_spec
  im_examples :: "imported_example list"
  im_folder_hint :: "str option"

section \<open>Reading a document\<close>

definition parse_value :: "doc_env \<Rightarrow> str \<Rightarrow> (app_error, json) result" where
  "parse_value E text =
     (case de_json E (trim_start text) of
        Inr v \<Rightarrow> Ok v
      | Inl _ \<Rightarrow> (case de_yaml E text of
                   Inr v \<Rightarrow> Ok v
                 | Inl e \<Rightarrow> Err (Validation (Msg ''not a valid JSON or YAML document'' [e]))))"

text \<open>The accessors the readers chain: an entry of an object as a text or a flag, with the default
  the code gives it.\<close>

definition obj_str_opt :: "(str \<times> json) list \<Rightarrow> str \<Rightarrow> str option" where
  "obj_str_opt o1 k = Option.bind (map_of o1 k) as_str_json"

definition obj_str :: "(str \<times> json) list \<Rightarrow> str \<Rightarrow> str" where
  "obj_str o1 k = (case obj_str_opt o1 k of Some s \<Rightarrow> s | None \<Rightarrow> [])"

definition obj_flag :: "(str \<times> json) list \<Rightarrow> str \<Rightarrow> bool" where
  "obj_flag o1 k = (case map_of o1 k of Some (JBool b) \<Rightarrow> b | _ \<Rightarrow> False)"

definition obj_array :: "(str \<times> json) list \<Rightarrow> str \<Rightarrow> json list option" where
  "obj_array o1 k = Option.bind (map_of o1 k) as_array"

definition value_as_object :: "json \<Rightarrow> (str \<times> json) list option" where
  "value_as_object v = (case v of JObject kvs \<Rightarrow> Some kvs | _ \<Rightarrow> None)"

fun find_map :: "('a \<Rightarrow> 'b option) \<Rightarrow> 'a list \<Rightarrow> 'b option" where
  "find_map f [] = None"
| "find_map f (x # xs) = (case f x of Some y \<Rightarrow> Some y | None \<Rightarrow> find_map f xs)"

lemma value_as_object_simps [simp]: "value_as_object (JObject kvs) = Some kvs"
  by (simp add: value_as_object_def)

lemma obj_array_JArray: "map_of o1 k = Some (JArray xs) \<Longrightarrow> obj_array o1 k = Some xs"
  by (simp add: obj_array_def as_array_def)

lemma find_map_Some: "find_map f xs = Some y \<Longrightarrow> \<exists>x \<in> set xs. f x = Some y"
  by (induction xs) (auto split: option.splits)

text \<open>An object entry is smaller than the object: the recursion of the readers ends.\<close>

lemma size_entry: "(k, v) \<in> set kvs \<Longrightarrow> size v < size (JObject kvs)"
  by (induction kvs) auto

lemma size_element: "v \<in> set xs \<Longrightarrow> size v < size (JArray xs)"
  by (induction xs) auto

lemma size_array_entry:
  "map_of kvs k = Some (JArray xs) \<Longrightarrow> v \<in> set xs \<Longrightarrow> size v < size (JObject kvs)"
  using size_entry[of k "JArray xs" kvs] size_element[of v xs] by (auto dest: map_of_SomeD)

definition value_to_string :: "doc_env \<Rightarrow> json \<Rightarrow> str" where
  "value_to_string E v =
     (case v of JString s \<Rightarrow> s | JNull \<Rightarrow> [] | _ \<Rightarrow> de_compact E v)"

section \<open>Format detection\<close>

datatype import_format = OpenApi30 | OpenApi31 | Swagger20 | Postman21 | Unknown_Format

fun format_label :: "import_format \<Rightarrow> str" where
  "format_label OpenApi30 = ''OpenAPI 3.0''"
| "format_label OpenApi31 = (''OpenAPI 3.1'' @ bytes [239, 188, 136, 229, 183, 178, 232, 189, 172, 230, 141, 162, 228, 184, 186] @ '' 3.0 '' @ bytes [229, 173, 144, 233, 155, 134, 229, 175, 188, 229, 133, 165, 239, 188, 137])"
| "format_label Swagger20 = ''Swagger 2.0''"
| "format_label Postman21 = (''Postman '' @ bytes [233, 155, 134, 229, 144, 136] @ '' v2.1'')"
| "format_label Unknown_Format = (bytes [230, 151, 160, 230, 179, 149, 232, 175, 134, 229, 136, 171])"

definition format_of_value :: "json \<Rightarrow> import_format" where
  "format_of_value v =
     (case value_as_object v of
        None \<Rightarrow> Unknown_Format
      | Some root \<Rightarrow>
          (case obj_str_opt root ''openapi'' of
             Some version \<Rightarrow> if starts_with ''3.1'' version then OpenApi31 else OpenApi30
           | None \<Rightarrow>
               if map_of root ''swagger'' \<noteq> None then Swagger20
               else if map_of root ''item'' \<noteq> None \<and> map_of root ''info'' \<noteq> None then Postman21
               else Unknown_Format))"

definition detect_format :: "doc_env \<Rightarrow> str \<Rightarrow> import_format" where
  "detect_format E text =
     (case parse_value E text of Inl _ \<Rightarrow> Unknown_Format | Inr v \<Rightarrow> format_of_value v)"

text \<open>\<open>str::parse::<u16>\<close>: an optional plus sign, decimal digits, and the range of the type.\<close>

definition parse_u16 :: "str \<Rightarrow> u16 option" where
  "parse_u16 s =
     (case (case s of [] \<Rightarrow> None | c # cs \<Rightarrow> parse_nat (if c = CHR ''+'' then cs else s)) of
        Some n \<Rightarrow> if n < 65536 then Some (of_nat n) else None
      | None \<Rightarrow> None)"

lemma hd_show_nat: "show_nat n = c # cs \<Longrightarrow> digit_val c \<noteq> None"
  using show_nat_digits[of c n] by simp

lemma parse_u16_show [simp]: "parse_u16 (show_nat (unat (w :: u16))) = Some w"
proof (cases "show_nat (unat w)")
  case (Cons c cs)
  have "c \<noteq> CHR ''+''"
    using hd_show_nat[OF Cons] by (auto simp: digit_val_def Let_def)
  moreover have "unat w < 65536"
    using unsigned_less[of w, where ?'a = nat] by simp
  ultimately show ?thesis
    using parse_nat_show_nat[of "unat w"] by (simp add: parse_u16_def Cons)
qed simp

text \<open>The name of a response without one.\<close>

definition response_name :: "u16 \<Rightarrow> str" where
  "response_name status = (bytes [229, 147, 141, 229, 186, 148] @ '' '') @ show_nat (unat status)"

end
