(* ===== verification/Postman.thy ===== *)
theory Postman
  imports ImportDoc
begin

text \<open>
  Postman collections v2.1 (\<open>crates/fox-openapi/src/postman.rs\<close> and \<open>postman_export.rs\<close>): the
  importer walks the nested items of a collection and yields one endpoint per request, the exporter
  writes a list of endpoints as a collection. The readers take a value apart with the accessors of
  \<open>ImportDoc\<close>; \<open>out.push\<close> over a recursive walk is the concatenation of the lists the calls yield.
  The exporter builds its values with \<open>json!\<close>, whose entries are written here in the order of the
  source.
\<close>

section \<open>Authentication and body\<close>

definition cred :: "json list option \<Rightarrow> str \<Rightarrow> str" where
  "cred arr name =
     (case Option.bind arr (find_map (\<lambda>k.
             case value_as_object k of
               None \<Rightarrow> None
             | Some o1 \<Rightarrow> if obj_str_opt o1 ''key'' = Some name then obj_str_opt o1 ''value'' else None)) of
        Some s \<Rightarrow> s
      | None \<Rightarrow> [])"

definition parse_auth :: "json option \<Rightarrow> auth_spec option" where
  "parse_auth auth =
     (case Option.bind auth value_as_object of
        None \<Rightarrow> None
      | Some o1 \<Rightarrow>
          let ty = (case obj_str_opt o1 ''type'' of Some t \<Rightarrow> t | None \<Rightarrow> ''noauth'');
              c = cred (obj_array o1 ty)
          in if ty = ''basic'' then Some (Basic (c ''username'') (c ''password''))
             else if ty = ''bearer'' then Some (Bearer (c ''token''))
             else if ty = ''apikey'' then
               Some (ApiKey (c ''key'') (c ''value'')
                       (if c ''in'' = ''header'' then Loc_Header else Loc_Query))
             else if ty = ''digest'' then Some (Digest (c ''username'') (c ''password''))
             else if ty = ''hawk'' then Some (Hawk (c ''authId'') (c ''authKey''))
             else if ty = ''awsv4'' then
               Some (AwsV4 (c ''accessKey'') (c ''secretKey'') (c ''region'') (c ''service'')
                       (if c ''sessionToken'' \<noteq> [] then Some (c ''sessionToken'') else None))
             else None)"

definition field_kv :: "(str \<times> json) list \<Rightarrow> str \<Rightarrow> key_value" where
  "field_kv o1 example =
     \<lparr>kv_key = obj_str o1 ''key'', kv_value = obj_str o1 ''value'',
      kv_enabled = (\<not> obj_flag o1 ''disabled''), kv_description = obj_str o1 ''description'',
      kv_field_type = FT_String, kv_required = True, kv_example = example\<rparr>"

definition form_field :: "json \<Rightarrow> key_value option" where
  "form_field f = map_option (\<lambda>o1. field_kv o1 []) (value_as_object f)"

definition multipart_form_field :: "json \<Rightarrow> multipart_field option" where
  "multipart_form_field f =
     map_option (\<lambda>o1.
       \<lparr>mf_key = obj_str o1 ''key'',
        mf_value_type = (if obj_str_opt o1 ''type'' = Some ''file'' then MV_FilePath else MV_Text),
        mf_value = obj_str o1 ''value'', mf_enabled = (\<not> obj_flag o1 ''disabled'')\<rparr>)
       (value_as_object f)"

definition parse_body :: "json option \<Rightarrow> body_spec" where
  "parse_body body =
     (case Option.bind body value_as_object of
        None \<Rightarrow> Body_None
      | Some b \<Rightarrow>
          let mode = obj_str b ''mode''
          in if mode = ''raw'' then
               (let raw = obj_str b ''raw'';
                    lang = (case Option.bind (Option.bind (Option.bind (map_of b ''options'') (json_get ''raw''))
                                    (json_get ''language'')) as_str_json of
                              Some l \<Rightarrow> l
                            | None \<Rightarrow> ''json'')
                in if contains ''json'' lang then Body_Json raw
                   else if lang = ''xml'' \<or> lang = ''html'' \<or> lang = ''text'' then Body_Text raw
                   else Body_Json raw)
             else if mode = ''urlencoded'' then
               UrlEncoded (case obj_array b ''urlencoded'' of
                             None \<Rightarrow> [] | Some arr \<Rightarrow> List.map_filter form_field arr)
             else if mode = ''formdata'' then
               Multipart (case obj_array b ''formdata'' of
                            None \<Rightarrow> [] | Some arr \<Rightarrow> List.map_filter multipart_form_field arr)
             else if mode = ''file'' then
               Body_Text (case Option.bind (Option.bind (map_of b ''file'') (json_get ''src'')) as_str_json of
                            Some s \<Rightarrow> s | None \<Rightarrow> [])
             else Body_None)"

section \<open>Requests\<close>

definition query_param :: "json \<Rightarrow> key_value option" where
  "query_param q = map_option (\<lambda>o1. field_kv o1 (obj_str o1 ''value'')) (value_as_object q)"

definition header_field :: "json \<Rightarrow> key_value option" where
  "header_field h = map_option (\<lambda>o1. field_kv o1 []) (value_as_object h)"

definition request_url :: "json option \<Rightarrow> str \<times> key_value list" where
  "request_url url_val =
     (case url_val of
        Some (JString s) \<Rightarrow> (s, [])
      | Some (JObject u) \<Rightarrow>
          (obj_str u ''raw'',
           (case obj_array u ''query'' of None \<Rightarrow> [] | Some qs \<Rightarrow> List.map_filter query_param qs))
      | _ \<Rightarrow> ([], []))"

definition response_content_type :: "(str \<times> json) list \<Rightarrow> str" where
  "response_content_type r =
     (let from_header = Option.bind (obj_array r ''header'') (find_map (\<lambda>h.
            case value_as_object h of
              None \<Rightarrow> None
            | Some o1 \<Rightarrow>
                (case obj_str_opt o1 ''key'' of
                   None \<Rightarrow> None
                 | Some k \<Rightarrow> if eq_ignore_ascii_case k ''content-type'' then obj_str_opt o1 ''value''
                             else None)))
      in case from_header of
           Some t \<Rightarrow> t
         | None \<Rightarrow>
             (case obj_str_opt r ''_postman_previewlanguage'' of
                Some x \<Rightarrow> if contains ''html'' x then ''text/html'' else ''application/json''
              | None \<Rightarrow> ''application/json''))"

definition response_to_example :: "json \<Rightarrow> imported_example option" where
  "response_to_example v =
     map_option (\<lambda>r.
       let status = (case Option.bind (map_of r ''code'') as_u64 of
                       Some n \<Rightarrow> (ucast n :: u16) | None \<Rightarrow> 200)
       in \<lparr>ie_name = (case obj_str_opt r ''name'' of Some n \<Rightarrow> n | None \<Rightarrow> response_name status),
           ie_status = status, ie_content_type = response_content_type r, ie_headers = [],
           ie_body = obj_str r ''body''\<rparr>) (value_as_object v)"

text \<open>The path of a raw URL: without the scheme, from the first slash to the query or fragment.\<close>

definition raw_url_path :: "str \<Rightarrow> str" where
  "raw_url_path raw =
     (let p = strip_all [''https://''] (strip_all [''http://''] raw);
          from_slash = dropWhile (\<lambda>c. c \<noteq> CHR ''/'') p;
          q = (if from_slash = [] then ''/'' else from_slash)
      in takeWhile (\<lambda>c. c \<noteq> CHR ''?'' \<and> c \<noteq> CHR ''#'') q)"

definition map_request ::
  "str \<Rightarrow> json \<Rightarrow> str option \<Rightarrow> auth_spec option \<Rightarrow> (str \<times> json) list \<Rightarrow> imported_endpoint option" where
  "map_request item_name request folder_hint collection_auth parent =
     (case value_as_object request of
        None \<Rightarrow> None
      | Some req \<Rightarrow>
          (case method_from_str (case obj_str_opt req ''method'' of Some m \<Rightarrow> m | None \<Rightarrow> ''GET'') of
             Inl _ \<Rightarrow> None
           | Inr meth \<Rightarrow>
               let (raw_path, params) = request_url (map_of req ''url'')
               in if raw_path = [] then None
                  else
                    let headers = (case obj_array req ''header'' of
                                     None \<Rightarrow> [] | Some hs \<Rightarrow> List.map_filter header_field hs);
                        body = parse_body (map_of req ''body'');
                        auth = (case parse_auth (map_of req ''auth'') of
                                  Some a \<Rightarrow> a
                                | None \<Rightarrow> (case collection_auth of Some a \<Rightarrow> a | None \<Rightarrow> Auth_None));
                        examples = (case obj_array parent ''response'' of
                                      None \<Rightarrow> [] | Some rs \<Rightarrow> List.map_filter response_to_example rs);
                        path = raw_url_path raw_path
                    in if path = [] then None
                       else Some
                         \<lparr>im_name = (if item_name = [] then method_as_str meth @ '' '' @ path else item_name),
                          im_method = meth, im_path = path, im_description = obj_str req ''description'',
                          im_request = default_request\<lparr>rs_params := params, rs_headers := headers,
                            rs_path_variables := [], rs_auth := auth, rs_body := body\<rparr>,
                          im_examples = examples, im_folder_hint = folder_hint\<rparr>))"

section \<open>The walk over the items\<close>

definition group_hint :: "str option \<Rightarrow> str \<Rightarrow> str option" where
  "group_hint folder_hint name =
     (case folder_hint of
        Some h \<Rightarrow> Some h
      | None \<Rightarrow> if name \<noteq> [] then Some name else None)"

function walk_items :: "json \<Rightarrow> str option \<Rightarrow> auth_spec option \<Rightarrow> imported_endpoint list" where
  "walk_items item folder_hint collection_auth =
     (case item of
        JObject o1 \<Rightarrow>
          (let name = obj_str o1 ''name''
           in case map_of o1 ''item'' of
                Some (JArray children) \<Rightarrow>
                  concat (map (\<lambda>child. walk_items child (group_hint folder_hint name) collection_auth) children)
              | _ \<Rightarrow>
                  (case map_of o1 ''request'' of
                     None \<Rightarrow> []
                   | Some request \<Rightarrow>
                       (case map_request name request folder_hint collection_auth o1 of
                          Some ep \<Rightarrow> [ep]
                        | None \<Rightarrow> [])))
      | _ \<Rightarrow> [])"
  by pat_completeness auto
termination
  by (relation "measure (\<lambda>(item, _, _). size item)") (auto simp del: json.size dest: size_array_entry)

declare walk_items.simps [simp del]

definition import_collection :: "json \<Rightarrow> (app_error, imported_endpoint list) result" where
  "import_collection doc =
     (case value_as_object doc of
        None \<Rightarrow> Err (Validation (Msg ''the root of the collection is not an object'' []))
      | Some root \<Rightarrow>
          if map_of root ''item'' = None then
            Err (Validation (Msg ''not a Postman collection: no item list'' []))
          else if \<not> contains ''postman''
                      (case Option.bind (Option.bind (map_of root ''info'') (json_get ''schema'')) as_str_json of
                         Some s \<Rightarrow> s | None \<Rightarrow> []) then
            Err (Validation (Msg ''not a Postman collection v2.1: no info.schema'' []))
          else
            let collection_auth = parse_auth (map_of root ''auth'');
                items = (case obj_array root ''item'' of Some xs \<Rightarrow> xs | None \<Rightarrow> [])
            in Ok (concat (map (\<lambda>item. walk_items item None collection_auth) items)))"

definition import_postman :: "doc_env \<Rightarrow> str \<Rightarrow> (app_error, imported_endpoint list) result" where
  "import_postman E text = and_then (parse_value E text) import_collection"

section \<open>Export\<close>

text \<open>An object of \<open>serde_json\<close> lists its entries by key, whatever the order of their insertion.\<close>

definition enabled_kv :: "key_value list \<Rightarrow> key_value list" where
  "enabled_kv xs = filter (\<lambda>kv. kv_enabled kv \<and> trim (kv_key kv) \<noteq> []) xs"

definition text_or_null :: "str \<Rightarrow> json" where
  "text_or_null s = (if s = [] then JNull else JString s)"

definition described_kv :: "key_value \<Rightarrow> json" where
  "described_kv kv =
     JObject [(''description'', text_or_null (kv_description kv)), (''key'', JString (kv_key kv)),
              (''value'', JString (kv_value kv))]"

definition url_object :: "str \<Rightarrow> key_value list \<Rightarrow> json" where
  "url_object path params =
     JObject
       [(''path'', JArray (map JString (filter (\<lambda>s. s \<noteq> []) (split_on CHR ''/'' (strip_all [''/''] path))))),
        (''query'', JArray (map described_kv (enabled_kv params))),
        (''raw'', JString path)]"

definition body_value :: "body_spec \<Rightarrow> json option" where
  "body_value body =
     (case body of
        Body_Json raw \<Rightarrow>
          if trim raw \<noteq> [] then
            Some (JObject [(''mode'', JString ''raw''),
                    (''options'', JObject [(''raw'', JObject [(''language'', JString ''json'')])]),
                    (''raw'', JString raw)])
          else None
      | Body_Text raw \<Rightarrow>
          if trim raw \<noteq> [] then Some (JObject [(''mode'', JString ''raw''), (''raw'', JString raw)])
          else None
      | UrlEncoded fs \<Rightarrow>
          (let rows = map (\<lambda>f. JObject [(''key'', JString (kv_key f)), (''value'', JString (kv_value f))])
                        (enabled_kv fs)
           in if rows \<noteq> [] then
                Some (JObject [(''mode'', JString ''urlencoded''), (''urlencoded'', JArray rows)])
              else None)
      | _ \<Rightarrow> None)"

definition attach_body :: "(str \<times> json) list \<Rightarrow> body_spec \<Rightarrow> (str \<times> json) list" where
  "attach_body request body =
     (case body_value body of None \<Rightarrow> request | Some b \<Rightarrow> (''body'', b) # request)"

definition auth_field :: "str \<Rightarrow> str \<Rightarrow> json" where
  "auth_field k v = JObject [(''key'', JString k), (''type'', JString ''string''), (''value'', JString v)]"

definition auth_object :: "str \<Rightarrow> json list \<Rightarrow> json" where
  "auth_object ty rows = JObject [(ty, JArray rows), (''type'', JString ty)]"

definition auth_value :: "auth_spec \<Rightarrow> json option" where
  "auth_value auth =
     (case auth of
        Bearer token \<Rightarrow>
          if token \<noteq> [] then Some (auth_object ''bearer'' [auth_field ''token'' token]) else None
      | Basic username password \<Rightarrow>
          if username \<noteq> [] \<or> password \<noteq> [] then
            Some (auth_object ''basic'' [auth_field ''username'' username, auth_field ''password'' password])
          else None
      | ApiKey k v _ \<Rightarrow>
          if trim k \<noteq> [] \<and> v \<noteq> [] then
            Some (auth_object ''apikey'' [auth_field ''key'' k, auth_field ''value'' v, auth_field ''in'' ''header''])
          else None
      | Digest username password \<Rightarrow>
          if username \<noteq> [] \<or> password \<noteq> [] then
            Some (auth_object ''digest'' [auth_field ''username'' username, auth_field ''password'' password])
          else None
      | Hawk key_id k \<Rightarrow>
          if key_id \<noteq> [] \<or> k \<noteq> [] then
            Some (auth_object ''hawk''
                    [auth_field ''authId'' key_id, auth_field ''authKey'' k, auth_field ''algorithm'' ''sha256''])
          else None
      | AwsV4 access_key secret_key region service session_token \<Rightarrow>
          if access_key \<noteq> [] \<or> secret_key \<noteq> [] then
            Some (auth_object ''awsv4''
                    ([auth_field ''accessKey'' access_key, auth_field ''secretKey'' secret_key,
                      auth_field ''region'' region, auth_field ''service'' service]
                     @ (case session_token of
                          Some t \<Rightarrow> if t \<noteq> [] then [auth_field ''sessionToken'' t] else []
                        | None \<Rightarrow> [])))
          else None
      | _ \<Rightarrow> None)"

definition attach_auth :: "(str \<times> json) list \<Rightarrow> auth_spec \<Rightarrow> (str \<times> json) list" where
  "attach_auth request auth =
     (case auth_value auth of None \<Rightarrow> request | Some a \<Rightarrow> (''auth'', a) # request)"

definition example_to_response :: "response_example \<Rightarrow> json" where
  "example_to_response ex =
     JObject
       [(''_postman_previewlanguage'', JString (if contains ''json'' (rx_content_type ex) then ''json'' else ''text'')),
        (''body'', JString (rx_body ex)),
        (''code'', JNumber (PosInt (ucast (rx_status ex)))),
        (''cookie'', JArray []),
        (''header'', JArray (map (\<lambda>(k, v). JObject [(''key'', JString k), (''value'', JString v)]) (rx_headers ex))),
        (''name'', JString (rx_name ex)),
        (''originalRequest'',
           JObject [(''method'', JString ''GET''), (''url'', JObject [(''path'', JArray []), (''raw'', JString [])])]),
        (''status'', JString [])]"

definition endpoint_to_item :: "endpoint \<Rightarrow> response_example list \<Rightarrow> json" where
  "endpoint_to_item ep examples =
     (let request0 =
            [(''description'', text_or_null (ep_description ep)),
             (''header'', JArray (map described_kv (enabled_kv (rs_headers (ep_request ep))))),
             (''method'', JString (method_as_str (ep_method ep))),
             (''url'', url_object (ep_path ep) (rs_params (ep_request ep)))];
          request1 = attach_body request0 (rs_body (ep_request ep));
          request2 = attach_auth request1 (rs_auth (ep_request ep))
      in JObject
           [(''name'', JString (if ep_name ep = [] then method_as_str (ep_method ep) @ '' '' @ ep_path ep
                              else ep_name ep)),
            (''request'', JObject request2),
            (''response'', JArray (map example_to_response examples))])"

definition postman_collection ::
  "str \<Rightarrow> endpoint list \<Rightarrow> (uuid, response_example list) hash_map \<Rightarrow> json" where
  "postman_collection project_name endpoints examples_by_endpoint =
     JObject
       [(''info'',
           JObject
             [(''description'', JString (project_name @ ('' '' @ bytes [226, 128, 148] @ '' '' @ bytes [231, 148, 177] @ '' RustFox '' @ bytes [229, 175, 188, 229, 135, 186]))),
              (''name'', JString project_name),
              (''schema'', JString ''https://schema.getpostman.com/json/collection/v2.1.0/collection.json'')]),
        (''item'',
           JArray (map (\<lambda>ep. endpoint_to_item ep
                          (case examples_by_endpoint (ep_id ep) of Some xs \<Rightarrow> xs | None \<Rightarrow> []))
                     endpoints))]"

definition export_postman ::
  "doc_env \<Rightarrow> str \<Rightarrow> endpoint list \<Rightarrow> (uuid, response_example list) hash_map \<Rightarrow> str" where
  "export_postman E project_name endpoints examples_by_endpoint =
     de_pretty E (postman_collection project_name endpoints examples_by_endpoint)"

end
