(* ===== verification/PostmanLaws.thy ===== *)
theory PostmanLaws
  imports Postman
begin

text \<open>
  What the Postman importer and exporter promise. \<open>reimported\<close> is what is left of an endpoint that
  was exported and read again: the name, method, path and description, the enabled rows of its
  tables, the authentication the format can say, and a body (a text body comes back as JSON: the
  exporter writes no language and the importer takes JSON for one). The recursion over the items is
  followed by the computation induction of \<open>walk_items\<close>.
\<close>

section \<open>What an export keeps\<close>

definition reimported_kv :: "str \<Rightarrow> key_value \<Rightarrow> key_value" where
  "reimported_kv example kv =
     \<lparr>kv_key = kv_key kv, kv_value = kv_value kv, kv_enabled = True,
      kv_description = kv_description kv, kv_field_type = FT_String, kv_required = True,
      kv_example = example\<rparr>"

definition reimported_body :: "body_spec \<Rightarrow> body_spec" where
  "reimported_body body =
     (case body of
        Body_Json raw \<Rightarrow> if trim raw = [] then Body_None else Body_Json raw
      | Body_Text raw \<Rightarrow> if trim raw = [] then Body_None else Body_Json raw
      | UrlEncoded fs \<Rightarrow>
          if enabled_kv fs = [] then Body_None
          else UrlEncoded (map (\<lambda>f. (new_kv (kv_key f) (kv_value f))) (enabled_kv fs))
      | _ \<Rightarrow> Body_None)"

definition reimported_auth :: "auth_spec \<Rightarrow> auth_spec" where
  "reimported_auth auth =
     (case auth of
        Bearer t \<Rightarrow> if t = [] then Auth_None else auth
      | Basic u p \<Rightarrow> if u = [] \<and> p = [] then Auth_None else auth
      | Digest u p \<Rightarrow> if u = [] \<and> p = [] then Auth_None else auth
      | Hawk i k \<Rightarrow> if i = [] \<and> k = [] then Auth_None else auth
      | ApiKey k v _ \<Rightarrow> if trim k = [] \<or> v = [] then Auth_None else ApiKey k v Loc_Header
      | AwsV4 a s r v t \<Rightarrow>
          if a = [] \<and> s = [] then Auth_None else AwsV4 a s r v (if t = Some [] then None else t)
      | _ \<Rightarrow> Auth_None)"

definition reimported_example :: "response_example \<Rightarrow> imported_example" where
  "reimported_example ex =
     \<lparr>ie_name = rx_name ex, ie_status = rx_status ex,
      ie_content_type =
        (case find (\<lambda>h. eq_ignore_ascii_case (fst h) ''content-type'') (rx_headers ex) of
           Some h \<Rightarrow> snd h | None \<Rightarrow> ''application/json''),
      ie_headers = [], ie_body = rx_body ex\<rparr>"

definition reimported :: "endpoint \<Rightarrow> response_example list \<Rightarrow> imported_endpoint" where
  "reimported ep examples =
     \<lparr>im_name = (if ep_name ep = [] then method_as_str (ep_method ep) @ '' '' @ ep_path ep else ep_name ep),
      im_method = ep_method ep, im_path = ep_path ep, im_description = ep_description ep,
      im_request = default_request\<lparr>
        rs_params := map (\<lambda>kv. reimported_kv (kv_value kv) kv) (enabled_kv (rs_params (ep_request ep))),
        rs_headers := map (reimported_kv []) (enabled_kv (rs_headers (ep_request ep))),
        rs_path_variables := [],
        rs_auth := reimported_auth (rs_auth (ep_request ep)),
        rs_body := reimported_body (rs_body (ep_request ep))\<rparr>,
      im_examples = map reimported_example examples, im_folder_hint = None\<rparr>"

text \<open>A path an import can produce.\<close>

definition plain_path :: "str \<Rightarrow> bool" where
  "plain_path p \<longleftrightarrow> p \<noteq> [] \<and> hd p = CHR ''/'' \<and> CHR ''?'' \<notin> set p \<and> CHR ''#'' \<notin> set p"

section \<open>Rows\<close>

lemma map_filter_map_Some: "(\<And>x. f (g x) = Some (h x)) \<Longrightarrow> List.map_filter f (map g xs) = map h xs"
  by (induction xs) (simp_all add: List.map_filter_simps)

lemma obj_str_text_or_null: "map_of o1 k = Some (text_or_null s) \<Longrightarrow> obj_str o1 k = s"
  by (simp add: obj_str_def obj_str_opt_def text_or_null_def as_str_json_def split: if_splits)

lemma obj_str_JString: "map_of o1 k = Some (JString s) \<Longrightarrow> obj_str o1 k = s"
  by (simp add: obj_str_def obj_str_opt_def as_str_json_def)

lemma obj_str_opt_JString: "map_of o1 k = Some (JString s) \<Longrightarrow> obj_str_opt o1 k = Some s"
  by (simp add: obj_str_opt_def as_str_json_def)

lemmas entry_rules = obj_str_JString obj_str_text_or_null obj_str_opt_JString obj_array_JArray

lemma query_param_described [simp]:
  "query_param (described_kv kv) = Some (reimported_kv (kv_value kv) kv)"
  by (simp add: query_param_def described_kv_def field_kv_def reimported_kv_def obj_flag_def
      entry_rules)

lemma header_field_described [simp]: "header_field (described_kv kv) = Some (reimported_kv [] kv)"
  by (simp add: header_field_def described_kv_def field_kv_def reimported_kv_def obj_flag_def
      entry_rules)

lemma form_field_row [simp]:
  "form_field (JObject [(''key'', JString k), (''value'', JString v)]) = Some (new_kv k v)"
  by (simp add: form_field_def field_kv_def new_kv_def obj_flag_def obj_str_def obj_str_opt_def
      as_str_json_def)

lemma parse_body_attached:
  "(case body_value body of None \<Rightarrow> Body_None | Some b \<Rightarrow> parse_body (Some b)) = reimported_body body"
proof -
  have json: "contains ''json'' ''json''" by code_simp
  show ?thesis
    by (cases body)
       (auto simp: body_value_def reimported_body_def parse_body_def Let_def entry_rules json
         json_get_def as_str_json_def o_def
         intro: map_filter_map_Some simp: map_filter_map_Some)
qed

lemma parse_auth_attached:
  "(case auth_value auth of None \<Rightarrow> Auth_None
    | Some a \<Rightarrow> (case parse_auth (Some a) of Some s \<Rightarrow> s | None \<Rightarrow> Auth_None)) = reimported_auth auth"
  by (cases auth)
     (auto simp: auth_value_def reimported_auth_def parse_auth_def auth_object_def auth_field_def
       cred_def Let_def entry_rules split: option.splits)

lemma find_content_type:
  "find_map (\<lambda>h. case value_as_object h of
       None \<Rightarrow> None
     | Some o1 \<Rightarrow>
         (case obj_str_opt o1 ''key'' of
            None \<Rightarrow> None
          | Some k \<Rightarrow> if eq_ignore_ascii_case k ''content-type'' then obj_str_opt o1 ''value'' else None))
     (map (\<lambda>(k, v). JObject [(''key'', JString k), (''value'', JString v)]) hs)
   = map_option snd (find (\<lambda>h. eq_ignore_ascii_case (fst h) ''content-type'') hs)"
  by (induction hs) (auto simp: entry_rules)

lemma response_read_back [simp]: "response_to_example (example_to_response ex) = Some (reimported_example ex)"
proof -
  have "\<not> contains ''html'' ''json''" "\<not> contains ''html'' ''text''" by code_simp+
  moreover have "(ucast (ucast s :: u64) :: u16) = s" for s :: u16
    by transfer simp
  ultimately show ?thesis
    by (auto simp: response_to_example_def example_to_response_def reimported_example_def Let_def
        entry_rules as_u64_def response_content_type_def find_content_type
        split: option.splits)
qed

section \<open>Paths\<close>

lemma strip_all_head: "c \<noteq> d \<Longrightarrow> strip_all [d # p] (c # s) = c # s"
  by (subst strip_all.simps) simp

lemma raw_url_path_plain [simp]:
  assumes "plain_path p"
  shows "raw_url_path p = p"
proof -
  from assms obtain s where p: "p = CHR ''/'' # s"
    by (cases p) (simp_all add: plain_path_def)
  have all: "takeWhile (\<lambda>c. c \<noteq> CHR ''?'' \<and> c \<noteq> CHR ''#'') p = p"
    using assms by (auto simp: plain_path_def takeWhile_eq_all_conv)
  show ?thesis
    using all unfolding raw_url_path_def Let_def p by (simp add: strip_all_head)
qed

lemma plain_raw_url_path: "plain_path (raw_url_path raw)"
proof -
  let ?d = "dropWhile (\<lambda>c. c \<noteq> CHR ''/'') (strip_all [''https://''] (strip_all [''http://''] raw))"
  let ?q = "if ?d = [] then ''/'' else ?d"
  have path: "raw_url_path raw = takeWhile (\<lambda>c. c \<noteq> CHR ''?'' \<and> c \<noteq> CHR ''#'') ?q"
    by (simp only: raw_url_path_def Let_def)
  have "hd ?q = CHR ''/''"
    using hd_dropWhile[of "\<lambda>c. c \<noteq> CHR ''/''"] by auto
  then obtain s where "?q = CHR ''/'' # s"
    by (cases ?q) (auto split: if_splits)
  then have "raw_url_path raw = CHR ''/'' # takeWhile (\<lambda>c. c \<noteq> CHR ''?'' \<and> c \<noteq> CHR ''#'') s"
    unfolding path by simp
  then show ?thesis
    by (auto simp: plain_path_def dest: set_takeWhileD)
qed

section \<open>One endpoint\<close>

lemma map_request_exported:
  assumes "plain_path (ep_path ep)" "name \<noteq> []"
    "obj_array parent ''response'' = Some (map example_to_response xs)"
    "map_of req ''method'' = Some (JString (method_as_str (ep_method ep)))"
    "map_of req ''header'' = Some (JArray (map described_kv (enabled_kv (rs_headers (ep_request ep)))))"
    "map_of req ''url'' = Some (url_object (ep_path ep) (rs_params (ep_request ep)))"
    "map_of req ''description'' = Some (text_or_null (ep_description ep))"
    "map_of req ''body'' = body_value (rs_body (ep_request ep))"
    "map_of req ''auth'' = auth_value (rs_auth (ep_request ep))"
  shows "map_request name (JObject req) hint None parent
    = Some (reimported ep xs \<lparr>im_name := name, im_folder_hint := hint\<rparr>)"
proof -
  have url: "request_url (map_of req ''url'')
    = (ep_path ep, map (\<lambda>kv. reimported_kv (kv_value kv) kv) (enabled_kv (rs_params (ep_request ep))))"
    using assms(6)
    by (simp add: request_url_def url_object_def entry_rules map_filter_map_Some)
  have body: "parse_body (map_of req ''body'') = reimported_body (rs_body (ep_request ep))"
    using parse_body_attached[of "rs_body (ep_request ep)"] assms(8)
    by (cases "body_value (rs_body (ep_request ep))") (simp_all add: parse_body_def)
  have auth: "(case parse_auth (map_of req ''auth'') of Some a \<Rightarrow> a | None \<Rightarrow> Auth_None)
    = reimported_auth (rs_auth (ep_request ep))"
    using parse_auth_attached[of "rs_auth (ep_request ep)"] assms(9)
    by (cases "auth_value (rs_auth (ep_request ep))") (simp_all add: parse_auth_def)
  have hs: "obj_array req ''header'' = Some (map described_kv (enabled_kv (rs_headers (ep_request ep))))"
    by (rule obj_array_JArray) (rule assms(5))
  have path: "raw_url_path (ep_path ep) = ep_path ep" "ep_path ep \<noteq> []"
    using assms(1) by (simp_all add: plain_path_def)
  show ?thesis
    unfolding map_request_def value_as_object_simps option.case url hs assms(3) body
      obj_str_opt_JString[OF assms(4)] method_roundtrip sum.case auth prod.case
    using assms(2) path
    by (simp add: Let_def reimported_def map_filter_map_Some obj_str_text_or_null[OF assms(7)])
qed

lemma walk_leaf:
  "map_of o1 ''item'' = None \<Longrightarrow> map_of o1 ''request'' = Some r
    \<Longrightarrow> map_request (obj_str o1 ''name'') r hint ca o1 = Some ep
    \<Longrightarrow> walk_items (JObject o1) hint ca = [ep]"
  by (subst walk_items.simps) simp

lemma walk_exported:
  assumes "plain_path (ep_path ep)"
  shows "walk_items (endpoint_to_item ep xs) None None = [reimported ep xs]"
proof -
  let ?name = "if ep_name ep = [] then method_as_str (ep_method ep) @ '' '' @ ep_path ep else ep_name ep"
  let ?base = "[(''description'', text_or_null (ep_description ep)),
             (''header'', JArray (map described_kv (enabled_kv (rs_headers (ep_request ep))))),
             (''method'', JString (method_as_str (ep_method ep))),
             (''url'', url_object (ep_path ep) (rs_params (ep_request ep)))]"
  let ?req = "attach_auth (attach_body ?base (rs_body (ep_request ep))) (rs_auth (ep_request ep))"
  let ?obj = "[(''name'', JString ?name), (''request'', JObject ?req),
            (''response'', JArray (map example_to_response xs))]"
  define name where "name = ?name"
  have nonempty: "name \<noteq> []"
    by (simp add: name_def)
  have "map_request name (JObject ?req) None None
      [(''name'', JString name), (''request'', JObject ?req), (''response'', JArray (map example_to_response xs))]
    = Some (reimported ep xs \<lparr>im_name := name, im_folder_hint := None\<rparr>)"
    by (rule map_request_exported[OF assms nonempty])
       (simp_all add: obj_array_JArray attach_auth_def attach_body_def map_add_def split: option.splits)
  moreover have "reimported ep xs \<lparr>im_name := name, im_folder_hint := None\<rparr> = reimported ep xs"
    by (simp add: reimported_def name_def)
  ultimately show ?thesis
    unfolding endpoint_to_item_def Let_def name_def[symmetric]
    by (intro walk_leaf) (simp_all add: obj_str_JString)
qed

section \<open>Collections\<close>

lemma schema_is_postman:
  "contains ''postman'' ''https://schema.getpostman.com/json/collection/v2.1.0/collection.json''"
  by code_simp

lemma collection_read_back:
  assumes "list_all (\<lambda>ep. plain_path (ep_path ep)) eps"
  shows "import_collection (postman_collection n eps ex)
    = Ok (map (\<lambda>ep. reimported ep (case ex (ep_id ep) of Some xs \<Rightarrow> xs | None \<Rightarrow> [])) eps)"
proof -
  have "concat (map (\<lambda>item. walk_items item None None)
          (map (\<lambda>ep. endpoint_to_item ep (case ex (ep_id ep) of Some xs \<Rightarrow> xs | None \<Rightarrow> [])) eps))
      = map (\<lambda>ep. reimported ep (case ex (ep_id ep) of Some xs \<Rightarrow> xs | None \<Rightarrow> [])) eps"
    using assms by (induction eps) (simp_all add: walk_exported)
  then show ?thesis
    by (simp add: import_collection_def postman_collection_def json_get_def as_str_json_def
        schema_is_postman parse_auth_def obj_array_JArray comp_def)
qed

lemma map_request_plain:
  "map_request name r hint ca o1 = Some ep \<Longrightarrow> plain_path (im_path ep) \<and> im_folder_hint ep = hint"
  by (auto simp: map_request_def Let_def plain_raw_url_path
      split: option.splits sum.splits prod.splits if_splits)

lemma walk_group:
  "map_of o1 ''item'' = Some (JArray cs) \<Longrightarrow>
     walk_items (JObject o1) hint ca = concat (map (\<lambda>c. walk_items c (group_hint hint (obj_str o1 ''name'')) ca) cs)"
  by (subst walk_items.simps) simp

lemma walk_single:
  "\<nexists>cs. map_of o1 ''item'' = Some (JArray cs) \<Longrightarrow>
     walk_items (JObject o1) hint ca =
       (case map_of o1 ''request'' of
          None \<Rightarrow> []
        | Some r \<Rightarrow> (case map_request (obj_str o1 ''name'') r hint ca o1 of Some ep \<Rightarrow> [ep] | None \<Rightarrow> []))"
  by (subst walk_items.simps) (auto simp: Let_def split: option.split json.split)

lemma walk_cases:
  assumes "ep \<in> set (walk_items item hint ca)"
  obtains o1 cs c where "item = JObject o1" "map_of o1 ''item'' = Some (JArray cs)" "c \<in> set cs"
      "ep \<in> set (walk_items c (group_hint hint (obj_str o1 ''name'')) ca)"
    | name r o1 where "map_request name r hint ca o1 = Some ep"
proof (cases item)
  case (JObject o1)
  show thesis
  proof (cases "\<exists>cs. map_of o1 ''item'' = Some (JArray cs)")
    case True
    then obtain cs where "map_of o1 ''item'' = Some (JArray cs)" by blast
    then show thesis
      using that(1)[OF JObject] assms by (auto simp: JObject walk_group)
  next
    case False
    then show thesis
      using that(2) assms by (auto simp: JObject walk_single split: option.splits)
  qed
qed (use assms in \<open>simp_all add: walk_items.simps\<close>)

text \<open>Induction over the walk: a fact of every request under its folder hint, kept by the groups.\<close>

lemma walk_induct:
  assumes "ep \<in> set (walk_items item hint ca)" and "Q hint"
    and "\<And>hint name. Q hint \<Longrightarrow> Q (group_hint hint name)"
    and "\<And>name r hint o1. Q hint \<Longrightarrow> map_request name r hint ca o1 = Some ep \<Longrightarrow> P ep"
  shows "P ep"
  using assms(1,2)
proof (induction item arbitrary: hint rule: measure_induct_rule[where f = size])
  case (less item)
  from less.prems(1) show ?case
  proof (cases rule: walk_cases)
    case (1 o1 cs c)
    show ?thesis
      using size_array_entry[OF 1(2,3)] 1(1) by (intro less.IH[OF _ 1(4)] assms(3) less.prems(2)) simp
  next
    case (2 name r o1)
    show ?thesis by (rule assms(4)[OF less.prems(2) 2])
  qed
qed

lemma walk_plain: "ep \<in> set (walk_items item hint ca) \<Longrightarrow> plain_path (im_path ep)"
  by (erule walk_induct[where Q = "\<lambda>_. True"]) (auto dest: map_request_plain)

text \<open>Inside a group that has a name, every endpoint carries the name of the outermost one.\<close>

lemma walk_keeps_hint: "ep \<in> set (walk_items item (Some h) ca) \<Longrightarrow> im_folder_hint ep = Some h"
  by (erule walk_induct[where Q = "\<lambda>hint. hint = Some h"]) (auto simp: group_hint_def dest: map_request_plain)

lemma import_collection_plain:
  "import_collection doc = Ok eps \<Longrightarrow> list_all (\<lambda>ep. plain_path (im_path ep)) eps"
  by (auto simp: import_collection_def list_all_iff Let_def split: option.splits if_splits dest: walk_plain)

section \<open>What the format loses\<close>

text \<open>A request that says it has no authentication gets the one of the collection.\<close>

lemma noauth_request_inherits:
  "parse_auth (Some (JObject [(''type'', JString ''noauth'')])) = None"
  by (simp add: parse_auth_def obj_str_opt_def as_str_json_def Let_def)

text \<open>A slash after the question mark is taken for the start of the path.\<close>

lemma path_found_in_query: "raw_url_path ''https://h?u=/a'' = ''/a''"
  by code_simp

lemma api_key_moves_to_header:
  "reimported_auth (ApiKey ''k'' ''v'' Loc_Query) = ApiKey ''k'' ''v'' Loc_Header"
proof -
  have "trim ''k'' \<noteq> []" by code_simp
  then show ?thesis by (simp add: reimported_auth_def)
qed

section \<open>Properties\<close>

text \<open>
  C34: A collection written by the Postman exporter reads back: when the JSON reader returns the
  value the printer was given and the paths are plain (they start with a slash and hold no question
  mark or hash sign), the importer yields exactly one endpoint per exported endpoint, in order, with the same
  name, method, path and description, the enabled rows of its tables, its body, authentication and
  response examples, as \<open>reimported\<close> says them.
\<close>

theorem postman_roundtrip:
  assumes "parse_value E (export_postman E n eps ex) = Ok (postman_collection n eps ex)"
    and "list_all (\<lambda>ep. plain_path (ep_path ep)) eps"
  shows "import_postman E (export_postman E n eps ex)
    = Ok (map (\<lambda>ep. reimported ep (case ex (ep_id ep) of Some xs \<Rightarrow> xs | None \<Rightarrow> [])) eps)"
  by (simp add: import_postman_def assms(1) collection_read_back[OF assms(2)])

text \<open>
  Every endpoint the Postman importer yields, from any document, has a path that starts with a
  slash and holds neither a question mark nor a hash sign.
\<close>

theorem postman_paths_plain:
  assumes "import_postman E text1 = Ok eps"
  shows "list_all (\<lambda>ep. plain_path (im_path ep)) eps"
  using assms by (auto simp: import_postman_def and_then_eq_Inr intro: import_collection_plain)

section \<open>Witnesses\<close>

definition demo_endpoint :: endpoint where
  "demo_endpoint =
     \<lparr>ep_id = 1, ep_project_id = 2, ep_folder_id = None, ep_name = [], ep_method = POST,
      ep_path = ''/login'', ep_description = ''d'', ep_status = Designing, ep_sort_order = 0,
      ep_request = default_request\<lparr>rs_body := Body_Text ''hi'', rs_auth := Bearer ''t''\<rparr>,
      ep_created_at = 0, ep_updated_at = 0\<rparr>"

definition demo_docs :: doc_env where
  "demo_docs =
     \<lparr>de_json = (\<lambda>s. if s = ''{}'' then Ok (postman_collection ''P'' [demo_endpoint] Map.empty) else Err ''eof''),
      de_yaml = (\<lambda>_. Err ''no''), de_compact = (\<lambda>_. []), de_pretty = (\<lambda>_. ''{}'')\<rparr>"

lemma demo_docs_read:
  "parse_value demo_docs ''{}'' = Ok (postman_collection ''P'' [demo_endpoint] Map.empty)"
proof -
  have "trim_start ''{}'' = ''{}''" by code_simp
  then show ?thesis by (simp add: parse_value_def demo_docs_def)
qed

lemma postman_roundtrip_witness:
  "import_postman demo_docs (export_postman demo_docs ''P'' [demo_endpoint] Map.empty)
     = Ok [reimported demo_endpoint []]"
proof -
  have printed: "export_postman demo_docs ''P'' [demo_endpoint] Map.empty = ''{}''"
    by (simp add: export_postman_def demo_docs_def)
  have "parse_value demo_docs (export_postman demo_docs ''P'' [demo_endpoint] Map.empty)
      = Ok (postman_collection ''P'' [demo_endpoint] Map.empty)"
    unfolding printed by (rule demo_docs_read)
  moreover have "list_all (\<lambda>ep. plain_path (ep_path ep)) [demo_endpoint]"
    by (simp add: demo_endpoint_def plain_path_def)
  ultimately show ?thesis
    using postman_roundtrip[of demo_docs "''P''" "[demo_endpoint]" Map.empty] by simp
qed

lemma postman_paths_plain_witness:
  "list_all (\<lambda>ep. plain_path (im_path ep)) [reimported demo_endpoint []]"
proof -
  have "list_all (\<lambda>ep. plain_path (ep_path ep)) [demo_endpoint]"
    by (simp add: demo_endpoint_def plain_path_def)
  then have "import_postman demo_docs ''{}'' = Ok [reimported demo_endpoint []]"
    using collection_read_back[of "[demo_endpoint]" "''P''" Map.empty]
    by (simp add: import_postman_def demo_docs_read)
  then show ?thesis
    by (rule postman_paths_plain)
qed

end
