(* ===== verification/OpenApi.thy ===== *)
theory OpenApi
  imports ImportDoc "HOL-Library.AList"
begin

text \<open>
  OpenAPI 3.0 documents (\<open>crates/fox-openapi/src/import.rs\<close> and \<open>export.rs\<close>). The typed document is
  the crate \<open>openapiv3\<close>'s: the records below name the fields of its types that the code reads or
  sets, and the fields it always leaves at their default are left out. Its serde reader and writer,
  the iteration over the operations of a path and the text of a status code are fields of
  \<open>openapi_env\<close>. An \<open>IndexMap\<close> is its entries in order; \<open>AList.update\<close> is its \<open>insert\<close>, which
  replaces a value in place and appends a new key.
\<close>

section \<open>Typed documents\<close>

datatype 'a reference_or = Ref_To str | Ref_Item 'a

record parameter_data =
  pd_name :: str
  pd_description :: "str option"
  pd_required :: bool
  pd_example :: "json option"

datatype oa_parameter =
    Query_Param parameter_data
  | Header_Param parameter_data
  | Path_Param parameter_data
  | Cookie_Param parameter_data

record media_type =
  mt_example :: "json option"

record oa_request_body =
  rb_content :: "(str \<times> media_type) list"

record oa_response =
  op_description :: str
  op_headers :: "(str \<times> json option reference_or) list"
  op_content :: "(str \<times> media_type) list"

datatype status_code = SC_Code u16 | SC_Range u16

record oa_operation =
  oo_tags :: "str list"
  oo_summary :: "str option"
  oo_description :: "str option"
  oo_parameters :: "oa_parameter reference_or list"
  oo_request_body :: "oa_request_body reference_or option"
  oo_responses :: "(status_code \<times> oa_response reference_or) list"

record path_item =
  pi_get :: "oa_operation option"
  pi_post :: "oa_operation option"
  pi_put :: "oa_operation option"
  pi_delete :: "oa_operation option"
  pi_patch :: "oa_operation option"
  pi_head :: "oa_operation option"
  pi_options :: "oa_operation option"
  pi_trace :: "oa_operation option"

record openapi_spec =
  sp_openapi :: str
  sp_title :: str
  sp_paths :: "(str \<times> path_item reference_or) list"

record openapi_env = doc_env +
  oe_from_value :: "json \<Rightarrow> (str, openapi_spec) result"
  oe_to_value :: "openapi_spec \<Rightarrow> (str, json) result"
  oe_iter :: "path_item \<Rightarrow> (str \<times> oa_operation) list"
  oe_status_text :: "status_code \<Rightarrow> str"

section \<open>From 3.1 to the 3.0 subset\<close>

text \<open>
  The map operations of one node: an insert replaces in place or appends. (The map of the code lists its
  entries by key; the document is only read by lookups.)
\<close>

definition picked_type :: "json list \<Rightarrow> str" where
  "picked_type types =
     (case find (\<lambda>t. t \<noteq> ''null'') (List.map_filter as_str_json types) of
        Some t \<Rightarrow> t | None \<Rightarrow> ''string'')"

definition flatten_type :: "(str \<times> json) list \<Rightarrow> (str \<times> json) list" where
  "flatten_type m =
     (case map_of m ''type'' of
        Some (JArray types) \<Rightarrow> AList.update ''type'' (JString (picked_type types)) m
      | _ \<Rightarrow> m)"

definition drop_exclusive :: "str \<Rightarrow> (str \<times> json) list \<Rightarrow> (str \<times> json) list" where
  "drop_exclusive key m =
     (case map_of m key of Some (JNumber _) \<Rightarrow> AList.delete key m | _ \<Rightarrow> m)"

definition const_to_enum :: "(str \<times> json) list \<Rightarrow> (str \<times> json) list" where
  "const_to_enum m =
     (case map_of m ''const'' of
        Some c \<Rightarrow> AList.update ''enum'' (JArray [c]) (AList.delete ''const'' m)
      | None \<Rightarrow> m)"

definition normalize_entries :: "(str \<times> json) list \<Rightarrow> (str \<times> json) list" where
  "normalize_entries m =
     const_to_enum (drop_exclusive ''exclusiveMaximum'' (drop_exclusive ''exclusiveMinimum'' (flatten_type m)))"

text \<open>The size that the recursion decreases: an object weighs more than an array of one child.\<close>

fun weight :: "json \<Rightarrow> nat" where
  "weight (JObject m) = Suc (Suc (sum_list (map (\<lambda>kv. weight (snd kv)) m)))"
| "weight (JArray vs) = Suc (sum_list (map weight vs))"
| "weight _ = 0"

lemma weight_entry: "(k, v) \<in> set m \<Longrightarrow> weight v \<le> sum_list (map (\<lambda>kv. weight (snd kv)) m)"
  by (induction m) auto

lemma set_update: "(k, v) \<in> set (AList.update k' v' m) \<Longrightarrow> (k, v) = (k', v') \<or> (k, v) \<in> set m"
  by (induction m) (auto split: if_splits)

lemma set_delete: "(k, v) \<in> set (AList.delete k' m) \<Longrightarrow> (k, v) \<in> set m \<and> k \<noteq> k'"
  by (auto simp: AList.delete_eq)

lemma normalized_entry:
  assumes "(k, v) \<in> set (normalize_entries m)"
  obtains "(k, v) \<in> set m" | s where "v = JString s" | c where "v = JArray [c]" "(''const'', c) \<in> set m"
proof -
  define m1 where "m1 = flatten_type m"
  define m3 where "m3 = drop_exclusive ''exclusiveMaximum'' (drop_exclusive ''exclusiveMinimum'' m1)"
  have m1: "(a, x) \<in> set m1 \<Longrightarrow> (a, x) \<in> set m \<or> (a = ''type'' \<and> (\<exists>s. x = JString s))" for a x
    by (auto simp: m1_def flatten_type_def split: option.splits json.splits dest!: set_update)
  have m3: "(a, x) \<in> set m3 \<Longrightarrow> (a, x) \<in> set m1" for a x
    by (auto simp: m3_def drop_exclusive_def split: option.splits json.splits dest!: set_delete)
  have all: "normalize_entries m = const_to_enum m3"
    by (simp add: normalize_entries_def m3_def m1_def)
  show thesis
  proof (cases "map_of m3 ''const''")
    case None
    then have "(k, v) \<in> set m3" using assms by (simp add: all const_to_enum_def)
    then show thesis using m1[OF m3] that by blast
  next
    case (Some c)
    then have "(k, v) = (''enum'', JArray [c]) \<or> (k, v) \<in> set m3"
      using assms by (auto simp: all const_to_enum_def dest!: set_update set_delete)
    moreover have "(''const'', c) \<in> set m"
      using m1[OF m3[OF map_of_SomeD[OF Some]]] by auto
    ultimately show thesis using m1[OF m3] that by blast
  qed
qed

lemma weight_normalized: "(k, v) \<in> set (normalize_entries m) \<Longrightarrow> weight v < weight (JObject m)"
  by (erule normalized_entry) (auto dest: weight_entry)

lemma weight_element: "x \<in> set vs \<Longrightarrow> weight x < weight (JArray vs)"
  by (induction vs) auto

function normalize_schema_node :: "json \<Rightarrow> json" where
  "normalize_schema_node v =
     (case v of
        JObject m \<Rightarrow> JObject (map (\<lambda>(k, x). (k, normalize_schema_node x)) (normalize_entries m))
      | JArray vs \<Rightarrow> JArray (map normalize_schema_node vs)
      | _ \<Rightarrow> v)"
  by pat_completeness auto
termination
  by (relation "measure weight") (auto simp del: weight.simps dest: weight_normalized weight_element)

declare normalize_schema_node.simps [simp del]

definition normalize_openapi31 :: "json \<Rightarrow> json" where
  "normalize_openapi31 v =
     normalize_schema_node
       (case v of
          JObject root \<Rightarrow>
            JObject (AList.delete ''webhooks'' (AList.update ''openapi'' (JString ''3.0.3'') root))
        | _ \<Rightarrow> v)"

section \<open>Import\<close>

definition parse_openapi :: "openapi_env \<Rightarrow> str \<Rightarrow> (app_error, openapi_spec) result" where
  "parse_openapi E text =
     and_then (parse_value (doc_env.truncate E) text) (\<lambda>value0.
       let version = (case Option.bind (json_get ''openapi'' value0) as_str_json of Some s \<Rightarrow> s | None \<Rightarrow> []);
           value1 = (if starts_with ''3.1'' version then normalize_openapi31 value0 else value0)
       in case oe_from_value E value1 of
            Inl e \<Rightarrow> Err (Validation (Msg ''not a valid OpenAPI document'' [e]))
          | Inr spec \<Rightarrow>
              if \<not> starts_with ''3.0'' (sp_openapi spec) then
                Err (Validation (Msg ''unsupported OpenAPI version'' [sp_openapi spec]))
              else Ok spec)"

definition kv_from_data :: "openapi_env \<Rightarrow> parameter_data \<Rightarrow> key_value" where
  "kv_from_data E d =
     \<lparr>kv_key = pd_name d,
      kv_value = (case pd_example d of Some v \<Rightarrow> value_to_string (doc_env.truncate E) v | None \<Rightarrow> []),
      kv_enabled = True,
      kv_description = (case pd_description d of Some s \<Rightarrow> s | None \<Rightarrow> []),
      kv_field_type = FT_String, kv_required = pd_required d, kv_example = []\<rparr>"

fun query_data :: "oa_parameter reference_or \<Rightarrow> parameter_data option" where
  "query_data (Ref_Item (Query_Param d)) = Some d"
| "query_data _ = None"

fun header_data :: "oa_parameter reference_or \<Rightarrow> parameter_data option" where
  "header_data (Ref_Item (Header_Param d)) = Some d"
| "header_data _ = None"

fun path_data :: "oa_parameter reference_or \<Rightarrow> parameter_data option" where
  "path_data (Ref_Item (Path_Param d)) = Some d"
| "path_data _ = None"

definition body_from_request_body :: "openapi_env \<Rightarrow> oa_request_body \<Rightarrow> body_spec" where
  "body_from_request_body E rb =
     (case find (\<lambda>(ct, _). contains ''json'' ct) (rb_content rb) of
        Some (_, media) \<Rightarrow>
          Body_Json (case mt_example media of
                       Some v \<Rightarrow> value_to_string (doc_env.truncate E) v | None \<Rightarrow> ''{}'')
      | None \<Rightarrow>
          (case find (\<lambda>(ct, _). contains ''x-www-form-urlencoded'' ct) (rb_content rb) of
             Some (_, media) \<Rightarrow>
               UrlEncoded
                 (case mt_example media of
                    Some (JObject m) \<Rightarrow> map (\<lambda>(k, v). new_kv k (value_to_string (doc_env.truncate E) v)) m
                  | _ \<Rightarrow> [])
           | None \<Rightarrow> Body_None))"

definition header_example :: "openapi_env \<Rightarrow> str \<times> json option reference_or \<Rightarrow> (str \<times> str) option" where
  "header_example E entry =
     (case snd entry of
        Ref_Item (Some v) \<Rightarrow> Some (fst entry, value_to_string (doc_env.truncate E) v)
      | _ \<Rightarrow> None)"

definition example_of_response ::
  "openapi_env \<Rightarrow> status_code \<times> oa_response reference_or \<Rightarrow> imported_example option" where
  "example_of_response E entry =
     (case snd entry of
        Ref_To _ \<Rightarrow> None
      | Ref_Item r \<Rightarrow>
          let status_str = oe_status_text E (fst entry)
          in (case parse_u16 status_str of
                None \<Rightarrow> None
              | Some status_num \<Rightarrow>
                  let content = (if op_content r = [] then [(''application/json'', \<lparr>mt_example = None\<rparr>)]
                                 else op_content r);
                      (content_type, media) = hd content
                  in Some \<lparr>ie_name = status_str @ '' '' @ content_type, ie_status = status_num,
                           ie_content_type = content_type,
                           ie_headers = fold (\<lambda>(k, v) t. AList.update k v t)
                             (List.map_filter (header_example E) (op_headers r)) [],
                           ie_body = (case mt_example media of
                                        Some v \<Rightarrow> value_to_string (doc_env.truncate E) v | None \<Rightarrow> [])\<rparr>))"

definition map_operation :: "openapi_env \<Rightarrow> str \<Rightarrow> http_method \<Rightarrow> oa_operation \<Rightarrow> imported_endpoint" where
  "map_operation E path meth op =
     (let params = map (kv_from_data E) (List.map_filter query_data (oo_parameters op));
          headers = map (kv_from_data E) (List.map_filter header_data (oo_parameters op));
          path_variables = map (kv_from_data E) (List.map_filter path_data (oo_parameters op));
          body = (case oo_request_body op of
                    Some (Ref_Item rb) \<Rightarrow> body_from_request_body E rb | _ \<Rightarrow> Body_None);
          examples = List.map_filter (example_of_response E) (oo_responses op);
          name = (case oo_summary op of
                    Some s \<Rightarrow> if s \<noteq> [] then s else method_as_str meth @ '' '' @ path
                  | None \<Rightarrow> method_as_str meth @ '' '' @ path)
      in \<lparr>im_name = name, im_method = meth, im_path = path,
          im_description = (case oo_description op of Some s \<Rightarrow> s | None \<Rightarrow> []),
          im_request = default_request\<lparr>rs_params := params, rs_headers := headers,
            rs_path_variables := path_variables, rs_auth := Auth_None, rs_body := body\<rparr>,
          im_examples = examples,
          im_folder_hint = (case oo_tags op of t # _ \<Rightarrow> Some t | [] \<Rightarrow> None)\<rparr>)"

fun import_operations ::
  "openapi_env \<Rightarrow> str \<Rightarrow> (str \<times> oa_operation) list \<Rightarrow> (app_error, imported_endpoint list) result" where
  "import_operations E path [] = Ok []"
| "import_operations E path ((method_str, op) # ops) =
     and_then (method_from_str method_str) (\<lambda>meth.
       and_then (import_operations E path ops) (\<lambda>out. Ok (map_operation E path meth op # out)))"

fun import_paths ::
  "openapi_env \<Rightarrow> (str \<times> path_item reference_or) list \<Rightarrow> (app_error, imported_endpoint list) result" where
  "import_paths E [] = Ok []"
| "import_paths E ((path, item) # items) =
     (case item of
        Ref_To _ \<Rightarrow> import_paths E items
      | Ref_Item path_item \<Rightarrow>
          and_then (import_operations E path (oe_iter E path_item)) (\<lambda>out.
            and_then (import_paths E items) (\<lambda>rest. Ok (out @ rest))))"

definition import_endpoints :: "openapi_env \<Rightarrow> str \<Rightarrow> (app_error, imported_endpoint list) result" where
  "import_endpoints E text = and_then (parse_openapi E text) (\<lambda>spec. import_paths E (sp_paths spec))"

section \<open>Export\<close>

definition parameter_data_from_kv :: "key_value \<Rightarrow> parameter_data" where
  "parameter_data_from_kv kv =
     \<lparr>pd_name = kv_key kv,
      pd_description = (if kv_description kv = [] then None else Some (kv_description kv)),
      pd_required = False,
      pd_example = (if kv_value kv = [] then None else Some (JString (kv_value kv)))\<rparr>"

definition kv_to_parameter :: "key_value \<Rightarrow> oa_parameter option" where
  "kv_to_parameter kv =
     (let example = (if kv_value kv = [] then None else Some (JString (kv_value kv)));
          d = \<lparr>pd_name = kv_key kv,
               pd_description = (if kv_description kv = [] then None else Some (kv_description kv)),
               pd_required = False, pd_example = example\<rparr>
      in Some (Query_Param d))"

definition parse_example_body :: "openapi_env \<Rightarrow> str \<Rightarrow> json option" where
  "parse_example_body E body =
     (let trimmed = trim body
      in if trimmed = [] then None
         else (case de_json E trimmed of Inr v \<Rightarrow> Some v | Inl _ \<Rightarrow> Some (JString body)))"

definition example_response :: "openapi_env \<Rightarrow> response_example \<Rightarrow> status_code \<times> oa_response reference_or" where
  "example_response E ex =
     (SC_Code (rx_status ex),
      Ref_Item \<lparr>op_description = rx_name ex, op_headers = [],
                op_content = [(rx_content_type ex, \<lparr>mt_example = parse_example_body E (rx_body ex)\<rparr>)]\<rparr>)"

definition default_response :: "status_code \<times> oa_response reference_or" where
  "default_response =
     (SC_Code 200,
      Ref_Item \<lparr>op_description = (bytes [230, 136, 144, 229, 138, 159]), op_headers = [],
                op_content = [(''application/json'', \<lparr>mt_example = Some (JObject [])\<rparr>)]\<rparr>)"

definition build_operation :: "openapi_env \<Rightarrow> endpoint \<Rightarrow> response_example list option \<Rightarrow> oa_operation" where
  "build_operation E ep examples =
     (let req = ep_request ep;
          parameters =
            map Ref_Item (List.map_filter kv_to_parameter (filter kv_enabled (rs_params req)))
            @ map (\<lambda>kv. Ref_Item (Header_Param (parameter_data_from_kv kv))) (filter kv_enabled (rs_headers req))
            @ map (\<lambda>kv. Ref_Item (Path_Param (parameter_data_from_kv kv)))
                (filter kv_enabled (rs_path_variables req));
          request_body =
            (case rs_body req of
               Body_Json raw \<Rightarrow>
                 let example = (case de_json E raw of Inr v \<Rightarrow> v | Inl _ \<Rightarrow> JString raw)
                 in Some (Ref_Item \<lparr>rb_content = [(''application/json'', \<lparr>mt_example = Some example\<rparr>)]\<rparr>)
             | _ \<Rightarrow> None);
          responses =
            (case examples of
               Some xs \<Rightarrow> fold (\<lambda>ex t. (case example_response E ex of (k, v) \<Rightarrow> AList.update k v t)) xs []
             | None \<Rightarrow> [default_response])
      in \<lparr>oo_tags = [], oo_summary = Some (ep_name ep),
          oo_description = (if ep_description ep = [] then None else Some (ep_description ep)),
          oo_parameters = parameters, oo_request_body = request_body, oo_responses = responses\<rparr>)"

definition empty_path_item :: path_item where
  "empty_path_item = \<lparr>pi_get = None, pi_post = None, pi_put = None, pi_delete = None, pi_patch = None,
     pi_head = None, pi_options = None, pi_trace = None\<rparr>"

fun set_operation :: "http_method \<Rightarrow> oa_operation \<Rightarrow> path_item \<Rightarrow> path_item" where
  "set_operation GET op it = it\<lparr>pi_get := Some op\<rparr>"
| "set_operation POST op it = it\<lparr>pi_post := Some op\<rparr>"
| "set_operation PUT op it = it\<lparr>pi_put := Some op\<rparr>"
| "set_operation DELETE op it = it\<lparr>pi_delete := Some op\<rparr>"
| "set_operation PATCH op it = it\<lparr>pi_patch := Some op\<rparr>"
| "set_operation HEAD op it = it\<lparr>pi_head := Some op\<rparr>"
| "set_operation OPTIONS op it = it\<lparr>pi_options := Some op\<rparr>"
| "set_operation Grpc op it = it"

definition add_endpoint ::
  "openapi_env \<Rightarrow> (uuid, response_example list) hash_map \<Rightarrow> endpoint \<Rightarrow> (str \<times> path_item) list
     \<Rightarrow> (str \<times> path_item) list" where
  "add_endpoint E examples_by_endpoint ep path_map =
     (if is_grpc (ep_method ep) then path_map
      else
        let item = (case map_of path_map (ep_path ep) of Some it \<Rightarrow> it | None \<Rightarrow> empty_path_item);
            op = build_operation E ep (examples_by_endpoint (ep_id ep))
        in AList.update (ep_path ep) (set_operation (ep_method ep) op item) path_map)"

definition export_spec ::
  "openapi_env \<Rightarrow> str \<Rightarrow> endpoint list \<Rightarrow> (uuid, response_example list) hash_map \<Rightarrow> openapi_spec" where
  "export_spec E project_name endpoints examples_by_endpoint =
     \<lparr>sp_openapi = ''3.0.3'', sp_title = project_name,
      sp_paths = map (\<lambda>(k, v). (k, Ref_Item v))
        (fold (add_endpoint E examples_by_endpoint) endpoints [])\<rparr>"

definition export_project_value ::
  "openapi_env \<Rightarrow> str \<Rightarrow> endpoint list \<Rightarrow> (uuid, response_example list) hash_map
     \<Rightarrow> (app_error, json) result" where
  "export_project_value E project_name endpoints examples_by_endpoint =
     (case oe_to_value E (export_spec E project_name endpoints examples_by_endpoint) of
        Inl e \<Rightarrow> Err (app_error.OpenApi (Msg ''export failed'' [e]))
      | Inr v \<Rightarrow> Ok v)"

definition export_project ::
  "openapi_env \<Rightarrow> str \<Rightarrow> endpoint list \<Rightarrow> (uuid, response_example list) hash_map
     \<Rightarrow> (app_error, str) result" where
  "export_project E project_name endpoints examples_by_endpoint =
     and_then (export_project_value E project_name endpoints examples_by_endpoint)
       (\<lambda>v. Ok (de_pretty E v))"

end
