(* ===== verification/OpenApiLaws.thy ===== *)
theory OpenApiLaws
  imports OpenApi
begin

text \<open>
  What the OpenAPI importer and exporter promise. The normalisation of a 3.1 document ends in the
  3.0 subset and changes nothing there; an exported project imports again as the endpoints it was
  made of, the last one for each method and path, without what the export leaves out.
\<close>

section \<open>The 3.0 subset\<close>

definition node30 :: "(str \<times> json) list \<Rightarrow> bool" where
  "node30 m \<longleftrightarrow>
     (\<forall>types. map_of m ''type'' \<noteq> Some (JArray types)) \<and>
     (\<forall>n. map_of m ''exclusiveMinimum'' \<noteq> Some (JNumber n)) \<and>
     (\<forall>n. map_of m ''exclusiveMaximum'' \<noteq> Some (JNumber n)) \<and>
     map_of m ''const'' = None"

fun subset30 :: "json \<Rightarrow> bool" where
  "subset30 (JObject m) \<longleftrightarrow> node30 m \<and> (\<forall>kv \<in> set m. subset30 (snd kv))"
| "subset30 (JArray vs) \<longleftrightarrow> (\<forall>v \<in> set vs. subset30 v)"
| "subset30 _ \<longleftrightarrow> True"

lemma map_of_update: "map_of (AList.update k v m) = (map_of m)(k \<mapsto> v)"
  by (simp add: AList.update_conv')

lemma map_of_delete: "map_of (AList.delete k m) = (map_of m)(k := None)"
  by (simp add: AList.delete_conv')

lemma node30_normalized: "node30 (normalize_entries m)"
proof -
  define m1 where "m1 = flatten_type m"
  define m2 where "m2 = drop_exclusive ''exclusiveMinimum'' m1"
  define m3 where "m3 = drop_exclusive ''exclusiveMaximum'' m2"
  have type1: "map_of m1 ''type'' \<noteq> Some (JArray ts)" for ts
    by (auto simp: m1_def flatten_type_def map_of_update split: option.splits json.splits)
  have excl: "map_of (drop_exclusive k m') k \<noteq> Some (JNumber n)" for k m' n
    by (auto simp: drop_exclusive_def map_of_delete split: option.splits json.splits)
  have other: "k' \<noteq> k \<Longrightarrow> map_of (drop_exclusive k m') k' = map_of m' k'" for k k' m'
    by (simp add: drop_exclusive_def map_of_delete split: option.splits json.splits)
  have "map_of m3 ''type'' \<noteq> Some (JArray ts)" for ts
    by (simp add: m3_def m2_def other type1)
  moreover have "map_of m3 ''exclusiveMinimum'' \<noteq> Some (JNumber n)" for n
    using excl[of "''exclusiveMinimum''" m1 n] by (simp add: m3_def m2_def other)
  moreover have "map_of m3 ''exclusiveMaximum'' \<noteq> Some (JNumber n)" for n
    by (simp add: m3_def excl)
  ultimately show ?thesis
    unfolding normalize_entries_def m1_def[symmetric] m2_def[symmetric] m3_def[symmetric]
    by (auto simp: node30_def const_to_enum_def map_of_update map_of_delete split: option.splits)
qed

lemma normalize_kind:
  "normalize_schema_node v = JArray vs \<Longrightarrow> \<exists>us. v = JArray us"
  "normalize_schema_node v = JNumber n \<Longrightarrow> v = JNumber n"
  by (subst (asm) normalize_schema_node.simps, simp split: json.splits)+

lemma map_of_map_pair: "map_of (map (\<lambda>(k, x). (k, f x)) m) k = map_option f (map_of m k)"
  by (induction m) auto

lemma node30_map: "node30 m \<Longrightarrow> node30 (map (\<lambda>(k, x). (k, normalize_schema_node x)) m)"
  by (auto simp: node30_def map_of_map_pair dest: normalize_kind)

lemma normalized_subset30: "subset30 (normalize_schema_node v)"
proof (induction v rule: normalize_schema_node.induct)
  case (1 v)
  show ?case
    by (subst normalize_schema_node.simps)
       (auto simp: node30_map node30_normalized intro: "1.IH" split: json.split)
qed

lemma node30_unchanged: "node30 m \<Longrightarrow> normalize_entries m = m"
proof -
  assume n: "node30 m"
  have t: "flatten_type m = m"
    using n by (auto simp: node30_def flatten_type_def split: option.splits json.splits)
  have x: "drop_exclusive ''exclusiveMinimum'' m = m" "drop_exclusive ''exclusiveMaximum'' m = m"
    using n by (auto simp: node30_def drop_exclusive_def split: option.splits json.splits)
  have c: "const_to_enum m = m"
    using n by (simp add: node30_def const_to_enum_def)
  show ?thesis by (simp add: normalize_entries_def t x c)
qed

lemma subset30_unchanged: "subset30 v \<Longrightarrow> normalize_schema_node v = v"
proof (induction v rule: normalize_schema_node.induct)
  case (1 v)
  show ?case
  proof (cases v)
    case (JArray vs)
    have "map normalize_schema_node vs = vs"
      using "1.IH"(1)[OF JArray] "1.prems" by (simp add: JArray map_idI)
    then show ?thesis by (subst normalize_schema_node.simps) (simp add: JArray)
  next
    case (JObject m)
    have m: "normalize_entries m = m"
      using "1.prems" by (simp add: JObject node30_unchanged)
    have "map (\<lambda>(k, x). (k, normalize_schema_node x)) m = m"
    proof (rule map_idI)
      fix kv assume kv: "kv \<in> set m"
      have "normalize_schema_node (snd kv) = snd kv"
        using "1.IH"(2)[OF JObject _ prod.collapse, unfolded m, OF kv] "1.prems" kv by (auto simp: JObject)
      then show "(case kv of (k, x) \<Rightarrow> (k, normalize_schema_node x)) = kv"
        by (cases kv) simp
    qed
    then show ?thesis by (subst normalize_schema_node.simps) (simp add: JObject m)
  qed (simp_all add: normalize_schema_node.simps)
qed

text \<open>The rewriting does not tell schemas from data: an example that has a field \<open>const\<close> loses it.\<close>

lemma example_data_rewritten:
  "normalize_schema_node (JObject [(''example'', JObject [(''const'', JBool True)])])
     = JObject [(''example'', JObject [(''enum'', JArray [JBool True])])]"
  by (simp add: normalize_schema_node.simps normalize_entries_def flatten_type_def drop_exclusive_def
      const_to_enum_def)

section \<open>What an export keeps\<close>

definition kept_row :: "key_value \<Rightarrow> key_value" where
  "kept_row kv =
     \<lparr>kv_key = kv_key kv, kv_value = kv_value kv, kv_enabled = True,
      kv_description = kv_description kv, kv_field_type = FT_String, kv_required = False,
      kv_example = []\<rparr>"

text \<open>A text that is JSON is rewritten by the reader and the compact printer.\<close>

definition reprinted :: "openapi_env \<Rightarrow> str \<Rightarrow> str \<Rightarrow> str" where
  "reprinted E source other =
     (case de_json E source of
        Inr v \<Rightarrow> value_to_string (doc_env.truncate E) v | Inl _ \<Rightarrow> other)"

definition kept_example :: "openapi_env \<Rightarrow> response_example \<Rightarrow> imported_example" where
  "kept_example E ex =
     \<lparr>ie_name = show_nat (unat (rx_status ex)) @ '' '' @ rx_content_type ex,
      ie_status = rx_status ex, ie_content_type = rx_content_type ex, ie_headers = [],
      ie_body = (if trim (rx_body ex) = [] then []
                 else reprinted E (trim (rx_body ex)) (rx_body ex))\<rparr>"

definition by_status :: "response_example list \<Rightarrow> response_example list" where
  "by_status xs = map snd (fold (\<lambda>ex. AList.update (rx_status ex) ex) xs [])"

definition kept_examples :: "openapi_env \<Rightarrow> response_example list option \<Rightarrow> imported_example list" where
  "kept_examples E examples =
     (case examples of
        Some xs \<Rightarrow> map (kept_example E) (by_status xs)
      | None \<Rightarrow> [\<lparr>ie_name = ''200 application/json'', ie_status = 200,
                 ie_content_type = ''application/json'', ie_headers = [],
                 ie_body = de_compact E (JObject [])\<rparr>])"

definition kept_endpoint :: "openapi_env \<Rightarrow> endpoint \<Rightarrow> response_example list option \<Rightarrow> imported_endpoint" where
  "kept_endpoint E ep examples =
     \<lparr>im_name = (if ep_name ep = [] then method_as_str (ep_method ep) @ '' '' @ ep_path ep else ep_name ep),
      im_method = ep_method ep, im_path = ep_path ep, im_description = ep_description ep,
      im_request = default_request\<lparr>
        rs_params := map kept_row (filter kv_enabled (rs_params (ep_request ep))),
        rs_headers := map kept_row (filter kv_enabled (rs_headers (ep_request ep))),
        rs_path_variables := map kept_row (filter kv_enabled (rs_path_variables (ep_request ep))),
        rs_auth := Auth_None,
        rs_body := (case rs_body (ep_request ep) of
                      Body_Json raw \<Rightarrow> Body_Json (reprinted E raw raw) | _ \<Rightarrow> Body_None)\<rparr>,
      im_examples = kept_examples E examples, im_folder_hint = None\<rparr>"

text \<open>The endpoints an export keeps: no gRPC, and for a method and path the last one.\<close>

fun kept_endpoints :: "endpoint list \<Rightarrow> endpoint list" where
  "kept_endpoints [] = []"
| "kept_endpoints (e # es) =
     (if is_grpc (ep_method e)
         \<or> list_ex (\<lambda>e'. ep_method e' = ep_method e \<and> ep_path e' = ep_path e) es
      then kept_endpoints es else e # kept_endpoints es)"

text \<open>What the code relies on in \<open>openapiv3\<close>: the iteration yields the operations that are set, under
  the lower-case names of their fields, and a status code prints as its number.\<close>

definition path_operations :: "path_item \<Rightarrow> (str \<times> oa_operation) list" where
  "path_operations it =
     List.map_filter (\<lambda>(n, op). map_option (Pair n) op)
       [(''get'', pi_get it), (''put'', pi_put it), (''post'', pi_post it), (''delete'', pi_delete it),
        (''options'', pi_options it), (''head'', pi_head it), (''patch'', pi_patch it),
        (''trace'', pi_trace it)]"

definition openapi_laws :: "openapi_env \<Rightarrow> bool" where
  "openapi_laws E \<longleftrightarrow>
     (\<forall>it. oe_iter E it = path_operations it) \<and>
     (\<forall>n. oe_status_text E (SC_Code n) = show_nat (unat n))"

section \<open>One operation\<close>

lemma kv_back [simp]: "kv_from_data E (parameter_data_from_kv kv) = kept_row kv"
  by (simp add: kv_from_data_def parameter_data_from_kv_def kept_row_def value_to_string_def)

lemma kv_to_parameter_eq: "kv_to_parameter kv = Some (Query_Param (parameter_data_from_kv kv))"
  by (simp add: kv_to_parameter_def parameter_data_from_kv_def Let_def)

lemma map_filter_all_Some: "(\<And>x. f x = Some (h x)) \<Longrightarrow> List.map_filter f xs = map h xs"
  by (induction xs) (simp_all add: List.map_filter_simps)

lemma map_filter_all_None: "(\<And>x. x \<in> set xs \<Longrightarrow> f x = None) \<Longrightarrow> List.map_filter f xs = []"
  by (induction xs) (simp_all add: List.map_filter_simps)

lemma map_filter_append: "List.map_filter f (xs @ ys) = List.map_filter f xs @ List.map_filter f ys"
  by (simp add: List.map_filter_def)

lemma map_filter_then_map: "List.map_filter f (map g xs) = List.map_filter (\<lambda>x. f (g x)) xs"
  by (simp add: List.map_filter_def comp_def filter_map)

lemma kv_parameters:
  "List.map_filter kv_to_parameter kvs = map (\<lambda>kv. Query_Param (parameter_data_from_kv kv)) kvs"
  by (rule map_filter_all_Some) (rule kv_to_parameter_eq)

lemma parameters_back:
  "map (kv_from_data E) (List.map_filter query_data (oo_parameters (build_operation E ep exs)))
     = map kept_row (filter kv_enabled (rs_params (ep_request ep)))"
  "map (kv_from_data E) (List.map_filter header_data (oo_parameters (build_operation E ep exs)))
     = map kept_row (filter kv_enabled (rs_headers (ep_request ep)))"
  "map (kv_from_data E) (List.map_filter path_data (oo_parameters (build_operation E ep exs)))
     = map kept_row (filter kv_enabled (rs_path_variables (ep_request ep)))"
  by (simp_all add: build_operation_def Let_def map_filter_append map_filter_then_map map_filter_all_None
      kv_parameters map_filter_all_Some[where h = parameter_data_from_kv] comp_def)

lemma update_map_pair:
  "inj f \<Longrightarrow> AList.update (f k) (g v) (map (\<lambda>(k, v). (f k, g v)) m)
     = map (\<lambda>(k, v). (f k, g v)) (AList.update k v m)"
  by (induction m) (auto dest: injD)

lemma responses_fold:
  "fold (\<lambda>ex t. case example_response E ex of (k, v) \<Rightarrow> AList.update k v t) xs
       (map (\<lambda>(k, x). (SC_Code k, snd (example_response E x))) m)
     = map (\<lambda>(k, x). (SC_Code k, snd (example_response E x)))
         (fold (\<lambda>ex. AList.update (rx_status ex) ex) xs m)"
proof (induction xs arbitrary: m)
  case (Cons x xs)
  have "inj SC_Code" by (simp add: inj_def)
  from update_map_pair[OF this, of "rx_status x" "\<lambda>x. snd (example_response E x)" x m]
  show ?case by (simp add: Cons.IH[symmetric]) (simp add: example_response_def)
qed simp

lemma status_keys:
  "\<forall>(k, x) \<in> set m. rx_status x = k \<Longrightarrow>
     \<forall>(k, x) \<in> set (fold (\<lambda>ex. AList.update (rx_status ex) ex) xs m). rx_status x = k"
proof (induction xs arbitrary: m)
  case (Cons x xs)
  have "\<forall>(k, y) \<in> set (AList.update (rx_status x) x m). rx_status y = k"
    using Cons.prems by (auto dest!: set_update)
  then show ?case by (simp add: Cons.IH)
qed simp

lemma example_back:
  "openapi_laws E \<Longrightarrow>
     example_of_response E (SC_Code (rx_status ex), snd (example_response E ex)) = Some (kept_example E ex)"
  by (auto simp: example_of_response_def example_response_def openapi_laws_def kept_example_def Let_def
      List.map_filter_simps parse_example_body_def reprinted_def value_to_string_def split: sum.splits)

lemma examples_back:
  assumes "openapi_laws E"
  shows "List.map_filter (example_of_response E) (oo_responses (build_operation E ep exs)) = kept_examples E exs"
proof (cases exs)
  case None
  have n: "show_nat (unat (200 :: u16)) = ''200''"
    by code_simp
  then have "oe_status_text E (SC_Code 200) = ''200''"
    using assms by (simp add: openapi_laws_def)
  moreover have "parse_u16 ''200'' = Some 200"
    using parse_u16_show[of 200] unfolding n .
  ultimately show ?thesis
    by (simp add: None build_operation_def Let_def kept_examples_def default_response_def
        List.map_filter_simps example_of_response_def value_to_string_def doc_env.truncate_def)
next
  case (Some xs)
  let ?m = "fold (\<lambda>ex. AList.update (rx_status ex) ex) xs []"
  have resp: "oo_responses (build_operation E ep exs)
      = map (\<lambda>(k, x). (SC_Code k, snd (example_response E x))) ?m"
    using responses_fold[of E xs "[]"] by (simp add: Some build_operation_def Let_def)
  have keys: "\<forall>(k, x) \<in> set ?m. rx_status x = k"
    by (rule status_keys) simp
  have "List.map_filter (example_of_response E) (map (\<lambda>(k, x). (SC_Code k, snd (example_response E x))) m)
      = map (kept_example E) (map snd m)" if "\<forall>(k, x) \<in> set m. rx_status x = k" for m
    using that by (induction m) (auto simp: List.map_filter_simps example_back[OF assms])
  from this[OF keys] show ?thesis
    unfolding resp kept_examples_def by (simp only: Some by_status_def option.case)
qed

lemma operation_back:
  assumes "openapi_laws E"
  shows "map_operation E (ep_path ep) (ep_method ep) (build_operation E ep exs) = kept_endpoint E ep exs"
proof -
  have json: "contains ''json'' ''application/json''" by code_simp
  have body: "(case oo_request_body (build_operation E ep exs) of
      Some (Ref_Item rb) \<Rightarrow> body_from_request_body E rb | _ \<Rightarrow> Body_None)
    = (case rs_body (ep_request ep) of
         Body_Json raw \<Rightarrow> Body_Json (reprinted E raw raw) | _ \<Rightarrow> Body_None)"
    by (auto simp: build_operation_def Let_def body_from_request_body_def json reprinted_def
        value_to_string_def split: body_spec.splits sum.splits)
  show ?thesis
    unfolding map_operation_def Let_def parameters_back examples_back[OF assms] body kept_endpoint_def
    by (simp add: build_operation_def Let_def)
qed

section \<open>The table of paths\<close>

fun operation_at :: "http_method \<Rightarrow> path_item \<Rightarrow> oa_operation option" where
  "operation_at GET it = pi_get it"
| "operation_at POST it = pi_post it"
| "operation_at PUT it = pi_put it"
| "operation_at DELETE it = pi_delete it"
| "operation_at PATCH it = pi_patch it"
| "operation_at HEAD it = pi_head it"
| "operation_at OPTIONS it = pi_options it"
| "operation_at Grpc it = None"

definition path_op :: "(str \<times> path_item) list \<Rightarrow> str \<Rightarrow> http_method \<Rightarrow> oa_operation option" where
  "path_op pm p m = Option.bind (map_of pm p) (operation_at m)"

lemma operation_at_set:
  "m \<noteq> Grpc \<Longrightarrow> operation_at m' (set_operation m op it) = (if m' = m then Some op else operation_at m' it)"
  by (cases m; cases m') simp_all

lemma operation_at_empty [simp]: "operation_at m empty_path_item = None"
  by (cases m) (simp_all add: empty_path_item_def)

lemma path_op_add:
  "path_op (add_endpoint E exs ep pm) p m
     = (if \<not> is_grpc (ep_method ep) \<and> ep_path ep = p \<and> ep_method ep = m
        then Some (build_operation E ep (exs (ep_id ep))) else path_op pm p m)"
  by (auto simp: path_op_def add_endpoint_def Let_def map_of_update operation_at_set is_grpc_def
      split: option.splits)

lemma kept_endpoints_snoc:
  "kept_endpoints (es @ [e])
     = (if is_grpc (ep_method e) then kept_endpoints es
        else filter (\<lambda>e'. \<not> (ep_method e' = ep_method e \<and> ep_path e' = ep_path e)) (kept_endpoints es) @ [e])"
  by (induction es) (auto simp: is_grpc_def)

lemma path_op_iff:
  "path_op (fold (add_endpoint E exs) eps []) p m = Some op \<longleftrightarrow>
     (\<exists>ep \<in> set (kept_endpoints eps). ep_path ep = p \<and> ep_method ep = m
        \<and> op = build_operation E ep (exs (ep_id ep)))"
proof (induction eps rule: rev_induct)
  case Nil
  show ?case by (simp add: path_op_def)
next
  case (snoc e eps)
  show ?case
    by (auto simp: path_op_add kept_endpoints_snoc snoc.IH)
qed

lemma trace_unset_add:
  assumes "\<forall>(p, it) \<in> set pm. pi_trace it = None"
  shows "\<forall>(p, it) \<in> set (add_endpoint E exs e pm). pi_trace it = None"
proof -
  have keep: "pi_trace (set_operation m op it) = pi_trace it" for m op it
    by (cases m) simp_all
  have "pi_trace (case map_of pm (ep_path e) of Some it \<Rightarrow> it | None \<Rightarrow> empty_path_item) = None"
    using assms by (auto simp: empty_path_item_def dest: map_of_SomeD split: option.split)
  then show ?thesis
    using assms by (auto simp: add_endpoint_def Let_def keep dest!: set_update)
qed

lemma trace_unset: "\<forall>(p, it) \<in> set (fold (add_endpoint E exs) eps []). pi_trace it = None"
  by (induction eps rule: rev_induct) (simp_all add: trace_unset_add del: split_paired_All)

lemma distinct_paths: "distinct (map fst (fold (add_endpoint E exs) eps []))"
  by (induction eps rule: rev_induct) (auto simp: add_endpoint_def Let_def distinct_update)

lemma import_operations_ok:
  assumes "\<forall>(n, op) \<in> set ops. method_from_str n = Ok (mt n)"
  shows "import_operations E p ops = Ok (map (\<lambda>(n, op). map_operation E p (mt n) op) ops)"
  using assms by (induction ops) auto

definition method_named :: "str \<Rightarrow> http_method" where
  "method_named n = (case method_from_str n of Inr m \<Rightarrow> m | Inl _ \<Rightarrow> Grpc)"

lemma lower_names:
  "method_from_str ''get'' = Ok GET" "method_from_str ''put'' = Ok PUT"
  "method_from_str ''post'' = Ok POST" "method_from_str ''delete'' = Ok DELETE"
  "method_from_str ''options'' = Ok OPTIONS" "method_from_str ''head'' = Ok HEAD"
  "method_from_str ''patch'' = Ok PATCH"
  by code_simp+

fun op_field :: "http_method \<Rightarrow> str" where
  "op_field GET = ''get''"
| "op_field PUT = ''put''"
| "op_field POST = ''post''"
| "op_field DELETE = ''delete''"
| "op_field OPTIONS = ''options''"
| "op_field HEAD = ''head''"
| "op_field PATCH = ''patch''"
| "op_field Grpc = []"

lemma op_field_method: "m \<noteq> Grpc \<Longrightarrow> method_from_str (op_field m) = Ok m"
  by (cases m) (simp_all only: op_field.simps lower_names simp_thms)

lemma set_operations:
  "(n, op) \<in> set (List.map_filter (\<lambda>(n, op). map_option (Pair n) op) xs) \<longleftrightarrow> (n, Some op) \<in> set xs"
  by (induction xs) (auto simp: List.map_filter_simps split: option.split)

lemma set_path_operations:
  assumes "pi_trace it = None"
  shows "(n, op) \<in> set (path_operations it) \<longleftrightarrow> (\<exists>m. n = op_field m \<and> operation_at m it = Some op)"
proof -
  let ?ms = "[GET, PUT, POST, DELETE, OPTIONS, HEAD, PATCH]"
  have ms: "m \<in> set ?ms \<longleftrightarrow> m \<noteq> Grpc" for m
    by (cases m) simp_all
  have "path_operations it
      = List.map_filter (\<lambda>(n, op). map_option (Pair n) op)
          (map (\<lambda>m. (op_field m, operation_at m it)) ?ms @ [(''trace'', None)])"
    by (simp add: path_operations_def assms)
  then have "(n, op) \<in> set (path_operations it) \<longleftrightarrow> (\<exists>m \<in> set ?ms. n = op_field m \<and> operation_at m it = Some op)"
    unfolding set_operations by (simp only: set_operations set_append set_map) (simp add: image_iff eq_commute)
  also have "\<dots> \<longleftrightarrow> (\<exists>m. n = op_field m \<and> operation_at m it = Some op)"
    unfolding Bex_def ms by (metis operation_at.simps(8) option.distinct(1))
  finally show ?thesis .
qed

lemma imported_item:
  assumes "openapi_laws E" "pi_trace it = None"
  shows "\<exists>out. import_operations E p (oe_iter E it) = Ok out \<and>
           set out = {map_operation E p m op | m op. operation_at m it = Some op}"
proof -
  have at: "operation_at m it = Some op \<Longrightarrow> m \<noteq> Grpc" for m op
    by auto
  have named: "operation_at m it = Some op \<Longrightarrow> method_named (op_field m) = m" for m op
    using op_field_method[OF at] by (simp add: method_named_def)
  have "method_from_str n = Ok (method_named n)" if "(n, op) \<in> set (path_operations it)" for n op
    using that unfolding set_path_operations[OF assms(2)] by (auto simp: op_field_method[OF at] named)
  then have names: "\<forall>(n, op) \<in> set (path_operations it). method_from_str n = Ok (method_named n)"
    by blast
  have "x \<in> set (map (\<lambda>(n, op). map_operation E p (method_named n) op) (path_operations it))
      \<longleftrightarrow> (\<exists>m op. x = map_operation E p m op \<and> operation_at m it = Some op)" for x
  proof -
    have "x \<in> set (map (\<lambda>(n, op). map_operation E p (method_named n) op) (path_operations it))
        \<longleftrightarrow> (\<exists>n op. (n, op) \<in> set (path_operations it) \<and> x = map_operation E p (method_named n) op)"
      by (auto simp: image_iff Bex_def)
    also have "\<dots> \<longleftrightarrow> (\<exists>m op. x = map_operation E p m op \<and> operation_at m it = Some op)"
      unfolding set_path_operations[OF assms(2)] by (metis named)
    finally show ?thesis .
  qed
  then have "set (map (\<lambda>(n, op). map_operation E p (method_named n) op) (path_operations it))
      = {map_operation E p m op | m op. operation_at m it = Some op}"
    by (simp only: set_eq_iff mem_Collect_eq) blast
  then show ?thesis
    using assms(1) import_operations_ok[OF names, of E p] by (simp add: openapi_laws_def)
qed

lemma imported_paths:
  assumes "openapi_laws E" "\<forall>(p, it) \<in> set pm. pi_trace it = None" "distinct (map fst pm)"
  shows "\<exists>out. import_paths E (map (\<lambda>(k, v). (k, Ref_Item v)) pm) = Ok out \<and>
           set out = {map_operation E p m op | p m op. path_op pm p m = Some op}"
  using assms(2,3)
proof (induction pm)
  case Nil
  show ?case by (simp add: path_op_def)
next
  case (Cons e pm)
  obtain p it where e: "e = (p, it)" by (cases e)
  obtain out where out: "import_operations E p (oe_iter E it) = Ok out"
      "set out = {map_operation E p m op | m op. operation_at m it = Some op}"
    using imported_item[OF assms(1), of it p] Cons.prems by (auto simp: e)
  obtain rest where rest: "import_paths E (map (\<lambda>(k, v). (k, Ref_Item v)) pm) = Ok rest"
      "set rest = {map_operation E p m op | p m op. path_op pm p m = Some op}"
    using Cons.IH Cons.prems by (auto simp: e)
  have "map_of pm p = None"
    using Cons.prems(2) by (simp add: e map_of_eq_None_iff)
  then have split: "path_op (e # pm) p' m = (if p' = p then operation_at m it else path_op pm p' m)"
    and none: "path_op pm p m = None" for p' m
    by (simp_all add: path_op_def e)
  have "set (out @ rest) = {map_operation E p m op | p m op. path_op (e # pm) p m = Some op}"
    unfolding set_append out(2) rest(2) split using none by (auto split: if_splits) (metis option.distinct(1))
  then show ?case
    by (simp add: e out(1) rest(1))
qed

section \<open>Properties\<close>

text \<open>
  What the conversion puts under a key of an object: the first type that is not null in place of a
  list of types, no numeric exclusive bound, the only value of \<open>enum\<close> in place of \<open>const\<close>, and
  otherwise the converted value.
\<close>

definition converted_field :: "(str \<times> json) list \<Rightarrow> str \<Rightarrow> json option" where
  "converted_field m k =
     (if k = ''const'' then None
      else if k = ''enum'' \<and> map_of m ''const'' \<noteq> None
      then Some (JArray [normalize_schema_node (the (map_of m ''const''))])
      else
        (case map_of m k of
           None \<Rightarrow> None
         | Some x \<Rightarrow>
             (case x of
                JArray types \<Rightarrow>
                  if k = ''type''
                  then Some (JString (case filter (\<lambda>t. t \<noteq> ''null'') (List.map_filter as_str_json types) of
                                        t # _ \<Rightarrow> t | [] \<Rightarrow> ''string''))
                  else Some (normalize_schema_node x)
              | JNumber n \<Rightarrow>
                  if k \<in> {''exclusiveMinimum'', ''exclusiveMaximum''} then None else Some x
              | _ \<Rightarrow> Some (normalize_schema_node x))))"

lemma picked_first: "picked_type ts = (case filter (\<lambda>t. t \<noteq> ''null'') (List.map_filter as_str_json ts) of t # _ \<Rightarrow> t | [] \<Rightarrow> ''string'')"
proof -
  have "find P xs = (case filter P xs of x # _ \<Rightarrow> Some x | [] \<Rightarrow> None)" for P :: "str \<Rightarrow> bool" and xs
    by (induction xs) auto
  then show ?thesis by (simp add: picked_type_def split: list.split)
qed

lemma normalized_fields:
  "map_of (normalize_entries m) k =
     (if k = ''const'' then None
      else if k = ''enum'' \<and> map_of m ''const'' \<noteq> None then Some (JArray [the (map_of m ''const'')])
      else
        (case map_of m k of
           Some (JArray types) \<Rightarrow> if k = ''type'' then Some (JString (picked_type types)) else Some (JArray types)
         | Some (JNumber n) \<Rightarrow> if k \<in> {''exclusiveMinimum'', ''exclusiveMaximum''} then None else Some (JNumber n)
         | r \<Rightarrow> r))"
proof -
  define m1 where "m1 = flatten_type m"
  define m3 where "m3 = drop_exclusive ''exclusiveMaximum'' (drop_exclusive ''exclusiveMinimum'' m1)"
  have 1: "map_of m1 k = (case map_of m k of
      Some (JArray types) \<Rightarrow> if k = ''type'' then Some (JString (picked_type types)) else Some (JArray types) | r \<Rightarrow> r)" for k
    by (auto simp: m1_def flatten_type_def map_of_update split: option.split json.split)
  have drop: "map_of (drop_exclusive q l) k = (case map_of l k of Some (JNumber n) \<Rightarrow> if k = q then None else Some (JNumber n) | r \<Rightarrow> r)"
    for q l k
    by (auto simp: drop_exclusive_def map_of_delete split: option.split json.split)
  have 3: "map_of m3 k = (case map_of m1 k of
      Some (JNumber n) \<Rightarrow> if k \<in> {''exclusiveMinimum'', ''exclusiveMaximum''} then None else Some (JNumber n) | r \<Rightarrow> r)" for k
    by (simp add: m3_def drop split: option.split json.split)
  have c: "map_of m3 ''const'' = map_of m ''const''"
    by (simp add: 3 1 split: option.split json.split)
  have e: "map_of (const_to_enum m3) k = (if k = ''const'' then None
      else if k = ''enum'' \<and> map_of m3 ''const'' \<noteq> None then Some (JArray [the (map_of m3 ''const'')]) else map_of m3 k)"
    by (auto simp: const_to_enum_def map_of_update map_of_delete split: option.split)
  have all: "normalize_entries m = const_to_enum m3"
    by (simp add: normalize_entries_def m3_def m1_def)
  show ?thesis
    unfolding all e c by (cases "map_of m k") (auto simp: 3 1 split: json.split)
qed

lemma normalize_scalars [simp]:
  "normalize_schema_node JNull = JNull" "normalize_schema_node (JBool b) = JBool b"
  "normalize_schema_node (JNumber n) = JNumber n" "normalize_schema_node (JString t) = JString t"
  "normalize_schema_node (JArray vs) = JArray (map normalize_schema_node vs)"
  by (simp_all add: normalize_schema_node.simps)

lemma converted_fields: "json_get k (normalize_schema_node (JObject m)) = converted_field m k"
proof -
  have "json_get k (normalize_schema_node (JObject m)) = map_option normalize_schema_node (map_of (normalize_entries m) k)"
    by (subst normalize_schema_node.simps) (simp add: json_get_def map_of_map_pair)
  then show ?thesis
    unfolding normalized_fields converted_field_def picked_first
    by (cases "map_of m ''const''"; cases "map_of m k") (auto split: json.split)
qed

definition head31 :: "(str \<times> json) list \<Rightarrow> (str \<times> json) list" where
  "head31 root = AList.delete ''webhooks'' (AList.update ''openapi'' (JString ''3.0.3'') root)"

lemma converted_root:
  "json_get k (normalize_openapi31 (JObject m)) =
     (if k = ''openapi'' then Some (JString ''3.0.3'') else if k = ''webhooks'' then None else converted_field m k)"
proof -
  have "json_get k (normalize_openapi31 (JObject m)) = converted_field (head31 m) k"
    by (simp add: normalize_openapi31_def head31_def converted_fields)
  moreover have "map_of (head31 m) k = (if k = ''openapi'' then Some (JString ''3.0.3'') else if k = ''webhooks'' then None else map_of m k)" for k
    by (simp add: head31_def map_of_update map_of_delete)
  ultimately show ?thesis
    by (cases "k = ''openapi''"; cases "k = ''webhooks''"; cases "map_of m ''const''") (simp_all add: converted_field_def)
qed

lemma head31_unchanged: "map_of m ''openapi'' = Some (JString ''3.0.3'') \<Longrightarrow> map_of m ''webhooks'' = None \<Longrightarrow> head31 m = m"
proof -
  assume o: "map_of m ''openapi'' = Some (JString ''3.0.3'')" and w: "map_of m ''webhooks'' = None"
  have "AList.update ''openapi'' (JString ''3.0.3'') m = m"
    using o by (induction m) auto
  moreover have "AList.delete ''webhooks'' m = m"
    using w by (force simp: AList.delete_eq map_of_eq_None_iff intro!: filter_True)
  ultimately show ?thesis by (simp add: head31_def)
qed

lemma normalize31_subset30: "subset30 (normalize_openapi31 v)"
  by (simp add: normalize_openapi31_def normalized_subset30)

lemma normalize31_again: "normalize_openapi31 (normalize_openapi31 v) = normalize_openapi31 v"
proof (cases v)
  case (JObject m)
  obtain m' where m': "normalize_openapi31 v = JObject m'"
    by (simp add: JObject normalize_openapi31_def normalize_schema_node.simps)
  have "map_of m' ''openapi'' = Some (JString ''3.0.3'')" "map_of m' ''webhooks'' = None"
    using converted_root[of "''openapi''" m] converted_root[of "''webhooks''" m] m' by (simp_all add: JObject json_get_def)
  then have "normalize_openapi31 (JObject m') = normalize_schema_node (JObject m')"
    by (simp add: normalize_openapi31_def head31_unchanged flip: head31_def)
  then show ?thesis using normalize31_subset30[of v] by (simp add: m' subset30_unchanged del: subset30.simps)
next
  case (JArray vs)
  then show ?thesis
    using subset30_unchanged[OF normalized_subset30[of v]] by (simp add: normalize_openapi31_def)
qed (simp_all add: normalize_openapi31_def)

text \<open>
  C36: The conversion of an OpenAPI 3.1 document. At the root the version becomes 3.0.3 and the webhooks
  go. In every object, at every depth, a list of types becomes the first of them that is not null (or
  string), a numeric exclusive bound goes, \<open>const\<close> becomes an \<open>enum\<close> with this one value, and every
  other field stays with its value converted; arrays are converted element by element and other values
  stay. The result is in the 3.0 subset (no object of it has a list of types, a numeric exclusive bound
  or a \<open>const\<close>), and converting it again changes nothing.
\<close>

theorem openapi31_normal_form:
  "(case v of
      JObject m \<Rightarrow>
        (\<forall>k. json_get k (normalize_openapi31 v) =
          (if k = ''openapi'' then Some (JString ''3.0.3'') else if k = ''webhooks'' then None else converted_field m k))
    | _ \<Rightarrow> normalize_openapi31 v = normalize_schema_node v)
   \<and> (case v of
        JObject m \<Rightarrow> (\<forall>k. json_get k (normalize_schema_node v) = converted_field m k)
      | JArray vs \<Rightarrow> normalize_schema_node v = JArray (map normalize_schema_node vs)
      | _ \<Rightarrow> normalize_schema_node v = v)
   \<and> subset30 (normalize_openapi31 v)
   \<and> normalize_openapi31 (normalize_openapi31 v) = normalize_openapi31 v"
  using normalize31_subset30[of v] normalize31_again[of v]
  by (cases v) (simp_all add: converted_root converted_fields normalize_openapi31_def[of "JArray _"]
      normalize_openapi31_def[of JNull] normalize_openapi31_def[of "JBool _"] normalize_openapi31_def[of "JNumber _"]
      normalize_openapi31_def[of "JString _"])

text \<open>
  C35: A project that was exported as OpenAPI imports again: when the document the importer reads is
  the exported one, it yields exactly the endpoints of the project that are not gRPC, for each method and path the
  last of the list, with name, path, description, enabled rows, JSON body and response examples as
  \<open>kept_endpoint\<close> says.
\<close>

theorem openapi_roundtrip:
  assumes "openapi_laws E" and "parse_openapi E text1 = Ok (export_spec E n eps exs)"
  shows "\<exists>out. import_endpoints E text1 = Ok out \<and>
           set out = (\<lambda>ep. kept_endpoint E ep (exs (ep_id ep))) ` set (kept_endpoints eps)"
proof -
  let ?pm = "fold (add_endpoint E exs) eps []"
  obtain out where out: "import_paths E (map (\<lambda>(k, v). (k, Ref_Item v)) ?pm) = Ok out"
      "set out = {map_operation E p m op | p m op. path_op ?pm p m = Some op}"
    using imported_paths[OF assms(1) trace_unset distinct_paths] by blast
  have "set out = (\<lambda>ep. kept_endpoint E ep (exs (ep_id ep))) ` set (kept_endpoints eps)"
    unfolding out(2) path_op_iff by (auto simp: operation_back[OF assms(1), symmetric])
  then show ?thesis
    by (simp add: import_endpoints_def assms(2) export_spec_def out(1))
qed

text \<open>
  C37: One operation under a method the program does not know makes the whole document fail: a path
  with a TRACE operation, which OpenAPI allows, and no endpoint is imported.
\<close>

theorem unknown_method_rejects_document:
  assumes "parse_openapi E text1 = Ok spec"
    and "(p, Ref_Item it) \<in> set (sp_paths spec)"
    and "(''trace'', op) \<in> set (oe_iter E it)"
  shows "\<exists>e. import_endpoints E text1 = Err e"
proof -
  have "to_uppercase ''trace'' = ''TRACE''"
    by code_simp
  then have trace: "\<exists>e. method_from_str ''trace'' = Err e"
    by (simp add: method_from_str_def)
  have ops: "(''trace'', op) \<in> set xs \<Longrightarrow> \<exists>e. import_operations E p xs = Err e" for xs
  proof (induction xs)
    case (Cons x xs)
    then show ?case
      using trace by (cases x; cases "method_from_str (fst x)") auto
  qed simp
  have "(p, Ref_Item it) \<in> set items \<Longrightarrow> \<exists>e. import_paths E items = Err e" for items
  proof (induction items)
    case (Cons x items)
    obtain q i where x: "x = (q, i)" by (cases x)
    show ?case
    proof (cases i)
      case (Ref_To r)
      then show ?thesis using Cons by (simp add: x)
    next
      case (Ref_Item it')
      then show ?thesis
        using Cons ops[OF assms(3)]
        by (cases "import_operations E q (oe_iter E it')") (auto simp: x)
    qed
  qed simp
  from this[OF assms(2)] show ?thesis
    by (simp add: import_endpoints_def assms(1))
qed

section \<open>Witnesses\<close>

definition demo_openapi :: "openapi_spec \<Rightarrow> openapi_env" where
  "demo_openapi s =
     \<lparr>de_json = (\<lambda>_. Ok (JObject [])), de_yaml = (\<lambda>_. Err ''no''), de_compact = (\<lambda>_. ''{}''),
      de_pretty = (\<lambda>_. ''{}''), oe_from_value = (\<lambda>_. Ok s), oe_to_value = (\<lambda>_. Ok (JObject [])),
      oe_iter = path_operations,
      oe_status_text = (\<lambda>c. case c of SC_Code n \<Rightarrow> show_nat (unat n) | SC_Range n \<Rightarrow> ''XX'')\<rparr>"

definition demo_call :: endpoint where
  "demo_call =
     \<lparr>ep_id = 1, ep_project_id = 2, ep_folder_id = None, ep_name = ''users'', ep_method = POST,
      ep_path = ''/users'', ep_description = [], ep_status = Designing, ep_sort_order = 0,
      ep_request = default_request\<lparr>rs_body := Body_Json ''{}'', rs_params := [new_kv ''page'' ''1'']\<rparr>,
      ep_created_at = 0, ep_updated_at = 0\<rparr>"

definition demo_spec :: openapi_spec where
  "demo_spec = export_spec (demo_openapi \<lparr>sp_openapi = [], sp_title = [], sp_paths = []\<rparr>) ''P'' [demo_call] Map.empty"

lemma demo_openapi_laws: "openapi_laws (demo_openapi s)"
  by (simp add: openapi_laws_def demo_openapi_def)

lemma demo_openapi_parse:
  assumes "starts_with ''3.0'' (sp_openapi s)"
  shows "parse_openapi (demo_openapi s) ''{}'' = Ok s"
proof -
  have "\<not> starts_with ''3.1'' []" by (simp add: starts_with_def)
  then show ?thesis
    using assms by (simp add: parse_openapi_def parse_value_def demo_openapi_def doc_env.truncate_def json_get_def)
qed

lemma demo_version: "starts_with ''3.0'' ''3.0.3''"
  by (simp add: starts_with_def)

lemma openapi_roundtrip_witness:
  "\<exists>out. import_endpoints (demo_openapi demo_spec) ''{}'' = Ok out \<and>
     set out = {kept_endpoint (demo_openapi demo_spec) demo_call None}"
proof -
  have spec: "export_spec (demo_openapi demo_spec) ''P'' [demo_call] Map.empty = demo_spec"
    unfolding demo_spec_def
    by (simp add: export_spec_def add_endpoint_def build_operation_def demo_openapi_def demo_call_def)
  have "parse_openapi (demo_openapi demo_spec) ''{}'' = Ok demo_spec"
    by (rule demo_openapi_parse) (simp add: demo_spec_def export_spec_def demo_version)
  then have "parse_openapi (demo_openapi demo_spec) ''{}''
      = Ok (export_spec (demo_openapi demo_spec) ''P'' [demo_call] Map.empty)"
    by (simp only: spec)
  from openapi_roundtrip[OF demo_openapi_laws this] show ?thesis
    by (simp add: demo_call_def is_grpc_def)
qed

lemma unknown_method_rejects_document_witness:
  "\<exists>e. import_endpoints
     (demo_openapi \<lparr>sp_openapi = ''3.0.3'', sp_title = ''P'',
        sp_paths = [(''/a'', Ref_Item (empty_path_item\<lparr>
          pi_trace := Some (build_operation (demo_openapi demo_spec) demo_call None)\<rparr>))]\<rparr>) ''{}'' = Err e"
proof -
  let ?op = "build_operation (demo_openapi demo_spec) demo_call None"
  let ?it = "empty_path_item\<lparr>pi_trace := Some ?op\<rparr>"
  let ?s = "\<lparr>sp_openapi = ''3.0.3'', sp_title = ''P'', sp_paths = [(''/a'', Ref_Item ?it)]\<rparr>"
  have "parse_openapi (demo_openapi ?s) ''{}'' = Ok ?s"
    by (rule demo_openapi_parse) (simp add: demo_version)
  moreover have "(''/a'', Ref_Item ?it) \<in> set (sp_paths ?s)"
    by simp
  moreover have "(''trace'', ?op) \<in> set (oe_iter (demo_openapi ?s) ?it)"
    by (simp add: demo_openapi_def path_operations_def List.map_filter_simps empty_path_item_def)
  ultimately show ?thesis
    by (rule unknown_method_rejects_document)
qed

end
