(* ===== verification/CommandError.thy ===== *)
theory CommandError
  imports Model
begin

text \<open>
  What a command of the desktop shell answers when it fails (\<open>crates/fox-tauri/src/error.rs\<close>): a code
  for the frontend and a message, made from an error of the core or by the command itself.
\<close>

section \<open>Errors of a command\<close>

record command_error =
  ce_code :: str
  ce_message :: msg

type_synonym 'a command_result = "(command_error, 'a) result"

definition ce_validation :: "msg \<Rightarrow> command_error" where
  "ce_validation m = \<lparr>ce_code = ''VALIDATION'', ce_message = m\<rparr>"

definition ce_with_code :: "str \<Rightarrow> msg \<Rightarrow> command_error" where
  "ce_with_code code m = \<lparr>ce_code = code, ce_message = m\<rparr>"

definition ce_grpc :: "msg \<Rightarrow> command_error" where
  "ce_grpc m = \<lparr>ce_code = ''GRPC'', ce_message = m\<rparr>"

fun error_code :: "app_error \<Rightarrow> str" where
  "error_code (Database _) = ''DATABASE''"
| "error_code (Io _) = ''IO''"
| "error_code (Http _) = ''HTTP''"
| "error_code (NetworkTimeout _) = ''TIMEOUT''"
| "error_code (Ssl _) = ''SSL''"
| "error_code (Dns _) = ''DNS''"
| "error_code (Connection _) = ''CONNECTION''"
| "error_code (Validation _) = ''VALIDATION''"
| "error_code (NotFound _) = ''NOT_FOUND''"
| "error_code (app_error.OpenApi _) = ''OPENAPI''"
| "error_code (Mock _) = ''MOCK''"
| "error_code (Test _) = ''TEST''"
| "error_code (ScriptError _) = ''SCRIPT''"
| "error_code (WebSocket _) = ''WEBSOCKET''"
| "error_code (Json_Error _) = ''JSON''"
| "error_code (Decryption _) = ''DECRYPT''"
| "error_code (OAuth2_Error _) = ''OAUTH2''"
| "error_code (Cancelled _) = ''CANCELLED''"
| "error_code (Grpc_Error _) = ''GRPC''"

definition from_app_error :: "app_error \<Rightarrow> command_error" where
  "from_app_error err = \<lparr>ce_code = error_code err, ce_message = user_message err\<rparr>"

definition commanded :: "(app_error, 'a) result \<Rightarrow> 'a command_result" where
  "commanded r = (case r of Inl e \<Rightarrow> Err (from_app_error e) | Inr x \<Rightarrow> Ok x)"

end
