(* ===== verification/DocMarkdown.thy ===== *)
theory DocMarkdown
  imports Codegen ImportDoc
begin

text \<open>
  Markdown documents: the API document of a project (\<open>crates/fox-openapi/src/markdown.rs\<close>) and the
  smoke test document of its test cases (\<open>smoke.rs\<close>), byte for byte. The export time is an argument
  (\<open>Utc::now\<close> in its format), and so is the text of a duration of a second or more, which the code
  prints from a floating-point quotient.
\<close>

section \<open>API document\<close>

definition kv_line :: "key_value \<Rightarrow> str" where
  "kv_line kv =
     (let desc = (if kv_description kv = [] then ''-'' else kv_description kv);
          pipe = replace_all ''|'' (bsl @ ''|'')
      in ''| '' @ pipe (kv_key kv) @ '' | '' @ pipe (kv_value kv) @ '' | '' @ pipe desc
         @ '' | '' @ (if kv_enabled kv then (bytes [230, 152, 175]) else (bytes [229, 144, 166])) @ '' |'' @ nl)"

definition table_head :: str where
  "table_head = ''| '' @ bytes [229, 144, 141, 231, 167, 176] @ '' | '' @ bytes [229, 128, 188] @ '' | ''
      @ bytes [230, 143, 143, 232, 191, 176] @ '' | '' @ bytes [229, 144, 175, 231, 148, 168]
      @ '' |'' @ nl @ ''|---|---|---|---|'' @ nl"

fun algorithm_debug :: "signature_algorithm \<Rightarrow> str" where
  "algorithm_debug MD5 = ''MD5''"
| "algorithm_debug SHA256 = ''SHA256''"
| "algorithm_debug HmacSHA256 = ''HmacSHA256''"

fun encoding_debug :: "signature_encoding \<Rightarrow> str" where
  "encoding_debug HexLower = ''HexLower''"
| "encoding_debug HexUpper = ''HexUpper''"
| "encoding_debug Base64 = ''Base64''"

fun location_text :: "api_key_location \<Rightarrow> str" where
  "location_text Loc_Header = ''Header''"
| "location_text Loc_Query = ''Query''"

definition auth_head :: str where
  "auth_head = ''### '' @ bytes [232, 174, 164, 232, 175, 129] @ nl @ nl"

definition auth_section :: "auth_spec \<Rightarrow> str" where
  "auth_section auth =
     (case auth of
        Auth_None \<Rightarrow> []
      | Bearer token \<Rightarrow> auth_head @ ''- Bearer Token'' @ bytes [239, 188, 154] @ ''`'' @ token @ ''`'' @ nl @ nl
      | Basic username password \<Rightarrow>
          auth_head @ ''- Basic Auth'' @ bytes [239, 188, 154] @ ''`'' @ username @ ''` / `'' @ password
          @ ''`'' @ nl @ nl
      | ApiKey k v location \<Rightarrow>
          auth_head @ ''- API Key'' @ bytes [239, 188, 154] @ ''`'' @ k @ ''`'' @ bytes [239, 188, 136]
          @ location_text location @ bytes [229, 134, 133, 239, 188, 137, 229, 128, 188]
          @ '' `'' @ v @ ''`'' @ nl @ nl
      | OAuth2 _ _ _ _ _ _ _ \<Rightarrow> auth_head @ ''- OAuth 2.0''
          @ bytes [239, 188, 154, 230, 142, 136, 230, 157, 131, 231, 160, 129, 230, 181, 129, 239, 188, 136]
          @ ''Bearer Token'' @ bytes [239, 188, 137] @ nl @ nl
      | Digest username _ \<Rightarrow> auth_head @ ''- Digest '' @ bytes [232, 174, 164, 232, 175, 129, 239, 188, 154] @ ''`'' @ username
          @ ''`'' @ nl @ nl
      | Hawk key_id _ \<Rightarrow> auth_head @ ''- Hawk '' @ bytes [232, 174, 164, 232, 175, 129, 239, 188, 154] @ ''id `'' @ key_id
          @ ''`'' @ nl @ nl
      | AwsV4 access_key _ region service _ \<Rightarrow>
          auth_head @ ''- AWS Signature V4'' @ bytes [239, 188, 154] @ ''`'' @ access_key @ ''` / `''
          @ region @ ''` / `'' @ service @ ''`'' @ nl @ nl
      | Hmac access_key _ \<Rightarrow> auth_head @ ''- HMAC (AK-SK)'' @ bytes [239, 188, 154] @ ''`'' @ access_key @ ''`'' @ nl @ nl
      | DynamicSignature config \<Rightarrow>
          auth_head @ ''- ''
          @ bytes [229, 138, 168, 230, 128, 129, 231, 173, 190, 229, 144, 141, 239, 188, 154]
          @ ''Key `'' @ ds_app_key config @ ''`''
          @ bytes [239, 188, 140, 231, 174, 151, 230, 179, 149] @ '' `''
          @ algorithm_debug (ds_algorithm config) @ ''` / ''
          @ bytes [231, 188, 150, 231, 160, 129] @ '' `'' @ encoding_debug (ds_encoding config)
          @ ''`'' @ bytes [239, 188, 140, 231, 173, 190, 229, 144, 141, 229, 164, 180] @ '' `''
          @ ds_sig_header config @ ''`'' @ nl @ nl)"

definition raw_body_section :: "str \<Rightarrow> str" where
  "raw_body_section raw = ''### '' @ bytes [232, 175, 183, 230, 177, 130, 228, 189, 147] @ nl @ nl @ ''```json''
      @ nl @ raw @ nl @ ''```'' @ nl @ nl"

definition body_section :: "body_spec \<Rightarrow> str" where
  "body_section body =
     (case body of
        Body_Json raw \<Rightarrow> raw_body_section raw
      | Body_Text raw \<Rightarrow> raw_body_section raw
      | UrlEncoded fs \<Rightarrow>
          if fs = [] then []
          else
            (let form_lines = map (\<lambda>kv. kv_key kv @ ''='' @ kv_value kv) (filter kv_enabled fs)
             in ''### '' @ bytes [232, 175, 183, 230, 177, 130, 228, 189, 147] @ nl @ nl
                @ bytes [232, 161, 168, 229, 141, 149, 239, 188, 136]
                @ ''application/x-www-form-urlencoded'' @ bytes [239, 188, 137, 239, 188, 154]
                @ nl @ nl @ ''```'' @ nl @ join nl form_lines @ nl @ ''```'' @ nl @ nl)
      | GraphQL spec \<Rightarrow>
          (let trimmed = trim (gq_variables spec)
           in ''### '' @ bytes [232, 175, 183, 230, 177, 130, 228, 189, 147, 239, 188, 136]
              @ ''GraphQL'' @ bytes [239, 188, 137] @ nl @ nl @ ''```graphql'' @ nl
              @ gq_query spec @ nl @ ''```'' @ nl @ nl
              @ (if trimmed \<noteq> [] \<and> trimmed \<noteq> ''{}'' then
                   ''**'' @ bytes [229, 143, 152, 233, 135, 143, 239, 188, 154] @ ''**'' @ nl
                   @ nl @ ''```json'' @ nl @ trimmed @ nl @ ''```'' @ nl @ nl
                 else []))
      | _ \<Rightarrow> [])"

definition example_section :: "response_example \<Rightarrow> str" where
  "example_section ex =
     ''**'' @ show_nat (unat (rx_status ex)) @ '' - '' @ rx_name ex @ ''**'' @ nl @ nl
     @ (if rx_content_type ex \<noteq> [] then ''- Content-Type'' @ bytes [239, 188, 154] @ ''`'' @ rx_content_type ex @ ''`'' @ nl
          @ nl else [])
     @ ''```json'' @ nl @ rx_body ex @ nl @ ''```'' @ nl @ nl"

definition examples_section :: "response_example list option \<Rightarrow> str" where
  "examples_section examples =
     (case examples of
        Some (ex # exs) \<Rightarrow> concat (map example_section (ex # exs))
      | _ \<Rightarrow> bytes [239, 188, 136, 230, 151, 160, 239, 188, 137] @ nl @ nl)"

definition markdown_section :: "(uuid, response_example list) hash_map \<Rightarrow> nat \<times> endpoint \<Rightarrow> str" where
  "markdown_section examples_by_endpoint entry =
     (case entry of (idx, ep) \<Rightarrow>
        ''## '' @ show_nat (idx + 1) @ ''. '' @ ep_name ep @ bytes [239, 188, 136]
        @ method_as_str (ep_method ep) @ '' '' @ ep_path ep @ bytes [239, 188, 137] @ nl @ nl
        @ (if ep_description ep \<noteq> [] then ''### '' @ bytes [230, 143, 143, 232, 191, 176] @ nl @ nl @ ep_description ep @ nl
             @ nl else [])
        @ ''### '' @ bytes [229, 143, 130, 230, 149, 176] @ nl @ nl @ table_head
        @ concat (map kv_line (rs_params (ep_request ep))) @ nl
        @ ''### '' @ bytes [232, 175, 183, 230, 177, 130, 229, 164, 180] @ nl @ nl @ table_head
        @ concat (map kv_line (rs_headers (ep_request ep))) @ nl
        @ auth_section (rs_auth (ep_request ep))
        @ body_section (rs_body (ep_request ep))
        @ ''### '' @ bytes [229, 147, 141, 229, 186, 148, 231, 164, 186, 228, 190, 139] @ nl
          @ nl
        @ examples_section (examples_by_endpoint (ep_id ep)))"

definition export_markdown ::
  "str \<Rightarrow> str \<Rightarrow> endpoint list \<Rightarrow> (uuid, response_example list) hash_map \<Rightarrow> str" where
  "export_markdown now_text project_name endpoints examples_by_endpoint =
     ''# '' @ project_name @ nl @ ''- ''
     @ bytes [229, 175, 188, 229, 135, 186, 230, 151, 182, 233, 151, 180, 239, 188, 154]
     @ now_text @ nl @ nl
     @ concat (map (markdown_section examples_by_endpoint)
         (List.enumerate 0 (filter (\<lambda>ep. \<not> is_grpc (ep_method ep)) endpoints)))"

section \<open>Smoke test document\<close>

definition CATEGORY_ORDER :: "str list" where
  "CATEGORY_ORDER = [(bytes [230, 173, 163, 229, 144, 145]), (bytes [232, 180, 159, 229, 144, 145]), (bytes [232, 190, 185, 231, 149, 140, 229, 128, 188]), (bytes [229, 174, 137, 229, 133, 168, 230, 128, 167]), (bytes [229, 133, 182, 228, 187, 150])]"

record smoke_run_result =
  sr_status :: int
  sr_duration_ms :: int

definition run_passed :: "smoke_run_result \<Rightarrow> bool" where
  "run_passed r \<longleftrightarrow> 200 \<le> sr_status r \<and> sr_status r < 400"

definition format_duration :: "(int \<Rightarrow> str) \<Rightarrow> int \<Rightarrow> str" where
  "format_duration secs_text ms = (if ms < 1000 then show_int ms @ ''ms'' else secs_text ms @ ''s'')"

definition expected_of :: "str \<Rightarrow> str" where
  "expected_of category =
     (if category = (bytes [230, 173, 163, 229, 144, 145]) then
        bytes [232, 175, 183, 230, 177, 130, 230, 136, 144, 229, 138, 159, 239, 188, 140, 229, 147, 141, 229, 186, 148, 228, 184, 186, 233, 162, 132, 230, 156, 159, 231, 187, 147, 230, 158, 156, 239, 188, 136]
        @ ''HTTP 2xx''
        @ bytes [239, 188, 140, 228, 184, 154, 229, 138, 161, 232, 191, 148, 229, 155, 158, 230, 136, 144, 229, 138, 159, 239, 188, 137, 227, 128, 130]
      else if category = (bytes [232, 180, 159, 229, 144, 145]) then
        bytes [232, 175, 183, 230, 177, 130, 232, 162, 171, 230, 173, 163, 231, 161, 174, 230, 139, 146, 231, 187, 157, 239, 188, 136]
        @ ''HTTP 4xx / 5xx''
        @ bytes [239, 188, 140, 228, 184, 154, 229, 138, 161, 232, 191, 148, 229, 155, 158, 229, 164, 177, 232, 180, 165, 239, 188, 137, 227, 128, 130]
      else if category = (bytes [232, 190, 185, 231, 149, 140, 229, 128, 188]) then
        bytes [229, 147, 141, 229, 186, 148, 231, 172, 166, 229, 144, 136, 232, 190, 185, 231, 149, 140, 229, 174, 154, 228, 185, 137, 239, 188, 136, 230, 136, 144, 229, 138, 159, 230, 136, 150, 230, 152, 142, 231, 161, 174, 230, 139, 146, 231, 187, 157, 239, 188, 140, 228, 184, 141, 229, 190, 151, 229, 188, 130, 229, 184, 184]
        @ ''/'' @ bytes [232, 182, 133, 230, 151, 182, 239, 188, 137, 227, 128, 130]
      else if category = (bytes [229, 174, 137, 229, 133, 168, 230, 128, 167]) then
        bytes [229, 174, 137, 229, 133, 168, 230, 160, 161, 233, 170, 140, 231, 148, 159, 230, 149, 136, 239, 188, 136, 230, 156, 170, 230, 142, 136, 230, 157, 131]
        @ '' / ''
        @ bytes [233, 157, 158, 230, 179, 149, 229, 143, 130, 230, 149, 176, 232, 174, 191, 233, 151, 174, 232, 162, 171, 230, 139, 146, 231, 187, 157, 239, 188, 137, 227, 128, 130]
      else bytes [229, 147, 141, 229, 186, 148, 231, 172, 166, 229, 144, 136, 228, 184, 154, 229, 138, 161, 233, 162, 132, 230, 156, 159, 227, 128, 130])"

type_synonym run_results = "(uuid, smoke_run_result) hash_map"

definition is_passed :: "run_results \<Rightarrow> test_case \<Rightarrow> bool" where
  "is_passed run_results c =
     (case run_results (tc_id c) of
        Some r \<Rightarrow> run_passed r | None \<Rightarrow> tc_last_run_status c = TC_Success)"

definition is_untested :: "run_results \<Rightarrow> test_case \<Rightarrow> bool" where
  "is_untested run_results c \<longleftrightarrow> run_results (tc_id c) = None \<and> tc_last_run_status c = TC_Untested"

definition kv_cell :: "key_value \<Rightarrow> str" where
  "kv_cell kv =
     (let pipe = replace_all ''|'' (bsl @ ''|'')
      in ''| '' @ pipe (kv_key kv) @ '' | '' @ pipe (kv_value kv) @ '' | ''
         @ (if kv_enabled kv then (bytes [230, 152, 175]) else (bytes [229, 144, 166])) @ '' |'' @ nl)"

definition case_badge :: "(int \<Rightarrow> str) \<Rightarrow> run_results \<Rightarrow> test_case \<Rightarrow> str" where
  "case_badge secs_text run_results c =
     (case run_results (tc_id c) of
        Some r \<Rightarrow>
          bytes [239, 188, 136] @ (if run_passed r then (bytes [226, 156, 133] @ '' '' @ bytes [233, 128, 154, 232, 191, 135]) else (bytes [226, 157, 140] @ '' '' @ bytes [229, 164, 177, 232, 180, 165])) @ '' ''
          @ bytes [194, 183] @ '' HTTP '' @ show_int (sr_status r) @ '' '' @ bytes [194, 183]
          @ '' '' @ format_duration secs_text (sr_duration_ms r) @ bytes [239, 188, 137]
      | None \<Rightarrow>
          (case tc_last_run_status c of
             TC_Success \<Rightarrow> (bytes [239, 188, 136, 226, 156, 133] @ '' '' @ bytes [233, 128, 154, 232, 191, 135, 239, 188, 137]) | TC_Failed \<Rightarrow> (bytes [239, 188, 136, 226, 157, 140] @ '' '' @ bytes [229, 164, 177, 232, 180, 165, 239, 188, 137]) | TC_Untested \<Rightarrow> (bytes [239, 188, 136, 226, 172, 156] @ '' '' @ bytes [230, 156, 170, 230, 181, 139, 232, 175, 149, 239, 188, 137])))"

definition render_case :: "(int \<Rightarrow> str) \<Rightarrow> bool \<Rightarrow> run_results \<Rightarrow> nat \<Rightarrow> test_case \<Rightarrow> str" where
  "render_case secs_text include_results run_results index c =
     (let badge = (if include_results then case_badge secs_text run_results c else []);
          head = ''| '' @ bytes [229, 144, 141, 231, 167, 176] @ '' | '' @ bytes [229, 128, 188]
                 @ '' | '' @ bytes [229, 144, 175, 231, 148, 168] @ '' |'' @ nl
                 @ ''|---|---|---|'' @ nl
      in ''**'' @ show_nat index @ ''. '' @ tc_name c @ ''**'' @ badge @ nl @ nl
         @ ''- '' @ bytes [232, 175, 183, 230, 177, 130, 239, 188, 154] @ ''`''
           @ method_as_str (tc_method c) @ '' '' @ tc_url_path c @ ''`'' @ nl
         @ (if tc_params c \<noteq> [] then
              nl @ ''Query '' @ bytes [229, 143, 130, 230, 149, 176, 239, 188, 154] @ nl @ nl @ head @ concat (map kv_cell (tc_params c)) @ nl
            else [])
         @ (if tc_headers c \<noteq> [] then
              bytes [232, 175, 183, 230, 177, 130, 229, 164, 180, 239, 188, 154] @ nl @ nl @ head @ concat (map kv_cell (tc_headers c)) @ nl
            else [])
         @ (if trim (tc_body_content c) \<noteq> [] then
              bytes [232, 175, 183, 230, 177, 130, 228, 189, 147, 239, 188, 136]
              @ tc_body_type c @ bytes [239, 188, 137, 239, 188, 154] @ nl @ nl @ ''```'' @ nl
              @ trim_end (tc_body_content c) @ nl @ ''```'' @ nl @ nl
            else [])
         @ ''**'' @ bytes [233, 162, 132, 230, 156, 159] @ ''**'' @ bytes [239, 188, 154]
           @ expected_of (tc_category c) @ nl @ nl)"

definition all_cases :: "endpoint list \<Rightarrow> (uuid, test_case list) hash_map \<Rightarrow> test_case list" where
  "all_cases endpoints cases_by_endpoint =
     concat (map (\<lambda>ep. case cases_by_endpoint (ep_id ep) of Some xs \<Rightarrow> xs | None \<Rightarrow> []) endpoints)"

text \<open>The counts of the scope section: passed, failed and untested. The code subtracts in \<open>usize\<close>.\<close>

definition run_counts :: "run_results \<Rightarrow> test_case list \<Rightarrow> nat \<times> nat \<times> nat" where
  "run_counts run_results cases =
     (let pass = length (filter (is_passed run_results) cases);
          untested = length (filter (is_untested run_results) cases)
      in (pass, length cases - pass - untested, untested))"

definition scope_section ::
  "str \<Rightarrow> str \<Rightarrow> endpoint list \<Rightarrow> test_case list \<Rightarrow> bool \<Rightarrow> run_results \<Rightarrow> str" where
  "scope_section now_text project_name endpoints cases include_results run_results =
     ''# '' @ project_name @ '' ''
     @ bytes [229, 134, 146, 231, 131, 159, 230, 181, 139, 232, 175, 149, 230, 150, 135, 230, 161, 163]
     @ nl @ nl
     @ ''> ''
       @ bytes [229, 175, 188, 229, 135, 186, 230, 151, 182, 233, 151, 180, 239, 188, 154]
       @ now_text @ '' '' @ bytes [194, 183] @ '' ''
       @ bytes [230, 142, 165, 229, 143, 163, 239, 188, 154] @ show_nat (length endpoints)
       @ '' '' @ bytes [194, 183] @ '' '' @ bytes [231, 148, 168, 228, 190, 139, 239, 188, 154]
       @ show_nat (length cases) @ nl @ nl
     @ ''## ''
       @ bytes [228, 184, 128, 227, 128, 129, 230, 181, 139, 232, 175, 149, 232, 140, 131, 229, 155, 180]
       @ nl @ nl @ ''| '' @ bytes [229, 136, 134, 231, 187, 132] @ '' | ''
       @ bytes [231, 148, 168, 228, 190, 139, 230, 149, 176] @ '' |'' @ nl @ ''|---|---|'' @ nl
     @ concat (map (\<lambda>cat.
         ''| '' @ cat @ '' | ''
         @ show_nat (length (filter (\<lambda>c. tc_category c = cat) cases)) @ '' |'' @ nl) CATEGORY_ORDER)
     @ (if include_results then
          (case run_counts run_results cases of (pass, failed, untested) \<Rightarrow>
             nl
             @ bytes [232, 191, 144, 232, 161, 140, 231, 187, 147, 230, 158, 156, 239, 188, 154, 233, 128, 154, 232, 191, 135]
             @ '' '' @ show_nat pass @ '' '' @ bytes [194, 183] @ '' ''
             @ bytes [229, 164, 177, 232, 180, 165] @ '' '' @ show_nat failed @ '' ''
             @ bytes [194, 183] @ '' '' @ bytes [230, 156, 170, 230, 181, 139, 232, 175, 149]
             @ '' '' @ show_nat untested @ nl)
        else [])
     @ nl @ bytes [232, 166, 134, 231, 155, 150, 230, 142, 165, 229, 143, 163, 239, 188, 154]
            @ nl @ nl
     @ concat (map (\<lambda>ep.
         ''- '' @ ep_name ep @ bytes [239, 188, 136] @ method_as_str (ep_method ep) @ '' ''
         @ ep_path ep @ bytes [239, 188, 137] @ nl) endpoints)
     @ nl"

text \<open>
  The cases by category and endpoint. The fold carries the text, the running number of the cases and
  whether the heading of the category has been written.
\<close>

definition endpoint_group ::
  "(int \<Rightarrow> str) \<Rightarrow> (uuid, test_case list) hash_map \<Rightarrow> bool \<Rightarrow> run_results \<Rightarrow> str \<Rightarrow> endpoint
     \<Rightarrow> str \<times> nat \<times> bool \<Rightarrow> str \<times> nat \<times> bool" where
  "endpoint_group secs_text cases_by_endpoint include_results run_results cat ep st =
     (let (out, case_index, rendered) = st;
          group = filter (\<lambda>c. tc_category c = cat)
                    (case cases_by_endpoint (ep_id ep) of Some xs \<Rightarrow> xs | None \<Rightarrow> [])
      in if group = [] then st
         else
           (out
            @ (if rendered then [] else ''### '' @ cat @ nl @ nl)
            @ ''#### '' @ method_as_str (ep_method ep) @ '' '' @ ep_path ep
              @ bytes [239, 188, 136] @ ep_name ep @ bytes [239, 188, 137] @ nl @ nl
            @ concat (map (\<lambda>(i, c). render_case secs_text include_results run_results i c)
                (List.enumerate (case_index + 1) group))
            @ nl,
            case_index + length group, True))"

definition category_group ::
  "(int \<Rightarrow> str) \<Rightarrow> endpoint list \<Rightarrow> (uuid, test_case list) hash_map \<Rightarrow> bool \<Rightarrow> run_results \<Rightarrow> str
     \<Rightarrow> str \<times> nat \<Rightarrow> str \<times> nat" where
  "category_group secs_text endpoints cases_by_endpoint include_results run_results cat st =
     (case fold (endpoint_group secs_text cases_by_endpoint include_results run_results cat) endpoints
             (fst st, snd st, False) of
        (out, case_index, _) \<Rightarrow> (out, case_index))"

definition checklist_status :: "(int \<Rightarrow> str) \<Rightarrow> bool \<Rightarrow> run_results \<Rightarrow> test_case \<Rightarrow> str" where
  "checklist_status secs_text include_results run_results c =
     (if \<not> include_results then []
      else
        (case run_results (tc_id c) of
           Some r \<Rightarrow>
             '' '' @ (if run_passed r then (bytes [226, 156, 133]) else (bytes [226, 157, 140])) @ '' HTTP ''
             @ show_int (sr_status r) @ '' '' @ bytes [194, 183] @ '' ''
             @ format_duration secs_text (sr_duration_ms r)
         | None \<Rightarrow>
             (case tc_last_run_status c of
                TC_Success \<Rightarrow> ('' '' @ bytes [226, 156, 133]) | TC_Failed \<Rightarrow> ('' '' @ bytes [226, 157, 140]) | TC_Untested \<Rightarrow> ('' '' @ bytes [226, 172, 156]))))"

definition checklist_section :: "(int \<Rightarrow> str) \<Rightarrow> test_case list \<Rightarrow> bool \<Rightarrow> run_results \<Rightarrow> str" where
  "checklist_section secs_text cases include_results run_results =
     ''## ''
     @ bytes [228, 184, 137, 227, 128, 129, 233, 170, 140, 230, 148, 182, 230, 184, 133, 229, 141, 149]
     @ nl @ nl
     @ (if cases = [] then bytes [239, 188, 136, 230, 151, 160, 231, 148, 168, 228, 190, 139, 229, 143, 175, 233, 170, 140, 230, 148, 182, 239, 188, 137]
          @ nl
        else
          concat (map (\<lambda>cat.
            let group = filter (\<lambda>c. tc_category c = cat) cases
            in if group = [] then []
               else cat @ bytes [239, 188, 154] @ nl @ nl
                    @ concat (map (\<lambda>c.
                        ''- [ ] '' @ tc_name c
                        @ checklist_status secs_text include_results run_results c
                        @ bytes [239, 188, 136] @ method_as_str (tc_method c) @ '' ''
                        @ tc_url_path c @ bytes [239, 188, 137] @ nl) group)
                    @ nl) CATEGORY_ORDER))"

definition render_smoke ::
  "(int \<Rightarrow> str) \<Rightarrow> str \<Rightarrow> str \<Rightarrow> endpoint list \<Rightarrow> (uuid, test_case list) hash_map \<Rightarrow> bool \<Rightarrow> run_results \<Rightarrow> str" where
  "render_smoke secs_text now_text project_name endpoints cases_by_endpoint include_results run_results =
     (let cases = all_cases endpoints cases_by_endpoint;
          (groups, case_index) =
            fold (category_group secs_text endpoints cases_by_endpoint include_results run_results)
              CATEGORY_ORDER ([], 0)
      in scope_section now_text project_name endpoints cases include_results run_results
         @ ''## ''
           @ bytes [228, 186, 140, 227, 128, 129, 230, 181, 139, 232, 175, 149, 231, 148, 168, 228, 190, 139]
           @ nl @ nl
         @ groups
         @ (if case_index = 0 then bytes [239, 188, 136, 230, 154, 130, 230, 151, 160, 230, 181, 139, 232, 175, 149, 231, 148, 168, 228, 190, 139, 239, 188, 140, 232, 175, 183, 229, 133, 136, 229, 156, 168, 230, 142, 165, 229, 143, 163, 227, 128, 140, 230, 181, 139, 232, 175, 149, 231, 148, 168, 228, 190, 139, 227, 128, 141, 230, 160, 135, 231, 173, 190, 228, 184, 173, 230, 183, 187, 229, 138, 160, 227, 128, 130, 239, 188, 137]
           @ nl @ nl else [])
         @ checklist_section secs_text cases include_results run_results)"

section \<open>Lemmas\<close>

text \<open>The subtraction of the counts cannot wrap: a case that passed is not untested.\<close>

lemma run_counts_sum:
  "run_counts rr cases = (p, f, u) \<Longrightarrow> p + f + u = length cases"
proof -
  assume counts: "run_counts rr cases = (p, f, u)"
  have "length (filter (is_passed rr) cases) + length (filter (is_untested rr) cases) \<le> length cases"
    by (induction cases) (auto simp: is_passed_def is_untested_def split: option.splits)
  then show ?thesis
    using counts by (auto simp: run_counts_def Let_def)
qed

lemma endpoint_group_count:
  "fst (snd (endpoint_group s cbe b rr cat ep st))
     = fst (snd st) + length (filter (\<lambda>c. tc_category c = cat)
                        (case cbe (ep_id ep) of Some xs \<Rightarrow> xs | None \<Rightarrow> []))"
  by (simp add: endpoint_group_def Let_def split: prod.split)

lemma fold_endpoint_group_count:
  "fst (snd (fold (endpoint_group s cbe b rr cat) eps st))
     = fst (snd st) + length (filter (\<lambda>c. tc_category c = cat) (all_cases eps cbe))"
  by (induction eps arbitrary: st) (simp_all add: endpoint_group_count all_cases_def)

lemma category_group_count:
  "snd (category_group s eps cbe b rr cat st)
     = snd st + length (filter (\<lambda>c. tc_category c = cat) (all_cases eps cbe))"
  using fold_endpoint_group_count[of s cbe b rr cat eps "(fst st, snd st, False)"]
  by (auto simp: category_group_def split: prod.split)

lemma rendered_count:
  "snd (fold (category_group s eps cbe b rr) cats st)
     = snd st + sum_list (map (\<lambda>cat. length (filter (\<lambda>c. tc_category c = cat) (all_cases eps cbe))) cats)"
  by (induction cats arbitrary: st) (simp_all add: category_group_count)

lemma sum_by_category:
  "distinct cats \<Longrightarrow>
     sum_list (map (\<lambda>cat. length (filter (\<lambda>c. tc_category c = cat) cs)) cats)
       = length (filter (\<lambda>c. tc_category c \<in> set cats) cs)"
proof (induction cats)
  case (Cons cat cats)
  have "length (filter (\<lambda>c. tc_category c \<in> set (cat # cats)) cs)
      = length (filter (\<lambda>c. tc_category c = cat) cs) + length (filter (\<lambda>c. tc_category c \<in> set cats) cs)"
    using Cons.prems by (induction cs) auto
  then show ?case using Cons by simp
qed simp

lemma distinct_categories: "distinct CATEGORY_ORDER"
  by (simp add: CATEGORY_ORDER_def bytes_def)

text \<open>
  The document holds a case exactly when its category is one of the five: of the cases the header
  counts, those of another category are in no section.
\<close>

lemma smoke_cases_rendered:
  "snd (fold (category_group s eps cbe b rr) CATEGORY_ORDER ([], 0))
     = length (filter (\<lambda>c. tc_category c \<in> set CATEGORY_ORDER) (all_cases eps cbe))"
  by (simp add: rendered_count sum_by_category distinct_categories)

end
