(* ===== verification/DocHtml.thy ===== *)
theory DocHtml
  imports DocMarkdown
begin

text \<open>
  The offline HTML document of a project (\<open>crates/fox-openapi/src/html.rs\<close>), byte for byte: one card
  per endpoint with its tables, body and response examples, all user data passed through \<open>escape\<close>.
\<close>

section \<open>The page\<close>

definition escape :: "str \<Rightarrow> str" where
  "escape s =
     replace_all [quote] ''&quot;''
       (replace_all ''>'' ''&gt;'' (replace_all ''<'' ''&lt;'' (replace_all ''&'' ''&amp;'' s)))"

definition CSS :: str where
  "CSS =
     nl
     @ '':root { color-scheme: dark; }'' @ nl
     @ ''* { box-sizing: border-box; }'' @ nl
     @ ''body { margin: 0; padding: 32px 20px 60px; background: #0c0c0d; color: #e7e7ea;'' @ nl
     @ ''       font: 14px/1.7 -apple-system, \"PingFang SC\", \"Segoe UI\", sans-serif; }'' @ nl
     @ ''main, header.page-head, footer.page-foot { max-width: 880px; margin: 0 auto; }'' @ nl
     @ ''h1 { font-size: 26px; margin: 0 0 6px; }'' @ nl
     @ ''.meta { color: #9a9aa3; margin: 0 0 28px; font-size: 13px; }'' @ nl
     @ ''.card { background: #161618; border: 1px solid #232326; border-radius: 12px;'' @ nl
     @ ''        padding: 18px 20px; margin-bottom: 18px; }'' @ nl
     @ ''.card-head { display: flex; align-items: center; gap: 10px; flex-wrap: wrap; }'' @ nl
     @ ''.card-head h2 { font-size: 16px; margin: 0; }'' @ nl
     @ ''.idx { margin-left: auto; color: #62626b; font-size: 12px; }'' @ nl
     @ ''.method { font-family: ui-monospace, monospace; font-weight: 700; font-size: 12px;'' @ nl
     @ ''          padding: 2px 10px; border-radius: 6px; }'' @ nl
     @ ''.m-get  { color: #34d399; background: rgba(16,185,129,.12); }'' @ nl
     @ ''.m-post { color: #fbbf24; background: rgba(245,158,11,.12); }'' @ nl
     @ ''.m-put  { color: #60a5fa; background: rgba(59,130,246,.12); }'' @ nl
     @ ''.m-patch{ color: #a78bfa; background: rgba(167,139,250,.14); }'' @ nl
     @ ''.m-delete { color: #fb7185; background: rgba(239,68,68,.12); }'' @ nl
     @ ''.path { font-family: ui-monospace, monospace; font-size: 14px; color: #e7e7ea;'' @ nl
     @ ''        word-break: break-all; }'' @ nl
     @ ''.desc { color: #9a9aa3; margin: 10px 0 0; white-space: pre-wrap; }'' @ nl
     @ ''.kv-line { color: #9a9aa3; } .kv-line b { color: #62626b; font-weight: 600; margin-right: 8px; }'' @ nl
     @ ''h3 { font-size: 12px; text-transform: uppercase; letter-spacing: .06em;'' @ nl
     @ ''     color: #62626b; margin: 20px 0 8px; }'' @ nl
     @ ''table { width: 100%; border-collapse: collapse; font-size: 13px; }'' @ nl
     @ ''th, td { text-align: left; padding: 6px 10px; border-bottom: 1px solid #232326; }'' @ nl
     @ ''th { color: #a3a3a3; font-weight: 600; font-size: 12px; }'' @ nl
     @ ''code { font-family: ui-monospace, monospace; font-size: 12.5px; color: #c8c8d0; }'' @ nl
     @ ''pre { background: #101012; border: 1px solid #232326; border-radius: 8px;'' @ nl
     @ ''      padding: 12px 14px; overflow-x: auto; font-family: ui-monospace, monospace;'' @ nl
     @ ''      font-size: 12.5px; line-height: 1.6; margin: 0; }'' @ nl
     @ ''footer.page-foot { margin-top: 36px; color: #62626b; font-size: 12px; text-align: center; }'' @ nl"

definition auth_line :: "auth_spec \<Rightarrow> str" where
  "auth_line auth =
     (case auth of
        Auth_None \<Rightarrow> []
      | Bearer _ \<Rightarrow> (''Bearer Token'' @ bytes [239, 188, 136] @ ''Authorization '' @ bytes [229, 164, 180, 239, 188, 137])
      | Basic _ _ \<Rightarrow> ''Basic Auth''
      | ApiKey k _ location \<Rightarrow> ''API Key'' @ bytes [239, 188, 154] @ k @ bytes [239, 188, 136]
          @ location_text location @ bytes [239, 188, 137]
      | OAuth2 _ _ _ _ _ _ _ \<Rightarrow> ''OAuth2''
      | Digest _ _ \<Rightarrow> (''Digest '' @ bytes [232, 174, 164, 232, 175, 129, 239, 188, 136] @ ''RFC 7616'' @ bytes [239, 188, 137])
      | Hawk _ _ \<Rightarrow> (''Hawk '' @ bytes [232, 174, 164, 232, 175, 129, 239, 188, 136] @ ''HMAC-SHA-256'' @ bytes [239, 188, 137])
      | AwsV4 _ _ _ _ _ \<Rightarrow> ''AWS Signature V4''
      | Hmac _ _ \<Rightarrow> ''HMAC (AK-SK)''
      | DynamicSignature config \<Rightarrow>
          bytes [229, 138, 168, 230, 128, 129, 231, 173, 190, 229, 144, 141, 239, 188, 154]
          @ ''Key '' @ ds_app_key config @ bytes [239, 188, 140]
          @ algorithm_debug (ds_algorithm config) @ ''/'' @ encoding_debug (ds_encoding config)
          @ bytes [239, 188, 140, 231, 173, 190, 229, 144, 141, 229, 164, 180] @ '' ''
          @ ds_sig_header config)"

definition html_block :: "str \<Rightarrow> str \<Rightarrow> str" where
  "html_block title body = ''<h3>'' @ escape title @ ''</h3><pre>'' @ escape body @ ''</pre>'' @ nl"

definition html_row :: "key_value \<Rightarrow> str" where
  "html_row kv =
     (let value = (if kv_example kv = [] then kv_value kv else kv_example kv)
      in ''<tr><td><code>'' @ escape (kv_key kv) @ ''</code></td><td><code>'' @ escape value
         @ ''</code></td><td>'' @ escape (kv_description kv) @ ''</td></tr>'' @ nl)"

definition kv_table :: "str \<Rightarrow> key_value list \<Rightarrow> str" where
  "kv_table title kvs =
     (let rows = filter (\<lambda>kv. kv_enabled kv \<and> trim (kv_key kv) \<noteq> []) kvs
      in if rows = [] then []
         else ''<h3>'' @ title @ ''</h3><table><thead><tr><th>''
              @ bytes [229, 144, 141, 231, 167, 176] @ ''</th><th>'' @ bytes [229, 128, 188]
              @ '' / '' @ bytes [231, 164, 186, 228, 190, 139] @ ''</th><th>''
              @ bytes [232, 175, 180, 230, 152, 142] @ ''</th></tr></thead><tbody>'' @ nl
              @ concat (map html_row rows)
              @ ''</tbody></table>'' @ nl)"

definition html_body :: "body_spec \<Rightarrow> str" where
  "html_body body =
     (case body of
        Body_Json raw \<Rightarrow> if trim raw \<noteq> [] then html_block (bytes [232, 175, 183, 230, 177, 130] @ '' Body (JSON)'') raw else []
      | Body_Text raw \<Rightarrow> if trim raw \<noteq> [] then html_block (bytes [232, 175, 183, 230, 177, 130] @ '' Body (Text)'') raw else []
      | UrlEncoded fs \<Rightarrow> kv_table (bytes [232, 175, 183, 230, 177, 130] @ '' Body (Form)'') fs
      | _ \<Rightarrow> [])"

definition html_example :: "response_example \<Rightarrow> str" where
  "html_example ex =
     html_block (bytes [229, 147, 141, 229, 186, 148, 231, 164, 186, 228, 190, 139] @ '' ''
              @ show_nat (unat (rx_status ex)) @ '' '' @ escape (rx_name ex)) (rx_body ex)"

definition write_card :: "nat \<Rightarrow> endpoint \<Rightarrow> response_example list \<Rightarrow> str" where
  "write_card index ep examples =
     (let meth = to_lowercase (method_as_str (ep_method ep));
          title = (if ep_name ep = [] then (bytes [230, 156, 170, 229, 145, 189, 229, 144, 141, 230, 142, 165, 229, 143, 163]) else escape (ep_name ep));
          auth = auth_line (rs_auth (ep_request ep))
      in ''<section class=\"card\"><div class=\"card-head\">''
         @ (''<span class=\"method m-'' @ meth @ ''\">'') @ escape (method_as_str (ep_method ep))
         @ ''</span><code class=\"path\">'' @ escape (ep_path ep) @ ''</code><h2>'' @ title
         @ ''</h2><span class=\"idx\">#'' @ show_nat index @ ''</span></div>'' @ nl
         @ (if ep_description ep \<noteq> [] then
              ''<p class=\"desc\">'' @ escape (ep_description ep) @ ''</p>'' @ nl
            else [])
         @ (if auth \<noteq> [] then
              ''<p class=\"kv-line\"><b>'' @ (bytes [232, 174, 164, 232, 175, 129]) @ ''</b>'' @ auth @ ''</p>''
            else [])
         @ kv_table (''Query '' @ bytes [229, 143, 130, 230, 149, 176]) (rs_params (ep_request ep))
         @ kv_table (bytes [232, 175, 183, 230, 177, 130, 229, 164, 180]) (rs_headers (ep_request ep))
         @ html_body (rs_body (ep_request ep))
         @ concat (map html_example examples)
         @ ''</section>'' @ nl)"

definition html_card :: "(uuid, response_example list) hash_map \<Rightarrow> nat \<times> endpoint \<Rightarrow> str" where
  "html_card examples_by_endpoint entry =
     (case entry of (idx, ep) \<Rightarrow>
        write_card (idx + 1) ep
          (case examples_by_endpoint (ep_id ep) of Some xs \<Rightarrow> xs | None \<Rightarrow> []))"

definition export_html ::
  "str \<Rightarrow> endpoint list \<Rightarrow> (uuid, response_example list) hash_map \<Rightarrow> str" where
  "export_html project_name endpoints examples_by_endpoint =
     ''<!DOCTYPE html>'' @ nl @ ''<html lang=\"zh-CN\">'' @ nl @ ''<head>'' @ nl
     @ ''<meta charset=\"utf-8\">'' @ nl
     @ ''<meta name=\"viewport\" content=\"width=device-width, initial-scale=1\">'' @ nl
     @ ''<title>'' @ escape project_name @ ('' '' @ bytes [194, 183] @ '' API '' @ bytes [230, 150, 135, 230, 161, 163]) @ ''</title>'' @ nl
     @ ''<style>'' @ CSS @ ''</style>'' @ nl @ ''</head>'' @ nl @ ''<body>'' @ nl
     @ ''<header class=\"page-head\"><h1>'' @ escape project_name @ ''</h1>''
     @ ''<p class=\"meta\">'' @ (''API '' @ bytes [230, 150, 135, 230, 161, 163] @ '' '' @ bytes [194, 183] @ '' '' @ bytes [231, 148, 177] @ '' RustFox '' @ bytes [229, 175, 188, 229, 135, 186] @ '' '' @ bytes [194, 183] @ '' '' @ bytes [229, 133, 177] @ '' '') @ show_nat (length endpoints)
     @ ('' '' @ bytes [228, 184, 170, 230, 142, 165, 229, 143, 163]) @ ''</p></header>'' @ nl
     @ ''<main>''
     @ concat (map (html_card examples_by_endpoint)
         (List.enumerate 0 (filter (\<lambda>ep. \<not> is_grpc (ep_method ep)) endpoints)))
     @ ''</main>'' @ nl
     @ ''<footer class=\"page-foot\">Generated by RustFox</footer>'' @ nl
     @ ''</body>'' @ nl @ ''</html>'' @ nl"

section \<open>Escaping\<close>

definition esc_char :: "char \<Rightarrow> str" where
  "esc_char c =
     (if c = CHR ''&'' then ''&amp;'' else if c = CHR ''<'' then ''&lt;''
      else if c = CHR ''>'' then ''&gt;'' else if c = quote then ''&quot;'' else [c])"

lemma replace_char: "replace_all [c] r s = concat (map (\<lambda>x. if x = c then r else [x]) s)"
proof (induction s)
  case (Cons x s)
  show ?case
  proof (cases "x = c")
    case True
    then show ?thesis using replace_all_here[of "[c]" r s] Cons by simp
  next
    case False
    then have "\<not> prefix [c] (x # s)" by simp
    then show ?thesis using False Cons by (simp add: replace_all_step)
  qed
qed simp

lemma replace_char_append: "replace_all [c] r (a @ b) = replace_all [c] r a @ replace_all [c] r b"
  by (simp add: replace_char)

lemma escape_nil: "escape [] = []"
  by (simp add: escape_def replace_char)

text \<open>The four replacements in a row are one pass: a replacement text is not replaced again.\<close>

lemma escape_chars: "escape s = concat (map esc_char s)"
proof -
  have esc1: "escape [c] = esc_char c" for c
    by (simp add: escape_def replace_char esc_char_def quote_def)
  have app: "escape (a @ b) = escape a @ escape b" for a b
    by (simp only: escape_def replace_char_append)
  show ?thesis
  proof (induction s)
    case (Cons c s)
    then show ?case using app[of "[c]" s] by (simp add: esc1)
  qed (simp add: escape_nil)
qed

lemma escape_marks: "c \<in> set (escape s) \<Longrightarrow> c \<noteq> CHR ''<'' \<and> c \<noteq> CHR ''>'' \<and> c \<noteq> quote"
  by (auto simp: escape_chars esc_char_def quote_def split: if_splits)

text \<open>Reading the entities back gives the text.\<close>

fun unescape :: "nat \<Rightarrow> str \<Rightarrow> str" where
  "unescape 0 s = s"
| "unescape (Suc n) [] = []"
| "unescape (Suc n) (c # cs) =
     (case find_map (\<lambda>(e, ch). map_option (Pair ch) (strip_prefix e (c # cs)))
             [(''&amp;'', CHR ''&''), (''&lt;'', CHR ''<''), (''&gt;'', CHR ''>''), (''&quot;'', quote)] of
        Some (ch, rest) \<Rightarrow> ch # unescape n rest
      | None \<Rightarrow> c # unescape n cs)"

lemma unescape_escape: "length s \<le> n \<Longrightarrow> unescape n (escape s) = s"
proof (induction s arbitrary: n)
  case Nil
  then show ?case by (cases n) (simp_all add: escape_chars)
next
  case (Cons c s)
  then obtain m where m: "n = Suc m" by (cases n) auto
  have "unescape m (concat (map esc_char s)) = s"
    using Cons.IH[of m] Cons.prems m by (simp add: escape_chars)
  then show ?case
    by (simp add: m escape_chars esc_char_def)
qed

section \<open>The tags of a page\<close>

text \<open>The texts between angle brackets, when the brackets alternate.\<close>

fun tag_scan :: "str option \<Rightarrow> str \<Rightarrow> str list option" where
  "tag_scan None [] = Some []"
| "tag_scan (Some t) [] = None"
| "tag_scan None (c # cs) =
     (if c = CHR ''<'' then tag_scan (Some []) cs
      else if c = CHR ''>'' then None else tag_scan None cs)"
| "tag_scan (Some t) (c # cs) =
     (if c = CHR ''>'' then map_option (\<lambda>ts. t # ts) (tag_scan None cs)
      else if c = CHR ''<'' then None else tag_scan (Some (t @ [c])) cs)"

definition page_tags :: "str list" where
  "page_tags =
     [''!DOCTYPE html'', ''html lang=\"zh-CN\"'', ''head'', ''meta charset=\"utf-8\"'',
      ''meta name=\"viewport\" content=\"width=device-width, initial-scale=1\"'',
      ''title'', ''/title'', ''style'', ''/style'', ''/head'', ''body'', ''header class=\"page-head\"'',
      ''h1'', ''/h1'', ''p class=\"meta\"'', ''/p'', ''/header'', ''main'', ''/main'',
      ''footer class=\"page-foot\"'', ''/footer'', ''/body'', ''/html'',
      ''section class=\"card\"'', ''div class=\"card-head\"'', ''/div'',
      ''span class=\"method m-get\"'', ''span class=\"method m-post\"'', ''span class=\"method m-put\"'',
      ''span class=\"method m-delete\"'', ''span class=\"method m-patch\"'', ''span class=\"method m-head\"'',
      ''span class=\"method m-options\"'', ''span class=\"method m-grpc\"'', ''/span'',
      ''code class=\"path\"'', ''code'', ''/code'', ''h2'', ''/h2'', ''span class=\"idx\"'',
      ''p class=\"desc\"'', ''p class=\"kv-line\"'', ''b'', ''/b'', ''h3'', ''/h3'', ''pre'', ''/pre'',
      ''table'', ''thead'', ''tr'', ''th'', ''/th'', ''/tr'', ''/thead'', ''tbody'', ''td'', ''/td'',
      ''/tbody'', ''/table'', ''/section'']"

definition page_text :: "str \<Rightarrow> bool" where
  "page_text s \<longleftrightarrow>
     (case tag_scan None s of Some ts \<Rightarrow> list_all (\<lambda>t. t \<in> set page_tags) ts | None \<Rightarrow> False)"

lemma append_fun_Cons: "(@) (x # xs) = (\<lambda>ys. x # xs @ ys)"
  by (simp add: fun_eq_iff)

lemma tag_scan_append:
  "tag_scan st xs = Some ts \<Longrightarrow> tag_scan st (xs @ ys) = map_option (\<lambda>us. ts @ us) (tag_scan None ys)"
proof (induction st xs arbitrary: ts rule: tag_scan.induct)
  case 1
  then show ?case by (cases "tag_scan None ys") auto
qed (auto simp: option.map_comp comp_def append_fun_Cons split: if_splits)

lemma page_text_append [intro]: "page_text xs \<Longrightarrow> page_text ys \<Longrightarrow> page_text (xs @ ys)"
  by (auto simp: page_text_def tag_scan_append split: option.splits)

lemma page_text_concat [intro]: "(\<And>x. x \<in> set xs \<Longrightarrow> page_text (f x)) \<Longrightarrow> page_text (concat (map f xs))"
  by (induction xs) (auto, simp add: page_text_def)

lemma page_text_plain:
  "(\<And>c. c \<in> set s \<Longrightarrow> c \<noteq> CHR ''<'' \<and> c \<noteq> CHR ''>'') \<Longrightarrow> page_text s"
proof -
  assume plain: "\<And>c. c \<in> set s \<Longrightarrow> c \<noteq> CHR ''<'' \<and> c \<noteq> CHR ''>''"
  then have "tag_scan None s = Some []" by (induction s) auto
  then show ?thesis by (simp add: page_text_def)
qed

lemma page_text_escape [simp, intro]: "page_text (escape s)"
  by (rule page_text_plain) (blast dest: escape_marks)

lemma page_text_nat [simp, intro]: "page_text (show_nat n)"
  by (rule page_text_plain) (auto dest!: show_nat_digits simp: digit_val_def Let_def)

lemma page_text_nl [simp, intro]: "page_text nl"
  by (simp add: page_text_def text_defs)

lemma page_text_Nil [simp, intro]: "page_text []"
  by (simp add: page_text_def)

section \<open>User data and tags\<close>

definition no_brackets :: "str \<Rightarrow> bool" where
  "no_brackets s \<longleftrightarrow> list_all (\<lambda>c. c \<noteq> CHR ''<'' \<and> c \<noteq> CHR ''>'') s"

text \<open>The two kinds of authentication whose line is written without \<open>escape\<close>.\<close>

definition html_auth_ok :: "auth_spec \<Rightarrow> bool" where
  "html_auth_ok auth =
     (case auth of
        ApiKey k _ _ \<Rightarrow> no_brackets k
      | DynamicSignature config \<Rightarrow> no_brackets (ds_app_key config) \<and> no_brackets (ds_sig_header config)
      | _ \<Rightarrow> True)"

lemma page_text_no_brackets: "no_brackets s \<Longrightarrow> page_text s"
  by (rule page_text_plain) (auto simp: no_brackets_def list_all_iff)

lemma page_text_location: "page_text (location_text l)"
proof -
  have "list_all (\<lambda>l. page_text (location_text l)) [Loc_Header, Loc_Query]" by code_simp
  then show ?thesis by (cases l) simp_all
qed

lemma page_text_algorithm: "page_text (algorithm_debug a)"
proof -
  have "list_all (\<lambda>a. page_text (algorithm_debug a)) [MD5, SHA256, HmacSHA256]" by code_simp
  then show ?thesis by (cases a) simp_all
qed

lemma page_text_encoding: "page_text (encoding_debug e)"
proof -
  have "list_all (\<lambda>e. page_text (encoding_debug e)) [HexLower, HexUpper, Base64]" by code_simp
  then show ?thesis by (cases e) simp_all
qed

lemmas page_text_parts = page_text_location page_text_algorithm page_text_encoding

lemma page_text_auth: "html_auth_ok auth \<Longrightarrow> page_text (auth_line auth)"
  unfolding auth_line_def html_auth_ok_def
  by (cases auth; simp only: auth_spec.case;
      (intro page_text_append page_text_parts)?; (elim conjE)?; (erule page_text_no_brackets | code_simp)?)

lemma page_text_block: "page_text (html_block title body)"
  unfolding html_block_def by (intro page_text_append) (simp | code_simp)+

lemma page_text_table: "page_text title \<Longrightarrow> page_text (kv_table title kvs)"
proof -
  assume title: "page_text title"
  have row: "page_text (html_row kv)" for kv
    unfolding html_row_def Let_def by (intro page_text_append) (simp | code_simp)+
  have "page_text (concat (map html_row rows))" for rows
    by (rule page_text_concat) (rule row)
  then show ?thesis
    unfolding kv_table_def Let_def
    by (simp only: split: if_split) (intro conjI impI page_text_append title; (simp | code_simp))
qed

lemma page_text_body: "page_text (html_body body)"
  unfolding html_body_def
  by (cases body; simp only: body_spec.case page_text_block page_text_Nil if_cancel split: if_split;
      (rule page_text_table)?; (simp | code_simp)?)

lemma page_text_method: "page_text (''<span class=\"method m-'' @ to_lowercase (method_as_str m) @ ''\">'')"
proof -
  have "list_all (\<lambda>m. page_text (''<span class=\"method m-'' @ to_lowercase (method_as_str m) @ ''\">''))
      all_with_grpc"
    by code_simp
  then show ?thesis by (cases m) (simp_all add: all_with_grpc_def)
qed

lemma page_text_labels:
  "page_text (bytes [230, 156, 170, 229, 145, 189, 229, 144, 141, 230, 142, 165, 229, 143, 163])" "page_text (bytes [232, 174, 164, 232, 175, 129])" "page_text (''Query '' @ bytes [229, 143, 130, 230, 149, 176])" "page_text (bytes [232, 175, 183, 230, 177, 130, 229, 164, 180])"
  by code_simp+

lemma page_text_title: "page_text (if s = [] then (bytes [230, 156, 170, 229, 145, 189, 229, 144, 141, 230, 142, 165, 229, 143, 163]) else escape s)"
  using page_text_labels(1) by simp

lemma page_text_if: "page_text s \<Longrightarrow> page_text (if b then s else [])"
  by simp

lemma page_text_examples: "page_text (concat (map html_example xs))"
  by (rule page_text_concat) (simp add: html_example_def page_text_block)

lemma page_text_card:
  assumes "html_auth_ok (rs_auth (ep_request ep))"
  shows "page_text (write_card index ep xs)"
  unfolding write_card_def Let_def
  by (intro page_text_append page_text_if page_text_title page_text_table page_text_method page_text_body
      page_text_auth[OF assms] page_text_examples page_text_escape page_text_nat page_text_nl
      page_text_labels(2,3,4); code_simp)

lemma page_text_CSS: "page_text CSS"
  unfolding CSS_def by (intro page_text_append page_text_nl; code_simp)

text \<open>
  What the code does not escape: the header of an API key goes into the page as it is. And what it
  escapes twice: the name of a response example.
\<close>

lemma api_key_becomes_markup: "\<not> page_text (auth_line (ApiKey ''<script>'' [] Loc_Header))"
  by code_simp

lemma example_name_escaped_twice:
  "escape (''200 '' @ escape ''<'') = ''200 &amp;lt;''"
  by (simp add: escape_chars esc_char_def quote_def)

section \<open>Properties\<close>

text \<open>
  C38: User data cannot become markup in the HTML document: when no API key header and no dynamic signature
  holds an angle bracket, the brackets of the page alternate and every tag is one of the fixed list
  the template writes, whatever the names, paths, values, bodies and descriptions of the project are.
\<close>

theorem html_data_inert:
  assumes "list_all (\<lambda>ep. html_auth_ok (rs_auth (ep_request ep))) eps"
  shows "page_text (export_html n eps ex)"
proof -
  let ?eps = "filter (\<lambda>ep. \<not> is_grpc (ep_method ep)) eps"
  have "page_text (html_card ex e)" if "e \<in> set (List.enumerate 0 ?eps)" for e
  proof -
    have "snd e \<in> set ?eps"
      using imageI[OF that, of snd] by (simp only: set_map[symmetric] map_snd_enumerate)
    then have "html_auth_ok (rs_auth (ep_request (snd e)))"
      using assms by (simp add: list_all_iff)
    then show ?thesis
      by (cases e) (simp add: html_card_def page_text_card)
  qed
  then have "page_text (concat (map (html_card ex)
      (List.enumerate 0 (filter (\<lambda>ep. \<not> is_grpc (ep_method ep)) eps))))"
    by (rule page_text_concat)
  then show ?thesis
    unfolding export_html_def
    by (intro page_text_append page_text_escape page_text_nat page_text_nl page_text_CSS; (assumption | code_simp))
qed

section \<open>Witness\<close>

definition demo_tag_endpoint :: endpoint where
  "demo_tag_endpoint =
     \<lparr>ep_id = 1, ep_project_id = 2, ep_folder_id = None, ep_name = ''<b>'', ep_method = GET,
      ep_path = ''/<i>'', ep_description = ''</section>'', ep_status = Designing, ep_sort_order = 0,
      ep_request = default_request\<lparr>rs_auth := ApiKey ''X-Key'' ''<v>'' Loc_Header\<rparr>,
      ep_created_at = 0, ep_updated_at = 0\<rparr>"

lemma html_data_inert_witness: "page_text (export_html ''<p>'' [demo_tag_endpoint] Map.empty)"
  by (rule html_data_inert) (simp add: demo_tag_endpoint_def html_auth_ok_def no_brackets_def)

end
