(* ===== verification/Swagger2.thy ===== *)
theory Swagger2
  imports ImportDoc
begin

text \<open>
  The Swagger 2.0 importer (\<open>crates/fox-openapi/src/swagger2.rs\<close>): the document as a JSON value, its
  paths and their methods in the order the map yields them, one endpoint per method. A parameter of
  an operation goes to the table its \<open>in\<close> names; the loop over the parameters is a fold over the
  tables \<open>op_tables\<close>.
\<close>

definition str_list :: "json option \<Rightarrow> str list" where
  "str_list v = (case Option.bind v as_array of None \<Rightarrow> [] | Some arr \<Rightarrow> List.map_filter as_str_json arr)"

section \<open>Security definitions\<close>

definition basic_definition :: "json \<Rightarrow> auth_spec option" where
  "basic_definition d =
     (case value_as_object d of
        None \<Rightarrow> None
      | Some o1 \<Rightarrow> if obj_str_opt o1 ''type'' = Some ''basic'' then Some (Basic [] []) else None)"

definition key_definition :: "json \<Rightarrow> auth_spec option" where
  "key_definition d =
     (case value_as_object d of
        None \<Rightarrow> None
      | Some o1 \<Rightarrow>
          if obj_str o1 ''type'' \<noteq> ''apiKey'' then None
          else
            let name = obj_str o1 ''name'';
                location = (if obj_str_opt o1 ''in'' = Some ''header'' then Loc_Header else Loc_Query)
            in if eq_ignore_ascii_case name ''authorization'' then Some (Bearer [])
               else Some (ApiKey name [] location))"

definition map_security :: "json option \<Rightarrow> auth_spec option" where
  "map_security v =
     (case Option.bind v value_as_object of
        None \<Rightarrow> None
      | Some entries \<Rightarrow>
          (case find_map basic_definition (map snd entries) of
             Some a \<Rightarrow> Some a
           | None \<Rightarrow> find_map key_definition (map snd entries)))"

section \<open>Parameters of an operation\<close>

record op_tables =
  ot_params :: "key_value list"
  ot_headers :: "key_value list"
  ot_path_variables :: "key_value list"
  ot_form_fields :: "key_value list"
  ot_body_json :: "str option"

definition schema_sample :: "doc_env \<Rightarrow> json option \<Rightarrow> str option" where
  "schema_sample E schema =
     map_option (de_compact E)
       (Option.bind schema (\<lambda>s.
          case json_get ''example'' s of Some x \<Rightarrow> Some x | None \<Rightarrow> json_get ''default'' s))"

definition add_parameter :: "doc_env \<Rightarrow> json \<Rightarrow> op_tables \<Rightarrow> op_tables" where
  "add_parameter E v t =
     (case value_as_object v of
        None \<Rightarrow> t
      | Some p \<Rightarrow>
          let default = (case map_of p ''default'' of Some x \<Rightarrow> Some x | None \<Rightarrow> map_of p ''x-example'');
              kv = \<lparr>kv_key = obj_str p ''name'',
                    kv_value = (case default of
                                  None \<Rightarrow> []
                                | Some (JString s) \<Rightarrow> s
                                | Some other \<Rightarrow> de_compact E other),
                    kv_enabled = True, kv_description = obj_str p ''description'',
                    kv_field_type = FT_String, kv_required = True, kv_example = []\<rparr>;
              location = obj_str p ''in''
          in if location = ''query'' then t\<lparr>ot_params := ot_params t @ [kv]\<rparr>
             else if location = ''header'' then t\<lparr>ot_headers := ot_headers t @ [kv]\<rparr>
             else if location = ''path'' then t\<lparr>ot_path_variables := ot_path_variables t @ [kv]\<rparr>
             else if location = ''formData'' then t\<lparr>ot_form_fields := ot_form_fields t @ [kv]\<rparr>
             else if location = ''body'' then
               t\<lparr>ot_body_json := Some (case schema_sample E (map_of p ''schema'') of
                                        Some s \<Rightarrow> s | None \<Rightarrow> ''{}'')\<rparr>
             else t)"

definition empty_tables :: op_tables where
  "empty_tables = \<lparr>ot_params = [], ot_headers = [], ot_path_variables = [], ot_form_fields = [],
     ot_body_json = None\<rparr>"

definition swagger_body :: "op_tables \<Rightarrow> str list \<Rightarrow> body_spec" where
  "swagger_body t consumes =
     (case ot_body_json t of
        Some raw \<Rightarrow> Body_Json raw
      | None \<Rightarrow>
          if ot_form_fields t \<noteq> [] then
            (if list_ex (\<lambda>c. contains ''multipart'' c) consumes then
               Multipart (map (\<lambda>kv. \<lparr>mf_key = kv_key kv, mf_value_type = MV_Text,
                                     mf_value = kv_value kv, mf_enabled = True\<rparr>) (ot_form_fields t))
             else UrlEncoded (ot_form_fields t))
          else Body_None)"

section \<open>Responses\<close>

definition swagger_example :: "doc_env \<Rightarrow> str list \<Rightarrow> str \<times> json \<Rightarrow> imported_example" where
  "swagger_example E produces entry =
     (let (code, resp) = entry;
          status = (case parse_u16 code of Some n \<Rightarrow> n | None \<Rightarrow> 200);
          r = (case value_as_object resp of Some o1 \<Rightarrow> o1 | None \<Rightarrow> []);
          header_type =
            Option.bind (Option.bind (Option.bind (Option.bind (Option.bind
              (map_of r ''headers'') value_as_object) (\<lambda>h. map_of h ''Content-Type''))
              value_as_object) (\<lambda>h. map_of h ''example'')) as_str_json;
          content_type =
            (case header_type of
               Some t \<Rightarrow> t
             | None \<Rightarrow> (case produces of t # _ \<Rightarrow> t | [] \<Rightarrow> ''application/json''));
          body =
            (case schema_sample E (map_of r ''schema'') of
               Some s \<Rightarrow> s
             | None \<Rightarrow>
                 (case Option.bind (map_of r ''examples'') (json_get ''application/json'') of
                    Some v \<Rightarrow> de_compact E v
                  | None \<Rightarrow> []))
      in \<lparr>ie_name = (case obj_str_opt r ''description'' of Some n \<Rightarrow> n | None \<Rightarrow> response_name status),
          ie_status = status, ie_content_type = content_type, ie_headers = [], ie_body = body\<rparr>)"

section \<open>Operations and documents\<close>

definition swagger_operation ::
  "doc_env \<Rightarrow> str \<Rightarrow> http_method \<Rightarrow> (str \<times> json) list \<Rightarrow> str list \<Rightarrow> str list \<Rightarrow> auth_spec option
     \<Rightarrow> imported_endpoint option" where
  "swagger_operation E path meth op global_consumes global_produces global_security =
     (let t = fold (add_parameter E) (case obj_array op ''parameters'' of Some ps \<Rightarrow> ps | None \<Rightarrow> [])
                empty_tables;
          consumes = str_list (map_of op ''consumes'');
          produces = str_list (map_of op ''produces'');
          consumes_owned = (if consumes = [] then global_consumes else consumes);
          produces_owned = (if produces = [] then global_produces else produces);
          body = swagger_body t consumes_owned;
          named_scheme =
            Option.bind (Option.bind (Option.bind (obj_array op ''security'')
              (\<lambda>arr. case arr of [] \<Rightarrow> None | v # _ \<Rightarrow> Some v)) value_as_object)
              (\<lambda>s. case s of [] \<Rightarrow> None | e # _ \<Rightarrow> Some (fst e));
          auth = (case Option.bind named_scheme (\<lambda>_. global_security) of
                    Some a \<Rightarrow> Some a | None \<Rightarrow> global_security);
          examples = (case Option.bind (map_of op ''responses'') value_as_object of
                        None \<Rightarrow> []
                      | Some responses \<Rightarrow> map (swagger_example E produces_owned) responses);
          name = (case (case obj_str_opt op ''summary'' of
                          Some s \<Rightarrow> if s \<noteq> [] then Some s else obj_str_opt op ''operationId''
                        | None \<Rightarrow> obj_str_opt op ''operationId'') of
                    Some n \<Rightarrow> n
                  | None \<Rightarrow> method_as_str meth @ '' '' @ path);
          folder_hint = Option.bind (Option.bind (obj_array op ''tags'')
                          (\<lambda>arr. case arr of [] \<Rightarrow> None | v # _ \<Rightarrow> Some v)) as_str_json
      in Some
           \<lparr>im_name = name, im_method = meth, im_path = path,
            im_description = obj_str op ''description'',
            im_request = default_request\<lparr>rs_params := ot_params t, rs_headers := ot_headers t,
              rs_path_variables := ot_path_variables t,
              rs_auth := (case auth of Some a \<Rightarrow> a | None \<Rightarrow> Auth_None), rs_body := body\<rparr>,
            im_examples = examples, im_folder_hint = folder_hint\<rparr>)"

definition swagger_method ::
  "doc_env \<Rightarrow> str list \<Rightarrow> str list \<Rightarrow> auth_spec option \<Rightarrow> str \<Rightarrow> str \<times> json \<Rightarrow> imported_endpoint option" where
  "swagger_method E consumes produces security path entry =
     (case method_from_str (fst entry) of
        Inl _ \<Rightarrow> None
      | Inr meth \<Rightarrow>
          (case value_as_object (snd entry) of
             None \<Rightarrow> None
           | Some op \<Rightarrow> swagger_operation E path meth op consumes produces security))"

definition swagger_path ::
  "doc_env \<Rightarrow> str list \<Rightarrow> str list \<Rightarrow> auth_spec option \<Rightarrow> str \<times> json \<Rightarrow> imported_endpoint list" where
  "swagger_path E consumes produces security entry =
     (case value_as_object (snd entry) of
        None \<Rightarrow> []
      | Some ops \<Rightarrow> List.map_filter (swagger_method E consumes produces security (fst entry)) ops)"

definition swagger_value :: "doc_env \<Rightarrow> json \<Rightarrow> (app_error, imported_endpoint list) result" where
  "swagger_value E doc =
     (case value_as_object doc of
        None \<Rightarrow> Err (Validation (Msg ''the root of the Swagger document is not an object'' []))
      | Some root \<Rightarrow>
          let swagger = obj_str root ''swagger''
          in if \<not> starts_with ''2.0'' swagger then
               Err (Validation (Msg ''unsupported Swagger version'' [swagger]))
             else
               let global_consumes = str_list (map_of root ''consumes'');
                   global_produces = str_list (map_of root ''produces'');
                   security = map_security (map_of root ''securityDefinitions'')
               in (case Option.bind (map_of root ''paths'') value_as_object of
                     None \<Rightarrow> Err (Validation (Msg ''the Swagger document has no paths'' []))
                   | Some paths \<Rightarrow>
                       Ok (concat (map (swagger_path E global_consumes global_produces security) paths))))"

definition import_swagger2 :: "doc_env \<Rightarrow> str \<Rightarrow> (app_error, imported_endpoint list) result" where
  "import_swagger2 E text = and_then (parse_value E text) (swagger_value E)"

section \<open>Lemmas\<close>

text \<open>
  A parameter goes to the table of its location: of the four tables, each holds the parameters of
  its own location, in the order of the document.
\<close>

definition located :: "str \<Rightarrow> json list \<Rightarrow> json list" where
  "located location ps =
     filter (\<lambda>v. case value_as_object v of Some p \<Rightarrow> obj_str p ''in'' = location | None \<Rightarrow> False) ps"

definition names_of :: "json list \<Rightarrow> str list" where
  "names_of ps = List.map_filter (\<lambda>v. map_option (\<lambda>p. obj_str p ''name'') (value_as_object v)) ps"

lemma names_of_append [simp]: "names_of (xs @ ys) = names_of xs @ names_of ys"
  by (simp add: names_of_def List.map_filter_def)

lemma tables_by_location:
  "map kv_key (ot_params (fold (add_parameter E) ps t)) = map kv_key (ot_params t) @ names_of (located ''query'' ps)"
  "map kv_key (ot_headers (fold (add_parameter E) ps t)) = map kv_key (ot_headers t) @ names_of (located ''header'' ps)"
  "map kv_key (ot_path_variables (fold (add_parameter E) ps t))
     = map kv_key (ot_path_variables t) @ names_of (located ''path'' ps)"
  "map kv_key (ot_form_fields (fold (add_parameter E) ps t))
     = map kv_key (ot_form_fields t) @ names_of (located ''formData'' ps)"
  by (induction ps arbitrary: t)
     (auto simp: located_def names_of_def add_parameter_def Let_def List.map_filter_simps
       split: option.splits)

text \<open>
  Naming a scheme in an operation does not matter: every operation of the document gets the one
  authentication the security definitions give.
\<close>

lemma bind_const: "(case Option.bind x (\<lambda>_. g) of Some a \<Rightarrow> Some a | None \<Rightarrow> g) = g"
  by (cases x; cases g) simp_all

lemma swagger_auth_global:
  "map_option (\<lambda>ep. rs_auth (im_request ep)) (swagger_operation E path meth op cs ps g)
     = Some (case g of Some a \<Rightarrow> a | None \<Rightarrow> Auth_None)"
  unfolding swagger_operation_def Let_def bind_const by simp

lemma map_security_basic_first:
  "value_as_object v = Some entries \<Longrightarrow> d \<in> snd ` set entries \<Longrightarrow> basic_definition d \<noteq> None
     \<Longrightarrow> map_security (Some v) = Some (Basic [] [])"
proof -
  assume v: "value_as_object v = Some entries" and d: "d \<in> snd ` set entries" "basic_definition d \<noteq> None"
  have "find_map basic_definition xs \<noteq> None" if "d \<in> set xs" for xs
    using that d(2) by (induction xs) (auto split: option.split)
  then obtain a where a: "find_map basic_definition (map snd entries) = Some a"
    using d(1) by (metis list.set_map not_Some_eq)
  moreover have "a = Basic [] []"
    using find_map_Some[OF a] by (auto simp: basic_definition_def split: option.splits if_splits)
  ultimately show "map_security (Some v) = Some (Basic [] [])"
    by (simp add: map_security_def v)
qed

end
