(* ===== verification/DocExport.thy ===== *)
theory DocExport
  imports CommandError DocHtml Postman Swagger2 OpenApi CodegenShell RepoTree RepoData
begin

text \<open>
  The import and export commands of the desktop shell (\<open>crates/fox-tauri/src/commands/import_export.rs\<close>)
  with \<open>import_any\<close> of \<open>crates/fox-openapi/src/import.rs\<close>. A command reads the
  database of \<open>Database\<close> through the repositories and yields a text with a suggested file name. What
  it takes from the outside is in \<open>export_env\<close>: the clock in the formats the texts use, the YAML
  printer, the environment of the code generator, and the file system.
\<close>

section \<open>Import\<close>

record export_env = openapi_env +
  xe_yaml :: "json \<Rightarrow> (str, str) result"
  xe_gen :: gen_env
  xe_now_utc :: str
  xe_now_local :: str
  xe_date :: str
  xe_secs_text :: "int \<Rightarrow> str"
  xe_read_file :: "str \<Rightarrow> (str, str) result"
  xe_valid_utf8 :: "str \<Rightarrow> bool"
  xe_write_file :: "str \<Rightarrow> str \<Rightarrow> str option"

definition import_any :: "openapi_env \<Rightarrow> str \<Rightarrow> (app_error, imported_endpoint list \<times> import_format) result" where
  "import_any E text =
     (let format = detect_format (doc_env.truncate E) text
      in and_then
           (case format of
              OpenApi30 \<Rightarrow> import_endpoints E text
            | OpenApi31 \<Rightarrow> import_endpoints E text
            | Swagger20 \<Rightarrow> import_swagger2 (doc_env.truncate E) text
            | Postman21 \<Rightarrow> import_postman (doc_env.truncate E) text
            | Unknown_Format \<Rightarrow> Err (Validation (Msg ''unknown document format'' [])))
           (\<lambda>imported. Ok (imported, format)))"

record import_result =
  ir_format :: import_format
  ir_endpoints :: "imported_endpoint list"

definition import_document :: "openapi_env \<Rightarrow> str \<Rightarrow> import_result command_result" where
  "import_document E text =
     and_then (commanded (import_any E text)) (\<lambda>(endpoints, format).
       if endpoints = [] then Err (ce_validation (Msg ''no endpoint to import in the document'' []))
       else Ok \<lparr>ir_format = format, ir_endpoints = endpoints\<rparr>)"

definition read_text_file :: "export_env \<Rightarrow> str \<Rightarrow> str command_result" where
  "read_text_file X path =
     (case xe_read_file X path of
        Inl e \<Rightarrow> Err (ce_with_code ''IO'' (Msg ''cannot read the file'' [path, e]))
      | Inr content \<Rightarrow>
          if 2 * 1024 * 1024 < length content then
            Err (ce_validation (Msg ''the file is larger than 2MB'' []))
          else if xe_valid_utf8 X content then Ok content
          else Err (ce_validation (Msg ''the file is not UTF-8 text'' [])))"

definition save_text_file :: "export_env \<Rightarrow> str \<Rightarrow> str \<Rightarrow> unit command_result" where
  "save_text_file X path contents =
     (case xe_write_file X path contents of
        Some e \<Rightarrow> Err (ce_with_code ''IO'' (Msg ''writing the file failed'' [e]))
      | None \<Rightarrow> Ok ())"

section \<open>File names\<close>

datatype export_format =
  XF_OpenapiJson | XF_OpenapiYaml | XF_Postman | XF_Markdown | XF_Html | XF_CurlScript | XF_Smoke

fun format_ext :: "export_format \<Rightarrow> str" where
  "format_ext XF_OpenapiJson = ''json''"
| "format_ext XF_Postman = ''json''"
| "format_ext XF_OpenapiYaml = ''yaml''"
| "format_ext XF_Markdown = ''md''"
| "format_ext XF_Smoke = ''md''"
| "format_ext XF_Html = ''html''"
| "format_ext XF_CurlScript = ''sh''"

fun format_slug :: "export_format \<Rightarrow> str option" where
  "format_slug XF_OpenapiJson = Some ''openapi''"
| "format_slug XF_OpenapiYaml = Some ''openapi''"
| "format_slug XF_Postman = Some ''postman''"
| "format_slug XF_CurlScript = Some ''curl''"
| "format_slug XF_Smoke = Some ''smoke''"
| "format_slug XF_Markdown = None"
| "format_slug XF_Html = None"

definition FORBIDDEN :: "uchar list" where
  "FORBIDDEN = [''/'', bsl, '':'', ''*'', ''?'', [quote], ''<'', ''>'', ''|'']"

fun dashed :: "bool \<Rightarrow> uchar list \<Rightarrow> uchar list" where
  "dashed prev_dash [] = []"
| "dashed prev_dash (ch # chs) =
     (let c = (if ch \<in> set FORBIDDEN \<or> ch \<in> set ws_seqs then ''-'' else ch)
      in if c = ''-'' \<and> prev_dash then dashed prev_dash chs
         else c # dashed (c = ''-'') chs)"

definition is_dash :: "uchar \<Rightarrow> bool" where
  "is_dash c \<longleftrightarrow> c = ''-''"

definition sanitize_filename :: "str \<Rightarrow> str" where
  "sanitize_filename input =
     (let out = dashed False (uchars (trim input));
          trimmed = rev (dropWhile is_dash (rev (dropWhile is_dash out)))
      in if concat trimmed = [] then ''export''
         else
           let capped = rev (dropWhile (\<lambda>c. c = ''-'' \<or> c = ''.'') (rev (take 60 trimmed)))
           in if concat capped = [] then ''export'' else concat capped)"

definition build_suggested_name :: "export_format \<Rightarrow> str \<Rightarrow> str \<Rightarrow> str" where
  "build_suggested_name format base date =
     (case format_slug format of
        Some kind \<Rightarrow> kind @ ''-'' @ sanitize_filename base @ ''-'' @ date @ ''.'' @ format_ext format
      | None \<Rightarrow> sanitize_filename base @ ''-'' @ date @ ''.'' @ format_ext format)"

section \<open>Export\<close>

definition script_entry :: "gen_env \<Rightarrow> nat \<times> endpoint \<Rightarrow> str" where
  "script_entry G entry =
     (case entry of (idx, ep) \<Rightarrow>
        ''# '' @ show_nat (idx + 1) @ ''. '' @ method_as_str (ep_method ep) @ '' '' @ ep_name ep
        @ nl
        @ render G Lang_Curl
            \<lparr>gr_http_method = ep_method ep, gr_url = ep_path ep, gr_headers = rs_headers (ep_request ep),
             gr_body = rs_body (ep_request ep), gr_auth = rs_auth (ep_request ep)\<rparr>
        @ nl @ nl)"

definition render_curl_script :: "gen_env \<Rightarrow> str \<Rightarrow> endpoint list \<Rightarrow> str" where
  "render_curl_script G now_text endpoints =
     ''#!/bin/sh'' @ nl @ ''# RustFox '' @ bytes [229, 175, 188, 229, 135, 186, 231, 154, 132]
     @ '' cURL '' @ bytes [232, 132, 154, 230, 156, 172] @ nl
     @ ''# '' @ bytes [229, 133, 177] @ '' '' @ show_nat (length endpoints) @ '' ''
       @ bytes [228, 184, 170, 230, 142, 165, 229, 143, 163] @ '' '' @ bytes [194, 183] @ '' ''
       @ bytes [231, 148, 159, 230, 136, 144, 228, 186, 142] @ '' '' @ now_text @ nl @ nl
     @ concat (map (script_entry G) (List.enumerate 0 endpoints))"

definition render_docs ::
  "export_env \<Rightarrow> export_format \<Rightarrow> str \<Rightarrow> endpoint list \<Rightarrow> (uuid, response_example list) hash_map
     \<Rightarrow> str command_result" where
  "render_docs X format project_name endpoints examples =
     (case format of
        XF_OpenapiJson \<Rightarrow> commanded (export_project (openapi_env.truncate X) project_name endpoints examples)
      | XF_OpenapiYaml \<Rightarrow>
          and_then (commanded (export_project_value (openapi_env.truncate X) project_name endpoints examples))
            (\<lambda>value. case xe_yaml X value of
               Inl e \<Rightarrow> Err (ce_with_code ''EXPORT'' (Msg e [])) | Inr t \<Rightarrow> Ok t)
      | XF_Postman \<Rightarrow> Ok (export_postman (doc_env.truncate X) project_name endpoints examples)
      | XF_Markdown \<Rightarrow> Ok (export_markdown (xe_now_utc X) project_name endpoints examples)
      | XF_Html \<Rightarrow> Ok (export_html project_name endpoints examples)
      | XF_CurlScript \<Rightarrow> Ok (render_curl_script (xe_gen X) (xe_now_local X) endpoints)
      | XF_Smoke \<Rightarrow> Err (ce_validation (Msg ''smoke documents have their own export'' [])))"

record exported_doc =
  xd_content :: str
  xd_suggested_name :: str

definition examples_or_none ::
  "codec \<Rightarrow> uuid list \<Rightarrow> db \<Rightarrow> (uuid, response_example list) hash_map" where
  "examples_or_none C ids d =
     (case list_response_examples_by_endpoints C ids d of Inr m \<Rightarrow> m | Inl _ \<Rightarrow> Map.empty)"

definition export_openapi :: "codec \<Rightarrow> export_env \<Rightarrow> uuid \<Rightarrow> db \<Rightarrow> str command_result" where
  "export_openapi C X project_id d =
     and_then (commanded (get_project C project_id d)) (\<lambda>project.
     and_then (commanded (list_endpoints C project_id d)) (\<lambda>endpoints.
       let active_ids = map ep_id (filter (\<lambda>e. ep_status e \<noteq> Deprecated) endpoints);
           examples_by_endpoint = examples_or_none C active_ids d
       in commanded (export_project (openapi_env.truncate X) (pr_name project) endpoints examples_by_endpoint)))"

text \<open>The endpoints an export is about, and the name its file is given.\<close>

definition export_scope :: "uuid option \<Rightarrow> endpoint list \<Rightarrow> endpoint list command_result" where
  "export_scope endpoint_id all_endpoints =
     (let endpoints = filter (\<lambda>e. ep_status e \<noteq> Deprecated) all_endpoints
      in case endpoint_id of
           None \<Rightarrow> Ok endpoints
         | Some i \<Rightarrow>
             (case filter (\<lambda>e. ep_id e = i) endpoints of
                [] \<Rightarrow> Err (ce_validation (Msg ''the endpoint does not exist'' []))
              | e # es \<Rightarrow> Ok (e # es)))"

definition export_base :: "project \<Rightarrow> uuid option \<Rightarrow> endpoint list \<Rightarrow> str" where
  "export_base project endpoint_id endpoints =
     (case endpoint_id of
        Some _ \<Rightarrow>
          (let ep = hd endpoints
           in if trim (ep_name ep) = [] then to_lowercase (method_as_str (ep_method ep)) @ ''-'' @ ep_path ep
              else ep_name ep)
      | None \<Rightarrow> pr_name project)"

definition export_docs ::
  "codec \<Rightarrow> export_env \<Rightarrow> uuid \<Rightarrow> uuid option \<Rightarrow> export_format \<Rightarrow> db \<Rightarrow> exported_doc command_result" where
  "export_docs C X project_id endpoint_id format d =
     and_then (commanded (get_project C project_id d)) (\<lambda>project.
     and_then (commanded (list_endpoints C project_id d)) (\<lambda>all_endpoints.
     and_then (export_scope endpoint_id all_endpoints) (\<lambda>endpoints.
       let examples = (\<lambda>i. case examples_or_none C (map ep_id endpoints) d i of
                             Some [] \<Rightarrow> None | r \<Rightarrow> r)
       in and_then (render_docs X format (pr_name project) endpoints examples) (\<lambda>content.
            Ok \<lparr>xd_content = content,
                xd_suggested_name =
                  build_suggested_name format (export_base project endpoint_id endpoints) (xe_date X)\<rparr>))))"

definition export_smoke_docs ::
  "codec \<Rightarrow> export_env \<Rightarrow> uuid \<Rightarrow> uuid option \<Rightarrow> bool \<Rightarrow> run_results option \<Rightarrow> db
     \<Rightarrow> exported_doc command_result" where
  "export_smoke_docs C X project_id endpoint_id include_results run_results d =
     and_then (commanded (get_project C project_id d)) (\<lambda>project.
     and_then (commanded (list_endpoints C project_id d)) (\<lambda>all_endpoints.
     and_then (export_scope endpoint_id all_endpoints) (\<lambda>endpoints.
       let cases = (case list_test_cases_by_endpoints C (map ep_id endpoints) d of
                      Inr cs \<Rightarrow> cs | Inl _ \<Rightarrow> []);
           results = (case run_results of Some m \<Rightarrow> m | None \<Rightarrow> Map.empty);
           content = render_smoke (xe_secs_text X) (xe_now_utc X) (pr_name project) endpoints
                       (group_by_key tc_request_id cases) include_results results
       in Ok \<lparr>xd_content = content,
              xd_suggested_name =
                build_suggested_name XF_Smoke (export_base project endpoint_id endpoints) (xe_date X)\<rparr>)))"

end
