(* ===== verification/DocExportLaws.thy ===== *)
theory DocExportLaws
  imports DocExport
begin

text \<open>
  What the export commands promise. A shell reads the exported curl script as one command per
  endpoint, with the words each is meant to have; \<open>sh_script\<close> extends the reader of \<open>CodegenShell\<close> by
  comments and line ends. A suggested file name holds no character that a file system gives a
  meaning and has a bounded length.
\<close>

section \<open>Shell scripts\<close>

function sh_script :: "sh_state \<Rightarrow> str list \<Rightarrow> str \<Rightarrow> str list list option" where
  "sh_script Between ws [] = Some (if ws = [] then [] else [ws])"
| "sh_script (In_Word w) ws [] = Some [ws @ [w]]"
| "sh_script (In_Quotes w) ws [] = None"
| "sh_script (In_Quotes w) ws (c # cs) =
     (if [c] = apos then sh_script (In_Word w) ws cs else sh_script (In_Quotes (w @ [c])) ws cs)"
| "sh_script Between ws (c # cs) =
     (if [c] = nl then
        (if ws = [] then sh_script Between [] cs
         else map_option (\<lambda>cmds. ws # cmds) (sh_script Between [] cs))
      else if is_sep c then sh_script Between ws cs
      else if c = CHR ''#'' then sh_script Between ws (dropWhile (\<lambda>x. [x] \<noteq> nl) cs)
      else if [c] = apos then sh_script (In_Quotes []) ws cs
      else if [c] = bsl then
        (case cs of
           [] \<Rightarrow> None
         | d # ds \<Rightarrow> if [d] = nl then sh_script Between ws ds else sh_script (In_Word [d]) ws ds)
      else if plain_char c then sh_script (In_Word [c]) ws cs
      else None)"
| "sh_script (In_Word w) ws (c # cs) =
     (if [c] = nl then map_option (\<lambda>cmds. (ws @ [w]) # cmds) (sh_script Between [] cs)
      else if is_sep c then sh_script Between (ws @ [w]) cs
      else if [c] = apos then sh_script (In_Quotes w) ws cs
      else if [c] = bsl then
        (case cs of
           [] \<Rightarrow> None
         | d # ds \<Rightarrow> if [d] = nl then sh_script (In_Word w) ws ds else sh_script (In_Word (w @ [d])) ws ds)
      else if plain_char c then sh_script (In_Word (w @ [c])) ws cs
      else None)"
  by pat_completeness auto
termination
  by (relation "measure (\<lambda>(_, _, s). length s)") (auto simp: less_Suc_eq_le length_dropWhile_le)

lemma plain_not_comment: "plain_char c \<Longrightarrow> c \<noteq> CHR ''#'' \<and> [c] \<noteq> nl"
  by (auto simp: plain_char_def is_alnum_def text_defs)

lemma sep_not_nl: "is_sep c \<Longrightarrow> [c] \<noteq> nl"
  by (auto simp: is_sep_def text_defs)

lemma quote_chars: "[c] = apos \<Longrightarrow> [c] \<noteq> nl \<and> \<not> is_sep c \<and> c \<noteq> CHR ''#'' \<and> [c] \<noteq> bsl"
  "[c] = bsl \<Longrightarrow> [c] \<noteq> nl \<and> \<not> is_sep c \<and> c \<noteq> CHR ''#'' \<and> [c] \<noteq> apos"
  by (auto simp: is_sep_def text_defs)

text \<open>A command that the word reader accepts is one command of the script.\<close>

lemma script_command:
  "shell_words st s = Some out \<Longrightarrow> ws @ out \<noteq> [] \<Longrightarrow>
     sh_script st ws (s @ nl @ rest) = map_option (\<lambda>cmds. (ws @ out) # cmds) (sh_script Between [] rest)"
proof (induction st s arbitrary: ws out rule: shell_words.induct)
  case 1
  then show ?case by (simp add: text_defs)
next
  case (2 w)
  then show ?case by (simp add: text_defs)
next
  case (3 w)
  then show ?case by simp
next
  case (4 w c cs)
  then show ?case by (simp split: if_splits)
next
  case (5 c cs)
  consider (sep) "is_sep c" | (quoted) "[c] = apos" | (escaped) d ds where "[c] = bsl" "cs = d # ds"
    | (plain) "plain_char c"
    using "5.prems"(1) by (cases cs) (auto split: if_splits)
  then show ?case
  proof cases
    case sep
    then show ?thesis using 5 by (simp add: sep_not_nl)
  next
    case quoted
    then show ?thesis using 5 quote_chars(1)[OF quoted] by simp
  next
    case escaped
    then show ?thesis using 5 quote_chars(2)[OF escaped(1)] by (cases "[d] = nl") simp_all
  next
    case plain
    then show ?thesis using 5 plain_not_comment[OF plain] plain_not_special[OF plain] by simp
  qed
next
  case (6 w c cs)
  consider (sep) "is_sep c" | (quoted) "[c] = apos" | (escaped) d ds where "[c] = bsl" "cs = d # ds"
    | (plain) "plain_char c"
    using "6.prems"(1) by (cases cs) (auto split: if_splits)
  then show ?case
  proof cases
    case sep
    then show ?thesis using 6 by (auto simp: sep_not_nl)
  next
    case quoted
    then show ?thesis using 6 quote_chars(1)[OF quoted] by simp
  next
    case escaped
    then show ?thesis using 6 quote_chars(2)[OF escaped(1)] by (cases "[d] = nl") simp_all
  next
    case plain
    then show ?thesis using 6 plain_not_comment[OF plain] plain_not_special[OF plain] by simp
  qed
qed

lemma script_comment:
  assumes "newline \<notin> set s"
  shows "sh_script Between [] (''#'' @ s @ nl @ rest) = sh_script Between [] rest"
proof -
  have "dropWhile (\<lambda>x. [x] \<noteq> nl) (s @ nl @ rest) = nl @ rest"
    using assms by (induction s) (auto simp: text_defs)
  moreover have "sh_script Between [] (nl @ rest) = sh_script Between [] rest"
    by (simp add: nl_def)
  moreover have "[CHR ''#''] \<noteq> nl" "\<not> is_sep CHR ''#''"
    by (auto simp: text_defs is_sep_def)
  ultimately show ?thesis by simp
qed

lemma script_blank: "sh_script Between [] (nl @ rest) = sh_script Between [] rest"
  by (simp add: nl_def)

text \<open>The words a command of the script is meant to have.\<close>

definition script_words :: "gen_env \<Rightarrow> endpoint \<Rightarrow> str list" where
  "script_words G ep =
     [''curl'', ''-X'', method_as_str (ep_method ep), ep_path ep]
     @ concat (map (\<lambda>(n, v). [n, v])
         (curl_options G
            (merge_headers G (rs_headers (ep_request ep)) (rs_auth (ep_request ep))
               \<lparr>sn_method = ep_method ep, sn_url = ep_path ep, sn_body = rs_body (ep_request ep)\<rparr>)
            (rs_body (ep_request ep))))"

lemma newline_free:
  "newline \<notin> set (show_nat n)" "newline \<notin> set (method_as_str m)"
proof -
  show "newline \<notin> set (show_nat n)"
    by (auto dest!: show_nat_digits simp: digit_val_def Let_def newline_def)
  have "list_all (\<lambda>m. newline \<notin> set (method_as_str m)) all_with_grpc" by code_simp
  then show "newline \<notin> set (method_as_str m)" by (cases m) (simp_all add: all_with_grpc_def)
qed

lemma entry_comment:
  "script_entry G (i, ep) @ rest =
     ''#'' @ ('' '' @ show_nat (i + 1) @ ''. '' @ method_as_str (ep_method ep) @ '' '' @ ep_name ep) @ nl
     @ render G Lang_Curl
         \<lparr>gr_http_method = ep_method ep, gr_url = ep_path ep, gr_headers = rs_headers (ep_request ep),
          gr_body = rs_body (ep_request ep), gr_auth = rs_auth (ep_request ep)\<rparr> @ nl @ nl @ rest"
  by (simp add: script_entry_def)

lemma entry_words:
  "shell_words Between (render G Lang_Curl
       \<lparr>gr_http_method = ep_method ep, gr_url = ep_path ep, gr_headers = rs_headers (ep_request ep),
        gr_body = rs_body (ep_request ep), gr_auth = rs_auth (ep_request ep)\<rparr>) = Some (script_words G ep)"
  by (simp add: render_def Let_def render_curl_words script_words_def)

lemma script_words_nonempty: "[] @ script_words G ep \<noteq> []"
  by (simp add: script_words_def)

lemma script_entry_read:
  assumes "newline \<notin> set (ep_name ep)"
  shows "sh_script Between [] (script_entry G (i, ep) @ rest)
    = map_option (\<lambda>cmds. script_words G ep # cmds) (sh_script Between [] rest)"
proof -
  have "newline \<notin> set ('' '' @ show_nat (i + 1) @ ''. '' @ method_as_str (ep_method ep) @ '' '' @ ep_name ep)"
    using assms newline_free by (auto simp: newline_def)
  from script_comment[OF this] show ?thesis
    unfolding entry_comment script_command[OF entry_words script_words_nonempty] append_Nil
    by (simp only: script_blank script_command[OF entry_words script_words_nonempty] append_Nil)
qed

lemma script_entries_read:
  assumes "list_all (\<lambda>ep. newline \<notin> set (ep_name ep)) eps"
  shows "sh_script Between [] (concat (map (script_entry G) (List.enumerate i eps)))
    = Some (map (script_words G) eps)"
  using assms
proof (induction eps arbitrary: i)
  case (Cons ep eps)
  then show ?case
    by (simp add: script_entry_read)
qed simp

section \<open>File names\<close>

text \<open>
  A text whose characters start as characters of UTF-8 do: none starts with a continuation byte, and
  one that starts with an ASCII byte is that byte alone.
\<close>

definition char_ok :: "uchar \<Rightarrow> bool" where
  "char_ok ch \<longleftrightarrow>
     ch \<noteq> [] \<and> \<not> is_continuation (hd ch) \<and> list_all is_continuation (tl ch)
     \<and> ((of_char (hd ch) :: nat) < 128 \<longrightarrow> tl ch = [])"

definition text_ok :: "str \<Rightarrow> bool" where
  "text_ok s \<longleftrightarrow> list_all char_ok (uchars s)"

definition forbidden_bytes :: str where
  "forbidden_bytes = ''/'' @ bsl @ '':*?'' @ [quote] @ ''<>|''"

lemma uchars_char:
  assumes "list_all is_continuation cs" "rest = [] \<or> \<not> is_continuation (hd rest)"
  shows "uchars (c # cs @ rest) = (c # cs) # uchars rest"
proof -
  have all: "\<And>x. x \<in> set cs \<Longrightarrow> is_continuation x"
    using assms(1) by (simp add: list_all_iff)
  have "takeWhile is_continuation rest = []" "dropWhile is_continuation rest = rest"
    using assms(2) by (cases rest; simp)+
  then show ?thesis
    using takeWhile_append2[of cs is_continuation rest] dropWhile_append2[of cs is_continuation rest] all
    by simp
qed

lemma uchars_concat: "list_all char_ok chs \<Longrightarrow> uchars (concat chs) = chs"
proof (induction chs)
  case (Cons ch chs)
  obtain c cs where ch: "ch = c # cs" "list_all is_continuation cs"
    using Cons.prems by (cases ch) (auto simp: char_ok_def)
  have start: "concat chs = [] \<or> \<not> is_continuation (hd (concat chs))"
  proof (cases chs)
    case (Cons d ds)
    then show ?thesis
      using \<open>list_all char_ok (ch # chs)\<close> by (cases d) (auto simp: char_ok_def)
  qed simp
  show ?case
    using uchars_char[OF ch(2) start, of c] Cons.IH Cons.prems by (simp add: ch(1))
qed simp

lemma byte_of_char: "char_ok ch \<Longrightarrow> c \<in> set ch \<Longrightarrow> (of_char c :: nat) < 128 \<Longrightarrow> ch = [c]"
  by (cases ch) (auto simp: char_ok_def list_all_iff is_continuation_def)

lemma forbidden_ascii: "c \<in> set forbidden_bytes \<Longrightarrow> (of_char c :: nat) < 128 \<and> [c] \<in> set FORBIDDEN"
  by (auto simp: forbidden_bytes_def FORBIDDEN_def text_defs quote_def)

definition clean_char :: "uchar \<Rightarrow> bool" where
  "clean_char ch \<longleftrightarrow> char_ok ch \<and> ch \<notin> set FORBIDDEN"

lemma dash_clean: "clean_char ''-''"
  by code_simp

lemma dashed_clean: "list_all char_ok chs \<Longrightarrow> list_all clean_char (dashed b chs)"
  by (induction b chs rule: dashed.induct) (auto simp: Let_def dash_clean, auto simp: clean_char_def)

lemma list_all_sublists:
  "list_all P xs \<Longrightarrow> list_all P (dropWhile Q xs)"
  "list_all P xs \<Longrightarrow> list_all P (rev xs)"
  "list_all P xs \<Longrightarrow> list_all P (take n xs)"
  by (auto simp: list_all_iff dest: set_dropWhileD in_set_takeD)

lemma clean_bytes: "list_all clean_char chs \<Longrightarrow> c \<in> set (concat chs) \<Longrightarrow> c \<notin> set forbidden_bytes"
proof
  assume "list_all clean_char chs" "c \<in> set (concat chs)" "c \<in> set forbidden_bytes"
  then obtain ch where ch: "clean_char ch" "c \<in> set ch" by (auto simp: list_all_iff)
  have "ch = [c]"
    using byte_of_char ch forbidden_ascii[OF \<open>c \<in> set forbidden_bytes\<close>] by (simp add: clean_char_def)
  then show False
    using ch(1) forbidden_ascii[OF \<open>c \<in> set forbidden_bytes\<close>] by (simp add: clean_char_def)
qed

lemma clean_ok: "list_all clean_char chs \<Longrightarrow> list_all char_ok chs"
  by (auto simp: list_all_iff clean_char_def)

text \<open>What a name is: clean, short, and not starting with a dash or ending with a dash or a dot.\<close>

definition safe_name :: "str \<Rightarrow> bool" where
  "safe_name s \<longleftrightarrow>
     s \<noteq> [] \<and> length (uchars s) \<le> 60 \<and> list_all (\<lambda>c. c \<notin> set forbidden_bytes) s
     \<and> hd s \<noteq> CHR ''-'' \<and> last s \<noteq> CHR ''-'' \<and> last s \<noteq> CHR ''.''"

lemma safe_concat:
  assumes "list_all clean_char chs" "chs \<noteq> []" "length chs \<le> 60"
    and "hd chs \<noteq> ''-''" "last chs \<noteq> ''-''" "last chs \<noteq> ''.''"
  shows "safe_name (concat chs)"
proof -
  have ok: "list_all char_ok chs" by (rule clean_ok[OF assms(1)])
  obtain d ds where chs: "chs = d # ds" using assms(2) by (cases chs) auto
  obtain c cs where d: "d = c # cs" using ok chs by (cases d) (auto simp: char_ok_def)
  obtain es e where chs': "chs = es @ [e]" using assms(2) by (metis rev_exhaust)
  then have e: "char_ok e" "e \<noteq> []" using ok by (auto simp: char_ok_def)
  have hd: "hd (concat chs) \<noteq> CHR ''-''"
    using byte_of_char[of d c] ok assms(4) by (auto simp: chs d)
  have last: "last (concat chs) = last e" "last e \<in> set e"
    using e(2) by (simp_all add: chs')
  have "last e \<noteq> CHR ''-''" "last e \<noteq> CHR ''.''"
    using byte_of_char[OF e(1) last(2)] assms(5,6) by (auto simp: chs')
  moreover have "concat chs \<noteq> []"
    by (simp add: chs d)
  ultimately show ?thesis
    using hd last assms(3) clean_bytes[OF assms(1)]
    unfolding safe_name_def uchars_concat[OF ok] list_all_iff by auto
qed

lemma export_safe: "safe_name ''export''"
  by code_simp

section \<open>Properties\<close>

text \<open>
  C39: A shell reads the exported script as one command per endpoint, in order, and each command as exactly its
  words: the method, the path and the options with their values, whatever the endpoints hold, as
  long as no name of an endpoint has a line break.
\<close>

theorem curl_script_commands:
  assumes "list_all (\<lambda>ep. newline \<notin> set (ep_name ep)) eps" and "newline \<notin> set now_text"
  shows "sh_script Between [] (render_curl_script G now_text eps) = Some (map (script_words G) eps)"
proof -
  have comments: "render_curl_script G now_text eps =
      ''#'' @ ''!/bin/sh'' @ nl @ ''#'' @ ('' RustFox '' @ bytes [229, 175, 188, 229, 135, 186, 231, 154, 132] @ '' cURL ''
      @ bytes [232, 132, 154, 230, 156, 172]) @ nl
      @ ''#'' @ ('' '' @ bytes [229, 133, 177] @ '' '' @ show_nat (length eps) @ '' ''
      @ bytes [228, 184, 170, 230, 142, 165, 229, 143, 163] @ '' '' @ bytes [194, 183] @ '' ''
      @ bytes [231, 148, 159, 230, 136, 144, 228, 186, 142] @ '' '' @ now_text) @ nl @ nl
      @ concat (map (script_entry G) (List.enumerate 0 eps))"
    by (simp add: render_curl_script_def)
  have free: "newline \<notin> set ('' RustFox '' @ bytes [229, 175, 188, 229, 135, 186, 231, 154, 132] @ '' cURL ''
      @ bytes [232, 132, 154, 230, 156, 172])"
    "newline \<notin> set ('' '' @ bytes [229, 133, 177] @ '' '')" "newline \<notin> set ('' '' @ bytes [228, 184, 170, 230, 142, 165, 229, 143, 163] @ '' '' @ bytes [194, 183]
      @ '' '' @ bytes [231, 148, 159, 230, 136, 144, 228, 186, 142] @ '' '')"
    "newline \<notin> set ''!/bin/sh''"
    by code_simp+
  have free2: "newline \<notin> set ('' '' @ bytes [229, 133, 177] @ '' '' @ show_nat (length eps) @ '' ''
      @ bytes [228, 184, 170, 230, 142, 165, 229, 143, 163] @ '' '' @ bytes [194, 183] @ '' ''
      @ bytes [231, 148, 159, 230, 136, 144, 228, 186, 142] @ '' '' @ now_text)"
    using free newline_free(1)[of "length eps"] assms(2) by (auto simp only: set_append)
  show ?thesis
    unfolding comments script_comment[OF free(4)] script_comment[OF free(1)] script_comment[OF free2] script_blank
    by (rule script_entries_read[OF assms(1)])
qed

text \<open>
  The name of an endpoint goes into the script unquoted: a name with a line break runs as a command of
  its own before the command of the endpoint.
\<close>

theorem endpoint_name_runs_as_command:
  assumes "ep_name ep = ''x'' @ nl @ ''reboot''"
  shows "sh_script Between [] (script_entry G (i, ep)) = Some [[''reboot''], script_words G ep]"
proof -
  have words: "shell_words Between ''reboot'' = Some [''reboot'']"
    by code_simp
  have one: "[] @ [''reboot''] \<noteq> []"
    by simp
  have free: "newline \<notin> set ('' '' @ show_nat (i + 1) @ ''. '' @ method_as_str (ep_method ep) @ '' x'')"
    using newline_free by (auto simp: newline_def)
  have split: "script_entry G (i, ep) =
      ''#'' @ ('' '' @ show_nat (i + 1) @ ''. '' @ method_as_str (ep_method ep) @ '' x'') @ nl
      @ ''reboot'' @ nl
      @ render G Lang_Curl
         \<lparr>gr_http_method = ep_method ep, gr_url = ep_path ep, gr_headers = rs_headers (ep_request ep),
          gr_body = rs_body (ep_request ep), gr_auth = rs_auth (ep_request ep)\<rparr> @ nl @ nl @ []"
    by (simp add: script_entry_def assms)
  show ?thesis
    unfolding split script_comment[OF free] script_command[OF words one]
      script_command[OF entry_words script_words_nonempty] script_blank append_Nil
    by (simp only: sh_script.simps option.map simp_thms if_True)
qed

text \<open>
  The file name suggested for an export is safe whatever the project or endpoint is called: it is not empty,
  has at most 60 characters, holds no separator or reserved character, does not start with a dash
  and does not end with a dash or a dot.
\<close>

theorem suggested_name_safe:
  assumes "text_ok (trim input)"
  shows "safe_name (sanitize_filename input)"
proof -
  define trimmed where
    "trimmed = rev (dropWhile is_dash (rev (dropWhile is_dash (dashed False (uchars (trim input))))))"
  define capped where
    "capped = rev (dropWhile (\<lambda>c. c = ''-'' \<or> c = ''.'') (rev (take 60 trimmed)))"
  have clean: "list_all clean_char trimmed"
    unfolding trimmed_def using assms
    by (intro list_all_sublists dashed_clean) (simp add: text_ok_def)
  then have capped_clean: "list_all clean_char capped"
    unfolding capped_def by (intro list_all_sublists)
  have out: "sanitize_filename input =
      (if concat trimmed = [] \<or> concat capped = [] then ''export'' else concat capped)"
    by (simp add: sanitize_filename_def Let_def trimmed_def capped_def)
  show ?thesis
  proof (cases "concat trimmed = [] \<or> concat capped = []")
    case True
    then show ?thesis unfolding out by (simp add: export_safe)
  next
    case False
    then have ne: "trimmed \<noteq> []" "capped \<noteq> []" by auto
    have "prefix capped trimmed"
      unfolding capped_def
      by (metis prefix_order.trans rev_rev_ident suffix_dropWhile suffix_to_prefix take_is_prefix)
    then have "hd capped = hd trimmed"
      using ne(2) by (auto simp: prefix_def)
    moreover have "hd trimmed \<noteq> ''-''"
    proof -
      let ?d = "dropWhile is_dash (dashed False (uchars (trim input)))"
      have "prefix trimmed ?d"
        unfolding trimmed_def by (metis rev_rev_ident suffix_dropWhile suffix_to_prefix)
      then obtain zs where d: "?d = trimmed @ zs"
        by (auto simp: prefix_def)
      then have "?d \<noteq> []" "hd ?d = hd trimmed"
        using ne(1) by (simp_all only: d append_is_Nil_conv hd_append2 simp_thms)
      then show ?thesis
        using hd_dropWhile[of is_dash "dashed False (uchars (trim input))"] by (simp add: is_dash_def)
    qed
    moreover have "last capped \<noteq> ''-'' \<and> last capped \<noteq> ''.''"
      using ne(2) hd_dropWhile[of "\<lambda>c. c = ''-'' \<or> c = ''.''" "rev (take 60 trimmed)"]
      by (simp add: capped_def last_rev)
    moreover have "length capped \<le> length (take 60 trimmed)"
      unfolding capped_def by (simp only: length_rev) (metis length_dropWhile_le length_rev)
    then have short: "length capped \<le> 60"
      by simp
    ultimately show ?thesis
      using False safe_concat[OF capped_clean ne(2)] unfolding out by (simp only: if_False simp_thms)
  qed
qed

text \<open>A leading dot is kept, though the comment of the code says both ends lose their dots.\<close>

lemma leading_dot_kept: "sanitize_filename ''.env'' = ''.env''"
  by code_simp

section \<open>Witnesses\<close>

lemma curl_script_commands_witness:
  "\<forall>G. sh_script Between [] (render_curl_script G ''2026-08-23'' [demo_tag_endpoint])
     = Some [script_words G demo_tag_endpoint]"
proof
  fix G
  have "list_all (\<lambda>ep. newline \<notin> set (ep_name ep)) [demo_tag_endpoint]" "newline \<notin> set ''2026-08-23''"
    by (simp_all add: demo_tag_endpoint_def newline_def)
  from curl_script_commands[OF this, of G]
  show "sh_script Between [] (render_curl_script G ''2026-08-23'' [demo_tag_endpoint])
     = Some [script_words G demo_tag_endpoint]"
    by simp
qed

lemma endpoint_name_runs_as_command_witness:
  "\<forall>G. sh_script Between [] (script_entry G (0, demo_tag_endpoint\<lparr>ep_name := ''x'' @ nl @ ''reboot''\<rparr>))
     = Some [[''reboot''], script_words G (demo_tag_endpoint\<lparr>ep_name := ''x'' @ nl @ ''reboot''\<rparr>)]"
  by (intro allI endpoint_name_runs_as_command) simp

lemma suggested_name_safe_witness: "safe_name (sanitize_filename '' -../a b:c. '')"
proof -
  have "text_ok (trim '' -../a b:c. '')" by code_simp
  then show ?thesis by (rule suggested_name_safe)
qed

end
