(* ===== verification/ActiveState.thy ===== *)
theory ActiveState
  imports CommandError RepoTree RepoData Variable
begin

text \<open>
  The active project and environment of the desktop shell: \<open>crates/fox-tauri/src/state.rs\<close> and the
  commands of \<open>commands/project.rs\<close> and \<open>commands/environment.rs\<close> that read or write it. The state is
  the database and a context in memory behind a lock. A command is a task that waits at its queries
  and at the lock; \<open>active_pc\<close> has one value per place where it waits, with what its local variables
  hold there, and \<open>advance\<close> runs it to the next such place. So several commands interleave at exactly
  the points where the program may.
\<close>

section \<open>State\<close>

record active_context =
  ac_project_id :: "uuid option"
  ac_project :: "project option"
  ac_environment_id :: "uuid option"
  ac_environment :: "environment option"

definition default_context :: active_context where
  "default_context = \<lparr>ac_project_id = None, ac_project = None, ac_environment_id = None,
     ac_environment = None\<rparr>"

record app_state =
  as_db :: db
  as_active :: active_context

definition new_app_state :: "db \<Rightarrow> app_state" where
  "new_app_state d = \<lparr>as_db = d, as_active = default_context\<rparr>"

section \<open>Remembered identifiers\<close>

definition KEY_ACTIVE_PROJECT :: str where "KEY_ACTIVE_PROJECT = ''active_project_id''"

definition KEY_ACTIVE_ENVIRONMENT_PREFIX :: str where
  "KEY_ACTIVE_ENVIRONMENT_PREFIX = ''active_environment_id:''"

definition active_environment_key :: "codec \<Rightarrow> uuid \<Rightarrow> str" where
  "active_environment_key C project_id = KEY_ACTIVE_ENVIRONMENT_PREFIX @ co_uuid_text C project_id"

definition setting_value :: "codec \<Rightarrow> uuid option \<Rightarrow> str" where
  "setting_value C i =
     (case i of
        Some u \<Rightarrow> ok_or ''null'' (ser (co_json C) (JString (co_uuid_text C u)))
      | None \<Rightarrow> ''null'')"

text \<open>Reading a JSON text as an optional string.\<close>

definition parse_opt_string :: "codec \<Rightarrow> str \<Rightarrow> str option" where
  "parse_opt_string C v =
     (case de (co_json C) v of Inr (JString s) \<Rightarrow> Some s | _ \<Rightarrow> None)"

definition load_setting_uuid :: "codec \<Rightarrow> db \<Rightarrow> str \<Rightarrow> uuid option" where
  "load_setting_uuid C d key =
     Option.bind (Option.bind (get_setting d key) (parse_opt_string C))
       (\<lambda>s. case co_uuid_parse C s of Inr u \<Rightarrow> Some u | Inl _ \<Rightarrow> None)"

text \<open>The check of \<open>load_project_environment_id\<close> at its second query.\<close>

definition owned_environment :: "codec \<Rightarrow> db \<Rightarrow> uuid \<Rightarrow> uuid \<Rightarrow> uuid option" where
  "owned_environment C d project_id i =
     (case get_environment C i d of
        Inr e \<Rightarrow> if en_project_id e = project_id then Some i else None
      | Inl _ \<Rightarrow> None)"

definition load_project_environment_id :: "codec \<Rightarrow> db \<Rightarrow> uuid \<Rightarrow> uuid option" where
  "load_project_environment_id C d project_id =
     Option.bind (load_setting_uuid C d (active_environment_key C project_id))
       (owned_environment C d project_id)"

section \<open>The merged variables\<close>

definition global_table :: "environment_variable list \<Rightarrow> variable_map" where
  "global_table vs = insert_all (map (\<lambda>v. (ev_key v, effective_value v)) (filter ev_enabled vs)) Map.empty"

definition environment_table :: "environment option \<Rightarrow> variable_map" where
  "environment_table environment =
     (let vars = (case environment of None \<Rightarrow> Map.empty | Some e \<Rightarrow> effective_variables e)
      in if ''base_url'' \<in> dom vars then vars
         else (case environment of
                 None \<Rightarrow> vars
               | Some e \<Rightarrow>
                   let base = trim (en_base_url e)
                   in if base = [] then vars else vars(''base_url'' \<mapsto> base)))"

definition project_table :: "project option \<Rightarrow> variable_map" where
  "project_table p = (case p of None \<Rightarrow> Map.empty | Some m \<Rightarrow> pr_variables m)"

definition merged_tables :: "environment_variable list \<Rightarrow> project option \<Rightarrow> environment option \<Rightarrow> variable_map" where
  "merged_tables globals project environment =
     (global_table globals ++ project_table project) ++ environment_table environment"

section \<open>Tasks\<close>

text \<open>Who called \<open>active_project\<close> and \<open>active_environment\<close>, with what the caller goes on with.\<close>

datatype project_caller = For_Project | For_Set_Environment "uuid option" | For_Variables "uuid option"

datatype environment_caller = For_Environment | For_Merge "project option"

datatype reply =
    R_Unit
  | R_Project "project option"
  | R_Environment "environment option"
  | R_Saved_Project project
  | R_Saved_Environment environment
  | R_Variables variable_map

text \<open>The places where an operation waits, with its local variables there.\<close>

datatype ap_pc = AP_Read | AP_Query uuid | AP_Fill uuid project

datatype ae_pc = AE_Read | AE_Query uuid | AE_Fill uuid environment

datatype sp_pc =
    SP_Project uuid
  | SP_Setting uuid project
  | SP_Owner uuid project uuid
  | SP_Environment uuid project uuid
  | SP_Write "uuid option" "project option" "uuid option" "environment option"
  | SP_Persist "uuid option"

datatype se_pc =
    SE_Query uuid uuid
  | SE_Write uuid "uuid option" "environment option"
  | SE_Persist uuid "uuid option"

datatype ra_pc =
    RA_Start
  | RA_Project uuid
  | RA_Setting uuid
  | RA_Owner uuid uuid
  | RA_Write "uuid option" "uuid option"

datatype vf_pc = VF_Explicit "project option" uuid | VF_Globals "project option" "environment option"

datatype ps_pc = PS_Save project | PS_Refresh project

datatype pd_pc = PD_Delete uuid | PD_Clear uuid | PD_Persist_Project uuid | PD_Persist_Environment uuid

datatype es_pc = ES_Owner str environment | ES_Save str environment | ES_Refresh environment

datatype ed_pc = ED_Delete uuid | ED_Read uuid | ED_Clear "uuid option" | ED_Persist uuid

datatype active_pc =
    Active_Project project_caller ap_pc
  | Active_Environment environment_caller ae_pc
  | Setting_Project sp_pc
  | Setting_Environment se_pc
  | Restoring ra_pc
  | Merging vf_pc
  | Saving_Project ps_pc
  | Deleting_Project pd_pc
  | Saving_Environment es_pc
  | Deleting_Environment ed_pc
  | Finished "reply command_result"

definition or_fail :: "(app_error, 'a) result \<Rightarrow> ('a \<Rightarrow> active_pc) \<Rightarrow> active_pc" where
  "or_fail r k = (case r of Inl e \<Rightarrow> Finished (Err (from_app_error e)) | Inr x \<Rightarrow> k x)"

definition no_project :: command_error where
  "no_project = ce_validation (Msg ''select a project before an environment'' [])"

definition foreign_environment :: command_error where
  "foreign_environment = ce_validation (Msg ''the environment does not belong to the project'' [])"

definition no_owner :: command_error where
  "no_owner = ce_validation (Msg ''the project of the environment does not exist'' [])"

definition blank_name :: "str \<Rightarrow> command_error" where
  "blank_name what = ce_validation (Msg ''the name is empty'' [what])"

fun project_ready :: "project_caller \<Rightarrow> project option \<Rightarrow> active_pc" where
  "project_ready For_Project p = Finished (Ok (R_Project p))"
| "project_ready (For_Set_Environment i) p =
     (case p of
        None \<Rightarrow> Finished (Err no_project)
      | Some m \<Rightarrow>
          (case i of None \<Rightarrow> Setting_Environment (SE_Write (pr_id m) None None)
             | Some e \<Rightarrow> Setting_Environment (SE_Query (pr_id m) e)))"
| "project_ready (For_Variables i) p =
     (case i of None \<Rightarrow> Active_Environment (For_Merge p) AE_Read
             | Some e \<Rightarrow> Merging (VF_Explicit p e))"

fun environment_ready :: "environment_caller \<Rightarrow> environment option \<Rightarrow> active_pc" where
  "environment_ready For_Environment e = Finished (Ok (R_Environment e))"
| "environment_ready (For_Merge p) e = Merging (VF_Globals p e)"

section \<open>The refreshing of the cached objects\<close>

definition refresh_active_project :: "project \<Rightarrow> active_context \<Rightarrow> active_context" where
  "refresh_active_project m a =
     (if ac_project_id a = Some (pr_id m) then a\<lparr>ac_project := Some m\<rparr> else a)"

definition refresh_active_environment :: "environment \<Rightarrow> active_context \<Rightarrow> active_context" where
  "refresh_active_environment e a =
     (if ac_environment_id a = Some (en_id e) then a\<lparr>ac_environment := Some e\<rparr> else a)"

section \<open>One stretch of a task\<close>

fun active_project_at :: "codec \<Rightarrow> project_caller \<Rightarrow> ap_pc \<Rightarrow> app_state \<Rightarrow> active_pc \<times> app_state" where
  "active_project_at C c AP_Read s =
     (case ac_project (as_active s) of
        Some m \<Rightarrow> (project_ready c (Some m), s)
      | None \<Rightarrow>
          (case ac_project_id (as_active s) of
             None \<Rightarrow> (project_ready c None, s)
           | Some i \<Rightarrow> (Active_Project c (AP_Query i), s)))"
| "active_project_at C c (AP_Query i) s = (or_fail (get_project C i (as_db s)) (\<lambda>m. Active_Project c (AP_Fill i m)), s)"
| "active_project_at C c (AP_Fill i m) s =
     (let a = as_active s in
      if ac_project_id a \<noteq> Some i then (Active_Project c AP_Read, s)
      else (project_ready c (Some m),
            if ac_project a = None then s\<lparr>as_active := a\<lparr>ac_project := Some m\<rparr>\<rparr> else s))"

fun active_environment_at :: "codec \<Rightarrow> environment_caller \<Rightarrow> ae_pc \<Rightarrow> app_state \<Rightarrow> active_pc \<times> app_state" where
  "active_environment_at C c AE_Read s =
     (case ac_environment (as_active s) of
        Some e \<Rightarrow> (environment_ready c (Some e), s)
      | None \<Rightarrow>
          (case ac_environment_id (as_active s) of
             None \<Rightarrow> (environment_ready c None, s)
           | Some i \<Rightarrow> (Active_Environment c (AE_Query i), s)))"
| "active_environment_at C c (AE_Query i) s = (or_fail (get_environment C i (as_db s)) (\<lambda>e. Active_Environment c (AE_Fill i e)), s)"
| "active_environment_at C c (AE_Fill i e) s =
     (let a = as_active s in
      if ac_environment_id a \<noteq> Some i then (Active_Environment c AE_Read, s)
      else (environment_ready c (Some e),
            if ac_environment a = None then s\<lparr>as_active := a\<lparr>ac_environment := Some e\<rparr>\<rparr> else s))"

fun set_active_project_at :: "codec \<Rightarrow> sp_pc \<Rightarrow> app_state \<Rightarrow> active_pc \<times> app_state" where
  "set_active_project_at C (SP_Project i) s = (or_fail (get_project C i (as_db s)) (\<lambda>m. Setting_Project (SP_Setting i m)), s)"
| "set_active_project_at C (SP_Setting i m) s =
     (case load_setting_uuid C (as_db s) (active_environment_key C i) of
        None \<Rightarrow> (Setting_Project (SP_Write (Some i) (Some m) None None), s)
      | Some e \<Rightarrow> (Setting_Project (SP_Owner i m e), s))"
| "set_active_project_at C (SP_Owner i m e) s =
     (case owned_environment C (as_db s) i e of
        None \<Rightarrow> (Setting_Project (SP_Write (Some i) (Some m) None None), s)
      | Some e' \<Rightarrow> (Setting_Project (SP_Environment i m e'), s))"
| "set_active_project_at C (SP_Environment i m e) s =
     (or_fail (get_environment C e (as_db s)) (\<lambda>v.
        Setting_Project (SP_Write (Some i) (Some m) (Some e) (Some v))), s)"
| "set_active_project_at C (SP_Write i m e v) s =
     (Setting_Project (SP_Persist i), s\<lparr>as_active := \<lparr>ac_project_id = i, ac_project = m, ac_environment_id = e,
                                     ac_environment = v\<rparr>\<rparr>)"
| "set_active_project_at C (SP_Persist i) s =
     (Active_Project For_Project AP_Read,
      s\<lparr>as_db := set_setting KEY_ACTIVE_PROJECT (setting_value C i) (as_db s)\<rparr>)"

fun set_active_environment_at :: "codec \<Rightarrow> se_pc \<Rightarrow> app_state \<Rightarrow> active_pc \<times> app_state" where
  "set_active_environment_at C (SE_Query i e) s =
     (or_fail (get_environment C e (as_db s)) (\<lambda>v.
        if en_project_id v \<noteq> i then Finished (Err foreign_environment)
        else Setting_Environment (SE_Write i (Some e) (Some v))), s)"
| "set_active_environment_at C (SE_Write i e v) s =
     (Setting_Environment (SE_Persist i e),
      s\<lparr>as_active := (as_active s)\<lparr>ac_environment_id := e, ac_environment := v\<rparr>\<rparr>)"
| "set_active_environment_at C (SE_Persist i e) s =
     (Active_Environment For_Environment AE_Read,
      s\<lparr>as_db := set_setting (active_environment_key C i) (setting_value C e) (as_db s)\<rparr>)"

fun restore_active_at :: "codec \<Rightarrow> ra_pc \<Rightarrow> app_state \<Rightarrow> active_pc \<times> app_state" where
  "restore_active_at C RA_Start s =
     (case load_setting_uuid C (as_db s) KEY_ACTIVE_PROJECT of
        None \<Rightarrow> (Restoring (RA_Write None None), s)
      | Some i \<Rightarrow> (Restoring (RA_Project i), s))"
| "restore_active_at C (RA_Project i) s =
     (case get_project C i (as_db s) of
        Inl _ \<Rightarrow> (Restoring (RA_Write None None), s)
      | Inr m \<Rightarrow> (Restoring (RA_Setting i), s))"
| "restore_active_at C (RA_Setting i) s =
     (case load_setting_uuid C (as_db s) (active_environment_key C i) of
        None \<Rightarrow> (Restoring (RA_Write (Some i) None), s)
      | Some e \<Rightarrow> (Restoring (RA_Owner i e), s))"
| "restore_active_at C (RA_Owner i e) s = (Restoring (RA_Write (Some i) (owned_environment C (as_db s) i e)), s)"
| "restore_active_at C (RA_Write i e) s =
     (Finished (Ok R_Unit), s\<lparr>as_active := \<lparr>ac_project_id = i, ac_project = None,
        ac_environment_id = e, ac_environment = None\<rparr>\<rparr>)"

fun variables_for_at :: "codec \<Rightarrow> vf_pc \<Rightarrow> app_state \<Rightarrow> active_pc \<times> app_state" where
  "variables_for_at C (VF_Explicit p e) s =
     (or_fail (get_environment C e (as_db s)) (\<lambda>v. Merging (VF_Globals p (Some v))), s)"
| "variables_for_at C (VF_Globals p e) s =
     (or_fail (get_global_variables C (as_db s)) (\<lambda>vs.
        Finished (Ok (R_Variables (merged_tables vs p e)))), s)"

fun save_project_at :: "codec \<Rightarrow> ps_pc \<Rightarrow> app_state \<Rightarrow> active_pc \<times> app_state" where
  "save_project_at C (PS_Save m) s =
     (case save_project C m (as_db s) of
        Inl err \<Rightarrow> (Finished (Err (from_app_error err)), s)
      | Inr d \<Rightarrow> (Saving_Project (PS_Refresh m), s\<lparr>as_db := d\<rparr>))"
| "save_project_at C (PS_Refresh m) s =
     (Finished (Ok (R_Saved_Project m)), s\<lparr>as_active := refresh_active_project m (as_active s)\<rparr>)"

fun delete_project_at :: "codec \<Rightarrow> pd_pc \<Rightarrow> app_state \<Rightarrow> active_pc \<times> app_state" where
  "delete_project_at C (PD_Delete i) s = (Deleting_Project (PD_Clear i), s\<lparr>as_db := delete_project C i (as_db s)\<rparr>)"
| "delete_project_at C (PD_Clear i) s =
     (if ac_project_id (as_active s) = Some i
      then (Deleting_Project (PD_Persist_Project i), s\<lparr>as_active := default_context\<rparr>)
      else (Finished (Ok R_Unit), s))"
| "delete_project_at C (PD_Persist_Project i) s =
     (Deleting_Project (PD_Persist_Environment i),
      s\<lparr>as_db := set_setting KEY_ACTIVE_PROJECT ''null'' (as_db s)\<rparr>)"
| "delete_project_at C (PD_Persist_Environment i) s =
     (Finished (Ok R_Unit),
      s\<lparr>as_db := set_setting (active_environment_key C i) ''null'' (as_db s)\<rparr>)"

fun save_environment_at :: "codec \<Rightarrow> es_pc \<Rightarrow> app_state \<Rightarrow> active_pc \<times> app_state" where
  "save_environment_at C (ES_Owner nonce e) s =
     (case get_project C (en_project_id e) (as_db s) of
        Inl _ \<Rightarrow> (Finished (Err no_owner), s)
      | Inr m \<Rightarrow> (Saving_Environment (ES_Save nonce e), s))"
| "save_environment_at C (ES_Save nonce e) s =
     (case save_environment C nonce e (as_db s) of
        Inl err \<Rightarrow> (Finished (Err (from_app_error err)), s)
      | Inr (saved, d) \<Rightarrow> (Saving_Environment (ES_Refresh saved), s\<lparr>as_db := d\<rparr>))"
| "save_environment_at C (ES_Refresh e) s =
     (Finished (Ok (R_Saved_Environment e)),
      s\<lparr>as_active := refresh_active_environment e (as_active s)\<rparr>)"

fun delete_environment_at :: "codec \<Rightarrow> ed_pc \<Rightarrow> app_state \<Rightarrow> active_pc \<times> app_state" where
  "delete_environment_at C (ED_Delete i) s = (Deleting_Environment (ED_Read i), s\<lparr>as_db := delete_environment C i (as_db s)\<rparr>)"
| "delete_environment_at C (ED_Read i) s =
     (if ac_environment_id (as_active s) = Some i then (Deleting_Environment (ED_Clear (ac_project_id (as_active s))), s)
      else (Finished (Ok R_Unit), s))"
| "delete_environment_at C (ED_Clear p) s =
     ((case p of None \<Rightarrow> Finished (Ok R_Unit) | Some i \<Rightarrow> Deleting_Environment (ED_Persist i)),
      s\<lparr>as_active := (as_active s)\<lparr>ac_environment_id := None, ac_environment := None\<rparr>\<rparr>)"
| "delete_environment_at C (ED_Persist i) s =
     (Finished (Ok R_Unit),
      s\<lparr>as_db := set_setting (active_environment_key C i) ''null'' (as_db s)\<rparr>)"

fun advance :: "codec \<Rightarrow> active_pc \<Rightarrow> app_state \<Rightarrow> active_pc \<times> app_state" where
  "advance C (Active_Project c p) s = active_project_at C c p s"
| "advance C (Active_Environment c p) s = active_environment_at C c p s"
| "advance C (Setting_Project p) s = set_active_project_at C p s"
| "advance C (Setting_Environment p) s = set_active_environment_at C p s"
| "advance C (Restoring p) s = restore_active_at C p s"
| "advance C (Merging p) s = variables_for_at C p s"
| "advance C (Saving_Project p) s = save_project_at C p s"
| "advance C (Deleting_Project p) s = delete_project_at C p s"
| "advance C (Saving_Environment p) s = save_environment_at C p s"
| "advance C (Deleting_Environment p) s = delete_environment_at C p s"
| "advance C (Finished r) s = (Finished r, s)"

section \<open>Commands\<close>

datatype active_command =
    Restore_Active
  | Get_Active_Project
  | Set_Active_Project "uuid option"
  | Save_Project project
  | Delete_Project uuid
  | Get_Active_Environment
  | Set_Active_Environment "uuid option"
  | Save_Environment str environment
  | Delete_Environment uuid
  | Variables_For "uuid option"

fun start_command :: "active_command \<Rightarrow> active_pc" where
  "start_command Restore_Active = Restoring RA_Start"
| "start_command Get_Active_Project = Active_Project For_Project AP_Read"
| "start_command (Set_Active_Project i) =
     (case i of None \<Rightarrow> Setting_Project (SP_Write None None None None)
             | Some p \<Rightarrow> Setting_Project (SP_Project p))"
| "start_command (Save_Project m) =
     (if trim (pr_name m) = [] then Finished (Err (blank_name ''project'')) else Saving_Project (PS_Save m))"
| "start_command (Delete_Project i) = Deleting_Project (PD_Delete i)"
| "start_command Get_Active_Environment = Active_Environment For_Environment AE_Read"
| "start_command (Set_Active_Environment i) = Active_Project (For_Set_Environment i) AP_Read"
| "start_command (Save_Environment nonce e) =
     (if trim (en_name e) = [] then Finished (Err (blank_name ''environment'')) else Saving_Environment (ES_Owner nonce e))"
| "start_command (Delete_Environment i) = Deleting_Environment (ED_Delete i)"
| "start_command (Variables_For i) = Active_Project (For_Variables i) AP_Read"

text \<open>A command alone: its stretches one after the other.\<close>

fun run_alone :: "nat \<Rightarrow> codec \<Rightarrow> active_pc \<Rightarrow> app_state \<Rightarrow> active_pc \<times> app_state" where
  "run_alone 0 C pc s = (pc, s)"
| "run_alone (Suc n) C pc s = (case advance C pc s of (pc', s') \<Rightarrow> run_alone n C pc' s')"

definition max_stretches :: nat where "max_stretches = 10"

definition run_command :: "codec \<Rightarrow> active_command \<Rightarrow> app_state \<Rightarrow> active_pc \<times> app_state" where
  "run_command C cmd s = run_alone max_stretches C (start_command cmd) s"

section \<open>Commands together\<close>

record active_sys =
  ay_state :: app_state
  ay_tasks :: "active_pc list"

text \<open>Between the stretches any other command may change the database.\<close>

inductive active_step :: "codec \<Rightarrow> active_sys \<Rightarrow> active_sys \<Rightarrow> bool" for C where
  Invoke: "active_step C y (y\<lparr>ay_tasks := ay_tasks y @ [start_command cmd]\<rparr>)"
| Stretch: "i < length (ay_tasks y) \<Longrightarrow> advance C (ay_tasks y ! i) (ay_state y) = (pc, s) \<Longrightarrow>
    active_step C y (y\<lparr>ay_state := s, ay_tasks := (ay_tasks y)[i := pc]\<rparr>)"
| Elsewhere: "active_step C y (y\<lparr>ay_state := (ay_state y)\<lparr>as_db := d\<rparr>\<rparr>)"

inductive active_reachable :: "codec \<Rightarrow> active_sys \<Rightarrow> bool" for C where
  Opened: "active_reachable C \<lparr>ay_state = new_app_state d, ay_tasks = []\<rparr>"
| Step: "active_reachable C y \<Longrightarrow> active_step C y y' \<Longrightarrow> active_reachable C y'"

end
