(* ===== verification/ActiveLaws.thy ===== *)
theory ActiveLaws
  imports ActiveState RepoLaws
begin

text \<open>
  What holds of the active project and environment under every interleaving of the commands: the cached
  objects are those of the active identifiers.
\<close>

section \<open>The cached objects\<close>

lemma get_project_id: "codec_lawful C \<Longrightarrow> get_project C i d = Ok m \<Longrightarrow> pr_id m = i"
  by (auto simp: get_project_def fetch_optional_def project_model_def and_then_eq_Inr find_Some_iff
      split: option.splits)

lemma get_environment_id: "codec_lawful C \<Longrightarrow> get_environment C i d = Ok e \<Longrightarrow> en_id e = i"
  by (auto simp: get_environment_def fetch_optional_def environment_model_def and_then_eq_Inr find_Some_iff
      split: option.splits)

definition cached_match :: "active_context \<Rightarrow> bool" where
  "cached_match a \<longleftrightarrow>
     (\<forall>m. ac_project a = Some m \<longrightarrow> ac_project_id a = Some (pr_id m))
     \<and> (\<forall>e. ac_environment a = Some e \<longrightarrow> ac_environment_id a = Some (en_id e))"

text \<open>The places of a command, with the stretches it has left there when nothing interferes.\<close>

fun stretches_left :: "active_pc \<Rightarrow> nat" where
  "stretches_left (Active_Project c AP_Read) = (case c of For_Project \<Rightarrow> 3 | _ \<Rightarrow> 9)"
| "stretches_left (Active_Project c (AP_Query i)) = (case c of For_Project \<Rightarrow> 2 | _ \<Rightarrow> 8)"
| "stretches_left (Active_Project c (AP_Fill i m)) = (case c of For_Project \<Rightarrow> 1 | _ \<Rightarrow> 7)"
| "stretches_left (Active_Environment c AE_Read) = (case c of For_Environment \<Rightarrow> 3 | _ \<Rightarrow> 4)"
| "stretches_left (Active_Environment c (AE_Query i)) = (case c of For_Environment \<Rightarrow> 2 | _ \<Rightarrow> 3)"
| "stretches_left (Active_Environment c (AE_Fill i e)) = (case c of For_Environment \<Rightarrow> 1 | _ \<Rightarrow> 2)"
| "stretches_left (Setting_Project (SP_Project i)) = 9"
| "stretches_left (Setting_Project (SP_Setting i m)) = 8"
| "stretches_left (Setting_Project (SP_Owner i m e)) = 7"
| "stretches_left (Setting_Project (SP_Environment i m e)) = 6"
| "stretches_left (Setting_Project (SP_Write i m e v)) = 5"
| "stretches_left (Setting_Project (SP_Persist i)) = 4"
| "stretches_left (Setting_Environment (SE_Query i e)) = 6"
| "stretches_left (Setting_Environment (SE_Write i e v)) = 5"
| "stretches_left (Setting_Environment (SE_Persist i e)) = 4"
| "stretches_left (Restoring RA_Start) = 5"
| "stretches_left (Restoring (RA_Project i)) = 4"
| "stretches_left (Restoring (RA_Setting i)) = 3"
| "stretches_left (Restoring (RA_Owner i e)) = 2"
| "stretches_left (Restoring (RA_Write i e)) = 1"
| "stretches_left (Merging (VF_Explicit p e)) = 2"
| "stretches_left (Merging (VF_Globals p e)) = 1"
| "stretches_left (Saving_Project (PS_Save m)) = 2"
| "stretches_left (Saving_Project (PS_Refresh m)) = 1"
| "stretches_left (Deleting_Project (PD_Delete i)) = 4"
| "stretches_left (Deleting_Project (PD_Clear i)) = 3"
| "stretches_left (Deleting_Project (PD_Persist_Project i)) = 2"
| "stretches_left (Deleting_Project (PD_Persist_Environment i)) = 1"
| "stretches_left (Saving_Environment (ES_Owner n e)) = 3"
| "stretches_left (Saving_Environment (ES_Save n e)) = 2"
| "stretches_left (Saving_Environment (ES_Refresh e)) = 1"
| "stretches_left (Deleting_Environment (ED_Delete i)) = 4"
| "stretches_left (Deleting_Environment (ED_Read i)) = 3"
| "stretches_left (Deleting_Environment (ED_Clear p)) = 2"
| "stretches_left (Deleting_Environment (ED_Persist i)) = 1"
| "stretches_left (Finished r) = 0"

lemmas place_cases = stretches_left.cases

text \<open>What the local variables of a task hold, whatever the other tasks do.\<close>

fun pc_ok :: "active_pc \<Rightarrow> bool" where
  "pc_ok (Active_Project c (AP_Fill i m)) \<longleftrightarrow> pr_id m = i"
| "pc_ok (Active_Environment c (AE_Fill i e)) \<longleftrightarrow> en_id e = i"
| "pc_ok (Setting_Project (SP_Setting i m)) \<longleftrightarrow> pr_id m = i"
| "pc_ok (Setting_Project (SP_Owner i m e)) \<longleftrightarrow> pr_id m = i"
| "pc_ok (Setting_Project (SP_Environment i m e)) \<longleftrightarrow> pr_id m = i"
| "pc_ok (Setting_Project (SP_Write i m e v)) \<longleftrightarrow> map_option pr_id m = i \<and> map_option en_id v = e"
| "pc_ok (Setting_Environment (SE_Write i e v)) \<longleftrightarrow> map_option en_id v = e"
| "pc_ok pc \<longleftrightarrow> True"

lemma ready_ok [simp]: "pc_ok (project_ready c m)" "pc_ok (environment_ready c' e)"
  by (cases c; cases m; simp split: option.splits) (cases c'; simp)

lemma owned_environment_id: "owned_environment C d i e = Some e' \<Longrightarrow> e' = e"
  by (auto simp: owned_environment_def split: sum.splits if_splits)

lemma or_fail_ok: "(\<And>x. r = Inr x \<Longrightarrow> pc_ok (k x)) \<Longrightarrow> pc_ok (or_fail r k)"
  by (auto simp: or_fail_def split: sum.splits)

lemma advance_pc_ok:
  assumes C: "codec_lawful C" and ok: "pc_ok pc" and step: "advance C pc s = (pc', s')"
  shows "pc_ok pc'"
proof -
  have "pc_ok (fst (advance C pc s))"
    using ok get_project_id[OF C] get_environment_id[OF C]
    by (cases pc rule: place_cases) (auto simp: Let_def split: option.splits sum.splits intro!: or_fail_ok)
  then show ?thesis by (simp add: step)
qed

lemma advance_matches:
  assumes "pc_ok pc" "cached_match (as_active s)" "advance C pc s = (pc', s')"
  shows "cached_match (as_active s')"
proof -
  have "cached_match (as_active (snd (advance C pc s)))"
    using assms(1,2)
    by (cases pc rule: place_cases) (auto simp: Let_def cached_match_def default_context_def refresh_active_project_def
        refresh_active_environment_def split: option.splits sum.splits)
  then show ?thesis by (simp add: assms(3))
qed

definition active_inv :: "active_sys \<Rightarrow> bool" where
  "active_inv y \<longleftrightarrow> cached_match (as_active (ay_state y)) \<and> list_all pc_ok (ay_tasks y)"

lemma start_command_ok: "pc_ok (start_command cmd)"
  by (cases cmd) (auto split: option.splits)

lemma active_step_inv: "active_step C y y' \<Longrightarrow> codec_lawful C \<Longrightarrow> active_inv y \<Longrightarrow> active_inv y'"
proof (induction rule: active_step.induct)
  case (Invoke y cmd)
  then show ?case by (simp add: active_inv_def start_command_ok)
next
  case (Stretch i y pc s)
  then have "pc_ok (ay_tasks y ! i)" by (simp add: active_inv_def list_all_length)
  with Stretch have "pc_ok pc" "cached_match (as_active s)"
    by (auto simp: active_inv_def intro: advance_pc_ok advance_matches)
  then show ?case using Stretch by (simp add: active_inv_def list_all_length nth_list_update)
next
  case (Elsewhere y d)
  then show ?case by (simp add: active_inv_def)
qed

lemma active_reachable_inv: "active_reachable C y \<Longrightarrow> codec_lawful C \<Longrightarrow> active_inv y"
proof (induction rule: active_reachable.induct)
  case (Opened d)
  then show ?case by (simp add: active_inv_def cached_match_def new_app_state_def default_context_def)
qed (auto intro: active_step_inv)

text \<open>
  C33: However the commands interleave, and whatever other commands do to the database in between,
  the cached project is always the one with the active project identifier and the cached environment
  the one with the active environment identifier: a slow query never installs an object of a
  selection that has been left.
\<close>

theorem cached_objects_match:
  assumes "codec_lawful C" "active_reachable C y"
  shows "cached_match (as_active (ay_state y))"
  using active_reachable_inv[OF assms(2,1)] by (simp add: active_inv_def)

text \<open>A task that runs alone for a while is one of the interleavings.\<close>

lemma reachable_run:
  "active_reachable C y \<Longrightarrow> i < length (ay_tasks y) \<Longrightarrow> run_alone n C (ay_tasks y ! i) (ay_state y) = (pc, s) \<Longrightarrow>
     active_reachable C \<lparr>ay_state = s, ay_tasks = (ay_tasks y)[i := pc]\<rparr>"
proof (induction n arbitrary: y)
  case 0
  then show ?case by (cases y) auto
next
  case (Suc n)
  obtain pc1 s1 where a: "advance C (ay_tasks y ! i) (ay_state y) = (pc1, s1)" by fastforce
  let ?y = "y\<lparr>ay_state := s1, ay_tasks := (ay_tasks y)[i := pc1]\<rparr>"
  have "active_reachable C ?y"
    by (rule active_reachable.Step[OF Suc.prems(1) active_step.Stretch[OF Suc.prems(2) a]])
  moreover have "run_alone n C (ay_tasks ?y ! i) (ay_state ?y) = (pc, s)"
    using Suc.prems a by simp
  ultimately show ?case using Suc.IH[of ?y] Suc.prems(2) by simp
qed

lemma cached_objects_match_witness:
  "cached_match (as_active (snd (run_command demo_codec (Set_Active_Project (Some 2)) (new_app_state demo_db))))"
proof -
  let ?y = "\<lparr>ay_state = new_app_state demo_db, ay_tasks = [start_command (Set_Active_Project (Some 2))]\<rparr>"
  obtain pc s where r: "run_command demo_codec (Set_Active_Project (Some 2)) (new_app_state demo_db) = (pc, s)"
    by fastforce
  have "active_reachable demo_codec ?y"
    using active_reachable.Step[OF active_reachable.Opened active_step.Invoke, of demo_codec demo_db "Set_Active_Project (Some 2)"]
    by simp
  from reachable_run[OF this, of 0 max_stretches pc s]
  have "active_reachable demo_codec \<lparr>ay_state = s, ay_tasks = [pc]\<rparr>" using r by (simp add: run_command_def)
  from cached_objects_match[OF demo_codec_lawful this] show ?thesis by (simp add: r)
qed

end
