(* ===== verification/ActiveRuns.thy ===== *)
theory ActiveRuns
  imports ActiveLaws
begin

text \<open>
  The commands on the active project and environment one after another: then the context in memory is
  a cache of the database, so the variables of a request and a restart can be read off the stored rows.
  Every place of a command has an assertion (\<open>outline\<close>) that its stretch turns into that of the next.
\<close>

section \<open>Commands one after another\<close>

text \<open>What the database says the context is.\<close>

definition remembered :: "codec \<Rightarrow> app_state \<Rightarrow> bool" where
  "remembered C s \<longleftrightarrow> load_setting_uuid C (as_db s) KEY_ACTIVE_PROJECT = ac_project_id (as_active s)"

definition selection :: "codec \<Rightarrow> app_state \<Rightarrow> bool" where
  "selection C s \<longleftrightarrow>
     (case ac_project_id (as_active s) of
        None \<Rightarrow> ac_environment_id (as_active s) = None
      | Some i \<Rightarrow> (\<exists>m. get_project C i (as_db s) = Ok m)
          \<and> load_project_environment_id C (as_db s) i = ac_environment_id (as_active s))"

definition same_variables :: "project \<Rightarrow> project \<Rightarrow> bool" where
  "same_variables m m' \<longleftrightarrow> pr_id m = pr_id m' \<and> pr_variables m = pr_variables m'"

definition same_values :: "environment \<Rightarrow> environment \<Rightarrow> bool" where
  "same_values e e' \<longleftrightarrow> en_id e = en_id e' \<and> en_variables e = en_variables e' \<and> en_base_url e = en_base_url e'"

definition fresh_project :: "codec \<Rightarrow> app_state \<Rightarrow> bool" where
  "fresh_project C s \<longleftrightarrow> (\<forall>m. ac_project (as_active s) = Some m \<longrightarrow>
     ac_project_id (as_active s) = Some (pr_id m)
     \<and> (\<exists>m'. get_project C (pr_id m) (as_db s) = Ok m' \<and> same_variables m m'))"

definition fresh_environment :: "codec \<Rightarrow> app_state \<Rightarrow> bool" where
  "fresh_environment C s \<longleftrightarrow> (\<forall>e. ac_environment (as_active s) = Some e \<longrightarrow>
     ac_environment_id (as_active s) = Some (en_id e)
     \<and> (\<exists>e'. get_environment C (en_id e) (as_db s) = Ok e' \<and> same_values e e'))"

definition synced :: "codec \<Rightarrow> app_state \<Rightarrow> bool" where
  "synced C s \<longleftrightarrow> db_inv (as_db s) \<and> remembered C s \<and> selection C s \<and> fresh_project C s \<and> fresh_environment C s"

lemmas sync_defs = synced_def remembered_def selection_def fresh_project_def fresh_environment_def

text \<open>What the settings need of JSON: identifiers and null survive it.\<close>

definition settings_lawful :: "codec \<Rightarrow> bool" where
  "settings_lawful C \<longleftrightarrow> codec_lawful C \<and> de (co_json C) ''null'' = Ok JNull
     \<and> (\<forall>u. text_ok (co_json C) (JString (co_uuid_text C u)))"

lemma settings_lawful_codec [simp]: "settings_lawful C \<Longrightarrow> codec_lawful C"
  by (simp add: settings_lawful_def)

subsection \<open>Reading after writing\<close>

lemma stored_setting:
  "settings_lawful C \<Longrightarrow> load_setting_uuid C (set_setting k (setting_value C i) d) k = i"
proof (cases i)
  case (Some u)
  assume C: "settings_lawful C"
  then obtain t where "ser (co_json C) (JString (co_uuid_text C u)) = Ok t"
    "de (co_json C) t = Ok (JString (co_uuid_text C u))"
    using text_ok_ser[of "co_json C" "JString (co_uuid_text C u)"] by (auto simp: settings_lawful_def)
  then show ?thesis using C Some
    by (simp add: load_setting_uuid_def get_set_setting setting_value_def parse_opt_string_def
        settings_lawful_def codec_lawful_def)
qed (simp add: load_setting_uuid_def get_set_setting setting_value_def parse_opt_string_def settings_lawful_def)

lemma stored_null:
  "settings_lawful C \<Longrightarrow> load_setting_uuid C (set_setting k ''null'' d) k = None"
  using stored_setting[of C k None d] by (simp add: setting_value_def)

lemma other_setting:
  "k \<noteq> k' \<Longrightarrow> load_setting_uuid C (set_setting k v d) k' = load_setting_uuid C d k'"
  by (simp add: load_setting_uuid_def get_set_setting)

lemma keys_differ [simp]:
  "KEY_ACTIVE_PROJECT \<noteq> active_environment_key C i" "active_environment_key C i \<noteq> KEY_ACTIVE_PROJECT"
  by (simp_all add: KEY_ACTIVE_PROJECT_def active_environment_key_def KEY_ACTIVE_ENVIRONMENT_PREFIX_def)

lemma environment_key_inject [simp]:
  "codec_lawful C \<Longrightarrow> active_environment_key C i = active_environment_key C j \<longleftrightarrow> i = j"
  by (simp add: active_environment_key_def uuid_text_inject)

lemma setting_frames [simp]:
  "get_project C i (set_setting k v d) = get_project C i d"
  "get_environment C i (set_setting k v d) = get_environment C i d"
  "owned_environment C (set_setting k v d) i e = owned_environment C d i e"
  by (simp_all add: get_project_def get_environment_def set_setting_def owned_environment_def)

lemma setting_inv: "db_inv d \<Longrightarrow> db_inv (set_setting k v d)"
  by (rule repo_step_inv[of undefined d]) (rule repo_step.intros)

lemma owned_environment_eq:
  "owned_environment C d i e = Some e' \<longleftrightarrow> e' = e \<and> (\<exists>v. get_environment C e d = Ok v \<and> en_project_id v = i)"
  by (auto simp: owned_environment_def split: sum.splits)

lemma load_environment_eq:
  "load_project_environment_id C d i = Some e \<longleftrightarrow>
     load_setting_uuid C d (active_environment_key C i) = Some e
     \<and> (\<exists>v. get_environment C e d = Ok v \<and> en_project_id v = i)"
  by (auto simp: load_project_environment_id_def owned_environment_eq bind_eq_Some_conv)

lemma load_environment_set:
  "k \<noteq> active_environment_key C i \<Longrightarrow>
     load_project_environment_id C (set_setting k v d) i = load_project_environment_id C d i"
  by (simp add: load_project_environment_id_def other_setting cong: bind_option_cong)

subsection \<open>What the writes keep\<close>

lemma get_setting_tables: "t_settings d = t_settings d' \<Longrightarrow> load_setting_uuid C d k = load_setting_uuid C d' k"
  by (simp add: load_setting_uuid_def get_setting_def)

lemma get_project_tables: "t_projects d = t_projects d' \<Longrightarrow> get_project C i d = get_project C i d'"
  by (simp add: get_project_def)

lemma get_environment_tables: "t_environments d = t_environments d' \<Longrightarrow> get_environment C i d = get_environment C i d'"
  by (simp add: get_environment_def)

lemma load_environment_tables:
  "t_settings d = t_settings d' \<Longrightarrow> t_environments d = t_environments d' \<Longrightarrow>
     load_project_environment_id C d i = load_project_environment_id C d' i"
  by (simp add: load_project_environment_id_def get_setting_tables[of d d'] owned_environment_def
      get_environment_tables[of d d'] cong: bind_option_cong)

lemma merged_project_model:
  assumes "codec_lawful C" "text_ok (co_strings C) (pr_variables m)"
    "project_model C r = Ok old" "pw_id r = co_uuid_text C (pr_id m)"
  shows "\<exists>m'. project_model C (merge_project r (project_record (project_row C m) n)) = Ok m'
     \<and> same_variables m m'"
  using assms(1,3,4) text_ok_ser[OF assms(2)]
  by (auto simp: project_model_def merge_project_def project_record_def project_row_def
      and_then_eq_Inr same_variables_def project_row.defs project_record.defs)

lemma save_project_effect:
  assumes C: "codec_lawful C" and ok: "save_project C m d = Ok d'" and inv: "db_inv d"
    and vars: "text_ok (co_strings C) (pr_variables m)"
  shows "db_inv d'" "t_settings d' = t_settings d" "t_environments d' = t_environments d"
    and "i \<noteq> pr_id m \<Longrightarrow> get_project C i d' = get_project C i d"
    and "get_project C (pr_id m) d = Ok old \<Longrightarrow>
      \<exists>m'. get_project C (pr_id m) d' = Ok m' \<and> same_variables m m'"
proof -
  have eq: "d' = d\<lparr>t_projects := upsert pw_id merge_project (project_record (project_row C m) 0) (t_projects d)\<rparr>"
    using ok by (simp add: save_project_def checked_Ok)
  show "t_settings d' = t_settings d" "t_environments d' = t_environments d" by (simp_all add: eq)
  show "db_inv d'" by (rule repo_step_inv[OF _ inv]) (rule repo_step.intros, rule ok)
  have id: "pw_id (project_row C m) = co_uuid_text C (pr_id m)"
    by (simp add: project_row_def)
  show "i \<noteq> pr_id m \<Longrightarrow> get_project C i d' = get_project C i d"
    using find_upsert_other[OF projects.keeps, of "co_uuid_text C i" "project_record (project_row C m) 0"]
    by (simp add: get_project_def fetch_optional_def eq id uuid_text_inject[OF C])
  assume "get_project C (pr_id m) d = Ok old"
  then obtain r where r: "find (\<lambda>r. pw_id r = co_uuid_text C (pr_id m)) (t_projects d) = Some r"
    "project_model C r = Ok old"
    by (auto simp: get_project_def fetch_optional_def split: option.splits)
  then have "pw_id r = co_uuid_text C (pr_id m)" by (auto simp: find_Some_iff)
  then show "\<exists>m'. get_project C (pr_id m) d' = Ok m' \<and> same_variables m m'"
    using merged_project_model[OF C vars r(2)] r(1)
      find_upsert[OF projects.keeps, of "project_record (project_row C m) 0" "t_projects d"]
    by (simp add: get_project_def fetch_optional_def eq id)
qed

lemma save_environment_effect:
  assumes C: "codec_lawful C" and ok: "save_environment C nonce e d = Ok (saved, d')" and inv: "db_inv d"
    and vars: "variables_lawful C nonce (en_variables e)"
  shows "saved = e" "db_inv d'" "t_settings d' = t_settings d" "t_projects d' = t_projects d"
    and "i \<noteq> en_id e \<Longrightarrow> get_environment C i d' = get_environment C i d"
    and "get_environment C (en_id e) d = Ok old \<Longrightarrow>
      \<exists>e'. get_environment C (en_id e) d' = Ok e' \<and> same_values e e' \<and> en_project_id e' = en_project_id e"
proof -
  let ?r = "environment_row C nonce e"
  have eq: "d' = d\<lparr>t_environments := upsert nw_id merge_environment ?r (t_environments d)\<rparr>" "saved = e"
    using ok by (auto simp: save_environment_def checked_Ok and_then_eq_Inr)
  then show "saved = e" "t_settings d' = t_settings d" "t_projects d' = t_projects d" by simp_all
  show "db_inv d'" by (rule repo_step_inv[OF _ inv]) (rule repo_step.intros, rule ok)
  have id: "nw_id ?r = co_uuid_text C (en_id e)" by (simp add: environment_row_def)
  show "i \<noteq> en_id e \<Longrightarrow> get_environment C i d' = get_environment C i d"
    using find_upsert_other[OF environments.keeps, of "co_uuid_text C i" ?r]
    by (simp add: get_environment_def fetch_optional_def eq id uuid_text_inject[OF C])
  assume "get_environment C (en_id e) d = Ok old"
  then obtain r where r: "find (\<lambda>r. nw_id r = co_uuid_text C (en_id e)) (t_environments d) = Some r"
    "environment_model C r = Ok old"
    by (auto simp: get_environment_def fetch_optional_def split: option.splits)
  then have i: "nw_id r = co_uuid_text C (en_id e)" by (auto simp: find_Some_iff)
  obtain v where v: "decrypt_env_json C (encrypt_env_json C nonce (en_variables e)) = Ok v"
    "variables_from_value C v = Ok (en_variables e)"
    using variables_column[OF vars] by blast
  from r(2) obtain t where "parse_time C (nw_created_at r) = Ok t"
    by (auto simp: environment_model_def and_then_eq_Inr)
  then have "\<exists>e'. environment_model C (merge_environment r ?r) = Ok e' \<and> same_values e e'
      \<and> en_project_id e' = en_project_id e"
    using C v i by (simp add: environment_model_def merge_environment_def environment_row_def same_values_def)
  then show "\<exists>e'. get_environment C (en_id e) d' = Ok e' \<and> same_values e e' \<and> en_project_id e' = en_project_id e"
    using r find_upsert[OF environments.keeps, of ?r "t_environments d"]
    by (simp add: get_environment_def fetch_optional_def eq id)
qed

lemma deleted_tables:
  "t_environments (delete_endpoints_where p d) = t_environments d"
  "t_environments (delete_folders_where q d) = t_environments d"
  "t_settings (delete_endpoints_where p d) = t_settings d"
  "t_settings (delete_folders_where q d) = t_settings d"
  "t_settings (delete_environments_where r d) = t_settings d"
  by (simp_all add: delete_endpoints_where_def delete_folders_where_def delete_environments_where_def Let_def)

lemma find_filter: "find P (filter Q xs) = find (\<lambda>x. Q x \<and> P x) xs"
  by (induction xs) auto

lemma get_environment_row:
  "get_environment C i d = Ok e \<Longrightarrow>
     \<exists>r \<in> set (t_environments d). nw_id r = co_uuid_text C i \<and> environment_model C r = Ok e"
  by (auto simp: get_environment_def fetch_optional_def find_Some_iff split: option.splits)

lemma find_by_key:
  assumes "distinct (map key xs)" "x \<in> set xs" "key x = k"
  shows "find (\<lambda>y. key y = k) xs = Some x"
  using assms by (induction xs) auto

lemma delete_project_effect:
  assumes C: "codec_lawful C" and inv: "db_inv d"
  shows "db_inv (delete_project C i d)" "t_settings (delete_project C i d) = t_settings d"
    and "j \<noteq> i \<Longrightarrow> get_project C j (delete_project C i d) = get_project C j d"
    and "get_environment C e d = Ok v \<Longrightarrow> en_project_id v \<noteq> i \<Longrightarrow>
      get_environment C e (delete_project C i d) = Ok v"
    and "get_environment C e (delete_project C i d) = Ok v \<Longrightarrow> get_environment C e d = Ok v"
proof -
  let ?d = "delete_project C i d"
  let ?gone = "pw_id ` set (filter (\<lambda>r. pw_id r = co_uuid_text C i) (t_projects d))"
  have gone: "x \<in> ?gone \<Longrightarrow> x = co_uuid_text C i" for x by auto
  have ps: "t_projects ?d = filter (\<lambda>r. pw_id r \<noteq> co_uuid_text C i) (t_projects d)"
    by (simp add: delete_project_def delete_projects_where_def Let_def)
  have es: "t_environments ?d = filter (\<lambda>r. nw_project_id r \<notin> ?gone) (t_environments d)"
    by (simp add: delete_project_def delete_projects_where_def Let_def delete_environments_where_def deleted_tables)
  show "db_inv ?d" by (rule repo_step_inv[OF _ inv]) (rule repo_step.intros)
  show "t_settings ?d = t_settings d"
    by (simp add: delete_project_def delete_projects_where_def Let_def deleted_tables)
  show "j \<noteq> i \<Longrightarrow> get_project C j ?d = get_project C j d"
    by (auto simp: get_project_def fetch_optional_def ps find_filter uuid_text_inject[OF C]
        intro!: arg_cong[of _ _ "case_option _ _"] arg_cong[of _ _ "\<lambda>p. find p _"])
  have keys: "distinct (map nw_id (t_environments d))" using inv by (simp add: db_inv_def keys_ok_def)
  show "get_environment C e ?d = Ok v" if v: "get_environment C e d = Ok v" "en_project_id v \<noteq> i"
  proof -
    obtain r where r: "r \<in> set (t_environments d)" "nw_id r = co_uuid_text C e" "environment_model C r = Ok v"
      using get_environment_row[OF v(1)] by blast
    have "nw_project_id r \<noteq> co_uuid_text C i"
      using r(3) v(2) C by (auto simp: environment_model_def and_then_eq_Inr)
    then have "r \<in> set (t_environments ?d)" using r(1) gone unfolding es set_filter by blast
    from find_by_key[OF distinct_map_filter[OF keys], of r "\<lambda>r. nw_project_id r \<notin> ?gone"] this r(2)
    have "find (\<lambda>y. nw_id y = co_uuid_text C e) (t_environments ?d) = Some r"
      by (simp only: es)
    then show ?thesis using r(3) by (simp add: get_environment_def fetch_optional_def)
  qed
  show "get_environment C e d = Ok v" if v: "get_environment C e ?d = Ok v"
  proof -
    obtain r where r: "r \<in> set (t_environments ?d)" "nw_id r = co_uuid_text C e" "environment_model C r = Ok v"
      using get_environment_row[OF v] by blast
    have "r \<in> set (t_environments d)" using r(1) unfolding es set_filter by blast
    from find_by_key[OF keys this r(2)] show ?thesis using r(3) by (simp add: get_environment_def fetch_optional_def)
  qed
qed

lemma delete_environment_effect:
  assumes C: "codec_lawful C" and inv: "db_inv d"
  shows "db_inv (delete_environment C i d)" "t_settings (delete_environment C i d) = t_settings d"
    "t_projects (delete_environment C i d) = t_projects d"
    and "j \<noteq> i \<Longrightarrow> get_environment C j (delete_environment C i d) = get_environment C j d"
    and "get_environment C i (delete_environment C i d) \<noteq> Ok v"
proof -
  let ?d = "delete_environment C i d"
  have es: "t_environments ?d = filter (\<lambda>r. nw_id r \<noteq> co_uuid_text C i) (t_environments d)"
    by (simp add: delete_environment_def delete_environments_where_def Let_def)
  show "db_inv ?d" by (rule repo_step_inv[OF _ inv]) (rule repo_step.intros)
  show "t_settings ?d = t_settings d" "t_projects ?d = t_projects d"
    by (simp_all add: delete_environment_def deleted_tables)
  show "j \<noteq> i \<Longrightarrow> get_environment C j ?d = get_environment C j d"
    by (auto simp: get_environment_def fetch_optional_def es find_filter uuid_text_inject[OF C]
        intro!: arg_cong[of _ _ "case_option _ _"] arg_cong[of _ _ "\<lambda>p. find p _"])
  show "get_environment C i ?d \<noteq> Ok v"
    using get_environment_row[of C i ?d v] by (auto simp: es)
qed

section \<open>An assertion at every place\<close>

definition readable_project :: "codec \<Rightarrow> app_state \<Rightarrow> uuid \<Rightarrow> bool" where
  "readable_project C s i \<longleftrightarrow> (\<exists>m. get_project C i (as_db s) = Ok m)"

definition owned_by :: "codec \<Rightarrow> app_state \<Rightarrow> uuid \<Rightarrow> uuid \<Rightarrow> bool" where
  "owned_by C s i e \<longleftrightarrow> (\<exists>v. get_environment C e (as_db s) = Ok v \<and> en_project_id v = i)"

text \<open>What a saved environment must keep: its owner, or be new to the settings.\<close>

definition keeps_owner :: "codec \<Rightarrow> db \<Rightarrow> environment \<Rightarrow> bool" where
  "keeps_owner C d e \<longleftrightarrow>
     (\<forall>i. load_setting_uuid C d (active_environment_key C i) = Some (en_id e) \<longrightarrow>
        (\<exists>old. get_environment C (en_id e) d = Ok old \<and> en_project_id old = en_project_id e))"

fun outline :: "codec \<Rightarrow> active_pc \<Rightarrow> app_state \<Rightarrow> bool" where
  "outline C (Active_Project c AP_Read) s \<longleftrightarrow> synced C s"
| "outline C (Active_Project c (AP_Query i)) s \<longleftrightarrow> synced C s \<and> ac_project_id (as_active s) = Some i"
| "outline C (Active_Project c (AP_Fill i m)) s \<longleftrightarrow>
     synced C s \<and> ac_project_id (as_active s) = Some i \<and> get_project C i (as_db s) = Ok m"
| "outline C (Active_Environment c AE_Read) s \<longleftrightarrow> synced C s"
| "outline C (Active_Environment c (AE_Query i)) s \<longleftrightarrow> synced C s \<and> ac_environment_id (as_active s) = Some i"
| "outline C (Active_Environment c (AE_Fill i e)) s \<longleftrightarrow>
     synced C s \<and> ac_environment_id (as_active s) = Some i \<and> get_environment C i (as_db s) = Ok e"
| "outline C (Setting_Project (SP_Project i)) s \<longleftrightarrow> synced C s"
| "outline C (Setting_Project (SP_Setting i m)) s \<longleftrightarrow> synced C s \<and> get_project C i (as_db s) = Ok m"
| "outline C (Setting_Project (SP_Owner i m e)) s \<longleftrightarrow> synced C s \<and> get_project C i (as_db s) = Ok m
     \<and> load_setting_uuid C (as_db s) (active_environment_key C i) = Some e"
| "outline C (Setting_Project (SP_Environment i m e)) s \<longleftrightarrow> synced C s \<and> get_project C i (as_db s) = Ok m
     \<and> load_project_environment_id C (as_db s) i = Some e"
| "outline C (Setting_Project (SP_Write i m e v)) s \<longleftrightarrow> synced C s
     \<and> (case i of
          None \<Rightarrow> m = None \<and> e = None
        | Some j \<Rightarrow> (\<exists>w. m = Some w \<and> get_project C j (as_db s) = Ok w)
            \<and> load_project_environment_id C (as_db s) j = e)
     \<and> (case e of
          None \<Rightarrow> v = None
        | Some x \<Rightarrow> \<exists>w. v = Some w \<and> get_environment C x (as_db s) = Ok w)"
| "outline C (Setting_Project (SP_Persist i)) s \<longleftrightarrow> db_inv (as_db s) \<and> selection C s \<and> fresh_project C s
     \<and> fresh_environment C s \<and> ac_project_id (as_active s) = i"
| "outline C (Setting_Environment (SE_Query i e)) s \<longleftrightarrow> synced C s \<and> ac_project_id (as_active s) = Some i"
| "outline C (Setting_Environment (SE_Write i e v)) s \<longleftrightarrow> synced C s \<and> ac_project_id (as_active s) = Some i
     \<and> (case e of
          None \<Rightarrow> v = None
        | Some x \<Rightarrow> \<exists>w. v = Some w \<and> get_environment C x (as_db s) = Ok w \<and> en_project_id w = i)"
| "outline C (Setting_Environment (SE_Persist i e)) s \<longleftrightarrow> db_inv (as_db s) \<and> remembered C s
     \<and> fresh_project C s \<and> fresh_environment C s \<and> ac_project_id (as_active s) = Some i
     \<and> readable_project C s i \<and> ac_environment_id (as_active s) = e
     \<and> (case e of None \<Rightarrow> True | Some x \<Rightarrow> owned_by C s i x)"
| "outline C (Restoring RA_Start) s \<longleftrightarrow> synced C s"
| "outline C (Restoring (RA_Project i)) s \<longleftrightarrow> synced C s \<and> ac_project_id (as_active s) = Some i"
| "outline C (Restoring (RA_Setting i)) s \<longleftrightarrow> synced C s \<and> ac_project_id (as_active s) = Some i"
| "outline C (Restoring (RA_Owner i e)) s \<longleftrightarrow> synced C s \<and> ac_project_id (as_active s) = Some i
     \<and> load_setting_uuid C (as_db s) (active_environment_key C i) = Some e"
| "outline C (Restoring (RA_Write i e)) s \<longleftrightarrow> synced C s \<and> ac_project_id (as_active s) = i
     \<and> ac_environment_id (as_active s) = e"
| "outline C (Merging p) s \<longleftrightarrow> synced C s"
| "outline C (Saving_Project (PS_Save m)) s \<longleftrightarrow> synced C s \<and> text_ok (co_strings C) (pr_variables m)"
| "outline C (Saving_Project (PS_Refresh m)) s \<longleftrightarrow> db_inv (as_db s) \<and> remembered C s \<and> selection C s
     \<and> fresh_environment C s
     \<and> (ac_project_id (as_active s) \<noteq> Some (pr_id m) \<longrightarrow> fresh_project C s)
     \<and> (ac_project_id (as_active s) = Some (pr_id m) \<longrightarrow>
          (\<exists>m'. get_project C (pr_id m) (as_db s) = Ok m' \<and> same_variables m m'))"
| "outline C (Deleting_Project (PD_Delete i)) s \<longleftrightarrow> synced C s"
| "outline C (Deleting_Project (PD_Clear i)) s \<longleftrightarrow> db_inv (as_db s)
     \<and> (ac_project_id (as_active s) \<noteq> Some i \<longrightarrow> synced C s)"
| "outline C (Deleting_Project (PD_Persist_Project i)) s \<longleftrightarrow> db_inv (as_db s) \<and> as_active s = default_context"
| "outline C (Deleting_Project (PD_Persist_Environment i)) s \<longleftrightarrow> synced C s \<and> as_active s = default_context"
| "outline C (Saving_Environment (ES_Owner n e)) s \<longleftrightarrow>
     synced C s \<and> variables_lawful C n (en_variables e) \<and> keeps_owner C (as_db s) e"
| "outline C (Saving_Environment (ES_Save n e)) s \<longleftrightarrow>
     synced C s \<and> variables_lawful C n (en_variables e) \<and> keeps_owner C (as_db s) e"
| "outline C (Saving_Environment (ES_Refresh e)) s \<longleftrightarrow> db_inv (as_db s) \<and> remembered C s \<and> selection C s
     \<and> fresh_project C s
     \<and> (ac_environment_id (as_active s) \<noteq> Some (en_id e) \<longrightarrow> fresh_environment C s)
     \<and> (ac_environment_id (as_active s) = Some (en_id e) \<longrightarrow>
          (\<exists>e'. get_environment C (en_id e) (as_db s) = Ok e' \<and> same_values e e'))"
| "outline C (Deleting_Environment (ED_Delete i)) s \<longleftrightarrow> synced C s"
| "outline C (Deleting_Environment (ED_Read i)) s \<longleftrightarrow> db_inv (as_db s) \<and> remembered C s \<and> fresh_project C s
     \<and> (ac_environment_id (as_active s) \<noteq> Some i \<longrightarrow> synced C s)
     \<and> (ac_environment_id (as_active s) = Some i \<longrightarrow>
          (\<exists>j. ac_project_id (as_active s) = Some j \<and> readable_project C s j
             \<and> load_project_environment_id C (as_db s) j = None))"
| "outline C (Deleting_Environment (ED_Clear p)) s \<longleftrightarrow> db_inv (as_db s) \<and> remembered C s \<and> fresh_project C s
     \<and> ac_project_id (as_active s) = p
     \<and> (\<exists>j. p = Some j \<and> readable_project C s j \<and> load_project_environment_id C (as_db s) j = None)"
| "outline C (Deleting_Environment (ED_Persist i)) s \<longleftrightarrow> synced C s \<and> ac_project_id (as_active s) = Some i
     \<and> ac_environment_id (as_active s) = None"
| "outline C (Finished r) s \<longleftrightarrow> synced C s"

lemma outline_ready [simp]:
  "outline C (environment_ready c e) s \<longleftrightarrow> synced C s"
  by (cases c) simp_all

lemma outline_project_ready:
  "synced C s \<Longrightarrow> (\<And>m. p = Some m \<Longrightarrow> ac_project_id (as_active s) = Some (pr_id m)) \<Longrightarrow>
     outline C (project_ready c p) s"
  by (cases c; cases p) (auto split: option.splits)

lemma outline_or_fail:
  "synced C s \<Longrightarrow> (\<And>x. r = Inr x \<Longrightarrow> outline C (k x) s) \<Longrightarrow> outline C (or_fail r k) s"
  by (auto simp: or_fail_def split: sum.splits)

text \<open>A stretch of a command that runs alone keeps the assertions.\<close>

definition keeps_outline :: "codec \<Rightarrow> active_pc \<Rightarrow> app_state \<Rightarrow> bool" where
  "keeps_outline C pc s \<longleftrightarrow>
     (outline C pc s \<longrightarrow> outline C (fst (advance C pc s)) (snd (advance C pc s)))"

lemma same_refl [simp]: "same_variables m m" "same_values e e"
  by (simp_all add: same_variables_def same_values_def)

lemma active_project_outline:
  assumes C: "settings_lawful C"
  shows "keeps_outline C (Active_Project c p) s"
  using get_project_id[OF settings_lawful_codec[OF C]]
  by (cases p) (auto simp: keeps_outline_def sync_defs Let_def split: option.splits
      intro!: outline_project_ready outline_or_fail)

lemma active_environment_outline:
  assumes C: "settings_lawful C"
  shows "keeps_outline C (Active_Environment c p) s"
  using get_environment_id[OF settings_lawful_codec[OF C]]
  by (cases p) (auto simp: keeps_outline_def sync_defs Let_def split: option.splits
      intro!: outline_or_fail)


lemma set_active_project_outline:
  assumes C: "settings_lawful C"
  shows "keeps_outline C (Setting_Project p) s"
proof (cases p)
  case (SP_Write i m e v)
  then show ?thesis
    using get_project_id[OF settings_lawful_codec[OF C]] get_environment_id[OF settings_lawful_codec[OF C]]
    by (cases i; cases e) (auto simp: keeps_outline_def sync_defs)
next
  case (SP_Persist i)
  then show ?thesis
    by (auto simp: keeps_outline_def sync_defs stored_setting[OF C] load_environment_set setting_inv
        split: option.splits)
qed (auto simp: keeps_outline_def load_project_environment_id_def owned_environment_eq
    split: option.splits intro!: outline_or_fail)

lemma set_active_environment_outline:
  assumes C: "settings_lawful C"
  shows "keeps_outline C (Setting_Environment p) s"
proof (cases p)
  case (SE_Write i e v)
  then show ?thesis
    using get_environment_id[OF settings_lawful_codec[OF C]]
    by (cases e) (auto simp: keeps_outline_def sync_defs readable_project_def owned_by_def)
next
  case (SE_Persist i e)
  then show ?thesis
    using stored_setting[OF C]
    by (cases e) (auto simp: keeps_outline_def sync_defs readable_project_def owned_by_def
        load_project_environment_id_def owned_environment_eq other_setting setting_inv)
qed (auto simp: keeps_outline_def intro!: outline_or_fail)

lemma restore_active_outline:
  assumes C: "settings_lawful C"
  shows "keeps_outline C (Restoring p) s"
  by (cases p) (auto simp: keeps_outline_def sync_defs load_project_environment_id_def
      split: option.splits sum.splits)

lemma variables_for_outline: "keeps_outline C (Merging p) s"
  by (cases p) (auto simp: keeps_outline_def intro!: outline_or_fail)

lemma save_project_outline:
  assumes C: "settings_lawful C"
  shows "keeps_outline C (Saving_Project p) s"
proof (cases p)
  case (PS_Save m)
  show ?thesis
  proof (cases "save_project C m (as_db s)")
    case (Inr d)
    show ?thesis
      unfolding PS_Save keeps_outline_def
    proof
      assume o: "outline C (Saving_Project (PS_Save m)) s"
      then have inv: "db_inv (as_db s)" and v: "text_ok (co_strings C) (pr_variables m)"
        by (simp_all add: synced_def)
      note e = save_project_effect[OF settings_lawful_codec[OF C] Inr inv v]
      have kept: "\<exists>w'. get_project C i d = Ok w'" if "get_project C i (as_db s) = Ok w" for i w
        using that e(4)[of i] e(5) by (cases "i = pr_id m") auto
      show "outline C (fst (advance C (Saving_Project (PS_Save m)) s)) (snd (advance C (Saving_Project (PS_Save m)) s))"
        using o kept e(4,5)
        by (auto simp: Inr sync_defs e(1) get_setting_tables[OF e(2)] get_environment_tables[OF e(3)]
            load_environment_tables[OF e(2,3)] split: option.splits)
    qed
  qed (simp add: PS_Save keeps_outline_def)
next
  case (PS_Refresh m)
  then show ?thesis
    by (auto simp: keeps_outline_def sync_defs refresh_active_project_def split: option.splits)
qed

lemma save_environment_outline:
  assumes C: "settings_lawful C"
  shows "keeps_outline C (Saving_Environment p) s"
proof (cases p)
  case (ES_Owner n e)
  then show ?thesis by (auto simp: keeps_outline_def split: sum.splits)
next
  case (ES_Save n e)
  show ?thesis
  proof (cases "save_environment C n e (as_db s)")
    case (Inr q)
    then obtain saved d where Inr: "save_environment C n e (as_db s) = Ok (saved, d)" by (cases q) auto
    show ?thesis
      unfolding ES_Save keeps_outline_def
    proof
      assume o: "outline C (Saving_Environment (ES_Save n e)) s"
      then have inv: "db_inv (as_db s)" and v: "variables_lawful C n (en_variables e)"
        and owner: "keeps_owner C (as_db s) e" and syn: "synced C s"
        by (simp_all add: synced_def)
      note f = save_environment_effect[OF settings_lawful_codec[OF C] Inr inv v]
      have load: "load_project_environment_id C d i = load_project_environment_id C (as_db s) i" for i
      proof (cases "load_setting_uuid C (as_db s) (active_environment_key C i) = Some (en_id e)")
        case True
        then obtain old e' where "get_environment C (en_id e) (as_db s) = Ok old" "en_project_id old = en_project_id e"
          "get_environment C (en_id e) d = Ok e'" "en_project_id e' = en_project_id e"
          using owner f(6) unfolding keeps_owner_def by blast
        then show ?thesis
          by (simp add: load_project_environment_id_def get_setting_tables[OF f(3)] True owned_environment_def)
      next
        case False
        then show ?thesis
          by (cases "load_setting_uuid C (as_db s) (active_environment_key C i)")
            (auto simp: load_project_environment_id_def get_setting_tables[OF f(3)] owned_environment_def f(5))
      qed
      have sel: "\<exists>w. get_environment C (en_id e) (as_db s) = Ok w" if "ac_environment_id (as_active s) = Some (en_id e)"
        using that syn by (auto simp: synced_def selection_def load_environment_eq split: option.splits)
      show "outline C (fst (advance C (Saving_Environment (ES_Save n e)) s)) (snd (advance C (Saving_Environment (ES_Save n e)) s))"
        using syn sel f(5,6)
        by (auto simp: Inr sync_defs f(1,2) get_setting_tables[OF f(3)] get_project_tables[OF f(4)] load
            split: option.splits)
    qed
  qed (simp add: ES_Save keeps_outline_def)
next
  case (ES_Refresh e)
  then show ?thesis
    by (auto simp: keeps_outline_def sync_defs refresh_active_environment_def split: option.splits)
qed


lemma synced_owner:
  "synced C s \<Longrightarrow> ac_project_id (as_active s) = Some i \<Longrightarrow> ac_environment_id (as_active s) = Some e \<Longrightarrow>
     \<exists>v. get_environment C e (as_db s) = Ok v \<and> en_project_id v = i"
  by (auto simp: synced_def selection_def load_environment_eq)

lemma same_option: "(\<And>x. a = Some x \<longleftrightarrow> b = Some x) \<Longrightarrow> a = b"
  by (cases a; cases b) auto

lemma delete_project_synced:
  assumes C: "settings_lawful C" and syn: "synced C s" and other: "ac_project_id (as_active s) \<noteq> Some i"
  shows "synced C (s\<lparr>as_db := delete_project C i (as_db s)\<rparr>)"
proof -
  note L = settings_lawful_codec[OF C]
  have inv: "db_inv (as_db s)" using syn by (simp add: synced_def)
  note e = delete_project_effect[OF L inv, where i = i]
  have load: "load_project_environment_id C (delete_project C i (as_db s)) j
      = load_project_environment_id C (as_db s) j" if "j \<noteq> i" for j
  proof (rule same_option)
    fix x
    show "load_project_environment_id C (delete_project C i (as_db s)) j = Some x
        \<longleftrightarrow> load_project_environment_id C (as_db s) j = Some x"
      unfolding load_environment_eq get_setting_tables[OF e(2)] using e(4)[of x] e(5)[of x] that by blast
  qed
  show ?thesis
  proof (cases "ac_project_id (as_active s)")
    case None
    then show ?thesis using syn by (auto simp: sync_defs e(1) get_setting_tables[OF e(2)])
  next
    case (Some j)
    with other have j: "j \<noteq> i" by simp
    have env: "get_environment C x (delete_project C i (as_db s)) = Ok v"
      if "get_environment C x (as_db s) = Ok v" "ac_environment_id (as_active s) = Some x" for x v
      using synced_owner[OF syn Some that(2)] that(1) e(4) j by auto
    show ?thesis using syn Some j env
      by (auto simp: sync_defs e(1) get_setting_tables[OF e(2)] e(3) load)
  qed
qed

lemma delete_project_outline:
  assumes C: "settings_lawful C"
  shows "keeps_outline C (Deleting_Project p) s"
proof (cases p)
  case (PD_Delete i)
  then show ?thesis
    using delete_project_synced[OF C, of s i] delete_project_effect(1)[OF settings_lawful_codec[OF C], where d = "as_db s" and i = i]
    by (auto simp: keeps_outline_def synced_def)
next
  case (PD_Clear i)
  then show ?thesis by (auto simp: keeps_outline_def)
next
  case (PD_Persist_Project i)
  then show ?thesis
    by (auto simp: keeps_outline_def sync_defs stored_null[OF C] setting_inv default_context_def)
next
  case (PD_Persist_Environment i)
  then show ?thesis
    by (auto simp: keeps_outline_def sync_defs other_setting setting_inv default_context_def)
qed

lemma delete_environment_outline:
  assumes C: "settings_lawful C"
  shows "keeps_outline C (Deleting_Environment p) s"
proof (cases p)
  case (ED_Delete i)
  show ?thesis unfolding ED_Delete keeps_outline_def
  proof
    assume "outline C (Deleting_Environment (ED_Delete i)) s"
    then have syn: "synced C s" by simp
    then have inv: "db_inv (as_db s)" by (simp add: synced_def)
    note e = delete_environment_effect[OF settings_lawful_codec[OF C] inv, where i = i]
    have load: "load_project_environment_id C (delete_environment C i (as_db s)) j
        = (if load_project_environment_id C (as_db s) j = Some i then None
           else load_project_environment_id C (as_db s) j)" for j
    proof (cases "load_setting_uuid C (as_db s) (active_environment_key C j)")
      case (Some x)
      then show ?thesis using e(4)[of x] e(5)
        by (cases "x = i") (auto simp: load_project_environment_id_def get_setting_tables[OF e(2)]
            owned_environment_def split: sum.splits)
    qed (simp add: load_project_environment_id_def get_setting_tables[OF e(2)])
    show "outline C (fst (advance C (Deleting_Environment (ED_Delete i)) s))
        (snd (advance C (Deleting_Environment (ED_Delete i)) s))"
      using syn e(4)
      by (auto simp: sync_defs readable_project_def e(1) get_setting_tables[OF e(2)]
          get_project_tables[OF e(3)] load split: option.splits)
  qed
next
  case (ED_Read i)
  then show ?thesis by (auto simp: keeps_outline_def)
next
  case (ED_Clear q)
  then show ?thesis
    by (auto simp: keeps_outline_def sync_defs readable_project_def split: option.splits)
next
  case (ED_Persist i)
  then show ?thesis
    by (auto simp: keeps_outline_def sync_defs other_setting setting_inv load_project_environment_id_def
        stored_null[OF C])
qed

lemma advance_outline:
  assumes C: "settings_lawful C" and o: "outline C pc s" and a: "advance C pc s = (pc', s')"
  shows "outline C pc' s'"
proof -
  have "keeps_outline C pc s"
    by (cases pc) (simp_all add: active_project_outline active_environment_outline set_active_project_outline
        set_active_environment_outline restore_active_outline variables_for_outline save_project_outline
        save_environment_outline delete_project_outline delete_environment_outline keeps_outline_def[of C "Finished _"] C)
  then show ?thesis using o a by (simp add: keeps_outline_def)
qed

text \<open>Nothing makes a command wait forever: the loops go round once.\<close>

lemma ready_left:
  "stretches_left (project_ready c p) < stretches_left (Active_Project c (AP_Fill i m))"
  "stretches_left (environment_ready d e) < stretches_left (Active_Environment d (AE_Fill i v))"
  by (cases c; cases p; simp split: option.splits) (cases d; simp)

lemma or_fail_left:
  "(\<And>x. stretches_left (k x) < n) \<Longrightarrow> stretches_left (or_fail r k) < n"
  "stretches_left (or_fail r (\<lambda>x. Finished (f x))) = 0"
  by (auto simp: or_fail_def split: sum.splits intro: le_less_trans[OF le0])

lemma advance_left:
  assumes "outline C pc s" "0 < stretches_left pc"
  shows "stretches_left (fst (advance C pc s)) < stretches_left pc"
  using assms ready_left
  by (cases pc rule: place_cases)
    (auto simp: Let_def less_Suc_eq_le or_fail_left(2)
      split: option.splits sum.splits project_caller.splits environment_caller.splits intro!: or_fail_left(1))

text \<open>A command that runs alone answers within \<open>max_stretches\<close> stretches.\<close>

lemma run_alone_finishes:
  assumes C: "settings_lawful C"
  shows "outline C pc s \<Longrightarrow> stretches_left pc \<le> n \<Longrightarrow>
    \<exists>r s'. run_alone n C pc s = (Finished r, s') \<and> synced C s'"
proof (induction n arbitrary: pc s)
  case 0
  then show ?case by (cases pc rule: place_cases) (auto split: project_caller.splits environment_caller.splits)
next
  case (Suc n)
  obtain pc' s' where a: "advance C pc s = (pc', s')" by fastforce
  have "stretches_left pc' \<le> n"
  proof (cases "stretches_left pc = 0")
    case True
    then have "pc' = pc" using a
      by (cases pc rule: place_cases) (auto split: project_caller.splits environment_caller.splits)
    with True show ?thesis by simp
  next
    case False
    with advance_left[OF Suc.prems(1)] a Suc.prems(2) show ?thesis by simp
  qed
  from Suc.IH[OF advance_outline[OF C Suc.prems(1) a] this] show ?case by (simp add: a)
qed

text \<open>What a command needs of its argument.\<close>

fun admissible :: "codec \<Rightarrow> db \<Rightarrow> active_command \<Rightarrow> bool" where
  "admissible C d (Save_Project m) \<longleftrightarrow> text_ok (co_strings C) (pr_variables m)"
| "admissible C d (Save_Environment n e) \<longleftrightarrow> variables_lawful C n (en_variables e) \<and> keeps_owner C d e"
| "admissible C d cmd \<longleftrightarrow> True"

lemma start_outline:
  "synced C s \<Longrightarrow> admissible C (as_db s) cmd \<Longrightarrow> outline C (start_command cmd) s"
  "stretches_left (start_command cmd) \<le> max_stretches"
  by (cases cmd; auto split: option.splits)
    (cases cmd; auto simp: max_stretches_def split: option.splits)


section \<open>Sessions\<close>

text \<open>
  What the rest of the program may do to the database between two commands of a session: the
  projects and environments keep their variables, owners and base addresses, and the remembered
  identifiers stay. This is an assumption on the other writers, which write to the same tables and do
  not refresh the cache. The commands of the desktop shell that write projects and environments are
  the ones modelled here. The embedded agent breaks the assumption when it imports a command for a
  project without \<open>base_url\<close>: it stores one (\<open>ensure_base_url\<close>, \<open>fox-agent/src/server.rs\<close>) and the
  cached project keeps the old variables (\<open>agent_base_url_unseen\<close>).
\<close>

definition same_context :: "codec \<Rightarrow> db \<Rightarrow> db \<Rightarrow> bool" where
  "same_context C d d' \<longleftrightarrow> db_inv d'
     \<and> (\<forall>i m. get_project C i d = Ok m \<longrightarrow> (\<exists>m'. get_project C i d' = Ok m' \<and> same_variables m m'))
     \<and> (\<forall>i e. get_environment C i d = Ok e \<longrightarrow>
          (\<exists>e'. get_environment C i d' = Ok e' \<and> same_values e e' \<and> en_project_id e = en_project_id e'))
     \<and> (\<forall>i. load_project_environment_id C d' i = load_project_environment_id C d i)
     \<and> load_setting_uuid C d' KEY_ACTIVE_PROJECT = load_setting_uuid C d KEY_ACTIVE_PROJECT"

text \<open>
  A session begins with no remembered project; its commands run one after another; the program may
  stop between two of them and start again on the same database.
\<close>

inductive session :: "codec \<Rightarrow> app_state \<Rightarrow> bool" for C where
  First_Start: "db_inv d \<Longrightarrow> load_setting_uuid C d KEY_ACTIVE_PROJECT = None \<Longrightarrow> session C (new_app_state d)"
| Command: "session C s \<Longrightarrow> admissible C (as_db s) cmd \<Longrightarrow> run_command C cmd s = (pc, s') \<Longrightarrow> session C s'"
| Restart: "session C s \<Longrightarrow> run_command C Restore_Active (new_app_state (as_db s)) = (pc, s') \<Longrightarrow> session C s'"
| Other: "session C s \<Longrightarrow> same_context C (as_db s) d \<Longrightarrow> session C (s\<lparr>as_db := d\<rparr>)"

lemma run_alone_Finished [simp]: "run_alone n C (Finished r) s = (Finished r, s)"
  by (induction n) simp_all

lemma run_alone_add:
  "run_alone (m + n) C pc s = (case run_alone m C pc s of (pc', s') \<Rightarrow> run_alone n C pc' s')"
  by (induction m arbitrary: pc s) (simp_all split: prod.splits)

lemma run_alone_more:
  "run_alone m C pc s = (Finished r, s') \<Longrightarrow> m \<le> n \<Longrightarrow> run_alone n C pc s = (Finished r, s')"
  using run_alone_add[of m "n - m" C pc s] by simp

lemma restart_run:
  assumes syn: "synced C s"
  shows "run_command C Restore_Active (new_app_state (as_db s))
    = (Finished (Ok R_Unit), \<lparr>as_db = as_db s, as_active = \<lparr>ac_project_id = ac_project_id (as_active s),
         ac_project = None, ac_environment_id = ac_environment_id (as_active s), ac_environment = None\<rparr>\<rparr>)"
proof -
  have "run_alone 5 C (Restoring RA_Start) (new_app_state (as_db s))
      = (Finished (Ok R_Unit), \<lparr>as_db = as_db s, as_active = \<lparr>ac_project_id = ac_project_id (as_active s),
         ac_project = None, ac_environment_id = ac_environment_id (as_active s), ac_environment = None\<rparr>\<rparr>)"
  proof (cases "ac_project_id (as_active s)")
    case None
    then show ?thesis using syn by (simp add: sync_defs eval_nat_numeral new_app_state_def)
  next
    case (Some i)
    with syn obtain m where h: "load_setting_uuid C (as_db s) KEY_ACTIVE_PROJECT = Some i"
      "get_project C i (as_db s) = Ok m"
      "load_project_environment_id C (as_db s) i = ac_environment_id (as_active s)"
      by (auto simp: synced_def remembered_def selection_def)
    show ?thesis
      using h(3) by (cases "load_setting_uuid C (as_db s) (active_environment_key C i)")
        (simp_all add: load_project_environment_id_def eval_nat_numeral new_app_state_def h(1,2) Some)
  qed
  from run_alone_more[OF this, of max_stretches] show ?thesis
    unfolding run_command_def start_command.simps by (simp add: max_stretches_def)
qed

lemma same_context_synced:
  assumes syn: "synced C s" and same: "same_context C (as_db s) d"
  shows "synced C (s\<lparr>as_db := d\<rparr>)"
proof -
  let ?s = "s\<lparr>as_db := d\<rparr>"
  have p: "\<exists>m'. get_project C i d = Ok m' \<and> same_variables m m'" if "get_project C i (as_db s) = Ok m" for i m
    using same that by (simp add: same_context_def)
  have e: "\<exists>v'. get_environment C i d = Ok v' \<and> same_values v v'" if "get_environment C i (as_db s) = Ok v" for i v
    using same that unfolding same_context_def by blast
  have frame: "db_inv d" "load_setting_uuid C d KEY_ACTIVE_PROJECT = load_setting_uuid C (as_db s) KEY_ACTIVE_PROJECT"
    "\<And>i. load_project_environment_id C d i = load_project_environment_id C (as_db s) i"
    using same by (simp_all add: same_context_def)
  have "remembered C ?s" using syn by (simp add: synced_def remembered_def frame)
  moreover have "selection C ?s"
    using syn p by (cases "ac_project_id (as_active s)") (force simp: synced_def selection_def frame)+
  moreover have "fresh_project C ?s"
    unfolding fresh_project_def
  proof (intro allI impI)
    fix m assume "ac_project (as_active ?s) = Some m"
    then obtain m' where "ac_project_id (as_active s) = Some (pr_id m)"
      "get_project C (pr_id m) (as_db s) = Ok m'" "same_variables m m'"
      using syn by (auto simp: synced_def fresh_project_def)
    with p[of "pr_id m" m'] show "ac_project_id (as_active ?s) = Some (pr_id m)
        \<and> (\<exists>m'. get_project C (pr_id m) (as_db ?s) = Ok m' \<and> same_variables m m')"
      by (auto simp: same_variables_def)
  qed
  moreover have "fresh_environment C ?s"
    unfolding fresh_environment_def
  proof (intro allI impI)
    fix v assume "ac_environment (as_active ?s) = Some v"
    then obtain v' where "ac_environment_id (as_active s) = Some (en_id v)"
      "get_environment C (en_id v) (as_db s) = Ok v'" "same_values v v'"
      using syn by (auto simp: synced_def fresh_environment_def)
    with e[of "en_id v" v'] show "ac_environment_id (as_active ?s) = Some (en_id v)
        \<and> (\<exists>v'. get_environment C (en_id v) (as_db ?s) = Ok v' \<and> same_values v v')"
      by (auto simp: same_values_def)
  qed
  ultimately show ?thesis by (simp add: synced_def frame)
qed

lemma session_synced:
  assumes C: "settings_lawful C"
  shows "session C s \<Longrightarrow> synced C s"
proof (induction rule: session.induct)
  case (First_Start d)
  then show ?case by (simp add: sync_defs new_app_state_def default_context_def)
next
  case (Command s cmd pc s')
  from run_alone_finishes[OF C start_outline(1)[OF Command.IH Command.hyps(2)] start_outline(2)]
    Command.hyps(3) show ?case by (auto simp: run_command_def)
next
  case (Restart s pc s')
  from restart_run[OF Restart.IH] Restart.hyps(2) Restart.IH show ?case
    by (auto simp: sync_defs split: option.splits)
next
  case (Other s d)
  then show ?case by (intro same_context_synced)
qed

text \<open>
  C32: A restart changes nothing. In a session in which saved environments keep their owners, starting the
  program again on the same database restores exactly the active project and environment that were
  active when it stopped, whatever was selected, saved and deleted before.
\<close>

theorem restart_restores_selection:
  assumes "settings_lawful C" "session C s"
  shows "\<exists>s'. run_command C Restore_Active (new_app_state (as_db s)) = (Finished (Ok R_Unit), s')
     \<and> as_db s' = as_db s
     \<and> ac_project_id (as_active s') = ac_project_id (as_active s)
     \<and> ac_environment_id (as_active s') = ac_environment_id (as_active s)"
  using restart_run[OF session_synced[OF assms]] by simp


text \<open>A concrete codec whose JSON knows strings.\<close>

definition setting_json :: "json serde" where
  "setting_json =
     Serde (\<lambda>v. case v of JString s \<Rightarrow> Ok (CHR 0x22 # s) | JNull \<Rightarrow> Ok ''null'' | _ \<Rightarrow> Ok ''[]'')
       (\<lambda>t. if t = ''null'' then Ok JNull else if t = ''[]'' then Ok (JArray [])
            else (case t of c # s \<Rightarrow> if c = CHR 0x22 then Ok (JString s) else Err ''no'' | [] \<Rightarrow> Err ''no'')) Ok"

definition setting_codec :: codec where
  "setting_codec = demo_codec\<lparr>co_json := setting_json\<rparr>"

lemma setting_codec_lawful [simp]: "settings_lawful setting_codec"
  using demo_codec_lawful
  by (simp add: settings_lawful_def setting_codec_def codec_lawful_def setting_json_def text_ok_def)

lemma demo_start: "db_inv demo_db" "load_setting_uuid C demo_db KEY_ACTIVE_PROJECT = None"
  by (simp_all add: db_inv_def fk_defs demo_db_def keys_ok_def empty_db_def project_row_def load_setting_uuid_def
      get_setting_def fetch_optional_def)

definition demo_selected :: app_state where
  "demo_selected = snd (run_command setting_codec (Set_Active_Project (Some 2)) (new_app_state demo_db))"

lemma demo_session: "session setting_codec demo_selected"
  unfolding demo_selected_def
  by (rule session.Command[OF session.First_Start[OF demo_start], of _ "Set_Active_Project (Some 2)"])
    (simp_all add: prod_eq_iff)

lemma restart_restores_selection_witness:
  "ac_project_id (as_active (snd (run_command setting_codec Restore_Active (new_app_state (as_db demo_selected)))))
     = ac_project_id (as_active demo_selected)"
  using restart_restores_selection[OF setting_codec_lawful demo_session] by auto

section \<open>The variables of a request\<close>

definition stored_project :: "codec \<Rightarrow> db \<Rightarrow> project option" where
  "stored_project C d =
     Option.bind (load_setting_uuid C d KEY_ACTIVE_PROJECT)
       (\<lambda>i. case get_project C i d of Inr m \<Rightarrow> Some m | Inl _ \<Rightarrow> None)"

definition stored_environment :: "codec \<Rightarrow> db \<Rightarrow> environment option" where
  "stored_environment C d =
     Option.bind (Option.bind (load_setting_uuid C d KEY_ACTIVE_PROJECT) (load_project_environment_id C d))
       (\<lambda>e. case get_environment C e d of Inr v \<Rightarrow> Some v | Inl _ \<Rightarrow> None)"

text \<open>The variables as the stored rows give them, without a context in memory.\<close>

definition stored_variables :: "codec \<Rightarrow> db \<Rightarrow> uuid option \<Rightarrow> reply command_result" where
  "stored_variables C d i =
     commanded
       (and_then (case i of None \<Rightarrow> Ok (stored_environment C d) | Some e \<Rightarrow> and_then (get_environment C e d) (\<lambda>v. Ok (Some v)))
         (\<lambda>v. and_then (get_global_variables C d)
           (\<lambda>vs. Ok (R_Variables (merged_tables vs (stored_project C d) v)))))"

lemma tables_same:
  "same_variables m m' \<Longrightarrow> project_table (Some m) = project_table (Some m')"
  "same_values e e' \<Longrightarrow> environment_table (Some e) = environment_table (Some e')"
  by (simp_all add: same_variables_def same_values_def project_table_def environment_table_def
      effective_variables_def Let_def)

lemma active_project_phase:
  assumes syn: "synced C s"
  shows "\<exists>k p s1. k \<le> 3 \<and> run_alone k C (Active_Project c AP_Read) s = (project_ready c p, s1)
     \<and> as_db s1 = as_db s \<and> ac_environment_id (as_active s1) = ac_environment_id (as_active s)
     \<and> ac_environment (as_active s1) = ac_environment (as_active s)
     \<and> project_table p = project_table (stored_project C (as_db s))"
proof (cases "ac_project (as_active s)")
  case (Some m)
  with syn obtain m' where "load_setting_uuid C (as_db s) KEY_ACTIVE_PROJECT = Some (pr_id m)"
    "get_project C (pr_id m) (as_db s) = Ok m'" "same_variables m m'"
    by (auto simp: synced_def remembered_def fresh_project_def)
  then have "project_table (Some m) = project_table (stored_project C (as_db s))"
    by (simp add: stored_project_def tables_same)
  then show ?thesis by (intro exI[of _ 1] exI[of _ "Some m"] exI[of _ s]) (simp add: Some)
next
  case none: None
  show ?thesis
  proof (cases "ac_project_id (as_active s)")
    case None
    then have "stored_project C (as_db s) = None"
      using syn by (simp add: synced_def remembered_def stored_project_def)
    then show ?thesis by (intro exI[of _ 1] exI[of _ None] exI[of _ s]) (simp add: none None)
  next
    case (Some i)
    with syn obtain m where "load_setting_uuid C (as_db s) KEY_ACTIVE_PROJECT = Some i"
      "get_project C i (as_db s) = Ok m"
      by (auto simp: synced_def remembered_def selection_def)
    then show ?thesis
      by (intro exI[of _ 3] exI[of _ "Some m"]) (simp add: none Some eval_nat_numeral or_fail_def stored_project_def)
  qed
qed

lemma active_environment_phase:
  assumes syn: "synced C s" and same: "as_db s1 = as_db s"
    "ac_environment_id (as_active s1) = ac_environment_id (as_active s)"
    "ac_environment (as_active s1) = ac_environment (as_active s)"
  shows "\<exists>k e s2. k \<le> 3 \<and> run_alone k C (Active_Environment c AE_Read) s1 = (environment_ready c e, s2)
     \<and> as_db s2 = as_db s \<and> environment_table e = environment_table (stored_environment C (as_db s))"
proof (cases "ac_environment_id (as_active s)")
  case None
  then have "stored_environment C (as_db s) = None"
    using syn by (auto simp: synced_def remembered_def selection_def stored_environment_def split: option.splits)
  moreover have "ac_environment (as_active s) = None"
    using syn None by (cases "ac_environment (as_active s)") (auto simp: synced_def fresh_environment_def)
  ultimately show ?thesis by (intro exI[of _ 1] exI[of _ None] exI[of _ s1]) (simp add: same None)
next
  case (Some e)
  with syn obtain i where i: "ac_project_id (as_active s) = Some i" "load_project_environment_id C (as_db s) i = Some e"
    by (auto simp: synced_def selection_def split: option.splits)
  then obtain v where v: "get_environment C e (as_db s) = Ok v" by (auto simp: load_environment_eq)
  have stored: "stored_environment C (as_db s) = Some v"
    using syn i v by (simp add: synced_def remembered_def stored_environment_def)
  show ?thesis
  proof (cases "ac_environment (as_active s)")
    case None
    then show ?thesis
      by (intro exI[of _ 3] exI[of _ "Some v"]) (simp add: same Some v stored eval_nat_numeral or_fail_def)
  next
    case cached: (Some w)
    then have "en_id w = e" "same_values w v"
      using syn Some v by (auto simp: synced_def fresh_environment_def)
    then have "environment_table (Some w) = environment_table (stored_environment C (as_db s))"
      by (simp add: stored tables_same)
    then show ?thesis
      by (intro exI[of _ 1] exI[of _ "Some w"] exI[of _ s1]) (simp add: same cached)
  qed
qed


lemma merged_cong:
  "project_table p = project_table p' \<Longrightarrow> environment_table e = environment_table e' \<Longrightarrow>
     merged_tables vs p e = merged_tables vs p' e'"
  by (simp add: merged_tables_def)

lemma globals_stretch:
  "run_alone 1 C (Merging (VF_Globals p e)) s
     = (Finished (commanded (and_then (get_global_variables C (as_db s)) (\<lambda>vs. Ok (R_Variables (merged_tables vs p e))))), s)"
  by (cases "get_global_variables C (as_db s)") (simp_all add: or_fail_def commanded_def)

lemma variables_run:
  assumes syn: "synced C s"
  shows "\<exists>k s'. k \<le> 7 \<and> run_alone k C (start_command (Variables_For i)) s = (Finished (stored_variables C (as_db s) i), s')
     \<and> as_db s' = as_db s"
proof -
  obtain k p s1 where k: "k \<le> 3"
    and ap: "run_alone k C (Active_Project (For_Variables i) AP_Read) s = (project_ready (For_Variables i) p, s1)"
    and s1: "as_db s1 = as_db s" "ac_environment_id (as_active s1) = ac_environment_id (as_active s)"
      "ac_environment (as_active s1) = ac_environment (as_active s)"
    and p: "project_table p = project_table (stored_project C (as_db s))"
    using active_project_phase[OF syn] by metis
  show ?thesis
  proof (cases i)
    case None
    obtain l e s2 where l: "l \<le> 3"
      and ae: "run_alone l C (Active_Environment (For_Merge p) AE_Read) s1 = (environment_ready (For_Merge p) e, s2)"
      and s2: "as_db s2 = as_db s"
      and e: "environment_table e = environment_table (stored_environment C (as_db s))"
      using active_environment_phase[OF syn s1] by metis
    have "run_alone (k + (l + 1)) C (start_command (Variables_For i)) s
        = (Finished (stored_variables C (as_db s) i), s2)"
      unfolding run_alone_add start_command.simps ap
      using ae globals_stretch[of C p e s2]
      by (simp add: None run_alone_add stored_variables_def s2 merged_cong[OF p e] del: run_alone.simps One_nat_def)
    with k l s2 show ?thesis by (intro exI[of _ "k + (l + 1)"] exI[of _ s2]) simp
  next
    case (Some x)
    show ?thesis
    proof (cases "get_environment C x (as_db s)")
      case (Inl err)
      have "run_alone (k + 1) C (start_command (Variables_For i)) s
          = (Finished (stored_variables C (as_db s) i), s1)"
        unfolding run_alone_add start_command.simps ap
        by (simp add: Some s1 Inl or_fail_def stored_variables_def commanded_def)
      with k s1 show ?thesis by (intro exI[of _ "k + 1"] exI[of _ s1]) simp
    next
      case (Inr v)
      have "run_alone (Suc 0) C (Merging (VF_Explicit p x)) s1 = (Merging (VF_Globals p (Some v)), s1)"
        by (simp add: s1 Inr or_fail_def)
      then have "run_alone (k + (Suc 0 + 1)) C (start_command (Variables_For i)) s
          = (Finished (stored_variables C (as_db s) i), s1)"
        unfolding run_alone_add start_command.simps ap
        using globals_stretch[of C p "Some v" s1]
        by (simp add: Some run_alone_add stored_variables_def s1 Inr merged_cong[OF p refl]
            del: run_alone.simps One_nat_def)
      with k s1 show ?thesis by (intro exI[of _ "k + (Suc 0 + 1)"] exI[of _ s1]) simp
    qed
  qed
qed

text \<open>
  C31: The variables a request is rendered with are those of the stored rows, in a session whose
  commands run one after another, whose saved environments keep their owners, and in which no other
  part of the program changes the variables, owners and base addresses of projects and environments or
  the remembered identifiers (\<open>same_context\<close>). Then \<open>variables_for\<close> answers what the database alone
  determines: the remembered project, its remembered environment or the one the request names, and
  the global variables, with the environment before the project before the global ones; no command
  leaves the cache stale, and the question changes nothing in the database. Both conditions are
  needed: commands that overlap can leave a stale project (\<open>stale_project\<close>), and so does a project
  saved by the embedded agent (\<open>agent_base_url_unseen\<close>).
\<close>

theorem variables_follow_database:
  assumes "settings_lawful C" "session C s"
  shows "\<exists>s'. run_command C (Variables_For i) s = (Finished (stored_variables C (as_db s) i), s')
     \<and> as_db s' = as_db s"
proof -
  obtain k s' where k: "k \<le> 7"
    "run_alone k C (start_command (Variables_For i)) s = (Finished (stored_variables C (as_db s) i), s')"
    "as_db s' = as_db s"
    using variables_run[OF session_synced[OF assms]] by blast
  from run_alone_more[OF k(2), of max_stretches] k show ?thesis
    by (simp add: run_command_def max_stretches_def)
qed

lemma variables_follow_database_witness:
  "fst (run_command setting_codec (Variables_For None) demo_selected)
     = Finished (stored_variables setting_codec (as_db demo_selected) None)"
  using variables_follow_database[OF setting_codec_lawful demo_session, of None] by auto


section \<open>Two selections at the same time\<close>

fun run_schedule :: "codec \<Rightarrow> (nat \<times> nat) list \<Rightarrow> active_sys \<Rightarrow> active_sys" where
  "run_schedule C [] y = y"
| "run_schedule C ((i, n) # rest) y =
     (case run_alone n C (ay_tasks y ! i) (ay_state y) of
        (pc, s) \<Rightarrow> run_schedule C rest \<lparr>ay_state = s, ay_tasks = (ay_tasks y)[i := pc]\<rparr>)"

lemma run_schedule_reachable:
  "active_reachable C y \<Longrightarrow> list_all (\<lambda>(i, n). i < length (ay_tasks y)) plan \<Longrightarrow>
     active_reachable C (run_schedule C plan y)"
proof (induction plan arbitrary: y)
  case (Cons q plan)
  obtain i n where q: "q = (i, n)" by fastforce
  obtain pc s where r: "run_alone n C (ay_tasks y ! i) (ay_state y) = (pc, s)" by fastforce
  have "active_reachable C \<lparr>ay_state = s, ay_tasks = (ay_tasks y)[i := pc]\<rparr>"
    using reachable_run[OF Cons.prems(1) _ r] Cons.prems(2) by (simp add: q)
  from Cons.IH[OF this] show ?case using Cons.prems(2) by (simp add: q r)
qed simp

lemma invoked_reachable:
  "active_reachable C y \<Longrightarrow> active_reachable C (y\<lparr>ay_tasks := ay_tasks y @ map start_command cmds\<rparr>)"
proof (induction cmds arbitrary: y)
  case (Cons cmd cmds)
  from Cons.IH[OF active_reachable.Step[OF Cons.prems active_step.Invoke[of C y cmd]]] show ?case by simp
qed simp

text \<open>Two projects, the first with an environment.\<close>

definition race_db :: db where
  "race_db = empty_db\<lparr>
     t_projects := [project_record (project_row setting_codec demo_project) 0,
                    project_record (project_row setting_codec (demo_project\<lparr>pr_id := 4\<rparr>)) 1],
     t_environments := [environment_row setting_codec demo_nonce demo_environment]\<rparr>"

definition race_start :: active_sys where
  "race_start = \<lparr>ay_state = new_app_state race_db,
     ay_tasks = map start_command [Set_Active_Project (Some 2), Set_Active_Environment (Some 3), Set_Active_Project (Some 4)]\<rparr>"

definition race_end :: active_sys where
  "race_end = run_schedule setting_codec [(0, 10), (1, 2), (2, 10), (1, 10)] race_start"

text \<open>
  The selection of the environment has checked it against the first project when the second is
  activated; it is then installed without another look, and the requests of the second project are
  sent with the base address and the variables of the first.
\<close>

lemma race_reachable: "active_reachable setting_codec race_end"
proof -
  have "active_reachable setting_codec race_start"
    using invoked_reachable[OF active_reachable.Opened, of setting_codec race_db
        "[Set_Active_Project (Some 2), Set_Active_Environment (Some 3), Set_Active_Project (Some 4)]"]
    by (simp add: race_start_def)
  then show ?thesis unfolding race_end_def by (rule run_schedule_reachable) (simp add: race_start_def)
qed

lemma race_end_project:
  "list_all (\<lambda>pc. stretches_left pc = 0) (ay_tasks race_end)"
  "ac_project_id (as_active (ay_state race_end)) = Some 4"
  by code_simp+

lemma race_end_environment:
  "map_option en_project_id (ac_environment (as_active (ay_state race_end))) = Some 2"
  "case run_command setting_codec (Variables_For None) (ay_state race_end) of
     (Finished (Inr (R_Variables t)), _) \<Rightarrow> t ''base_url'' = Some ''http'' | _ \<Rightarrow> False"
  by code_simp+

text \<open>
  A project saved while it is being activated: the activation has read the old one and installs it after
  the save has refreshed the cache, where it stays.
\<close>

definition stale_end :: active_sys where
  "stale_end = run_schedule setting_codec [(0, 2), (1, 10), (0, 10)]
     \<lparr>ay_state = new_app_state race_db,
      ay_tasks = map start_command [Set_Active_Project (Some 2), Save_Project (demo_project\<lparr>pr_name := ''q''\<rparr>)]\<rparr>"

lemma stale_reachable: "active_reachable setting_codec stale_end"
  unfolding stale_end_def
  using invoked_reachable[OF active_reachable.Opened, of setting_codec race_db
      "[Set_Active_Project (Some 2), Save_Project (demo_project\<lparr>pr_name := ''q''\<rparr>)]"]
  by (intro run_schedule_reachable) simp_all

lemma stale_project:
  "map_option pr_name (ac_project (as_active (ay_state stale_end))) = Some ''p''"
  "case get_project setting_codec 2 (as_db (ay_state stale_end)) of Inr m \<Rightarrow> pr_name m = ''q'' | _ \<Rightarrow> False"
  by code_simp+

text \<open>
  The embedded agent stores a \<open>base_url\<close> in the active project: the question for the variables goes on
  with the cached project, which has none.
\<close>

lemma agent_base_url_unseen:
  assumes "ac_project (as_active s) = Some m" "pr_variables m ''base_url'' = None"
    and "save_project C (m\<lparr>pr_variables := (pr_variables m)(''base_url'' \<mapsto> origin)\<rparr>) (as_db s) = Ok d"
  shows "run_alone 1 C (start_command (Variables_For i)) (s\<lparr>as_db := d\<rparr>)
    = (project_ready (For_Variables i) (Some m), s\<lparr>as_db := d\<rparr>)"
  using assms(1) by simp

text \<open>An environment moved to another project stays the active one of the first.\<close>

lemma moved_environment:
  "case run_command setting_codec (Save_Environment demo_nonce (demo_environment\<lparr>en_project_id := 4\<rparr>))
      (snd (run_command setting_codec (Set_Active_Environment (Some 3))
        (snd (run_command setting_codec (Set_Active_Project (Some 2)) (new_app_state race_db))))) of
     (pc, s) \<Rightarrow> ac_project_id (as_active s) = Some 2
       \<and> map_option en_project_id (ac_environment (as_active s)) = Some 4"
  by code_simp

end
