(* ===== verification/Spec2Isabelle.thy ===== *)
theory Spec2Isabelle
  imports Variable UrlUtil Curl Mock Cookie Signature Sign HttpClient WsClient TestAssert LoadTest TestRunner RepoLaws RestoreRuns EngineLaws JsonTypeLaws OAuthTasks PostmanLaws OpenApiLaws DocExportLaws ActiveLaws ActiveRuns
begin

text \<open>
  A verification library for RustFox, an API client: a Tauri desktop program whose logic is in the
  Rust crates under \<open>src/crates\<close>. The theories follow those crates.

  \<^bold>\<open>The program and its parts.\<close> \<open>fox-core\<close> holds the domain model, the variable engine, URL helpers
  and the import of curl command lines. \<open>fox-http\<close> sends requests (headers, authentication,
  cookies, retries after a Digest challenge, the bounded reading of a body) and keeps WebSocket
  sessions; \<open>fox-sign\<close> computes signatures. \<open>fox-mock\<close> answers requests from rules. \<open>fox-test\<close> runs
  assertions, collections and load tests. \<open>fox-storage\<close> keeps everything in SQLite, with secrets
  encrypted by \<open>fox-secret\<close>; \<open>fox-backup\<close> and the commands of \<open>fox-tauri\<close> export and restore
  projects. A request flows from a stored endpoint through the variable engine and the URL helpers
  to the client, and its answer to the assertions.

  \<^bold>\<open>Conventions.\<close> \<open>Prelude\<close> has the machine integers (\<open>u8\<close> to \<open>u64\<close> as words), results as sums
  (\<open>Ok\<close>, \<open>Err\<close>, and \<open>and_then\<close> for the question mark operator) and hash tables; where the iteration
  order of a table shows, a table is its entries in that order. \<open>RustStr\<close> has the operations of
  Rust strings, over the bytes of a string. \<open>Store\<close> and \<open>Select\<close> are interfaces used by several
  components: a keyed store, and the choice of a best candidate in one pass. Code of other crates
  is a parameter: digests, AES-GCM, base64, regular expressions, JSON printing and the derived
  \<open>serde\<close> instances, the URL parser, clocks, random numbers and the network. What is assumed of a
  parameter is a premise of the theorem that needs it (\<open>codec_lawful\<close>, \<open>seals\<close>, \<open>text_ok\<close>, ...),
  shown satisfiable by the witness of that theorem.

  \<^bold>\<open>Theories.\<close>
  \<^item> \<open>Model\<close>: \<open>fox-core/src/model.rs\<close> and \<open>error.rs\<close>. Structs are records with the initials of the
    struct as a prefix (\<open>ep_name\<close> of an \<open>Endpoint\<close>), enums are datatypes, JSON values a datatype.
  \<^item> \<open>Variable\<close>: \<open>variable.rs\<close>. \<open>resolve_into\<close> is the recursive resolver with its depth limit of
    ten, an explicit counter; \<open>seq_state\<close> holds the static counters. Shown: the resolver
    implements the token semantics, the limit cannot be observed below nesting depth ten, counters
    count, the tables have the documented precedence.
  \<^item> \<open>UrlUtil\<close>: \<open>util.rs\<close>, path placeholders and the joining of base and path. \<open>Curl\<close>:
    \<open>curl_parser.rs\<close>, one function per match arm; the result equals a declarative reading of the
    option list.
  \<^item> \<open>HttpTypes\<close>, \<open>HttpClient\<close>: \<open>fox-http/src/client.rs\<close>. The transport is a function from requests
    to answers; at most one retry is sent, a body never exceeds its cap. \<open>Cookie\<close>: \<open>cookie.rs\<close>, the
    jar as a table of domains with its invariant and the lookup laws of storing a cookie.
    \<open>Crypto\<close>, \<open>Sign\<close>, \<open>Signature\<close>: \<open>fox-sign\<close> and \<open>signature.rs\<close>, the AWS, Digest, Hawk and key schemes and the payload templates.
  \<^item> \<open>WsClient\<close>: \<open>ws_client.rs\<close> as a step relation \<open>ws_sys\<close> over the state of the background task
    (dialling, session, waiting, closed), with the environment's frames, ticks and failures as the
    steps' inputs. Invariants are proved over all reachable states.
  \<^item> \<open>Mock\<close>: \<open>fox-mock/src/server.rs\<close>. The indexed route table refines the linear search.
  \<^item> \<open>TestAssert\<close>, \<open>WorkerPool\<close>, \<open>LoadTest\<close>, \<open>TestRunner\<close>: \<open>fox-test\<close>. The pools of workers are step
    relations with interleaving; the lemmas of \<open>WorkerPool\<close> are shared by both. Every request is
    sent and counted exactly once, the pools terminate, one worker is the serial run.
  \<^item> \<open>Secret\<close>: \<open>fox-secret/src/lib.rs\<close>, a world of a cache and a disk with its
    failures; the key survives restarts unless a copy of an older key file broke off midway.
  \<^item> \<open>Rows\<close>, \<open>RowsMore\<close>: \<open>repository/rows.rs\<close> and the row structs of other files. A \<open>codec\<close> has the
    parameters of a row: texts of identifiers and times, serde instances, the key. Rows read back
    as what was written.
  \<^item> \<open>Database\<close>: the schema after the last migration as a record of tables, with primary keys and
    references (\<open>keys_ok\<close>, \<open>fk_ok\<close>), and the statements the code uses; the locale \<open>upserted\<close> states
    the interface of a table written by upserts. \<open>RepoTree\<close>, \<open>RepoData\<close>: one definition per function
    of \<open>repository/*.rs\<close>, from database to database. \<open>Subtree\<close>: the recursive query as a
    \<open>partial_function\<close>; it returns exactly when no folder below the start is its own ancestor.
    \<open>RepoLaws\<close>: interpretations of \<open>upserted\<close>, the invariant of all reachable databases, the bound of
    the history, batches against single writes.
  \<^item> \<open>Backup\<close>: \<open>fox-backup/src/lib.rs\<close>. \<open>BackupFlow\<close>, \<open>RestoreRuns\<close>: \<open>commands/backup.rs\<close>. A restored
    project is an injective renaming of the exported one, its writes succeed on a well-formed file
    and fail as a whole when a folder precedes its parent; global state is merged conservatively,
    with the draws of counters that fall between its reading and its writing as an argument.

  \<^item> \<open>Codegen\<close>: \<open>fox-codegen/src/lib.rs\<close> and \<open>util.rs\<close>, the generated texts byte for byte.
    \<open>CodegenShell\<close>: a reader of shell words; a generated curl command is read as its intended words,
    and the importer of \<open>Curl\<close> reads the request back. \<open>CodegenLaws\<close>: the merged headers, and what a
    string literal means to the target language. \<open>JsonTypes\<close>, \<open>JsonTypeLaws\<close>: \<open>json_types\<close>, structs from a
    JSON sample; the inferred type fits the sample, the declarations refer only to declared structs.
    \<open>Engine\<close>, \<open>EngineLaws\<close>: the registry of generators and its built-in ones; what they print does not
    depend on the iteration order of a hash table.
  \<^item> \<open>OAuth\<close>: \<open>fox-oauth\<close>, one definition per stretch between two waits. \<open>OAuthTasks\<close>: calls as tasks over a
    table of locks, the interleaving as a step relation; one refresh at a time per key, its result is
    handed to the calls that waited for it, an authorization checks its state.
  \<^item> \<open>ImportDoc\<close>, \<open>OpenApi\<close>, \<open>Swagger2\<close>, \<open>Postman\<close>: \<open>fox-openapi\<close>, the importers and exporters of the
    three document formats over JSON values, with the readers and printers in \<open>doc_env\<close> and the
    typed documents of \<open>openapiv3\<close> as records. \<open>OpenApiLaws\<close>, \<open>PostmanLaws\<close>: what an export keeps when
    it is imported again, and the normal form of an OpenAPI 3.1 document. \<open>DocMarkdown\<close>, \<open>DocHtml\<close>:
    the Markdown, smoke test and HTML documents byte for byte; user data is inert in the HTML.
    \<open>DocExport\<close>, \<open>DocExportLaws\<close>: \<open>commands/import_export.rs\<close> over the repositories; a shell reads
    the exported script as one command per endpoint, and suggested file names are safe.

  \<^item> \<open>CommandError\<close>: \<open>fox-tauri/src/error.rs\<close>. \<open>ActiveState\<close>: \<open>fox-tauri/src/state.rs\<close> and the commands of
    \<open>commands/project.rs\<close> and \<open>commands/environment.rs\<close> on the active project and environment, as tasks
    that interleave at their queries and at the lock. \<open>ActiveLaws\<close>: under every interleaving the
    cached objects are those of the active identifiers. \<open>ActiveRuns\<close>: one after another, the commands
    keep the context a cache of the database (an assertion at every place of a command), so variables
    and a restart follow the stored rows; and the interleavings with which they do not.

  \<^bold>\<open>Loops and bounds.\<close> Loops are structural or have a measure; the subtree query is the only one that
  need not end and is a \<open>partial_function\<close>. The background task of the WebSocket client and the
  pools run as steps. Counters and ports are words with their wrap-around or checks as in the code.

  \<^bold>\<open>Not modelled.\<close> Byte-level I/O, the start-up of the program, windows and menus; the text of most
  messages shown to the user, which are glossed in English; the lock around the master key, since a
  world has one thread; failures of the disk inside SQLite; logging; the pipeline of the desktop shell around one
  request (\<open>commands/request.rs\<close>) and the agent interface (\<open>fox-agent\<close>), whose effects on the database
  enter only where a theorem names them.
\<close>

end
